(* ===== verification/Task_Queue.thy ===== *)
theory Task_Queue
  imports Trains_Prelude
begin

text \<open>
  The queue template \<open>kernel/src/queue.h\<close>: a circular doubly-linked list threaded through
  task descriptors, included once with the fields \<open>prev\<close>/\<open>next\<close> (\<open>ready_queue.c\<close>) and once
  with \<open>prevmsg\<close>/\<open>nextmsg\<close> (\<open>send_queue.c\<close>). Descriptors live in the array \<open>all_tasks\<close>,
  so a non-NULL \<open>task_descriptor *\<close> is an index into it and NULL is \<open>None\<close>. The two link
  fields of all descriptors form a \<open>dlinks\<close> store; a queue is the pointer to its head.
  Following a NULL link is \<open>None\<close>.
\<close>

type_synonym tptr = nat

record dlinks =
  lprev :: "tptr \<Rightarrow> tptr option"
  lnext :: "tptr \<Rightarrow> tptr option"

definition set_prev :: "tptr \<Rightarrow> tptr option \<Rightarrow> dlinks \<Rightarrow> dlinks" where
  "set_prev t p L = L\<lparr>lprev := (lprev L)(t := p)\<rparr>"

definition set_next :: "tptr \<Rightarrow> tptr option \<Rightarrow> dlinks \<Rightarrow> dlinks" where
  "set_next t p L = L\<lparr>lnext := (lnext L)(t := p)\<rparr>"

definition queue_is_empty :: "tptr option \<Rightarrow> bool" where
  "queue_is_empty q \<longleftrightarrow> q = None"

definition queue_has_one_element :: "dlinks \<Rightarrow> tptr option \<Rightarrow> bool option" where
  "queue_has_one_element L q = do { head \<leftarrow> q; Some (lnext L head = Some head) }"

text \<open>The \<open>do ... while\<close> of \<open>LENGTH\<close>: \<open>None\<close> also when it never comes back to the head.\<close>

partial_function (option) queue_length_loop ::
  "dlinks \<Rightarrow> tptr \<Rightarrow> tptr \<Rightarrow> nat \<Rightarrow> nat option" where
  "queue_length_loop L head td len = do {
     td' \<leftarrow> lnext L td;
     if td' = head then Some (len + 1) else queue_length_loop L head td' (len + 1)
   }"

definition queue_length :: "dlinks \<Rightarrow> tptr option \<Rightarrow> nat option" where
  "queue_length L q =
     (case q of None \<Rightarrow> Some 0 | Some head \<Rightarrow> queue_length_loop L head head 0)"

definition queue_enqueue :: "dlinks \<Rightarrow> tptr option \<Rightarrow> tptr \<Rightarrow> (dlinks \<times> tptr option) option" where
  "queue_enqueue L q td =
     (case q of
        None \<Rightarrow> Some (set_next td (Some td) (set_prev td (Some td) L), Some td)
      | Some head \<Rightarrow> do {
          tail \<leftarrow> lprev L head;
          let L1 = set_prev head (Some td) L;
          let L2 = set_next tail (Some td) L1;
          let L3 = set_prev td (Some tail) L2;
          let L4 = set_next td (Some head) L3;
          Some (L4, q)
        })"

definition queue_dequeue ::
  "dlinks \<Rightarrow> tptr option \<Rightarrow> (dlinks \<times> tptr option \<times> tptr option) option" where
  "queue_dequeue L q =
     (if queue_is_empty q then Some (L, q, None)
      else do {
        one \<leftarrow> queue_has_one_element L q;
        head \<leftarrow> q;
        if one then Some (L, None, Some head)
        else do {
          new_head \<leftarrow> lnext L head;
          tail \<leftarrow> lprev L head;
          let L1 = set_prev new_head (Some tail) L;
          let L2 = set_next tail (Some new_head) L1;
          Some (L2, Some new_head, Some head)
        }
      })"

definition queue_remove ::
  "dlinks \<Rightarrow> tptr option \<Rightarrow> tptr \<Rightarrow> (dlinks \<times> tptr option) option" where
  "queue_remove L q td =
     (if queue_is_empty q then Some (L, q)
      else do {
        one \<leftarrow> queue_has_one_element L q;
        if one then Some (L, None)
        else do {
          prev \<leftarrow> lprev L td;
          next \<leftarrow> lnext L td;
          let L1 = set_prev next (Some prev) L;
          let L2 = set_next prev (Some next) L1;
          Some (L2, if q = Some td then Some next else q)
        }
      })"

text \<open>
  Abstraction: \<open>queue_rep L q xs\<close> says that the queue \<open>q\<close> holds exactly the descriptors
  \<open>xs\<close>, in order: the next links lead from the head through \<open>xs\<close> back to the head, and the
  head's prev link is the tail. Enqueueing and dequeueing need no more. \<open>queue_linked L xs\<close> says
  that the other prev links are right too, which \<open>REMOVE\<close> relies on.
\<close>

primrec seg :: "dlinks \<Rightarrow> tptr \<Rightarrow> tptr list \<Rightarrow> tptr \<Rightarrow> bool" where
  "seg L x [] y \<longleftrightarrow> lnext L x = Some y"
| "seg L x (z # zs) y \<longleftrightarrow> lnext L x = Some z \<and> seg L z zs y"

primrec bwd :: "dlinks \<Rightarrow> tptr \<Rightarrow> tptr list \<Rightarrow> bool" where
  "bwd L x [] \<longleftrightarrow> True"
| "bwd L x (z # zs) \<longleftrightarrow> lprev L z = Some x \<and> bwd L z zs"

definition queue_rep :: "dlinks \<Rightarrow> tptr option \<Rightarrow> tptr list \<Rightarrow> bool" where
  "queue_rep L q xs \<longleftrightarrow> distinct xs \<and>
     (case xs of [] \<Rightarrow> q = None
      | h # ys \<Rightarrow> q = Some h \<and> seg L h ys h \<and> lprev L h = Some (last xs))"

definition queue_linked :: "dlinks \<Rightarrow> tptr list \<Rightarrow> bool" where
  "queue_linked L xs \<longleftrightarrow> (case xs of [] \<Rightarrow> True | h # ys \<Rightarrow> bwd L h ys)"

definition same_links :: "tptr \<Rightarrow> dlinks \<Rightarrow> dlinks \<Rightarrow> bool" where
  "same_links t L L' \<longleftrightarrow> lprev L' t = lprev L t \<and> lnext L' t = lnext L t"

lemma link_sels [simp]:
  "lprev (set_prev t p L) = (lprev L)(t := p)" "lnext (set_prev t p L) = lnext L"
  "lnext (set_next t p L) = (lnext L)(t := p)" "lprev (set_next t p L) = lprev L"
  by (simp_all add: set_prev_def set_next_def)

lemma seg_append [simp]: "seg L x (xs @ y # ys) z \<longleftrightarrow> seg L x xs y \<and> seg L y ys z"
  by (induction xs arbitrary: x) auto

lemma bwd_append [simp]:
  "bwd L x (xs @ y # ys) \<longleftrightarrow> bwd L x xs \<and> lprev L y = Some (last (x # xs)) \<and> bwd L y ys"
  by (induction xs arbitrary: x) auto

lemma seg_cong:
  "seg L x xs y \<Longrightarrow> (\<And>u. u \<in> insert x (set xs) \<Longrightarrow> lnext L' u = lnext L u) \<Longrightarrow> seg L' x xs y"
  by (induction xs arbitrary: x) auto

lemma bwd_cong: "bwd L x xs \<Longrightarrow> (\<And>u. u \<in> set xs \<Longrightarrow> lprev L' u = lprev L u) \<Longrightarrow> bwd L' x xs"
  by (induction xs arbitrary: x) auto

lemma queue_rep_Nil [simp]: "queue_rep L q [] \<longleftrightarrow> q = None"
  by (simp add: queue_rep_def)

lemma queue_rep_Cons [simp]:
  "queue_rep L q (h # xs) \<longleftrightarrow> q = Some h \<and> h \<notin> set xs \<and> distinct xs \<and> seg L h xs h \<and>
     lprev L h = Some (last (h # xs))"
  by (auto simp: queue_rep_def)

lemma queue_linked_simps [simp]:
  "queue_linked L []" "queue_linked L (h # xs) \<longleftrightarrow> bwd L h xs"
  by (simp_all add: queue_linked_def)

lemma queue_rep_distinct: "queue_rep L q xs \<Longrightarrow> distinct xs"
  by (simp add: queue_rep_def)

lemma queue_rep_cong:
  "queue_rep L q xs \<Longrightarrow> (\<And>t. t \<in> set xs \<Longrightarrow> same_links t L L') \<Longrightarrow> queue_rep L' q xs"
  by (cases xs) (auto simp: same_links_def intro: seg_cong)

lemma queue_linked_cong:
  "queue_linked L xs \<Longrightarrow> (\<And>t. t \<in> set xs \<Longrightarrow> same_links t L L') \<Longrightarrow> queue_linked L' xs"
  by (cases xs) (auto simp: same_links_def intro: bwd_cong)

lemma queue_rep_head: "queue_rep L q xs \<Longrightarrow> q = (if xs = [] then None else Some (hd xs))"
  by (cases xs) auto

lemma queue_is_empty_rep [simp]: "queue_rep L q xs \<Longrightarrow> queue_is_empty q \<longleftrightarrow> xs = []"
  by (cases xs) (auto simp: queue_is_empty_def)

lemma queue_rep_one: "queue_rep L q (h # xs) \<Longrightarrow> queue_has_one_element L q = Some (xs = [])"
  by (cases xs) (auto simp: queue_has_one_element_def)

lemma queue_enqueue_rep:
  assumes rep: "queue_rep L q xs" and t: "t \<notin> set xs"
  shows "\<exists>L' q'. queue_enqueue L q t = Some (L', q') \<and> queue_rep L' q' (xs @ [t]) \<and>
    (queue_linked L xs \<longrightarrow> queue_linked L' (xs @ [t])) \<and>
    (\<forall>u. u \<notin> set (xs @ [t]) \<longrightarrow> same_links u L L')"
proof (cases xs)
  case Nil
  then show ?thesis using rep by (simp add: queue_enqueue_def same_links_def)
next
  case (Cons h ys)
  show ?thesis
  proof (cases ys rule: rev_cases)
    case Nil
    then show ?thesis using rep t Cons by (simp add: queue_enqueue_def same_links_def)
  next
    case (snoc zs l)
    then have "seg L h zs l" "lprev L h = Some l" "h \<noteq> l" "l \<notin> set zs" "h \<notin> set zs" "t \<noteq> h"
      "t \<noteq> l" "t \<notin> set zs" "q = Some h" "distinct zs"
      using rep t Cons by auto
    then show ?thesis
      using snoc Cons
      by (auto simp: queue_enqueue_def same_links_def intro: seg_cong bwd_cong)
  qed
qed

text \<open>
  Enqueueing the descriptor that is already at the tail leaves the queue as it is, except that
  the tail's prev link now leads to itself.
\<close>

lemma queue_enqueue_tail:
  assumes rep: "queue_rep L q (xs @ [t])"
  shows "\<exists>L'. queue_enqueue L q t = Some (L', q) \<and> queue_rep L' q (xs @ [t]) \<and>
    lprev L' t = Some t \<and> (\<forall>u. u \<notin> set (xs @ [t]) \<longrightarrow> same_links u L L')"
proof (cases xs)
  case Nil
  then show ?thesis using rep by (simp add: queue_enqueue_def same_links_def)
next
  case (Cons h ys)
  then have "seg L h ys t" "lprev L h = Some t" "h \<noteq> t" "t \<notin> set ys" "h \<notin> set ys"
    "q = Some h" "distinct ys"
    using rep by auto
  then show ?thesis
    using Cons by (auto simp: queue_enqueue_def same_links_def intro: seg_cong)
qed

lemma queue_dequeue_empty: "queue_rep L q [] \<Longrightarrow> queue_dequeue L q = Some (L, q, None)"
  by (simp add: queue_dequeue_def queue_is_empty_def)

lemma queue_dequeue_rep:
  assumes rep: "queue_rep L q (h # xs)"
  shows "\<exists>L' q'. queue_dequeue L q = Some (L', q', Some h) \<and> queue_rep L' q' xs \<and>
    (queue_linked L (h # xs) \<longrightarrow> queue_linked L' xs) \<and>
    (\<forall>u. u \<notin> set xs \<longrightarrow> same_links u L L')"
proof (cases xs)
  case Nil
  then show ?thesis
    using rep queue_rep_one [OF rep] by (auto simp: queue_dequeue_def queue_is_empty_def same_links_def)
next
  case (Cons n ys)
  show ?thesis
  proof (cases ys rule: rev_cases)
    case Nil
    then show ?thesis using rep Cons queue_rep_one [OF rep]
      by (simp add: queue_dequeue_def queue_is_empty_def same_links_def)
  next
    case (snoc zs l)
    then have "seg L n zs l" "lprev L h = Some l" "n \<noteq> l" "l \<notin> set zs" "n \<notin> set zs" "q = Some h"
      "lnext L h = Some n" "distinct zs"
      using rep Cons by auto
    then show ?thesis using snoc Cons queue_rep_one [OF rep]
      by (auto simp: queue_dequeue_def queue_is_empty_def same_links_def
          intro: seg_cong bwd_cong)
  qed
qed

lemma queue_remove_rep:
  assumes rep: "queue_rep L q xs" and bk: "queue_linked L xs" and t: "t \<in> set xs"
  shows "\<exists>L' q'. queue_remove L q t = Some (L', q') \<and> queue_rep L' q' (remove1 t xs) \<and>
    queue_linked L' (remove1 t xs) \<and> (\<forall>u. u \<notin> set (remove1 t xs) \<longrightarrow> same_links u L L')"
proof (cases xs)
  case (Cons h ys)
  note one = queue_rep_one [OF rep [unfolded Cons]]
  show ?thesis
  proof (cases "t = h")
    case True
    then have "queue_remove L q t = map_option (\<lambda>(L', q', _). (L', q')) (queue_dequeue L q)"
      using rep Cons
      by (cases "queue_has_one_element L q")
         (auto simp: queue_remove_def queue_dequeue_def Let_def split: Option.bind_splits)
    then show ?thesis
      using queue_dequeue_rep [OF rep [unfolded Cons]] Cons True bk by auto
  next
    case False
    then obtain as bs where ys: "ys = as @ t # bs" "t \<notin> set as"
      using t Cons by (auto dest: split_list_first)
    then have r: "remove1 t xs = h # as @ bs" using Cons False by (simp add: remove1_append)
    have q: "q = Some h" "ys \<noteq> []" using rep Cons ys by simp_all
    show ?thesis
      using rep bk ys Cons q one r False
      by (cases as rule: rev_cases; cases bs)
         (auto simp: queue_remove_def queue_is_empty_def same_links_def
           intro: seg_cong bwd_cong split: if_splits)
  qed
qed (use t in simp)

lemma queue_length_loop_rep:
  "seg L x xs h \<Longrightarrow> h \<notin> set xs \<Longrightarrow> queue_length_loop L h x n = Some (n + Suc (length xs))"
  by (induction xs arbitrary: x n) (subst queue_length_loop.simps; auto)+

lemma queue_length_rep: "queue_rep L q xs \<Longrightarrow> queue_length L q = Some (length xs)"
  by (cases xs) (auto simp: queue_length_def queue_length_loop_rep)

text \<open>
  \<open>REMOVE\<close> never looks whether \<open>td\<close> is in the queue: on a queue of one element it empties the
  queue whatever \<open>td\<close> is.
\<close>

lemma queue_remove_single:
  "queue_rep L q [h] \<Longrightarrow> queue_remove L q t = Some (L, None)"
  by (auto simp: queue_remove_def queue_is_empty_def queue_has_one_element_def)

text \<open>
  a descriptor enqueued twice in a row (as \<open>Pass\<close> does, once in \<open>syscall_pass\<close> and once more in
  \<open>schedule\<close>) leaves the order of the queue as it is, but its prev link then leads to itself, and
  \<open>REMOVE\<close> of that descriptor, which \<open>Kill\<close> relies on, no longer takes it out.
\<close>

theorem queue_double_enqueue_remove:
  assumes rep: "queue_rep L q (h # xs)" and t: "t \<notin> set (h # xs)"
  shows "\<exists>L1 L2 L3. queue_enqueue L q t = Some (L1, q) \<and> queue_enqueue L1 q t = Some (L2, q) \<and>
    queue_rep L2 q (h # xs @ [t]) \<and>
    queue_remove L2 q t = Some (L3, q) \<and> queue_rep L3 q (h # xs @ [t])"
proof -
  obtain L1 q1 where 1: "queue_enqueue L q t = Some (L1, q1)" "queue_rep L1 q1 ((h # xs) @ [t])"
    using queue_enqueue_rep [OF rep t] by blast
  have q: "q1 = q" using rep 1(2) by auto
  obtain L2 where 2: "queue_enqueue L1 q t = Some (L2, q)" "queue_rep L2 q ((h # xs) @ [t])"
    "lprev L2 t = Some t" using queue_enqueue_tail [OF 1(2)] q by blast
  define L3 where "L3 = set_next t (Some h) (set_prev h (Some t) L2)"
  have n: "lnext L2 t = Some h" "lnext L2 h \<noteq> Some h" "t \<noteq> h" "q = Some h"
    using 2(2) t by (cases xs; auto)+
  then have "queue_remove L2 q t = Some (L3, q)"
    by (simp add: queue_remove_def queue_is_empty_def queue_has_one_element_def 2(3) L3_def)
  moreover have "queue_rep L3 q ((h # xs) @ [t])"
  proof (rule queue_rep_cong [OF 2(2)])
    show "same_links u L2 L3" for u
      using 2(2) n by (auto simp: same_links_def L3_def)
  qed
  ultimately show ?thesis using 1(1) 2(1,2) q by auto
qed

theorem queue_double_enqueue_remove_witness:
  "\<exists>L1 L2 L3. queue_enqueue \<lparr>lprev = [2 \<mapsto> 2], lnext = [2 \<mapsto> 2]\<rparr> (Some 2) 5 = Some (L1, Some 2) \<and>
     queue_enqueue L1 (Some 2) 5 = Some (L2, Some 2) \<and>
     queue_remove L2 (Some 2) 5 = Some (L3, Some 2) \<and> queue_rep L3 (Some 2) [2, 5]"
  using queue_double_enqueue_remove [of "\<lparr>lprev = [2 \<mapsto> 2], lnext = [2 \<mapsto> 2]\<rparr>" "Some 2" 2 "[]" 5]
  by auto

text \<open>
  The interface: FIFO queues of descriptors whose links live in one shared store. The kernel
  keeps a bank of them (one ready queue per priority, one send queue per task); the locale
  proves once that an operation on one queue of the bank leaves the others as they are.
\<close>

locale fifo_queue =
  fixes rep :: "'l \<Rightarrow> 'q \<Rightarrow> nat list \<Rightarrow> bool"
    and linked :: "'l \<Rightarrow> nat list \<Rightarrow> bool"
    and same :: "nat \<Rightarrow> 'l \<Rightarrow> 'l \<Rightarrow> bool"
    and emp :: "'q \<Rightarrow> bool"
    and enq :: "'l \<Rightarrow> 'q \<Rightarrow> nat \<Rightarrow> ('l \<times> 'q) option"
    and deq :: "'l \<Rightarrow> 'q \<Rightarrow> ('l \<times> 'q \<times> nat option) option"
    and rem :: "'l \<Rightarrow> 'q \<Rightarrow> nat \<Rightarrow> ('l \<times> 'q) option"
  assumes rep_cong: "rep L q xs \<Longrightarrow> (\<And>t. t \<in> set xs \<Longrightarrow> same t L L') \<Longrightarrow> rep L' q xs"
    and rep_distinct: "rep L q xs \<Longrightarrow> distinct xs"
    and emp_rep: "rep L q xs \<Longrightarrow> emp q \<longleftrightarrow> xs = []"
    and rep_emp: "emp q \<Longrightarrow> rep L q []"
    and linked_cong: "linked L xs \<Longrightarrow> (\<And>t. t \<in> set xs \<Longrightarrow> same t L L') \<Longrightarrow> linked L' xs"
    and linked_nil: "linked L []"
    and enq_rep: "rep L q xs \<Longrightarrow> t \<notin> set xs \<Longrightarrow> \<exists>L' q'. enq L q t = Some (L', q') \<and>
      rep L' q' (xs @ [t]) \<and> (linked L xs \<longrightarrow> linked L' (xs @ [t])) \<and>
      (\<forall>u. u \<notin> set (xs @ [t]) \<longrightarrow> same u L L')"
    and enq_tail: "rep L q (xs @ [t]) \<Longrightarrow> \<exists>L'. enq L q t = Some (L', q) \<and> rep L' q (xs @ [t]) \<and>
      (\<forall>u. u \<notin> set (xs @ [t]) \<longrightarrow> same u L L')"
    and deq_nil: "rep L q [] \<Longrightarrow> deq L q = Some (L, q, None)"
    and deq_rep: "rep L q (h # xs) \<Longrightarrow> \<exists>L' q'. deq L q = Some (L', q', Some h) \<and>
      rep L' q' xs \<and> (linked L (h # xs) \<longrightarrow> linked L' xs) \<and> (\<forall>u. u \<notin> set xs \<longrightarrow> same u L L')"
    and rem_rep: "rep L q xs \<Longrightarrow> linked L xs \<Longrightarrow> t \<in> set xs \<Longrightarrow> \<exists>L' q'.
      rem L q t = Some (L', q') \<and> rep L' q' (remove1 t xs) \<and> linked L' (remove1 t xs) \<and>
      (\<forall>u. u \<notin> set (remove1 t xs) \<longrightarrow> same u L L')"
begin

definition bank :: "'l \<Rightarrow> 'i set \<Rightarrow> ('i \<Rightarrow> 'q) \<Rightarrow> ('i \<Rightarrow> nat list) \<Rightarrow> bool" where
  "bank L I qs Q \<longleftrightarrow> (\<forall>i\<in>I. rep L (qs i) (Q i)) \<and>
     (\<forall>i\<in>I. \<forall>j\<in>I. i \<noteq> j \<longrightarrow> set (Q i) \<inter> set (Q j) = {})"

lemma bank_mem: "bank L I qs Q \<Longrightarrow> i \<in> I \<Longrightarrow> rep L (qs i) (Q i)"
  by (simp add: bank_def)

lemma bank_disjoint:
  "bank L I qs Q \<Longrightarrow> i \<in> I \<Longrightarrow> j \<in> I \<Longrightarrow> t \<in> set (Q i) \<Longrightarrow> t \<in> set (Q j) \<Longrightarrow> i = j"
  unfolding bank_def by (meson disjoint_iff)

lemma bank_update:
  assumes b: "bank L I qs Q" and i: "i \<in> I" and r: "rep L' q' xs"
    and s: "\<And>u. u \<notin> set (Q i) \<union> set xs \<Longrightarrow> same u L L'"
    and d: "\<And>j. j \<in> I \<Longrightarrow> j \<noteq> i \<Longrightarrow> set xs \<inter> set (Q j) = {}"
  shows "bank L' I (qs(i := q')) (Q(i := xs))"
proof -
  have rj: "rep L' (qs j) (Q j)" if j: "j \<in> I" "j \<noteq> i" for j
  proof (rule rep_cong)
    show "rep L (qs j) (Q j)" using b j by (simp add: bank_def)
    show "same t L L'" if "t \<in> set (Q j)" for t
      using bank_disjoint [OF b i j(1) _ that] d [OF j] j(2) that by (intro s) auto
  qed
  have "set ((Q(i := xs)) j) \<inter> set ((Q(i := xs)) k) = {}" if "j \<in> I" "k \<in> I" "j \<noteq> k" for j k
  proof -
    have "set (Q j) \<inter> set (Q k) = {}"
      using bank_disjoint [OF b that(1,2)] that(3) by (auto simp: disjoint_iff)
    then show ?thesis
      using d [OF that(1)] d [OF that(2)] that(3)
      by (cases "j = i"; cases "k = i") (simp_all add: Int_commute [of "set (Q _)" "set xs"])
  qed
  with rj r show ?thesis unfolding bank_def by (intro conjI ballI impI) simp_all
qed

lemma bank_emp: "bank L I qs Q \<Longrightarrow> i \<in> I \<Longrightarrow> emp (qs i) \<longleftrightarrow> Q i = []"
  by (rule emp_rep) (rule bank_mem)

definition bank_linked :: "'l \<Rightarrow> 'i set \<Rightarrow> ('i \<Rightarrow> nat list) \<Rightarrow> bool" where
  "bank_linked L I Q \<longleftrightarrow> (\<forall>i\<in>I. linked L (Q i))"

lemma bank_linked_update:
  assumes b: "bank L I qs Q" and i: "i \<in> I" and r: "linked L' xs"
    and s: "\<And>u. u \<notin> set (Q i) \<union> set xs \<Longrightarrow> same u L L'"
    and d: "\<And>j. j \<in> I \<Longrightarrow> j \<noteq> i \<Longrightarrow> set xs \<inter> set (Q j) = {}"
    and l: "bank_linked L I Q"
  shows "bank_linked L' I (Q(i := xs))"
proof -
  have "linked L' (Q j)" if j: "j \<in> I" "j \<noteq> i" for j
  proof (rule linked_cong)
    show "linked L (Q j)" using l j by (simp add: bank_linked_def)
    show "same t L L'" if "t \<in> set (Q j)" for t
      using bank_disjoint [OF b i j(1) _ that] d [OF j] j(2) that by (intro s) auto
  qed
  then show ?thesis using r by (simp add: bank_linked_def)
qed

lemma bank_enq:
  assumes b: "bank L I qs Q" and i: "i \<in> I" and t: "\<And>j. j \<in> I \<Longrightarrow> t \<notin> set (Q j)"
  shows "\<exists>L' q'. enq L (qs i) t = Some (L', q') \<and> bank L' I (qs(i := q')) (Q(i := Q i @ [t])) \<and>
    (bank_linked L I Q \<longrightarrow> bank_linked L' I (Q(i := Q i @ [t]))) \<and> \<not> emp q'"
proof -
  obtain L' q' where *: "enq L (qs i) t = Some (L', q')" "rep L' q' (Q i @ [t])"
    "linked L (Q i) \<longrightarrow> linked L' (Q i @ [t])" "\<And>u. u \<notin> set (Q i @ [t]) \<Longrightarrow> same u L L'"
    using enq_rep [OF bank_mem [OF b i] t [OF i]] by blast
  have d: "set (Q i @ [t]) \<inter> set (Q j) = {}" if "j \<in> I" "j \<noteq> i" for j
    using bank_disjoint [OF b i that(1)] t [OF that(1)] that(2) by auto
  have "bank L' I (qs(i := q')) (Q(i := Q i @ [t]))"
    using * by (intro bank_update [OF b i] d) auto
  moreover have "bank_linked L' I (Q(i := Q i @ [t]))" if "bank_linked L I Q"
    using * that i by (intro bank_linked_update [OF b i] d) (auto simp: bank_linked_def)
  ultimately show ?thesis using emp_rep [OF *(2)] *(1) by auto
qed

lemma bank_enq_tail:
  assumes b: "bank L I qs Q" and i: "i \<in> I" and t: "Q i = xs @ [t]"
  shows "\<exists>L'. enq L (qs i) t = Some (L', qs i) \<and> bank L' I qs Q \<and> \<not> emp (qs i)"
proof -
  have r: "rep L (qs i) (xs @ [t])" using bank_mem [OF b i] t by simp
  then obtain L' where *: "enq L (qs i) t = Some (L', qs i)" "rep L' (qs i) (xs @ [t])"
    "\<And>u. u \<notin> set (xs @ [t]) \<Longrightarrow> same u L L'"
    using enq_tail by blast
  have "set (xs @ [t]) \<inter> set (Q j) = {}" if "j \<in> I" "j \<noteq> i" for j
    using bank_disjoint [OF b i that(1)] that(2) unfolding t by auto
  then have "bank L' I (qs(i := qs i)) (Q(i := xs @ [t]))"
    using * by (intro bank_update [OF b i]) auto
  then show ?thesis using *(1) emp_rep [OF r] t by (simp add: fun_upd_idem)
qed

lemma bank_deq:
  assumes b: "bank L I qs Q" and i: "i \<in> I" and h: "Q i = h # xs"
  shows "\<exists>L' q'. deq L (qs i) = Some (L', q', Some h) \<and> bank L' I (qs(i := q')) (Q(i := xs)) \<and>
    (bank_linked L I Q \<longrightarrow> bank_linked L' I (Q(i := xs))) \<and> (emp q' \<longleftrightarrow> xs = [])"
proof -
  obtain L' q' where *: "deq L (qs i) = Some (L', q', Some h)" "rep L' q' xs"
    "linked L (Q i) \<longrightarrow> linked L' xs" "\<And>u. u \<notin> set xs \<Longrightarrow> same u L L'"
    using deq_rep [OF bank_mem [OF b i, unfolded h]] h by auto
  have d: "set xs \<inter> set (Q j) = {}" if "j \<in> I" "j \<noteq> i" for j
    using bank_disjoint [OF b i that(1)] that(2) h by auto
  have "bank L' I (qs(i := q')) (Q(i := xs))"
    using * by (intro bank_update [OF b i] d) auto
  moreover have "bank_linked L' I (Q(i := xs))" if "bank_linked L I Q"
    using * that i by (intro bank_linked_update [OF b i] d) (auto simp: bank_linked_def)
  ultimately show ?thesis using emp_rep [OF *(2)] *(1) by auto
qed

lemma bank_rem:
  assumes b: "bank L I qs Q" and l: "bank_linked L I Q" and i: "i \<in> I" and t: "t \<in> set (Q i)"
  shows "\<exists>L' q'. rem L (qs i) t = Some (L', q') \<and>
    bank L' I (qs(i := q')) (Q(i := remove1 t (Q i))) \<and>
    bank_linked L' I (Q(i := remove1 t (Q i))) \<and> (emp q' \<longleftrightarrow> remove1 t (Q i) = [])"
proof -
  have "linked L (Q i)" using l i by (simp add: bank_linked_def)
  then obtain L' q' where *: "rem L (qs i) t = Some (L', q')" "rep L' q' (remove1 t (Q i))"
    "linked L' (remove1 t (Q i))" "\<And>u. u \<notin> set (remove1 t (Q i)) \<Longrightarrow> same u L L'"
    using rem_rep [OF bank_mem [OF b i] _ t] by blast
  have d: "set (remove1 t (Q i)) \<inter> set (Q j) = {}" if "j \<in> I" "j \<noteq> i" for j
    using bank_disjoint [OF b i that(1)] that(2) by (auto dest: notin_set_remove1)
  have "bank L' I (qs(i := q')) (Q(i := remove1 t (Q i)))"
    using * by (intro bank_update [OF b i] d) auto
  moreover have "bank_linked L' I (Q(i := remove1 t (Q i)))"
    using * l by (intro bank_linked_update [OF b i] d) auto
  ultimately show ?thesis using emp_rep [OF *(2)] *(1) by auto
qed

lemma bank_cong:
  "bank L I qs Q \<Longrightarrow> (\<And>i. i \<in> I \<Longrightarrow> qs' i = qs i) \<Longrightarrow> (\<And>i. i \<in> I \<Longrightarrow> Q' i = Q i) \<Longrightarrow> bank L I qs' Q'"
  by (simp add: bank_def)

lemma bank_frame:
  "bank L I qs Q \<Longrightarrow> (\<And>i t. i \<in> I \<Longrightarrow> t \<in> set (Q i) \<Longrightarrow> same t L L') \<Longrightarrow> bank L' I qs Q"
  by (auto simp: bank_def intro: rep_cong)

lemma bank_clear:
  assumes "bank L I qs Q" "emp q'"
  shows "bank L I (qs(i := q')) (Q(i := []))"
  using assms rep_emp by (auto simp: bank_def)

end

interpretation tq: fifo_queue queue_rep queue_linked same_links queue_is_empty
  queue_enqueue queue_dequeue queue_remove
proof
  show "queue_is_empty q \<Longrightarrow> queue_rep L q []" for q L by (simp add: queue_is_empty_def)
  show "queue_rep L q xs \<Longrightarrow> (\<And>t. t \<in> set xs \<Longrightarrow> same_links t L L') \<Longrightarrow> queue_rep L' q xs"
    for L L' q xs by (rule queue_rep_cong)
  show "queue_linked L xs \<Longrightarrow> (\<And>t. t \<in> set xs \<Longrightarrow> same_links t L L') \<Longrightarrow> queue_linked L' xs"
    for L L' xs by (rule queue_linked_cong)
  show "queue_linked L []" for L by simp
  show "queue_rep L q (xs @ [t]) \<Longrightarrow> \<exists>L'. queue_enqueue L q t = Some (L', q) \<and>
      queue_rep L' q (xs @ [t]) \<and> (\<forall>u. u \<notin> set (xs @ [t]) \<longrightarrow> same_links u L L')" for L q xs t
    using queue_enqueue_tail by blast
qed (rule queue_rep_distinct queue_is_empty_rep queue_dequeue_empty queue_enqueue_rep
    queue_dequeue_rep queue_remove_rep, assumption+)+

end
