(* ===== verification/Scheduler.thy ===== *)
theory Scheduler
  imports Task_Queue
begin

text \<open>
  The scheduler, \<open>kernel/src/multitasking/scheduler.c\<close>: an array of ready queues indexed by
  priority and a 64-bit bitmap of the nonempty ones, kept as two 32-bit halves. The record holds
  the \<open>scheduler\<close> struct together with the fields of the task descriptors its operations touch
  (the ready links and \<open>td->priority\<close>); the kernel's state extends it.
\<close>

record sched =
  s_max_priority :: int
  s_hi :: u32
  s_lo :: u32
  s_queues :: "tptr option list"
  s_links :: dlinks
  s_prio :: "tptr \<Rightarrow> int"

text \<open>\<open>__builtin_clz\<close>, undefined on 0.\<close>

definition clz :: "'a::len word \<Rightarrow> nat" where
  "clz w = length (takeWhile (\<lambda>i. \<not> bit w i) (rev [0..<LENGTH('a)]))"

definition scheduler_init ::
  "'a sched_scheme \<Rightarrow> int \<Rightarrow> tptr option list \<Rightarrow> ('a sched_scheme \<times> int) option" where
  "scheduler_init s max_priority queues =
     (if max_priority < 0 \<or> max_priority > 63 then Some (s, -1)
      else if length queues \<le> nat max_priority then None
      else Some (s\<lparr>s_max_priority := max_priority, s_hi := 0, s_lo := 0,
                   s_queues := replicate (nat max_priority + 1) None @
                               drop (nat max_priority + 1) queues\<rparr>, 0))"

definition scheduler_set_nonempty :: "'a sched_scheme \<Rightarrow> nat \<Rightarrow> bool \<Rightarrow> 'a sched_scheme" where
  "scheduler_set_nonempty s priority st =
     (if st then
        if priority > 31 then s\<lparr>s_hi := s_hi s OR push_bit (priority - 32) 1\<rparr>
        else s\<lparr>s_lo := s_lo s OR push_bit priority 1\<rparr>
      else
        if priority > 31 then s\<lparr>s_hi := s_hi s AND NOT (push_bit (priority - 32) 1)\<rparr>
        else s\<lparr>s_lo := s_lo s AND NOT (push_bit priority 1)\<rparr>)"

definition scheduler_register ::
  "'a sched_scheme \<Rightarrow> tptr \<Rightarrow> ('a sched_scheme \<times> int) option" where
  "scheduler_register s td =
     (let priority = s_prio s td in
      if priority < 0 \<or> priority > s_max_priority s then Some (s, -1)
      else do {
        q \<leftarrow> array_get (s_queues s) (nat priority);
        (L, q') \<leftarrow> queue_enqueue (s_links s) q td;
        let s1 = s\<lparr>s_links := L, s_queues := (s_queues s)[nat priority := q']\<rparr>;
        Some (scheduler_set_nonempty s1 (nat priority) True, 0)
      })"

definition scheduler_highest :: "'a sched_scheme \<Rightarrow> nat option" where
  "scheduler_highest s =
     (if s_hi s \<noteq> 0 then Some (63 - clz (s_hi s))
      else if s_lo s \<noteq> 0 then Some (31 - clz (s_lo s))
      else None)"

definition scheduler_next_task ::
  "'a sched_scheme \<Rightarrow> ('a sched_scheme \<times> tptr option) option" where
  "scheduler_next_task s =
     (case scheduler_highest s of
        None \<Rightarrow> Some (s, None)
      | Some p \<Rightarrow> do {
          q \<leftarrow> array_get (s_queues s) p;
          (L, q', result) \<leftarrow> queue_dequeue (s_links s) q;
          let s1 = s\<lparr>s_links := L, s_queues := (s_queues s)[p := q']\<rparr>;
          Some (if queue_is_empty q' then scheduler_set_nonempty s1 p False else s1, result)
        })"

definition scheduler_deregister ::
  "'a sched_scheme \<Rightarrow> tptr \<Rightarrow> ('a sched_scheme \<times> int) option" where
  "scheduler_deregister s td =
     (let priority = s_prio s td in
      if priority < 0 then None
      else do {
        q \<leftarrow> array_get (s_queues s) (nat priority);
        (L, q') \<leftarrow> queue_remove (s_links s) q td;
        let s1 = s\<lparr>s_links := L, s_queues := (s_queues s)[nat priority := q']\<rparr>;
        Some (if queue_is_empty q' then scheduler_set_nonempty s1 (nat priority) False else s1, 0)
      })"

text \<open>
  Abstraction: \<open>Q p\<close> is the list of descriptors ready at priority \<open>p\<close>. The bitmap has bit \<open>p\<close>
  set exactly when \<open>Q p\<close> is not empty.
\<close>

definition ready_bit :: "'a sched_scheme \<Rightarrow> nat \<Rightarrow> bool" where
  "ready_bit s p = (if p > 31 then bit (s_hi s) (p - 32) else bit (s_lo s) p)"

definition top_priority :: "'a sched_scheme \<Rightarrow> nat" where
  "top_priority s = nat (s_max_priority s)"

definition sched_inv :: "'a sched_scheme \<Rightarrow> (nat \<Rightarrow> tptr list) \<Rightarrow> bool" where
  "sched_inv s Q \<longleftrightarrow>
     0 \<le> s_max_priority s \<and> s_max_priority s \<le> 63 \<and> top_priority s < length (s_queues s) \<and>
     tq.bank (s_links s) {..top_priority s} (\<lambda>p. s_queues s ! p) Q \<and>
     (\<forall>p < 64. ready_bit s p \<longleftrightarrow> p \<le> top_priority s \<and> Q p \<noteq> []) \<and>
     (\<forall>p \<le> top_priority s. \<forall>t \<in> set (Q p). s_prio s t = int p)"

definition sched_linked :: "'a sched_scheme \<Rightarrow> (nat \<Rightarrow> tptr list) \<Rightarrow> bool" where
  "sched_linked s Q \<longleftrightarrow> tq.bank_linked (s_links s) {..top_priority s} Q"

lemma set_nonempty_sels [simp]:
  "s_max_priority (scheduler_set_nonempty s p b) = s_max_priority s"
  "s_queues (scheduler_set_nonempty s p b) = s_queues s"
  "s_links (scheduler_set_nonempty s p b) = s_links s"
  "s_prio (scheduler_set_nonempty s p b) = s_prio s"
  by (simp_all add: scheduler_set_nonempty_def)

lemma ready_bit_set_nonempty:
  "p < 64 \<Longrightarrow> r < 64 \<Longrightarrow>
   ready_bit (scheduler_set_nonempty s p b) r = (if r = p then b else ready_bit s r)"
  by (auto simp: ready_bit_def scheduler_set_nonempty_def bit_simps)

lemma ready_bit_update [simp]:
  "ready_bit (s\<lparr>s_links := L, s_queues := qs\<rparr>) = ready_bit s"
  "top_priority (s\<lparr>s_links := L, s_queues := qs\<rparr>) = top_priority s"
  "top_priority (scheduler_set_nonempty s p b) = top_priority s"
  by (simp_all add: ready_bit_def top_priority_def fun_eq_iff)

text \<open>\<open>clz\<close> finds the highest set bit.\<close>

lemma takeWhile_rev_upt:
  "P n \<Longrightarrow> n < m \<Longrightarrow> (\<And>i. n < i \<Longrightarrow> i < m \<Longrightarrow> \<not> P i) \<Longrightarrow>
   length (takeWhile (\<lambda>i. \<not> P i) (rev [0..<m])) = m - 1 - n"
proof (induction m)
  case (Suc m)
  then show ?case by (cases "n = m") auto
qed simp

lemma clz_highest:
  "bit w n \<Longrightarrow> (\<And>i. n < i \<Longrightarrow> \<not> bit w i) \<Longrightarrow> clz (w :: 'a::len word) = LENGTH('a) - 1 - n"
  unfolding clz_def by (rule takeWhile_rev_upt) (auto dest: bit_imp_le_length)

lemma highest_bit:
  assumes "(w :: 'a::len word) \<noteq> 0"
  obtains n where "n < LENGTH('a)" "bit w n" "\<And>i. n < i \<Longrightarrow> \<not> bit w i" "clz w = LENGTH('a) - 1 - n"
proof -
  let ?S = "{n. bit w n}"
  have fin: "finite ?S" by (rule finite_subset [of _ "{..<LENGTH('a)}"]) (auto dest: bit_imp_le_length)
  moreover have "?S \<noteq> {}" using assms bit_eq_iff [of w 0] by auto
  ultimately have "bit w (Max ?S)" using Max_in [of ?S] by simp
  moreover have "\<not> bit w i" if "Max ?S < i" for i
    using that Max_ge [OF fin, of i] by (auto simp del: Max_ge)
  ultimately show ?thesis using that [of "Max ?S"] clz_highest bit_imp_le_length by blast
qed

lemma scheduler_highest_spec:
  "case scheduler_highest s of
     None \<Rightarrow> \<forall>p < 64. \<not> ready_bit s p
   | Some p \<Rightarrow> p < 64 \<and> ready_bit s p \<and> (\<forall>r. p < r \<and> r < 64 \<longrightarrow> \<not> ready_bit s r)"
proof (cases "s_hi s = 0")
  case False
  then obtain n where "n < 32" "bit (s_hi s) n" "\<And>i. n < i \<Longrightarrow> \<not> bit (s_hi s) i"
    "clz (s_hi s) = 31 - n" by (rule highest_bit) auto
  then show ?thesis using False by (auto simp: scheduler_highest_def ready_bit_def)
next
  case hi: True
  show ?thesis
  proof (cases "s_lo s = 0")
    case False
    then obtain n where "n < 32" "bit (s_lo s) n" "\<And>i. n < i \<Longrightarrow> \<not> bit (s_lo s) i"
      "clz (s_lo s) = 31 - n" by (rule highest_bit) auto
    then show ?thesis using False hi by (auto simp: scheduler_highest_def ready_bit_def)
  qed (use hi in \<open>simp add: scheduler_highest_def ready_bit_def\<close>)
qed


lemma bank_list_update:
  "tq.bank L {..m} ((\<lambda>p. qs ! p)(i := q')) Q \<Longrightarrow> m < length qs \<Longrightarrow> i \<le> m \<Longrightarrow>
   tq.bank L {..m} (\<lambda>p. qs[i := q'] ! p) Q"
  by (erule tq.bank_cong) (auto simp: nth_list_update)

lemma scheduler_init_inv:
  assumes "0 \<le> m" "m \<le> 63" "nat m < length queues"
  shows "\<exists>s'. scheduler_init s m queues = Some (s', 0) \<and> sched_inv s' (\<lambda>_. []) \<and>
    s_links s' = s_links s \<and> s_prio s' = s_prio s \<and> s_max_priority s' = m"
  using assms
  by (auto simp: scheduler_init_def sched_inv_def top_priority_def ready_bit_def tq.bank_def
      nth_append simp del: replicate.simps)

lemma sched_inv_bank:
  "sched_inv s Q \<Longrightarrow> tq.bank (s_links s) {..top_priority s} (\<lambda>p. s_queues s ! p) Q"
  by (simp add: sched_inv_def)

lemma sched_inv_bounds:
  "sched_inv s Q \<Longrightarrow> top_priority s < length (s_queues s)"
  "sched_inv s Q \<Longrightarrow> top_priority s < 64"
  by (auto simp add: sched_inv_def top_priority_def)

lemma sched_inv_prio: "sched_inv s Q \<Longrightarrow> p \<le> top_priority s \<Longrightarrow> t \<in> set (Q p) \<Longrightarrow> s_prio s t = int p"
  by (simp add: sched_inv_def)

lemma sched_inv_step:
  assumes inv: "sched_inv s Q" and p: "p \<le> top_priority s"
    and b: "tq.bank L' {..top_priority s} ((\<lambda>p. s_queues s ! p)(p := q')) (Q(p := xs))"
    and x: "\<And>t. t \<in> set xs \<Longrightarrow> s_prio s t = int p"
    and e: "b \<longleftrightarrow> xs \<noteq> []"
    and s1: "s1 = s\<lparr>s_links := L', s_queues := (s_queues s)[p := q']\<rparr>"
  shows "sched_inv (scheduler_set_nonempty s1 p b) (Q(p := xs))"
    and "(b \<longleftrightarrow> Q p \<noteq> []) \<Longrightarrow> sched_inv s1 (Q(p := xs))"
proof -
  have l: "top_priority s < length (s_queues s)" "top_priority s < 64"
    using sched_inv_bounds [OF inv] by auto
  then have "tq.bank L' {..top_priority s} (\<lambda>r. (s_queues s)[p := q'] ! r) (Q(p := xs))"
    using b p by (intro bank_list_update)
  then show "sched_inv (scheduler_set_nonempty s1 p b) (Q(p := xs))"
    and "(b \<longleftrightarrow> Q p \<noteq> []) \<Longrightarrow> sched_inv s1 (Q(p := xs))"
    using inv p x e l unfolding s1 by (auto simp: sched_inv_def ready_bit_set_nonempty)
qed

text \<open>\<open>s'\<close> differs from \<open>s\<close> in the scheduler's own state only.\<close>

definition same_sched :: "'a sched_scheme \<Rightarrow> 'a sched_scheme \<Rightarrow> bool" where
  "same_sched s s' \<longleftrightarrow> s_max_priority s' = s_max_priority s \<and> s_prio s' = s_prio s \<and>
     sched.more s' = sched.more s"

lemma same_sched_simps [simp]:
  "same_sched s (scheduler_set_nonempty s' p b) \<longleftrightarrow> same_sched s s'"
  "same_sched s (s'\<lparr>s_links := L\<rparr>) \<longleftrightarrow> same_sched s s'"
  "same_sched s (s'\<lparr>s_queues := qs\<rparr>) \<longleftrightarrow> same_sched s s'"
  "same_sched s s"
  by (auto simp: same_sched_def scheduler_set_nonempty_def)

lemma scheduler_register_ok:
  assumes inv: "sched_inv s Q" and tp: "s_prio s t = int p" and p: "p \<le> top_priority s"
    and t: "\<And>r. r \<le> top_priority s \<Longrightarrow> t \<notin> set (Q r)"
  shows "\<exists>s'. scheduler_register s t = Some (s', 0) \<and> same_sched s s' \<and>
    sched_inv s' (Q(p := Q p @ [t])) \<and> (sched_linked s Q \<longrightarrow> sched_linked s' (Q(p := Q p @ [t])))"
proof -
  have l: "p < length (s_queues s)" "\<not> s_max_priority s < int p"
    using sched_inv_bounds(1) [OF inv] inv p by (auto simp: sched_inv_def top_priority_def)
  have i: "p \<in> {..top_priority s}" and t': "\<And>r. r \<in> {..top_priority s} \<Longrightarrow> t \<notin> set (Q r)"
    using p t by auto
  obtain L' q' where *: "queue_enqueue (s_links s) (s_queues s ! p) t = Some (L', q')"
    "tq.bank L' {..top_priority s} ((\<lambda>p. s_queues s ! p)(p := q')) (Q(p := Q p @ [t]))"
    "tq.bank_linked (s_links s) {..top_priority s} Q \<longrightarrow>
       tq.bank_linked L' {..top_priority s} (Q(p := Q p @ [t]))"
    using tq.bank_enq [OF sched_inv_bank [OF inv] i t'] by blast
  have pr: "s_prio s u = int p" if "u \<in> set (Q p @ [t])" for u
    using that sched_inv_prio [OF inv p] tp by auto
  show ?thesis
    using tp l * sched_inv_step(1) [OF inv p *(2) pr, of True]
    by (simp add: scheduler_register_def Let_def sched_linked_def)
qed

text \<open>Registering the descriptor at the tail of its queue once more changes no queue.\<close>

lemma scheduler_register_tail:
  assumes inv: "sched_inv s Q" and tp: "s_prio s t = int p" and p: "p \<le> top_priority s"
    and t: "Q p = xs @ [t]"
  shows "\<exists>s'. scheduler_register s t = Some (s', 0) \<and> same_sched s s' \<and> sched_inv s' Q"
proof -
  have l: "p < length (s_queues s)" "\<not> s_max_priority s < int p"
    using sched_inv_bounds(1) [OF inv] inv p by (auto simp: sched_inv_def top_priority_def)
  have i: "p \<in> {..top_priority s}" using p by simp
  obtain L' where *: "queue_enqueue (s_links s) (s_queues s ! p) t = Some (L', s_queues s ! p)"
    "tq.bank L' {..top_priority s} (\<lambda>p. s_queues s ! p) Q"
    using tq.bank_enq_tail [OF sched_inv_bank [OF inv] i t] by blast
  then have "tq.bank L' {..top_priority s} ((\<lambda>p. s_queues s ! p)(p := s_queues s ! p)) (Q(p := Q p))"
    by (simp add: fun_upd_idem)
  from sched_inv_step(1) [OF inv p this sched_inv_prio [OF inv p], of True] show ?thesis
    using tp l t * fun_upd_idem [of Q p "xs @ [t]"] by (simp add: scheduler_register_def Let_def)
qed

lemma scheduler_register_bad_priority:
  "s_prio s t < 0 \<or> s_prio s t > s_max_priority s \<Longrightarrow> scheduler_register s t = Some (s, -1)"
  by (auto simp: scheduler_register_def Let_def)

lemma scheduler_highest_inv:
  assumes "sched_inv s Q"
  shows "case scheduler_highest s of
     None \<Rightarrow> \<forall>p \<le> top_priority s. Q p = []
   | Some p \<Rightarrow> p \<le> top_priority s \<and> Q p \<noteq> [] \<and> (\<forall>r. p < r \<and> r \<le> top_priority s \<longrightarrow> Q r = [])"
  using assms scheduler_highest_spec [of s]
  by (auto simp: sched_inv_def top_priority_def split: option.splits)

lemma scheduler_next_task_ok:
  assumes inv: "sched_inv s Q" and hp: "scheduler_highest s = Some p"
  shows "\<exists>s'. scheduler_next_task s = Some (s', Some (hd (Q p))) \<and> same_sched s s' \<and>
    sched_inv s' (Q(p := tl (Q p))) \<and> (sched_linked s Q \<longrightarrow> sched_linked s' (Q(p := tl (Q p))))"
proof -
  have p: "p \<le> top_priority s" "Q p \<noteq> []" using scheduler_highest_inv [OF inv] hp by auto
  then obtain h xs where Q: "Q p = h # xs" by (cases "Q p") auto
  have l: "p < length (s_queues s)" using sched_inv_bounds(1) [OF inv] p by linarith
  obtain L' q' where *: "queue_dequeue (s_links s) (s_queues s ! p) = Some (L', q', Some h)"
    "tq.bank L' {..top_priority s} ((\<lambda>p. s_queues s ! p)(p := q')) (Q(p := xs))"
    "tq.bank_linked (s_links s) {..top_priority s} Q \<longrightarrow>
       tq.bank_linked L' {..top_priority s} (Q(p := xs))"
    "queue_is_empty q' \<longleftrightarrow> xs = []"
    using tq.bank_deq [OF sched_inv_bank [OF inv] _ Q] p by auto
  have pr: "s_prio s u = int p" if "u \<in> set xs" for u
    using that sched_inv_prio [OF inv p(1)] Q by simp
  show ?thesis
    using l Q p * hp sched_inv_step(1) [OF inv p(1) *(2) pr, of False]
      sched_inv_step(2) [OF inv p(1) *(2) pr, of True]
    by (cases "xs = []") (simp_all add: scheduler_next_task_def sched_linked_def)
qed

lemma scheduler_next_task_idle:
  "sched_inv s Q \<Longrightarrow> \<forall>p \<le> top_priority s. Q p = [] \<Longrightarrow> scheduler_next_task s = Some (s, None)"
  using scheduler_highest_inv [of s Q]
  by (auto simp: scheduler_next_task_def split: option.splits)

lemma scheduler_deregister_ok:
  assumes inv: "sched_inv s Q" and bk: "sched_linked s Q" and p: "p \<le> top_priority s"
    and t: "t \<in> set (Q p)"
  shows "\<exists>s'. scheduler_deregister s t = Some (s', 0) \<and> same_sched s s' \<and>
    sched_inv s' (Q(p := remove1 t (Q p))) \<and> sched_linked s' (Q(p := remove1 t (Q p)))"
proof -
  note tp = sched_inv_prio [OF inv p t]
  have l: "p < length (s_queues s)" using sched_inv_bounds(1) [OF inv] p by linarith
  obtain L' q' where *: "queue_remove (s_links s) (s_queues s ! p) t = Some (L', q')"
    "tq.bank L' {..top_priority s} ((\<lambda>p. s_queues s ! p)(p := q')) (Q(p := remove1 t (Q p)))"
    "tq.bank_linked L' {..top_priority s} (Q(p := remove1 t (Q p)))"
    "queue_is_empty q' \<longleftrightarrow> remove1 t (Q p) = []"
    using tq.bank_rem [OF sched_inv_bank [OF inv] bk [unfolded sched_linked_def] _ t] p by auto
  have pr: "s_prio s u = int p" if "u \<in> set (remove1 t (Q p))" for u
    using sched_inv_prio [OF inv p] set_mp [OF set_remove1_subset that] by blast
  have ne: "Q p \<noteq> []" using t by auto
  show ?thesis
    using l p tp * ne sched_inv_step(1) [OF inv p *(2) pr, of False]
      sched_inv_step(2) [OF inv p *(2) pr, of True]
    by (cases "remove1 t (Q p) = []") (simp_all add: scheduler_deregister_def Let_def sched_linked_def)
qed

text \<open>
  \<open>scheduler_deregister\<close> of a descriptor that is not on its ready queue: when one other task is
  ready at that priority, the queue is emptied and its bit cleared.
\<close>

lemma scheduler_deregister_not_ready:
  assumes inv: "sched_inv s Q" and p: "s_prio s t = int p" "p \<le> top_priority s" and Q: "Q p = [u]"
  shows "\<exists>s'. scheduler_deregister s t = Some (s', 0) \<and> same_sched s s' \<and> sched_inv s' (Q(p := []))"
proof -
  have l: "p < length (s_queues s)" using sched_inv_bounds(1) [OF inv] p by linarith
  have "queue_rep (s_links s) (s_queues s ! p) [u]"
    using tq.bank_mem [OF sched_inv_bank [OF inv], of p] p Q by simp
  then have r: "queue_remove (s_links s) (s_queues s ! p) t = Some (s_links s, None)"
    by (rule queue_remove_single)
  have "tq.bank (s_links s) {..top_priority s} ((\<lambda>p. s_queues s ! p)(p := None)) (Q(p := []))"
    using tq.bank_clear [OF sched_inv_bank [OF inv]] by (simp add: queue_is_empty_def)
  from sched_inv_step(1) [OF inv p(2) this, of False] show ?thesis
    using l p r by (simp add: scheduler_deregister_def Let_def queue_is_empty_def)
qed

end
