(* ===== verification/Task.thy ===== *)
theory Task
  imports Scheduler "HOL-Library.Signed_Division"
begin

text \<open>
  Task descriptors and their life cycle, \<open>kernel/src/multitasking/task.c\<close>. A field of
  \<open>struct td\<close> is a function on descriptor indices; the globals of \<open>task.c\<close> are further
  fields of the state. \<open>priority\<close>, \<open>prev\<close> and \<open>next\<close> live in the scheduler's part of the
  record (\<open>s_prio\<close>, \<open>s_links\<close>), \<open>prevmsg\<close> and \<open>nextmsg\<close> are \<open>t_msg\<close>. \<open>td->send_queue\<close>
  points at an element of \<open>send_queues\<close> and is the index of that element. The trap frame a task
  points at is kept in the descriptor; a NULL \<open>tf\<close> is \<open>None\<close>. The lab build is modelled
  (\<open>TESTING\<close> off, no debug or benchmark flags).
\<close>

datatype task_state =
    TASK_ACTIVE
  | TASK_RUNNABLE
  | TASK_ZOMBIE
  | TASK_RECEIVE_BLOCKED
  | TASK_SEND_BLOCKED
  | TASK_REPLY_BLOCKED
  | TASK_EVENT_BLOCKED

record trapframe =
  tf_r0 :: u32
  tf_r1 :: u32
  tf_r2 :: u32
  tf_r3 :: u32
  tf_r4 :: u32
  tf_r5 :: u32
  tf_r6 :: u32
  tf_r7 :: u32
  tf_r8 :: u32
  tf_r9 :: u32
  tf_r10 :: u32
  tf_fp :: u32
  tf_ip :: u32
  tf_sp :: u32
  tf_lr :: u32
  tf_pc :: u32
  tf_k_lr :: u32
  tf_psr :: u32

definition MAX_TASKS :: nat where
  "MAX_TASKS = 64"

definition STACK_TOP :: int where
  "STACK_TOP = 0x01FDCFFC"

definition BYTES_PER_TASK :: int where
  "BYTES_PER_TASK = 0x00060000"

text \<open>\<open>NOT_BLOCKED\<close> of \<open>enum event_id\<close> in \<open>lib/event_data.h\<close>.\<close>

definition NOT_BLOCKED :: int where
  "NOT_BLOCKED = 0xBA5EBA11"

record tasks = sched +
  t_parent :: "tptr \<Rightarrow> tptr option"
  t_tf :: "tptr \<Rightarrow> trapframe option"
  t_state :: "tptr \<Rightarrow> task_state"
  t_tid :: "tptr \<Rightarrow> nat"
  t_generation :: "tptr \<Rightarrow> u32"
  t_exit_code :: "tptr \<Rightarrow> int"
  t_msg :: dlinks
  t_send_queue :: "tptr \<Rightarrow> nat"
  t_blocked_on :: "tptr \<Rightarrow> int"
  available_tids :: u64
  the_next_generation :: "nat \<Rightarrow> int"
  send_queues :: "nat \<Rightarrow> tptr option"
  tasks_event_blocked :: int
  sys_exit_addr :: u32

text \<open>\<open>AVAILABLE_TIDS_MASK\<close>: tid 0 is the top bit, so that \<open>clz\<close> finds the lowest free tid.\<close>

definition AVAILABLE_TIDS_MASK :: "nat \<Rightarrow> u64" where
  "AVAILABLE_TIDS_MASK tid = push_bit (MAX_TASKS - (tid + 1)) 1"

definition setup_tasks :: "'a tasks_scheme \<Rightarrow> 'a tasks_scheme" where
  "setup_tasks s = s\<lparr>
     available_tids := 0x7FFFFFFFFFFFFFFF,
     t_state := (\<lambda>t. if t < MAX_TASKS then TASK_ZOMBIE else t_state s t),
     the_next_generation := (\<lambda>t. if t < MAX_TASKS then 0 else the_next_generation s t)\<rparr>"

definition get_next_available_tid :: "'a tasks_scheme \<Rightarrow> int" where
  "get_next_available_tid s = (if available_tids s = 0 then -1 else int (clz (available_tids s)))"

text \<open>\<open>&all_tasks[-1]\<close> is undefined.\<close>

definition get_next_raw_td :: "'a tasks_scheme \<Rightarrow> tptr option" where
  "get_next_raw_td s =
     (let tid = get_next_available_tid s in if tid < 0 then None else Some (nat tid))"

definition get_task_with_tid :: "int \<Rightarrow> tptr option" where
  "get_task_with_tid tid = (if tid \<ge> int MAX_TASKS \<or> tid < 0 then None else Some (nat tid))"

definition get_task_with_userland_tid :: "int \<Rightarrow> tptr option" where
  "get_task_with_userland_tid tid = get_task_with_tid (tid smod int MAX_TASKS)"

text \<open>The trap frame of a fresh task: marker values, the stack pointer below the frame.\<close>

definition task_stack_top :: "nat \<Rightarrow> int" where
  "task_stack_top tid = STACK_TOP - int tid * BYTES_PER_TASK"

definition initial_trapframe :: "nat \<Rightarrow> u32 \<Rightarrow> u32 \<Rightarrow> trapframe" where
  "initial_trapframe tid exit_addr task_main =
     (let mark = (\<lambda>k. k + push_bit 4 (of_nat tid)) in
      \<lparr>tf_r0 = mark 0xF4330000, tf_r1 = mark 0xF4330001, tf_r2 = mark 0xF4330002,
       tf_r3 = mark 0xF4330003, tf_r4 = mark 0xF4330004, tf_r5 = mark 0xF4330005,
       tf_r6 = mark 0xF4330006, tf_r7 = mark 0xF4330007, tf_r8 = mark 0xF4330008,
       tf_r9 = mark 0xF4330009, tf_r10 = mark 0xF433000A, tf_fp = mark 0xF433000B,
       tf_ip = mark 0xF433000C, tf_sp = of_int (task_stack_top tid - 72), tf_lr = exit_addr,
       tf_pc = mark 0xF433000D, tf_k_lr = task_main, tf_psr = 0x10\<rparr>)"

definition task_init ::
  "'a tasks_scheme \<Rightarrow> tptr \<Rightarrow> int \<Rightarrow> u32 \<Rightarrow> tptr option \<Rightarrow> 'a tasks_scheme option" where
  "task_init s task priority task_main parent = do {
     guard_opt (t_state s task = TASK_ZOMBIE);
     guard_opt (get_next_available_tid s \<ge> 0);
     let tid = nat (get_next_available_tid s);
     let gen = the_next_generation s tid;
     Some (s\<lparr>
       t_tid := (t_tid s)(task := tid),
       t_generation := (t_generation s)(task := of_int gen),
       the_next_generation := (the_next_generation s)(tid := gen + 1),
       available_tids := available_tids s AND NOT (AVAILABLE_TIDS_MASK tid),
       s_prio := (s_prio s)(task := priority),
       t_state := (t_state s)(task := TASK_RUNNABLE),
       s_links := set_prev task None (set_next task None (s_links s)),
       t_parent := (t_parent s)(task := parent),
       send_queues := (send_queues s)(tid := None),
       t_send_queue := (t_send_queue s)(task := tid),
       t_blocked_on := (t_blocked_on s)(task := NOT_BLOCKED),
       t_tf := (t_tf s)(task := Some (initial_trapframe tid (sys_exit_addr s) task_main))\<rparr>)
   }"

definition task_set_state ::
  "'a tasks_scheme \<Rightarrow> tptr \<Rightarrow> task_state \<Rightarrow> 'a tasks_scheme option" where
  "task_set_state s task st = do {
     guard_opt (t_state s task \<noteq> TASK_EVENT_BLOCKED \<or> t_state s task \<noteq> st);
     let blocked =
       (if t_state s task = TASK_EVENT_BLOCKED \<and> (st = TASK_RUNNABLE \<or> st = TASK_ZOMBIE)
        then tasks_event_blocked s - 1
        else if st = TASK_EVENT_BLOCKED then tasks_event_blocked s + 1
        else tasks_event_blocked s);
     guard_opt (blocked \<ge> 0 \<and> blocked \<le> int MAX_TASKS);
     Some (s\<lparr>tasks_event_blocked := blocked, t_state := (t_state s)(task := st)\<rparr>)
   }"

text \<open>
  The marker values \<open>task_retire\<close> writes into the dying trap frame are lost with it: the next
  statement makes \<open>tf\<close> NULL. Writing them through a NULL \<open>tf\<close> is undefined.
\<close>

definition task_retire :: "'a tasks_scheme \<Rightarrow> tptr \<Rightarrow> int \<Rightarrow> 'a tasks_scheme option" where
  "task_retire s task exit_code = do {
     s1 \<leftarrow> task_set_state s task TASK_ZOMBIE;
     _ \<leftarrow> t_tf s1 task;
     let s2 = s1\<lparr>t_exit_code := (t_exit_code s1)(task := exit_code),
                t_tf := (t_tf s1)(task := None)\<rparr>;
     let tid = t_tid s2 task;
     Some (if the_next_generation s2 tid < 1000
           then s2\<lparr>available_tids := available_tids s2 OR AVAILABLE_TIDS_MASK tid\<rparr>
           else s2)
   }"

definition task_get_tid :: "'a tasks_scheme \<Rightarrow> tptr \<Rightarrow> int" where
  "task_get_tid s task = int (t_tid s task)"

definition task_get_parent_tid :: "'a tasks_scheme \<Rightarrow> tptr \<Rightarrow> int" where
  "task_get_parent_tid s task =
     (case t_parent s task of None \<Rightarrow> -1 | Some p \<Rightarrow> int (t_tid s p))"

definition task_get_priority :: "'a tasks_scheme \<Rightarrow> tptr \<Rightarrow> int" where
  "task_get_priority s task = s_prio s task"

text \<open>\<open>generation\<close> is unsigned: the sum is computed in 32 bits and read as an \<open>int\<close>.\<close>

definition task_get_userland_tid :: "'a tasks_scheme \<Rightarrow> tptr \<Rightarrow> int" where
  "task_get_userland_tid s task =
     sint (t_generation s task * of_nat MAX_TASKS + of_nat (t_tid s task))"

definition task_get_userland_parent_tid :: "'a tasks_scheme \<Rightarrow> tptr \<Rightarrow> int" where
  "task_get_userland_parent_tid s task =
     (case t_parent s task of
        None \<Rightarrow> -1
      | Some p \<Rightarrow> sint (t_generation s p * of_nat MAX_TASKS + of_nat (t_tid s p)))"

definition is_valid_userland_tid :: "'a tasks_scheme \<Rightarrow> int \<Rightarrow> bool" where
  "is_valid_userland_tid s userland_tid \<longleftrightarrow>
     (let kernel_tid = userland_tid smod int MAX_TASKS in
      userland_tid > 0 \<and> kernel_tid < int MAX_TASKS \<and>
      available_tids s AND AVAILABLE_TIDS_MASK (nat kernel_tid) = 0)"

section \<open>Task ids\<close>

definition tid_free :: "'a tasks_scheme \<Rightarrow> nat \<Rightarrow> bool" where
  "tid_free s t \<longleftrightarrow> bit (available_tids s) (63 - t)"

lemma MASK_bit: "t < 64 \<Longrightarrow> bit (AVAILABLE_TIDS_MASK t) i \<longleftrightarrow> i = 63 - t"
  by (auto simp: AVAILABLE_TIDS_MASK_def MAX_TASKS_def bit_simps)

lemma AND_MASK_eq_0: "t < 64 \<Longrightarrow> w AND AVAILABLE_TIDS_MASK t = 0 \<longleftrightarrow> \<not> bit w (63 - t)"
  by (auto simp: bit_eq_iff [of _ 0] bit_and_iff MASK_bit dest: spec [of _ "63 - t"])

lemma tid_free_take:
  "t < 64 \<Longrightarrow> u < 64 \<Longrightarrow> bit (w AND NOT (AVAILABLE_TIDS_MASK t)) (63 - u) \<longleftrightarrow> bit w (63 - u) \<and> u \<noteq> t"
  by (auto simp: bit_and_iff bit_not_iff MASK_bit dest: bit_imp_le_length)

lemma tid_free_give:
  "t < 64 \<Longrightarrow> u < 64 \<Longrightarrow> bit (w OR AVAILABLE_TIDS_MASK t) (63 - u) \<longleftrightarrow> bit w (63 - u) \<or> u = t"
  by (auto simp: bit_or_iff MASK_bit)

text \<open>\<open>get_next_available_tid\<close> returns the least free tid.\<close>

lemma get_next_available_tid_cases:
  obtains "get_next_available_tid s = -1" "\<And>t. t < 64 \<Longrightarrow> \<not> tid_free s t"
  | t where "get_next_available_tid s = int t" "t < 64" "tid_free s t" "\<And>u. u < t \<Longrightarrow> \<not> tid_free s u"
proof (cases "available_tids s = 0")
  case True
  then show ?thesis using that(1) by (simp add: get_next_available_tid_def tid_free_def)
next
  case False
  then obtain n where n: "n < 64" "bit (available_tids s) n"
    "\<And>i. n < i \<Longrightarrow> \<not> bit (available_tids s) i" "clz (available_tids s) = 63 - n"
    by (rule highest_bit) auto
  show ?thesis
    using n False
    by (intro that(2) [of "63 - n"]) (auto simp: get_next_available_tid_def tid_free_def)
qed

text \<open>
  The invariant of the tid bitmap and the generations: a free tid's descriptor is a zombie; a
  live descriptor holds its own index as tid, a send queue, a trap frame, and the generation
  handed out last; tid 0 is never used.
\<close>

definition tids_inv :: "'a tasks_scheme \<Rightarrow> bool" where
  "tids_inv s \<longleftrightarrow> \<not> tid_free s 0 \<and> t_state s 0 = TASK_ZOMBIE \<and>
     (\<forall>t < 64. 0 \<le> the_next_generation s t \<and> the_next_generation s t \<le> 1000 \<and>
        (tid_free s t \<longrightarrow> t_state s t = TASK_ZOMBIE \<and> the_next_generation s t < 1000) \<and>
        (t_state s t \<noteq> TASK_ZOMBIE \<longrightarrow> t_tid s t = t \<and> t_send_queue s t = t \<and>
           t_tf s t \<noteq> None \<and> 1 \<le> the_next_generation s t \<and>
           t_generation s t = of_int (the_next_generation s t - 1)))"

lemma setup_tasks_inv: "tids_inv (setup_tasks s)"
  by (auto simp: tids_inv_def setup_tasks_def MAX_TASKS_def tid_free_def bit_numeral_rec)

lemma tids_inv_live:
  assumes "tids_inv s" "t < 64" "t_state s t \<noteq> TASK_ZOMBIE"
  shows "t_tid s t = t" "t_send_queue s t = t" "t_tf s t \<noteq> None" "0 < t" "\<not> tid_free s t"
proof -
  show "0 < t" using assms by (cases "t = 0") (auto simp: tids_inv_def)
qed (use assms in \<open>auto simp: tids_inv_def\<close>)

lemma task_get_userland_tid_eq:
  assumes inv: "tids_inv s" and t: "t < 64" "t_state s t \<noteq> TASK_ZOMBIE"
  shows "task_get_userland_tid s t = (the_next_generation s t - 1) * 64 + int t"
proof -
  have b: "1 \<le> the_next_generation s t" "the_next_generation s t \<le> 1000" "t_tid s t = t"
    "t_generation s t = of_int (the_next_generation s t - 1)"
    using inv t unfolding tids_inv_def by blast+
  define g where "g = nat (the_next_generation s t - 1)"
  have g: "the_next_generation s t - 1 = int g" "g < 1000" using b by (auto simp: g_def)
  then have gen: "t_generation s t = of_nat g" "t_tid s t = t" using b by simp_all
  have "t_generation s t * of_nat MAX_TASKS + of_nat (t_tid s t) = (of_nat (g * 64 + t) :: u32)"
    by (simp add: gen MAX_TASKS_def)
  moreover have "sint (of_nat (g * 64 + t) :: u32) = int (g * 64 + t)"
    using g t by (intro sint_of_nat_small) simp
  ultimately show ?thesis by (simp add: task_get_userland_tid_def g)
qed

end
