(* ===== verification/Memory.thy ===== *)
theory Memory
  imports Trains_Prelude
begin

text \<open>
  Byte-addressed memory and the block operations of \<open>lib/tstdlib.c\<close> on it. A memory maps each
  32-bit address to a byte; address arithmetic wraps, as it does on the ARM core. \<open>long\<close> and
  \<open>int\<close> have four bytes, stored little-endian.
\<close>

type_synonym mem = "u32 \<Rightarrow> u8"

definition load32 :: "mem \<Rightarrow> u32 \<Rightarrow> u32" where
  "load32 m a = ucast (m a) OR push_bit 8 (ucast (m (a + 1))) OR
     push_bit 16 (ucast (m (a + 2))) OR push_bit 24 (ucast (m (a + 3)))"

definition store32 :: "mem \<Rightarrow> u32 \<Rightarrow> u32 \<Rightarrow> mem" where
  "store32 m a w = m(a := ucast w, a + 1 := ucast (drop_bit 8 w),
     a + 2 := ucast (drop_bit 16 w), a + 3 := ucast (drop_bit 24 w))"

text \<open>The two loops of \<open>tmemcpy\<close>.\<close>

function copy_words :: "mem \<Rightarrow> u32 \<Rightarrow> u32 \<Rightarrow> u32 \<Rightarrow> mem \<times> u32 \<times> u32 \<times> u32" where
  "copy_words m dstp srcp n =
     (if n \<ge> 4 then copy_words (store32 m dstp (load32 m srcp)) (dstp + 4) (srcp + 4) (n - 4)
      else (m, dstp, srcp, n))"
  by pat_completeness auto
termination
  by (relation "measure (\<lambda>(m, d, s, n). unat n)") (simp_all add: word_le_nat_alt unat_sub)

function copy_bytes :: "mem \<Rightarrow> u32 \<Rightarrow> u32 \<Rightarrow> u32 \<Rightarrow> mem" where
  "copy_bytes m dstp srcp n =
     (if n > 0 then copy_bytes (m(dstp := m srcp)) (dstp + 1) (srcp + 1) (n - 1) else m)"
  by pat_completeness auto
termination
  by (relation "measure (\<lambda>(m, d, s, n). unat n)") (auto simp: unat_pred_pos unat_gt_0)

declare copy_words.simps [simp del] copy_bytes.simps [simp del]

definition tmemcpy :: "mem \<Rightarrow> u32 \<Rightarrow> u32 \<Rightarrow> u32 \<Rightarrow> mem" where
  "tmemcpy m dst src n =
     (if dst AND 3 = 0 \<and> src AND 3 = 0
      then case copy_words m dst src n of (m', dstp, srcp, n') \<Rightarrow> copy_bytes m' dstp srcp n'
      else copy_bytes m dst src n)"

function tmemset :: "mem \<Rightarrow> u32 \<Rightarrow> u8 \<Rightarrow> u32 \<Rightarrow> mem" where
  "tmemset m p c n = (if n > 0 then tmemset (m(p := c)) (p + 1) c (n - 1) else m)"
  by pat_completeness auto
termination
  by (relation "measure (\<lambda>(m, p, c, n). unat n)") (auto simp: unat_pred_pos unat_gt_0)

declare tmemset.simps [simp del]

text \<open>
  The specification: the block at \<open>dst\<close> takes the bytes of the block at \<open>src\<close>, all others stay.
\<close>

definition blit :: "mem \<Rightarrow> u32 \<Rightarrow> u32 \<Rightarrow> u32 \<Rightarrow> mem" where
  "blit m dst src n = (\<lambda>a. if a - dst < n then m (src + (a - dst)) else m a)"

definition disjoint_blocks :: "u32 \<Rightarrow> u32 \<Rightarrow> u32 \<Rightarrow> bool" where
  "disjoint_blocks dst src n \<longleftrightarrow> (\<forall>i < n. \<forall>j < n. dst + i \<noteq> src + j)"

lemma word_pred_less: "(n :: u32) > 0 \<Longrightarrow> i < n - 1 \<longleftrightarrow> i + 1 < n \<and> i + 1 \<noteq> 0"
  by uint_arith

lemma disjoint_blocksD:
  assumes "disjoint_blocks dst src n" "i < n"
  shows "\<not> src + i - dst < n" and "\<not> dst + i - src < n"
proof -
  show "\<not> src + i - dst < n"
  proof
    assume "src + i - dst < n"
    then have "dst + (src + i - dst) \<noteq> src + i" using assms unfolding disjoint_blocks_def by blast
    then show False by simp
  qed
  show "\<not> dst + i - src < n"
  proof
    assume "dst + i - src < n"
    then have "dst + i \<noteq> src + (dst + i - src)" using assms unfolding disjoint_blocks_def by blast
    then show False by simp
  qed
qed

lemma blit_step:
  assumes "disjoint_blocks d s n" "k \<le> n"
  shows "blit (blit m d s k) (d + k) (s + k) (n - k) = blit m d s n"
proof
  fix a
  define i where "i = a - d"
  then have a: "a = d + i" by simp
  have 1: "a - (d + k) = i - k" by (simp add: i_def)
  have far: "\<not> s + i - d < k" if "i < n"
    using disjoint_blocksD(1) [OF assms(1) that] assms(2) by (meson dual_order.strict_trans1)
  show "blit (blit m d s k) (d + k) (s + k) (n - k) a = blit m d s n a"
  proof (cases "i < k")
    case True
    then have "\<not> i - k < n - k" using assms(2) by uint_arith
    moreover have "i < n" using True assms(2) by (meson dual_order.strict_trans1 order_less_le_trans)
    ultimately show ?thesis using True by (simp add: blit_def 1 flip: i_def)
  next
    case False
    then have "i - k < n - k \<longleftrightarrow> i < n" using assms(2) by uint_arith
    then show ?thesis using False far by (simp add: blit_def 1 flip: i_def)
  qed
qed

lemma disjoint_blocks_step:
  assumes "disjoint_blocks d s n" "k \<le> n"
  shows "disjoint_blocks (d + k) (s + k) (n - k)"
  unfolding disjoint_blocks_def
proof (intro allI impI)
  fix i j assume "i < n - k" "j < n - k"
  then have "k + i < n" "k + j < n" using assms(2) by uint_arith+
  then have "d + (k + i) \<noteq> s + (k + j)" using assms(1) by (simp add: disjoint_blocks_def)
  then show "d + k + i \<noteq> s + k + j" by (simp add: ac_simps)
qed

lemma blit_0 [simp]: "blit m d s 0 = m"
  by (simp add: blit_def)

lemma blit_1: "blit m d s 1 = m(d := m s)"
  by (auto simp: blit_def fun_eq_iff word_less_1)

lemma copy_bytes_blit: "disjoint_blocks d s n \<Longrightarrow> copy_bytes m d s n = blit m d s n"
proof (induction m d s n rule: copy_bytes.induct)
  case (1 m d s n)
  show ?case
  proof (cases "n > 0")
    case True
    then have k: "1 \<le> n" by (metis word_less_1 not_less less_irrefl)
    have "copy_bytes (m(d := m s)) (d + 1) (s + 1) (n - 1) = blit m d s n"
      unfolding "1.IH" [OF True disjoint_blocks_step [OF "1.prems" k]]
      by (rule blit_step [OF "1.prems" k, of m, unfolded blit_1])
    then show ?thesis using True by (simp add: copy_bytes.simps [of m d s n])
  next
    case False
    then have "n = 0" by (simp add: word_gt_0)
    then show ?thesis by (simp add: copy_bytes.simps [of m d s 0])
  qed
qed

lemma store32_load32:
  assumes "disjoint_blocks d s 4"
  shows "store32 m d (load32 m s) = blit m d s 4"
proof -
  have b: "ucast (load32 m s) = m s" "ucast (drop_bit 8 (load32 m s)) = m (s + 1)"
    "ucast (drop_bit 16 (load32 m s)) = m (s + 2)" "ucast (drop_bit 24 (load32 m s)) = m (s + 3)"
    by (rule bit_word_eqI, auto simp: load32_def bit_simps dest: bit_imp_le_length)+
  have lt4: "x < 4 \<longleftrightarrow> x = 0 \<or> x = 1 \<or> x = 2 \<or> x = 3" for x :: u32
    by uint_arith
  show ?thesis
  proof
    fix a
    consider "a = d" | "a = d + 1" | "a = d + 2" | "a = d + 3" | "\<not> a - d < 4"
      unfolding lt4 by (metis add.commute add_0 diff_add_cancel)
    then show "store32 m d (load32 m s) a = blit m d s 4 a"
      by cases (auto simp: store32_def b blit_def lt4)
  qed
qed

lemma disjoint_blocks_mono: "disjoint_blocks d s n \<Longrightarrow> k \<le> n \<Longrightarrow> disjoint_blocks d s k"
  unfolding disjoint_blocks_def by (meson order_less_le_trans)

lemma copy_words_blit:
  "disjoint_blocks d s n \<Longrightarrow>
   (case copy_words m d s n of (m', d', s', n') \<Rightarrow> copy_bytes m' d' s' n') = blit m d s n"
proof (induction m d s n rule: copy_words.induct)
  case (1 m d s n)
  show ?case
  proof (cases "n \<ge> 4")
    case True
    have "store32 m d (load32 m s) = blit m d s 4"
      by (rule store32_load32 [OF disjoint_blocks_mono [OF "1.prems" True]])
    then show ?thesis
      using "1.IH" [OF True disjoint_blocks_step [OF "1.prems" True]]
        blit_step [OF "1.prems" True, of m] True
      by (simp add: copy_words.simps [of m d s n])
  next
    case False
    then show ?thesis using "1.prems" by (simp add: copy_words.simps [of m d s n] copy_bytes_blit)
  qed
qed

lemma tmemcpy_blit: "disjoint_blocks d s n \<Longrightarrow> tmemcpy m d s n = blit m d s n"
  by (simp add: tmemcpy_def copy_words_blit copy_bytes_blit)

lemma tmemset_fill: "tmemset m p c n = (\<lambda>a. if a - p < n then c else m a)"
proof (induction m p c n rule: tmemset.induct)
  case (1 m p c n)
  show ?case
  proof (cases "n > 0")
    case True
    have "a - (p + 1) < n - 1 \<longleftrightarrow> a - p < n \<and> a \<noteq> p" for a
      using True by uint_arith
    then have "(\<lambda>a. if a - (p + 1) < n - 1 then c else (m(p := c)) a) =
        (\<lambda>a. if a - p < n then c else m a)"
      using True by (intro ext) simp
    then show ?thesis
      unfolding tmemset.simps [of m p c n] if_P [OF True] "1.IH" [OF True] .
  next
    case False
    then have "n = 0" by (simp add: word_gt_0)
    then show ?thesis by (simp add: tmemset.simps [of m p c 0])
  qed
qed

lemma load32_store32: "load32 (store32 m a w) a = w"
proof (rule bit_word_eqI)
  fix n assume "n < LENGTH(32)"
  then show "bit (load32 (store32 m a w) a) n \<longleftrightarrow> bit w n"
    by (cases "n < 8"; cases "n < 16"; cases "n < 24")
       (auto simp: load32_def store32_def bit_simps dest: bit_imp_le_length)
qed

section \<open>Properties\<close>

text \<open>
  C35: \<open>tmemcpy\<close>, by words where both pointers are aligned and by bytes elsewhere, makes the
  destination an exact copy of the source and touches no other byte, when the blocks do not overlap.
\<close>

theorem tmemcpy_correct:
  assumes "disjoint_blocks dst src n"
  shows "tmemcpy m dst src n a = (if a - dst < n then m (src + (a - dst)) else m a)"
  using tmemcpy_blit [OF assms, of m] by (simp add: blit_def)

theorem tmemcpy_correct_witness:
  "tmemcpy (\<lambda>a. ucast a) 0x100 0x200 6 0x105 = 0x05"
proof -
  have "disjoint_blocks 0x100 0x200 6"
    unfolding disjoint_blocks_def
  proof (intro allI impI)
    fix i j :: u32 assume "i < 6" "j < 6"
    then have "unat (0x100 + i) = 256 + unat i" "unat (0x200 + j) = 512 + unat j" "unat i < 6"
      by (simp_all add: word_less_nat_alt unat_word_ariths)
    then have "unat (0x100 + i) \<noteq> unat (0x200 + j)" by simp
    then show "0x100 + i \<noteq> 0x200 + j" by (rule contrapos_nn) (rule arg_cong)
  qed
  from tmemcpy_correct [OF this, of "\<lambda>a. ucast a" "0x105"] show ?thesis by simp
qed

text \<open>\<open>tmemset\<close> fills its block, wherever it lies, and touches no other byte.\<close>

theorem tmemset_correct: "tmemset m p c n a = (if a - p < n then c else m a)"
  by (simp add: tmemset_fill)

end
