(* ===== verification/Kernel_State.thy ===== *)
theory Kernel_State
  imports Task Memory
begin

text \<open>
  The whole kernel state: the tasks and the scheduler of \<open>Task\<close>, the memory, and the globals of
  \<open>schedule.c\<close>, \<open>events.c\<close>, \<open>iio.c\<close>, \<open>interrupt.c\<close> and \<open>kusage_stats.c\<close>. Readings of the
  hardware clock (\<open>get_clockticks\<close>) come from the stream \<open>k_clock\<close>, of which \<open>k_reads\<close> have been
  taken. The interrupt-enable bits of the two UARTs are \<open>uart_ctlr\<close>.
\<close>

datatype channel = TRAIN | TERMINAL

record kernel = tasks +
  k_current :: "tptr option"
  k_mem :: mem
  k_num_ctx_sw :: int
  k_registered :: "nat \<Rightarrow> tptr option"
  k_has_event_been_registered :: "nat \<Rightarrow> bool"
  k_uart0_cts_asserted :: u32
  k_uart0_txfe_asserted :: u32
  k_uart_ctlr :: "channel \<Rightarrow> u32"
  k_ticks :: int
  k_num_syscalls :: "nat \<Rightarrow> int"
  k_num_syscalls_total :: int
  k_total_usage :: "nat \<Rightarrow> u32"
  k_usage_last_second :: "nat \<Rightarrow> u32"
  k_last_interval_start :: u32
  k_last_called_my_frac :: u32
  k_started :: bool
  k_clock :: "nat \<Rightarrow> u32"
  k_reads :: nat

text \<open>A store through \<open>task->tf\<close>.\<close>

definition upd_tf ::
  "(trapframe \<Rightarrow> trapframe) \<Rightarrow> tptr \<Rightarrow> 'a tasks_scheme \<Rightarrow> 'a tasks_scheme option" where
  "upd_tf f t s = do { tf \<leftarrow> t_tf s t; Some (s\<lparr>t_tf := (t_tf s)(t := Some (f tf))\<rparr>) }"

abbreviation set_r0 :: "tptr \<Rightarrow> u32 \<Rightarrow> 'a tasks_scheme \<Rightarrow> 'a tasks_scheme option" where
  "set_r0 t v \<equiv> upd_tf (tf_r0_update (\<lambda>_. v)) t"

text \<open>\<open>register_task\<close> and \<open>deregister_task\<close> of \<open>schedule.c\<close>.\<close>

definition register_task :: "'a tasks_scheme \<Rightarrow> tptr \<Rightarrow> ('a tasks_scheme \<times> int) option" where
  "register_task s task = do {
     guard_opt (t_state s task \<noteq> TASK_ZOMBIE);
     scheduler_register s task
   }"

definition deregister_task :: "'a tasks_scheme \<Rightarrow> tptr \<Rightarrow> ('a tasks_scheme \<times> int) option" where
  "deregister_task s task = scheduler_deregister s task"

text \<open>\<open>send_queue.c\<close>: the queue template on \<open>prevmsg\<close> and \<open>nextmsg\<close>, applied to \<open>td->send_queue\<close>.\<close>

definition send_queue_is_empty :: "'a tasks_scheme \<Rightarrow> tptr \<Rightarrow> bool" where
  "send_queue_is_empty s td = queue_is_empty (send_queues s (t_send_queue s td))"

definition send_queue_enqueue ::
  "'a tasks_scheme \<Rightarrow> tptr \<Rightarrow> tptr \<Rightarrow> 'a tasks_scheme option" where
  "send_queue_enqueue s td sender = do {
     (L, q) \<leftarrow> queue_enqueue (t_msg s) (send_queues s (t_send_queue s td)) sender;
     Some (s\<lparr>t_msg := L, send_queues := (send_queues s)(t_send_queue s td := q)\<rparr>)
   }"

definition send_queue_dequeue ::
  "'a tasks_scheme \<Rightarrow> tptr \<Rightarrow> ('a tasks_scheme \<times> tptr option) option" where
  "send_queue_dequeue s td = do {
     (L, q, r) \<leftarrow> queue_dequeue (t_msg s) (send_queues s (t_send_queue s td));
     Some (s\<lparr>t_msg := L, send_queues := (send_queues s)(t_send_queue s td := q)\<rparr>, r)
   }"

end
