(* ===== verification/Messaging.thy ===== *)
theory Messaging
  imports Kernel_State
begin

text \<open>
  Message passing, \<open>kernel/src/multitasking/messaging.c\<close>. Lengths are \<open>register_t\<close>, compared
  as signed numbers and handed to \<open>tmemcpy\<close> as unsigned ones.
\<close>

definition transmit_message :: "'a kernel_scheme \<Rightarrow> tptr \<Rightarrow> tptr \<Rightarrow> 'a kernel_scheme option" where
  "transmit_message s src dst = do {
     stf \<leftarrow> t_tf s src;
     dtf \<leftarrow> t_tf s dst;
     let too_big = sint (tf_r3 stf) > sint (tf_r3 dtf);
     s1 \<leftarrow> set_r0 dst (if too_big then -1 else tf_r3 stf) s;
     let s2 = s1\<lparr>k_mem := tmemcpy (k_mem s1) (tf_r2 dtf) (tf_r2 stf)
                            (if too_big then tf_r3 dtf else tf_r3 stf)\<rparr>;
     s3 \<leftarrow> task_set_state s2 src TASK_REPLY_BLOCKED;
     s4 \<leftarrow> task_set_state s3 dst TASK_RUNNABLE;
     Some (s4\<lparr>k_mem := store32 (k_mem s4) (tf_r1 dtf) (of_int (task_get_userland_tid s4 src))\<rparr>)
   }"

definition send :: "'a kernel_scheme \<Rightarrow> tptr \<Rightarrow> tptr \<Rightarrow> 'a kernel_scheme option" where
  "send s sender receiver =
     (case t_state s receiver of
        TASK_ZOMBIE \<Rightarrow> set_r0 sender (-2) s
      | TASK_SEND_BLOCKED \<Rightarrow> do {
          s1 \<leftarrow> transmit_message s sender receiver;
          (s2, _) \<leftarrow> register_task s1 receiver;
          Some s2
        }
      | _ \<Rightarrow> do {
          s1 \<leftarrow> task_set_state s sender TASK_RECEIVE_BLOCKED;
          send_queue_enqueue s1 receiver sender
        })"

definition receive :: "'a kernel_scheme \<Rightarrow> tptr \<Rightarrow> 'a kernel_scheme option" where
  "receive s receiver =
     (if send_queue_is_empty s receiver then task_set_state s receiver TASK_SEND_BLOCKED
      else do {
        (s1, r) \<leftarrow> send_queue_dequeue s receiver;
        sender \<leftarrow> r;
        s2 \<leftarrow> transmit_message s1 sender receiver;
        task_set_state s2 sender TASK_REPLY_BLOCKED
      })"

definition reply :: "'a kernel_scheme \<Rightarrow> tptr \<Rightarrow> tptr \<Rightarrow> 'a kernel_scheme option" where
  "reply s called_send called_reply =
     (if t_state s called_send = TASK_ZOMBIE then set_r0 called_reply (-2) s
      else if t_state s called_send \<noteq> TASK_REPLY_BLOCKED then set_r0 called_reply (-3) s
      else do {
        stf \<leftarrow> t_tf s called_send;
        rtf \<leftarrow> t_tf s called_reply;
        let truncated = sint (tf_r5 stf) < sint (tf_r3 rtf);
        s1 \<leftarrow> set_r0 called_send (if truncated then -1 else tf_r3 rtf) s;
        s2 \<leftarrow> set_r0 called_reply (if truncated then -1 else 0) s1;
        let s3 = s2\<lparr>k_mem := tmemcpy (k_mem s2) (tf_r4 stf) (tf_r2 rtf)
                               (if truncated then tf_r5 stf else tf_r3 rtf)\<rparr>;
        s4 \<leftarrow> task_set_state s3 called_send TASK_RUNNABLE;
        (s5, _) \<leftarrow> register_task s4 called_send;
        Some s5
      })"

end
