(* ===== verification/Events.thy ===== *)
theory Events
  imports Kernel_State
begin

text \<open>
  Events, \<open>kernel/src/events.c\<close>, and the UART interrupt switches of \<open>kernel/src/iio.c\<close> they
  use, in the lab (TS-7200) build with \<open>IOINTERRUPTS\<close> on and \<open>FIFOS\<close> off. Event ids are the
  values of \<open>enum event_id\<close>; \<open>registered_tasks\<close> and \<open>has_event_been_registered\<close> have
  \<open>MAX_EVENT_ID + 1\<close> entries.
\<close>

definition MAX_EVENT_ID :: int where
  "MAX_EVENT_ID = 4"

abbreviation (input) TERMINAL_TX_INTERRUPT :: int where "TERMINAL_TX_INTERRUPT \<equiv> 0"
abbreviation (input) TERMINAL_RX_INTERRUPT :: int where "TERMINAL_RX_INTERRUPT \<equiv> 1"
abbreviation (input) TRAIN_TX_INTERRUPT :: int where "TRAIN_TX_INTERRUPT \<equiv> 2"
abbreviation (input) TRAIN_RX_INTERRUPT :: int where "TRAIN_RX_INTERRUPT \<equiv> 3"
abbreviation (input) TIMER_INTERRUPT :: int where "TIMER_INTERRUPT \<equiv> 4"

definition UARTRXENABLE_MASK :: u32 where "UARTRXENABLE_MASK = 0x10"
definition UARTTXENABLE_MASK :: u32 where "UARTTXENABLE_MASK = 0x20"

definition enable_uart_interrupt ::
  "'a kernel_scheme \<Rightarrow> channel \<Rightarrow> u32 \<Rightarrow> bool \<Rightarrow> 'a kernel_scheme" where
  "enable_uart_interrupt s ch enable_mask enable =
     s\<lparr>k_uart_ctlr := (k_uart_ctlr s)(ch :=
         if enable then k_uart_ctlr s ch OR enable_mask
         else k_uart_ctlr s ch AND NOT enable_mask)\<rparr>"

definition enable_uart_event :: "'a kernel_scheme \<Rightarrow> int \<Rightarrow> 'a kernel_scheme" where
  "enable_uart_event s e =
     (if e = TRAIN_TX_INTERRUPT then enable_uart_interrupt s TRAIN UARTTXENABLE_MASK True
      else if e = TRAIN_RX_INTERRUPT then enable_uart_interrupt s TRAIN UARTRXENABLE_MASK True
      else if e = TERMINAL_TX_INTERRUPT then enable_uart_interrupt s TERMINAL UARTTXENABLE_MASK True
      else if e = TERMINAL_RX_INTERRUPT then enable_uart_interrupt s TERMINAL UARTRXENABLE_MASK True
      else s)"

definition interrupt_tx_clear :: "'a kernel_scheme \<Rightarrow> channel \<Rightarrow> 'a kernel_scheme" where
  "interrupt_tx_clear s ch =
     (let s1 = enable_uart_interrupt s ch UARTTXENABLE_MASK False
      in if ch = TRAIN then s1\<lparr>k_uart0_txfe_asserted := 1\<rparr> else s1)"

definition interrupt_rx_clear :: "'a kernel_scheme \<Rightarrow> channel \<Rightarrow> 'a kernel_scheme" where
  "interrupt_rx_clear s ch = enable_uart_interrupt s ch UARTRXENABLE_MASK False"

text \<open>\<open>flag\<close> is the reading of the train UART's flag register; bit 0 is CTS.\<close>

definition maybe_received_cts :: "'a kernel_scheme \<Rightarrow> u32 \<Rightarrow> 'a kernel_scheme" where
  "maybe_received_cts s flag =
     s\<lparr>k_uart0_cts_asserted := k_uart0_cts_asserted s OR (flag AND 1)\<rparr>"

definition try_clear_train_send :: "'a kernel_scheme \<Rightarrow> 'a kernel_scheme \<times> bool" where
  "try_clear_train_send s =
     (if k_uart0_txfe_asserted s \<noteq> 0 \<and> k_uart0_cts_asserted s \<noteq> 0
      then (s\<lparr>k_uart0_txfe_asserted := 0, k_uart0_cts_asserted := 0\<rparr>, True)
      else (s, False))"

definition setup_events :: "'a kernel_scheme \<Rightarrow> 'a kernel_scheme" where
  "setup_events s = s\<lparr>
     k_registered := (\<lambda>i. if int i \<le> MAX_EVENT_ID then None else k_registered s i),
     k_has_event_been_registered :=
       (\<lambda>i. if int i \<le> MAX_EVENT_ID then False else k_has_event_been_registered s i),
     tasks_event_blocked := 0\<rparr>"

definition event_has_task :: "'a kernel_scheme \<Rightarrow> int \<Rightarrow> bool option" where
  "event_has_task s event_id = do {
     guard_opt (0 \<le> event_id \<and> event_id \<le> MAX_EVENT_ID);
     Some (case k_registered s (nat event_id) of
             None \<Rightarrow> False | Some t \<Rightarrow> t_state s t = TASK_EVENT_BLOCKED)
   }"

definition event_register ::
  "'a kernel_scheme \<Rightarrow> int \<Rightarrow> tptr option \<Rightarrow> ('a kernel_scheme \<times> int) option" where
  "event_register s event_id task = do {
     task \<leftarrow> task;
     if event_id < 0 \<or> event_id > MAX_EVENT_ID then Some (s, -1)
     else do {
       taken \<leftarrow> event_has_task s event_id;
       if taken then Some (s, -3)
       else do {
         let s1 = s\<lparr>k_registered := (k_registered s)(nat event_id := Some task),
                    t_blocked_on := (t_blocked_on s)(task := event_id)\<rparr>;
         s2 \<leftarrow> task_set_state s1 task TASK_EVENT_BLOCKED;
         let s3 = enable_uart_event s2 event_id;
         Some (s3\<lparr>k_has_event_been_registered :=
                   (k_has_event_been_registered s3)(nat event_id := True)\<rparr>, 0xBADDA7A)
       }
     }
   }"

text \<open>A dropped event of a type some task has waited for before ends in \<open>kassert(0)\<close>.\<close>

definition event_handle :: "'a kernel_scheme \<Rightarrow> int \<Rightarrow> int \<Rightarrow> 'a kernel_scheme option" where
  "event_handle s event_id event_data = do {
     guard_opt (event_id \<ge> 0 \<and> event_id \<le> MAX_EVENT_ID);
     has \<leftarrow> event_has_task s event_id;
     if has then do {
       t \<leftarrow> k_registered s (nat event_id);
       guard_opt (t_state s t = TASK_EVENT_BLOCKED);
       guard_opt (t_blocked_on s t = event_id);
       tf \<leftarrow> t_tf s t;
       guard_opt (tf_r0 tf = 0xBADDA7A);
       s1 \<leftarrow> set_r0 t (of_int event_data) s;
       s2 \<leftarrow> task_set_state s1 t TASK_RUNNABLE;
       let s3 = s2\<lparr>k_registered := (k_registered s2)(nat event_id := None),
                   t_blocked_on := (t_blocked_on s2)(t := NOT_BLOCKED)\<rparr>;
       (s4, _) \<leftarrow> register_task s3 t;
       Some s4
     }
     else do { guard_opt (\<not> k_has_event_been_registered s (nat event_id)); Some s }
   }"

definition event_deregister :: "'a kernel_scheme \<Rightarrow> tptr \<Rightarrow> 'a kernel_scheme option" where
  "event_deregister s td =
     (if t_state s td = TASK_EVENT_BLOCKED then do {
        let e = t_blocked_on s td;
        guard_opt (e \<noteq> NOT_BLOCKED);
        guard_opt (0 \<le> e \<and> e \<le> MAX_EVENT_ID);
        guard_opt (k_registered s (nat e) = Some td);
        Some (s\<lparr>k_registered := (k_registered s)(nat e := None),
                k_has_event_been_registered := (k_has_event_been_registered s)(nat e := False),
                t_blocked_on := (t_blocked_on s)(td := NOT_BLOCKED)\<rparr>)
      }
      else do { guard_opt (t_blocked_on s td = NOT_BLOCKED); Some s })"

end
