(* ===== verification/Syscall.thy ===== *)
theory Syscall
  imports Messaging Events
begin

text \<open>
  The system calls of \<open>kernel/src/syscall/syscall.c\<close>, the usage accounting of
  \<open>kernel/src/kusage_stats.c\<close>, the trap handler of \<open>kernel/src/interrupt.c\<close> and the scheduling
  loop body of \<open>kernel/src/multitasking/schedule.c\<close>. \<open>leave_kernel\<close>, which runs the user task
  until it traps, is assembly: what it brings back (the saved trap frame, the memory the task has
  written, whether the trap was a hardware interrupt) is an argument of the step.
\<close>

section \<open>Usage accounting\<close>

definition get_clockticks :: "'a kernel_scheme \<Rightarrow> 'a kernel_scheme \<times> u32" where
  "get_clockticks s = (s\<lparr>k_reads := k_reads s + 1\<rparr>, k_clock s (k_reads s))"

definition KERNEL_FAKE_TID :: nat where
  "KERNEL_FAKE_TID = 0"

definition reset_usage :: "(nat \<Rightarrow> u32) \<Rightarrow> nat \<Rightarrow> u32" where
  "reset_usage ms_run = (\<lambda>i. if i < MAX_TASKS then 0 else ms_run i)"

definition setup_kusage_stats :: "'a kernel_scheme \<Rightarrow> 'a kernel_scheme" where
  "setup_kusage_stats s =
     (case get_clockticks s of (s1, now) \<Rightarrow>
        s1\<lparr>k_last_called_my_frac := now, k_total_usage := reset_usage (k_total_usage s1),
           k_usage_last_second := reset_usage (k_usage_last_second s1), k_started := False\<rparr>)"

definition start_interval :: "'a kernel_scheme \<Rightarrow> 'a kernel_scheme option" where
  "start_interval s = do {
     guard_opt (\<not> k_started s);
     let (s1, now) = get_clockticks s;
     guard_opt (now > 0);
     Some (s1\<lparr>k_started := True, k_last_interval_start := now\<rparr>)
   }"

definition end_interval :: "'a kernel_scheme \<Rightarrow> nat \<Rightarrow> 'a kernel_scheme option" where
  "end_interval s tid = do {
     guard_opt (k_started s);
     guard_opt (k_last_interval_start s > 0);
     guard_opt (tid \<le> MAX_TASKS);
     let (s1, now) = get_clockticks s;
     let i = now - k_last_interval_start s1;
     Some (s1\<lparr>k_started := False,
              k_total_usage := (k_total_usage s1)(tid := k_total_usage s1 tid + i),
              k_usage_last_second := (k_usage_last_second s1)(tid := k_usage_last_second s1 tid + i)\<rparr>)
   }"

text \<open>
  \<open>0.5 + (1000.0 * ms) / total\<close> cut to an integer; the double arithmetic is done exactly here.
  A zero \<open>total\<close> gives an infinity or NaN, whose conversion to an integer is undefined.
\<close>

definition syscall_my_proc_usage :: "'a kernel_scheme \<Rightarrow> nat \<Rightarrow> ('a kernel_scheme \<times> int) option" where
  "syscall_my_proc_usage s tid = do {
     let (s1, now) = get_clockticks s;
     let total = now - k_last_called_my_frac s1;
     let (s2, now2) = get_clockticks s1;
     guard_opt (total \<noteq> 0 \<and> tid \<le> MAX_TASKS);
     let ret = (2000 * uint (k_usage_last_second s2 tid) + uint total) div (2 * uint total);
     Some (s2\<lparr>k_last_called_my_frac := now2,
              k_usage_last_second := reset_usage (k_usage_last_second s2)\<rparr>, ret)
   }"

text \<open>The user's \<open>usage_stats\<close>: \<open>ms_run\<close>, 65 words of which the kernel fills 64, then \<open>max_tid\<close>.\<close>

definition write_usage :: "mem \<Rightarrow> u32 \<Rightarrow> (nat \<Rightarrow> u32) \<Rightarrow> mem" where
  "write_usage m p ms_run =
     store32 (fold (\<lambda>i m. store32 m (p + 4 * of_nat i) (ms_run i)) [0..<MAX_TASKS] m)
       (p + 4 * of_nat (MAX_TASKS + 1)) (of_nat (MAX_TASKS - 1))"

definition syscall_total_proc_usage :: "'a kernel_scheme \<Rightarrow> u32 \<Rightarrow> 'a kernel_scheme" where
  "syscall_total_proc_usage s p = s\<lparr>k_mem := write_usage (k_mem s) p (k_total_usage s)\<rparr>"

definition syscall_last_secs_proc_usage :: "'a kernel_scheme \<Rightarrow> u32 \<Rightarrow> 'a kernel_scheme" where
  "syscall_last_secs_proc_usage s p =
     s\<lparr>k_mem := write_usage (k_mem s) p (k_usage_last_second s),
       k_usage_last_second := reset_usage (k_usage_last_second s)\<rparr>"

section \<open>System calls\<close>

definition MAX_PRIORITY :: int where
  "MAX_PRIORITY = 63"

definition syscall_create :: "'a kernel_scheme \<Rightarrow> int \<Rightarrow> u32 \<Rightarrow> ('a kernel_scheme \<times> int) option" where
  "syscall_create s priority code =
     (if get_next_available_tid s = -1 then Some (s, -2)
      else if priority < 0 \<or> priority > MAX_PRIORITY then Some (s, -1)
      else do {
        ret \<leftarrow> get_next_raw_td s;
        s1 \<leftarrow> task_init s ret priority code (k_current s);
        (s2, register_result) \<leftarrow> register_task s1 ret;
        Some (s2, if register_result \<noteq> 0 then register_result else task_get_userland_tid s2 ret)
      })"

definition syscall_mytid :: "'a kernel_scheme \<Rightarrow> int" where
  "syscall_mytid s = (case k_current s of None \<Rightarrow> -1 | Some t \<Rightarrow> task_get_userland_tid s t)"

definition syscall_myparent_tid :: "'a kernel_scheme \<Rightarrow> int" where
  "syscall_myparent_tid s =
     (case k_current s of None \<Rightarrow> -2 | Some t \<Rightarrow> task_get_userland_parent_tid s t)"

definition syscall_pass :: "'a kernel_scheme \<Rightarrow> 'a kernel_scheme option" where
  "syscall_pass s = do {
     td \<leftarrow> k_current s;
     (s1, _) \<leftarrow> register_task s td;
     Some s1
   }"

partial_function (option) clear_send_queue :: "'a kernel_scheme \<Rightarrow> tptr \<Rightarrow> 'a kernel_scheme option" where
  "clear_send_queue s td =
     (if send_queue_is_empty s td then Some s
      else do {
        (s1, r) \<leftarrow> send_queue_dequeue s td;
        sender \<leftarrow> r;
        if t_state s1 sender = TASK_RECEIVE_BLOCKED then do {
          s2 \<leftarrow> set_r0 sender (-2) s1;
          s3 \<leftarrow> task_set_state s2 sender TASK_RUNNABLE;
          x \<leftarrow> register_task s3 sender;
          clear_send_queue (fst x) td
        }
        else clear_send_queue s1 td
      })"

definition syscall_exit :: "'a kernel_scheme \<Rightarrow> 'a kernel_scheme option" where
  "syscall_exit s = do {
     td \<leftarrow> k_current s;
     s1 \<leftarrow> task_retire s td 0;
     clear_send_queue s1 td
   }"

definition syscall_send :: "'a kernel_scheme \<Rightarrow> 'a kernel_scheme option" where
  "syscall_send s = do {
     current_task \<leftarrow> k_current s;
     tf \<leftarrow> t_tf s current_task;
     let receiver_tid = sint (tf_r1 tf);
     if \<not> is_valid_userland_tid s receiver_tid then set_r0 current_task (-2) s
     else do {
       receiver \<leftarrow> get_task_with_userland_tid receiver_tid;
       send s current_task receiver
     }
   }"

definition syscall_receive :: "'a kernel_scheme \<Rightarrow> 'a kernel_scheme option" where
  "syscall_receive s = do { current_task \<leftarrow> k_current s; receive s current_task }"

definition syscall_reply :: "'a kernel_scheme \<Rightarrow> 'a kernel_scheme option" where
  "syscall_reply s = do {
     current_task \<leftarrow> k_current s;
     tf \<leftarrow> t_tf s current_task;
     let sender_tid = sint (tf_r1 tf);
     if \<not> is_valid_userland_tid s sender_tid then set_r0 current_task (-2) s
     else do {
       sender \<leftarrow> get_task_with_userland_tid sender_tid;
       reply s sender current_task
     }
   }"

definition syscall_awaitevent :: "'a kernel_scheme \<Rightarrow> int \<Rightarrow> ('a kernel_scheme \<times> int) option" where
  "syscall_awaitevent s event_id = event_register s event_id (k_current s)"

definition syscall_mypriority :: "'a kernel_scheme \<Rightarrow> int" where
  "syscall_mypriority s = (case k_current s of None \<Rightarrow> -1 | Some t \<Rightarrow> task_get_priority s t)"

text \<open>
  What the interrupt code reads from the devices: the modem bit of the second VIC and the flag
  register of the train UART; for a trap, the status word of the first VIC as well.
\<close>

record device_input =
  d_vic1 :: u32
  d_modem :: bool
  d_uart_flag :: u32

definition handle_vic_event ::
  "device_input \<Rightarrow> 'a kernel_scheme \<Rightarrow> int \<Rightarrow> 'a kernel_scheme option" where
  "handle_vic_event dev s ev =
     (if ev = TIMER_INTERRUPT then event_handle (s\<lparr>k_ticks := k_ticks s + 1\<rparr>) ev 0
      else if ev = TERMINAL_TX_INTERRUPT then event_handle (interrupt_tx_clear s TERMINAL) ev 0
      else if ev = TERMINAL_RX_INTERRUPT then event_handle (interrupt_rx_clear s TERMINAL) ev 0
      else if ev = TRAIN_TX_INTERRUPT then
        (case try_clear_train_send (interrupt_tx_clear s TRAIN) of
           (s1, cts) \<Rightarrow> if cts then event_handle s1 ev 0 else Some s1)
      else if ev = TRAIN_RX_INTERRUPT then event_handle (interrupt_rx_clear s TRAIN) ev 0
      else if d_modem dev then
        (case try_clear_train_send (maybe_received_cts s (d_uart_flag dev)) of
           (s1, cts) \<Rightarrow> if cts then event_handle s1 TRAIN_TX_INTERRUPT 0
                        else if ev \<noteq> -1 then event_handle s1 ev (-2) else Some s1)
      else if ev \<noteq> -1 then event_handle s ev (-2) else Some s)"

definition syscall_kill :: "device_input \<Rightarrow> 'a kernel_scheme \<Rightarrow> int \<Rightarrow> ('a kernel_scheme \<times> int) option" where
  "syscall_kill dev s tid = do {
     current_task \<leftarrow> k_current s;
     if tid = task_get_userland_tid s current_task then Some (s, -2)
     else case get_task_with_userland_tid tid of
       None \<Rightarrow> Some (s, -1)
     | Some to_kill \<Rightarrow> do {
         let blocked_on = t_blocked_on s to_kill;
         s1 \<leftarrow> event_deregister s to_kill;
         s2 \<leftarrow> (if blocked_on \<noteq> NOT_BLOCKED then handle_vic_event dev s1 blocked_on else Some s1);
         (s3, _) \<leftarrow> deregister_task s2 to_kill;
         s4 \<leftarrow> task_retire s3 to_kill 0;
         s5 \<leftarrow> clear_send_queue s4 to_kill;
         Some (s5, 0)
       }
   }"

section \<open>Traps\<close>

text \<open>\<open>kernel/src/vic.c\<close>: event ids against bits of the interrupt status word.\<close>

definition event_id_to_vic_bit :: "int \<Rightarrow> int" where
  "event_id_to_vic_bit e =
     (if e = TIMER_INTERRUPT then 4
      else if e = TRAIN_RX_INTERRUPT then 23
      else if e = TRAIN_TX_INTERRUPT then 24
      else if e = TERMINAL_RX_INTERRUPT then 25
      else if e = TERMINAL_TX_INTERRUPT then 26
      else -1)"

text \<open>The array \<open>event_masks\<close> as \<open>setup_vic\<close> fills it.\<close>

definition event_masks :: "nat \<Rightarrow> u32" where
  "event_masks i =
     (if int i = TIMER_INTERRUPT then 0x10
      else if int i = TERMINAL_TX_INTERRUPT then 0x04000000
      else if int i = TERMINAL_RX_INTERRUPT then 0x02000000
      else if int i = TRAIN_TX_INTERRUPT then 0x01000000
      else if int i = TRAIN_RX_INTERRUPT then 0x00800000
      else 0)"

definition get_highest_vic_bit_event_id :: "u32 \<Rightarrow> int" where
  "get_highest_vic_bit_event_id pic_status =
     (case find (\<lambda>i. pic_status AND event_masks i \<noteq> 0) [0..<5] of
        Some i \<Rightarrow> int i | None \<Rightarrow> -1)"

definition handle_hwi :: "device_input \<Rightarrow> 'a kernel_scheme \<Rightarrow> 'a kernel_scheme option" where
  "handle_hwi dev s =
     handle_vic_event dev s (get_highest_vic_bit_event_id (d_vic1 dev))"

definition NUM_SYSCALL_CODES :: nat where
  "NUM_SYSCALL_CODES = 16"

text \<open>The dispatch on the system call number in \<open>r0\<close>. \<open>num_syscalls[r0]\<close> is counted first.\<close>

definition ret_r0 :: "tptr \<Rightarrow> 'a kernel_scheme \<times> int \<Rightarrow> 'a kernel_scheme option" where
  "ret_r0 cur x = set_r0 cur (of_int (snd x)) (fst x)"

definition dispatch_syscall ::
  "device_input \<Rightarrow> 'a kernel_scheme \<Rightarrow> tptr \<Rightarrow> trapframe \<Rightarrow> 'a kernel_scheme option" where
  "dispatch_syscall dev s cur tf = do {
     let n = sint (tf_r0 tf);
     guard_opt (0 \<le> n \<and> n < int NUM_SYSCALL_CODES);
     let s = s\<lparr>k_num_syscalls := (k_num_syscalls s)(nat n := k_num_syscalls s (nat n) + 1),
               k_num_syscalls_total := k_num_syscalls_total s + 1\<rparr>;
     if n = 0 then syscall_exit s
     else if n = 1 then syscall_pass s
     else if n = 2 then Option.bind (syscall_create s (sint (tf_r1 tf)) (tf_r2 tf)) (ret_r0 cur)
     else if n = 3 then ret_r0 cur (s, syscall_mytid s)
     else if n = 4 then ret_r0 cur (s, syscall_myparent_tid s)
     else if n = 5 then None
     else if n = 6 then syscall_send s
     else if n = 7 then syscall_receive s
     else if n = 8 then syscall_reply s
     else if n = 9 then Some s
     else if n = 10 then Option.bind (syscall_awaitevent s (sint (tf_r1 tf))) (ret_r0 cur)
     else if n = 11 then Option.bind (syscall_kill dev s (sint (tf_r1 tf))) (ret_r0 cur)
     else if n = 12 then ret_r0 cur (s, syscall_mypriority s)
     else if n = 13 then Some (syscall_total_proc_usage s (tf_r1 tf))
     else if n = 14 then Some (syscall_last_secs_proc_usage s (tf_r1 tf))
     else Option.bind (syscall_my_proc_usage s (t_tid s cur)) (ret_r0 cur)
   }"

text \<open>
  \<open>handle_interrupt\<close>: \<open>tf\<close> is the frame the trap entry has saved on the user stack. The checks
  of the processor mode (\<open>MRS\<close>) and of the frame's own address are left to the assembly.
\<close>

definition handle_interrupt ::
  "device_input \<Rightarrow> 'a kernel_scheme \<Rightarrow> trapframe \<Rightarrow> bool \<Rightarrow> 'a kernel_scheme option" where
  "handle_interrupt dev s tf is_hardware_interrupt = do {
     guard_opt (tf_k_lr tf \<noteq> 0xA1B2C3D4);
     cur \<leftarrow> k_current s;
     guard_opt (tf_sp tf \<noteq> 0);
     s1 \<leftarrow> end_interval s (t_tid s cur);
     s2 \<leftarrow> start_interval s1;
     let s3 = s2\<lparr>t_tf := (t_tf s2)(cur := Some tf)\<rparr>;
     guard_opt (tf_psr tf AND 0xFF = 0x10);
     if is_hardware_interrupt then handle_hwi dev s3
     else dispatch_syscall dev s3 cur tf
   }"

section \<open>The scheduling loop\<close>

definition setup_scheduler :: "'a kernel_scheme \<Rightarrow> 'a kernel_scheme option" where
  "setup_scheduler s = do {
     (s1, r) \<leftarrow> scheduler_init s MAX_PRIORITY (replicate 64 None);
     guard_opt (r = 0);
     Some s1
   }"

text \<open>The stack pointer of a task lies in the task's own part of the stack area.\<close>

definition sp_in_stack :: "nat \<Rightarrow> u32 \<Rightarrow> bool" where
  "sp_in_stack tid sp \<longleftrightarrow> sint sp > STACK_TOP - (int tid + 1) * BYTES_PER_TASK \<and>
     sint sp \<le> STACK_TOP - int tid * BYTES_PER_TASK"

text \<open>
  The second assertion compares a number whose low half is masked out with 0xF433, so it never
  fires.
\<close>

definition schedule_asserts :: "'a kernel_scheme \<Rightarrow> tptr \<Rightarrow> bool option" where
  "schedule_asserts s t = do {
     tf \<leftarrow> t_tf s t;
     Some (sp_in_stack (t_tid s t) (tf_sp tf) \<and>
       (tf_r7 tf AND 0xFFFF0000 \<noteq> 0xF433 \<or>
        drop_bit 4 (0xFFF0 AND tf_r7 tf) = of_nat (t_tid s t)))
   }"

text \<open>
  Up to the \<open>leave_kernel\<close> of \<open>task_activate\<close>: \<open>None\<close> for the task when nothing is left to run.
\<close>

definition schedule_pick :: "'a kernel_scheme \<Rightarrow> ('a kernel_scheme \<times> tptr option) option" where
  "schedule_pick s = do {
     (s1, next) \<leftarrow> scheduler_next_task s;
     if next = None \<and> tasks_event_blocked s1 = 0 then Some (s1, None)
     else do {
       t \<leftarrow> next;
       ok \<leftarrow> schedule_asserts s1 t;
       guard_opt ok;
       let s2 = s1\<lparr>k_current := Some t\<rparr>;
       guard_opt (t_state s2 t = TASK_RUNNABLE \<or> t_state s2 t = TASK_ACTIVE);
       let s3 = s2\<lparr>t_state := (t_state s2)(t := TASK_ACTIVE),
                   k_num_ctx_sw := k_num_ctx_sw s2 + 1\<rparr>;
       s4 \<leftarrow> end_interval s3 KERNEL_FAKE_TID;
       s5 \<leftarrow> start_interval s4;
       Some (s5, Some t)
     }
   }"

definition schedule_finish :: "'a kernel_scheme \<Rightarrow> tptr \<Rightarrow> 'a kernel_scheme option" where
  "schedule_finish s next = do {
     guard_opt (k_current s = Some next);
     if t_state s next = TASK_RUNNABLE \<or> t_state s next = TASK_ACTIVE then do {
       ok \<leftarrow> schedule_asserts s next;
       guard_opt ok;
       s1 \<leftarrow> task_set_state s next TASK_RUNNABLE;
       (s2, _) \<leftarrow> scheduler_register s1 next;
       Some s2
     }
     else Some s
   }"

text \<open>
  One call of \<open>schedule\<close>. \<open>u_mem\<close> is the memory as the user task leaves it.
\<close>

record user_step =
  u_tf :: trapframe
  u_mem :: "mem \<Rightarrow> mem"
  u_hw :: bool

definition schedule ::
  "device_input \<Rightarrow> user_step \<Rightarrow> 'a kernel_scheme \<Rightarrow> ('a kernel_scheme \<times> bool) option" where
  "schedule dev u s = do {
     (s1, next) \<leftarrow> schedule_pick s;
     case next of
       None \<Rightarrow> Some (s1, False)
     | Some t \<Rightarrow> do {
         s2 \<leftarrow> handle_interrupt dev (s1\<lparr>k_mem := u_mem u (k_mem s1)\<rparr>) (u_tf u) (u_hw u);
         s3 \<leftarrow> schedule_finish s2 t;
         Some (s3, True)
       }
   }"

end
