(* ===== verification/Kernel_Inv.thy ===== *)
theory Kernel_Inv
  imports Syscall
begin

text \<open>
  The kernel invariant. \<open>Q\<close> are the ready queues by priority, \<open>M\<close> the send queues by tid, \<open>C\<close>
  the descriptors an operation has in hand (the running task, a sender taken off a send queue):
  they are on no ready queue and may be in any state. Every other descriptor's state says where it
  is: on its ready queue, on one send queue, registered for an event, or on none.
\<close>

definition ready_ok :: "'a tasks_scheme \<Rightarrow> (nat \<Rightarrow> tptr list) \<Rightarrow> tptr set \<Rightarrow> bool" where
  "ready_ok s Q C \<longleftrightarrow> sched_inv s Q \<and> s_max_priority s = 63 \<and>
     (\<forall>p < 64. \<forall>t \<in> set (Q p). t < 64 \<and> t \<notin> C \<and> t_state s t = TASK_RUNNABLE) \<and>
     (\<forall>t < 64. t \<notin> C \<longrightarrow> t_state s t \<noteq> TASK_ACTIVE \<and>
        (t_state s t = TASK_RUNNABLE \<longrightarrow> t \<in> set (Q (nat (s_prio s t))))) \<and>
     (\<forall>t < 64. t_state s t \<noteq> TASK_ZOMBIE \<longrightarrow> 0 \<le> s_prio s t \<and> s_prio s t \<le> 63)"

definition msg_ok :: "'a tasks_scheme \<Rightarrow> (nat \<Rightarrow> tptr list) \<Rightarrow> tptr set \<Rightarrow> bool" where
  "msg_ok s M C \<longleftrightarrow> tq.bank (t_msg s) {..<64} (send_queues s) M \<and>
     (\<forall>r < 64. \<forall>t \<in> set (M r). t < 64 \<and> t_state s t = TASK_RECEIVE_BLOCKED) \<and>
     (\<forall>t < 64. t \<notin> C \<longrightarrow> t_state s t = TASK_RECEIVE_BLOCKED \<longrightarrow> (\<exists>r < 64. t \<in> set (M r)))"

definition events_ok :: "'a kernel_scheme \<Rightarrow> tptr set \<Rightarrow> bool" where
  "events_ok s C \<longleftrightarrow>
     tasks_event_blocked s = int (card {t. t < 64 \<and> t_state s t = TASK_EVENT_BLOCKED}) \<and>
     (\<forall>t < 64. t_state s t = TASK_EVENT_BLOCKED \<longrightarrow> 0 \<le> t_blocked_on s t \<and>
        t_blocked_on s t \<le> MAX_EVENT_ID \<and> k_registered s (nat (t_blocked_on s t)) = Some t \<and>
        (t \<notin> C \<longrightarrow> (\<exists>tf. t_tf s t = Some tf \<and> tf_r0 tf = 0xBADDA7A))) \<and>
     (\<forall>t < 64. t_state s t \<noteq> TASK_EVENT_BLOCKED \<longrightarrow> t_state s t \<noteq> TASK_ZOMBIE \<longrightarrow>
        t_blocked_on s t = NOT_BLOCKED) \<and>
     (\<forall>e. int e \<le> MAX_EVENT_ID \<longrightarrow> (case k_registered s e of None \<Rightarrow> True
        | Some t \<Rightarrow> t < 64 \<and> t_state s t = TASK_EVENT_BLOCKED \<and> t_blocked_on s t = int e))"

definition stacks_ok :: "'a tasks_scheme \<Rightarrow> bool" where
  "stacks_ok s \<longleftrightarrow> (\<forall>t < 64. \<forall>tf. t_state s t \<noteq> TASK_ZOMBIE \<longrightarrow> t_tf s t = Some tf \<longrightarrow>
     sp_in_stack t (tf_sp tf))"

definition kernel_core ::
  "'a kernel_scheme \<Rightarrow> (nat \<Rightarrow> tptr list) \<Rightarrow> (nat \<Rightarrow> tptr list) \<Rightarrow> tptr set \<Rightarrow> bool" where
  "kernel_core s Q M C \<longleftrightarrow> C \<subseteq> {..<64} \<and> tids_inv s \<and> ready_ok s Q C \<and> msg_ok s M C \<and> events_ok s C \<and>
     stacks_ok s"

text \<open>No zombie has senders waiting for it: this fails only inside \<open>syscall_exit\<close>.\<close>

definition zombies_quiet :: "'a tasks_scheme \<Rightarrow> (nat \<Rightarrow> tptr list) \<Rightarrow> bool" where
  "zombies_quiet s M \<longleftrightarrow> (\<forall>t < 64. t_state s t = TASK_ZOMBIE \<longrightarrow> M t = [])"

text \<open>Updates of fields the invariant does not read.\<close>

lemma sched_inv_cong:
  "s_max_priority s = s_max_priority s' \<Longrightarrow> s_hi s = s_hi s' \<Longrightarrow> s_lo s = s_lo s' \<Longrightarrow>
   s_queues s = s_queues s' \<Longrightarrow> s_links s = s_links s' \<Longrightarrow> s_prio s = s_prio s' \<Longrightarrow>
   sched_inv s Q = sched_inv s' Q"
  by (simp add: sched_inv_def ready_bit_def top_priority_def)

lemma sched_inv_update [simp]:
  "sched_inv (s\<lparr>t_state := a\<rparr>) Q = sched_inv s Q"
  "sched_inv (s\<lparr>tasks_event_blocked := b\<rparr>) Q = sched_inv s Q"
  "sched_inv (s\<lparr>t_tf := c\<rparr>) Q = sched_inv s Q"
  "sched_inv (s\<lparr>t_msg := d\<rparr>) Q = sched_inv s Q"
  "sched_inv (s\<lparr>send_queues := e\<rparr>) Q = sched_inv s Q"
  "sched_inv (s\<lparr>t_blocked_on := f\<rparr>) Q = sched_inv s Q"
  "sched_inv (s\<lparr>t_exit_code := g\<rparr>) Q = sched_inv s Q"
  "sched_inv (s\<lparr>available_tids := h\<rparr>) Q = sched_inv s Q"
  by (simp_all add: sched_inv_def ready_bit_def top_priority_def)

lemma same_sched_tasks:
  assumes "same_sched s s'"
  shows "t_state s' = t_state s" "t_tf s' = t_tf s" "t_tid s' = t_tid s" "t_msg s' = t_msg s"
    "t_generation s' = t_generation s" "t_send_queue s' = t_send_queue s"
    "t_blocked_on s' = t_blocked_on s" "available_tids s' = available_tids s"
    "the_next_generation s' = the_next_generation s" "send_queues s' = send_queues s"
    "tasks_event_blocked s' = tasks_event_blocked s" "t_parent s' = t_parent s"
    "sys_exit_addr s' = sys_exit_addr s" "tasks.more s' = tasks.more s" "s_prio s' = s_prio s"
    "s_max_priority s' = s_max_priority s"
  using assms by (cases s; cases s'; simp add: same_sched_def)+

lemma same_sched_kernel:
  assumes "same_sched s s'"
  shows "k_current s' = k_current s" "k_mem s' = k_mem s" "k_registered s' = k_registered s"
    "k_started s' = k_started s" "k_last_interval_start s' = k_last_interval_start s"
    "k_clock s' = k_clock s" "k_has_event_been_registered s' = k_has_event_been_registered s"
  using same_sched_tasks(14) [OF assms] by (cases s; cases s'; simp)+

lemma same_sched_tids [simp]: "same_sched s s' \<Longrightarrow> tids_inv s' = tids_inv s"
  by (simp add: tids_inv_def tid_free_def same_sched_tasks)

lemma same_sched_msg [simp]: "same_sched s s' \<Longrightarrow> msg_ok s' M C = msg_ok s M C"
  by (simp add: msg_ok_def same_sched_tasks)

lemma same_sched_events [simp]: "same_sched s s' \<Longrightarrow> events_ok s' C = events_ok s C"
  by (simp add: events_ok_def same_sched_tasks same_sched_kernel cong: option.case_cong)

lemma same_sched_stacks [simp]: "same_sched s s' \<Longrightarrow> stacks_ok s' = stacks_ok s"
  by (simp add: stacks_ok_def same_sched_tasks)

lemma ready_okI:
  assumes "sched_inv s Q" "s_max_priority s = 63"
    and "\<And>p t. p < 64 \<Longrightarrow> t \<in> set (Q p) \<Longrightarrow> t < 64 \<and> t \<notin> C \<and> t_state s t = TASK_RUNNABLE"
    and "\<And>t. t < 64 \<Longrightarrow> t \<notin> C \<Longrightarrow> t_state s t \<noteq> TASK_ACTIVE"
    and "\<And>t. t < 64 \<Longrightarrow> t \<notin> C \<Longrightarrow> t_state s t = TASK_RUNNABLE \<Longrightarrow> t \<in> set (Q (nat (s_prio s t)))"
    and "\<And>t. t < 64 \<Longrightarrow> t_state s t \<noteq> TASK_ZOMBIE \<Longrightarrow> 0 \<le> s_prio s t \<and> s_prio s t \<le> 63"
  shows "ready_ok s Q C"
  using assms unfolding ready_ok_def by blast

lemma ready_okD:
  assumes "ready_ok s Q C"
  shows "sched_inv s Q" "s_max_priority s = 63" "top_priority s = 63"
    and "\<And>p t. p < 64 \<Longrightarrow> t \<in> set (Q p) \<Longrightarrow> t < 64 \<and> t \<notin> C \<and> t_state s t = TASK_RUNNABLE"
    and "\<And>t. t < 64 \<Longrightarrow> t \<notin> C \<Longrightarrow> t_state s t \<noteq> TASK_ACTIVE"
    and "\<And>t. t < 64 \<Longrightarrow> t \<notin> C \<Longrightarrow> t_state s t = TASK_RUNNABLE \<Longrightarrow> t \<in> set (Q (nat (s_prio s t)))"
    and "\<And>t. t < 64 \<Longrightarrow> t_state s t \<noteq> TASK_ZOMBIE \<Longrightarrow> 0 \<le> s_prio s t \<and> s_prio s t \<le> 63"
  using assms unfolding ready_ok_def top_priority_def by (blast, blast, simp, blast, blast, blast, blast)

lemma kernel_coreD:
  assumes "kernel_core s Q M C"
  shows "C \<subseteq> {..<64}" "tids_inv s" "ready_ok s Q C" "msg_ok s M C" "events_ok s C" "stacks_ok s"
  using assms by (simp_all add: kernel_core_def)

lemma msg_okD:
  assumes "msg_ok s M C"
  shows "tq.bank (t_msg s) {..<64} (send_queues s) M"
    and "\<And>r t. r < 64 \<Longrightarrow> t \<in> set (M r) \<Longrightarrow> t < 64 \<and> t_state s t = TASK_RECEIVE_BLOCKED"
    and "\<And>t. t < 64 \<Longrightarrow> t \<notin> C \<Longrightarrow> t_state s t = TASK_RECEIVE_BLOCKED \<Longrightarrow> \<exists>r < 64. t \<in> set (M r)"
  using assms unfolding msg_ok_def by blast+

lemma msg_okI:
  assumes "tq.bank (t_msg s) {..<64} (send_queues s) M"
    and "\<And>r t. r < 64 \<Longrightarrow> t \<in> set (M r) \<Longrightarrow> t < 64 \<and> t_state s t = TASK_RECEIVE_BLOCKED"
    and "\<And>t. t < 64 \<Longrightarrow> t \<notin> C \<Longrightarrow> t_state s t = TASK_RECEIVE_BLOCKED \<Longrightarrow> \<exists>r < 64. t \<in> set (M r)"
  shows "msg_ok s M C"
  using assms unfolding msg_ok_def by blast

text \<open>The running task and other descriptors in hand: entering and leaving \<open>C\<close>.\<close>

lemma core_notin_ready:
  "kernel_core s Q M C \<Longrightarrow> t \<in> C \<or> t_state s t \<noteq> TASK_RUNNABLE \<Longrightarrow> p < 64 \<Longrightarrow> t \<notin> set (Q p)"
  using ready_okD(4) [OF kernel_coreD(3)] by blast

lemma core_notin_msg:
  "kernel_core s Q M C \<Longrightarrow> t_state s t \<noteq> TASK_RECEIVE_BLOCKED \<Longrightarrow> r < 64 \<Longrightarrow> t \<notin> set (M r)"
  using msg_okD(2) [OF kernel_coreD(4)] by blast

lemma events_ok_mono: "events_ok s C \<Longrightarrow> C \<subseteq> C' \<Longrightarrow> events_ok s C'"
  unfolding events_ok_def by blast

lemma core_take:
  assumes "kernel_core s Q M C" "t < 64" "t_state s t \<noteq> TASK_RUNNABLE"
  shows "kernel_core s Q M (insert t C)"
proof -
  note R = ready_okD [OF kernel_coreD(3) [OF assms(1)]]
  have "ready_ok s Q (insert t C)"
    by (rule ready_okI) (use R assms(2,3) in blast)+
  moreover have "msg_ok s M (insert t C)"
    by (rule msg_okI) (use msg_okD [OF kernel_coreD(4) [OF assms(1)]] in blast)+
  ultimately show ?thesis
    using kernel_coreD [OF assms(1)] assms(2) events_ok_mono [of s C "insert t C"]
    by (auto simp: kernel_core_def)
qed

lemma events_ok_drop:
  "events_ok s C \<Longrightarrow> t_state s t = TASK_EVENT_BLOCKED \<longrightarrow> (\<exists>tf. t_tf s t = Some tf \<and> tf_r0 tf = 0xBADDA7A) \<Longrightarrow>
   events_ok s (C - {t})"
  unfolding events_ok_def by blast

lemma core_drop:
  assumes core: "kernel_core s Q M C"
    and st: "t_state s t \<in> {TASK_SEND_BLOCKED, TASK_REPLY_BLOCKED, TASK_ZOMBIE} \<or>
      t_state s t = TASK_RECEIVE_BLOCKED \<and> (\<exists>r < 64. t \<in> set (M r)) \<or>
      t_state s t = TASK_EVENT_BLOCKED \<and> (\<exists>tf. t_tf s t = Some tf \<and> tf_r0 tf = 0xBADDA7A)"
  shows "kernel_core s Q M (C - {t})"
proof -
  note R = ready_okD [OF kernel_coreD(3) [OF core]]
  have ns: "t_state s t \<noteq> TASK_RUNNABLE" "t_state s t \<noteq> TASK_ACTIVE" using st by auto
  have "ready_ok s Q (C - {t})"
    by (rule ready_okI) (use R ns in blast)+
  moreover have "msg_ok s M (C - {t})"
  proof (rule msg_okI)
    note m = msg_okD [OF kernel_coreD(4) [OF core]]
    show "tq.bank (t_msg s) {..<64} (send_queues s) M" by (rule m(1))
    show "\<And>r t. r < 64 \<Longrightarrow> t \<in> set (M r) \<Longrightarrow> t < 64 \<and> t_state s t = TASK_RECEIVE_BLOCKED"
      by (rule m(2))
    show "\<exists>r<64. u \<in> set (M r)"
      if "u < 64" "u \<notin> C - {t}" "t_state s u = TASK_RECEIVE_BLOCKED" for u
      using m(3) [of u] that st by (cases "u = t") auto
  qed
  moreover have "events_ok s (C - {t})"
    using kernel_coreD(5) [OF core] st by (intro events_ok_drop) auto
  ultimately show ?thesis using kernel_coreD [OF core] by (auto simp: kernel_core_def)
qed

lemma core_set_state:
  assumes core: "kernel_core s Q M C" and t: "t \<in> C" "\<And>r. r < 64 \<Longrightarrow> t \<notin> set (M r)"
    and old: "t_state s t \<noteq> TASK_EVENT_BLOCKED" "t_state s t \<noteq> TASK_ZOMBIE"
    and st: "st \<noteq> TASK_EVENT_BLOCKED" "st \<noteq> TASK_ZOMBIE"
  shows "task_set_state s t st = Some (s\<lparr>t_state := (t_state s)(t := st)\<rparr>)"
    and "kernel_core (s\<lparr>t_state := (t_state s)(t := st)\<rparr>) Q M C"
proof -
  let ?s = "s\<lparr>t_state := (t_state s)(t := st)\<rparr>"
  let ?E = "{u. u < 64 \<and> t_state s u = TASK_EVENT_BLOCKED}"
  have E: "{u. u < 64 \<and> t_state ?s u = TASK_EVENT_BLOCKED} = ?E" using old st by auto
  have "card ?E \<le> card {..<64::nat}" by (rule card_mono) auto
  then have "0 \<le> tasks_event_blocked s \<and> tasks_event_blocked s \<le> int MAX_TASKS"
    using core by (simp add: kernel_core_def events_ok_def MAX_TASKS_def)
  then show "task_set_state s t st = Some ?s"
    using old st by (simp add: task_set_state_def)
  have "t < 64" using core t(1) by (auto simp: kernel_core_def)
  moreover have "t \<noteq> 0" using old(2) kernel_coreD(2) [OF core]
    by (cases "t = 0") (auto simp: tids_inv_def)
  ultimately have "tids_inv ?s"
    using old st kernel_coreD(2) [OF core] by (auto simp: tids_inv_def tid_free_def)
  moreover have "ready_ok ?s Q C"
    using core t old by (auto simp: kernel_core_def ready_ok_def)
  moreover have "msg_ok ?s M C"
    using core t by (auto simp: kernel_core_def msg_ok_def)
  moreover have "events_ok ?s C"
    using core old st unfolding events_ok_def E
    by (auto simp: kernel_core_def events_ok_def split: option.splits)
  moreover have "stacks_ok ?s"
    using kernel_coreD(6) [OF core] old by (auto simp: stacks_ok_def)
  ultimately show "kernel_core ?s Q M C" using core by (simp add: kernel_core_def)
qed

lemma core_registered:
  assumes core: "kernel_core s Q M C" and t: "t \<in> C" "t_state s t = TASK_RUNNABLE"
    and p: "p = nat (s_prio s t)" and same: "same_sched s s'" and inv: "sched_inv s' (Q(p := Q p @ [t]))"
  shows "kernel_core s' (Q(p := Q p @ [t])) M (C - {t})"
proof -
  have t64: "t < 64" using core t(1) by (auto simp: kernel_core_def)
  note R = ready_okD [OF kernel_coreD(3) [OF core]]
  have "ready_ok s' (Q(p := Q p @ [t])) (C - {t})"
  proof (rule ready_okI)
    fix r u assume "r < 64" "u \<in> set ((Q(p := Q p @ [t])) r)"
    then have "u = t \<or> u \<in> set (Q r)" by (auto split: if_splits)
    then show "u < 64 \<and> u \<notin> C - {t} \<and> t_state s' u = TASK_RUNNABLE"
      using R(4) [OF \<open>r < 64\<close>] t t64 by (auto simp: same_sched_tasks [OF same])
  next
    fix u assume u: "u < 64" "u \<notin> C - {t}" "t_state s' u = TASK_RUNNABLE"
    show "u \<in> set ((Q(p := Q p @ [t])) (nat (s_prio s' u)))"
    proof (cases "u = t")
      case False
      then have "u \<in> set (Q (nat (s_prio s u)))"
        using R(6) [of u] u by (simp add: same_sched_tasks [OF same])
      then show ?thesis by (auto simp: same_sched_tasks [OF same])
    qed (simp add: same_sched_tasks [OF same] p)
  qed (use inv R(2,5,7) t in \<open>auto simp: same_sched_tasks [OF same]\<close>)
  moreover have "events_ok s (C - {t})"
    using kernel_coreD(5) [OF core] t by (intro events_ok_drop) auto
  moreover have "msg_ok s M (C - {t})"
    by (rule msg_okI) (use msg_okD [OF kernel_coreD(4) [OF core]] t in \<open>auto\<close>)
  ultimately show ?thesis using core same by (auto simp: kernel_core_def)
qed

lemma core_prio:
  assumes core: "kernel_core s Q M C" and t: "t < 64" "t_state s t \<noteq> TASK_ZOMBIE"
  shows "s_prio s t = int (nat (s_prio s t))" "nat (s_prio s t) < 64"
    "nat (s_prio s t) \<le> top_priority s"
  using ready_okD(3,7) [OF kernel_coreD(3) [OF core]] t by fastforce+

lemma core_register:
  assumes core: "kernel_core s Q M C" and t: "t \<in> C" "t_state s t = TASK_RUNNABLE"
  shows "\<exists>s'. register_task s t = Some (s', 0) \<and> same_sched s s' \<and>
    kernel_core s' (Q(nat (s_prio s t) := Q (nat (s_prio s t)) @ [t])) M (C - {t})"
proof -
  define p where "p = nat (s_prio s t)"
  have t64: "t < 64" using core t(1) by (auto simp: kernel_core_def)
  have pr: "s_prio s t = int p" "p < 64" "p \<le> top_priority s"
    using core_prio [OF core t64] t(2) by (simp_all add: p_def)
  note R = ready_okD [OF kernel_coreD(3) [OF core]]
  obtain s' where s': "scheduler_register s t = Some (s', 0)" "same_sched s s'"
    "sched_inv s' (Q(p := Q p @ [t]))"
    using scheduler_register_ok [OF R(1) pr(1,3)] R(3) core_notin_ready [OF core, of t] t(1) by auto
  show ?thesis
    using s' t core_registered [OF core t p_def s'(2,3)] by (simp add: register_task_def flip: p_def)
qed

lemma core_update_mem [simp]: "kernel_core (s\<lparr>k_mem := m\<rparr>) Q M C = kernel_core s Q M C"
  by (simp add: kernel_core_def tids_inv_def tid_free_def ready_ok_def sched_inv_def ready_bit_def
      top_priority_def msg_ok_def events_ok_def stacks_ok_def cong: option.case_cong)

lemma core_upd_tf:
  assumes core: "kernel_core s Q M C" and tf: "t_tf s t = Some tf" "tf_sp tf' = tf_sp tf"
    and t: "t \<in> C \<or> t_state s t \<noteq> TASK_EVENT_BLOCKED"
  shows "kernel_core (s\<lparr>t_tf := (t_tf s)(t := Some tf')\<rparr>) Q M C"
proof -
  let ?s = "s\<lparr>t_tf := (t_tf s)(t := Some tf')\<rparr>"
  note c = kernel_coreD [OF core]
  have "tids_inv ?s" using c(2) using tf by (simp add: tids_inv_def tid_free_def)
  moreover have "ready_ok ?s Q C" using c(3) by (simp add: ready_ok_def)
  moreover have "msg_ok ?s M C" using c(4) by (simp add: msg_ok_def)
  moreover have "events_ok ?s C"
    using c(5) t unfolding events_ok_def by (auto cong: option.case_cong)
  moreover have "stacks_ok ?s" using c(6) tf by (simp add: stacks_ok_def)
  ultimately show ?thesis using c(1) by (simp add: kernel_core_def)
qed

lemma core_tf: "kernel_core s Q M C \<Longrightarrow> t < 64 \<Longrightarrow> t_state s t \<noteq> TASK_ZOMBIE \<Longrightarrow> \<exists>tf. t_tf s t = Some tf"
  using tids_inv_live(3) [OF kernel_coreD(2)] by blast

lemma core_msg_update:
  assumes core: "kernel_core s Q M C" and m: "msg_ok (s\<lparr>t_msg := L, send_queues := sq\<rparr>) M' C'"
    and C: "C \<subseteq> C'" "C' \<subseteq> {..<64}" and R: "ready_ok s Q C'"
  shows "kernel_core (s\<lparr>t_msg := L, send_queues := sq\<rparr>) Q M' C'"
proof -
  let ?s = "s\<lparr>t_msg := L, send_queues := sq\<rparr>"
  note c = kernel_coreD [OF core]
  have "tids_inv ?s" using c(2) by (simp add: tids_inv_def tid_free_def)
  moreover have "ready_ok ?s Q C'" using R by (simp add: ready_ok_def)
  moreover have "events_ok ?s C'"
    using events_ok_mono [OF c(5) C(1)] by (simp add: events_ok_def cong: option.case_cong)
  moreover have "stacks_ok ?s" using c(6) by (simp add: stacks_ok_def)
  ultimately show ?thesis using m C by (simp add: kernel_core_def)
qed

lemma core_send_enqueue:
  assumes core: "kernel_core s Q M C" and c: "c \<in> C" "t_state s c = TASK_RECEIVE_BLOCKED"
    and new: "\<And>r. r < 64 \<Longrightarrow> c \<notin> set (M r)" and r: "r < 64" "t_send_queue s r = r"
  shows "\<exists>L sq. send_queue_enqueue s r c = Some (s\<lparr>t_msg := L, send_queues := sq\<rparr>) \<and>
    kernel_core (s\<lparr>t_msg := L, send_queues := sq\<rparr>) Q (M(r := M r @ [c])) C"
proof -
  note m = msg_okD [OF kernel_coreD(4) [OF core]]
  have i: "r \<in> {..<64}" and n: "\<And>j. j \<in> {..<64} \<Longrightarrow> c \<notin> set (M j)" using r new by auto
  obtain L q where *: "queue_enqueue (t_msg s) (send_queues s r) c = Some (L, q)"
    "tq.bank L {..<64} ((send_queues s)(r := q)) (M(r := M r @ [c]))"
    using tq.bank_enq [OF m(1) i n] by blast
  have c64: "c < 64" using kernel_coreD(1) [OF core] c(1) by auto
  have "msg_ok (s\<lparr>t_msg := L, send_queues := (send_queues s)(r := q)\<rparr>) (M(r := M r @ [c])) C"
  proof (rule msg_okI)
    fix j u assume "j < 64" "u \<in> set ((M(r := M r @ [c])) j)"
    then have "u = c \<or> u \<in> set (M j)" by (auto split: if_splits)
    then show "u < 64 \<and> t_state (s\<lparr>t_msg := L, send_queues := (send_queues s)(r := q)\<rparr>) u = TASK_RECEIVE_BLOCKED"
      using m(2) [OF \<open>j < 64\<close>] c c64 by auto
  next
    fix u assume "u < 64" "u \<notin> C"
      "t_state (s\<lparr>t_msg := L, send_queues := (send_queues s)(r := q)\<rparr>) u = TASK_RECEIVE_BLOCKED"
    then obtain j where "j < 64" "u \<in> set (M j)" using m(3) by auto
    then show "\<exists>j<64. u \<in> set ((M(r := M r @ [c])) j)"
      by (intro exI [of _ j]) auto
  qed (use * in simp)
  with core_msg_update [OF core this _ kernel_coreD(1,3) [OF core]] show ?thesis
    using * r(2) by (auto simp: send_queue_enqueue_def)
qed

lemma core_send_dequeue:
  assumes core: "kernel_core s Q M C" and r: "r < 64" "t_send_queue s r = r" and M: "M r = x # xs"
  shows "\<exists>L sq. send_queue_dequeue s r = Some (s\<lparr>t_msg := L, send_queues := sq\<rparr>, Some x) \<and>
      kernel_core (s\<lparr>t_msg := L, send_queues := sq\<rparr>) Q (M(r := xs)) (insert x C)"
    and "x < 64" "t_state s x = TASK_RECEIVE_BLOCKED" "\<And>j. j < 64 \<Longrightarrow> x \<notin> set ((M(r := xs)) j)"
proof -
  note m = msg_okD [OF kernel_coreD(4) [OF core]]
  have i: "r \<in> {..<64}" using r by simp
  show x: "x < 64" "t_state s x = TASK_RECEIVE_BLOCKED" using m(2) [OF r(1), of x] M by auto
  have "distinct (M r)" using tq.rep_distinct [OF tq.bank_mem [OF m(1) i]] .
  then show n: "x \<notin> set ((M(r := xs)) j)" if "j < 64" for j
    using tq.bank_disjoint [OF m(1) i, of j x] that M by auto
  obtain L q where *: "queue_dequeue (t_msg s) (send_queues s r) = Some (L, q, Some x)"
    "tq.bank L {..<64} ((send_queues s)(r := q)) (M(r := xs))"
    using tq.bank_deq [OF m(1) i M] by blast
  let ?s = "s\<lparr>t_msg := L, send_queues := (send_queues s)(r := q)\<rparr>"
  have "msg_ok ?s (M(r := xs)) (insert x C)"
  proof (rule msg_okI)
    fix j u assume "j < 64" "u \<in> set ((M(r := xs)) j)"
    then have "u \<in> set (M j)" using M by (auto split: if_splits)
    then show "u < 64 \<and> t_state ?s u = TASK_RECEIVE_BLOCKED"
      using m(2) [OF \<open>j < 64\<close>] by auto
  next
    fix u assume u: "u < 64" "u \<notin> insert x C" "t_state ?s u = TASK_RECEIVE_BLOCKED"
    then obtain j where "j < 64" "u \<in> set (M j)" using m(3) by auto
    then show "\<exists>j<64. u \<in> set ((M(r := xs)) j)"
      using u M by (intro exI [of _ j]) auto
  qed (use * in simp)
  moreover have "ready_ok s Q (insert x C)"
    using core_take [OF core x(1)] x(2) by (simp add: kernel_core_def)
  ultimately have "kernel_core ?s Q (M(r := xs)) (insert x C)"
    using kernel_coreD(1) [OF core] x(1) by (intro core_msg_update [OF core]) auto
  then show "\<exists>L sq. send_queue_dequeue s r = Some (s\<lparr>t_msg := L, send_queues := sq\<rparr>, Some x) \<and>
      kernel_core (s\<lparr>t_msg := L, send_queues := sq\<rparr>) Q (M(r := xs)) (insert x C)"
    using * r(2) by (auto simp: send_queue_dequeue_def)
qed

text \<open>What no system call but the accounting touches.\<close>

definition kframe :: "'a kernel_scheme \<Rightarrow> 'a kernel_scheme \<Rightarrow> bool" where
  "kframe s s' \<longleftrightarrow> k_current s' = k_current s \<and> k_started s' = k_started s \<and>
     k_last_interval_start s' = k_last_interval_start s \<and> k_clock s' = k_clock s"

lemma kframe_trans: "kframe s s1 \<Longrightarrow> kframe s1 s2 \<Longrightarrow> kframe s s2"
  by (simp add: kframe_def)

lemma kframe_same_sched: "same_sched s s' \<Longrightarrow> kframe s s'"
  by (simp add: kframe_def same_sched_kernel)

lemma kframe_updates [simp]:
  "kframe s s"
  "kframe s (s'\<lparr>t_state := a\<rparr>) = kframe s s'"
  "kframe s (s'\<lparr>tasks_event_blocked := b\<rparr>) = kframe s s'"
  "kframe s (s'\<lparr>t_tf := c\<rparr>) = kframe s s'"
  "kframe s (s'\<lparr>t_msg := d\<rparr>) = kframe s s'"
  "kframe s (s'\<lparr>send_queues := e\<rparr>) = kframe s s'"
  "kframe s (s'\<lparr>k_mem := f\<rparr>) = kframe s s'"
  "kframe s (s'\<lparr>t_blocked_on := g\<rparr>) = kframe s s'"
  "kframe s (s'\<lparr>k_registered := h\<rparr>) = kframe s s'"
  "kframe s (s'\<lparr>k_has_event_been_registered := i\<rparr>) = kframe s s'"
  "kframe s (s'\<lparr>k_uart_ctlr := j\<rparr>) = kframe s s'"
  "kframe (s\<lparr>t_msg := k\<rparr>) s' = kframe s s'"
  "kframe (s\<lparr>send_queues := l\<rparr>) s' = kframe s s'"
  by (simp_all add: kframe_def)

lemma core_set_r0:
  assumes core: "kernel_core s Q M C" and t: "t < 64" "t_state s t \<noteq> TASK_ZOMBIE"
    "t \<in> C \<or> t_state s t \<noteq> TASK_EVENT_BLOCKED"
  shows "\<exists>tfs. set_r0 t v s = Some (s\<lparr>t_tf := tfs\<rparr>) \<and> kernel_core (s\<lparr>t_tf := tfs\<rparr>) Q M C"
proof -
  obtain tf where tf: "t_tf s t = Some tf" using core_tf [OF core t(1,2)] by blast
  then show ?thesis
    using core_upd_tf [OF core tf _ t(3), of "tf\<lparr>tf_r0 := v\<rparr>"] by (auto simp: upd_tf_def)
qed

text \<open>
  What a transmission from a task with frame \<open>stf\<close> to one with frame \<open>dtf\<close> copies and returns: the
  receiver's buffer bounds the copy, and its result is the length sent or -1.
\<close>

definition sent_length :: "trapframe \<Rightarrow> trapframe \<Rightarrow> u32" where
  "sent_length stf dtf = (if sint (tf_r3 stf) > sint (tf_r3 dtf) then tf_r3 dtf else tf_r3 stf)"

definition receive_result :: "trapframe \<Rightarrow> trapframe \<Rightarrow> u32" where
  "receive_result stf dtf = (if sint (tf_r3 stf) > sint (tf_r3 dtf) then -1 else tf_r3 stf)"

definition transmitted :: "'a kernel_scheme \<Rightarrow> tptr \<Rightarrow> tptr \<Rightarrow> 'a kernel_scheme \<Rightarrow> bool" where
  "transmitted s src dst s' \<longleftrightarrow> (\<exists>stf dtf. t_tf s src = Some stf \<and> t_tf s dst = Some dtf \<and>
     t_tf s' = (t_tf s)(dst := Some (dtf\<lparr>tf_r0 := receive_result stf dtf\<rparr>)) \<and>
     k_mem s' = store32 (tmemcpy (k_mem s) (tf_r2 dtf) (tf_r2 stf) (sent_length stf dtf))
       (tf_r1 dtf) (of_int (task_get_userland_tid s src)))"

lemma core_transmit:
  assumes core: "kernel_core s Q M C" and sd: "src \<in> C" "dst \<in> C" "src \<noteq> dst"
    and st: "t_state s src \<notin> {TASK_EVENT_BLOCKED, TASK_ZOMBIE}"
      "t_state s dst \<notin> {TASK_EVENT_BLOCKED, TASK_ZOMBIE}"
    and new: "\<And>r. r < 64 \<Longrightarrow> src \<notin> set (M r) \<and> dst \<notin> set (M r)"
  shows "\<exists>s'. transmit_message s src dst = Some s' \<and> kernel_core s' Q M C \<and> kframe s s' \<and>
    t_state s' = (t_state s)(src := TASK_REPLY_BLOCKED, dst := TASK_RUNNABLE) \<and>
    s_prio s' = s_prio s \<and> t_send_queue s' = t_send_queue s \<and> transmitted s src dst s'"
proof -
  have 64: "src < 64" "dst < 64" using kernel_coreD(1) [OF core] sd by auto
  obtain stf dtf where tf: "t_tf s src = Some stf" "t_tf s dst = Some dtf"
    using core_tf [OF core] 64 st by fastforce
  define big where "big \<longleftrightarrow> sint (tf_r3 stf) > sint (tf_r3 dtf)"
  obtain tfs where 1: "set_r0 dst (if big then -1 else tf_r3 stf) s = Some (s\<lparr>t_tf := tfs\<rparr>)"
    "kernel_core (s\<lparr>t_tf := tfs\<rparr>) Q M C"
    using core_set_r0 [OF core 64(2)] st sd by auto
  have tfs: "tfs = (t_tf s)(dst := Some (dtf\<lparr>tf_r0 := if big then -1 else tf_r3 stf\<rparr>))"
    using arg_cong [OF 1(1), of "\<lambda>x. t_tf (the x)"] tf(2) by (simp add: upd_tf_def)
  define s2 where "s2 = (s\<lparr>t_tf := tfs\<rparr>)\<lparr>k_mem := tmemcpy (k_mem s) (tf_r2 dtf) (tf_r2 stf)
     (if big then tf_r3 dtf else tf_r3 stf)\<rparr>"
  have 2: "kernel_core s2 Q M C" using 1 by (simp only: s2_def core_update_mem)
  define s3 where "s3 = s2\<lparr>t_state := (t_state s2)(src := TASK_REPLY_BLOCKED)\<rparr>"
  have 3: "task_set_state s2 src TASK_REPLY_BLOCKED = Some s3" "kernel_core s3 Q M C"
    using core_set_state [OF 2 sd(1), of TASK_REPLY_BLOCKED] new st by (auto simp: s3_def s2_def)
  define s4 where "s4 = s3\<lparr>t_state := (t_state s3)(dst := TASK_RUNNABLE)\<rparr>"
  have 4: "task_set_state s3 dst TASK_RUNNABLE = Some s4" "kernel_core s4 Q M C"
    using core_set_state [OF 3(2) sd(2), of TASK_RUNNABLE] new st sd(3)
    by (auto simp: s4_def s3_def s2_def)
  define s5 where "s5 =
    s4\<lparr>k_mem := store32 (k_mem s4) (tf_r1 dtf) (of_int (task_get_userland_tid s4 src))\<rparr>"
  have "kernel_core s5 Q M C" using 4(2) by (simp only: s5_def core_update_mem)
  moreover have "transmit_message s src dst = Some s5"
    using 1(1) 3(1) 4(1) by (simp add: transmit_message_def tf Let_def s2_def s5_def flip: big_def)
  moreover have "kframe s s5"
    "t_state s5 = (t_state s)(src := TASK_REPLY_BLOCKED, dst := TASK_RUNNABLE)"
    "s_prio s5 = s_prio s" "t_send_queue s5 = t_send_queue s"
    by (simp_all add: s5_def s4_def s3_def s2_def)
  moreover have "transmitted s src dst s5"
    unfolding transmitted_def
    by (intro exI [of _ stf] exI [of _ dtf])
       (simp add: tf s5_def s4_def s3_def s2_def tfs receive_result_def sent_length_def
         task_get_userland_tid_def flip: big_def)
  ultimately show ?thesis by blast
qed

text \<open>
  The outcome of a system call of the running task \<open>c\<close>: either \<open>c\<close> is to be put back on its
  ready queue, or it already is where its state says.
\<close>

definition call_outcome ::
  "'a kernel_scheme \<Rightarrow> tptr \<Rightarrow> 'a kernel_scheme \<Rightarrow> bool" where
  "call_outcome s c s' \<longleftrightarrow> kframe s s' \<and>
     (\<exists>Q M. zombies_quiet s' M \<and> kernel_core s' Q M {c} \<and>
        (t_state s' c \<in> {TASK_ACTIVE, TASK_RUNNABLE} \<or>
         t_state s' c \<notin> {TASK_ACTIVE, TASK_RUNNABLE} \<and> kernel_core s' Q M {}))"

lemma call_outcome_running:
  "kframe s s' \<Longrightarrow> zombies_quiet s' M \<Longrightarrow> kernel_core s' Q M {c} \<Longrightarrow>
   t_state s' c \<in> {TASK_ACTIVE, TASK_RUNNABLE} \<Longrightarrow> call_outcome s c s'"
  unfolding call_outcome_def by blast

lemma call_outcome_settled:
  assumes "kframe s s'" "zombies_quiet s' M" "kernel_core s' Q M {c}"
    and "t_state s' c \<in> {TASK_SEND_BLOCKED, TASK_REPLY_BLOCKED, TASK_ZOMBIE} \<or>
      t_state s' c = TASK_RECEIVE_BLOCKED \<and> (\<exists>r < 64. c \<in> set (M r)) \<or>
      t_state s' c = TASK_EVENT_BLOCKED \<and> (\<exists>tf. t_tf s' c = Some tf \<and> tf_r0 tf = 0xBADDA7A)"
  shows "call_outcome s c s'"
  using assms core_drop [OF assms(3,4)] unfolding call_outcome_def
  by (intro conjI exI [of _ Q] exI [of _ M]) auto

lemma zombies_quiet_mono:
  "zombies_quiet s M \<Longrightarrow> (\<And>t. t < 64 \<Longrightarrow> t_state s' t = TASK_ZOMBIE \<Longrightarrow> t_state s t = TASK_ZOMBIE) \<Longrightarrow>
   (\<And>t. t < 64 \<Longrightarrow> t_state s' t = TASK_ZOMBIE \<Longrightarrow> M t = [] \<Longrightarrow> M' t = []) \<Longrightarrow> zombies_quiet s' M'"
  unfolding zombies_quiet_def by blast

text \<open>The state in which the handler of a trap finds the running task.\<close>

definition running :: "'a kernel_scheme \<Rightarrow> (nat \<Rightarrow> tptr list) \<Rightarrow> (nat \<Rightarrow> tptr list) \<Rightarrow> tptr \<Rightarrow> bool" where
  "running s Q M c \<longleftrightarrow> kernel_core s Q M {c} \<and> zombies_quiet s M \<and> k_current s = Some c \<and>
     t_state s c = TASK_ACTIVE"

lemma runningD:
  assumes "running s Q M c"
  shows "kernel_core s Q M {c}" "zombies_quiet s M" "k_current s = Some c"
    "t_state s c = TASK_ACTIVE" "c < 64" "\<And>r. r < 64 \<Longrightarrow> c \<notin> set (M r)"
  using assms core_notin_msg [of s Q M "{c}" c] kernel_coreD(1) [of s Q M "{c}"]
  by (auto simp: running_def)

lemma running_set_r0:
  assumes run: "running s Q M c"
  shows "\<exists>s'. set_r0 c v s = Some s' \<and> call_outcome s c s'"
proof -
  note r = runningD [OF run]
  obtain tfs where t: "set_r0 c v s = Some (s\<lparr>t_tf := tfs\<rparr>)" "kernel_core (s\<lparr>t_tf := tfs\<rparr>) Q M {c}"
    using core_set_r0 [OF r(1,5), of v] r(4) by auto
  have "zombies_quiet (s\<lparr>t_tf := tfs\<rparr>) M" using r(2) by (simp add: zombies_quiet_def)
  with t r(4) call_outcome_running [of s "s\<lparr>t_tf := tfs\<rparr>" M Q c] show ?thesis by simp
qed

text \<open>Sending to a task that waits in \<open>Receive\<close>: delivered at once, and the receiver is ready again.\<close>

lemma running_send_waiting:
  assumes run: "running s Q M c" and r: "r < 64" "t_state s r = TASK_SEND_BLOCKED"
  shows "\<exists>s'. send s c r = Some s' \<and> transmitted s c r s' \<and> kframe s s' \<and> zombies_quiet s' M \<and>
    t_state s' = (t_state s)(c := TASK_REPLY_BLOCKED, r := TASK_RUNNABLE) \<and>
    kernel_core s' (Q(nat (s_prio s r) := Q (nat (s_prio s r)) @ [r])) M {c}"
proof -
  note rn = runningD [OF run]
  have "r \<noteq> c" using rn(4) r by auto
  have core: "kernel_core s Q M {r, c}" using core_take [OF rn(1) r(1)] r(2) by simp
  have m: "\<And>j. j < 64 \<Longrightarrow> c \<notin> set (M j) \<and> r \<notin> set (M j)"
    using rn(6) core_notin_msg [OF rn(1), of r] r by auto
  obtain s1 where s1: "transmit_message s c r = Some s1" "kernel_core s1 Q M {r, c}" "kframe s s1"
    "t_state s1 = (t_state s)(c := TASK_REPLY_BLOCKED, r := TASK_RUNNABLE)"
    "s_prio s1 = s_prio s" "transmitted s c r s1"
    using core_transmit [OF core, of c r] \<open>r \<noteq> c\<close> r rn(4) m by auto
  obtain s2 where s2: "register_task s1 r = Some (s2, 0)" "same_sched s1 s2"
    "kernel_core s2 (Q(nat (s_prio s r) := Q (nat (s_prio s r)) @ [r])) M ({r, c} - {r})"
    using core_register [OF s1(2), of r] s1(4,5) by auto
  have "zombies_quiet s2 M"
    using rn(2) by (rule zombies_quiet_mono) (auto simp: same_sched_tasks [OF s2(2)] s1(4) split: if_splits)
  moreover have "kframe s s2" using kframe_trans s1(3) kframe_same_sched [OF s2(2)] by blast
  moreover have "transmitted s c r s2"
    using s1(6) by (simp add: transmitted_def same_sched_tasks [OF s2(2)] same_sched_kernel [OF s2(2)])
  ultimately show ?thesis
    using s2(1,3) s1(1,4) r \<open>r \<noteq> c\<close>
    by (auto simp: send_def same_sched_tasks [OF s2(2)] insert_Diff_if)
qed

text \<open>Sending to any other live task: the sender is appended to its send queue.\<close>

lemma running_send_busy:
  assumes run: "running s Q M c" and r: "r < 64" "t_state s r \<noteq> TASK_ZOMBIE" "t_state s r \<noteq> TASK_SEND_BLOCKED"
  shows "\<exists>s'. send s c r = Some s' \<and> k_mem s' = k_mem s \<and> t_tf s' = t_tf s \<and> kframe s s' \<and>
    zombies_quiet s' (M(r := M r @ [c])) \<and> t_state s' = (t_state s)(c := TASK_RECEIVE_BLOCKED) \<and>
    kernel_core s' Q (M(r := M r @ [c])) {c}"
proof -
  note rn = runningD [OF run]
  have sq: "t_send_queue s r = r" using tids_inv_live [OF kernel_coreD(2) [OF rn(1)] r(1,2)] by simp
  define s1 where "s1 = s\<lparr>t_state := (t_state s)(c := TASK_RECEIVE_BLOCKED)\<rparr>"
  have s1: "task_set_state s c TASK_RECEIVE_BLOCKED = Some s1" "kernel_core s1 Q M {c}"
    using core_set_state [OF rn(1), of c TASK_RECEIVE_BLOCKED] rn(4,6) by (auto simp: s1_def)
  obtain L sqs where s2: "send_queue_enqueue s1 r c = Some (s1\<lparr>t_msg := L, send_queues := sqs\<rparr>)"
    "kernel_core (s1\<lparr>t_msg := L, send_queues := sqs\<rparr>) Q (M(r := M r @ [c])) {c}"
    using core_send_enqueue [OF s1(2), of c r] rn(6) r sq by (auto simp: s1_def)
  have "zombies_quiet (s1\<lparr>t_msg := L, send_queues := sqs\<rparr>) (M(r := M r @ [c]))"
    using rn(2) by (rule zombies_quiet_mono) (use r in \<open>auto simp: s1_def split: if_splits\<close>)
  moreover have "send s c r = Option.bind (task_set_state s c TASK_RECEIVE_BLOCKED)
      (\<lambda>s1. send_queue_enqueue s1 r c)"
    using r by (simp add: send_def split: task_state.split)
  ultimately show ?thesis
    using s1(1) s2 by (intro exI [of _ "s1\<lparr>t_msg := L, send_queues := sqs\<rparr>"]) (simp add: s1_def)
qed

lemma running_send:
  assumes run: "running s Q M c" and r: "r < 64"
  shows "\<exists>s'. send s c r = Some s' \<and> call_outcome s c s'"
proof -
  note rn = runningD [OF run]
  consider "t_state s r = TASK_ZOMBIE" | "t_state s r = TASK_SEND_BLOCKED"
    | "t_state s r \<noteq> TASK_ZOMBIE" "t_state s r \<noteq> TASK_SEND_BLOCKED" by blast
  then show ?thesis
  proof cases
    case 1
    then show ?thesis using running_set_r0 [OF run] by (simp add: send_def)
  next
    case 2
    have "r \<noteq> c" using 2 rn(4) by auto
    obtain s' where s': "send s c r = Some s'" "kframe s s'" "zombies_quiet s' M"
      "t_state s' = (t_state s)(c := TASK_REPLY_BLOCKED, r := TASK_RUNNABLE)"
      "kernel_core s' (Q(nat (s_prio s r) := Q (nat (s_prio s r)) @ [r])) M {c}"
      using running_send_waiting [OF run r 2] by blast
    have "call_outcome s c s'"
      by (rule call_outcome_settled [OF s'(2,3,5)]) (use \<open>r \<noteq> c\<close> in \<open>simp add: s'(4)\<close>)
    then show ?thesis using s'(1) by blast
  next
    case 3
    obtain s' where s': "send s c r = Some s'" "kframe s s'" "zombies_quiet s' (M(r := M r @ [c]))"
      "t_state s' = (t_state s)(c := TASK_RECEIVE_BLOCKED)"
      "kernel_core s' Q (M(r := M r @ [c])) {c}"
      using running_send_busy [OF run r 3] by blast
    have "call_outcome s c s'"
      by (rule call_outcome_settled [OF s'(2,3,5)]) (use r in \<open>auto simp: s'(4)\<close>)
    then show ?thesis using s'(1) by blast
  qed
qed

lemma core_send_queue_empty:
  "kernel_core s Q M C \<Longrightarrow> r < 64 \<Longrightarrow> t_send_queue s r = r \<Longrightarrow> send_queue_is_empty s r \<longleftrightarrow> M r = []"
  using tq.bank_emp [OF msg_okD(1) [OF kernel_coreD(4)]] by (simp add: send_queue_is_empty_def)

text \<open>\<open>Receive\<close> takes the sender that has waited longest, or waits.\<close>

lemma running_receive_first:
  assumes run: "running s Q M c" and M: "M c = x # xs"
  shows "\<exists>s'. receive s c = Some s' \<and> transmitted s x c s' \<and> kframe s s' \<and> zombies_quiet s' (M(c := xs)) \<and>
    t_state s' = (t_state s)(x := TASK_REPLY_BLOCKED, c := TASK_RUNNABLE) \<and>
    kernel_core s' Q (M(c := xs)) {c}"
proof -
  note rn = runningD [OF run]
  have sq: "t_send_queue s c = c" using tids_inv_live [OF kernel_coreD(2) [OF rn(1)] rn(5)] rn(4) by simp
  note em = core_send_queue_empty [OF rn(1,5) sq]
  note dq = core_send_dequeue [OF rn(1,5) sq M]
  obtain L sqs where s1: "send_queue_dequeue s c = Some (s\<lparr>t_msg := L, send_queues := sqs\<rparr>, Some x)"
    "kernel_core (s\<lparr>t_msg := L, send_queues := sqs\<rparr>) Q (M(c := xs)) {x, c}"
    using dq(1) by auto
  have xc: "x \<noteq> c" using dq(3) rn(4) by auto
  have m: "\<And>j. j < 64 \<Longrightarrow> x \<notin> set ((M(c := xs)) j) \<and> c \<notin> set ((M(c := xs)) j)"
    using dq(4) rn(6) M by (metis fun_upd_apply list.set_intros(2))
  obtain s2 where s2: "transmit_message (s\<lparr>t_msg := L, send_queues := sqs\<rparr>) x c = Some s2"
    "kernel_core s2 Q (M(c := xs)) {x, c}" "kframe s s2"
    "t_state s2 = (t_state s)(x := TASK_REPLY_BLOCKED, c := TASK_RUNNABLE)"
    "transmitted (s\<lparr>t_msg := L, send_queues := sqs\<rparr>) x c s2"
    using core_transmit [OF s1(2), of x c] xc dq(3) rn(4) m by auto
  define s3 where "s3 = s2\<lparr>t_state := (t_state s2)(x := TASK_REPLY_BLOCKED)\<rparr>"
  have s3: "task_set_state s2 x TASK_REPLY_BLOCKED = Some s3" "kernel_core s3 Q (M(c := xs)) {x, c}"
    using core_set_state [OF s2(2), of x TASK_REPLY_BLOCKED] m s2(4) xc by (auto simp: s3_def)
  have "kernel_core s3 Q (M(c := xs)) ({x, c} - {x})"
    by (rule core_drop [OF s3(2)]) (simp add: s3_def)
  then have "kernel_core s3 Q (M(c := xs)) {c}" using xc by (simp add: insert_Diff_if)
  moreover have st: "t_state s3 = (t_state s)(x := TASK_REPLY_BLOCKED, c := TASK_RUNNABLE)"
    using xc by (auto simp: s3_def s2(4))
  moreover have "zombies_quiet s3 (M(c := xs))"
    using rn(2) by (rule zombies_quiet_mono) (use xc in \<open>auto simp: st split: if_splits\<close>)
  moreover have "transmitted s x c s3"
    using s2(5) by (simp add: transmitted_def s3_def task_get_userland_tid_def)
  moreover have "receive s c = Some s3" using s1(1) s2(1) s3(1) em M by (simp add: receive_def)
  moreover have "kframe s s3" using s2(3) by (simp add: s3_def)
  ultimately show ?thesis by blast
qed

lemma running_receive_wait:
  assumes run: "running s Q M c" and M: "M c = []"
  shows "\<exists>s'. receive s c = Some s' \<and> k_mem s' = k_mem s \<and> t_tf s' = t_tf s \<and> kframe s s' \<and> zombies_quiet s' M \<and>
    t_state s' = (t_state s)(c := TASK_SEND_BLOCKED) \<and> kernel_core s' Q M {c}"
proof -
  note rn = runningD [OF run]
  have sq: "t_send_queue s c = c" using tids_inv_live [OF kernel_coreD(2) [OF rn(1)] rn(5)] rn(4) by simp
  define s1 where "s1 = s\<lparr>t_state := (t_state s)(c := TASK_SEND_BLOCKED)\<rparr>"
  have s1: "task_set_state s c TASK_SEND_BLOCKED = Some s1" "kernel_core s1 Q M {c}"
    using core_set_state [OF rn(1), of c TASK_SEND_BLOCKED] rn(4,6) by (auto simp: s1_def)
  have "zombies_quiet s1 M"
    using rn(2) by (rule zombies_quiet_mono) (auto simp: s1_def split: if_splits)
  then show ?thesis
    using s1 core_send_queue_empty [OF rn(1,5) sq] M
    by (intro exI [of _ s1]) (simp add: receive_def s1_def)
qed

lemma running_receive:
  assumes run: "running s Q M c"
  shows "\<exists>s'. receive s c = Some s' \<and> call_outcome s c s'"
proof (cases "M c")
  case Nil
  then obtain s' where s': "receive s c = Some s'" "kframe s s'" "zombies_quiet s' M"
    "t_state s' = (t_state s)(c := TASK_SEND_BLOCKED)" "kernel_core s' Q M {c}"
    using running_receive_wait [OF run] by blast
  have "call_outcome s c s'" by (rule call_outcome_settled [OF s'(2,3,5)]) (simp add: s'(4))
  then show ?thesis using s'(1) by blast
next
  case (Cons x xs)
  then obtain s' where s': "receive s c = Some s'" "kframe s s'" "zombies_quiet s' (M(c := xs))"
    "t_state s' = (t_state s)(x := TASK_REPLY_BLOCKED, c := TASK_RUNNABLE)"
    "kernel_core s' Q (M(c := xs)) {c}"
    using running_receive_first [OF run] by blast
  have "call_outcome s c s'" by (rule call_outcome_running [OF s'(2,3,5)]) (simp add: s'(4))
  then show ?thesis using s'(1) by blast
qed

text \<open>\<open>Reply\<close> to a task that waits for one: copied into its reply buffer, and it is ready again.\<close>

definition reply_truncated :: "trapframe \<Rightarrow> trapframe \<Rightarrow> bool" where
  "reply_truncated stf rtf \<longleftrightarrow> sint (tf_r5 stf) < sint (tf_r3 rtf)"

definition replied :: "'a kernel_scheme \<Rightarrow> tptr \<Rightarrow> tptr \<Rightarrow> 'a kernel_scheme \<Rightarrow> bool" where
  "replied s sender c s' \<longleftrightarrow> (\<exists>stf rtf. t_tf s sender = Some stf \<and> t_tf s c = Some rtf \<and>
     t_tf s' = (t_tf s)
       (sender := Some (stf\<lparr>tf_r0 := if reply_truncated stf rtf then -1 else tf_r3 rtf\<rparr>),
        c := Some (rtf\<lparr>tf_r0 := if reply_truncated stf rtf then -1 else 0\<rparr>)) \<and>
     k_mem s' = tmemcpy (k_mem s) (tf_r4 stf) (tf_r2 rtf)
       (if reply_truncated stf rtf then tf_r5 stf else tf_r3 rtf))"

lemma set_r0_tf:
  "set_r0 t v s = Some (s\<lparr>t_tf := tfs\<rparr>) \<Longrightarrow> t_tf s t = Some tf \<Longrightarrow>
   tfs = (t_tf s)(t := Some (tf\<lparr>tf_r0 := v\<rparr>))"
  by (drule arg_cong [of _ _ "\<lambda>x. t_tf (the x)"]) (simp add: upd_tf_def)

lemma running_reply_waiting:
  assumes run: "running s Q M c" and x: "x < 64" "t_state s x = TASK_REPLY_BLOCKED"
  shows "\<exists>s'. reply s x c = Some s' \<and> replied s x c s' \<and> kframe s s' \<and> zombies_quiet s' M \<and>
    t_state s' = (t_state s)(x := TASK_RUNNABLE) \<and>
    kernel_core s' (Q(nat (s_prio s x) := Q (nat (s_prio s x)) @ [x])) M {c}"
proof -
  note rn = runningD [OF run]
  have xc: "x \<noteq> c" using rn(4) x by auto
  obtain stf rtf where tf: "t_tf s x = Some stf" "t_tf s c = Some rtf"
    using core_tf [OF rn(1)] x rn(4,5) by fastforce
  define tr where "tr = reply_truncated stf rtf"
  have core: "kernel_core s Q M {x, c}" using core_take [OF rn(1) x(1)] x(2) by simp
  obtain tfs where s1: "set_r0 x (if tr then -1 else tf_r3 rtf) s = Some (s\<lparr>t_tf := tfs\<rparr>)"
    "kernel_core (s\<lparr>t_tf := tfs\<rparr>) Q M {x, c}"
    using core_set_r0 [OF core x(1)] x(2) by auto
  note t1 = set_r0_tf [OF s1(1) tf(1)]
  obtain tfs' where s2: "set_r0 c (if tr then -1 else 0) (s\<lparr>t_tf := tfs\<rparr>) = Some (s\<lparr>t_tf := tfs'\<rparr>)"
    "kernel_core (s\<lparr>t_tf := tfs'\<rparr>) Q M {x, c}"
    using core_set_r0 [OF s1(2) rn(5)] rn(4) by auto
  have t2: "tfs' = (t_tf s)(x := Some (stf\<lparr>tf_r0 := if tr then -1 else tf_r3 rtf\<rparr>),
      c := Some (rtf\<lparr>tf_r0 := if tr then -1 else 0\<rparr>))"
    using arg_cong [OF s2(1), of "\<lambda>z. t_tf (the z)"] tf(2) xc by (simp add: upd_tf_def t1)
  define s3 where "s3 = (s\<lparr>t_tf := tfs'\<rparr>)\<lparr>k_mem := tmemcpy (k_mem s) (tf_r4 stf) (tf_r2 rtf)
     (if tr then tf_r5 stf else tf_r3 rtf)\<rparr>"
  have c3: "kernel_core s3 Q M {x, c}" using s2(2) by (simp only: s3_def core_update_mem)
  define s4 where "s4 = s3\<lparr>t_state := (t_state s3)(x := TASK_RUNNABLE)\<rparr>"
  have s4: "task_set_state s3 x TASK_RUNNABLE = Some s4" "kernel_core s4 Q M {x, c}"
    using core_set_state [OF c3, of x TASK_RUNNABLE] core_notin_msg [OF rn(1), of x] x(2)
    by (auto simp: s4_def s3_def)
  obtain s5 where s5: "register_task s4 x = Some (s5, 0)" "same_sched s4 s5"
    "kernel_core s5 (Q(nat (s_prio s x) := Q (nat (s_prio s x)) @ [x])) M ({x, c} - {x})"
    using core_register [OF s4(2), of x] by (auto simp: s4_def s3_def)
  have st: "t_state s5 = (t_state s)(x := TASK_RUNNABLE)"
    by (simp add: same_sched_tasks [OF s5(2)] s4_def s3_def)
  have "zombies_quiet s5 M"
    using rn(2) by (rule zombies_quiet_mono) (auto simp: st split: if_splits)
  moreover have "kframe s s5"
    using kframe_trans [OF _ kframe_same_sched [OF s5(2)]] by (simp add: s4_def s3_def)
  moreover have "replied s x c s5"
    unfolding replied_def
    by (intro exI [of _ stf] exI [of _ rtf])
       (simp add: tf same_sched_tasks [OF s5(2)] same_sched_kernel [OF s5(2)] s4_def s3_def t2 tr_def)
  moreover have "reply s x c = Some s5"
    using s1(1) s2(1) s4(1) s5(1) x(2)
    by (simp add: reply_def tf Let_def s3_def tr_def reply_truncated_def)
  ultimately show ?thesis using s5(3) xc st by (auto simp: insert_Diff_if)
qed

lemma running_reply:
  assumes run: "running s Q M c" and x: "x < 64"
  shows "\<exists>s'. reply s x c = Some s' \<and> call_outcome s c s'"
proof (cases "t_state s x = TASK_REPLY_BLOCKED")
  case True
  note rn = runningD [OF run]
  obtain s' where s': "reply s x c = Some s'" "kframe s s'" "zombies_quiet s' M"
    "t_state s' = (t_state s)(x := TASK_RUNNABLE)"
    "kernel_core s' (Q(nat (s_prio s x) := Q (nat (s_prio s x)) @ [x])) M {c}"
    using running_reply_waiting [OF run x True] by blast
  have "call_outcome s c s'" by (rule call_outcome_running [OF s'(2,3,5)]) (use rn(4) in \<open>simp add: s'(4)\<close>)
  then show ?thesis using s'(1) by blast
next
  case False
  then show ?thesis using running_set_r0 [OF run] by (cases "t_state s x = TASK_ZOMBIE") (simp_all add: reply_def)
qed

lemma get_task_valid:
  assumes "is_valid_userland_tid s u"
  obtains t where "get_task_with_userland_tid u = Some t" "t < 64" "\<not> tid_free s t" "int t = u mod 64"
proof -
  have u: "u > 0" using assms by (simp add: is_valid_userland_tid_def Let_def)
  then have "u smod 64 = u mod 64" by (simp add: smod_int_alt_def)
  then show ?thesis
    using assms u that [of "nat (u mod 64)"]
    by (auto simp: get_task_with_userland_tid_def get_task_with_tid_def MAX_TASKS_def
        is_valid_userland_tid_def Let_def AND_MASK_eq_0 tid_free_def nat_less_iff)
qed

lemma running_syscall_send: "running s Q M c \<Longrightarrow> \<exists>s'. syscall_send s = Some s' \<and> call_outcome s c s'"
proof -
  assume run: "running s Q M c"
  note rn = runningD [OF run]
  obtain tf where tf: "t_tf s c = Some tf" using core_tf [OF rn(1,5)] rn(4) by auto
  show ?thesis
  proof (cases "is_valid_userland_tid s (sint (tf_r1 tf))")
    case True
    then obtain r where "get_task_with_userland_tid (sint (tf_r1 tf)) = Some r" "r < 64"
      by (rule get_task_valid)
    then show ?thesis using running_send [OF run] True tf rn(3) by (simp add: syscall_send_def)
  next
    case False
    then show ?thesis using running_set_r0 [OF run] tf rn(3) by (simp add: syscall_send_def)
  qed
qed

lemma running_syscall_receive:
  "running s Q M c \<Longrightarrow> \<exists>s'. syscall_receive s = Some s' \<and> call_outcome s c s'"
  using running_receive [of s Q M c] runningD(3) [of s Q M c] by (simp add: syscall_receive_def)

lemma running_syscall_reply: "running s Q M c \<Longrightarrow> \<exists>s'. syscall_reply s = Some s' \<and> call_outcome s c s'"
proof -
  assume run: "running s Q M c"
  note rn = runningD [OF run]
  obtain tf where tf: "t_tf s c = Some tf" using core_tf [OF rn(1,5)] rn(4) by auto
  show ?thesis
  proof (cases "is_valid_userland_tid s (sint (tf_r1 tf))")
    case True
    then obtain r where "get_task_with_userland_tid (sint (tf_r1 tf)) = Some r" "r < 64"
      by (rule get_task_valid)
    then show ?thesis using running_reply [OF run] True tf rn(3) by (simp add: syscall_reply_def)
  next
    case False
    then show ?thesis using running_set_r0 [OF run] tf rn(3) by (simp add: syscall_reply_def)
  qed
qed

section \<open>Exit\<close>

lemma core_retire:
  assumes core: "kernel_core s Q M C" and t: "t \<in> C"
    and st: "t_state s t \<in> {TASK_ACTIVE, TASK_RUNNABLE}"
  shows "\<exists>s'. task_retire s t x = Some s' \<and> kernel_core s' Q M C \<and> kframe s s' \<and>
    t_state s' = (t_state s)(t := TASK_ZOMBIE) \<and> t_send_queue s' = t_send_queue s"
proof -
  have t64: "t < 64" using kernel_coreD(1) [OF core] t by auto
  obtain tf where tf: "t_tf s t = Some tf" using core_tf [OF core t64] st by auto
  let ?E = "{u. u < 64 \<and> t_state s u = TASK_EVENT_BLOCKED}"
  have "card ?E \<le> card {..<64::nat}" by (rule card_mono) auto
  then have n: "0 \<le> tasks_event_blocked s \<and> tasks_event_blocked s \<le> int MAX_TASKS"
    using kernel_coreD(5) [OF core] by (simp add: events_ok_def MAX_TASKS_def)
  define s1 where "s1 = s\<lparr>t_state := (t_state s)(t := TASK_ZOMBIE)\<rparr>"
  have s1: "task_set_state s t TASK_ZOMBIE = Some s1"
    using n st by (auto simp: task_set_state_def s1_def)
  have tid: "t_tid s t = t" using tids_inv_live [OF kernel_coreD(2) [OF core] t64] st by auto
  define av where "av = (if the_next_generation s t < 1000
    then available_tids s OR AVAILABLE_TIDS_MASK t else available_tids s)"
  define s' where "s' = s1\<lparr>t_exit_code := (t_exit_code s)(t := x), t_tf := (t_tf s)(t := None),
    available_tids := av\<rparr>"
  have "task_retire s t x = Some s'"
    by (simp add: task_retire_def s1 Let_def s'_def s1_def tf tid av_def)
  moreover have "kernel_core s' Q M C"
  proof -
    note c = kernel_coreD [OF core]
    have fr: "bit av (63 - u) \<longleftrightarrow> tid_free s u \<or> u = t \<and> the_next_generation s t < 1000" if "u < 64" for u
      using that t64 by (simp add: av_def tid_free_def tid_free_give)
    have "t \<noteq> 0" using tids_inv_live(4) [OF c(2) t64] st by auto
    then have "\<not> bit av 63" using fr [of 0] c(2) by (simp add: tids_inv_def)
    then have "tids_inv s'"
      using c(2) by (auto simp: tids_inv_def tid_free_def s'_def s1_def fr [unfolded tid_free_def])
    moreover have "ready_ok s' Q C"
      using ready_okD [OF c(3)] t by (intro ready_okI) (auto simp: s'_def s1_def split: if_splits)
    moreover have "msg_ok s' M C"
      using msg_okD [OF c(4)] st t
      by (intro msg_okI) (auto simp: s'_def s1_def split: if_splits)
    moreover have "{u. u < 64 \<and> t_state s' u = TASK_EVENT_BLOCKED} = ?E"
      using st by (auto simp: s'_def s1_def)
    then have "events_ok s' C"
      using c(5) st t by (auto simp: events_ok_def s'_def s1_def split: option.splits)
    moreover have "stacks_ok s'" using c(6) by (auto simp: stacks_ok_def s'_def s1_def)
    ultimately show ?thesis using c(1) by (simp add: kernel_core_def)
  qed
  moreover have "kframe s s'" by (simp add: kframe_def s'_def s1_def)
  ultimately show ?thesis by (auto simp: s'_def s1_def)
qed

text \<open>\<open>clear_send_queue\<close> ends, wakes every sender with -2 and leaves the queue empty.\<close>

lemma clear_send_queue_ok:
  "kernel_core s Q M {r} \<Longrightarrow> r < 64 \<Longrightarrow> t_send_queue s r = r \<Longrightarrow>
   t_state s r = TASK_ZOMBIE \<Longrightarrow> M r = xs \<Longrightarrow>
   \<exists>s' Q'. clear_send_queue s r = Some s' \<and> kernel_core s' Q' (M(r := [])) {r} \<and> kframe s s' \<and>
     t_state s' = (\<lambda>t. if t \<in> set xs then TASK_RUNNABLE else t_state s t) \<and>
     t_tf s' = (\<lambda>t. if t \<in> set xs then map_option (tf_r0_update (\<lambda>_. -2)) (t_tf s t) else t_tf s t)"
proof (induction xs arbitrary: s Q M)
  case Nil
  then show ?case
    using core_send_queue_empty [OF Nil.prems(1-3)]
    by (subst clear_send_queue.simps) (auto simp: fun_upd_idem)
next
  case (Cons x xs)
  note em = core_send_queue_empty [OF Cons.prems(1-3)]
  note dq = core_send_dequeue [OF Cons.prems(1-3,5)]
  obtain L sqs where d: "send_queue_dequeue s r = Some (s\<lparr>t_msg := L, send_queues := sqs\<rparr>, Some x)"
    "kernel_core (s\<lparr>t_msg := L, send_queues := sqs\<rparr>) Q (M(r := xs)) {x, r}"
    using dq(1) by auto
  let ?s1 = "s\<lparr>t_msg := L, send_queues := sqs\<rparr>"
  have xr: "x \<noteq> r" using dq(3) Cons.prems(4) by auto
  obtain tfs where s2: "set_r0 x (-2) ?s1 = Some (?s1\<lparr>t_tf := tfs\<rparr>)"
    "kernel_core (?s1\<lparr>t_tf := tfs\<rparr>) Q (M(r := xs)) {x, r}"
    using core_set_r0 [OF d(2) dq(2), of "-2"] dq(3) by auto
  have tfs: "tfs = (t_tf s)(x := map_option (tf_r0_update (\<lambda>_. -2)) (t_tf s x))"
    using arg_cong [OF s2(1), of "\<lambda>z. t_tf (the z)"] s2(1)
    by (cases "t_tf s x") (auto simp: upd_tf_def)
  define s3 where "s3 = ?s1\<lparr>t_tf := tfs\<rparr>\<lparr>t_state := (t_state s)(x := TASK_RUNNABLE)\<rparr>"
  have s3: "task_set_state (?s1\<lparr>t_tf := tfs\<rparr>) x TASK_RUNNABLE = Some s3"
    "kernel_core s3 Q (M(r := xs)) {x, r}"
    using core_set_state [OF s2(2), of x TASK_RUNNABLE] dq(3,4) by (auto simp: s3_def)
  obtain s4 Q' where s4: "register_task s3 x = Some (s4, 0)" "same_sched s3 s4"
    "kernel_core s4 Q' (M(r := xs)) ({x, r} - {x})"
    using core_register [OF s3(2), of x] by (auto simp: s3_def)
  have st: "t_state s4 = (t_state s)(x := TASK_RUNNABLE)" "t_send_queue s4 = t_send_queue s"
    "t_tf s4 = tfs"
    by (simp_all add: same_sched_tasks [OF s4(2)] s3_def)
  have c4: "kernel_core s4 Q' (M(r := xs)) {r}" using s4(3) xr by (simp add: insert_Diff_if)
  have k4: "kframe s s4" using kframe_trans [OF _ kframe_same_sched [OF s4(2)]] by (simp add: s3_def)
  obtain s' Q'' where s': "clear_send_queue s4 r = Some s'" "kernel_core s' Q'' (M(r := [])) {r}"
    "kframe s4 s'" "t_state s' = (\<lambda>t. if t \<in> set xs then TASK_RUNNABLE else t_state s4 t)"
    "t_tf s' = (\<lambda>t. if t \<in> set xs then map_option (tf_r0_update (\<lambda>_. -2)) (t_tf s4 t) else t_tf s4 t)"
  proof -
    have "t_send_queue s4 r = r" "t_state s4 r = TASK_ZOMBIE" "(M(r := xs)) r = xs"
      using st Cons.prems(3,4) xr by simp_all
    from Cons.IH [OF c4 Cons.prems(2) this, unfolded fun_upd_upd] that show ?thesis by blast
  qed
  have "clear_send_queue s r = clear_send_queue s4 r"
    using em Cons.prems(5) d(1) dq(3) s2(1) s3(1) s4(1)
    by (subst clear_send_queue.simps) simp
  moreover have "t_state s' = (\<lambda>t. if t \<in> set (x # xs) then TASK_RUNNABLE else t_state s t)"
    by (auto simp: s'(4) st fun_eq_iff)
  moreover have "t_tf s' =
      (\<lambda>t. if t \<in> set (x # xs) then map_option (tf_r0_update (\<lambda>_. -2)) (t_tf s t) else t_tf s t)"
    by (auto simp: s'(5) st tfs fun_eq_iff option.map_comp comp_def)
  ultimately show ?case using s'(1,2) kframe_trans [OF k4 s'(3)] by metis
qed

lemma task_retire_tf: "task_retire s t x = Some s' \<Longrightarrow> t_tf s' = (t_tf s)(t := None)"
  by (auto simp: task_retire_def task_set_state_def Let_def guard_opt_def split: bind_splits if_splits)

lemma running_exit:
  assumes run: "running s Q M c"
  shows "\<exists>s'. syscall_exit s = Some s' \<and> call_outcome s c s' \<and> t_state s' c = TASK_ZOMBIE \<and>
    (\<forall>t. t \<noteq> c \<longrightarrow> t_state s' t = (if t \<in> set (M c) then TASK_RUNNABLE else t_state s t) \<and>
       t_tf s' t = (if t \<in> set (M c) then map_option (tf_r0_update (\<lambda>_. -2)) (t_tf s t) else t_tf s t)) \<and>
    t_tf s' c = None"
proof -
  note rn = runningD [OF run]
  have sq: "t_send_queue s c = c" using tids_inv_live [OF kernel_coreD(2) [OF rn(1)] rn(5)] rn(4) by simp
  obtain s1 where s1: "task_retire s c 0 = Some s1" "kernel_core s1 Q M {c}" "kframe s s1"
    "t_state s1 = (t_state s)(c := TASK_ZOMBIE)" "t_send_queue s1 = t_send_queue s"
    using core_retire [OF rn(1), of c 0] rn(4) by auto
  have tf1: "t_tf s1 = (t_tf s)(c := None)" by (rule task_retire_tf [OF s1(1)])
  obtain s2 Q' where s2: "clear_send_queue s1 c = Some s2" "kernel_core s2 Q' (M(c := [])) {c}"
    "kframe s1 s2" "t_state s2 = (\<lambda>t. if t \<in> set (M c) then TASK_RUNNABLE else t_state s1 t)"
    "t_tf s2 = (\<lambda>t. if t \<in> set (M c) then map_option (tf_r0_update (\<lambda>_. -2)) (t_tf s1 t) else t_tf s1 t)"
    using clear_send_queue_ok [OF s1(2) rn(5)] sq s1(4,5) by auto
  have z: "t_state s2 c = TASK_ZOMBIE" using rn(6) [OF rn(5)] by (simp add: s2(4) s1(4))
  have "zombies_quiet s2 (M(c := []))"
    using rn(2) unfolding zombies_quiet_def by (auto simp: s2(4) s1(4))
  then have "call_outcome s c s2"
    using s2(2) z kframe_trans [OF s1(3) s2(3)] by (intro call_outcome_settled) auto
  moreover have "syscall_exit s = Some s2" using rn(3) s1(1) s2(1) by (simp add: syscall_exit_def)
  ultimately show ?thesis using z s1(4) s2(4,5) tf1 rn(6) [OF rn(5)] by auto
qed

section \<open>Create\<close>

lemma initial_sp_in_stack:
  assumes "t < 64"
  shows "sp_in_stack t (tf_sp (initial_trapframe t a m))"
proof -
  have "sint (of_int (task_stack_top t - 72) :: u32) = task_stack_top t - 72"
    by (rule sint_of_int_small)
       (use assms in \<open>simp_all add: task_stack_top_def STACK_TOP_def BYTES_PER_TASK_def\<close>)
  then show ?thesis
    by (simp add: sp_in_stack_def initial_trapframe_def Let_def)
       (simp add: task_stack_top_def BYTES_PER_TASK_def)
qed

lemma sched_inv_fresh:
  assumes inv: "sched_inv s Q" and t: "\<And>p. p \<le> top_priority s \<Longrightarrow> t \<notin> set (Q p)"
  shows "sched_inv (s\<lparr>s_prio := (s_prio s)(t := pr),
    s_links := set_prev t None (set_next t None (s_links s))\<rparr>) Q" (is "sched_inv ?s Q")
proof -
  have "ready_bit ?s = ready_bit s" "top_priority ?s = top_priority s"
    by (simp_all add: ready_bit_def top_priority_def fun_eq_iff)
  moreover have "tq.bank (set_prev t None (set_next t None (s_links s))) {..top_priority s}
      (\<lambda>p. s_queues s ! p) Q"
    by (rule tq.bank_frame [OF sched_inv_bank [OF inv]]) (use t in \<open>auto simp: same_links_def\<close>)
  moreover have "\<forall>p \<le> top_priority s. \<forall>u \<in> set (Q p). ((s_prio s)(t := pr)) u = int p"
    using t sched_inv_prio [OF inv] by auto
  ultimately show ?thesis using inv by (simp add: sched_inv_def)
qed

lemma core_task_init:
  assumes core: "kernel_core s Q M C" and quiet: "zombies_quiet s M"
    and C: "\<And>u. u \<in> C \<Longrightarrow> t_state s u \<noteq> TASK_ZOMBIE"
    and pr: "0 \<le> pr" "pr \<le> 63" and next_tid: "get_next_available_tid s = int t" "t < 64" "tid_free s t"
  shows "\<exists>s'. task_init s t pr code par = Some s' \<and> kernel_core s' Q M (insert t C) \<and>
    kframe s s' \<and> t_state s' = (t_state s)(t := TASK_RUNNABLE) \<and> t_state s t = TASK_ZOMBIE \<and>
    the_next_generation s' = (the_next_generation s)(t := the_next_generation s t + 1) \<and>
    s_prio s' = (s_prio s)(t := pr)"
proof -
  note c = kernel_coreD [OF core]
  have z: "t_state s t = TASK_ZOMBIE" "the_next_generation s t < 1000"
    using c(2) next_tid(2,3) by (auto simp: tids_inv_def)
  then have tC: "t \<notin> C" and tQ: "\<And>p. p < 64 \<Longrightarrow> t \<notin> set (Q p)" and tM: "M t = []"
    using C core_notin_ready [OF core, of t] quiet next_tid(2) by (auto simp: zombies_quiet_def)
  have t0: "t \<noteq> 0" using c(2) next_tid(3) by (cases "t = 0") (auto simp: tids_inv_def)
  define s' where "s' = s\<lparr>
       t_tid := (t_tid s)(t := t),
       t_generation := (t_generation s)(t := of_int (the_next_generation s t)),
       the_next_generation := (the_next_generation s)(t := the_next_generation s t + 1),
       available_tids := available_tids s AND NOT (AVAILABLE_TIDS_MASK t),
       s_prio := (s_prio s)(t := pr),
       t_state := (t_state s)(t := TASK_RUNNABLE),
       s_links := set_prev t None (set_next t None (s_links s)),
       t_parent := (t_parent s)(t := par),
       send_queues := (send_queues s)(t := None),
       t_send_queue := (t_send_queue s)(t := t),
       t_blocked_on := (t_blocked_on s)(t := NOT_BLOCKED),
       t_tf := (t_tf s)(t := Some (initial_trapframe t (sys_exit_addr s) code))\<rparr>"
  have "task_init s t pr code par = Some s'"
    by (simp add: task_init_def z next_tid(1) s'_def Let_def)
  moreover have "tids_inv s'"
    using c(2) z t0 next_tid(2)
    by (auto simp: tids_inv_def tid_free_def s'_def tid_free_take tid_free_take [where u = 0, simplified])
  moreover have "ready_ok s' Q (insert t C)"
  proof (rule ready_okI)
    note R = ready_okD [OF c(3)]
    have *: "sched_inv (s\<lparr>s_prio := (s_prio s)(t := pr),
        s_links := set_prev t None (set_next t None (s_links s))\<rparr>) Q"
      using R(3) tQ by (intro sched_inv_fresh [OF R(1)]) auto
    show "sched_inv s' Q"
      by (rule iffD1 [OF sched_inv_cong *]) (simp_all add: s'_def)
    show "s_max_priority s' = 63" using R(2) by (simp add: s'_def)
    show "\<And>p u. p < 64 \<Longrightarrow> u \<in> set (Q p) \<Longrightarrow>
        u < 64 \<and> u \<notin> insert t C \<and> t_state s' u = TASK_RUNNABLE"
      using R(4) tQ by (fastforce simp: s'_def)
    show "\<And>u. u < 64 \<Longrightarrow> u \<notin> insert t C \<Longrightarrow> t_state s' u \<noteq> TASK_ACTIVE"
      using R(5) by (simp add: s'_def)
    show "\<And>u. u < 64 \<Longrightarrow> u \<notin> insert t C \<Longrightarrow> t_state s' u = TASK_RUNNABLE \<Longrightarrow>
        u \<in> set (Q (nat (s_prio s' u)))"
      using R(6) by (simp add: s'_def)
    show "\<And>u. u < 64 \<Longrightarrow> t_state s' u \<noteq> TASK_ZOMBIE \<Longrightarrow> 0 \<le> s_prio s' u \<and> s_prio s' u \<le> 63"
      using R(7) pr by (auto simp: s'_def split: if_splits)
  qed
  moreover have "msg_ok s' M (insert t C)"
  proof (rule msg_okI)
    note m = msg_okD [OF c(4)]
    have "tq.bank (t_msg s) {..<64} ((send_queues s)(t := None)) (M(t := []))"
      by (rule tq.bank_clear [OF m(1)]) (simp add: queue_is_empty_def)
    then show "tq.bank (t_msg s') {..<64} (send_queues s') M"
      using tM by (simp add: s'_def fun_upd_idem)
    show "\<And>r u. r < 64 \<Longrightarrow> u \<in> set (M r) \<Longrightarrow> u < 64 \<and> t_state s' u = TASK_RECEIVE_BLOCKED"
      using m(2) z by (fastforce simp: s'_def)
    show "\<And>u. u < 64 \<Longrightarrow> u \<notin> insert t C \<Longrightarrow> t_state s' u = TASK_RECEIVE_BLOCKED \<Longrightarrow>
        \<exists>r<64. u \<in> set (M r)"
      using m(3) by (simp add: s'_def)
  qed
  moreover have "events_ok s' (insert t C)"
  proof -
    have "{u. u < 64 \<and> t_state s' u = TASK_EVENT_BLOCKED} =
        {u. u < 64 \<and> t_state s u = TASK_EVENT_BLOCKED}"
      using z by (auto simp: s'_def)
    then show ?thesis
      using c(5) z by (auto simp: events_ok_def s'_def split: option.splits)
  qed
  moreover have "stacks_ok s'"
    using c(6) initial_sp_in_stack [OF next_tid(2)] by (auto simp: stacks_ok_def s'_def)
  moreover have "kframe s s'" by (simp add: kframe_def s'_def)
  ultimately show ?thesis
    using c(1) next_tid(2) z by (auto simp: kernel_core_def s'_def)
qed

lemma running_create:
  assumes run: "running s Q M c"
  shows "\<exists>s' r Q'. syscall_create s pr code = Some (s', r) \<and> running s' Q' M c \<and> kframe s s' \<and>
    (r = -2 \<and> s' = s \<and> (\<forall>t < 64. \<not> tid_free s t) \<or> r = -1 \<and> s' = s \<and> \<not> (0 \<le> pr \<and> pr \<le> 63) \<or>
     (\<exists>t < 64. tid_free s t \<and> (\<forall>u < t. \<not> tid_free s u) \<and> t_state s t = TASK_ZOMBIE \<and>
        t_state s' = (t_state s)(t := TASK_RUNNABLE) \<and> Q' = Q(nat pr := Q (nat pr) @ [t]) \<and>
        r = the_next_generation s t * 64 + int t \<and> r = task_get_userland_tid s' t))"
proof -
  note rn = runningD [OF run]
  show ?thesis
  proof (cases rule: get_next_available_tid_cases [of s])
    case 1
    then show ?thesis using run by (simp add: syscall_create_def) blast
  next
    case (2 t)
    show ?thesis
    proof (cases "0 \<le> pr \<and> pr \<le> 63")
      case False
      then have "syscall_create s pr code = Some (s, -1)"
        using 2 by (auto simp: syscall_create_def MAX_PRIORITY_def)
      then show ?thesis using run False by auto
    next
      case True
      obtain s1 where s1: "task_init s t pr code (k_current s) = Some s1"
        "kernel_core s1 Q M {t, c}" "kframe s s1" "t_state s1 = (t_state s)(t := TASK_RUNNABLE)"
        "t_state s t = TASK_ZOMBIE" "s_prio s1 = (s_prio s)(t := pr)"
        "the_next_generation s1 = (the_next_generation s)(t := the_next_generation s t + 1)"
      proof -
        have "\<And>u. u \<in> {c} \<Longrightarrow> t_state s u \<noteq> TASK_ZOMBIE" using rn(4) by simp
        from core_task_init [OF rn(1,2) this conjunct1 [OF True] conjunct2 [OF True] 2(1-3)] that
        show ?thesis by blast
      qed
      have tc: "t \<noteq> c" using s1(5) rn(4) by auto
      obtain s2 where s2: "register_task s1 t = Some (s2, 0)" "same_sched s1 s2"
        "kernel_core s2 (Q(nat pr := Q (nat pr) @ [t])) M ({t, c} - {t})"
        using core_register [OF s1(2), of t] s1(4,6) by auto
      have st: "t_state s2 = (t_state s)(t := TASK_RUNNABLE)"
        by (simp add: same_sched_tasks [OF s2(2)] s1(4))
      have k: "kframe s s2" using kframe_trans s1(3) kframe_same_sched [OF s2(2)] by blast
      have core2: "kernel_core s2 (Q(nat pr := Q (nat pr) @ [t])) M {c}"
        using s2(3) tc by (simp add: insert_Diff_if)
      have "zombies_quiet s2 M"
        using rn(2) by (rule zombies_quiet_mono) (auto simp: st split: if_splits)
      then have "running s2 (Q(nat pr := Q (nat pr) @ [t])) M c"
        using core2 rn(3,4) tc k by (simp add: running_def st kframe_def)
      moreover have "task_get_userland_tid s2 t = the_next_generation s t * 64 + int t"
        using task_get_userland_tid_eq [OF kernel_coreD(2) [OF core2] 2(2)]
        by (simp add: st same_sched_tasks [OF s2(2)] s1(7))
      moreover have "syscall_create s pr code = Some (s2, task_get_userland_tid s2 t)"
        using True 2(1,2) s1(1) s2(1)
        by (simp add: syscall_create_def MAX_PRIORITY_def get_next_raw_td_def Let_def)
      ultimately show ?thesis using k 2(2-4) s1(5) st
        by (intro exI [of _ s2] exI [of _ "task_get_userland_tid s2 t"]
            exI [of _ "Q(nat pr := Q (nat pr) @ [t])"]) auto
    qed
  qed
qed

end
