(* ===== verification/Kernel_Step.thy ===== *)
theory Kernel_Step
  imports Kernel_Inv
begin

text \<open>
  Events, the remaining system calls, and one round of the scheduling loop under the kernel
  invariant; then the runs of the kernel from boot as an inductive relation.
\<close>

lemma truncate_eqD:
  assumes "tasks.truncate s' = tasks.truncate s"
  shows "s_max_priority s' = s_max_priority s" "s_hi s' = s_hi s" "s_lo s' = s_lo s"
    "s_queues s' = s_queues s" "s_links s' = s_links s" "s_prio s' = s_prio s"
    "t_state s' = t_state s" "t_tf s' = t_tf s" "t_tid s' = t_tid s" "t_msg s' = t_msg s"
    "t_generation s' = t_generation s" "t_send_queue s' = t_send_queue s"
    "t_blocked_on s' = t_blocked_on s" "available_tids s' = available_tids s"
    "the_next_generation s' = the_next_generation s" "send_queues s' = send_queues s"
    "tasks_event_blocked s' = tasks_event_blocked s"
  using assms by (cases s; cases s'; simp add: tasks.truncate_def)+

lemma core_cong:
  assumes t: "tasks.truncate s' = tasks.truncate s" and k: "k_registered s' = k_registered s"
  shows "kernel_core s' Q M C = kernel_core s Q M C" and "zombies_quiet s' M = zombies_quiet s M"
proof -
  note e = truncate_eqD [OF t]
  have "sched_inv s' Q = sched_inv s Q" by (rule sched_inv_cong) (simp_all add: e)
  then show "kernel_core s' Q M C = kernel_core s Q M C"
    unfolding kernel_core_def tids_inv_def tid_free_def ready_ok_def msg_ok_def events_ok_def
      stacks_ok_def by (simp only: e k)
  show "zombies_quiet s' M = zombies_quiet s M" by (simp only: zombies_quiet_def e)
qed

lemma core_set_tf:
  assumes core: "kernel_core s Q M C" and t: "t \<in> C" "sp_in_stack t (tf_sp tf)"
  shows "kernel_core (s\<lparr>t_tf := (t_tf s)(t := Some tf)\<rparr>) Q M C"
proof -
  let ?s = "s\<lparr>t_tf := (t_tf s)(t := Some tf)\<rparr>"
  note c = kernel_coreD [OF core]
  have "tids_inv ?s" using c(2) by (simp add: tids_inv_def tid_free_def)
  moreover have "ready_ok ?s Q C" using c(3) by (simp add: ready_ok_def)
  moreover have "msg_ok ?s M C" using c(4) by (simp add: msg_ok_def)
  moreover have "events_ok ?s C"
    using c(5) t unfolding events_ok_def by (auto cong: option.case_cong)
  moreover have "stacks_ok ?s" using c(6) t by (simp add: stacks_ok_def)
  ultimately show ?thesis using c(1) by (simp add: kernel_core_def)
qed

section \<open>Events\<close>

lemma events_okD:
  assumes "events_ok s C"
  shows "tasks_event_blocked s = int (card {t. t < 64 \<and> t_state s t = TASK_EVENT_BLOCKED})"
    and "\<And>t. t < 64 \<Longrightarrow> t_state s t = TASK_EVENT_BLOCKED \<Longrightarrow> 0 \<le> t_blocked_on s t \<and>
      t_blocked_on s t \<le> 4 \<and> k_registered s (nat (t_blocked_on s t)) = Some t"
    and "\<And>t. t < 64 \<Longrightarrow> t_state s t = TASK_EVENT_BLOCKED \<Longrightarrow> t \<notin> C \<Longrightarrow>
      \<exists>tf. t_tf s t = Some tf \<and> tf_r0 tf = 0xBADDA7A"
    and "\<And>t. t < 64 \<Longrightarrow> t_state s t \<noteq> TASK_EVENT_BLOCKED \<Longrightarrow> t_state s t \<noteq> TASK_ZOMBIE \<Longrightarrow>
      t_blocked_on s t = NOT_BLOCKED"
    and "\<And>e t. e \<le> 4 \<Longrightarrow> k_registered s e = Some t \<Longrightarrow>
      t < 64 \<and> t_state s t = TASK_EVENT_BLOCKED \<and> t_blocked_on s t = int e"
  using assms unfolding events_ok_def MAX_EVENT_ID_def by (auto split: option.splits)

lemma event_has_task_inv:
  assumes core: "kernel_core s Q M C" and e: "0 \<le> e" "e \<le> 4"
  shows "event_has_task s e = Some (k_registered s (nat e) \<noteq> None)"
  using events_okD(5) [OF kernel_coreD(5) [OF core], of "nat e"] e
  by (auto simp: event_has_task_def MAX_EVENT_ID_def split: option.splits)

lemma card_event_le: "card {u. u < (64::nat) \<and> P u} \<le> 64"
proof -
  have "card {u. u < (64::nat) \<and> P u} \<le> card {..<64::nat}" by (rule card_mono) auto
  then show ?thesis by simp
qed

text \<open>The state change of \<open>event_register\<close>, the running task \<open>c\<close> going to wait.\<close>

lemma core_event_block:
  assumes core: "kernel_core s Q M {c}" and c: "t_state s c = TASK_ACTIVE"
    and e: "0 \<le> e" "e \<le> 4" "k_registered s (nat e) = None"
  shows "task_set_state (s\<lparr>k_registered := (k_registered s)(nat e := Some c),
      t_blocked_on := (t_blocked_on s)(c := e)\<rparr>) c TASK_EVENT_BLOCKED =
    Some (s\<lparr>k_registered := (k_registered s)(nat e := Some c),
      t_blocked_on := (t_blocked_on s)(c := e), tasks_event_blocked := tasks_event_blocked s + 1,
      t_state := (t_state s)(c := TASK_EVENT_BLOCKED)\<rparr>)" (is ?set)
    and "kernel_core (s\<lparr>k_registered := (k_registered s)(nat e := Some c),
      t_blocked_on := (t_blocked_on s)(c := e), tasks_event_blocked := tasks_event_blocked s + 1,
      t_state := (t_state s)(c := TASK_EVENT_BLOCKED)\<rparr>) Q M {c}" (is "kernel_core ?s Q M {c}")
proof -
  note k = kernel_coreD [OF core]
  have c64: "c < 64" using k(1) by simp
  let ?E = "{u. u < 64 \<and> t_state s u = TASK_EVENT_BLOCKED}"
  have E: "{u. u < 64 \<and> t_state ?s u = TASK_EVENT_BLOCKED} = insert c ?E" using c64 by auto
  have card: "card (insert c ?E) = card ?E + 1" using c by simp
  have "card (insert c ?E) \<le> 64" using card_event_le [of "\<lambda>u. t_state ?s u = TASK_EVENT_BLOCKED"]
    unfolding E .
  then show ?set using k(5) c card by (simp add: task_set_state_def events_ok_def MAX_TASKS_def)
  have c0: "c \<noteq> 0" using k(2) c by (cases "c = 0") (auto simp: tids_inv_def)
  have "tids_inv ?s" using k(2) c c0 by (auto simp: tids_inv_def tid_free_def)
  moreover have "ready_ok ?s Q {c}"
  proof (rule ready_okI)
    note R = ready_okD [OF k(3)]
    show "sched_inv ?s Q" by (rule iffD1 [OF sched_inv_cong R(1)]) simp_all
  qed (use ready_okD [OF k(3)] c in \<open>auto split: if_splits\<close>)
  moreover have "msg_ok ?s M {c}"
    using msg_okD [OF k(4)] c by (intro msg_okI) (auto split: if_splits)
  moreover have "events_ok ?s {c}"
    unfolding events_ok_def E card
    using k(5) c c64 e by (auto simp: events_ok_def MAX_EVENT_ID_def nat_eq_iff split: option.splits)
  moreover have "stacks_ok ?s" using k(6) c by (auto simp: stacks_ok_def)
  ultimately show "kernel_core ?s Q M {c}" using k(1) by (simp add: kernel_core_def)
qed

lemma truncate_enable_uart [simp]:
  "tasks.truncate (enable_uart_interrupt s ch m b) = tasks.truncate s"
  "k_registered (enable_uart_interrupt s ch m b) = k_registered s"
  "kframe s' (enable_uart_interrupt s ch m b) = kframe s' s"
  by (simp_all add: enable_uart_interrupt_def tasks.truncate_def kframe_def)

lemma truncate_enable_event [simp]:
  "tasks.truncate (enable_uart_event s e) = tasks.truncate s"
  "k_registered (enable_uart_event s e) = k_registered s"
  "kframe s' (enable_uart_event s e) = kframe s' s"
  by (simp_all add: enable_uart_event_def)

text \<open>
  \<open>AwaitEvent\<close> for an event nobody waits for: the task is registered and the UART interrupt of the
  event switched on.
\<close>

lemma running_await_free:
  assumes run: "running s Q M c" and e: "0 \<le> e" "e \<le> 4" and free: "k_registered s (nat e) = None"
  shows "\<exists>s'. Option.bind (syscall_awaitevent s e) (ret_r0 c) = Some s' \<and> kframe s s' \<and> zombies_quiet s' M \<and>
    t_state s' = (t_state s)(c := TASK_EVENT_BLOCKED) \<and>
    t_tf s' = (t_tf s)(c := map_option (tf_r0_update (\<lambda>_. 0xBADDA7A)) (t_tf s c)) \<and>
    k_registered s' = (k_registered s)(nat e := Some c) \<and>
    k_has_event_been_registered s' = (k_has_event_been_registered s)(nat e := True) \<and>
    k_uart_ctlr s' = k_uart_ctlr (enable_uart_event s e) \<and>
    kernel_core s' Q M {c}"
proof -
  note rn = runningD [OF run]
  note has = event_has_task_inv [OF rn(1) e]
  note b = core_event_block [OF rn(1,4) e free]
  let ?s2 = "s\<lparr>k_registered := (k_registered s)(nat e := Some c),
    t_blocked_on := (t_blocked_on s)(c := e), tasks_event_blocked := tasks_event_blocked s + 1,
    t_state := (t_state s)(c := TASK_EVENT_BLOCKED)\<rparr>"
  define s3 where "s3 = (enable_uart_event ?s2 e)\<lparr>k_has_event_been_registered :=
    (k_has_event_been_registered (enable_uart_event ?s2 e))(nat e := True)\<rparr>"
  have tr: "tasks.truncate s3 = tasks.truncate ?s2" "k_registered s3 = k_registered ?s2" "kframe s s3"
    using truncate_enable_event [where s = ?s2 and e = e]
    by (simp_all add: s3_def tasks.truncate_def kframe_def)
  have a: "syscall_awaitevent s e = Some (s3, 0xBADDA7A)"
    using e rn(3) has free b(1)
    by (simp add: syscall_awaitevent_def event_register_def MAX_EVENT_ID_def s3_def Let_def)
  have core3: "kernel_core s3 Q M {c}" using b(2) core_cong [OF tr(1,2)] by simp
  have st3: "t_state s3 = (t_state s)(c := TASK_EVENT_BLOCKED)" "t_tf s3 = t_tf s"
    using truncate_eqD(7,8) [OF tr(1)] by simp_all
  have ev3: "k_has_event_been_registered s3 = (k_has_event_been_registered s)(nat e := True)"
    "k_uart_ctlr s3 = k_uart_ctlr (enable_uart_event s e)"
    by (simp_all add: s3_def enable_uart_event_def enable_uart_interrupt_def)
  obtain tf where tf: "t_tf s c = Some tf" using core_tf [OF rn(1,5)] rn(4) by auto
  define s4 where "s4 = s3\<lparr>t_tf := (t_tf s3)(c := Some (tf\<lparr>tf_r0 := 0xBADDA7A\<rparr>))\<rparr>"
  have r: "set_r0 c 0xBADDA7A s3 = Some s4" using tf st3 by (simp add: upd_tf_def s4_def)
  have core4: "kernel_core s4 Q M {c}"
    unfolding s4_def by (rule core_upd_tf [OF core3]) (use tf st3 in simp_all)
  have "zombies_quiet s4 M"
    using rn(2) by (rule zombies_quiet_mono) (auto simp: s4_def st3 split: if_splits)
  then show ?thesis
    using a r core4 tr(2,3) tf
    by (intro exI [of _ s4]) (simp add: ret_r0_def s4_def st3 ev3)
qed

lemma running_awaitevent:
  assumes run: "running s Q M c"
  shows "\<exists>s'. Option.bind (syscall_awaitevent s e) (ret_r0 c) = Some s' \<and> call_outcome s c s'"
proof -
  note rn = runningD [OF run]
  have err: ?thesis if "syscall_awaitevent s e = Some (s, r)" for r
    using running_set_r0 [OF run] that by (simp add: ret_r0_def)
  consider "\<not> (0 \<le> e \<and> e \<le> 4)" | t where "0 \<le> e" "e \<le> 4" "k_registered s (nat e) = Some t"
    | "0 \<le> e" "e \<le> 4" "k_registered s (nat e) = None" by (cases "k_registered s (nat e)") auto
  then show ?thesis
  proof cases
    case 1
    then show ?thesis
      using rn(3) by (intro err [of "-1"]) (auto simp: syscall_awaitevent_def event_register_def MAX_EVENT_ID_def)
  next
    case (2 t)
    then show ?thesis using event_has_task_inv [OF rn(1) 2(1,2)] rn(3)
      by (intro err [of "-3"]) (auto simp: syscall_awaitevent_def event_register_def MAX_EVENT_ID_def)
  next
    case 3
    obtain s' where s': "Option.bind (syscall_awaitevent s e) (ret_r0 c) = Some s'" "kframe s s'"
      "zombies_quiet s' M" "t_state s' = (t_state s)(c := TASK_EVENT_BLOCKED)"
      "t_tf s' = (t_tf s)(c := map_option (tf_r0_update (\<lambda>_. 0xBADDA7A)) (t_tf s c))"
      "kernel_core s' Q M {c}"
      using running_await_free [OF run 3] by blast
    obtain tf where "t_tf s c = Some tf" using core_tf [OF rn(1,5)] rn(4) by auto
    then have "call_outcome s c s'"
      by (intro call_outcome_settled [OF s'(2,3,6)]) (simp add: s'(4,5))
    then show ?thesis using s'(1) by blast
  qed
qed

text \<open>The state change of \<open>event_handle\<close>, the waiting task \<open>t\<close> made runnable.\<close>

lemma core_event_wake:
  assumes core: "kernel_core s Q M C" and t: "t < 64" "t \<notin> C" "t_state s t = TASK_EVENT_BLOCKED"
    and tf: "t_tf s t = Some tf" and e: "t_blocked_on s t = int e" "e \<le> 4"
  shows "task_set_state (s\<lparr>t_tf := (t_tf s)(t := Some (tf\<lparr>tf_r0 := v\<rparr>))\<rparr>) t TASK_RUNNABLE =
      Some (s\<lparr>t_tf := (t_tf s)(t := Some (tf\<lparr>tf_r0 := v\<rparr>)),
        tasks_event_blocked := tasks_event_blocked s - 1,
        t_state := (t_state s)(t := TASK_RUNNABLE)\<rparr>)" (is ?set)
    and "kernel_core (s\<lparr>t_tf := (t_tf s)(t := Some (tf\<lparr>tf_r0 := v\<rparr>)),
        tasks_event_blocked := tasks_event_blocked s - 1,
        t_state := (t_state s)(t := TASK_RUNNABLE), k_registered := (k_registered s)(e := None),
        t_blocked_on := (t_blocked_on s)(t := NOT_BLOCKED)\<rparr>) Q M (insert t C)"
      (is "kernel_core ?s Q M ?C")
proof -
  note k = kernel_coreD [OF core]
  note ev = events_okD [OF k(5)]
  let ?E = "{u. u < 64 \<and> t_state s u = TASK_EVENT_BLOCKED}"
  have E: "{u. u < 64 \<and> t_state ?s u = TASK_EVENT_BLOCKED} = ?E - {t}" by auto
  have fin: "finite ?E" by (rule finite_subset [of _ "{..<64}"]) auto
  have card: "int (card (?E - {t})) = tasks_event_blocked s - 1" "1 \<le> card ?E"
  proof -
    have "card ?E = Suc (card (?E - {t}))" using t fin by (subst card.remove [of _ t]) auto
    then show "int (card (?E - {t})) = tasks_event_blocked s - 1" "1 \<le> card ?E" using ev(1) by simp_all
  qed
  then show ?set
    using ev(1) t card_event_le [of "\<lambda>u. t_state s u = TASK_EVENT_BLOCKED"]
    by (simp add: task_set_state_def MAX_TASKS_def)
  have t0: "t \<noteq> 0" using k(2) t by (cases "t = 0") (auto simp: tids_inv_def)
  have "tids_inv ?s" using k(2) t t0 by (auto simp: tids_inv_def tid_free_def)
  moreover have "ready_ok ?s Q ?C"
  proof (rule ready_okI)
    note R = ready_okD [OF k(3)]
    show "sched_inv ?s Q" by (rule iffD1 [OF sched_inv_cong R(1)]) simp_all
    show "\<And>p u. p < 64 \<Longrightarrow> u \<in> set (Q p) \<Longrightarrow> u < 64 \<and> u \<notin> insert t C \<and> t_state ?s u = TASK_RUNNABLE"
      using R(4) t by fastforce
  qed (use ready_okD [OF k(3)] t in \<open>auto split: if_splits\<close>)
  moreover have "msg_ok ?s M ?C"
    using msg_okD [OF k(4)] t by (intro msg_okI) (auto split: if_splits)
  moreover have "events_ok ?s ?C"
  proof -
    have 1: "0 \<le> t_blocked_on ?s u \<and> t_blocked_on ?s u \<le> MAX_EVENT_ID \<and>
        k_registered ?s (nat (t_blocked_on ?s u)) = Some u \<and>
        (u \<notin> ?C \<longrightarrow> (\<exists>tf. t_tf ?s u = Some tf \<and> tf_r0 tf = 0xBADDA7A))"
      if "u < 64" "t_state ?s u = TASK_EVENT_BLOCKED" for u
      using ev(2,3) [of u] ev(2) [OF t(1,3)] that t(3) e by (auto simp: MAX_EVENT_ID_def split: if_splits)
    have 2: "t_blocked_on ?s u = NOT_BLOCKED"
      if "u < 64" "t_state ?s u \<noteq> TASK_EVENT_BLOCKED" "t_state ?s u \<noteq> TASK_ZOMBIE" for u
      using ev(4) [of u] that by auto
    have 3: "u < 64 \<and> t_state ?s u = TASK_EVENT_BLOCKED \<and> t_blocked_on ?s u = int i"
      if "int i \<le> MAX_EVENT_ID" "k_registered ?s i = Some u" for i u
      using ev(5) [of i u] that e by (auto simp: MAX_EVENT_ID_def split: if_splits)
    show ?thesis
      unfolding events_ok_def E card(1)
      using 1 2 3 by (auto simp del: fun_upd_apply split: option.split)
  qed
  moreover have "stacks_ok ?s" using k(6) t tf by (auto simp: stacks_ok_def)
  ultimately show "kernel_core ?s Q M ?C" using k(1) t(1) by (simp add: kernel_core_def)
qed

text \<open>The one way an event can end in a panic: nobody waits for it any more.\<close>

definition event_dropped :: "'a kernel_scheme \<Rightarrow> int \<Rightarrow> bool" where
  "event_dropped s e \<longleftrightarrow> 0 \<le> e \<and> e \<le> 4 \<and> k_registered s (nat e) = None \<and>
     k_has_event_been_registered s (nat e)"

lemma event_handle_core:
  assumes core: "kernel_core s Q M {c}" and quiet: "zombies_quiet s M"
    and c: "t_state s c = TASK_ACTIVE" and e: "0 \<le> e" "e \<le> 4"
  shows "if event_dropped s e then event_handle s e d = None
    else \<exists>s' Q'. event_handle s e d = Some s' \<and> kframe s s' \<and> zombies_quiet s' M \<and>
      kernel_core s' Q' M {c} \<and> t_state s' c = TASK_ACTIVE \<and>
      (case k_registered s (nat e) of None \<Rightarrow> s' = s
       | Some t \<Rightarrow> t_state s' t = TASK_RUNNABLE \<and> k_registered s' (nat e) = None \<and>
           map_option tf_r0 (t_tf s' t) = Some (of_int d))"
proof (cases "k_registered s (nat e)")
  case None
  then show ?thesis
    using event_has_task_inv [OF core e] e core quiet c
    by (auto simp: event_handle_def event_dropped_def MAX_EVENT_ID_def)
next
  case (Some t)
  note ev = events_okD [OF kernel_coreD(5) [OF core]]
  have t: "t < 64" "t_state s t = TASK_EVENT_BLOCKED" "t_blocked_on s t = e"
    using ev(5) [OF _ Some] e by auto
  then have tc: "t \<notin> {c}" using c by auto
  obtain tf where tf: "t_tf s t = Some tf" "tf_r0 tf = 0xBADDA7A" using ev(3) [OF t(1,2) tc] by blast
  have eb: "t_blocked_on s t = int (nat e)" "nat e \<le> 4" using t e by auto
  note w = core_event_wake [OF core t(1) tc t(2) tf(1) eb, of "of_int d"]
  define s3 where "s3 = s\<lparr>t_tf := (t_tf s)(t := Some (tf\<lparr>tf_r0 := of_int d\<rparr>)),
        tasks_event_blocked := tasks_event_blocked s - 1,
        t_state := (t_state s)(t := TASK_RUNNABLE), k_registered := (k_registered s)(nat e := None),
        t_blocked_on := (t_blocked_on s)(t := NOT_BLOCKED)\<rparr>"
  obtain s4 Q' where s4: "register_task s3 t = Some (s4, 0)" "same_sched s3 s4"
    "kernel_core s4 Q' M ({t, c} - {t})"
    using core_register [OF w(2), of t] by (auto simp: s3_def)
  have st: "t_state s4 = (t_state s)(t := TASK_RUNNABLE)"
    "t_tf s4 = (t_tf s)(t := Some (tf\<lparr>tf_r0 := of_int d\<rparr>))"
    "k_registered s4 = (k_registered s)(nat e := None)"
    by (simp_all add: same_sched_tasks [OF s4(2)] same_sched_kernel [OF s4(2)] s3_def)
  have "event_handle s e d = Some s4"
    using event_has_task_inv [OF core e] e Some t tf s4(1) w(1)
    by (simp add: event_handle_def MAX_EVENT_ID_def upd_tf_def s3_def)
  moreover have "kframe s s4"
    using kframe_trans [OF _ kframe_same_sched [OF s4(2)]] by (simp add: kframe_def s3_def)
  moreover have "zombies_quiet s4 M"
    using quiet by (rule zombies_quiet_mono) (auto simp: st split: if_splits)
  moreover have "kernel_core s4 Q' M {c}" using s4(3) tc by (simp add: insert_Diff_if)
  moreover have "\<not> event_dropped s e" using Some by (simp add: event_dropped_def)
  ultimately show ?thesis using Some c tc by (auto simp: st)
qed

lemma truncate_irrelevant [simp]:
  "tasks.truncate (s\<lparr>k_ticks := a\<rparr>) = tasks.truncate s"
  "tasks.truncate (s\<lparr>k_uart0_cts_asserted := b\<rparr>) = tasks.truncate s"
  "tasks.truncate (s\<lparr>k_uart0_txfe_asserted := b\<rparr>) = tasks.truncate s"
  "tasks.truncate (s\<lparr>k_num_syscalls := d\<rparr>) = tasks.truncate s"
  "tasks.truncate (s\<lparr>k_num_syscalls_total := e\<rparr>) = tasks.truncate s"
  "tasks.truncate (s\<lparr>k_mem := f\<rparr>) = tasks.truncate s"
  "tasks.truncate (s\<lparr>k_num_ctx_sw := g\<rparr>) = tasks.truncate s"
  "tasks.truncate (s\<lparr>k_started := h\<rparr>) = tasks.truncate s"
  "tasks.truncate (s\<lparr>k_last_interval_start := i\<rparr>) = tasks.truncate s"
  "tasks.truncate (s\<lparr>k_total_usage := j\<rparr>) = tasks.truncate s"
  "tasks.truncate (s\<lparr>k_usage_last_second := j\<rparr>) = tasks.truncate s"
  "tasks.truncate (s\<lparr>k_reads := k\<rparr>) = tasks.truncate s"
  "tasks.truncate (s\<lparr>k_current := l\<rparr>) = tasks.truncate s"
  by (simp_all add: tasks.truncate_def)

text \<open>A state that differs from one where \<open>c\<close> runs in irrelevant fields only.\<close>

lemma running_cong:
  assumes "tasks.truncate s' = tasks.truncate s" "k_registered s' = k_registered s"
    "k_current s' = k_current s"
  shows "running s' Q M c = running s Q M c"
  using core_cong [OF assms(1,2)] truncate_eqD(7) [OF assms(1)] assms(3) by (simp add: running_def)

lemma call_outcome_kframe: "kframe s s1 \<Longrightarrow> call_outcome s1 c s' \<Longrightarrow> call_outcome s c s'"
  unfolding call_outcome_def using kframe_trans by blast

lemma running_event:
  assumes run: "running s Q M c" and e: "0 \<le> e" "e \<le> 4"
  shows "event_handle s e d = None \<and> event_dropped s e \<or>
    (\<exists>s'. event_handle s e d = Some s' \<and> call_outcome s c s')"
proof -
  note rn = runningD [OF run]
  show ?thesis
    using event_handle_core [OF rn(1,2,4) e, of d] call_outcome_running [of s _ M _ c]
    by (auto split: if_splits)
qed

text \<open>The device operations change nothing the events and tasks are made of.\<close>

definition same_tasks :: "'a kernel_scheme \<Rightarrow> 'a kernel_scheme \<Rightarrow> bool" where
  "same_tasks s s' \<longleftrightarrow> tasks.truncate s' = tasks.truncate s \<and> k_registered s' = k_registered s \<and>
     kframe s s' \<and> k_has_event_been_registered s' = k_has_event_been_registered s"

lemma same_tasks_device [simp]:
  "same_tasks s (interrupt_tx_clear s ch)"
  "same_tasks s (interrupt_rx_clear s ch)"
  "same_tasks s (maybe_received_cts s flag)"
  "same_tasks s (fst (try_clear_train_send s))"
  "same_tasks s (s\<lparr>k_ticks := n\<rparr>)"
  by (simp_all add: same_tasks_def interrupt_tx_clear_def interrupt_rx_clear_def Let_def
      maybe_received_cts_def try_clear_train_send_def enable_uart_interrupt_def kframe_def
      tasks.truncate_def)

lemma same_tasks_trans: "same_tasks s s1 \<Longrightarrow> same_tasks s1 s2 \<Longrightarrow> same_tasks s s2"
  by (auto simp: same_tasks_def kframe_def)

lemma running_same_tasks: "same_tasks s s' \<Longrightarrow> running s Q M c \<Longrightarrow> running s' Q M c"
  using running_cong [of s' s Q M c] by (simp add: same_tasks_def kframe_def)

lemma running_handle_vic:
  assumes run: "running s Q M c" and e: "e = -1 \<or> 0 \<le> e \<and> e \<le> 4"
  shows "handle_vic_event dev s e = None \<and> (\<exists>e'. event_dropped s e') \<or>
    (\<exists>s'. handle_vic_event dev s e = Some s' \<and> call_outcome s c s')"
proof -
  have ev: "event_handle s' i d = None \<and> (\<exists>e'. event_dropped s e') \<or>
      (\<exists>s''. event_handle s' i d = Some s'' \<and> call_outcome s c s'')"
    if "same_tasks s s'" "0 \<le> i" "i \<le> 4" for s' i d
    using running_event [OF running_same_tasks [OF that(1) run] that(2,3), of d] that(1)
      call_outcome_kframe [of s s' c] by (auto simp: event_dropped_def same_tasks_def)
  have idle: "call_outcome s c s'" if "same_tasks s s'" for s'
    using runningD [OF running_same_tasks [OF that run]] that
    by (intro call_outcome_running [of s s' M Q c]) (auto simp: same_tasks_def)
  have tx: "same_tasks s (fst (try_clear_train_send (interrupt_tx_clear s TRAIN)))"
    and cts: "same_tasks s (fst (try_clear_train_send (maybe_received_cts s (d_uart_flag dev))))"
    using same_tasks_trans [OF same_tasks_device(1) same_tasks_device(4)]
      same_tasks_trans [OF same_tasks_device(3) same_tasks_device(4)] by blast+
  from e consider "e = -1" | "e = 0" | "e = 1" | "e = 2" | "e = 3" | "e = 4" by linarith
  then show ?thesis
  proof cases
    case 1
    then show ?thesis
      using ev [OF cts, of 2 0] idle [OF cts] idle [of s]
      by (auto simp: handle_vic_event_def same_tasks_def split: prod.splits)
  next
    case 4
    then show ?thesis
      using ev [OF tx, of 2 0] idle [OF tx] by (auto simp: handle_vic_event_def split: prod.splits)
  qed (use ev in \<open>simp_all add: handle_vic_event_def\<close>)
qed

lemma running_hwi:
  assumes run: "running s Q M c"
  shows "handle_hwi dev s = None \<and> (\<exists>e. event_dropped s e) \<or>
    (\<exists>s'. handle_hwi dev s = Some s' \<and> call_outcome s c s')"
proof -
  have "get_highest_vic_bit_event_id w = -1 \<or>
      0 \<le> get_highest_vic_bit_event_id w \<and> get_highest_vic_bit_event_id w \<le> 4" for w
    by (auto simp: get_highest_vic_bit_event_id_def find_Some_iff split: option.splits)
  from running_handle_vic [OF run this] show ?thesis by (simp add: handle_hwi_def)
qed

section \<open>The dispatch\<close>

lemma running_ret:
  assumes "running s1 Q M c" "kframe s s1"
  shows "\<exists>s'. ret_r0 c (s1, r) = Some s' \<and> call_outcome s c s'"
  using running_set_r0 [OF assms(1), of "of_int r"] call_outcome_kframe [OF assms(2)]
  by (auto simp: ret_r0_def)

lemma running_idle: "running s Q M c \<Longrightarrow> call_outcome s c s"
  using runningD [of s Q M c] by (intro call_outcome_running [of s s M Q c]) auto

lemma running_write:
  assumes "running s Q M c"
  shows "call_outcome s c (syscall_total_proc_usage s p)"
    and "call_outcome s c (syscall_last_secs_proc_usage s p)"
proof -
  have r: "running (syscall_total_proc_usage s p) Q M c"
    "running (syscall_last_secs_proc_usage s p) Q M c"
    by (rule running_cong [THEN iffD2, OF _ _ _ assms],
        simp_all add: syscall_total_proc_usage_def syscall_last_secs_proc_usage_def)+
  have k: "kframe s (syscall_total_proc_usage s p)" "kframe s (syscall_last_secs_proc_usage s p)"
    by (simp_all add: kframe_def syscall_total_proc_usage_def syscall_last_secs_proc_usage_def)
  show "call_outcome s c (syscall_total_proc_usage s p)"
    by (rule call_outcome_kframe [OF k(1) running_idle [OF r(1)]])
  show "call_outcome s c (syscall_last_secs_proc_usage s p)"
    by (rule call_outcome_kframe [OF k(2) running_idle [OF r(2)]])
qed

text \<open>The system calls covered: all but Pass (below), Panic, Kill and MyProcUsage.\<close>

definition plain_syscall :: "int \<Rightarrow> bool" where
  "plain_syscall n \<longleftrightarrow> n \<in> {0, 2, 3, 4, 6, 7, 8, 9, 10, 12, 13, 14}"

lemma running_dispatch:
  assumes run: "running s Q M c" and n: "plain_syscall (sint (tf_r0 tf))"
  shows "\<exists>s'. dispatch_syscall dev s c tf = Some s' \<and> call_outcome s c s'"
proof -
  define n where "n = sint (tf_r0 tf)"
  define s1 where "s1 = s\<lparr>k_num_syscalls := (k_num_syscalls s)(nat n := k_num_syscalls s (nat n) + 1),
    k_num_syscalls_total := k_num_syscalls_total s + 1\<rparr>"
  have run1: "running s1 Q M c"
    by (rule running_cong [THEN iffD2, OF _ _ _ run]) (simp_all add: s1_def)
  have k: "kframe s s1" by (simp add: kframe_def s1_def)
  note out = call_outcome_kframe [OF k]
  have create: "\<exists>s'. Option.bind (syscall_create s1 pr code) (ret_r0 c) = Some s' \<and> call_outcome s c s'"
    for pr code
  proof -
    obtain s2 r Q' where "syscall_create s1 pr code = Some (s2, r)" "running s2 Q' M c" "kframe s1 s2"
      using running_create [OF run1, of pr code] by blast
    then show ?thesis using running_ret [of s2 Q' M c s1 r] out by auto
  qed
  have ret: "\<exists>s'. ret_r0 c (s1, r) = Some s' \<and> call_outcome s c s'" for r
    by (rule running_ret [OF run1 k])
  have "dispatch_syscall dev s c tf =
      (if n = 0 then syscall_exit s1
       else if n = 2 then Option.bind (syscall_create s1 (sint (tf_r1 tf)) (tf_r2 tf)) (ret_r0 c)
       else if n = 3 then ret_r0 c (s1, syscall_mytid s1)
       else if n = 4 then ret_r0 c (s1, syscall_myparent_tid s1)
       else if n = 6 then syscall_send s1
       else if n = 7 then syscall_receive s1
       else if n = 8 then syscall_reply s1
       else if n = 9 then Some s1
       else if n = 10 then Option.bind (syscall_awaitevent s1 (sint (tf_r1 tf))) (ret_r0 c)
       else if n = 12 then ret_r0 c (s1, syscall_mypriority s1)
       else if n = 13 then Some (syscall_total_proc_usage s1 (tf_r1 tf))
       else Some (syscall_last_secs_proc_usage s1 (tf_r1 tf)))"
    using n by (auto simp: dispatch_syscall_def plain_syscall_def NUM_SYSCALL_CODES_def Let_def
        s1_def simp flip: n_def)
  moreover have "\<exists>s'. syscall_exit s1 = Some s' \<and> call_outcome s c s'"
    using running_exit [OF run1] out by blast
  moreover have "\<exists>s'. syscall_send s1 = Some s' \<and> call_outcome s c s'"
    using running_syscall_send [OF run1] out by blast
  moreover have "\<exists>s'. syscall_receive s1 = Some s' \<and> call_outcome s c s'"
    using running_syscall_receive [OF run1] out by blast
  moreover have "\<exists>s'. syscall_reply s1 = Some s' \<and> call_outcome s c s'"
    using running_syscall_reply [OF run1] out by blast
  moreover have "\<exists>s'. Option.bind (syscall_awaitevent s1 e) (ret_r0 c) = Some s' \<and> call_outcome s c s'" for e
    using running_awaitevent [OF run1, of e] out by blast
  ultimately show ?thesis
    using create ret out [OF running_idle [OF run1]] out [OF running_write(1) [OF run1]]
      out [OF running_write(2) [OF run1]] by simp
qed

section \<open>One round of the scheduling loop\<close>

definition usage_ok :: "'a kernel_scheme \<Rightarrow> bool" where
  "usage_ok s \<longleftrightarrow> k_started s \<and> k_last_interval_start s > 0 \<and> (\<forall>n. k_clock s n > 0)"

definition kernel_inv :: "'a kernel_scheme \<Rightarrow> (nat \<Rightarrow> tptr list) \<Rightarrow> (nat \<Rightarrow> tptr list) \<Rightarrow> bool" where
  "kernel_inv s Q M \<longleftrightarrow> kernel_core s Q M {} \<and> zombies_quiet s M \<and> usage_ok s"

text \<open>The part of the state the accounting leaves alone.\<close>

lemma interval_ok:
  assumes u: "usage_ok s" and t: "tid \<le> 64"
  shows "\<exists>s1 s2. end_interval s tid = Some s1 \<and> start_interval s1 = Some s2 \<and> usage_ok s2 \<and>
    tasks.truncate s2 = tasks.truncate s \<and> k_registered s2 = k_registered s \<and>
    k_current s2 = k_current s \<and> k_has_event_been_registered s2 = k_has_event_been_registered s \<and>
    k_mem s2 = k_mem s"
  using u t
  by (simp add: end_interval_def start_interval_def get_clockticks_def Let_def MAX_TASKS_def
      usage_ok_def)

lemma schedule_asserts_ok:
  assumes core: "kernel_core s Q M C" and t: "t < 64" "t_state s t \<noteq> TASK_ZOMBIE"
  shows "schedule_asserts s t = Some True"
proof -
  obtain tf where tf: "t_tf s t = Some tf" using core_tf [OF core t] by blast
  have "w AND 0xFFFF0000 \<noteq> 0xF433" for w :: u32
  proof
    assume "w AND 0xFFFF0000 = 0xF433"
    then have "bit (w AND 0xFFFF0000) 0 = bit (0xF433 :: u32) 0" by simp
    then show False by (simp add: bit_simps bit_numeral_rec)
  qed
  then show ?thesis
    using tf kernel_coreD(6) [OF core] tids_inv_live(1) [OF kernel_coreD(2) [OF core] t] t
    by (simp add: schedule_asserts_def stacks_ok_def)
qed

lemma schedule_pick_ok:
  assumes inv: "kernel_inv s Q M" and hp: "scheduler_highest s = Some p"
  shows "\<exists>s'. schedule_pick s = Some (s', Some (hd (Q p))) \<and>
    running s' (Q(p := tl (Q p))) M (hd (Q p)) \<and> usage_ok s' \<and> k_mem s' = k_mem s"
proof -
  have core: "kernel_core s Q M {}" and quiet: "zombies_quiet s M" and u: "usage_ok s"
    using inv by (auto simp: kernel_inv_def)
  note R = ready_okD [OF kernel_coreD(3) [OF core]]
  have p: "p < 64" "Q p \<noteq> []" using scheduler_highest_inv [OF R(1)] hp R(3) by auto
  define t where "t = hd (Q p)"
  have t: "t < 64" "t_state s t = TASK_RUNNABLE" using R(4) [OF p(1), of t] p(2) by (auto simp: t_def)
  have pr: "s_prio s t = int p" using sched_inv_prio [OF R(1), of p t] p R(3) by (simp add: t_def)
  obtain s1 where s1: "scheduler_next_task s = Some (s1, Some t)" "same_sched s s1"
    "sched_inv s1 (Q(p := tl (Q p)))"
    using scheduler_next_task_ok [OF R(1) hp] by (auto simp: t_def)
  have tQ: "t \<notin> set ((Q(p := tl (Q p))) r)" if "r < 64" for r
  proof -
    have "distinct (Q p)"
      using tq.rep_distinct [OF tq.bank_mem [OF sched_inv_bank [OF R(1)], of p]] p(1) R(3) by simp
    moreover have "t \<in> set (Q p)" using p(2) by (simp add: t_def)
    then have "t \<notin> set (Q r)" if "r \<noteq> p"
      using tq.bank_disjoint [OF sched_inv_bank [OF R(1)], of p r t] that p(1) \<open>r < 64\<close> R(3) by auto
    ultimately show ?thesis using p(2) by (cases "Q p") (auto simp: t_def)
  qed
  have core1: "kernel_core s1 (Q(p := tl (Q p))) M {t}"
  proof -
    have "ready_ok s1 (Q(p := tl (Q p))) {t}"
    proof (rule ready_okI)
      fix r v assume "r < 64" "v \<in> set ((Q(p := tl (Q p))) r)"
      moreover have "v \<in> set (Q r)"
        using calculation list.set_sel(2) [OF p(2)] by (auto split: if_splits)
      moreover have "v \<noteq> t" using tQ [OF \<open>r < 64\<close>] calculation by auto
      ultimately show "v < 64 \<and> v \<notin> {t} \<and> t_state s1 v = TASK_RUNNABLE"
        using R(4) by (auto simp: same_sched_tasks [OF s1(2)])
    next
      fix v assume v: "v < 64" "v \<notin> {t}" "t_state s1 v = TASK_RUNNABLE"
      then have "v \<in> set (Q (nat (s_prio s v)))"
        using R(6) by (auto simp: same_sched_tasks [OF s1(2)])
      moreover have "Q p = t # tl (Q p)" using p(2) by (simp add: t_def)
      then have "v \<in> set (Q p) \<Longrightarrow> v \<in> set (tl (Q p))" using v(2) by (metis insertI1 set_ConsD singletonD)
      ultimately show "v \<in> set ((Q(p := tl (Q p))) (nat (s_prio s1 v)))"
        by (auto simp: same_sched_tasks [OF s1(2)])
    qed (use s1(3) R(2,5,7) in \<open>auto simp: same_sched_tasks [OF s1(2)]\<close>)
    moreover have "msg_ok s M {t}"
      using msg_okD [OF kernel_coreD(4) [OF core]] by (intro msg_okI) auto
    moreover have "events_ok s {t}" using events_ok_mono [OF kernel_coreD(5) [OF core]] by simp
    ultimately show ?thesis using core s1(2) t(1) by (auto simp: kernel_core_def)
  qed
  have st1: "t_state s1 t = TASK_RUNNABLE" using t by (simp add: same_sched_tasks [OF s1(2)])
  have as: "schedule_asserts s1 t = Some True"
    by (rule schedule_asserts_ok [OF core1 t(1)]) (simp add: st1)
  define s2 where "s2 = s1\<lparr>k_current := Some t\<rparr>"
  have core2: "kernel_core s2 (Q(p := tl (Q p))) M {t}"
    using core1 core_cong(1) [of s2 s1] by (simp add: s2_def)
  have sa: "kernel_core (s2\<lparr>t_state := (t_state s2)(t := TASK_ACTIVE)\<rparr>) (Q(p := tl (Q p))) M {t}"
    using core_set_state(2) [OF core2, of t TASK_ACTIVE] core_notin_msg [OF core2, of t] st1
    by (auto simp: s2_def)
  define s3 where "s3 = s2\<lparr>t_state := (t_state s2)(t := TASK_ACTIVE), k_num_ctx_sw := k_num_ctx_sw s2 + 1\<rparr>"
  have core3: "kernel_core s3 (Q(p := tl (Q p))) M {t}"
    using sa core_cong(1) [of s3 "s2\<lparr>t_state := (t_state s2)(t := TASK_ACTIVE)\<rparr>"]
    by (simp add: s3_def)
  have u3: "usage_ok s3"
    using u by (simp add: s3_def s2_def usage_ok_def same_sched_kernel [OF s1(2)])
  obtain s4 s5 where s5: "end_interval s3 KERNEL_FAKE_TID = Some s4" "start_interval s4 = Some s5"
    "usage_ok s5" "tasks.truncate s5 = tasks.truncate s3" "k_registered s5 = k_registered s3"
    "k_current s5 = k_current s3" "k_mem s5 = k_mem s3"
    using interval_ok [OF u3, of KERNEL_FAKE_TID] by (auto simp: KERNEL_FAKE_TID_def)
  have "zombies_quiet s5 M"
    using quiet by (rule zombies_quiet_mono)
      (auto simp: truncate_eqD(7) [OF s5(4)] s3_def s2_def same_sched_tasks [OF s1(2)] split: if_splits)
  then have "running s5 (Q(p := tl (Q p))) M t"
    using core3 core_cong(1) [OF s5(4,5)] s5(6)
    by (simp add: running_def truncate_eqD(7) [OF s5(4)] s3_def s2_def)
  moreover have "schedule_pick s = Some (s5, Some t)"
    using s1(1) as st1 s5(1,2) by (simp add: schedule_pick_def Let_def s3_def s2_def)
  moreover have "k_mem s5 = k_mem s" using s5(7) by (simp add: s3_def s2_def same_sched_kernel [OF s1(2)])
  ultimately show ?thesis using s5(3) by (auto simp: t_def)
qed

lemma schedule_finish_ok:
  assumes out: "call_outcome s c s'" and cur: "k_current s' = Some c"
  shows "\<exists>s'' Q M. schedule_finish s' c = Some s'' \<and> kernel_core s'' Q M {} \<and>
    zombies_quiet s'' M \<and> kframe s' s''"
proof -
  obtain Q M where quiet: "zombies_quiet s' M" and core: "kernel_core s' Q M {c}"
    and alt: "t_state s' c \<in> {TASK_ACTIVE, TASK_RUNNABLE} \<or>
      t_state s' c \<notin> {TASK_ACTIVE, TASK_RUNNABLE} \<and> kernel_core s' Q M {}"
    using out by (auto simp: call_outcome_def)
  show ?thesis
  proof (cases "t_state s' c \<in> {TASK_ACTIVE, TASK_RUNNABLE}")
    case True
    have c: "c < 64" "c \<in> {c}" using kernel_coreD(1) [OF core] by auto
    have as: "schedule_asserts s' c = Some True"
      using True by (intro schedule_asserts_ok [OF core c(1)]) auto
    define s1 where "s1 = s'\<lparr>t_state := (t_state s')(c := TASK_RUNNABLE)\<rparr>"
    have s1: "task_set_state s' c TASK_RUNNABLE = Some s1" "kernel_core s1 Q M {c}"
      using core_set_state [OF core c(2), of TASK_RUNNABLE] core_notin_msg [OF core, of c] True
      by (auto simp: s1_def)
    obtain s2 Q' where s2: "register_task s1 c = Some (s2, 0)" "same_sched s1 s2"
      "kernel_core s2 Q' M ({c} - {c})"
      using core_register [OF s1(2), of c] by (auto simp: s1_def)
    have "scheduler_register s1 c = Some (s2, 0)"
      using s2(1) by (simp add: register_task_def s1_def)
    then have "schedule_finish s' c = Some s2"
      using cur True as s1(1) by (auto simp: schedule_finish_def)
    moreover have "zombies_quiet s2 M"
      using quiet by (rule zombies_quiet_mono)
        (auto simp: same_sched_tasks [OF s2(2)] s1_def split: if_splits)
    moreover have "kframe s' s2"
      using kframe_trans [OF _ kframe_same_sched [OF s2(2)]] by (simp add: s1_def)
    ultimately show ?thesis using s2(3) by auto
  next
    case False
    then show ?thesis using cur alt quiet by (auto simp: schedule_finish_def)
  qed
qed

text \<open>
  Pass registers the running task while it is still active; \<open>schedule\<close> then registers it a second
  time. It is at the tail of its queue at that moment, so that the queue stays as it is.
\<close>

lemma pass_finish_ok:
  assumes run: "running s Q M c"
  shows "\<exists>s1 s2. syscall_pass s = Some s1 \<and> schedule_finish s1 c = Some s2 \<and> kframe s s2 \<and>
    zombies_quiet s2 M \<and>
    kernel_core s2 (Q(nat (s_prio s c) := Q (nat (s_prio s c)) @ [c])) M {}"
proof -
  note rn = runningD [OF run]
  define p where "p = nat (s_prio s c)"
  define Q' where "Q' = Q(p := Q p @ [c])"
  note R = ready_okD [OF kernel_coreD(3) [OF rn(1)]]
  have pr: "s_prio s c = int p" "p < 64" "p \<le> top_priority s"
    using core_prio [OF rn(1,5)] rn(4) by (simp_all add: p_def)
  obtain s1 where s1: "scheduler_register s c = Some (s1, 0)" "same_sched s s1" "sched_inv s1 Q'"
    using scheduler_register_ok [OF R(1) pr(1,3)] core_notin_ready [OF rn(1), of c] R(3)
    by (auto simp: Q'_def)
  have st1: "t_state s1 c = TASK_ACTIVE" using rn(4) by (simp add: same_sched_tasks [OF s1(2)])
  define s1' where "s1' = s\<lparr>t_state := (t_state s)(c := TASK_RUNNABLE)\<rparr>"
  have s1': "task_set_state s c TASK_RUNNABLE = Some s1'" "kernel_core s1' Q M {c}"
    using core_set_state [OF rn(1), of c TASK_RUNNABLE] rn(4,6) by (auto simp: s1'_def)
  define s2 where "s2 = s1\<lparr>t_state := (t_state s1)(c := TASK_RUNNABLE)\<rparr>"
  have s2: "task_set_state s1 c TASK_RUNNABLE = Some s2"
    using events_okD(1) [OF kernel_coreD(5) [OF rn(1)]]
      card_event_le [of "\<lambda>u. t_state s u = TASK_EVENT_BLOCKED"] rn(4)
    by (simp add: task_set_state_def s2_def same_sched_tasks [OF s1(2)] MAX_TASKS_def)
  have as: "schedule_asserts s1 c = Some True"
    using schedule_asserts_ok [OF rn(1,5)] rn(4)
    by (simp add: schedule_asserts_def same_sched_tasks [OF s1(2)])
  have i2: "sched_inv s2 Q'" using s1(3) by (simp add: s2_def)
  have tp: "top_priority s2 = top_priority s"
    by (simp add: s2_def top_priority_def same_sched_tasks [OF s1(2)])
  obtain s3 where s3: "scheduler_register s2 c = Some (s3, 0)" "same_sched s2 s3" "sched_inv s3 Q'"
    using scheduler_register_tail [OF i2, of c p "Q p"] pr tp
    by (auto simp: Q'_def s2_def same_sched_tasks [OF s1(2)])
  have same: "same_sched s1' s3"
  proof -
    have "sched.more s2 = sched.more s1'"
      using s1(2) by (cases s; cases s1; simp add: same_sched_def s2_def s1'_def)
    then show ?thesis
      using s3(2) same_sched_tasks(15,16) [OF s1(2)] by (simp add: same_sched_def s2_def s1'_def)
  qed
  have "kernel_core s3 (Q(p := Q p @ [c])) M ({c} - {c})"
    by (rule core_registered [OF s1'(2) _ _ _ same]) (use s3(3) in \<open>simp_all add: s1'_def p_def Q'_def\<close>)
  moreover have "syscall_pass s = Some s1"
    using rn(3,4) s1(1) by (simp add: syscall_pass_def register_task_def)
  moreover have "schedule_finish s1 c = Some s3"
    using rn(3) st1 as s2 s3(1) by (simp add: schedule_finish_def same_sched_kernel [OF s1(2)])
  moreover have "kframe s s3"
    using kframe_trans [OF _ kframe_same_sched [OF same], of s] by (simp add: s1'_def)
  moreover have "zombies_quiet s3 M"
    using rn(2) by (rule zombies_quiet_mono)
      (auto simp: same_sched_tasks [OF same] s1'_def split: if_splits)
  ultimately show ?thesis unfolding p_def by auto
qed

text \<open>
  What a user task may bring back to the kernel: its own stack pointer, user mode, no magic link
  register, and either an interrupt or one of the system calls covered.
\<close>

definition user_ok :: "tptr \<Rightarrow> user_step \<Rightarrow> bool" where
  "user_ok t u \<longleftrightarrow> tf_k_lr (u_tf u) \<noteq> 0xA1B2C3D4 \<and> tf_sp (u_tf u) \<noteq> 0 \<and>
     sp_in_stack t (tf_sp (u_tf u)) \<and> tf_psr (u_tf u) AND 0xFF = 0x10 \<and>
     (u_hw u \<or> sint (tf_r0 (u_tf u)) = 1 \<or> plain_syscall (sint (tf_r0 (u_tf u))))"

lemma handle_interrupt_unfold:
  assumes run: "running s Q M c" and u: "usage_ok s" and ok: "user_ok c us"
  shows "\<exists>s3. running s3 Q M c \<and> usage_ok s3 \<and>
    k_registered s3 = k_registered s \<and> k_has_event_been_registered s3 = k_has_event_been_registered s \<and>
    handle_interrupt dev s (u_tf us) (u_hw us) =
      (if u_hw us then handle_hwi dev s3 else dispatch_syscall dev s3 c (u_tf us))"
proof -
  note rn = runningD [OF run]
  have tid: "t_tid s c = c" using tids_inv_live(1) [OF kernel_coreD(2) [OF rn(1)] rn(5)] rn(4) by simp
  obtain s1 s2 where i: "end_interval s c = Some s1" "start_interval s1 = Some s2" "usage_ok s2"
    "tasks.truncate s2 = tasks.truncate s" "k_registered s2 = k_registered s"
    "k_current s2 = k_current s" "k_has_event_been_registered s2 = k_has_event_been_registered s"
    using interval_ok [OF u, of c] rn(5) by auto
  define s3 where "s3 = s2\<lparr>t_tf := (t_tf s2)(c := Some (u_tf us))\<rparr>"
  have run2: "running s2 Q M c" by (rule running_cong [THEN iffD2, OF i(4,5,6) run])
  have "kernel_core s3 Q M {c}"
    unfolding s3_def using ok by (intro core_set_tf runningD(1) [OF run2]) (auto simp: user_ok_def)
  then have "running s3 Q M c"
    using runningD [OF run2] by (simp add: running_def s3_def zombies_quiet_def)
  moreover have "usage_ok s3" using i(3) by (simp add: usage_ok_def s3_def)
  moreover have "handle_interrupt dev s (u_tf us) (u_hw us) =
      (if u_hw us then handle_hwi dev s3 else dispatch_syscall dev s3 c (u_tf us))"
    using ok rn(3) i(1,2) by (simp add: handle_interrupt_def tid user_ok_def s3_def Let_def)
  ultimately show ?thesis using i(5,7) by (auto simp: s3_def)
qed

lemma dispatch_pass:
  "sint (tf_r0 tf) = 1 \<Longrightarrow> dispatch_syscall dev s c tf =
     syscall_pass (s\<lparr>k_num_syscalls := (k_num_syscalls s)(1 := k_num_syscalls s 1 + 1),
       k_num_syscalls_total := k_num_syscalls_total s + 1\<rparr>)"
  by (simp add: dispatch_syscall_def NUM_SYSCALL_CODES_def Let_def)

lemma usage_ok_kframe: "kframe s s' \<Longrightarrow> usage_ok s \<Longrightarrow> usage_ok s'"
  by (simp add: usage_ok_def kframe_def)

text \<open>
  A round in which some task is ready: it picks the first task of the highest nonempty priority,
  runs it, handles its trap and returns, with the invariant restored; the only panic is a dropped
  event.
\<close>

lemma schedule_step:
  assumes inv: "kernel_inv s Q M" and hp: "scheduler_highest s = Some p"
    and ok: "user_ok (hd (Q p)) u"
  shows "(\<exists>s' Q' M'. schedule dev u s = Some (s', True) \<and> kernel_inv s' Q' M') \<or>
    u_hw u \<and> schedule dev u s = None"
proof -
  define c where "c = hd (Q p)"
  obtain s1 where s1: "schedule_pick s = Some (s1, Some c)" "running s1 (Q(p := tl (Q p))) M c"
    "usage_ok s1" using schedule_pick_ok [OF inv hp] by (auto simp: c_def)
  define s2 where "s2 = s1\<lparr>k_mem := u_mem u (k_mem s1)\<rparr>"
  have run2: "running s2 (Q(p := tl (Q p))) M c"
    by (rule running_cong [THEN iffD2, OF _ _ _ s1(2)]) (simp_all add: s2_def)
  have u2: "usage_ok s2" using s1(3) by (simp add: usage_ok_def s2_def)
  obtain s3 where s3: "running s3 (Q(p := tl (Q p))) M c" "usage_ok s3"
    "handle_interrupt dev s2 (u_tf u) (u_hw u) =
      (if u_hw u then handle_hwi dev s3 else dispatch_syscall dev s3 c (u_tf u))"
    using handle_interrupt_unfold [OF run2 u2 ok [folded c_def]] by blast
  have sched: "schedule dev u s = Option.bind (handle_interrupt dev s2 (u_tf u) (u_hw u))
      (\<lambda>s4. Option.bind (schedule_finish s4 c) (\<lambda>s5. Some (s5, True)))"
    by (simp add: schedule_def s1(1) s2_def)
  have fin: "\<exists>s' Q' M'. schedule dev u s = Some (s', True) \<and> kernel_inv s' Q' M'"
    if h: "handle_interrupt dev s2 (u_tf u) (u_hw u) = Some s4" and o: "call_outcome s3 c s4" for s4
  proof -
    have k: "kframe s3 s4" using o by (simp add: call_outcome_def)
    then have "k_current s4 = Some c" using runningD(3) [OF s3(1)] by (simp add: kframe_def)
    from schedule_finish_ok [OF o this] obtain s5 Q5 M5 where s5: "schedule_finish s4 c = Some s5"
      "kernel_core s5 Q5 M5 {}" "zombies_quiet s5 M5" "kframe s4 s5" by blast
    have "usage_ok s5" using usage_ok_kframe [OF kframe_trans [OF k s5(4)] s3(2)] .
    then show ?thesis using sched h s5 by (auto simp: kernel_inv_def)
  qed
  consider "u_hw u" | "\<not> u_hw u" "sint (tf_r0 (u_tf u)) = 1"
    | "\<not> u_hw u" "plain_syscall (sint (tf_r0 (u_tf u)))"
    using ok by (auto simp: user_ok_def)
  then show ?thesis
  proof cases
    case 1
    then show ?thesis
      using running_hwi [OF s3(1), of dev] fin s3(3) sched by auto
  next
    case 2
    define s3' where "s3' = s3\<lparr>k_num_syscalls := (k_num_syscalls s3)(1 := k_num_syscalls s3 1 + 1),
       k_num_syscalls_total := k_num_syscalls_total s3 + 1\<rparr>"
    have run3: "running s3' (Q(p := tl (Q p))) M c"
      by (rule running_cong [THEN iffD2, OF _ _ _ s3(1)]) (simp_all add: s3'_def)
    obtain s4 s5 Q5 where s5: "syscall_pass s3' = Some s4" "schedule_finish s4 c = Some s5"
      "kframe s3' s5" "zombies_quiet s5 M" "kernel_core s5 Q5 M {}"
      using pass_finish_ok [OF run3] by blast
    have "usage_ok s3'" using s3(2) by (simp add: usage_ok_def s3'_def)
    then have "kernel_inv s5 Q5 M" using s5 usage_ok_kframe by (auto simp: kernel_inv_def)
    moreover have "schedule dev u s = Some (s5, True)"
      using 2 sched s3(3) s5(1,2) dispatch_pass [of "u_tf u" dev s3 c] by (simp add: s3'_def)
    ultimately show ?thesis by blast
  next
    case 3
    then show ?thesis using running_dispatch [OF s3(1) 3(2), of dev] fin s3(3) by auto
  qed
qed

lemma schedule_idle:
  assumes inv: "kernel_inv s Q M" and hp: "scheduler_highest s = None"
  shows "schedule dev u s = (if tasks_event_blocked s = 0 then Some (s, False) else None)"
    and "\<And>t. t < 64 \<Longrightarrow> t_state s t \<noteq> TASK_RUNNABLE \<and> t_state s t \<noteq> TASK_ACTIVE"
proof -
  have core: "kernel_core s Q M {}" using inv by (simp add: kernel_inv_def)
  note R = ready_okD [OF kernel_coreD(3) [OF core]]
  have n: "scheduler_next_task s = Some (s, None)" using hp by (simp add: scheduler_next_task_def)
  show "schedule dev u s = (if tasks_event_blocked s = 0 then Some (s, False) else None)"
    by (auto simp: schedule_def schedule_pick_def n)
  have "Q p = []" if "p < 64" for p using scheduler_highest_inv [OF R(1)] hp R(3) that by simp
  then show "t_state s t \<noteq> TASK_RUNNABLE \<and> t_state s t \<noteq> TASK_ACTIVE" if "t < 64" for t
    using R(5,6) [OF that] core_prio(2) [OF core that] by fastforce
qed

text \<open>The task picked has the highest priority of all runnable ones.\<close>

lemma schedule_pick_highest:
  assumes inv: "kernel_inv s Q M" and hp: "scheduler_highest s = Some p" and t: "t < 64"
    "t_state s t = TASK_RUNNABLE"
  shows "s_prio s t \<le> int p" and "s_prio s (hd (Q p)) = int p" and "t \<in> set (Q (nat (s_prio s t)))"
proof -
  have core: "kernel_core s Q M {}" using inv by (simp add: kernel_inv_def)
  note R = ready_okD [OF kernel_coreD(3) [OF core]]
  note h = scheduler_highest_inv [OF R(1), unfolded hp, simplified]
  show m: "t \<in> set (Q (nat (s_prio s t)))" using R(6) t by simp
  then show "s_prio s t \<le> int p"
    using h core_prio [OF core t(1)] t(2) R(3) by (metis empty_iff linorder_not_le list.set(1) nat_le_iff
      not_less task_state.distinct(13) verit_comp_simplify1(3))
  show "s_prio s (hd (Q p)) = int p" using sched_inv_prio [OF R(1), of p "hd (Q p)"] h by simp
qed

section \<open>Boot and runs\<close>

text \<open>
  \<open>kmain\<close> of \<open>main.c\<close> up to the scheduling loop; \<open>code\<close> is the address of the first user task.
  The I/O and interrupt-controller setup has no state here.
\<close>

definition kmain_boot :: "'a kernel_scheme \<Rightarrow> u32 \<Rightarrow> 'a kernel_scheme option" where
  "kmain_boot s code = do {
     let s1 = s\<lparr>k_ticks := 0, k_num_ctx_sw := 0, k_num_syscalls_total := 0,
       k_num_syscalls := (\<lambda>i. if i < NUM_SYSCALL_CODES then 0 else k_num_syscalls s i)\<rparr>;
     let s2 = setup_events (setup_tasks s1);
     s3 \<leftarrow> setup_scheduler s2;
     let s4 = setup_kusage_stats s3;
     s5 \<leftarrow> start_interval s4;
     (s6, r) \<leftarrow> syscall_create s5 10 code;
     guard_opt (r > 0);
     Some s6
   }"

text \<open>
  The state before boot: the globals are zeroed by the loader (no current task, no send queue), and
  the hardware clock, started before, never reads 0.
\<close>

definition power_on :: "'a kernel_scheme \<Rightarrow> bool" where
  "power_on s \<longleftrightarrow> k_current s = None \<and> (\<forall>r < 64. send_queues s r = None) \<and> (\<forall>n. k_clock s n > 0)"

lemma setup_core:
  assumes "power_on s" and s: "setup_scheduler (setup_events (setup_tasks s)) = Some s'"
  shows "kernel_core s' (\<lambda>_. []) (\<lambda>_. []) {} \<and> zombies_quiet s' (\<lambda>_. []) \<and> k_current s' = None \<and>
    k_clock s' = k_clock s \<and> available_tids s' = 0x7FFFFFFFFFFFFFFF \<and>
    the_next_generation s' 1 = 0"
proof -
  let ?s = "setup_events (setup_tasks s)"
  obtain s1 where s1: "scheduler_init ?s MAX_PRIORITY (replicate 64 None) = Some (s1, 0)"
    "sched_inv s1 (\<lambda>_. [])" "s_links s1 = s_links ?s" "s_prio s1 = s_prio ?s" "s_max_priority s1 = 63"
    using scheduler_init_inv [of MAX_PRIORITY "replicate 64 None" ?s] by (auto simp: MAX_PRIORITY_def)
  have more: "sched.more s1 = sched.more ?s"
    using s1(1) by (auto simp: scheduler_init_def MAX_PRIORITY_def split: if_splits)
  have s': "s' = s1" using s s1(1) by (simp add: setup_scheduler_def)
  have f: "t_state s' = t_state ?s" "send_queues s' = send_queues ?s"
    "k_registered s' = k_registered ?s" "tasks_event_blocked s' = tasks_event_blocked ?s"
    "available_tids s' = available_tids ?s" "the_next_generation s' = the_next_generation ?s"
    "k_current s' = k_current ?s" "k_clock s' = k_clock ?s"
    unfolding s' using more by (cases s1; cases ?s; simp)+
  have z: "\<And>t. t < 64 \<Longrightarrow> t_state s' t = TASK_ZOMBIE"
    by (simp add: f setup_events_def setup_tasks_def MAX_TASKS_def)
  have "tids_inv s'"
    using z by (auto simp: tids_inv_def tid_free_def f setup_events_def setup_tasks_def MAX_TASKS_def
        bit_numeral_rec)
  moreover have "ready_ok s' (\<lambda>_. []) {}"
    using z s1(2,5) by (intro ready_okI) (auto simp: s')
  moreover have "msg_ok s' (\<lambda>_. []) {}"
    using z assms(1) by (intro msg_okI) (auto simp: tq.bank_def f setup_events_def setup_tasks_def power_on_def)
  moreover have "events_ok s' {}"
  proof -
    have "{t. t < 64 \<and> t_state s' t = TASK_EVENT_BLOCKED} = {}" using z by auto
    then show ?thesis using z by (simp add: events_ok_def f setup_events_def setup_tasks_def)
  qed
  moreover have "stacks_ok s'" using z by (simp add: stacks_ok_def)
  ultimately show ?thesis
    using assms(1) by (simp add: kernel_core_def zombies_quiet_def f setup_events_def setup_tasks_def
        power_on_def MAX_TASKS_def)
qed

lemma kmain_boot_ok:
  assumes p: "power_on s"
  shows "\<exists>s' Q M. kmain_boot s code = Some s' \<and> kernel_inv s' Q M \<and> t_state s' 1 = TASK_RUNNABLE \<and>
    scheduler_highest s' = Some 10 \<and> Q 10 = [1]"
proof -
  define s1 where "s1 = s\<lparr>k_ticks := 0, k_num_ctx_sw := 0, k_num_syscalls_total := 0,
    k_num_syscalls := (\<lambda>i. if i < NUM_SYSCALL_CODES then 0 else k_num_syscalls s i)\<rparr>"
  have p1: "power_on s1" using p by (simp add: power_on_def s1_def)
  obtain s3 where s3: "setup_scheduler (setup_events (setup_tasks s1)) = Some s3"
    using scheduler_init_inv [of MAX_PRIORITY "replicate 64 None" "setup_events (setup_tasks s1)"]
    by (auto simp: setup_scheduler_def MAX_PRIORITY_def)
  note c3 = setup_core [OF p1 s3]
  define s4 where "s4 = setup_kusage_stats s3"
  have pos: "\<And>n. k_clock s3 n > 0" using c3 p1 by (simp add: power_on_def)
  have s4: "tasks.truncate s4 = tasks.truncate s3" "k_registered s4 = k_registered s3"
    "k_current s4 = None" "k_clock s4 = k_clock s3" "\<not> k_started s4"
    using c3 by (simp_all add: s4_def setup_kusage_stats_def get_clockticks_def
        tasks.truncate_def)
  obtain s5 where s5: "start_interval s4 = Some s5" "tasks.truncate s5 = tasks.truncate s3"
    "k_registered s5 = k_registered s3" "k_current s5 = None" "usage_ok s5"
    using s4 pos by (simp add: start_interval_def get_clockticks_def Let_def usage_ok_def)
  have core5: "kernel_core s5 (\<lambda>_. []) (\<lambda>_. []) {}" and quiet5: "zombies_quiet s5 (\<lambda>_. [])"
    using c3 core_cong [OF s5(2,3)] by simp_all
  have free: "available_tids s5 = 0x7FFFFFFFFFFFFFFF" "the_next_generation s5 1 = 0"
    using c3 truncate_eqD(14,15) [OF s5(2)] by simp_all
  then have f1: "tid_free s5 1" "\<not> tid_free s5 0" by (simp_all add: tid_free_def bit_numeral_rec)
  have tid: "get_next_available_tid s5 = int 1"
  proof (cases rule: get_next_available_tid_cases [of s5])
    case 1
    then show ?thesis using f1(1) by auto
  next
    case (2 t)
    then have "t \<le> 1" using f1(1) by (meson not_le)
    then show ?thesis using 2 f1(2) by (cases "t = 0") auto
  qed
  obtain s6 where s6: "task_init s5 1 10 code None = Some s6"
    "kernel_core s6 (\<lambda>_. []) (\<lambda>_. []) {1}" "kframe s5 s6"
    "t_state s6 = (t_state s5)(1 := TASK_RUNNABLE)"
    "the_next_generation s6 = (the_next_generation s5)(1 := the_next_generation s5 1 + 1)"
    "s_prio s6 = (s_prio s5)(1 := 10)"
    using core_task_init [OF core5 quiet5 _ _ _ tid _ f1(1), of 10 code None] by auto
  obtain s7 where s7: "register_task s6 1 = Some (s7, 0)" "same_sched s6 s7"
    "kernel_core s7 ((\<lambda>_. [])(10 := [1])) (\<lambda>_. []) ({1} - {1})"
    using core_register [OF s6(2), of 1] s6(4,6) by auto
  have st: "t_state s7 1 = TASK_RUNNABLE" by (simp add: same_sched_tasks [OF s7(2)] s6(4))
  have core7: "kernel_core s7 ((\<lambda>_. [])(10 := [1])) (\<lambda>_. []) {}" using s7(3) by simp
  have utid: "task_get_userland_tid s7 1 = 1"
    using task_get_userland_tid_eq [OF kernel_coreD(2) [OF core7], of 1] st
    by (simp add: same_sched_tasks [OF s7(2)] s6(5) free(2) [unfolded One_nat_def])
  have "kmain_boot s code = Some s7"
    using s3 s5(1) s6(1) s7(1) s5(4) tid utid
    by (simp add: kmain_boot_def Let_def syscall_create_def get_next_raw_td_def MAX_PRIORITY_def
        flip: s1_def s4_def)
  moreover have "usage_ok s7"
    using usage_ok_kframe [OF kframe_trans [OF s6(3) kframe_same_sched [OF s7(2)]] s5(5)] .
  moreover have "zombies_quiet s7 (\<lambda>_. [])" by (simp add: zombies_quiet_def)
  moreover have "scheduler_highest s7 = Some 10"
    using scheduler_highest_inv [OF ready_okD(1) [OF kernel_coreD(3) [OF core7]]]
      ready_okD(3) [OF kernel_coreD(3) [OF core7]]
    by (auto split: option.splits if_splits)
  ultimately show ?thesis using core7 st
    by (intro exI [of _ s7] exI [of _ "(\<lambda>_. [])(10 := [1])"] exI [of _ "\<lambda>_. []"])
       (simp add: kernel_inv_def)
qed

text \<open>The runs of the kernel from boot, over the traps covered.\<close>

inductive kernel_run :: "kernel \<Rightarrow> bool" where
  boot: "power_on s \<Longrightarrow> kmain_boot s code = Some s' \<Longrightarrow> kernel_run s'"
| round: "kernel_run s \<Longrightarrow> (\<And>s1 c. schedule_pick s = Some (s1, Some c) \<Longrightarrow> user_ok c u) \<Longrightarrow>
    schedule dev u s = Some (s', True) \<Longrightarrow> kernel_run s'"

lemma kernel_run_inv: "kernel_run s \<Longrightarrow> \<exists>Q M. kernel_inv s Q M"
proof (induction rule: kernel_run.induct)
  case (boot s code s')
  then show ?case using kmain_boot_ok [of s code] by fastforce
next
  case (round s u dev s')
  then obtain Q M where inv: "kernel_inv s Q M" by blast
  show ?case
  proof (cases "scheduler_highest s")
    case None
    then show ?thesis using schedule_idle(1) [OF inv None, of dev u] round by (auto split: if_splits)
  next
    case (Some p)
    then have "user_ok (hd (Q p)) u" using schedule_pick_ok [OF inv Some] round.hyps(2) by blast
    from schedule_step [OF inv Some this, of dev] round.hyps(3) show ?thesis by auto
  qed
qed

end
