(* ===== verification/Kernel_Properties.thy ===== *)
theory Kernel_Properties
  imports Kernel_Step
begin

text \<open>
  The properties of the kernel: what the system calls and the scheduling loop do, over the states
  in which the running task \<open>c\<close> has trapped (\<open>running\<close>) and over the runs from boot
  (\<open>kernel_run\<close>). The first section holds the concrete states the properties are applied to.
\<close>

section \<open>Sample states\<close>

text \<open>
  Task 1 runs with the frame \<open>f\<close>; task 2 waits in \<open>Receive\<close>, task 3 in \<open>Send\<close> to task 1, task 4
  for a reply, task 5 for the timer; task 6 is ready.
\<close>

definition sample_tf :: "nat \<Rightarrow> trapframe" where
  "sample_tf t = (initial_trapframe t 0x100 0x200)\<lparr>tf_r0 := if t = 5 then 0xBADDA7A else 0,
     tf_r1 := 0x500, tf_r2 := 0x600, tf_r3 := 8, tf_r4 := 0x700, tf_r5 := 4\<rparr>"

definition sample_kernel :: "trapframe \<Rightarrow> kernel" where
  "sample_kernel f = \<lparr>
     s_max_priority = 63, s_hi = 0, s_lo = 0x400,
     s_queues = (replicate 64 None)[10 := Some 6],
     s_links = \<lparr>lprev = (\<lambda>_. None)(6 := Some 6), lnext = (\<lambda>_. None)(6 := Some 6)\<rparr>,
     s_prio = (\<lambda>_. 0)(1 := 10, 2 := 20, 3 := 20, 4 := 5, 5 := 60, 6 := 10),
     t_parent = (\<lambda>_. None),
     t_tf = (\<lambda>t. if t = 1 then Some f else if t < 7 then Some (sample_tf t) else None),
     t_state = (\<lambda>_. TASK_ZOMBIE)(1 := TASK_ACTIVE, 2 := TASK_SEND_BLOCKED,
       3 := TASK_RECEIVE_BLOCKED, 4 := TASK_REPLY_BLOCKED, 5 := TASK_EVENT_BLOCKED,
       6 := TASK_RUNNABLE),
     t_tid = id, t_generation = (\<lambda>_. 0), t_exit_code = (\<lambda>_. 0),
     t_msg = \<lparr>lprev = (\<lambda>_. None)(3 := Some 3), lnext = (\<lambda>_. None)(3 := Some 3)\<rparr>,
     t_send_queue = id, t_blocked_on = (\<lambda>_. NOT_BLOCKED)(5 := 4),
     available_tids = 0x01FFFFFFFFFFFFFF,
     the_next_generation = (\<lambda>t. if 0 < t \<and> t < 7 then 1 else 0),
     send_queues = (\<lambda>_. None)(1 := Some 3), tasks_event_blocked = 1, sys_exit_addr = 0x100,
     k_current = Some 1, k_mem = (\<lambda>_. 0), k_num_ctx_sw = 0,
     k_registered = (\<lambda>_. None)(4 := Some 5), k_has_event_been_registered = (\<lambda>_. False)(4 := True),
     k_uart0_cts_asserted = 0, k_uart0_txfe_asserted = 0, k_uart_ctlr = (\<lambda>_. 0), k_ticks = 0,
     k_num_syscalls = (\<lambda>_. 0), k_num_syscalls_total = 0, k_total_usage = (\<lambda>_. 0),
     k_usage_last_second = (\<lambda>_. 0), k_last_interval_start = 1, k_last_called_my_frac = 1,
     k_started = True, k_clock = (\<lambda>_. 1), k_reads = 0\<rparr>"

abbreviation (input) sample_Q :: "nat \<Rightarrow> tptr list" where "sample_Q \<equiv> (\<lambda>_. [])(10 := [6])"
abbreviation (input) sample_M :: "nat \<Rightarrow> tptr list" where "sample_M \<equiv> (\<lambda>_. [])(1 := [3])"

lemma sample_tf_sp: "t < 64 \<Longrightarrow> sp_in_stack t (tf_sp (sample_tf t))"
  using initial_sp_in_stack [of t "0x100" "0x200"] by (simp add: sample_tf_def)

lemma less_64_cases: "(\<forall>t < (64::nat). P t) \<longleftrightarrow> list_all P [0..<64]"
  by (auto simp: list_all_iff)

lemma sample_sels [simp]:
  "s_max_priority (sample_kernel f) = 63" "s_hi (sample_kernel f) = 0" "s_lo (sample_kernel f) = 0x400"
  "s_queues (sample_kernel f) = (replicate 64 None)[10 := Some 6]"
  "s_links (sample_kernel f) = \<lparr>lprev = (\<lambda>_. None)(6 := Some 6), lnext = (\<lambda>_. None)(6 := Some 6)\<rparr>"
  "s_prio (sample_kernel f) = (\<lambda>_. 0)(1 := 10, 2 := 20, 3 := 20, 4 := 5, 5 := 60, 6 := 10)"
  "t_tf (sample_kernel f) =
     (\<lambda>t. if t = 1 then Some f else if t < 7 then Some (sample_tf t) else None)"
  "t_state (sample_kernel f) = (\<lambda>_. TASK_ZOMBIE)(1 := TASK_ACTIVE, 2 := TASK_SEND_BLOCKED,
       3 := TASK_RECEIVE_BLOCKED, 4 := TASK_REPLY_BLOCKED, 5 := TASK_EVENT_BLOCKED,
       6 := TASK_RUNNABLE)"
  "t_tid (sample_kernel f) = id" "t_generation (sample_kernel f) = (\<lambda>_. 0)"
  "t_msg (sample_kernel f) = \<lparr>lprev = (\<lambda>_. None)(3 := Some 3), lnext = (\<lambda>_. None)(3 := Some 3)\<rparr>"
  "t_send_queue (sample_kernel f) = id" "t_blocked_on (sample_kernel f) = (\<lambda>_. NOT_BLOCKED)(5 := 4)"
  "available_tids (sample_kernel f) = 0x01FFFFFFFFFFFFFF"
  "the_next_generation (sample_kernel f) = (\<lambda>t. if 0 < t \<and> t < 7 then 1 else 0)"
  "send_queues (sample_kernel f) = (\<lambda>_. None)(1 := Some 3)" "tasks_event_blocked (sample_kernel f) = 1"
  "k_current (sample_kernel f) = Some 1"
  "k_registered (sample_kernel f) = (\<lambda>_. None)(4 := Some 5)"
  "k_has_event_been_registered (sample_kernel f) = (\<lambda>_. False)(4 := True)"
  by (simp_all add: sample_kernel_def)

lemma sample_tid_free: "t < 64 \<Longrightarrow> tid_free (sample_kernel f) t \<longleftrightarrow> 7 \<le> t"
proof -
  have m: "(0x01FFFFFFFFFFFFFF :: u64) = mask 57" by (simp add: mask_eq_exp_minus_1)
  assume "t < 64"
  then show ?thesis unfolding tid_free_def sample_sels m bit_mask_iff by auto
qed

lemma sample_live: "t_state (sample_kernel f) t \<noteq> TASK_ZOMBIE \<longleftrightarrow> 0 < t \<and> t < 7"
  by auto

lemma sample_queue_reps:
  "queue_rep (s_links (sample_kernel f)) (if p = 10 then Some 6 else None) (sample_Q p)"
  "queue_rep (t_msg (sample_kernel f)) (send_queues (sample_kernel f) r) (sample_M r)"
  by simp_all

lemma sample_sched_inv: "sched_inv (sample_kernel f) sample_Q"
proof -
  have w: "(0x400 :: u32) = push_bit 10 1" by (simp add: push_bit_eq_mult)
  have bits: "ready_bit (sample_kernel f) p \<longleftrightarrow> p = 10" if "p < 64" for p
    unfolding ready_bit_def sample_sels w using that
    by (auto simp: bit_push_bit_iff bit_1_iff simp del: push_bit_of_1)
  have top: "top_priority (sample_kernel f) = 63" by (simp add: top_priority_def)
  have q: "s_queues (sample_kernel f) ! p = (if p = 10 then Some 6 else None)" if "p \<le> 63" for p
    using that by (simp add: nth_list_update)
  have "tq.bank (s_links (sample_kernel f)) {..63} (\<lambda>p. s_queues (sample_kernel f) ! p) sample_Q"
    unfolding tq.bank_def
  proof (intro conjI ballI impI)
    fix p assume "p \<in> {..63::nat}"
    then have p: "p \<le> 63" by simp
    show "queue_rep (s_links (sample_kernel f)) (s_queues (sample_kernel f) ! p) (sample_Q p)"
      unfolding q [OF p] by (rule sample_queue_reps(1))
  qed auto
  then show ?thesis
    unfolding sched_inv_def top using bits by simp
qed

lemma sample_running:
  assumes f: "sp_in_stack 1 (tf_sp f)"
  shows "running (sample_kernel f) sample_Q sample_M 1"
proof -
  let ?s = "sample_kernel f"
  have tids: "tids_inv ?s"
    unfolding tids_inv_def
  proof (intro conjI allI impI)
    fix t assume t: "t < (64 :: nat)"
    show "t_state ?s t = TASK_ZOMBIE" "the_next_generation ?s t < 1000" if "tid_free ?s t"
      using that t by (auto simp: sample_tid_free)
    assume "t_state ?s t \<noteq> TASK_ZOMBIE"
    then have "0 < t" "t < 7" by (simp_all only: sample_live)
    then show "t_tid ?s t = t" "t_send_queue ?s t = t" "t_tf ?s t \<noteq> None" "1 \<le> the_next_generation ?s t"
      "t_generation ?s t = of_int (the_next_generation ?s t - 1)" by simp_all
  qed (simp_all add: sample_tid_free)
  have st: "t = 6" if "t_state ?s t = TASK_RUNNABLE" for t using that by (auto split: if_splits)
  have ready: "ready_ok ?s sample_Q {1}"
  proof (rule ready_okI [OF sample_sched_inv])
    show "t < 64 \<and> t \<notin> {1} \<and> t_state ?s t = TASK_RUNNABLE" if "t \<in> set (sample_Q p)" for p t
      using that by (simp split: if_splits)
    show "t_state ?s t \<noteq> TASK_ACTIVE" if "t \<notin> {1}" for t using that by simp
    show "t \<in> set (sample_Q (nat (s_prio ?s t)))" if "t_state ?s t = TASK_RUNNABLE" for t
      unfolding st [OF that] by simp
  qed simp_all
  have bank: "tq.bank (t_msg ?s) {..<64} (send_queues ?s) sample_M"
    unfolding tq.bank_def
  proof (intro conjI ballI impI)
    fix r show "queue_rep (t_msg ?s) (send_queues ?s r) (sample_M r)" by (rule sample_queue_reps(2))
  qed (auto split: if_splits)
  have msg: "msg_ok ?s sample_M {1}"
  proof (rule msg_okI [OF bank])
    show "t < 64 \<and> t_state ?s t = TASK_RECEIVE_BLOCKED" if "t \<in> set (sample_M r)" for r t
      using that by (simp split: if_splits)
    show "\<exists>r < 64. t \<in> set (sample_M r)" if "t_state ?s t = TASK_RECEIVE_BLOCKED" for t
      using that by (intro exI [of _ 1]) (simp split: if_splits)
  qed
  have ev: "t_state ?s t = TASK_EVENT_BLOCKED \<longleftrightarrow> t = 5" for t by (auto split: if_splits)
  then have "{t. t < 64 \<and> t_state ?s t = TASK_EVENT_BLOCKED} = {5}" by auto
  then have events: "events_ok ?s {1}"
    unfolding events_ok_def ev by (auto simp: MAX_EVENT_ID_def sample_tf_def)
  have "stacks_ok ?s"
    unfolding stacks_ok_def
  proof (intro allI impI)
    fix t tf assume "t < 64" "t_tf ?s t = Some tf"
    then show "sp_in_stack t (tf_sp tf)" using f sample_tf_sp by (auto split: if_splits)
  qed
  then have "kernel_core ?s sample_Q sample_M {1}"
    using tids ready msg events by (simp add: kernel_core_def)
  moreover have "zombies_quiet ?s sample_M" by (auto simp: zombies_quiet_def)
  ultimately show ?thesis by (simp add: running_def)
qed

text \<open>The kernel just after boot: the first task, of tid 1 and priority 10, is ready.\<close>

definition cold_kernel :: kernel where
  "cold_kernel = (sample_kernel (sample_tf 1))\<lparr>k_current := None, send_queues := \<lambda>_. None\<rparr>"

definition booted_kernel :: kernel where
  "booted_kernel = the (kmain_boot cold_kernel 0x4000)"

text \<open>One visit of user mode: task 1 traps with \<open>Pass\<close>.\<close>

definition pass_step :: user_step where
  "pass_step = \<lparr>u_tf = (sample_tf 1)\<lparr>tf_r0 := 1\<rparr>, u_mem = (\<lambda>m. m), u_hw = False\<rparr>"

definition no_device :: device_input where
  "no_device = \<lparr>d_vic1 = 0, d_modem = False, d_uart_flag = 0\<rparr>"

lemma cold_power_on: "power_on cold_kernel"
  by (simp add: power_on_def cold_kernel_def sample_kernel_def)

lemma booted:
  "kmain_boot cold_kernel 0x4000 = Some booted_kernel" "kernel_run booted_kernel"
  "t_state booted_kernel 1 = TASK_RUNNABLE"
  "schedule_pick booted_kernel = Some (s1, Some c) \<Longrightarrow> c = 1"
  "\<exists>s1. schedule_pick booted_kernel = Some (s1, Some 1)"
proof -
  obtain s Q M where s: "kmain_boot cold_kernel 0x4000 = Some s" "kernel_inv s Q M"
    "t_state s 1 = TASK_RUNNABLE" "scheduler_highest s = Some 10" "Q 10 = [1]"
    using kmain_boot_ok [OF cold_power_on, of "0x4000"] by blast
  then have b: "booted_kernel = s" by (simp add: booted_kernel_def)
  show "kmain_boot cold_kernel 0x4000 = Some booted_kernel" "t_state booted_kernel 1 = TASK_RUNNABLE"
    using s by (simp_all add: b)
  then show "kernel_run booted_kernel" using kernel_run.boot [OF cold_power_on] by blast
  obtain s1' where "schedule_pick s = Some (s1', Some 1)"
    using schedule_pick_ok [OF s(2,4)] s(5) by auto
  then show "schedule_pick booted_kernel = Some (s1, Some c) \<Longrightarrow> c = 1"
    "\<exists>s1. schedule_pick booted_kernel = Some (s1, Some 1)" by (simp_all add: b)
qed

lemma pass_user_ok: "user_ok 1 pass_step"
proof -
  have "sp_in_stack 1 (tf_sp (sample_tf 1))" by (rule sample_tf_sp) simp
  moreover have "tf_sp (sample_tf 1) \<noteq> 0"
    by (simp add: sample_tf_def initial_trapframe_def Let_def task_stack_top_def STACK_TOP_def BYTES_PER_TASK_def)
  ultimately show ?thesis
    by (simp add: user_ok_def pass_step_def)
       (simp add: sample_tf_def initial_trapframe_def Let_def)
qed

section \<open>Runs of the kernel\<close>



lemma run_ready_highest:
  assumes "kernel_inv s Q M" "t < 64" "t_state s t = TASK_RUNNABLE"
  obtains p where "scheduler_highest s = Some p"
proof (cases "scheduler_highest s")
  case None
  from schedule_idle(2) [OF assms(1) None assms(2)] assms(3) show ?thesis by simp
qed





text \<open>
  \<open>schedule\<close> leaves the scheduling loop of \<open>kmain\<close> exactly when no task is ready and none
  waits for an event, and then without touching the state.
\<close>

theorem kernel_leaves_loop:
  assumes run: "kernel_run s"
  shows "schedule dev u s = Some (s', False) \<longleftrightarrow>
    s' = s \<and> \<not> (\<exists>t < 64. t_state s t = TASK_RUNNABLE \<or> t_state s t = TASK_EVENT_BLOCKED)"
proof -
  obtain Q M where inv: "kernel_inv s Q M" using kernel_run_inv [OF run] by blast
  have core: "kernel_core s Q M {}" using inv by (simp add: kernel_inv_def)
  note R = ready_okD [OF kernel_coreD(3) [OF core]]
  show ?thesis
  proof (cases "scheduler_highest s")
    case None
    have "tasks_event_blocked s = int (card {t. t < 64 \<and> t_state s t = TASK_EVENT_BLOCKED})"
      using events_okD(1) [OF kernel_coreD(5) [OF core]] .
    moreover have "finite {t. t < 64 \<and> t_state s t = TASK_EVENT_BLOCKED}" by simp
    ultimately have "tasks_event_blocked s = 0 \<longleftrightarrow> \<not> (\<exists>t < 64. t_state s t = TASK_EVENT_BLOCKED)" by auto
    then show ?thesis using schedule_idle [OF inv None] by auto
  next
    case (Some p)
    have "Q p \<noteq> [] \<and> p < 64" using scheduler_highest_inv [OF R(1)] Some R(3) by simp
    then have "hd (Q p) < 64 \<and> t_state s (hd (Q p)) = TASK_RUNNABLE" using R(4) [of p "hd (Q p)"] by simp
    moreover obtain s1 c where "schedule_pick s = Some (s1, Some c)"
      using schedule_pick_ok [OF inv Some] by blast
    ultimately show ?thesis by (auto simp: schedule_def split: bind_splits)
  qed
qed

theorem kernel_leaves_loop_witness:
  "schedule no_device pass_step booted_kernel \<noteq> Some (booted_kernel, False)"
  using kernel_leaves_loop [OF booted(2), of no_device pass_step booted_kernel] booted(3)
  by (auto dest: spec [of _ 1])

section \<open>Message passing\<close>

lemma valid_tid_iff:
  "0 < u \<Longrightarrow> u < 64 \<Longrightarrow> is_valid_userland_tid s u \<longleftrightarrow> \<not> tid_free s (nat u)"
  "0 < u \<Longrightarrow> u < 64 \<Longrightarrow> get_task_with_userland_tid u = Some (nat u)"
  by (simp_all add: is_valid_userland_tid_def Let_def MAX_TASKS_def smod_int_alt_def AND_MASK_eq_0
      tid_free_def get_task_with_userland_tid_def get_task_with_tid_def)

lemma get_task_less: "get_task_with_userland_tid u = Some t \<Longrightarrow> t < 64"
  by (auto simp: get_task_with_userland_tid_def get_task_with_tid_def MAX_TASKS_def split: if_splits)

text \<open>The sample kernel with task 1 about to send to, or reply to, task \<open>t\<close>.\<close>

definition calling :: "u32 \<Rightarrow> kernel" where
  "calling t = sample_kernel ((sample_tf 1)\<lparr>tf_r1 := t\<rparr>)"

lemma calling_running: "running (calling t) sample_Q sample_M 1"
  unfolding calling_def by (rule sample_running) (use sample_tf_sp [of 1] in simp)

lemma calling_target:
  assumes "t \<in> {1..6}"
  shows "is_valid_userland_tid (calling w) t" "get_task_with_userland_tid t = Some (nat t)"
  using assms sample_tid_free [of "nat t"] by (auto simp: valid_tid_iff calling_def)

text \<open>
  \<open>Send\<close> to a task that waits in \<open>Receive\<close>: the message is copied into the receiver's buffer,
  cut to the buffer's length; the receiver learns the sender's tid and the length (-1 when cut), and
  goes to the end of the ready queue of its priority; the sender waits for the reply; nothing else
  changes place.
\<close>

theorem send_delivers:
  assumes run: "running s Q M c" and f: "t_tf s c = Some f" "is_valid_userland_tid s (sint (tf_r1 f))"
    and r: "get_task_with_userland_tid (sint (tf_r1 f)) = Some r" "t_state s r = TASK_SEND_BLOCKED"
      "t_tf s r = Some g"
  shows "\<exists>s'. syscall_send s = Some s' \<and>
    k_mem s' = store32 (tmemcpy (k_mem s) (tf_r2 g) (tf_r2 f) (sent_length f g))
      (tf_r1 g) (of_int (task_get_userland_tid s c)) \<and>
    t_tf s' = (t_tf s)(r := Some (g\<lparr>tf_r0 := receive_result f g\<rparr>)) \<and>
    t_state s' = (t_state s)(c := TASK_REPLY_BLOCKED, r := TASK_RUNNABLE) \<and>
    kernel_core s' (Q(nat (s_prio s r) := Q (nat (s_prio s r)) @ [r])) M {}"
proof -
  have rc: "r \<noteq> c" using runningD(4) [OF run] r(2) by auto
  obtain s' where s': "send s c r = Some s'" "transmitted s c r s'"
    "t_state s' = (t_state s)(c := TASK_REPLY_BLOCKED, r := TASK_RUNNABLE)"
    "kernel_core s' (Q(nat (s_prio s r) := Q (nat (s_prio s r)) @ [r])) M {c}"
    using running_send_waiting [OF run get_task_less [OF r(1)] r(2)] by blast
  have "t_state s' c = TASK_REPLY_BLOCKED" using rc by (simp add: s'(3))
  from core_drop [OF s'(4), of c] this s' show ?thesis
    using runningD(3) [OF run] f r by (auto simp: syscall_send_def transmitted_def)
qed

theorem send_delivers_witness:
  "\<exists>s'. syscall_send (calling 2) = Some s' \<and> t_state s' 2 = TASK_RUNNABLE \<and>
     t_state s' 1 = TASK_REPLY_BLOCKED \<and>
     t_tf s' 2 = Some ((sample_tf 2)\<lparr>tf_r0 := 8\<rparr>)"
proof -
  have f: "t_tf (calling 2) 1 = Some ((sample_tf 1)\<lparr>tf_r1 := 2\<rparr>)"
    "t_state (calling 2) 2 = TASK_SEND_BLOCKED" "t_tf (calling 2) 2 = Some (sample_tf 2)"
    by (simp_all add: calling_def)
  have r0: "receive_result ((sample_tf 1)\<lparr>tf_r1 := 2\<rparr>) (sample_tf 2) = 8"
    by (simp add: receive_result_def sample_tf_def)
  from send_delivers [OF calling_running f(1) _ _ f(2,3)] calling_target [where t = 2] show ?thesis
    by (auto simp: r0 [unfolded One_nat_def])
qed

text \<open>
  C6: \<open>Send\<close> to a live task that does not wait in \<open>Receive\<close>: the sender is appended to that task's
  send queue, and neither memory nor any trap frame changes.
\<close>

theorem send_queues_up:
  assumes run: "running s Q M c" and f: "t_tf s c = Some f" "is_valid_userland_tid s (sint (tf_r1 f))"
    and r: "get_task_with_userland_tid (sint (tf_r1 f)) = Some r"
      "t_state s r \<noteq> TASK_ZOMBIE" "t_state s r \<noteq> TASK_SEND_BLOCKED"
  shows "\<exists>s'. syscall_send s = Some s' \<and> k_mem s' = k_mem s \<and> t_tf s' = t_tf s \<and>
    t_state s' = (t_state s)(c := TASK_RECEIVE_BLOCKED) \<and>
    kernel_core s' Q (M(r := M r @ [c])) {}"
proof -
  have r64: "r < 64" by (rule get_task_less [OF r(1)])
  obtain s' where s': "send s c r = Some s'" "k_mem s' = k_mem s" "t_tf s' = t_tf s"
    "t_state s' = (t_state s)(c := TASK_RECEIVE_BLOCKED)" "kernel_core s' Q (M(r := M r @ [c])) {c}"
    using running_send_busy [OF run r64 r(2,3)] by blast
  have "t_state s' c = TASK_RECEIVE_BLOCKED \<and> (\<exists>j < 64. c \<in> set ((M(r := M r @ [c])) j))"
    using r64 by (auto simp: s'(4))
  from core_drop [OF s'(5), of c] this s' show ?thesis
    using runningD(3) [OF run] f r(1) by (auto simp: syscall_send_def)
qed

theorem send_queues_up_witness:
  "\<exists>s'. syscall_send (calling 4) = Some s' \<and> t_state s' 1 = TASK_RECEIVE_BLOCKED \<and>
     kernel_core s' sample_Q (sample_M(4 := [1])) {}"
proof -
  have f: "t_tf (calling 4) 1 = Some ((sample_tf 1)\<lparr>tf_r1 := 4\<rparr>)"
    "t_state (calling 4) 4 = TASK_REPLY_BLOCKED" by (simp_all add: calling_def)
  from send_queues_up [OF calling_running f(1), of 4] calling_target [where t = 4] f(2) show ?thesis by auto
qed

text \<open>
  \<open>Receive\<close> of a task with senders in its queue takes the first of them: its message is
  delivered as by \<open>Send\<close>, the sender waits for the reply, the others stay in order.
\<close>

theorem receive_takes_first:
  assumes run: "running s Q M c" and M: "M c = x # xs"
  shows "\<exists>s' f g. syscall_receive s = Some s' \<and> t_tf s x = Some f \<and> t_tf s c = Some g \<and>
    k_mem s' = store32 (tmemcpy (k_mem s) (tf_r2 g) (tf_r2 f) (sent_length f g))
      (tf_r1 g) (of_int (task_get_userland_tid s x)) \<and>
    t_tf s' = (t_tf s)(c := Some (g\<lparr>tf_r0 := receive_result f g\<rparr>)) \<and>
    t_state s' = (t_state s)(x := TASK_REPLY_BLOCKED, c := TASK_RUNNABLE) \<and>
    kernel_core s' Q (M(c := xs)) {c}"
proof -
  obtain s' where s': "receive s c = Some s'" "transmitted s x c s'"
    "t_state s' = (t_state s)(x := TASK_REPLY_BLOCKED, c := TASK_RUNNABLE)"
    "kernel_core s' Q (M(c := xs)) {c}" using running_receive_first [OF run M] by blast
  then show ?thesis using runningD(3) [OF run] by (auto simp: syscall_receive_def transmitted_def)
qed

theorem receive_takes_first_witness:
  "\<exists>s'. syscall_receive (calling 0) = Some s' \<and> t_state s' 3 = TASK_REPLY_BLOCKED \<and>
     kernel_core s' sample_Q (sample_M(1 := [])) {1}"
  using receive_takes_first [OF calling_running, of 3 "[]" 0] by auto

text \<open>
  \<open>Reply\<close> to a task that waits for one: the reply is copied into the buffer it gave to \<open>Send\<close>,
  cut to its length; \<open>Send\<close> returns the length and \<open>Reply\<close> 0, or both -1 when it was cut; the
  sender goes to the end of the ready queue of its priority.
\<close>

theorem reply_delivers:
  assumes run: "running s Q M c" and g: "t_tf s c = Some g" "is_valid_userland_tid s (sint (tf_r1 g))"
    and x: "get_task_with_userland_tid (sint (tf_r1 g)) = Some x" "t_state s x = TASK_REPLY_BLOCKED"
      "t_tf s x = Some f"
  shows "\<exists>s'. syscall_reply s = Some s' \<and>
    k_mem s' = tmemcpy (k_mem s) (tf_r4 f) (tf_r2 g) (if reply_truncated f g then tf_r5 f else tf_r3 g) \<and>
    t_tf s' = (t_tf s)
      (x := Some (f\<lparr>tf_r0 := if reply_truncated f g then -1 else tf_r3 g\<rparr>),
       c := Some (g\<lparr>tf_r0 := if reply_truncated f g then -1 else 0\<rparr>)) \<and>
    t_state s' = (t_state s)(x := TASK_RUNNABLE) \<and>
    kernel_core s' (Q(nat (s_prio s x) := Q (nat (s_prio s x)) @ [x])) M {c}"
proof -
  obtain s' where s': "reply s x c = Some s'" "replied s x c s'"
    "t_state s' = (t_state s)(x := TASK_RUNNABLE)"
    "kernel_core s' (Q(nat (s_prio s x) := Q (nat (s_prio s x)) @ [x])) M {c}"
    using running_reply_waiting [OF run get_task_less [OF x(1)] x(2)] by blast
  have "k_mem s' = tmemcpy (k_mem s) (tf_r4 f) (tf_r2 g) (if reply_truncated f g then tf_r5 f else tf_r3 g) \<and>
    t_tf s' = (t_tf s)
      (x := Some (f\<lparr>tf_r0 := if reply_truncated f g then -1 else tf_r3 g\<rparr>),
       c := Some (g\<lparr>tf_r0 := if reply_truncated f g then -1 else 0\<rparr>))"
    using s'(2) g(1) x(3) by (auto simp: replied_def)
  then show ?thesis using s' runningD(3) [OF run] g x(1) by (auto simp: syscall_reply_def)
qed

theorem reply_delivers_witness:
  "\<exists>s'. syscall_reply (calling 4) = Some s' \<and> t_state s' 4 = TASK_RUNNABLE \<and>
     t_tf s' 4 = Some ((sample_tf 4)\<lparr>tf_r0 := -1\<rparr>)"
proof -
  have f: "t_tf (calling 4) 1 = Some ((sample_tf 1)\<lparr>tf_r1 := 4\<rparr>)"
    "t_state (calling 4) 4 = TASK_REPLY_BLOCKED" "t_tf (calling 4) 4 = Some (sample_tf 4)"
    by (simp_all add: calling_def)
  have "reply_truncated (sample_tf 4) ((sample_tf 1)\<lparr>tf_r1 := 4\<rparr>)"
    by (simp add: reply_truncated_def sample_tf_def)
  with reply_delivers [OF calling_running f(1) _ _ f(2,3)] calling_target [where t = 4] show ?thesis by auto
qed



section \<open>The life of a task\<close>

text \<open>
  \<open>Exit\<close>: the task becomes a zombie without a trap frame; every task waiting in its send queue
  is ready again, its \<open>Send\<close> returning -2; no other task changes; the kernel is consistent again.
\<close>

theorem exit_releases_senders:
  assumes run: "running s Q M c"
  shows "\<exists>s'. syscall_exit s = Some s' \<and> t_state s' c = TASK_ZOMBIE \<and> t_tf s' c = None \<and>
    (\<forall>t. t \<noteq> c \<longrightarrow> t_state s' t = (if t \<in> set (M c) then TASK_RUNNABLE else t_state s t) \<and>
       t_tf s' t = (if t \<in> set (M c) then map_option (tf_r0_update (\<lambda>_. -2)) (t_tf s t) else t_tf s t)) \<and>
    (\<exists>Q' M'. kernel_core s' Q' M' {} \<and> zombies_quiet s' M')"
  using running_exit [OF run] by (fastforce simp: call_outcome_def)

theorem exit_releases_senders_witness:
  "\<exists>s'. syscall_exit (calling 0) = Some s' \<and> t_state s' 1 = TASK_ZOMBIE \<and>
     t_state s' 3 = TASK_RUNNABLE \<and> map_option tf_r0 (t_tf s' 3) = Some (-2)"
proof -
  obtain s' where s': "syscall_exit (calling 0) = Some s'" "t_state s' 1 = TASK_ZOMBIE"
    "\<And>t. t \<noteq> 1 \<Longrightarrow> t_state s' t = (if t \<in> {3} then TASK_RUNNABLE else t_state (calling 0) t) \<and>
       t_tf s' t = (if t \<in> {3} then map_option (tf_r0_update (\<lambda>_. -2)) (t_tf (calling 0) t) else t_tf (calling 0) t)"
    using exit_releases_senders [OF calling_running, of 0] by auto
  from s'(1,2) s'(3) [of 3] show ?thesis by (simp add: calling_def)
qed

text \<open>
  \<open>Create\<close>: -2 when every tid is taken, else -1 for a priority outside 0 to 63, else the new
  task takes the least free tid, is ready at the end of the queue of its priority, and the result is
  its generation times 64 plus the tid, the number \<open>MyTid\<close> will give it.
\<close>

theorem create_result:
  assumes run: "running s Q M c"
  shows "\<exists>s' r. syscall_create s pr code = Some (s', r) \<and>
    (if \<forall>t < 64. \<not> tid_free s t then r = -2 \<and> s' = s
     else if \<not> (0 \<le> pr \<and> pr \<le> 63) then r = -1 \<and> s' = s
     else (\<exists>t < 64. tid_free s t \<and> (\<forall>u < t. \<not> tid_free s u) \<and>
       r = the_next_generation s t * 64 + int t \<and> r = task_get_userland_tid s' t \<and>
       t_state s' = (t_state s)(t := TASK_RUNNABLE) \<and>
       running s' (Q(nat pr := Q (nat pr) @ [t])) M c))"
proof -
  obtain s' r Q' where c: "syscall_create s pr code = Some (s', r)" "running s' Q' M c"
    "r = -2 \<and> s' = s \<and> (\<forall>t < 64. \<not> tid_free s t) \<or> r = -1 \<and> s' = s \<and> \<not> (0 \<le> pr \<and> pr \<le> 63) \<or>
     (\<exists>t < 64. tid_free s t \<and> (\<forall>u < t. \<not> tid_free s u) \<and> t_state s t = TASK_ZOMBIE \<and>
        t_state s' = (t_state s)(t := TASK_RUNNABLE) \<and> Q' = Q(nat pr := Q (nat pr) @ [t]) \<and>
        r = the_next_generation s t * 64 + int t \<and> r = task_get_userland_tid s' t)"
    using running_create [OF run, of pr code] by blast
  have tid: "get_next_available_tid s = -1 \<longleftrightarrow> (\<forall>t < 64. \<not> tid_free s t)"
    by (cases rule: get_next_available_tid_cases [of s]) auto
  have full: "r = -2 \<and> s' = s" if "\<forall>t < 64. \<not> tid_free s t"
    using c(1) that tid by (simp add: syscall_create_def)
  have bad: "r = -1 \<and> s' = s" if "\<not> (\<forall>t < 64. \<not> tid_free s t)" "\<not> (0 \<le> pr \<and> pr \<le> 63)"
    using c(1) that tid by (auto simp: syscall_create_def MAX_PRIORITY_def)
  show ?thesis
  proof (cases "(\<forall>t < 64. \<not> tid_free s t) \<or> \<not> (0 \<le> pr \<and> pr \<le> 63)")
    case True
    then show ?thesis using c(1) full bad by auto
  next
    case False
    with c(3) obtain t where t: "t < 64" "tid_free s t" "\<forall>u < t. \<not> tid_free s u"
      "t_state s' = (t_state s)(t := TASK_RUNNABLE)" "Q' = Q(nat pr := Q (nat pr) @ [t])"
      "r = the_next_generation s t * 64 + int t" "r = task_get_userland_tid s' t" by blast
    have if3: "(if a then x else if b then y else z) = z" if "\<not> (a \<or> b)" for a b x y z :: bool
      using that by simp
    have "r = the_next_generation s t * 64 + int t \<and> r = task_get_userland_tid s' t \<and>
       t_state s' = (t_state s)(t := TASK_RUNNABLE) \<and>
       running s' (Q(nat pr := Q (nat pr) @ [t])) M c" using t c(2) by simp
    then show ?thesis unfolding if3 [OF False] using c(1) t(1-3) by blast
  qed
qed

theorem create_result_witness:
  "\<exists>s'. syscall_create (calling 0) 20 0x8000 = Some (s', 7) \<and> t_state s' 7 = TASK_RUNNABLE"
proof -
  have free: "tid_free (calling 0) t \<longleftrightarrow> 7 \<le> t" if "t < 64" for t
    using that by (simp add: calling_def sample_tid_free)
  then have some: "\<not> (\<forall>t < 64. \<not> tid_free (calling 0) t)" by (auto intro: exI [of _ 7])
  obtain s' r t where c: "syscall_create (calling 0) 20 0x8000 = Some (s', r)" "t < 64"
    "tid_free (calling 0) t" "\<forall>u < t. \<not> tid_free (calling 0) u"
    "r = the_next_generation (calling 0) t * 64 + int t"
    "t_state s' = (t_state (calling 0))(t := TASK_RUNNABLE)"
    using create_result [OF calling_running, of 0 20 "0x8000"] some by auto
  have "7 \<le> t" using c(2,3) free by blast
  moreover have "\<not> 7 < t" using c(2,4) free [of 7] by auto
  ultimately have "t = 7" by simp
  then show ?thesis using c by (simp add: calling_def)
qed

lemma tid_leads_back:
  assumes inv: "tids_inv s" and t: "t < 64" "t_state s t \<noteq> TASK_ZOMBIE"
  shows "get_task_with_userland_tid (task_get_userland_tid s t) = Some t \<and>
    is_valid_userland_tid s (task_get_userland_tid s t) \<and>
    0 < task_get_userland_tid s t \<and> task_get_userland_tid s t < 64000"
proof -
  have g: "1 \<le> the_next_generation s t" "the_next_generation s t \<le> 1000"
    using inv t unfolding tids_inv_def by blast+
  note l = tids_inv_live [OF inv t]
  define k where "k = nat (the_next_generation s t - 1)"
  have k: "the_next_generation s t - 1 = int k" "k < 1000" using g by (auto simp: k_def)
  have u: "task_get_userland_tid s t = int (k * 64 + t)"
    using task_get_userland_tid_eq [OF inv t] by (simp add: k)
  have "int (k * 64 + t) mod 64 = int t" using t(1) by (simp add: zmod_int [symmetric])
  then have "int (k * 64 + t) smod 64 = int t" using l(4) by (auto simp: smod_int_alt_def sgn_if)
  then show ?thesis
    unfolding u using t(1) l(4,5) k(2)
    by (simp add: get_task_with_userland_tid_def get_task_with_tid_def is_valid_userland_tid_def
        MAX_TASKS_def AND_MASK_eq_0 tid_free_def)
qed

text \<open>
  In every reachable state the tids handed to user programs are valid, lead back to the task
  they stand for, and are distinct; they lie between 1 and 63999.
\<close>

theorem userland_tid_roundtrip:
  assumes run: "kernel_run s" and t: "t < 64" "t_state s t \<noteq> TASK_ZOMBIE"
  shows "get_task_with_userland_tid (task_get_userland_tid s t) = Some t \<and>
    is_valid_userland_tid s (task_get_userland_tid s t) \<and>
    0 < task_get_userland_tid s t \<and> task_get_userland_tid s t < 64000"
proof -
  obtain Q M where "kernel_inv s Q M" using kernel_run_inv [OF run] by blast
  then have "tids_inv s" by (simp add: kernel_inv_def kernel_core_def)
  then show ?thesis using t by (rule tid_leads_back)
qed

theorem userland_tid_roundtrip_witness:
  "get_task_with_userland_tid (task_get_userland_tid booted_kernel 1) = Some 1"
  using userland_tid_roundtrip [OF booted(2), of 1] booted(3) by simp

text \<open>
  The generation part of a tid is never checked: a tid that is 64 or a multiple of it away from
  a valid one is as valid and stands for the same descriptor, so the tid of a dead task reaches the
  task that took over its descriptor.
\<close>

theorem stale_tid_accepted:
  assumes "0 < u" "0 < v" "u mod 64 = v mod 64"
  shows "is_valid_userland_tid s u = is_valid_userland_tid s v \<and>
    get_task_with_userland_tid u = get_task_with_userland_tid v"
  using assms
  by (simp add: is_valid_userland_tid_def get_task_with_userland_tid_def MAX_TASKS_def smod_int_alt_def)

theorem stale_tid_accepted_witness:
  "is_valid_userland_tid (calling 0) 66 = is_valid_userland_tid (calling 0) 2 \<and>
   get_task_with_userland_tid 66 = Some 2"
  using stale_tid_accepted [of 66 2 "calling 0"] by (simp add: calling_target(2) [where t = 2])

section \<open>Events\<close>

text \<open>
  \<open>AwaitEvent\<close> for an event of the five nobody waits for: the task is registered for it and
  blocked, and the UART interrupt that brings the event is switched on.
\<close>

theorem awaitevent_blocks:
  assumes run: "running s Q M c" and e: "0 \<le> e" "e \<le> 4" and free: "k_registered s (nat e) = None"
  shows "\<exists>s'. Option.bind (syscall_awaitevent s e) (ret_r0 c) = Some s' \<and>
    t_state s' = (t_state s)(c := TASK_EVENT_BLOCKED) \<and>
    k_registered s' = (k_registered s)(nat e := Some c) \<and>
    k_uart_ctlr s' = k_uart_ctlr (enable_uart_event s e) \<and> kernel_core s' Q M {}"
proof -
  obtain s' where s': "Option.bind (syscall_awaitevent s e) (ret_r0 c) = Some s'"
    "t_state s' = (t_state s)(c := TASK_EVENT_BLOCKED)"
    "t_tf s' = (t_tf s)(c := map_option (tf_r0_update (\<lambda>_. 0xBADDA7A)) (t_tf s c))"
    "k_registered s' = (k_registered s)(nat e := Some c)"
    "k_uart_ctlr s' = k_uart_ctlr (enable_uart_event s e)" "kernel_core s' Q M {c}"
    using running_await_free [OF run e free] by blast
  obtain tf where "t_tf s c = Some tf" using core_tf [OF runningD(1,5) [OF run]] runningD(4) [OF run] by auto
  then have "kernel_core s' Q M ({c} - {c})" by (intro core_drop [OF s'(6)]) (simp add: s'(2,3))
  with s' show ?thesis by auto
qed

theorem awaitevent_blocks_witness:
  "\<exists>s'. Option.bind (syscall_awaitevent (calling 0) 3) (ret_r0 1) = Some s' \<and>
     k_registered s' 3 = Some 1 \<and> k_uart_ctlr s' TRAIN = 0x10"
proof -
  have "k_uart_ctlr (enable_uart_event (calling 0) 3) TRAIN = 0x10"
    by (simp add: enable_uart_event_def enable_uart_interrupt_def UARTRXENABLE_MASK_def calling_def
        sample_kernel_def)
  with awaitevent_blocks [OF calling_running, of 3 0] show ?thesis by (auto simp: calling_def)
qed

text \<open>
  An event for which a task waits makes that task ready with the event's data as the result of
  its \<open>AwaitEvent\<close>, and frees the registration; an event nobody has ever waited for is ignored; one
  that some task has waited for before, but none now, stops the kernel.
\<close>

theorem event_outcome:
  assumes run: "running s Q M c" and e: "0 \<le> e" "e \<le> 4"
  shows "case k_registered s (nat e) of
    Some t \<Rightarrow> (\<exists>s'. event_handle s e d = Some s' \<and> t_state s' t = TASK_RUNNABLE \<and>
        map_option tf_r0 (t_tf s' t) = Some (of_int d) \<and> k_registered s' (nat e) = None \<and>
        (\<exists>Q'. kernel_core s' Q' M {c}))
  | None \<Rightarrow> event_handle s e d = (if k_has_event_been_registered s (nat e) then None else Some s)"
  using event_handle_core [OF runningD(1,2,4) [OF run] e, of d] e
  by (auto simp: event_dropped_def split: option.splits if_splits)

theorem event_outcome_witness:
  "\<exists>s'. event_handle (calling 0) 4 0 = Some s' \<and> t_state s' 5 = TASK_RUNNABLE"
  using event_outcome [OF calling_running, of 4 0 0] by (auto simp: calling_def)

section \<open>Taking a task off its ready queue\<close>

text \<open>
  \<open>scheduler_deregister\<close> of a task that is not on its ready queue, as \<open>Kill\<close> of a blocked task
  does: when exactly one task is ready at that priority, it is that other task that loses its place.
\<close>

theorem deregister_drops_other_task:
  assumes inv: "sched_inv s Q" and p: "s_prio s t = int p" "p \<le> top_priority s" and Q: "Q p = [u]" "u \<noteq> t"
  shows "\<exists>s'. scheduler_deregister s t = Some (s', 0) \<and> sched_inv s' (Q(p := []))"
  using scheduler_deregister_not_ready [OF inv p Q(1)] by blast

theorem deregister_drops_other_task_witness:
  "\<exists>s'. scheduler_deregister (calling 0) 1 = Some (s', 0) \<and> sched_inv s' (\<lambda>_. [])"
proof -
  have "(sample_Q)(10 := []) = (\<lambda>_. [])" by auto
  with deregister_drops_other_task [OF sample_sched_inv, of _ 1 10 6] show ?thesis
    by (auto simp: top_priority_def calling_def)
qed

end
