(* ===== verification/Track_Node.thy ===== *)
theory Track_Node
  imports Trains_Prelude
begin

text \<open>
  The track graph, \<open>lib/track/track_node.h\<close>. A track is the array of its nodes; a pointer to a
  node is an index into it, a pointer to an edge the index of its node and of the edge (0 for
  \<open>DIR_AHEAD\<close> and \<open>DIR_STRAIGHT\<close>, 1 for \<open>DIR_CURVED\<close>), NULL is \<open>None\<close>. Distances are in
  millimetres; no sum of them comes near the range of \<open>int\<close>.
\<close>

datatype node_type = NODE_NONE | NODE_SENSOR | NODE_BRANCH | NODE_MERGE | NODE_ENTER | NODE_EXIT

type_synonym nptr = nat

record track_edge =
  e_reverse :: "(nptr \<times> nat) option"
  e_src :: "nptr option"
  e_dest :: "nptr option"
  e_dist :: int

record track_node =
  n_name :: string
  n_type :: node_type
  n_num :: int
  n_reverse :: "nptr option"
  n_edge0 :: track_edge
  n_edge1 :: track_edge

type_synonym track = "track_node list"

datatype turnout_state = TURNOUT_STRAIGHT | TURNOUT_CURVED | TURNOUT_UNKNOWN

definition TRACK_MAX :: nat where
  "TRACK_MAX = 144"

definition NUM_TURNOUTS :: nat where
  "NUM_TURNOUTS = 22"

text \<open>What \<open>tmemset\<close> with 0 leaves, and the assignments of one node and one edge.\<close>

definition no_edge :: track_edge where
  "no_edge = \<lparr>e_reverse = None, e_src = None, e_dest = None, e_dist = 0\<rparr>"

definition mk_edge :: "nptr \<Rightarrow> nat \<Rightarrow> nptr \<Rightarrow> nptr \<Rightarrow> int \<Rightarrow> track_edge" where
  "mk_edge rnode rdir src dest dist =
     \<lparr>e_reverse = Some (rnode, rdir), e_src = Some src, e_dest = Some dest, e_dist = dist\<rparr>"

definition null_node :: track_node where
  "null_node = \<lparr>n_name = [], n_type = NODE_NONE, n_num = 0, n_reverse = None,
     n_edge0 = no_edge, n_edge1 = no_edge\<rparr>"

definition mk_node ::
  "string \<Rightarrow> node_type \<Rightarrow> int \<Rightarrow> nptr \<Rightarrow> track_edge \<Rightarrow> track_edge \<Rightarrow> track_node" where
  "mk_node name ty num r e0 e1 =
     \<lparr>n_name = name, n_type = ty, n_num = num, n_reverse = Some r, n_edge0 = e0, n_edge1 = e1\<rparr>"

text \<open>Dereferencing: \<open>None\<close> for NULL and outside the array.\<close>

definition node_at :: "track \<Rightarrow> nptr option \<Rightarrow> track_node option" where
  "node_at T p = Option.bind p (array_get T)"

abbreviation AHEAD :: "track_node \<Rightarrow> nptr option" where "AHEAD n \<equiv> e_dest (n_edge0 n)"
abbreviation STRAIGHT :: "track_node \<Rightarrow> nptr option" where "STRAIGHT n \<equiv> e_dest (n_edge0 n)"
abbreviation CURVED :: "track_node \<Rightarrow> nptr option" where "CURVED n \<equiv> e_dest (n_edge1 n)"

end
