(* ===== verification/Track_A.thy ===== *)
theory Track_A
  imports Track_Node
begin

text \<open>
  Track A, \<open>init_tracka\<close> of \<open>lib/track/tracks.c\<close>, one line per node, in runs of nodes.
\<close>

definition tracka_0_17 :: "track_node list" where
  "tracka_0_17 = [
     mk_node ''A1'' NODE_SENSOR 0 1 (mk_edge 102 0 0 103 231) no_edge,
     mk_node ''A2'' NODE_SENSOR 1 0 (mk_edge 132 0 1 133 504) no_edge,
     mk_node ''A3'' NODE_SENSOR 2 3 (mk_edge 107 0 2 106 43) no_edge,
     mk_node ''A4'' NODE_SENSOR 3 2 (mk_edge 30 0 3 31 437) no_edge,
     mk_node ''A5'' NODE_SENSOR 4 5 (mk_edge 84 0 4 85 231) no_edge,
     mk_node ''A6'' NODE_SENSOR 5 4 (mk_edge 24 0 5 25 642) no_edge,
     mk_node ''A7'' NODE_SENSOR 6 7 (mk_edge 26 0 6 27 470) no_edge,
     mk_node ''A8'' NODE_SENSOR 7 6 (mk_edge 82 1 7 83 229) no_edge,
     mk_node ''A9'' NODE_SENSOR 8 9 (mk_edge 22 0 8 23 289) no_edge,
     mk_node ''A10'' NODE_SENSOR 9 8 (mk_edge 80 1 9 81 229) no_edge,
     mk_node ''A11'' NODE_SENSOR 10 11 (mk_edge 80 0 10 81 518) no_edge,
     mk_node ''A12'' NODE_SENSOR 11 10 (mk_edge 138 0 11 139 43) no_edge,
     mk_node ''A13'' NODE_SENSOR 12 13 (mk_edge 86 1 12 87 236) no_edge,
     mk_node ''A14'' NODE_SENSOR 13 12 (mk_edge 130 0 13 131 325) no_edge,
     mk_node ''A15'' NODE_SENSOR 14 15 (mk_edge 134 0 14 135 144) no_edge,
     mk_node ''A16'' NODE_SENSOR 15 14 (mk_edge 86 0 15 87 417) no_edge,
     mk_node ''B1'' NODE_SENSOR 16 17 (mk_edge 60 0 16 61 404) no_edge,
     mk_node ''B2'' NODE_SENSOR 17 16 (mk_edge 110 0 17 111 231) no_edge]"

definition tracka_18_35 :: "track_node list" where
  "tracka_18_35 = [
     mk_node ''B3'' NODE_SENSOR 18 19 (mk_edge 32 0 18 33 201) no_edge,
     mk_node ''B4'' NODE_SENSOR 19 18 (mk_edge 110 1 19 111 239) no_edge,
     mk_node ''B5'' NODE_SENSOR 20 21 (mk_edge 51 0 20 50 404) no_edge,
     mk_node ''B6'' NODE_SENSOR 21 20 (mk_edge 104 0 21 105 231) no_edge,
     mk_node ''B7'' NODE_SENSOR 22 23 (mk_edge 8 0 22 9 289) no_edge,
     mk_node ''B8'' NODE_SENSOR 23 22 (mk_edge 136 0 23 137 43) no_edge,
     mk_node ''B9'' NODE_SENSOR 24 25 (mk_edge 5 0 24 4 642) no_edge,
     mk_node ''B10'' NODE_SENSOR 25 24 (mk_edge 140 0 25 141 50) no_edge,
     mk_node ''B11'' NODE_SENSOR 26 27 (mk_edge 6 0 26 7 470) no_edge,
     mk_node ''B12'' NODE_SENSOR 27 26 (mk_edge 142 0 27 143 50) no_edge,
     mk_node ''B13'' NODE_SENSOR 28 29 (mk_edge 118 1 28 119 239) no_edge,
     mk_node ''B14'' NODE_SENSOR 29 28 (mk_edge 62 0 29 63 201) no_edge,
     mk_node ''B15'' NODE_SENSOR 30 31 (mk_edge 3 0 30 2 437) no_edge,
     mk_node ''B16'' NODE_SENSOR 31 30 (mk_edge 109 0 31 108 50) no_edge,
     mk_node ''C1'' NODE_SENSOR 32 33 (mk_edge 18 0 32 19 201) no_edge,
     mk_node ''C2'' NODE_SENSOR 33 32 (mk_edge 116 1 33 117 246) no_edge,
     mk_node ''C3'' NODE_SENSOR 34 35 (mk_edge 128 0 34 129 514) no_edge,
     mk_node ''C4'' NODE_SENSOR 35 34 (mk_edge 88 0 35 89 239) no_edge]"

definition tracka_36_53 :: "track_node list" where
  "tracka_36_53 = [
     mk_node ''C5'' NODE_SENSOR 36 37 (mk_edge 91 0 36 90 61) no_edge,
     mk_node ''C6'' NODE_SENSOR 37 36 (mk_edge 108 0 37 109 433) no_edge,
     mk_node ''C7'' NODE_SENSOR 38 39 (mk_edge 114 0 38 115 231) no_edge,
     mk_node ''C8'' NODE_SENSOR 39 38 (mk_edge 85 0 39 84 128) no_edge,
     mk_node ''C9'' NODE_SENSOR 40 41 (mk_edge 108 1 40 109 326) no_edge,
     mk_node ''C10'' NODE_SENSOR 41 40 (mk_edge 111 0 41 110 128) no_edge,
     mk_node ''C11'' NODE_SENSOR 42 43 (mk_edge 105 0 42 104 120) no_edge,
     mk_node ''C12'' NODE_SENSOR 43 42 (mk_edge 106 1 43 107 333) no_edge,
     mk_node ''C13'' NODE_SENSOR 44 45 (mk_edge 71 0 44 70 875) no_edge,
     mk_node ''C14'' NODE_SENSOR 45 44 (mk_edge 101 0 45 100 43) no_edge,
     mk_node ''C15'' NODE_SENSOR 46 47 (mk_edge 58 0 46 59 404) no_edge,
     mk_node ''C16'' NODE_SENSOR 47 46 (mk_edge 90 0 47 91 239) no_edge,
     mk_node ''D1'' NODE_SENSOR 48 49 (mk_edge 120 1 48 121 246) no_edge,
     mk_node ''D2'' NODE_SENSOR 49 48 (mk_edge 66 0 49 67 201) no_edge,
     mk_node ''D3'' NODE_SENSOR 50 51 (mk_edge 98 0 50 99 239) no_edge,
     mk_node ''D4'' NODE_SENSOR 51 50 (mk_edge 20 0 51 21 404) no_edge,
     mk_node ''D5'' NODE_SENSOR 52 53 (mk_edge 68 0 52 69 376) no_edge,
     mk_node ''D6'' NODE_SENSOR 53 52 (mk_edge 96 1 53 97 239) no_edge]"

definition tracka_54_71 :: "track_node list" where
  "tracka_54_71 = [
     mk_node ''D7'' NODE_SENSOR 54 55 (mk_edge 96 0 54 97 309) no_edge,
     mk_node ''D8'' NODE_SENSOR 55 54 (mk_edge 70 0 55 71 384) no_edge,
     mk_node ''D9'' NODE_SENSOR 56 57 (mk_edge 74 0 56 75 369) no_edge,
     mk_node ''D10'' NODE_SENSOR 57 56 (mk_edge 94 0 57 95 316) no_edge,
     mk_node ''D11'' NODE_SENSOR 58 59 (mk_edge 46 0 58 47 404) no_edge,
     mk_node ''D12'' NODE_SENSOR 59 58 (mk_edge 92 0 59 93 231) no_edge,
     mk_node ''D13'' NODE_SENSOR 60 61 (mk_edge 16 0 60 17 404) no_edge,
     mk_node ''D14'' NODE_SENSOR 61 60 (mk_edge 112 0 61 113 239) no_edge,
     mk_node ''D15'' NODE_SENSOR 62 63 (mk_edge 29 0 62 28 201) no_edge,
     mk_node ''D16'' NODE_SENSOR 63 62 (mk_edge 112 1 63 113 246) no_edge,
     mk_node ''E1'' NODE_SENSOR 64 65 (mk_edge 122 1 64 123 239) no_edge,
     mk_node ''E2'' NODE_SENSOR 65 64 (mk_edge 79 0 65 78 201) no_edge,
     mk_node ''E3'' NODE_SENSOR 66 67 (mk_edge 49 0 66 48 201) no_edge,
     mk_node ''E4'' NODE_SENSOR 67 66 (mk_edge 98 1 67 99 239) no_edge,
     mk_node ''E5'' NODE_SENSOR 68 69 (mk_edge 52 0 68 53 376) no_edge,
     mk_node ''E6'' NODE_SENSOR 69 68 (mk_edge 99 0 69 98 50) no_edge,
     mk_node ''E7'' NODE_SENSOR 70 71 (mk_edge 55 0 70 54 384) no_edge,
     mk_node ''E8'' NODE_SENSOR 71 70 (mk_edge 44 0 71 45 875) no_edge]"

definition tracka_72_87 :: "track_node list" where
  "tracka_72_87 = [
     mk_node ''E9'' NODE_SENSOR 72 73 (mk_edge 94 1 72 95 239) no_edge,
     mk_node ''E10'' NODE_SENSOR 73 72 (mk_edge 77 0 73 76 376) no_edge,
     mk_node ''E11'' NODE_SENSOR 74 75 (mk_edge 56 0 74 57 369) no_edge,
     mk_node ''E12'' NODE_SENSOR 75 74 (mk_edge 93 0 75 92 50) no_edge,
     mk_node ''E13'' NODE_SENSOR 76 77 (mk_edge 113 0 76 112 43) no_edge,
     mk_node ''E14'' NODE_SENSOR 77 76 (mk_edge 73 0 77 72 376) no_edge,
     mk_node ''E15'' NODE_SENSOR 78 79 (mk_edge 104 1 78 105 246) no_edge,
     mk_node ''E16'' NODE_SENSOR 79 78 (mk_edge 65 0 79 64 201) no_edge,
     mk_node ''BR1'' NODE_BRANCH 1 81 (mk_edge 10 0 80 11 518) (mk_edge 9 0 80 8 229),
     mk_node ''MR1'' NODE_MERGE 1 80 (mk_edge 82 0 81 83 188) no_edge,
     mk_node ''BR2'' NODE_BRANCH 2 83 (mk_edge 81 0 82 80 188) (mk_edge 7 0 82 6 229),
     mk_node ''MR2'' NODE_MERGE 2 82 (mk_edge 84 1 83 85 185) no_edge,
     mk_node ''BR3'' NODE_BRANCH 3 85 (mk_edge 4 0 84 5 231) (mk_edge 83 0 84 82 185),
     mk_node ''MR3'' NODE_MERGE 3 84 (mk_edge 39 0 85 38 128) no_edge,
     mk_node ''BR4'' NODE_BRANCH 4 87 (mk_edge 15 0 86 14 417) (mk_edge 12 0 86 13 236),
     mk_node ''MR4'' NODE_MERGE 4 86 (mk_edge 102 1 87 103 185) no_edge]"

definition tracka_88_101 :: "track_node list" where
  "tracka_88_101 = [
     mk_node ''BR5'' NODE_BRANCH 5 89 (mk_edge 35 0 88 34 239) (mk_edge 92 1 88 93 371),
     mk_node ''MR5'' NODE_MERGE 5 88 (mk_edge 115 0 89 114 155) no_edge,
     mk_node ''BR6'' NODE_BRANCH 6 91 (mk_edge 47 0 90 46 239) (mk_edge 114 1 90 115 371),
     mk_node ''MR6'' NODE_MERGE 6 90 (mk_edge 36 0 91 37 61) no_edge,
     mk_node ''BR7'' NODE_BRANCH 7 93 (mk_edge 59 0 92 58 231) (mk_edge 88 1 92 89 371),
     mk_node ''MR7'' NODE_MERGE 7 92 (mk_edge 75 0 93 74 50) no_edge,
     mk_node ''BR8'' NODE_BRANCH 8 95 (mk_edge 57 0 94 56 316) (mk_edge 72 0 94 73 239),
     mk_node ''MR8'' NODE_MERGE 8 94 (mk_edge 97 0 95 96 155) no_edge,
     mk_node ''BR9'' NODE_BRANCH 9 97 (mk_edge 54 0 96 55 309) (mk_edge 53 0 96 52 239),
     mk_node ''MR9'' NODE_MERGE 9 96 (mk_edge 95 0 97 94 155) no_edge,
     mk_node ''BR10'' NODE_BRANCH 10 99 (mk_edge 50 0 98 51 239) (mk_edge 67 0 98 66 239),
     mk_node ''MR10'' NODE_MERGE 10 98 (mk_edge 69 0 99 68 50) no_edge,
     mk_node ''BR11'' NODE_BRANCH 11 101 (mk_edge 103 0 100 102 188) (mk_edge 106 0 100 107 495),
     mk_node ''MR11'' NODE_MERGE 11 100 (mk_edge 45 0 101 44 43) no_edge]"

definition tracka_102_115 :: "track_node list" where
  "tracka_102_115 = [
     mk_node ''BR12'' NODE_BRANCH 12 103 (mk_edge 0 0 102 1 231) (mk_edge 87 0 102 86 185),
     mk_node ''MR12'' NODE_MERGE 12 102 (mk_edge 100 0 103 101 188) no_edge,
     mk_node ''BR13'' NODE_BRANCH 13 105 (mk_edge 21 0 104 20 231) (mk_edge 78 0 104 79 246),
     mk_node ''MR13'' NODE_MERGE 13 104 (mk_edge 42 0 105 43 120) no_edge,
     mk_node ''BR14'' NODE_BRANCH 14 107 (mk_edge 100 1 106 101 495) (mk_edge 43 0 106 42 333),
     mk_node ''MR14'' NODE_MERGE 14 106 (mk_edge 2 0 107 3 43) no_edge,
     mk_node ''BR15'' NODE_BRANCH 15 109 (mk_edge 37 0 108 36 433) (mk_edge 40 0 108 41 326),
     mk_node ''MR15'' NODE_MERGE 15 108 (mk_edge 31 0 109 30 50) no_edge,
     mk_node ''BR16'' NODE_BRANCH 16 111 (mk_edge 17 0 110 16 231) (mk_edge 19 0 110 18 239),
     mk_node ''MR16'' NODE_MERGE 16 110 (mk_edge 41 0 111 40 128) no_edge,
     mk_node ''BR17'' NODE_BRANCH 17 113 (mk_edge 61 0 112 60 239) (mk_edge 63 0 112 62 246),
     mk_node ''MR17'' NODE_MERGE 17 112 (mk_edge 76 0 113 77 43) no_edge,
     mk_node ''BR18'' NODE_BRANCH 18 115 (mk_edge 38 0 114 39 231) (mk_edge 90 1 114 91 371),
     mk_node ''MR18'' NODE_MERGE 18 114 (mk_edge 89 0 115 88 155) no_edge]"

definition tracka_116_137 :: "track_node list" where
  "tracka_116_137 = [
     mk_node ''BR153'' NODE_BRANCH 153 117 (mk_edge 124 0 116 125 253) (mk_edge 33 0 116 32 246),
     mk_node ''MR153'' NODE_MERGE 153 116 (mk_edge 118 0 117 119 0) no_edge,
     mk_node ''BR154'' NODE_BRANCH 154 119 (mk_edge 117 0 118 116 0) (mk_edge 28 0 118 29 239),
     mk_node ''MR154'' NODE_MERGE 154 118 (mk_edge 123 0 119 122 0) no_edge,
     mk_node ''BR155'' NODE_BRANCH 155 121 (mk_edge 126 0 120 127 282) (mk_edge 48 0 120 49 246),
     mk_node ''MR155'' NODE_MERGE 155 120 (mk_edge 122 0 121 123 0) no_edge,
     mk_node ''BR156'' NODE_BRANCH 156 123 (mk_edge 121 0 122 120 0) (mk_edge 64 0 122 65 239),
     mk_node ''MR156'' NODE_MERGE 156 122 (mk_edge 119 0 123 118 0) no_edge,
     mk_node ''EN1'' NODE_ENTER 0 125 (mk_edge 116 0 124 117 253) no_edge,
     mk_node ''EX1'' NODE_EXIT 0 124 no_edge no_edge,
     mk_node ''EN2'' NODE_ENTER 0 127 (mk_edge 120 0 126 121 282) no_edge,
     mk_node ''EX2'' NODE_EXIT 0 126 no_edge no_edge,
     mk_node ''EN3'' NODE_ENTER 0 129 (mk_edge 34 0 128 35 514) no_edge,
     mk_node ''EX3'' NODE_EXIT 0 128 no_edge no_edge,
     mk_node ''EN4'' NODE_ENTER 0 131 (mk_edge 13 0 130 12 325) no_edge,
     mk_node ''EX4'' NODE_EXIT 0 130 no_edge no_edge,
     mk_node ''EN5'' NODE_ENTER 0 133 (mk_edge 1 0 132 0 504) no_edge,
     mk_node ''EX5'' NODE_EXIT 0 132 no_edge no_edge,
     mk_node ''EN6'' NODE_ENTER 0 135 (mk_edge 14 0 134 15 144) no_edge,
     mk_node ''EX6'' NODE_EXIT 0 134 no_edge no_edge,
     mk_node ''EN7'' NODE_ENTER 0 137 (mk_edge 23 0 136 22 43) no_edge,
     mk_node ''EX7'' NODE_EXIT 0 136 no_edge no_edge]"

definition tracka_138_143 :: "track_node list" where
  "tracka_138_143 = [
     mk_node ''EN8'' NODE_ENTER 0 139 (mk_edge 11 0 138 10 43) no_edge,
     mk_node ''EX8'' NODE_EXIT 0 138 no_edge no_edge,
     mk_node ''EN9'' NODE_ENTER 0 141 (mk_edge 25 0 140 24 50) no_edge,
     mk_node ''EX9'' NODE_EXIT 0 140 no_edge no_edge,
     mk_node ''EN10'' NODE_ENTER 0 143 (mk_edge 27 0 142 26 50) no_edge,
     mk_node ''EX10'' NODE_EXIT 0 142 no_edge no_edge]"

definition init_tracka :: "track_node list" where
  "init_tracka =
     tracka_0_17 @
     tracka_18_35 @
     tracka_36_53 @
     tracka_54_71 @
     tracka_72_87 @
     tracka_88_101 @
     tracka_102_115 @
     tracka_116_137 @
     tracka_138_143"

text \<open>The node at each index.\<close>

lemma length_tracka_parts [simp]:
  "length tracka_0_17 = 18"
  "length tracka_18_35 = 18"
  "length tracka_36_53 = 18"
  "length tracka_54_71 = 18"
  "length tracka_72_87 = 16"
  "length tracka_88_101 = 14"
  "length tracka_102_115 = 14"
  "length tracka_116_137 = 22"
  "length tracka_138_143 = 6"
  by (simp_all add: tracka_0_17_def tracka_18_35_def tracka_36_53_def tracka_54_71_def tracka_72_87_def tracka_88_101_def tracka_102_115_def tracka_116_137_def tracka_138_143_def)

lemma length_init_tracka [simp]: "length init_tracka = 144"
  by (simp add: init_tracka_def)

lemma tracka_0_17_nodes [track_simps]:
  "array_get init_tracka 0 = Some (mk_node ''A1'' NODE_SENSOR 0 1 (mk_edge 102 0 0 103 231) no_edge)"
  "array_get init_tracka 1 = Some (mk_node ''A2'' NODE_SENSOR 1 0 (mk_edge 132 0 1 133 504) no_edge)"
  "array_get init_tracka 2 = Some (mk_node ''A3'' NODE_SENSOR 2 3 (mk_edge 107 0 2 106 43) no_edge)"
  "array_get init_tracka 3 = Some (mk_node ''A4'' NODE_SENSOR 3 2 (mk_edge 30 0 3 31 437) no_edge)"
  "array_get init_tracka 4 = Some (mk_node ''A5'' NODE_SENSOR 4 5 (mk_edge 84 0 4 85 231) no_edge)"
  "array_get init_tracka 5 = Some (mk_node ''A6'' NODE_SENSOR 5 4 (mk_edge 24 0 5 25 642) no_edge)"
  "array_get init_tracka 6 = Some (mk_node ''A7'' NODE_SENSOR 6 7 (mk_edge 26 0 6 27 470) no_edge)"
  "array_get init_tracka 7 = Some (mk_node ''A8'' NODE_SENSOR 7 6 (mk_edge 82 1 7 83 229) no_edge)"
  "array_get init_tracka 8 = Some (mk_node ''A9'' NODE_SENSOR 8 9 (mk_edge 22 0 8 23 289) no_edge)"
  "array_get init_tracka 9 = Some (mk_node ''A10'' NODE_SENSOR 9 8 (mk_edge 80 1 9 81 229) no_edge)"
  "array_get init_tracka 10 = Some (mk_node ''A11'' NODE_SENSOR 10 11 (mk_edge 80 0 10 81 518) no_edge)"
  "array_get init_tracka 11 = Some (mk_node ''A12'' NODE_SENSOR 11 10 (mk_edge 138 0 11 139 43) no_edge)"
  "array_get init_tracka 12 = Some (mk_node ''A13'' NODE_SENSOR 12 13 (mk_edge 86 1 12 87 236) no_edge)"
  "array_get init_tracka 13 = Some (mk_node ''A14'' NODE_SENSOR 13 12 (mk_edge 130 0 13 131 325) no_edge)"
  "array_get init_tracka 14 = Some (mk_node ''A15'' NODE_SENSOR 14 15 (mk_edge 134 0 14 135 144) no_edge)"
  "array_get init_tracka 15 = Some (mk_node ''A16'' NODE_SENSOR 15 14 (mk_edge 86 0 15 87 417) no_edge)"
  "array_get init_tracka 16 = Some (mk_node ''B1'' NODE_SENSOR 16 17 (mk_edge 60 0 16 61 404) no_edge)"
  "array_get init_tracka 17 = Some (mk_node ''B2'' NODE_SENSOR 17 16 (mk_edge 110 0 17 111 231) no_edge)"
  by (simp_all add: array_get_def init_tracka_def nth_append tracka_0_17_def)

lemma tracka_18_35_nodes [track_simps]:
  "array_get init_tracka 18 = Some (mk_node ''B3'' NODE_SENSOR 18 19 (mk_edge 32 0 18 33 201) no_edge)"
  "array_get init_tracka 19 = Some (mk_node ''B4'' NODE_SENSOR 19 18 (mk_edge 110 1 19 111 239) no_edge)"
  "array_get init_tracka 20 = Some (mk_node ''B5'' NODE_SENSOR 20 21 (mk_edge 51 0 20 50 404) no_edge)"
  "array_get init_tracka 21 = Some (mk_node ''B6'' NODE_SENSOR 21 20 (mk_edge 104 0 21 105 231) no_edge)"
  "array_get init_tracka 22 = Some (mk_node ''B7'' NODE_SENSOR 22 23 (mk_edge 8 0 22 9 289) no_edge)"
  "array_get init_tracka 23 = Some (mk_node ''B8'' NODE_SENSOR 23 22 (mk_edge 136 0 23 137 43) no_edge)"
  "array_get init_tracka 24 = Some (mk_node ''B9'' NODE_SENSOR 24 25 (mk_edge 5 0 24 4 642) no_edge)"
  "array_get init_tracka 25 = Some (mk_node ''B10'' NODE_SENSOR 25 24 (mk_edge 140 0 25 141 50) no_edge)"
  "array_get init_tracka 26 = Some (mk_node ''B11'' NODE_SENSOR 26 27 (mk_edge 6 0 26 7 470) no_edge)"
  "array_get init_tracka 27 = Some (mk_node ''B12'' NODE_SENSOR 27 26 (mk_edge 142 0 27 143 50) no_edge)"
  "array_get init_tracka 28 = Some (mk_node ''B13'' NODE_SENSOR 28 29 (mk_edge 118 1 28 119 239) no_edge)"
  "array_get init_tracka 29 = Some (mk_node ''B14'' NODE_SENSOR 29 28 (mk_edge 62 0 29 63 201) no_edge)"
  "array_get init_tracka 30 = Some (mk_node ''B15'' NODE_SENSOR 30 31 (mk_edge 3 0 30 2 437) no_edge)"
  "array_get init_tracka 31 = Some (mk_node ''B16'' NODE_SENSOR 31 30 (mk_edge 109 0 31 108 50) no_edge)"
  "array_get init_tracka 32 = Some (mk_node ''C1'' NODE_SENSOR 32 33 (mk_edge 18 0 32 19 201) no_edge)"
  "array_get init_tracka 33 = Some (mk_node ''C2'' NODE_SENSOR 33 32 (mk_edge 116 1 33 117 246) no_edge)"
  "array_get init_tracka 34 = Some (mk_node ''C3'' NODE_SENSOR 34 35 (mk_edge 128 0 34 129 514) no_edge)"
  "array_get init_tracka 35 = Some (mk_node ''C4'' NODE_SENSOR 35 34 (mk_edge 88 0 35 89 239) no_edge)"
  by (simp_all add: array_get_def init_tracka_def nth_append tracka_18_35_def)

lemma tracka_36_53_nodes [track_simps]:
  "array_get init_tracka 36 = Some (mk_node ''C5'' NODE_SENSOR 36 37 (mk_edge 91 0 36 90 61) no_edge)"
  "array_get init_tracka 37 = Some (mk_node ''C6'' NODE_SENSOR 37 36 (mk_edge 108 0 37 109 433) no_edge)"
  "array_get init_tracka 38 = Some (mk_node ''C7'' NODE_SENSOR 38 39 (mk_edge 114 0 38 115 231) no_edge)"
  "array_get init_tracka 39 = Some (mk_node ''C8'' NODE_SENSOR 39 38 (mk_edge 85 0 39 84 128) no_edge)"
  "array_get init_tracka 40 = Some (mk_node ''C9'' NODE_SENSOR 40 41 (mk_edge 108 1 40 109 326) no_edge)"
  "array_get init_tracka 41 = Some (mk_node ''C10'' NODE_SENSOR 41 40 (mk_edge 111 0 41 110 128) no_edge)"
  "array_get init_tracka 42 = Some (mk_node ''C11'' NODE_SENSOR 42 43 (mk_edge 105 0 42 104 120) no_edge)"
  "array_get init_tracka 43 = Some (mk_node ''C12'' NODE_SENSOR 43 42 (mk_edge 106 1 43 107 333) no_edge)"
  "array_get init_tracka 44 = Some (mk_node ''C13'' NODE_SENSOR 44 45 (mk_edge 71 0 44 70 875) no_edge)"
  "array_get init_tracka 45 = Some (mk_node ''C14'' NODE_SENSOR 45 44 (mk_edge 101 0 45 100 43) no_edge)"
  "array_get init_tracka 46 = Some (mk_node ''C15'' NODE_SENSOR 46 47 (mk_edge 58 0 46 59 404) no_edge)"
  "array_get init_tracka 47 = Some (mk_node ''C16'' NODE_SENSOR 47 46 (mk_edge 90 0 47 91 239) no_edge)"
  "array_get init_tracka 48 = Some (mk_node ''D1'' NODE_SENSOR 48 49 (mk_edge 120 1 48 121 246) no_edge)"
  "array_get init_tracka 49 = Some (mk_node ''D2'' NODE_SENSOR 49 48 (mk_edge 66 0 49 67 201) no_edge)"
  "array_get init_tracka 50 = Some (mk_node ''D3'' NODE_SENSOR 50 51 (mk_edge 98 0 50 99 239) no_edge)"
  "array_get init_tracka 51 = Some (mk_node ''D4'' NODE_SENSOR 51 50 (mk_edge 20 0 51 21 404) no_edge)"
  "array_get init_tracka 52 = Some (mk_node ''D5'' NODE_SENSOR 52 53 (mk_edge 68 0 52 69 376) no_edge)"
  "array_get init_tracka 53 = Some (mk_node ''D6'' NODE_SENSOR 53 52 (mk_edge 96 1 53 97 239) no_edge)"
  by (simp_all add: array_get_def init_tracka_def nth_append tracka_36_53_def)

lemma tracka_54_71_nodes [track_simps]:
  "array_get init_tracka 54 = Some (mk_node ''D7'' NODE_SENSOR 54 55 (mk_edge 96 0 54 97 309) no_edge)"
  "array_get init_tracka 55 = Some (mk_node ''D8'' NODE_SENSOR 55 54 (mk_edge 70 0 55 71 384) no_edge)"
  "array_get init_tracka 56 = Some (mk_node ''D9'' NODE_SENSOR 56 57 (mk_edge 74 0 56 75 369) no_edge)"
  "array_get init_tracka 57 = Some (mk_node ''D10'' NODE_SENSOR 57 56 (mk_edge 94 0 57 95 316) no_edge)"
  "array_get init_tracka 58 = Some (mk_node ''D11'' NODE_SENSOR 58 59 (mk_edge 46 0 58 47 404) no_edge)"
  "array_get init_tracka 59 = Some (mk_node ''D12'' NODE_SENSOR 59 58 (mk_edge 92 0 59 93 231) no_edge)"
  "array_get init_tracka 60 = Some (mk_node ''D13'' NODE_SENSOR 60 61 (mk_edge 16 0 60 17 404) no_edge)"
  "array_get init_tracka 61 = Some (mk_node ''D14'' NODE_SENSOR 61 60 (mk_edge 112 0 61 113 239) no_edge)"
  "array_get init_tracka 62 = Some (mk_node ''D15'' NODE_SENSOR 62 63 (mk_edge 29 0 62 28 201) no_edge)"
  "array_get init_tracka 63 = Some (mk_node ''D16'' NODE_SENSOR 63 62 (mk_edge 112 1 63 113 246) no_edge)"
  "array_get init_tracka 64 = Some (mk_node ''E1'' NODE_SENSOR 64 65 (mk_edge 122 1 64 123 239) no_edge)"
  "array_get init_tracka 65 = Some (mk_node ''E2'' NODE_SENSOR 65 64 (mk_edge 79 0 65 78 201) no_edge)"
  "array_get init_tracka 66 = Some (mk_node ''E3'' NODE_SENSOR 66 67 (mk_edge 49 0 66 48 201) no_edge)"
  "array_get init_tracka 67 = Some (mk_node ''E4'' NODE_SENSOR 67 66 (mk_edge 98 1 67 99 239) no_edge)"
  "array_get init_tracka 68 = Some (mk_node ''E5'' NODE_SENSOR 68 69 (mk_edge 52 0 68 53 376) no_edge)"
  "array_get init_tracka 69 = Some (mk_node ''E6'' NODE_SENSOR 69 68 (mk_edge 99 0 69 98 50) no_edge)"
  "array_get init_tracka 70 = Some (mk_node ''E7'' NODE_SENSOR 70 71 (mk_edge 55 0 70 54 384) no_edge)"
  "array_get init_tracka 71 = Some (mk_node ''E8'' NODE_SENSOR 71 70 (mk_edge 44 0 71 45 875) no_edge)"
  by (simp_all add: array_get_def init_tracka_def nth_append tracka_54_71_def)

lemma tracka_72_87_nodes [track_simps]:
  "array_get init_tracka 72 = Some (mk_node ''E9'' NODE_SENSOR 72 73 (mk_edge 94 1 72 95 239) no_edge)"
  "array_get init_tracka 73 = Some (mk_node ''E10'' NODE_SENSOR 73 72 (mk_edge 77 0 73 76 376) no_edge)"
  "array_get init_tracka 74 = Some (mk_node ''E11'' NODE_SENSOR 74 75 (mk_edge 56 0 74 57 369) no_edge)"
  "array_get init_tracka 75 = Some (mk_node ''E12'' NODE_SENSOR 75 74 (mk_edge 93 0 75 92 50) no_edge)"
  "array_get init_tracka 76 = Some (mk_node ''E13'' NODE_SENSOR 76 77 (mk_edge 113 0 76 112 43) no_edge)"
  "array_get init_tracka 77 = Some (mk_node ''E14'' NODE_SENSOR 77 76 (mk_edge 73 0 77 72 376) no_edge)"
  "array_get init_tracka 78 = Some (mk_node ''E15'' NODE_SENSOR 78 79 (mk_edge 104 1 78 105 246) no_edge)"
  "array_get init_tracka 79 = Some (mk_node ''E16'' NODE_SENSOR 79 78 (mk_edge 65 0 79 64 201) no_edge)"
  "array_get init_tracka 80 = Some (mk_node ''BR1'' NODE_BRANCH 1 81 (mk_edge 10 0 80 11 518) (mk_edge 9 0 80 8 229))"
  "array_get init_tracka 81 = Some (mk_node ''MR1'' NODE_MERGE 1 80 (mk_edge 82 0 81 83 188) no_edge)"
  "array_get init_tracka 82 = Some (mk_node ''BR2'' NODE_BRANCH 2 83 (mk_edge 81 0 82 80 188) (mk_edge 7 0 82 6 229))"
  "array_get init_tracka 83 = Some (mk_node ''MR2'' NODE_MERGE 2 82 (mk_edge 84 1 83 85 185) no_edge)"
  "array_get init_tracka 84 = Some (mk_node ''BR3'' NODE_BRANCH 3 85 (mk_edge 4 0 84 5 231) (mk_edge 83 0 84 82 185))"
  "array_get init_tracka 85 = Some (mk_node ''MR3'' NODE_MERGE 3 84 (mk_edge 39 0 85 38 128) no_edge)"
  "array_get init_tracka 86 = Some (mk_node ''BR4'' NODE_BRANCH 4 87 (mk_edge 15 0 86 14 417) (mk_edge 12 0 86 13 236))"
  "array_get init_tracka 87 = Some (mk_node ''MR4'' NODE_MERGE 4 86 (mk_edge 102 1 87 103 185) no_edge)"
  by (simp_all add: array_get_def init_tracka_def nth_append tracka_72_87_def)

lemma tracka_88_101_nodes [track_simps]:
  "array_get init_tracka 88 = Some (mk_node ''BR5'' NODE_BRANCH 5 89 (mk_edge 35 0 88 34 239) (mk_edge 92 1 88 93 371))"
  "array_get init_tracka 89 = Some (mk_node ''MR5'' NODE_MERGE 5 88 (mk_edge 115 0 89 114 155) no_edge)"
  "array_get init_tracka 90 = Some (mk_node ''BR6'' NODE_BRANCH 6 91 (mk_edge 47 0 90 46 239) (mk_edge 114 1 90 115 371))"
  "array_get init_tracka 91 = Some (mk_node ''MR6'' NODE_MERGE 6 90 (mk_edge 36 0 91 37 61) no_edge)"
  "array_get init_tracka 92 = Some (mk_node ''BR7'' NODE_BRANCH 7 93 (mk_edge 59 0 92 58 231) (mk_edge 88 1 92 89 371))"
  "array_get init_tracka 93 = Some (mk_node ''MR7'' NODE_MERGE 7 92 (mk_edge 75 0 93 74 50) no_edge)"
  "array_get init_tracka 94 = Some (mk_node ''BR8'' NODE_BRANCH 8 95 (mk_edge 57 0 94 56 316) (mk_edge 72 0 94 73 239))"
  "array_get init_tracka 95 = Some (mk_node ''MR8'' NODE_MERGE 8 94 (mk_edge 97 0 95 96 155) no_edge)"
  "array_get init_tracka 96 = Some (mk_node ''BR9'' NODE_BRANCH 9 97 (mk_edge 54 0 96 55 309) (mk_edge 53 0 96 52 239))"
  "array_get init_tracka 97 = Some (mk_node ''MR9'' NODE_MERGE 9 96 (mk_edge 95 0 97 94 155) no_edge)"
  "array_get init_tracka 98 = Some (mk_node ''BR10'' NODE_BRANCH 10 99 (mk_edge 50 0 98 51 239) (mk_edge 67 0 98 66 239))"
  "array_get init_tracka 99 = Some (mk_node ''MR10'' NODE_MERGE 10 98 (mk_edge 69 0 99 68 50) no_edge)"
  "array_get init_tracka 100 = Some (mk_node ''BR11'' NODE_BRANCH 11 101 (mk_edge 103 0 100 102 188) (mk_edge 106 0 100 107 495))"
  "array_get init_tracka 101 = Some (mk_node ''MR11'' NODE_MERGE 11 100 (mk_edge 45 0 101 44 43) no_edge)"
  by (simp_all add: array_get_def init_tracka_def nth_append tracka_88_101_def)

lemma tracka_102_115_nodes [track_simps]:
  "array_get init_tracka 102 = Some (mk_node ''BR12'' NODE_BRANCH 12 103 (mk_edge 0 0 102 1 231) (mk_edge 87 0 102 86 185))"
  "array_get init_tracka 103 = Some (mk_node ''MR12'' NODE_MERGE 12 102 (mk_edge 100 0 103 101 188) no_edge)"
  "array_get init_tracka 104 = Some (mk_node ''BR13'' NODE_BRANCH 13 105 (mk_edge 21 0 104 20 231) (mk_edge 78 0 104 79 246))"
  "array_get init_tracka 105 = Some (mk_node ''MR13'' NODE_MERGE 13 104 (mk_edge 42 0 105 43 120) no_edge)"
  "array_get init_tracka 106 = Some (mk_node ''BR14'' NODE_BRANCH 14 107 (mk_edge 100 1 106 101 495) (mk_edge 43 0 106 42 333))"
  "array_get init_tracka 107 = Some (mk_node ''MR14'' NODE_MERGE 14 106 (mk_edge 2 0 107 3 43) no_edge)"
  "array_get init_tracka 108 = Some (mk_node ''BR15'' NODE_BRANCH 15 109 (mk_edge 37 0 108 36 433) (mk_edge 40 0 108 41 326))"
  "array_get init_tracka 109 = Some (mk_node ''MR15'' NODE_MERGE 15 108 (mk_edge 31 0 109 30 50) no_edge)"
  "array_get init_tracka 110 = Some (mk_node ''BR16'' NODE_BRANCH 16 111 (mk_edge 17 0 110 16 231) (mk_edge 19 0 110 18 239))"
  "array_get init_tracka 111 = Some (mk_node ''MR16'' NODE_MERGE 16 110 (mk_edge 41 0 111 40 128) no_edge)"
  "array_get init_tracka 112 = Some (mk_node ''BR17'' NODE_BRANCH 17 113 (mk_edge 61 0 112 60 239) (mk_edge 63 0 112 62 246))"
  "array_get init_tracka 113 = Some (mk_node ''MR17'' NODE_MERGE 17 112 (mk_edge 76 0 113 77 43) no_edge)"
  "array_get init_tracka 114 = Some (mk_node ''BR18'' NODE_BRANCH 18 115 (mk_edge 38 0 114 39 231) (mk_edge 90 1 114 91 371))"
  "array_get init_tracka 115 = Some (mk_node ''MR18'' NODE_MERGE 18 114 (mk_edge 89 0 115 88 155) no_edge)"
  by (simp_all add: array_get_def init_tracka_def nth_append tracka_102_115_def)

lemma tracka_116_137_nodes [track_simps]:
  "array_get init_tracka 116 = Some (mk_node ''BR153'' NODE_BRANCH 153 117 (mk_edge 124 0 116 125 253) (mk_edge 33 0 116 32 246))"
  "array_get init_tracka 117 = Some (mk_node ''MR153'' NODE_MERGE 153 116 (mk_edge 118 0 117 119 0) no_edge)"
  "array_get init_tracka 118 = Some (mk_node ''BR154'' NODE_BRANCH 154 119 (mk_edge 117 0 118 116 0) (mk_edge 28 0 118 29 239))"
  "array_get init_tracka 119 = Some (mk_node ''MR154'' NODE_MERGE 154 118 (mk_edge 123 0 119 122 0) no_edge)"
  "array_get init_tracka 120 = Some (mk_node ''BR155'' NODE_BRANCH 155 121 (mk_edge 126 0 120 127 282) (mk_edge 48 0 120 49 246))"
  "array_get init_tracka 121 = Some (mk_node ''MR155'' NODE_MERGE 155 120 (mk_edge 122 0 121 123 0) no_edge)"
  "array_get init_tracka 122 = Some (mk_node ''BR156'' NODE_BRANCH 156 123 (mk_edge 121 0 122 120 0) (mk_edge 64 0 122 65 239))"
  "array_get init_tracka 123 = Some (mk_node ''MR156'' NODE_MERGE 156 122 (mk_edge 119 0 123 118 0) no_edge)"
  "array_get init_tracka 124 = Some (mk_node ''EN1'' NODE_ENTER 0 125 (mk_edge 116 0 124 117 253) no_edge)"
  "array_get init_tracka 125 = Some (mk_node ''EX1'' NODE_EXIT 0 124 no_edge no_edge)"
  "array_get init_tracka 126 = Some (mk_node ''EN2'' NODE_ENTER 0 127 (mk_edge 120 0 126 121 282) no_edge)"
  "array_get init_tracka 127 = Some (mk_node ''EX2'' NODE_EXIT 0 126 no_edge no_edge)"
  "array_get init_tracka 128 = Some (mk_node ''EN3'' NODE_ENTER 0 129 (mk_edge 34 0 128 35 514) no_edge)"
  "array_get init_tracka 129 = Some (mk_node ''EX3'' NODE_EXIT 0 128 no_edge no_edge)"
  "array_get init_tracka 130 = Some (mk_node ''EN4'' NODE_ENTER 0 131 (mk_edge 13 0 130 12 325) no_edge)"
  "array_get init_tracka 131 = Some (mk_node ''EX4'' NODE_EXIT 0 130 no_edge no_edge)"
  "array_get init_tracka 132 = Some (mk_node ''EN5'' NODE_ENTER 0 133 (mk_edge 1 0 132 0 504) no_edge)"
  "array_get init_tracka 133 = Some (mk_node ''EX5'' NODE_EXIT 0 132 no_edge no_edge)"
  "array_get init_tracka 134 = Some (mk_node ''EN6'' NODE_ENTER 0 135 (mk_edge 14 0 134 15 144) no_edge)"
  "array_get init_tracka 135 = Some (mk_node ''EX6'' NODE_EXIT 0 134 no_edge no_edge)"
  "array_get init_tracka 136 = Some (mk_node ''EN7'' NODE_ENTER 0 137 (mk_edge 23 0 136 22 43) no_edge)"
  "array_get init_tracka 137 = Some (mk_node ''EX7'' NODE_EXIT 0 136 no_edge no_edge)"
  by (simp_all add: array_get_def init_tracka_def nth_append tracka_116_137_def)

lemma tracka_138_143_nodes [track_simps]:
  "array_get init_tracka 138 = Some (mk_node ''EN8'' NODE_ENTER 0 139 (mk_edge 11 0 138 10 43) no_edge)"
  "array_get init_tracka 139 = Some (mk_node ''EX8'' NODE_EXIT 0 138 no_edge no_edge)"
  "array_get init_tracka 140 = Some (mk_node ''EN9'' NODE_ENTER 0 141 (mk_edge 25 0 140 24 50) no_edge)"
  "array_get init_tracka 141 = Some (mk_node ''EX9'' NODE_EXIT 0 140 no_edge no_edge)"
  "array_get init_tracka 142 = Some (mk_node ''EN10'' NODE_ENTER 0 143 (mk_edge 27 0 142 26 50) no_edge)"
  "array_get init_tracka 143 = Some (mk_node ''EX10'' NODE_EXIT 0 142 no_edge no_edge)"
  by (simp_all add: array_get_def init_tracka_def nth_append tracka_138_143_def)

end
