(* ===== verification/Track_Data.thy ===== *)
theory Track_Data
  imports Track_A Track_B
begin

text \<open>
  Queries on the track, \<open>lib/track/track_data.c\<close>. A \<open>track_node *\<close> result or argument is
  \<open>nptr option\<close> with \<open>None\<close> for NULL; around it, \<open>None\<close> is undefined behaviour or a failed
  \<open>Assert\<close>. The two flavours of NULL never mix: a function whose result is a pointer has type
  \<open>nptr option option\<close>.
\<close>

section \<open>Turnouts\<close>

definition turnout_num_to_map_offset :: "u32 \<Rightarrow> u32" where
  "turnout_num_to_map_offset turnout =
     (if turnout < 153 then turnout - 1 else turnout - (153 - 18))"

definition map_offset_to_turnout :: "u32 \<Rightarrow> u32" where
  "map_offset_to_turnout offset = (if offset < 18 then offset + 1 else offset + (153 - 18))"

definition is_valid_turnout_num :: "u32 \<Rightarrow> bool" where
  "is_valid_turnout_num turnout \<longleftrightarrow>
     turnout \<ge> 1 \<and> turnout \<le> 18 \<or> turnout \<ge> 153 \<and> turnout \<le> 156"

definition turnout_num_to_node :: "u32 \<Rightarrow> nptr" where
  "turnout_num_to_node num = 80 + 2 * unat (turnout_num_to_map_offset num)"

definition set_turnout_permanently :: "track \<Rightarrow> u32 \<Rightarrow> turnout_state \<Rightarrow> track option" where
  "set_turnout_permanently nodes turnout state = do {
     let i = 80 + 2 * unat (turnout_num_to_map_offset turnout);
     node \<leftarrow> array_get nodes i;
     guard_opt (n_type node = NODE_BRANCH);
     case state of
       TURNOUT_STRAIGHT \<Rightarrow> array_set nodes i (node\<lparr>n_edge1 := n_edge0 node\<rparr>)
     | TURNOUT_CURVED \<Rightarrow> array_set nodes i (node\<lparr>n_edge0 := n_edge1 node\<rparr>)
     | TURNOUT_UNKNOWN \<Rightarrow> None
   }"

text \<open>The two tracks of \<open>init_track\<close>; the lab build selects track B.\<close>

definition init_track_b :: "track option" where
  "init_track_b = do {
     t1 \<leftarrow> set_turnout_permanently init_trackb 17 TURNOUT_CURVED;
     t2 \<leftarrow> set_turnout_permanently t1 155 TURNOUT_CURVED;
     set_turnout_permanently t2 156 TURNOUT_STRAIGHT
   }"

section \<open>Sensors\<close>

definition sensor_bank :: "u32 \<Rightarrow> u8 option" where
  "sensor_bank offset = do { guard_opt (offset \<le> 80); Some (65 + ucast (offset div 16)) }"

definition sensor_index :: "u32 \<Rightarrow> u32 option" where
  "sensor_index offset = do { guard_opt (offset \<le> 80); Some (1 + offset mod 16) }"

definition sensor_data_element :: "u32 \<Rightarrow> u32 option" where
  "sensor_data_element offset = do {
     guard_opt (offset \<le> 80);
     bank \<leftarrow> sensor_bank offset;
     index \<leftarrow> sensor_index offset;
     Some (2 * (ucast bank - 65) + (if index \<ge> 9 then 1 else 0))
   }"

definition sensor_data_mask :: "u32 \<Rightarrow> u32 option" where
  "sensor_data_mask offset = do {
     guard_opt (offset \<le> 80);
     index \<leftarrow> sensor_index offset;
     Some (push_bit (unat ((16 - index) mod 8)) 1)
   }"

definition sensor_offset :: "u8 \<Rightarrow> u32 \<Rightarrow> u32" where
  "sensor_offset bank index =
     16 * (ucast bank - 65) + (if index \<ge> 9 then 8 else 0) + (index - 1) mod 8"

definition find_sensor :: "track \<Rightarrow> nat \<Rightarrow> u32 \<Rightarrow> nptr option" where
  "find_sensor T nodes offset =
     find (\<lambda>i. n_type (T ! i) = NODE_SENSOR \<and> n_num (T ! i) = sint offset) [0..<nodes]"

section \<open>Distances and reachability\<close>

definition FIND_LIMIT :: nat where
  "FIND_LIMIT = 5"

fun distance_between_track_nodes_helper ::
  "track \<Rightarrow> nptr option \<Rightarrow> nptr option \<Rightarrow> int \<Rightarrow> nat \<Rightarrow> int option" where
  "distance_between_track_nodes_helper T start finish tot limit =
     (if start = finish then Some tot
      else case limit of
        0 \<Rightarrow> Some (-1)
      | Suc l \<Rightarrow> do {
          n \<leftarrow> node_at T start;
          if n_type n = NODE_ENTER \<or> n_type n = NODE_SENSOR \<or> n_type n = NODE_MERGE then
            distance_between_track_nodes_helper T (AHEAD n) finish (tot + e_dist (n_edge0 n)) l
          else if n_type n = NODE_BRANCH then do {
            result \<leftarrow> distance_between_track_nodes_helper T (STRAIGHT n) finish (tot + e_dist (n_edge0 n)) l;
            if result \<noteq> -1 then Some result
            else distance_between_track_nodes_helper T (CURVED n) finish (tot + e_dist (n_edge1 n)) l
          }
          else Some (-1)
        })"

definition distance_between_track_nodes :: "track \<Rightarrow> nptr option \<Rightarrow> nptr option \<Rightarrow> int option" where
  "distance_between_track_nodes T start finish =
     (if start = finish then Some 0
      else do {
        result \<leftarrow> distance_between_track_nodes_helper T start finish 0 FIND_LIMIT;
        guard_opt (result \<noteq> -1);
        Some result
      })"

text \<open>\<open>a || b\<close> of two calls: the second is made only when the first is false.\<close>

definition or_else :: "bool option \<Rightarrow> bool option \<Rightarrow> bool option" where
  "or_else a b = Option.bind a (\<lambda>x. if x then Some True else b)"

fun sensor_is_followed_by_helper :: "track \<Rightarrow> nptr option \<Rightarrow> nptr option \<Rightarrow> nat \<Rightarrow> bool option" where
  "sensor_is_followed_by_helper T start finish limit =
     (if start = finish then Some True
      else case limit of
        0 \<Rightarrow> Some False
      | Suc l \<Rightarrow> do {
          n \<leftarrow> node_at T start;
          if n_type n = NODE_MERGE then sensor_is_followed_by_helper T (AHEAD n) finish l
          else if n_type n = NODE_BRANCH then
            or_else (sensor_is_followed_by_helper T (STRAIGHT n) finish l)
              (sensor_is_followed_by_helper T (CURVED n) finish l)
          else Some False
        })"

definition sensor_is_followed_by :: "track \<Rightarrow> nat \<Rightarrow> u32 \<Rightarrow> u32 \<Rightarrow> bool option" where
  "sensor_is_followed_by T nodes start finish = do {
     guard_opt (start \<le> 80);
     guard_opt (finish \<le> 80);
     s \<leftarrow> find_sensor T nodes start;
     n \<leftarrow> node_at T (Some s);
     if n_type n = NODE_SENSOR then do {
       e \<leftarrow> find_sensor T nodes finish;
       sensor_is_followed_by_helper T (AHEAD n) (Some e) FIND_LIMIT
     }
     else Some False
   }"

definition sensors_are_paired :: "track \<Rightarrow> nat \<Rightarrow> u32 \<Rightarrow> u32 \<Rightarrow> bool option" where
  "sensors_are_paired T nodes first second = do {
     guard_opt (first \<le> 80);
     guard_opt (second \<le> 80);
     f \<leftarrow> find_sensor T nodes first;
     n \<leftarrow> node_at T (Some f);
     s \<leftarrow> find_sensor T nodes second;
     Some (n_reverse n = Some s)
   }"

fun sensor_may_be_seen_next_helper ::
  "track \<Rightarrow> nptr option \<Rightarrow> nptr option \<Rightarrow> nat \<Rightarrow> bool \<Rightarrow> bool \<Rightarrow> bool option" where
  "sensor_may_be_seen_next_helper T start finish limit reversed dead =
     (if start = finish then Some True
      else case limit of
        0 \<Rightarrow> Some False
      | Suc l \<Rightarrow> do {
          n \<leftarrow> node_at T start;
          case n_type n of
            NODE_SENSOR \<Rightarrow>
              if dead then Some False
              else or_else (sensor_may_be_seen_next_helper T (AHEAD n) finish l reversed True)
                (if reversed then Some False
                 else do {
                   r \<leftarrow> node_at T (n_reverse n);
                   sensor_may_be_seen_next_helper T (AHEAD r) finish l True True
                 })
          | NODE_MERGE \<Rightarrow>
              or_else (sensor_may_be_seen_next_helper T (AHEAD n) finish l reversed dead)
                (if reversed then Some False
                 else sensor_may_be_seen_next_helper T (n_reverse n) finish l True dead)
          | NODE_BRANCH \<Rightarrow>
              or_else (sensor_may_be_seen_next_helper T (STRAIGHT n) finish l reversed dead)
                (or_else (sensor_may_be_seen_next_helper T (CURVED n) finish l reversed dead)
                  (if reversed then Some False
                   else sensor_may_be_seen_next_helper T (n_reverse n) finish l True dead))
          | NODE_ENTER \<Rightarrow> sensor_may_be_seen_next_helper T (AHEAD n) finish l reversed dead
          | NODE_EXIT \<Rightarrow>
              if reversed then Some False
              else sensor_may_be_seen_next_helper T (n_reverse n) finish l True dead
          | NODE_NONE \<Rightarrow> Some False
        })"

definition sensor_may_be_seen_next :: "track \<Rightarrow> nat \<Rightarrow> u32 \<Rightarrow> u32 \<Rightarrow> bool option" where
  "sensor_may_be_seen_next T nodes start finish = do {
     guard_opt (start \<le> 80);
     guard_opt (finish \<le> 80);
     s \<leftarrow> find_sensor T nodes start;
     e \<leftarrow> find_sensor T nodes finish;
     n \<leftarrow> node_at T (Some s);
     or_else (sensor_may_be_seen_next_helper T (AHEAD n) (Some e) (2 * FIND_LIMIT) False False)
       (do {
          r \<leftarrow> node_at T (n_reverse n);
          sensor_may_be_seen_next_helper T (AHEAD r) (Some e) (2 * FIND_LIMIT) True False
        })
   }"

fun sensor_reachable_helper :: "track \<Rightarrow> nptr option \<Rightarrow> nptr option \<Rightarrow> nat \<Rightarrow> bool option" where
  "sensor_reachable_helper T start finish limit =
     (if start = finish then Some True
      else case limit of
        0 \<Rightarrow> Some False
      | Suc l \<Rightarrow> do {
          n \<leftarrow> node_at T start;
          if n_type n = NODE_ENTER \<or> n_type n = NODE_SENSOR \<or> n_type n = NODE_MERGE then
            sensor_reachable_helper T (AHEAD n) finish l
          else if n_type n = NODE_BRANCH then
            or_else (sensor_reachable_helper T (STRAIGHT n) finish l)
              (sensor_reachable_helper T (CURVED n) finish l)
          else Some False
        })"

definition sensor_reachable :: "track \<Rightarrow> nat \<Rightarrow> u32 \<Rightarrow> u32 \<Rightarrow> bool option" where
  "sensor_reachable T nodes start finish = do {
     s \<leftarrow> find_sensor T nodes start;
     e \<leftarrow> find_sensor T nodes finish;
     if start = finish then Some True
     else do {
       n \<leftarrow> node_at T (Some s);
       sensor_reachable_helper T (AHEAD n) (Some e) 50
     }
   }"

definition sensor_pair :: "track \<Rightarrow> nat \<Rightarrow> u32 \<Rightarrow> int option" where
  "sensor_pair T nodes offset = do {
     guard_opt (offset \<le> 80);
     s \<leftarrow> find_sensor T nodes offset;
     n \<leftarrow> node_at T (Some s);
     r \<leftarrow> node_at T (n_reverse n);
     Some (n_num r)
   }"

section \<open>Following the turnouts\<close>

definition track_node_next :: "track \<Rightarrow> turnout_state list \<Rightarrow> nptr option \<Rightarrow> nptr option option" where
  "track_node_next T turnouts start = do {
     n \<leftarrow> node_at T start;
     if n_type n = NODE_SENSOR \<or> n_type n = NODE_MERGE \<or> n_type n = NODE_ENTER then Some (AHEAD n)
     else if n_type n = NODE_BRANCH then do {
       st \<leftarrow> array_get turnouts (unat (turnout_num_to_map_offset (of_int (n_num n))));
       Some (if st = TURNOUT_STRAIGHT then STRAIGHT n else CURVED n)
     }
     else Some None
   }"

partial_function (option) sensor_next ::
  "track \<Rightarrow> turnout_state list \<Rightarrow> nptr option \<Rightarrow> nptr option option" where
  "sensor_next T turnouts start = do {
     current \<leftarrow> track_node_next T turnouts start;
     case current of
       None \<Rightarrow> Some None
     | Some i \<Rightarrow> do {
         n \<leftarrow> array_get T i;
         if n_type n = NODE_SENSOR then Some current else sensor_next T turnouts current
       }
   }"

declare sensor_next.simps [code]

record location =
  l_node :: "nptr option"
  l_offset :: int

definition location_reverse :: "track \<Rightarrow> location \<Rightarrow> location option" where
  "location_reverse T source = do {
     n \<leftarrow> node_at T (l_node source);
     Some \<lparr>l_node = n_reverse n, l_offset = - l_offset source\<rparr>
   }"

text \<open>Result code and destination of \<open>location_rebase_helper\<close>; \<open>dest\<close> is its content before.\<close>

fun location_rebase_helper ::
  "track \<Rightarrow> turnout_state list \<Rightarrow> location \<Rightarrow> location \<Rightarrow> nat \<Rightarrow> (int \<times> location) option" where
  "location_rebase_helper T turnouts dest source 0 = Some (-1, dest)"
| "location_rebase_helper T turnouts dest source (Suc limit) = do {
     rev \<leftarrow> location_reverse T source;
     n \<leftarrow> track_node_next T turnouts (l_node rev);
     case n of
       None \<Rightarrow> Some (-2, source)
     | Some i \<Rightarrow> do {
         nd \<leftarrow> array_get T i;
         d \<leftarrow> distance_between_track_nodes T (n_reverse nd) (l_node source);
         let dest' = \<lparr>l_node = n_reverse nd, l_offset = d * 100 - l_offset rev\<rparr>;
         if l_offset dest' < 0 then location_rebase_helper T turnouts dest' dest' limit
         else Some (0, dest')
       }
   }"

definition location_rebase ::
  "track \<Rightarrow> turnout_state list \<Rightarrow> location \<Rightarrow> location \<Rightarrow> (int \<times> location) option" where
  "location_rebase T turnouts dest source = location_rebase_helper T turnouts dest source 5"

text \<open>The loop of \<open>location_canonicalize\<close> and the function.\<close>

partial_function (option) canonicalize_loop ::
  "track \<Rightarrow> turnout_state list \<Rightarrow> location \<Rightarrow> nptr option \<Rightarrow> int \<Rightarrow> location option" where
  "canonicalize_loop T turnouts current next distance_to_next =
     (if l_offset current \<ge> distance_to_next then do {
        let current' = \<lparr>l_node = next, l_offset = l_offset current - distance_to_next\<rparr>;
        next' \<leftarrow> track_node_next T turnouts next;
        if next' = None then Some current'
        else do {
          d \<leftarrow> distance_between_track_nodes T next next';
          canonicalize_loop T turnouts current' next' (d * 100)
        }
      }
      else Some current)"

declare canonicalize_loop.simps [code]

definition location_canonicalize :: "track \<Rightarrow> turnout_state list \<Rightarrow> location \<Rightarrow> location option" where
  "location_canonicalize T turnouts source = do {
     next \<leftarrow> track_node_next T turnouts (l_node source);
     if next = None then Some source
     else do {
       d \<leftarrow> distance_between_track_nodes T (l_node source) next;
       canonicalize_loop T turnouts source next (d * 100)
     }
   }"

definition distance_diff ::
  "track \<Rightarrow> nat \<Rightarrow> turnout_state list \<Rightarrow> u32 \<Rightarrow> location \<Rightarrow> int option" where
  "distance_diff T nodes turnouts sensor loc = do {
     s \<leftarrow> find_sensor T nodes sensor;
     if l_node loc = None then Some 0
     else if Some s = l_node loc then Some (l_offset loc)
     else do {
       nx \<leftarrow> sensor_next T turnouts (l_node loc);
       if Some s = nx then do {
         d \<leftarrow> distance_between_track_nodes T (l_node loc) nx;
         Some (l_offset loc - 100 * d)
       }
       else Some 0
     }
   }"

definition distance_between_locations :: "track \<Rightarrow> location \<Rightarrow> location \<Rightarrow> int option" where
  "distance_between_locations T from to =
     (if l_node from = None \<or> l_node to = None then Some (-1)
      else do {
        result \<leftarrow> distance_between_track_nodes_helper T (l_node from) (l_node to) 0 FIND_LIMIT;
        Some (if result < 0 then result else 100 * result + l_offset to - l_offset from)
      })"

definition node_follows :: "track \<Rightarrow> nptr option \<Rightarrow> nptr option \<Rightarrow> bool option" where
  "node_follows T start finish = do {
     n \<leftarrow> node_at T start;
     Some (finish = AHEAD n \<or> finish = STRAIGHT n \<or> finish = CURVED n)
   }"

definition find_node_by_name :: "track \<Rightarrow> nat \<Rightarrow> string \<Rightarrow> nptr option" where
  "find_node_by_name T nodes name = find (\<lambda>i. n_name (T ! i) = name) [0..<nodes]"

declare distance_between_track_nodes_helper.simps [simp del]
  sensor_is_followed_by_helper.simps [simp del] sensor_may_be_seen_next_helper.simps [simp del]
  sensor_reachable_helper.simps [simp del]

end
