(* ===== verification/Route.thy ===== *)
theory Route
  imports Track_Data
begin

text \<open>
  Walking a route, \<open>usr/train/train_util.c\<close>. A \<open>track_node *route[MAX_ROUTE_LENGTH]\<close> is the list
  of its pointers, ended by NULL; a pointer into it is the rest of the list from there, together
  with its index where two of them are compared. Running off the array is undefined, \<open>None\<close>.
  Distances are in 1/100 mm; a sum outside \<open>int\<close> is undefined.
\<close>

definition MAX_ROUTE_LENGTH :: nat where
  "MAX_ROUTE_LENGTH = TRACK_MAX"

type_synonym route = "nptr option list"

section \<open>Distances on a route\<close>

fun on_route :: "route \<Rightarrow> location \<Rightarrow> bool option" where
  "on_route [] loc = None"
| "on_route (c # rest) loc =
     (if c = None then Some False else if c = l_node loc then Some True else on_route rest loc)"

text \<open>
  What one node adds to a distance; the node after it is read for a branch only. A type without an
  edge is logged and adds nothing.
\<close>

definition route_step_dist :: "track \<Rightarrow> nptr option \<Rightarrow> route \<Rightarrow> int option" where
  "route_step_dist T c rest = do {
     n \<leftarrow> node_at T c;
     case n_type n of
       NODE_SENSOR \<Rightarrow> int32 (e_dist (n_edge0 n) * 100)
     | NODE_MERGE \<Rightarrow> int32 (e_dist (n_edge0 n) * 100)
     | NODE_ENTER \<Rightarrow> int32 (e_dist (n_edge0 n) * 100)
     | NODE_BRANCH \<Rightarrow> do {
         c1 \<leftarrow> array_get rest 0;
         int32 ((if c1 = STRAIGHT n then e_dist (n_edge0 n) else e_dist (n_edge1 n)) * 100)
       }
     | _ \<Rightarrow> Some 0
   }"

fun remaining_dist_loop :: "track \<Rightarrow> nptr option \<Rightarrow> route \<Rightarrow> bool \<Rightarrow> int \<Rightarrow> int option" where
  "remaining_dist_loop T lnode (c # c1 # rest) passed_loc dist =
     (if c1 = None then Some dist
      else let passed = passed_loc \<or> c = lnode in
        if passed then do {
          d \<leftarrow> route_step_dist T c (c1 # rest);
          dist' \<leftarrow> int32 (dist + d);
          remaining_dist_loop T lnode (c1 # rest) passed dist'
        }
        else remaining_dist_loop T lnode (c1 # rest) passed dist)"
| "remaining_dist_loop T lnode _ passed_loc dist = None"

definition get_remaining_dist_in_route :: "track \<Rightarrow> route \<Rightarrow> location \<Rightarrow> int option" where
  "get_remaining_dist_in_route T route loc = do {
     dist \<leftarrow> remaining_dist_loop T (l_node loc) route False 0;
     int32 (dist - l_offset loc)
   }"

fun next_of_type_loop :: "track \<Rightarrow> route \<Rightarrow> nat \<Rightarrow> node_type \<Rightarrow> nat option option" where
  "next_of_type_loop T [] i ty = None"
| "next_of_type_loop T (c # rest) i ty =
     (if c = None then Some None
      else do {
        n \<leftarrow> node_at T c;
        if n_type n = ty then Some (Some i) else next_of_type_loop T rest (i + 1) ty
      })"

text \<open>\<open>get_next_of_type\<close>: the index, counted from its first argument, of the node found.\<close>

definition get_next_of_type :: "track \<Rightarrow> route \<Rightarrow> node_type \<Rightarrow> nat option option" where
  "get_next_of_type T remaining_route ty = next_of_type_loop T (drop 1 remaining_route) 1 ty"

text \<open>\<open>get_dist_on_route\<close>: \<open>i\<close> is the index of the pointer \<open>c\<close>, \<open>finish\<close> that of \<open>end\<close>.\<close>

fun dist_on_route_loop ::
  "track \<Rightarrow> nptr option \<Rightarrow> nat \<Rightarrow> route \<Rightarrow> nat \<Rightarrow> bool \<Rightarrow> int \<Rightarrow> int option" where
  "dist_on_route_loop T lnode finish [] i passed_loc dist = None"
| "dist_on_route_loop T lnode finish (c # rest) i passed_loc dist =
     (if c = None \<or> i = finish then Some dist
      else let passed = passed_loc \<or> c = lnode in
        if passed then do {
          d \<leftarrow> route_step_dist T c rest;
          dist' \<leftarrow> int32 (dist + d);
          dist_on_route_loop T lnode finish rest (i + 1) passed dist'
        }
        else dist_on_route_loop T lnode finish rest (i + 1) passed dist)"

definition get_dist_on_route :: "track \<Rightarrow> route \<Rightarrow> location \<Rightarrow> nat \<Rightarrow> int option" where
  "get_dist_on_route T route loc finish = do {
     dist \<leftarrow> dist_on_route_loop T (l_node loc) finish route 0 False 0;
     int32 (dist - l_offset loc)
   }"

definition location_is_ge :: "track \<Rightarrow> location \<Rightarrow> location \<Rightarrow> bool option" where
  "location_is_ge T a b = do {
     f \<leftarrow> node_follows T (l_node b) (l_node a);
     Some (f \<or> l_node a = l_node b \<and> l_offset a \<ge> l_offset b)
   }"

section \<open>Switching the turnouts ahead\<close>

text \<open>
  The decision at one node: nothing, or the number of the turnout and whether it is to be curved.
  The state of a turnout is read only when the comparison before the \<open>&&\<close> holds.
\<close>

definition turnout_action ::
  "track \<Rightarrow> turnout_state list \<Rightarrow> nptr option \<Rightarrow> nptr option \<Rightarrow> (int \<times> bool) option option" where
  "turnout_action T turnouts c c1 = do {
     n \<leftarrow> node_at T c;
     if n_type n \<noteq> NODE_BRANCH then Some None
     else do {
       let state = array_get turnouts (unat (turnout_num_to_map_offset (of_int (n_num n))));
       straight \<leftarrow> (if c1 = STRAIGHT n then map_option (\<lambda>st. st = TURNOUT_CURVED) state else Some False);
       if straight then Some (Some (n_num n, False))
       else do {
         curved \<leftarrow> (if c1 = CURVED n then map_option (\<lambda>st. st = TURNOUT_STRAIGHT) state else Some False);
         Some (if curved then Some (n_num n, True) else None)
       }
     }
   }"

text \<open>
  The calls of \<open>switch_turnout\<close> that \<open>switch_turnouts_within_distance\<close> makes, in order;
  \<open>turnouts\<close> is what \<open>get_turnouts\<close> has fetched.
\<close>

fun switch_loop ::
  "track \<Rightarrow> turnout_state list \<Rightarrow> route \<Rightarrow> location \<Rightarrow> int \<Rightarrow> route \<Rightarrow> nat \<Rightarrow> bool \<Rightarrow>
   (int \<times> bool) list \<Rightarrow> (int \<times> bool) list option" where
  "switch_loop T turnouts route loc distance (c # c1 # rest) i passed_loc calls =
     (if c1 = None then Some calls
      else let passed = passed_loc \<or> c = l_node loc in
        if passed then do {
          d \<leftarrow> get_dist_on_route T route loc i;
          if d > distance then Some calls
          else do {
            a \<leftarrow> turnout_action T turnouts c c1;
            switch_loop T turnouts route loc distance (c1 # rest) (i + 1) passed
              (case a of None \<Rightarrow> calls | Some call \<Rightarrow> calls @ [call])
          }
        }
        else switch_loop T turnouts route loc distance (c1 # rest) (i + 1) passed calls)"
| "switch_loop T turnouts route loc distance _ i passed_loc calls = None"

definition switch_turnouts_within_distance ::
  "track \<Rightarrow> turnout_state list \<Rightarrow> route \<Rightarrow> location \<Rightarrow> int \<Rightarrow> (int \<times> bool) list option" where
  "switch_turnouts_within_distance T turnouts route loc distance =
     switch_loop T turnouts route loc distance route 0 False []"

fun num_turnouts_loop ::
  "track \<Rightarrow> turnout_state list \<Rightarrow> route \<Rightarrow> location \<Rightarrow> int \<Rightarrow> route \<Rightarrow> nat \<Rightarrow> bool \<Rightarrow> nat \<Rightarrow> nat option" where
  "num_turnouts_loop T turnouts route loc distance (c # c1 # rest) i passed_loc n_switches =
     (if c1 = None then Some n_switches
      else let passed = passed_loc \<or> c = l_node loc in
        if passed then do {
          d \<leftarrow> get_dist_on_route T route loc i;
          if d > distance then Some n_switches
          else do {
            a \<leftarrow> turnout_action T turnouts c c1;
            num_turnouts_loop T turnouts route loc distance (c1 # rest) (i + 1) passed
              (if a = None then n_switches else n_switches + 1)
          }
        }
        else num_turnouts_loop T turnouts route loc distance (c1 # rest) (i + 1) passed n_switches)"
| "num_turnouts_loop T turnouts route loc distance _ i passed_loc n_switches = None"

definition num_turnouts_within_distance ::
  "track \<Rightarrow> turnout_state list \<Rightarrow> route \<Rightarrow> location \<Rightarrow> int \<Rightarrow> nat option" where
  "num_turnouts_within_distance T turnouts route loc distance =
     num_turnouts_loop T turnouts route loc distance route 0 False 0"

lemma num_turnouts_loop_length:
  "num_turnouts_loop T turnouts route loc distance cs i passed (length calls) =
   map_option length (switch_loop T turnouts route loc distance cs i passed calls)"
proof (induction cs arbitrary: i passed calls)
  case (Cons c cs)
  show ?case
  proof (cases cs)
    case (Cons c1 rest)
    show ?thesis
    proof (cases "c1 = None")
      case False
      then obtain y where y: "c1 = Some y" by blast
      have r: "num_turnouts_loop T turnouts route loc distance (Some y # rest) (Suc i) p (length cl) =
        map_option length (switch_loop T turnouts route loc distance (Some y # rest) (Suc i) p cl)" for p cl
        using Cons.IH [of "Suc i" p cl] Cons y by simp
      have s: "num_turnouts_loop T turnouts route loc distance (Some y # rest) (Suc i) p (Suc (length calls)) =
        map_option length (switch_loop T turnouts route loc distance (Some y # rest) (Suc i) p (calls @ [x]))" for p x
        using r [of p "calls @ [x]"] by simp
      show ?thesis unfolding Cons y
        by (auto simp: Let_def r s map_option_bind intro!: bind_option_cong split: option.splits)
    qed (simp add: Cons)
  qed simp
qed simp

end
