(* ===== verification/Priority_Queue.thy ===== *)
theory Priority_Queue
  imports Trains_Prelude "HOL-Library.Multiset"
begin

text \<open>
  The binary-heap template \<open>lib/priority_queue.h\<close>. \<open>ELEMENT_VALUE\<close> is the parameter
  \<open>v\<close>, \<open>QUEUE_SIZE\<close> the parameter \<open>cap\<close>; the struct's array is the list \<open>pq_elts\<close>, of
  which the first \<open>pq_size\<close> entries are live. Indices are \<open>uint32_t\<close> in C; \<open>QUEUE_SIZE\<close>
  is at most 144, so the index macros do not wrap, except \<open>PARENT(0)\<close>: there the unsigned
  \<open>0 - 1\<close> wraps, the quotient is 0x7FFFFFFF, and \<open>IN_BOUNDS\<close> fails on it. The model's
  \<open>pq_parent 0\<close> is \<open>None\<close> for that out-of-bounds index.
\<close>

record 'a pqueue =
  pq_size :: nat
  pq_elts :: "'a list"

definition pq_left :: "nat \<Rightarrow> nat" where
  "pq_left i = 2 * i + 1"

definition pq_right :: "nat \<Rightarrow> nat" where
  "pq_right i = 2 * i + 2"

definition pq_parent :: "nat \<Rightarrow> nat option" where
  "pq_parent i = (if i = 0 then None else Some ((i - 1) div 2))"

definition pq_init :: "'a list \<Rightarrow> 'a pqueue" where
  "pq_init elts = \<lparr>pq_size = 0, pq_elts = elts\<rparr>"

text \<open>One round of \<open>SINK\<close>: the index of the smallest of a node and its children in bounds.\<close>

definition pq_smallest :: "('a \<Rightarrow> int) \<Rightarrow> nat \<Rightarrow> nat \<Rightarrow> 'a list \<Rightarrow> nat" where
  "pq_smallest v n i xs =
     (let l = pq_left i; r = pq_right i;
          s = (if l < n \<and> v (xs ! l) < v (xs ! i) then l else i)
      in if r < n \<and> v (xs ! r) < v (xs ! s) then r else s)"

lemma pq_smallest_cases:
  "pq_smallest v n i xs = i \<or> i < pq_smallest v n i xs \<and> pq_smallest v n i xs < n"
  by (auto simp: pq_smallest_def pq_left_def pq_right_def Let_def)

function pq_sink :: "('a \<Rightarrow> int) \<Rightarrow> nat \<Rightarrow> nat \<Rightarrow> 'a list \<Rightarrow> 'a list" where
  "pq_sink v n i xs =
     (let s = pq_smallest v n i xs
      in if s = i then xs else pq_sink v n s (swap_nth i s xs))"
  by pat_completeness auto
termination
proof (relation "measure (\<lambda>(v, n, i, xs). n - i)")
  fix v :: "'a \<Rightarrow> int" and n i :: nat and xs :: "'a list" and s
  assume "s = pq_smallest v n i xs" and "s \<noteq> i"
  then have "i < s" and "s < n" using pq_smallest_cases [of v n i xs] by auto
  then show "((v, n, s, swap_nth i s xs), v, n, i, xs) \<in> measure (\<lambda>(v, n, i, xs). n - i)"
    by simp
qed simp

declare pq_sink.simps [simp del]

text \<open>\<open>HEAPIFY\<close>: sink \<open>i - 1\<close> for \<open>i\<close> from \<open>size\<close> down to 1.\<close>

primrec pq_heapify_from :: "('a \<Rightarrow> int) \<Rightarrow> nat \<Rightarrow> nat \<Rightarrow> 'a list \<Rightarrow> 'a list" where
  "pq_heapify_from v n 0 xs = xs"
| "pq_heapify_from v n (Suc i) xs = pq_heapify_from v n i (pq_sink v n i xs)"

definition pq_heapify :: "('a \<Rightarrow> int) \<Rightarrow> 'a pqueue \<Rightarrow> 'a pqueue" where
  "pq_heapify v q = q\<lparr>pq_elts := pq_heapify_from v (pq_size q) (pq_size q) (pq_elts q)\<rparr>"

text \<open>The loop of \<open>ENQUEUE\<close>.\<close>

function pq_rise :: "('a \<Rightarrow> int) \<Rightarrow> nat \<Rightarrow> nat \<Rightarrow> 'a list \<Rightarrow> 'a list" where
  "pq_rise v n i xs =
     (case pq_parent i of
        None \<Rightarrow> xs
      | Some p \<Rightarrow>
          if i < n \<and> p < n \<and> v (xs ! i) < v (xs ! p)
          then pq_rise v n p (swap_nth i p xs) else xs)"
  by pat_completeness auto
termination
  by (relation "measure (\<lambda>(v, n, i, xs). i)") (auto simp: pq_parent_def split: if_splits)

declare pq_rise.simps [simp del]

definition pq_enqueue :: "('a \<Rightarrow> int) \<Rightarrow> nat \<Rightarrow> 'a pqueue \<Rightarrow> 'a \<Rightarrow> 'a pqueue \<times> int" where
  "pq_enqueue v cap q e =
     (if pq_size q = cap then (q, -1)
      else let xs = (pq_elts q)[pq_size q := e]; n = pq_size q + 1
           in (\<lparr>pq_size = n, pq_elts = pq_rise v n (n - 1) xs\<rparr>, 0))"

text \<open>\<open>DEQUEUE\<close> copies the removed element into \<open>e\<close>, untouched when it returns -1.\<close>

definition pq_dequeue :: "('a \<Rightarrow> int) \<Rightarrow> 'a pqueue \<Rightarrow> 'a \<Rightarrow> 'a pqueue \<times> 'a \<times> int" where
  "pq_dequeue v q e =
     (if pq_size q = 0 then (q, e, -1)
      else let n = pq_size q - 1; xs = swap_nth 0 n (pq_elts q)
           in (\<lparr>pq_size = n, pq_elts = pq_sink v n 0 xs\<rparr>, xs ! n, 0))"

definition pq_peek :: "'a pqueue \<Rightarrow> 'a option" where
  "pq_peek q = (if pq_size q = 0 then None else Some (pq_elts q ! 0))"

text \<open>
  The heap property from position \<open>k\<close> on, and its two relaxations: \<open>sink_inv\<close> excuses the
  children of \<open>i\<close>, \<open>rise_inv\<close> excuses \<open>i\<close> against its parent; both ask that the children
  of \<open>i\<close> respect the parent of \<open>i\<close>.
\<close>

abbreviation par :: "nat \<Rightarrow> nat" where
  "par i \<equiv> (i - 1) div 2"

definition heap_from :: "('a \<Rightarrow> int) \<Rightarrow> nat \<Rightarrow> nat \<Rightarrow> 'a list \<Rightarrow> bool" where
  "heap_from v n k xs \<longleftrightarrow> (\<forall>j. 0 < j \<and> j < n \<and> k \<le> par j \<longrightarrow> v (xs ! par j) \<le> v (xs ! j))"

definition sink_inv :: "('a \<Rightarrow> int) \<Rightarrow> nat \<Rightarrow> nat \<Rightarrow> nat \<Rightarrow> 'a list \<Rightarrow> bool" where
  "sink_inv v n k i xs \<longleftrightarrow>
     (\<forall>j. 0 < j \<and> j < n \<and> k \<le> par j \<and> par j \<noteq> i \<longrightarrow> v (xs ! par j) \<le> v (xs ! j)) \<and>
     (\<forall>j. 0 < i \<and> k \<le> par i \<and> 0 < j \<and> j < n \<and> par j = i \<longrightarrow> v (xs ! par i) \<le> v (xs ! j))"

definition rise_inv :: "('a \<Rightarrow> int) \<Rightarrow> nat \<Rightarrow> nat \<Rightarrow> 'a list \<Rightarrow> bool" where
  "rise_inv v n i xs \<longleftrightarrow>
     (\<forall>j. 0 < j \<and> j < n \<and> j \<noteq> i \<longrightarrow> v (xs ! par j) \<le> v (xs ! j)) \<and>
     (\<forall>j. 0 < i \<and> 0 < j \<and> j < n \<and> par j = i \<longrightarrow> v (xs ! par i) \<le> v (xs ! j))"

lemma child_cases: "0 < j \<Longrightarrow> par j = i \<longleftrightarrow> j = pq_left i \<or> j = pq_right i"
  unfolding pq_left_def pq_right_def by presburger

lemma pq_smallest_le:
  assumes "0 < j" "j < n" "par j = i"
  shows "v (xs ! pq_smallest v n i xs) \<le> v (xs ! j)"
proof -
  from assms have "j = pq_left i \<or> j = pq_right i" using child_cases by blast
  with assms(2) show ?thesis by (auto simp: pq_smallest_def Let_def)
qed

lemma pq_smallest_child:
  assumes "pq_smallest v n i xs \<noteq> i"
  shows "par (pq_smallest v n i xs) = i" and "0 < pq_smallest v n i xs"
    and "v (xs ! pq_smallest v n i xs) < v (xs ! i)"
  using assms by (auto simp: pq_smallest_def pq_left_def pq_right_def Let_def split: if_splits)

lemma sink_inv_step:
  assumes inv: "sink_inv v n k i xs" and s: "s = pq_smallest v n i xs" "s \<noteq> i"
    and len: "n \<le> length xs" and k: "k \<le> i"
  shows "sink_inv v n k s (swap_nth i s xs)"
proof -
  from s have sn: "s < n" "i < s" using pq_smallest_cases [of v n i xs] by auto
  then have il: "i < length xs" "s < length xs" using len by simp_all
  have ps: "par s = i" "0 < s" "v (xs ! s) < v (xs ! i)"
    using s pq_smallest_child [of v n i xs] by auto
  have ok: "v (xs ! par j) \<le> v (xs ! j)" if "0 < j" "j < n" "k \<le> par j" "par j \<noteq> i" for j
    using inv that by (simp add: sink_inv_def)
  have up: "v (xs ! par i) \<le> v (xs ! s)" if "0 < i" "k \<le> par i"
    using inv that ps sn by (simp add: sink_inv_def)
  have "v (swap_nth i s xs ! par j) \<le> v (swap_nth i s xs ! j)"
    if j: "0 < j" "j < n" "k \<le> par j" "par j \<noteq> s" for j
  proof (cases "par j = i")
    case True
    then have "v (xs ! s) \<le> v (xs ! j)" using j s by (simp add: pq_smallest_le)
    moreover have "j \<noteq> i" using True j by auto
    ultimately show ?thesis using True j il len ps by (simp add: nth_swap_nth)
  next
    case False
    then have "j \<noteq> s" using ps by auto
    moreover have "par j < length xs" using j len by linarith
    ultimately show ?thesis
      using False j il len ok [of j] up ps by (cases "j = i") (auto simp: nth_swap_nth)
  qed
  moreover have "v (swap_nth i s xs ! par s) \<le> v (swap_nth i s xs ! j)"
    if j: "0 < j" "j < n" "par j = s" for j
  proof -
    have "j \<noteq> i" "j \<noteq> s" using j sn by auto
    then show ?thesis using j il len ps sn k ok [of j] by (simp add: nth_swap_nth)
  qed
  ultimately show ?thesis by (simp add: sink_inv_def)
qed

lemma pq_sink_heap:
  "sink_inv v n k i xs \<Longrightarrow> n \<le> length xs \<Longrightarrow> k \<le> i \<Longrightarrow> heap_from v n k (pq_sink v n i xs)"
proof (induction v n i xs rule: pq_sink.induct)
  case (1 v n i xs)
  define s where "s = pq_smallest v n i xs"
  show ?case
  proof (cases "s = i")
    case True
    have "v (xs ! par j) \<le> v (xs ! j)" if "0 < j" "j < n" "k \<le> par j" for j
      using "1.prems"(1) that True pq_smallest_le [of j n i v xs]
      by (cases "par j = i") (auto simp: sink_inv_def s_def)
    with True show ?thesis by (simp add: pq_sink.simps [of v n i xs] s_def heap_from_def)
  next
    case False
    then have "sink_inv v n k s (swap_nth i s xs)"
      using sink_inv_step "1.prems" s_def by blast
    moreover have "k \<le> s" using "1.prems"(3) pq_smallest_cases [of v n i xs] s_def by auto
    ultimately show ?thesis
      using "1.IH" [OF s_def False] "1.prems" False
      by (simp add: pq_sink.simps [of v n i xs] flip: s_def)
  qed
qed

lemma length_pq_sink [simp]: "length (pq_sink v n i xs) = length xs"
  by (induction v n i xs rule: pq_sink.induct)
     (subst pq_sink.simps, simp add: Let_def)

lemma length_pq_rise [simp]: "length (pq_rise v n i xs) = length xs"
  by (induction v n i xs rule: pq_rise.induct)
     (subst pq_rise.simps, simp split: option.splits)

lemma length_pq_heapify_from [simp]: "length (pq_heapify_from v n i xs) = length xs"
  by (induction i arbitrary: xs) simp_all

text \<open>No operation changes which elements are live, and \<open>heapify\<close> builds a heap.\<close>

lemma mset_take_swap:
  assumes "i < n" "j < n" "n \<le> length xs"
  shows "mset (take n (swap_nth i j xs)) = mset (take n xs)"
proof -
  have "take n (swap_nth i j xs) = (take n xs)[i := take n xs ! j, j := take n xs ! i]"
    using assms by (simp add: swap_nth_def take_update_swap)
  then show ?thesis
    using assms mset_swap [of j "take n xs" i] by simp
qed

lemma mset_pq_sink:
  "n \<le> length xs \<Longrightarrow> i < n \<Longrightarrow> mset (take n (pq_sink v n i xs)) = mset (take n xs)"
proof (induction v n i xs rule: pq_sink.induct)
  case (1 v n i xs)
  define s where "s = pq_smallest v n i xs"
  show ?case
  proof (cases "s = i")
    case True
    then show ?thesis by (simp add: pq_sink.simps [of v n i xs] s_def)
  next
    case False
    then have "s < n" using pq_smallest_cases [of v n i xs] s_def by auto
    then show ?thesis
      using "1.IH" [OF s_def False] "1.prems" False
      by (simp add: pq_sink.simps [of v n i xs] mset_take_swap flip: s_def)
  qed
qed

lemma heapify_from_heap:
  "heap_from v n i xs \<Longrightarrow> n \<le> length xs \<Longrightarrow> i \<le> n \<Longrightarrow>
   heap_from v n 0 (pq_heapify_from v n i xs) \<and>
   mset (take n (pq_heapify_from v n i xs)) = mset (take n xs)"
proof (induction i arbitrary: xs)
  case 0
  then show ?case by simp
next
  case (Suc i)
  have "sink_inv v n i i xs"
    using Suc.prems(1) by (force simp: sink_inv_def heap_from_def)
  then have "heap_from v n i (pq_sink v n i xs)"
    using Suc.prems(2) by (simp add: pq_sink_heap)
  then show ?case using Suc.IH [of "pq_sink v n i xs"] Suc.prems by (simp add: mset_pq_sink)
qed

lemma heap_root_min:
  assumes "heap_from v n 0 xs" shows "i < n \<Longrightarrow> v (xs ! 0) \<le> v (xs ! i)"
proof (induction i rule: less_induct)
  case (less i)
  show ?case
  proof (cases "i = 0")
    case False
    then have "v (xs ! par i) \<le> v (xs ! i)" using assms less.prems by (simp add: heap_from_def)
    moreover have "v (xs ! 0) \<le> v (xs ! par i)" using False less by (intro less.IH) simp_all
    ultimately show ?thesis by simp
  qed simp
qed

lemma swap_nth_le_via:
  assumes "j \<noteq> p" "v (xs ! g) \<le> v (xs ! p)" "j \<noteq> i \<Longrightarrow> v (xs ! p) \<le> v (xs ! j)"
    and "g < length xs" "j < length xs" "g \<noteq> p" "g \<noteq> i" "i < length xs" "p < length xs"
  shows "(v (swap_nth i p xs ! g) :: int) \<le> v (swap_nth i p xs ! j)"
  using assms by (cases "j = i") (simp_all add: nth_swap_nth)

lemma rise_inv_step:
  assumes inv: "rise_inv v n i xs" and i: "0 < i" "i < n" and len: "n \<le> length xs"
    and lt: "v (xs ! i) < v (xs ! par i)"
  shows "rise_inv v n (par i) (swap_nth i (par i) xs)"
proof -
  have il: "i < length xs" "par i < length xs" using i len by simp_all
  have ok: "v (xs ! par j) \<le> v (xs ! j)" if "0 < j" "j < n" "j \<noteq> i" for j
    using inv that by (simp add: rise_inv_def)
  have up: "v (xs ! par i) \<le> v (xs ! j)" if "0 < j" "j < n" "par j = i" for j
    using inv that i by (simp add: rise_inv_def)
  have "v (swap_nth i (par i) xs ! par j) \<le> v (swap_nth i (par i) xs ! j)"
    if j: "0 < j" "j < n" "j \<noteq> par i" for j
  proof -
    have jl: "j < length xs" "par j < length xs" "par j < j" using j len by simp_all
    consider "j = i" | "j \<noteq> i" "par j = i" | "j \<noteq> i" "par j \<noteq> i" by blast
    then show ?thesis
    proof cases
      case 1
      then show ?thesis using il lt i by (auto simp: nth_swap_nth)
    next
      case 2
      then show ?thesis using il jl j up [of j] by (auto simp: nth_swap_nth)
    next
      case 3
      then show ?thesis using il jl j ok [of j] lt by (auto simp: nth_swap_nth)
    qed
  qed
  moreover have "v (swap_nth i (par i) xs ! par (par i)) \<le> v (swap_nth i (par i) xs ! j)"
    if j: "0 < par i" "0 < j" "j < n" "par j = par i" for j
  proof -
    have lt': "par (par i) < par i" "par i < i" using j(1) i by linarith+
    then have l: "par (par i) < length xs" "j < length xs" "par (par i) \<noteq> par i"
      "par (par i) \<noteq> i" using j(3) il len by linarith+
    have "j \<noteq> par i"
    proof
      assume "j = par i"
      then have "par (par i) = par i" using j(4) by (simp only:)
      with lt'(1) show False by (simp only: less_irrefl)
    qed
    moreover have "v (xs ! par (par i)) \<le> v (xs ! par i)"
      using ok [OF j(1)] lt' i by linarith
    moreover have "v (xs ! par i) \<le> v (xs ! j)" if "j \<noteq> i"
      using ok [OF j(2,3) that] j(4) by simp
    ultimately show ?thesis using l il by (intro swap_nth_le_via)
  qed
  ultimately show ?thesis by (simp add: rise_inv_def)
qed

lemma pq_rise_heap:
  "rise_inv v n i xs \<Longrightarrow> n \<le> length xs \<Longrightarrow> i < n \<Longrightarrow>
   heap_from v n 0 (pq_rise v n i xs) \<and> mset (take n (pq_rise v n i xs)) = mset (take n xs)"
proof (induction v n i xs rule: pq_rise.induct)
  case (1 v n i xs)
  show ?case
  proof (cases "0 < i \<and> v (xs ! i) < v (xs ! par i)")
    case True
    then have p: "pq_parent i = Some (par i)" "par i < n"
      using "1.prems" by (auto simp: pq_parent_def)
    have "rise_inv v n (par i) (swap_nth i (par i) xs)"
      using True "1.prems" by (intro rise_inv_step) auto
    then show ?thesis
      using "1.IH" [OF p(1)] p True "1.prems"
      by (simp add: pq_rise.simps [of v n i xs] mset_take_swap)
  next
    case False
    then have "pq_rise v n i xs = xs"
      by (auto simp: pq_rise.simps [of v n i xs] pq_parent_def)
    moreover have "heap_from v n 0 xs"
      using False "1.prems"(1) by (fastforce simp: rise_inv_def heap_from_def)
    ultimately show ?thesis by simp
  qed
qed

text \<open>
  The interface of the template, stated over the bag of live elements. \<open>prio_queue\<close> is what
  the clock server uses; the router also writes to live elements and repairs the heap with
  \<open>heapify\<close>, which \<open>mutable_prio_queue\<close> adds.
\<close>

locale prio_queue =
  fixes val :: "'a \<Rightarrow> int"
    and cap :: nat
    and enq :: "'q \<Rightarrow> 'a \<Rightarrow> 'q \<times> int"
    and deq :: "'q \<Rightarrow> 'a \<Rightarrow> 'q \<times> 'a \<times> int"
    and peek :: "'q \<Rightarrow> 'a option"
    and bag :: "'q \<Rightarrow> 'a multiset"
    and inv :: "'q \<Rightarrow> bool"
  assumes size_bag: "inv q \<Longrightarrow> size (bag q) \<le> cap"
    and enq_full: "inv q \<Longrightarrow> size (bag q) = cap \<Longrightarrow> enq q e = (q, -1)"
    and enq_ok: "inv q \<Longrightarrow> size (bag q) < cap \<Longrightarrow>
      snd (enq q e) = 0 \<and> inv (fst (enq q e)) \<and> bag (fst (enq q e)) = add_mset e (bag q)"
    and deq_empty: "inv q \<Longrightarrow> bag q = {#} \<Longrightarrow> deq q e = (q, e, -1)"
    and deq_ok: "inv q \<Longrightarrow> peek q = Some x \<Longrightarrow>
      \<exists>q'. deq q e = (q', x, 0) \<and> inv q' \<and> bag q = add_mset x (bag q')"
    and peek_None: "inv q \<Longrightarrow> peek q = None \<longleftrightarrow> bag q = {#}"
    and peek_min: "inv q \<Longrightarrow> peek q = Some x \<Longrightarrow> y \<in># bag q \<Longrightarrow> val x \<le> val y"
begin

lemma enq_result: "inv q \<Longrightarrow> snd (enq q e) = (if size (bag q) = cap then -1 else 0)"
  using enq_full [of q e] enq_ok [of q e] size_bag [of q] by auto

lemma peek_mem: "inv q \<Longrightarrow> peek q = Some x \<Longrightarrow> x \<in># bag q"
  using deq_ok [of q x] by (metis union_single_eq_member)

lemma none_below_peek:
  "inv q \<Longrightarrow> peek q = Some x \<Longrightarrow> \<not> val x \<le> t \<Longrightarrow> {# y \<in># bag q. val y \<le> t #} = {#}"
  using peek_min by (force simp: filter_mset_eq_conv)

lemma deq_then_min:
  assumes "inv q" "peek q = Some x" "deq q e = (q', y, r)" "peek q' = Some z"
  shows "val x \<le> val z"
proof -
  obtain q'' where "deq q e = (q'', x, 0)" "inv q''" "bag q = add_mset x (bag q'')"
    using deq_ok assms by blast
  with assms peek_mem [of q' z] peek_min [of q x z] show ?thesis by auto
qed

text \<open>Taking everything out: the elements come in increasing order.\<close>

definition take_min :: "'a \<Rightarrow> 'q \<Rightarrow> ('q \<times> 'a) option" where
  "take_min e q = (case deq q e of (q', x, r) \<Rightarrow> if r = 0 then Some (q', x) else None)"

lemma take_min_ok:
  assumes "inv q" "bag q \<noteq> {#}"
  shows "\<exists>q' x. take_min e q = Some (q', x) \<and> inv q' \<and> bag q = add_mset x (bag q') \<and>
    (\<forall>y \<in># bag q. val x \<le> val y)"
proof -
  obtain x where x: "peek q = Some x" using peek_None [OF assms(1)] assms(2) by auto
  then obtain q' where "deq q e = (q', x, 0)" "inv q'" "bag q = add_mset x (bag q')"
    using deq_ok [OF assms(1) x] by blast
  then show ?thesis using peek_min [OF assms(1) x] by (auto simp: take_min_def)
qed

lemma drain_sorted:
  "inv q \<Longrightarrow> size (bag q) = n \<Longrightarrow> \<exists>q' xs. drain (take_min e) n q = Some (q', xs) \<and> inv q' \<and>
     bag q' = {#} \<and> mset xs = bag q \<and> sorted (map val xs)"
proof (induction n arbitrary: q)
  case (Suc n)
  then have "bag q \<noteq> {#}" by auto
  then obtain q1 x where 1: "take_min e q = Some (q1, x)" "inv q1" "bag q = add_mset x (bag q1)"
    "\<forall>y \<in># bag q. val x \<le> val y"
    using take_min_ok [OF Suc.prems(1)] by blast
  then obtain q2 xs where 2: "drain (take_min e) n q1 = Some (q2, xs)" "inv q2" "bag q2 = {#}"
    "mset xs = bag q1" "sorted (map val xs)"
    using Suc.IH [of q1] Suc.prems(2) by auto
  have "\<forall>y \<in> set xs. val x \<le> val y"
    using 1(3,4) 2(4) by (metis insert_iff set_mset_add_mset_insert set_mset_mset)
  then show ?case using 1 2 by auto
qed simp

end

locale mutable_prio_queue = prio_queue val cap enq deq peek bag inv
  for val :: "'a \<Rightarrow> int" and cap :: nat and enq :: "'q \<Rightarrow> 'a \<Rightarrow> 'q \<times> int"
    and deq :: "'q \<Rightarrow> 'a \<Rightarrow> 'q \<times> 'a \<times> int" and peek :: "'q \<Rightarrow> 'a option"
    and bag :: "'q \<Rightarrow> 'a multiset" and inv :: "'q \<Rightarrow> bool" +
  fixes heapify :: "'q \<Rightarrow> 'q"
    and wf :: "'q \<Rightarrow> bool"
  assumes inv_wf: "inv q \<Longrightarrow> wf q"
    and heapify_inv: "wf q \<Longrightarrow> inv (heapify q)"
    and heapify_bag: "wf q \<Longrightarrow> bag (heapify q) = bag q"

definition pq_bag :: "'a pqueue \<Rightarrow> 'a multiset" where
  "pq_bag q = mset (take (pq_size q) (pq_elts q))"

definition pq_wf :: "nat \<Rightarrow> 'a pqueue \<Rightarrow> bool" where
  "pq_wf cap q \<longleftrightarrow> length (pq_elts q) = cap \<and> pq_size q \<le> cap"

definition pq_inv :: "('a \<Rightarrow> int) \<Rightarrow> nat \<Rightarrow> 'a pqueue \<Rightarrow> bool" where
  "pq_inv v cap q \<longleftrightarrow> pq_wf cap q \<and> heap_from v (pq_size q) 0 (pq_elts q)"

lemma size_pq_bag: "pq_wf cap q \<Longrightarrow> size (pq_bag q) = pq_size q"
  by (simp add: pq_bag_def pq_wf_def)

lemma pq_init_inv: "length xs = cap \<Longrightarrow> pq_inv v cap (pq_init xs)"
  by (simp add: pq_inv_def pq_wf_def pq_init_def heap_from_def)

lemma pq_bag_init: "pq_bag (pq_init xs) = {#}"
  by (simp add: pq_bag_def pq_init_def)

lemma pq_heapify_correct:
  assumes "pq_wf cap q"
  shows "pq_inv v cap (pq_heapify v q) \<and> pq_bag (pq_heapify v q) = pq_bag q"
proof -
  have "heap_from v (pq_size q) (pq_size q) (pq_elts q)"
    by (auto simp: heap_from_def)
  then show ?thesis
    using assms heapify_from_heap [of v "pq_size q" "pq_size q" "pq_elts q"]
    by (simp add: pq_inv_def pq_wf_def pq_bag_def pq_heapify_def)
qed

lemma pq_enqueue_correct:
  assumes inv: "pq_inv v cap q" and lt: "pq_size q < cap"
  shows "snd (pq_enqueue v cap q e) = 0 \<and> pq_inv v cap (fst (pq_enqueue v cap q e)) \<and>
    pq_bag (fst (pq_enqueue v cap q e)) = add_mset e (pq_bag q)"
proof -
  let ?n = "pq_size q" and ?xs = "pq_elts q"
  have l: "length ?xs = cap" using inv by (simp add: pq_inv_def pq_wf_def)
  have "rise_inv v (Suc ?n) ?n (?xs[?n := e])"
    using inv by (auto simp: rise_inv_def pq_inv_def heap_from_def nth_list_update less_Suc_eq)
  then have "heap_from v (Suc ?n) 0 (pq_rise v (Suc ?n) ?n (?xs[?n := e])) \<and>
    mset (take (Suc ?n) (pq_rise v (Suc ?n) ?n (?xs[?n := e]))) =
    mset (take (Suc ?n) (?xs[?n := e]))"
    using lt l by (intro pq_rise_heap) simp_all
  moreover have "take (Suc ?n) (?xs[?n := e]) = take ?n ?xs @ [e]"
    using lt l by (simp add: take_Suc_conv_app_nth)
  ultimately show ?thesis
    using lt l by (simp add: pq_enqueue_def Let_def pq_inv_def pq_wf_def pq_bag_def)
qed

lemma pq_dequeue_correct:
  assumes inv: "pq_inv v cap q" and pk: "pq_peek q = Some x"
  shows "\<exists>q'. pq_dequeue v q e = (q', x, 0) \<and> pq_inv v cap q' \<and>
    pq_bag q = add_mset x (pq_bag q')"
proof -
  let ?n = "pq_size q - 1" and ?xs = "pq_elts q"
  define ys where "ys = swap_nth 0 ?n ?xs"
  define q' where "q' = \<lparr>pq_size = ?n, pq_elts = pq_sink v ?n 0 ys\<rparr>"
  have n: "pq_size q = Suc ?n" and x: "x = ?xs ! 0"
    using pk by (auto simp: pq_peek_def split: if_splits)
  have l: "length ?xs = cap" "Suc ?n \<le> cap" "heap_from v (Suc ?n) 0 ?xs"
    using inv n by (simp_all add: pq_inv_def pq_wf_def)
  have "ys ! n = x" if "n = ?n" for n
    using l that by (simp add: ys_def x nth_swap_nth)
  then have deq: "pq_dequeue v q e = (q', x, 0)"
    using n by (simp add: pq_dequeue_def Let_def q'_def ys_def)
  have "v (ys ! par j) \<le> v (ys ! j)" if "0 < j" "j < ?n" "par j \<noteq> 0" for j
  proof -
    have "par j < length ?xs" "par j < ?n" using that l by linarith+
    then show ?thesis
      using l that n by (simp add: heap_from_def ys_def nth_swap_nth)
  qed
  then have "sink_inv v ?n 0 0 ys" by (simp add: sink_inv_def)
  then have heap: "pq_inv v cap q'"
    using l pq_sink_heap [of v ?n 0 0 ys]
    by (simp add: pq_inv_def pq_wf_def q'_def ys_def)
  have "mset (take ?n (pq_sink v ?n 0 ys)) = mset (take ?n ys)"
    by (cases "?n = 0") (use l in \<open>simp_all add: mset_pq_sink ys_def\<close>)
  moreover have "mset (take (Suc ?n) ys) = mset (take (Suc ?n) ?xs)"
    unfolding ys_def by (rule mset_take_swap) (use l in simp_all)
  moreover have "take (Suc ?n) ys = take ?n ys @ [x]"
    using l by (simp add: take_Suc_conv_app_nth ys_def x nth_swap_nth)
  ultimately have "pq_bag q = add_mset x (pq_bag q')"
    using n by (simp add: pq_bag_def q'_def)
  with deq heap show ?thesis by blast
qed

lemma pq_peek_None: "pq_inv v cap q \<Longrightarrow> pq_peek q = None \<longleftrightarrow> pq_bag q = {#}"
  by (auto simp: pq_peek_def pq_bag_def pq_inv_def pq_wf_def)

lemma pq_peek_min:
  assumes "pq_inv v cap q" "pq_peek q = Some x" "y \<in># pq_bag q"
  shows "v x \<le> v y"
  using assms heap_root_min [of v "pq_size q" "pq_elts q"]
  by (auto simp: pq_peek_def pq_bag_def pq_inv_def pq_wf_def in_set_conv_nth split: if_splits)

lemma pq_mutable_prio_queue:
  "mutable_prio_queue v cap (pq_enqueue v cap) (pq_dequeue v) pq_peek pq_bag (pq_inv v cap)
     (pq_heapify v) (pq_wf cap)"
proof
  fix q :: "'a pqueue" and e x y :: 'a
  show "pq_wf cap q \<Longrightarrow> pq_inv v cap (pq_heapify v q)"
    and "pq_wf cap q \<Longrightarrow> pq_bag (pq_heapify v q) = pq_bag q"
    using pq_heapify_correct by auto
  assume inv: "pq_inv v cap q"
  then have wf: "pq_wf cap q" by (simp add: pq_inv_def)
  then show "pq_wf cap q" .
  show "size (pq_bag q) \<le> cap" using size_pq_bag [OF wf] wf by (simp add: pq_wf_def)
  show "size (pq_bag q) = cap \<Longrightarrow> pq_enqueue v cap q e = (q, -1)"
    using size_pq_bag [OF wf] by (simp add: pq_enqueue_def)
  show "size (pq_bag q) < cap \<Longrightarrow> snd (pq_enqueue v cap q e) = 0 \<and>
      pq_inv v cap (fst (pq_enqueue v cap q e)) \<and>
      pq_bag (fst (pq_enqueue v cap q e)) = add_mset e (pq_bag q)"
    using pq_enqueue_correct [OF inv] size_pq_bag [OF wf] by simp
  show "pq_bag q = {#} \<Longrightarrow> pq_dequeue v q e = (q, e, -1)"
    using size_pq_bag [OF wf] by (simp add: pq_dequeue_def)
  show "pq_peek q = Some x \<Longrightarrow> \<exists>q'. pq_dequeue v q e = (q', x, 0) \<and> pq_inv v cap q' \<and>
      pq_bag q = add_mset x (pq_bag q')"
    by (rule pq_dequeue_correct [OF inv])
  show "pq_peek q = None \<longleftrightarrow> pq_bag q = {#}" by (rule pq_peek_None [OF inv])
  show "pq_peek q = Some x \<Longrightarrow> y \<in># pq_bag q \<Longrightarrow> v x \<le> v y"
    by (rule pq_peek_min [OF inv])
qed

end
