(* ===== verification/Router.thy ===== *)
theory Router
  imports Route Priority_Queue
begin

text \<open>
  The router, \<open>usr/train/router.c\<close>, on the queue of search nodes \<open>usr/lib/search_node_queue.c\<close>,
  the heap template at \<open>search_node\<close> with \<open>distance\<close> as value. The array \<open>dequeued_nodes\<close> is the
  list of the entries filled so far; a \<open>prev\<close> pointer is an index into it. Reading an entry not yet
  filled, a NULL dereference and an \<open>int\<close> overflow are \<open>None\<close>.
\<close>

record search_node =
  sn_node :: nptr
  sn_distance :: int
  sn_prev :: "nat option"

definition SEARCH_NODE_QUEUE_SIZE :: nat where
  "SEARCH_NODE_QUEUE_SIZE = TRACK_MAX"

definition INFINITE_DISTANCE :: int where
  "INFINITE_DISTANCE = 100000000"

type_synonym search_node_queue = "search_node pqueue"

interpretation snq: mutable_prio_queue sn_distance SEARCH_NODE_QUEUE_SIZE
  "pq_enqueue sn_distance SEARCH_NODE_QUEUE_SIZE" "pq_dequeue sn_distance" pq_peek pq_bag
  "pq_inv sn_distance SEARCH_NODE_QUEUE_SIZE" "pq_heapify sn_distance" "pq_wf SEARCH_NODE_QUEUE_SIZE"
  by (rule pq_mutable_prio_queue)

text \<open>The pointer returned is the index into the queue's array.\<close>

definition search_node_queue_find_by_node :: "search_node_queue \<Rightarrow> nptr option \<Rightarrow> nat option" where
  "search_node_queue_find_by_node q tn =
     find (\<lambda>i. Some (sn_node (pq_elts q ! i)) = tn) [0..<pq_size q]"

section \<open>Planning\<close>

text \<open>\<open>current\<close> is the index in \<open>dequeued_nodes\<close>; direction 0 is ahead and straight, 1 curved.\<close>

definition update_search_node ::
  "track \<Rightarrow> search_node list \<Rightarrow> nat \<Rightarrow> nat \<Rightarrow> search_node_queue \<Rightarrow> search_node_queue option" where
  "update_search_node T dequeued_nodes current direction q = do {
     cur \<leftarrow> array_get dequeued_nodes current;
     n \<leftarrow> array_get T (sn_node cur);
     let e = (if direction = 0 then n_edge0 n else n_edge1 n);
     case search_node_queue_find_by_node q (e_dest e) of
       None \<Rightarrow> Some q
     | Some i \<Rightarrow> do {
         updated_distance \<leftarrow> int32 (sn_distance cur + e_dist e);
         let nd = pq_elts q ! i;
         Some (if updated_distance < sn_distance nd
           then q\<lparr>pq_elts := (pq_elts q)[i := nd\<lparr>sn_distance := updated_distance, sn_prev := Some current\<rparr>]\<rparr>
           else q)
       }
   }"

text \<open>The first loop: every node is enqueued. The result of \<open>enqueue\<close> is ignored.\<close>

definition enqueue_node :: "nptr option \<Rightarrow> nptr \<Rightarrow> search_node_queue \<Rightarrow> search_node_queue" where
  "enqueue_node start i q = fst (pq_enqueue sn_distance SEARCH_NODE_QUEUE_SIZE q
     \<lparr>sn_node = i, sn_distance = (if Some i = start then 0 else INFINITE_DISTANCE), sn_prev = None\<rparr>)"

definition enqueue_nodes :: "nat \<Rightarrow> nptr option \<Rightarrow> search_node_queue \<Rightarrow> search_node_queue" where
  "enqueue_nodes nodes start q = fold (enqueue_node start) [0..<nodes] q"

text \<open>The switch on the type of the node taken out.\<close>

definition expand_node ::
  "track \<Rightarrow> search_node list \<Rightarrow> nat \<Rightarrow> node_type \<Rightarrow> search_node_queue \<Rightarrow> search_node_queue option" where
  "expand_node T dequeued_nodes i ty q =
     (case ty of
        NODE_SENSOR \<Rightarrow> map_option (pq_heapify sn_distance) (update_search_node T dequeued_nodes i 0 q)
      | NODE_MERGE \<Rightarrow> map_option (pq_heapify sn_distance) (update_search_node T dequeued_nodes i 0 q)
      | NODE_ENTER \<Rightarrow> map_option (pq_heapify sn_distance) (update_search_node T dequeued_nodes i 0 q)
      | NODE_BRANCH \<Rightarrow> do {
          q1 \<leftarrow> update_search_node T dequeued_nodes i 0 q;
          q2 \<leftarrow> update_search_node T dequeued_nodes i 1 q1;
          Some (pq_heapify sn_distance q2)
        }
      | _ \<Rightarrow> Some q)"

partial_function (option) search_loop ::
  "track \<Rightarrow> nat \<Rightarrow> search_node_queue \<Rightarrow> search_node list \<Rightarrow> search_node list option" where
  "search_loop T nodes q dequeued_nodes =
     (case pq_peek q of
        None \<Rightarrow> Some dequeued_nodes
      | Some head \<Rightarrow> do {
          guard_opt (length dequeued_nodes < nodes);
          let (q1, current, r) = pq_dequeue sn_distance q head;
          let deq = dequeued_nodes @ [current];
          n \<leftarrow> array_get T (sn_node current);
          q2 \<leftarrow> expand_node T deq (length dequeued_nodes) (n_type n) q1;
          search_loop T nodes q2 deq
        })"

declare search_loop.simps [code]

text \<open>The last entry for the end node.\<close>

definition find_end :: "search_node list \<Rightarrow> nat \<Rightarrow> nptr option \<Rightarrow> nat option option" where
  "find_end dequeued_nodes nodes end_node = do {
     guard_opt (nodes \<le> length dequeued_nodes);
     Some (fold (\<lambda>i found. if Some (sn_node (dequeued_nodes ! i)) = end_node then Some i else found)
       [0..<nodes] None)
   }"

partial_function (option) path_length_loop :: "search_node list \<Rightarrow> nat \<Rightarrow> nat \<Rightarrow> nat option" where
  "path_length_loop dequeued_nodes current path_length =
     (if current \<noteq> 0 then do {
        n \<leftarrow> array_get dequeued_nodes current;
        p \<leftarrow> sn_prev n;
        path_length_loop dequeued_nodes p (path_length + 1)
      }
      else Some path_length)"

declare path_length_loop.simps [code]

text \<open>The loop that fills the route from its end: entries \<open>i - 1\<close> down to 0.\<close>

primrec fill_route :: "search_node list \<Rightarrow> nat \<Rightarrow> nat option \<Rightarrow> route \<Rightarrow> route option" where
  "fill_route dequeued_nodes 0 current route = Some route"
| "fill_route dequeued_nodes (Suc i) current route = do {
     c \<leftarrow> current;
     n \<leftarrow> array_get dequeued_nodes c;
     route' \<leftarrow> array_set route i (Some (sn_node n));
     fill_route dequeued_nodes i (sn_prev n) route'
   }"

definition plan_route ::
  "track \<Rightarrow> nat \<Rightarrow> search_node_queue \<Rightarrow> nptr option \<Rightarrow> nptr option \<Rightarrow> route \<Rightarrow> (bool \<times> route) option" where
  "plan_route T nodes q start_node end_node route = do {
     deq \<leftarrow> search_loop T nodes (enqueue_nodes nodes start_node (pq_init (pq_elts q))) [];
     found \<leftarrow> find_end deq nodes end_node;
     case found of
       None \<Rightarrow> Some (False, route)
     | Some i \<Rightarrow>
         if sn_prev (deq ! i) = None \<and> i \<noteq> 0 then Some (False, route)
         else do {
           path_length \<leftarrow> path_length_loop deq i 0;
           route' \<leftarrow> array_set route (path_length + 1) None;
           route'' \<leftarrow> fill_route deq (path_length + 1) (Some i) route';
           Some (True, route'')
         }
   }"

section \<open>The server\<close>

fun route_node_count_loop :: "route \<Rightarrow> nat \<Rightarrow> nat option" where
  "route_node_count_loop [] n = None"
| "route_node_count_loop (c # rest) n = (if c \<noteq> None then route_node_count_loop rest (n + 1) else Some n)"

definition route_node_count :: "route \<Rightarrow> nat option" where
  "route_node_count route = route_node_count_loop route 0"

definition route_length :: "track \<Rightarrow> route \<Rightarrow> int option" where
  "route_length T route = do {
     r0 \<leftarrow> array_get route 0;
     get_remaining_dist_in_route T route \<lparr>l_node = r0, l_offset = 0\<rparr>
   }"

datatype route_reply = REPLY_GET_ROUTE_OK | REPLY_GET_ROUTE_ERROR

text \<open>
  The answer to \<open>MESSAGE_GET_ROUTE\<close>: the reply and what the array of the sender's route holds then.
  \<open>q\<close>, \<open>forwards\<close> and \<open>backwards\<close> are what the stack of the server held.
\<close>

definition router_step ::
  "track \<Rightarrow> nat \<Rightarrow> search_node_queue \<Rightarrow> route \<Rightarrow> route \<Rightarrow> location \<Rightarrow> location \<Rightarrow> route \<Rightarrow>
   (route_reply \<times> route) option" where
  "router_step T nodes q forwards backwards start finish route = do {
     (forwards_success, f) \<leftarrow> plan_route T nodes q (l_node start) (l_node finish) forwards;
     end_backwards \<leftarrow> location_reverse T finish;
     (backwards_success, b) \<leftarrow> plan_route T nodes q (l_node start) (l_node end_backwards) backwards;
     if \<not> forwards_success \<and> \<not> backwards_success then Some (REPLY_GET_ROUTE_ERROR, route)
     else if forwards_success \<and> backwards_success then do {
       lf \<leftarrow> route_length T f;
       lb \<leftarrow> route_length T b;
       Some (REPLY_GET_ROUTE_OK, if lf < lb then f else b)
     }
     else Some (REPLY_GET_ROUTE_OK, if forwards_success then f else b)
   }"

text \<open>The client's side: result code and route, and whether \<open>reroute\<close> tells its caller to stop.\<close>

definition get_route ::
  "track \<Rightarrow> nat \<Rightarrow> search_node_queue \<Rightarrow> route \<Rightarrow> route \<Rightarrow> location \<Rightarrow> location \<Rightarrow> route \<Rightarrow>
   (int \<times> route) option" where
  "get_route T nodes q forwards backwards start finish route = do {
     (reply, route') \<leftarrow> router_step T nodes q forwards backwards start finish route;
     case reply of
       REPLY_GET_ROUTE_OK \<Rightarrow> Some (0, route')
     | REPLY_GET_ROUTE_ERROR \<Rightarrow> Some (-1, route')
   }"

definition reroute ::
  "track \<Rightarrow> nat \<Rightarrow> search_node_queue \<Rightarrow> route \<Rightarrow> route \<Rightarrow> location \<Rightarrow> location \<Rightarrow> route \<Rightarrow>
   (bool \<times> route) option" where
  "reroute T nodes q forwards backwards start finish route = do {
     (route_result, route') \<leftarrow> get_route T nodes q forwards backwards start finish route;
     Some (route_result < 0, route')
   }"

section \<open>Updating a node in the queue\<close>

definition relax :: "int \<Rightarrow> nat \<Rightarrow> nptr \<times> int \<Rightarrow> search_node \<Rightarrow> search_node" where
  "relax cd idx e x =
     (if sn_node x = fst e \<and> cd + snd e < sn_distance x
      then x\<lparr>sn_distance := cd + snd e, sn_prev := Some idx\<rparr> else x)"

lemma relax_node [simp]: "sn_node (relax cd idx e x) = sn_node x"
  by (simp add: relax_def)

abbreviation live :: "search_node_queue \<Rightarrow> search_node list" where
  "live q \<equiv> take (pq_size q) (pq_elts q)"

lemma find_by_node_Some:
  assumes "search_node_queue_find_by_node q tn = Some i"
  shows "i < pq_size q" "Some (sn_node (pq_elts q ! i)) = tn"
  using assms unfolding search_node_queue_find_by_node_def by (auto simp: find_Some_iff)

lemma find_by_node_None:
  assumes "search_node_queue_find_by_node q tn = None" "i < pq_size q"
  shows "Some (sn_node (pq_elts q ! i)) \<noteq> tn"
  using assms unfolding search_node_queue_find_by_node_def by (auto simp: find_None_iff)

lemma update_search_node_relax:
  assumes wf: "pq_wf SEARCH_NODE_QUEUE_SIZE q" and dist: "distinct (map sn_node (live q))"
    and cur: "idx < length deq" "sn_node (deq ! idx) < length T"
    and e: "e = (if direction = 0 then n_edge0 else n_edge1) (T ! sn_node (deq ! idx))" "e_dest e = Some v"
    and range: "int_range (sn_distance (deq ! idx) + e_dist e)"
  shows "\<exists>q'. update_search_node T deq idx direction q = Some q' \<and> pq_wf SEARCH_NODE_QUEUE_SIZE q' \<and>
    pq_size q' = pq_size q \<and> live q' = map (relax (sn_distance (deq ! idx)) idx (v, e_dist e)) (live q)"
proof -
  let ?f = "relax (sn_distance (deq ! idx)) idx (v, e_dist e)"
  have le: "pq_size q \<le> length (pq_elts q)" using wf by (simp add: pq_wf_def)
  have ed: "e = (if direction = 0 then n_edge0 (T ! sn_node (deq ! idx)) else n_edge1 (T ! sn_node (deq ! idx)))"
    using e(1) by simp
  show ?thesis
  proof (cases "search_node_queue_find_by_node q (Some v)")
    case None
    have "live q = map ?f (live q)"
    proof (rule nth_equalityI)
      fix i assume "i < length (live q)"
      then show "live q ! i = map ?f (live q) ! i"
        using find_by_node_None [OF None, of i] le by (simp add: relax_def)
    qed simp
    then show ?thesis using None wf cur e(2)
      by (simp add: update_search_node_def Let_def flip: ed)
  next
    case (Some i)
    note i = find_by_node_Some [OF Some]
    have other: "sn_node (pq_elts q ! j) \<noteq> v" if "j < pq_size q" "j \<noteq> i" for j
    proof
      assume "sn_node (pq_elts q ! j) = v"
      then have "map sn_node (live q) ! j = map sn_node (live q) ! i" using i that le by simp
      then show False using nth_eq_iff_index_eq [OF dist, of j i] i(1) that le by simp
    qed
    define q' where "q' = (if sn_distance (deq ! idx) + e_dist e < sn_distance (pq_elts q ! i)
      then q\<lparr>pq_elts := (pq_elts q)[i := (pq_elts q ! i)\<lparr>sn_distance := sn_distance (deq ! idx) + e_dist e,
        sn_prev := Some idx\<rparr>]\<rparr> else q)"
    have "update_search_node T deq idx direction q = Some q'"
      using Some cur e(2) range unfolding q'_def
      by (simp add: update_search_node_def Let_def int32_def int_range_def flip: ed)
    moreover have "live q' = map ?f (live q)"
    proof (rule nth_equalityI)
      fix j assume "j < length (live q')"
      then have "j < pq_size q" by (auto simp: q'_def split: if_splits)
      then show "live q' ! j = map ?f (live q) ! j"
        using i le other [of j] by (cases "j = i") (auto simp: q'_def relax_def)
    qed (simp add: q'_def)
    ultimately show ?thesis using wf by (intro exI [of _ q']) (simp add: q'_def pq_wf_def)
  qed
qed

end
