(* ===== verification/Shortest_Route.thy ===== *)
theory Shortest_Route
  imports Router
begin

text \<open>
  What the router's search computes: the shortest routes of the directed graph whose edges are the
  ones trains can take. The search invariant is stated over the nodes taken out so far and the bag
  of the queue.
\<close>

section \<open>Routes as paths\<close>

definition edges_of :: "track_node \<Rightarrow> track_edge list" where
  "edges_of n = (case n_type n of
     NODE_SENSOR \<Rightarrow> [n_edge0 n] | NODE_MERGE \<Rightarrow> [n_edge0 n] | NODE_ENTER \<Rightarrow> [n_edge0 n]
   | NODE_BRANCH \<Rightarrow> [n_edge0 n, n_edge1 n] | _ \<Rightarrow> [])"

definition track_link :: "track \<Rightarrow> nptr \<Rightarrow> nptr \<Rightarrow> int \<Rightarrow> bool" where
  "track_link T u v d \<longleftrightarrow> u < length T \<and> (\<exists>e \<in> set (edges_of (T ! u)). e_dest e = Some v \<and> e_dist e = d)"

text \<open>\<open>route_path T s p v d\<close>: the nodes \<open>p\<close> lead from \<open>s\<close> to \<open>v\<close> over a distance of \<open>d\<close> mm.\<close>

inductive route_path :: "track \<Rightarrow> nptr \<Rightarrow> nptr list \<Rightarrow> nptr \<Rightarrow> int \<Rightarrow> bool" for T s where
  start: "route_path T s [s] s 0"
| extend: "route_path T s p u d \<Longrightarrow> track_link T u v w \<Longrightarrow> route_path T s (p @ [v]) v (d + w)"

inductive_cases route_pathE: "route_path T s p v d"

text \<open>
  A track the search can work on: every edge a train can take leads to a node of the track, over at
  most 100 m, two edges of a branch to the same node are equally long, and there are fewer nodes than
  a route has entries.
\<close>

definition run_edge_ok :: "nat \<Rightarrow> track_edge \<Rightarrow> bool" where
  "run_edge_ok nodes e \<longleftrightarrow> (case e_dest e of None \<Rightarrow> False | Some v \<Rightarrow> v < nodes) \<and>
     0 \<le> e_dist e \<and> e_dist e \<le> 100000"

definition twin_ok :: "track_node \<Rightarrow> bool" where
  "twin_ok n \<longleftrightarrow> n_type n \<noteq> NODE_BRANCH \<or> STRAIGHT n \<noteq> CURVED n \<or> e_dist (n_edge0 n) = e_dist (n_edge1 n)"

definition routable :: "track \<Rightarrow> nat \<Rightarrow> bool" where
  "routable T nodes \<longleftrightarrow> nodes \<le> length T \<and> nodes < MAX_ROUTE_LENGTH \<and>
     list_all (\<lambda>n. list_all (run_edge_ok nodes) (edges_of n) \<and> twin_ok n) (take nodes T)"

lemma routable_edge:
  assumes "routable T nodes" "u < nodes" "e \<in> set (edges_of (T ! u))"
  obtains v where "e_dest e = Some v" "v < nodes" "0 \<le> e_dist e" "e_dist e \<le> 100000" "track_link T u v (e_dist e)"
proof -
  have "T ! u \<in> set (take nodes T)" using assms(1,2)
    by (auto simp: routable_def in_set_conv_nth intro!: exI [of _ u])
  then have "run_edge_ok nodes e" using assms(1,3) by (auto simp: routable_def list_all_iff)
  then show ?thesis using that assms by (auto simp: run_edge_ok_def track_link_def routable_def split: option.splits)
qed

lemma routable_link:
  assumes "routable T nodes" "u < nodes" "track_link T u v d"
  shows "v < nodes" "0 \<le> d" "d \<le> 100000"
  using assms by (auto simp: track_link_def elim!: routable_edge)

section \<open>One expansion\<close>

text \<open>The effect of expanding a node on every element of the queue.\<close>

definition expand :: "int \<Rightarrow> nat \<Rightarrow> track_edge list \<Rightarrow> search_node \<Rightarrow> search_node" where
  "expand cd idx es = fold (\<lambda>e. relax cd idx (the (e_dest e), e_dist e)) es"

lemma expand_props:
  "sn_node (expand cd idx es x) = sn_node x \<and> sn_distance (expand cd idx es x) \<le> sn_distance x \<and>
   (\<forall>e \<in> set es. e_dest e = Some (sn_node x) \<longrightarrow> sn_distance (expand cd idx es x) \<le> cd + e_dist e) \<and>
   (expand cd idx es x = x \<or> sn_prev (expand cd idx es x) = Some idx \<and>
     sn_distance (expand cd idx es x) < sn_distance x \<and>
     (\<exists>e \<in> set es. the (e_dest e) = sn_node x \<and> sn_distance (expand cd idx es x) = cd + e_dist e))"
proof (induction es arbitrary: x)
  case (Cons e es)
  define y where "y = relax cd idx (the (e_dest e), e_dist e) x"
  have y: "expand cd idx (e # es) x = expand cd idx es y" by (simp add: expand_def y_def)
  have yx: "sn_node y = sn_node x" "sn_distance y \<le> sn_distance x"
    "e_dest e = Some (sn_node x) \<longrightarrow> sn_distance y \<le> cd + e_dist e"
    "y = x \<or> sn_prev y = Some idx \<and> sn_distance y < sn_distance x \<and> the (e_dest e) = sn_node x \<and>
       sn_distance y = cd + e_dist e"
    by (auto simp: y_def relax_def)
  from Cons.IH [of y] yx show ?case unfolding y by (auto intro: order_trans)
qed (simp add: expand_def)

lemma expand_node_ok:
  assumes wf: "pq_wf SEARCH_NODE_QUEUE_SIZE q" and inv: "pq_inv sn_distance SEARCH_NODE_QUEUE_SIZE q"
    and dist: "distinct (map sn_node (live q))"
    and T: "routable T nodes" and cur: "idx < length deq" "sn_node (deq ! idx) < nodes"
    and range: "0 \<le> sn_distance (deq ! idx)" "sn_distance (deq ! idx) \<le> INFINITE_DISTANCE"
  shows "\<exists>q'. expand_node T deq idx (n_type (T ! sn_node (deq ! idx))) q = Some q' \<and>
    pq_inv sn_distance SEARCH_NODE_QUEUE_SIZE q' \<and> pq_size q' = pq_size q \<and>
    pq_bag q' = image_mset (expand (sn_distance (deq ! idx)) idx (edges_of (T ! sn_node (deq ! idx)))) (pq_bag q)"
proof -
  let ?n = "T ! sn_node (deq ! idx)" and ?cd = "sn_distance (deq ! idx)"
  have lT: "sn_node (deq ! idx) < length T" using T cur(2) by (simp add: routable_def)
  have one: "\<exists>q'. update_search_node T deq idx dir q0 = Some q' \<and> pq_wf SEARCH_NODE_QUEUE_SIZE q' \<and>
      pq_size q' = pq_size q0 \<and> live q' = map (relax ?cd idx (the (e_dest e), e_dist e)) (live q0) \<and>
      distinct (map sn_node (live q'))"
    if q0: "pq_wf SEARCH_NODE_QUEUE_SIZE q0" "distinct (map sn_node (live q0))"
      and e: "e \<in> set (edges_of ?n)" "e = (if dir = 0 then n_edge0 else n_edge1) ?n" for q0 e dir
  proof -
    obtain v where v: "e_dest e = Some v" "0 \<le> e_dist e" "e_dist e \<le> 100000"
      using routable_edge [OF T cur(2) e(1)] by metis
    have r: "int_range (?cd + e_dist e)" using range v by (simp add: int_range_def INFINITE_DISTANCE_def)
    obtain q' where q': "update_search_node T deq idx dir q0 = Some q'" "pq_wf SEARCH_NODE_QUEUE_SIZE q'"
      "pq_size q' = pq_size q0" "live q' = map (relax ?cd idx (v, e_dist e)) (live q0)"
      using update_search_node_relax [OF q0 cur(1) lT e(2) v(1) r] by blast
    show ?thesis using q' v(1) q0(2) by (intro exI [of _ q']) (simp add: o_def)
  qed
  have heap: "pq_inv sn_distance SEARCH_NODE_QUEUE_SIZE (pq_heapify sn_distance q') \<and>
      pq_size (pq_heapify sn_distance q') = pq_size q' \<and> pq_bag (pq_heapify sn_distance q') = pq_bag q'"
    if "pq_wf SEARCH_NODE_QUEUE_SIZE q'" for q'
    using snq.heapify_inv [OF that] snq.heapify_bag [OF that] by (simp add: pq_heapify_def)
  have single: ?thesis if "edges_of ?n = [n_edge0 ?n]"
    "expand_node T deq idx (n_type ?n) q = map_option (pq_heapify sn_distance) (update_search_node T deq idx 0 q)"
    using one [OF wf dist, of "n_edge0 ?n" 0] that heap by (fastforce simp: expand_def pq_bag_def)
  show ?thesis
  proof (cases "n_type ?n")
    case NODE_BRANCH
    have e: "n_edge0 ?n \<in> set (edges_of ?n)" "n_edge1 ?n \<in> set (edges_of ?n)"
      "n_edge0 ?n = (if (0::nat) = 0 then n_edge0 else n_edge1) ?n"
      "n_edge1 ?n = (if (1::nat) = 0 then n_edge0 else n_edge1) ?n"
      by (simp_all add: edges_of_def NODE_BRANCH)
    obtain q1 where q1: "update_search_node T deq idx 0 q = Some q1" "pq_wf SEARCH_NODE_QUEUE_SIZE q1"
      "pq_size q1 = pq_size q" "live q1 = map (relax ?cd idx (the (e_dest (n_edge0 ?n)), e_dist (n_edge0 ?n))) (live q)"
      "distinct (map sn_node (live q1))"
      using one [OF wf dist e(1,3)] by blast
    obtain q2 where q2: "update_search_node T deq idx 1 q1 = Some q2" "pq_wf SEARCH_NODE_QUEUE_SIZE q2"
      "pq_size q2 = pq_size q1" "live q2 = map (relax ?cd idx (the (e_dest (n_edge1 ?n)), e_dist (n_edge1 ?n))) (live q1)"
      using one [OF q1(2,5) e(2,4)] by blast
    have "pq_bag q2 = image_mset (expand ?cd idx (edges_of ?n)) (pq_bag q)"
      using q1(3,4) q2(3,4) NODE_BRANCH by (simp add: pq_bag_def edges_of_def expand_def o_def)
    then show ?thesis using NODE_BRANCH q1 q2 heap [OF q2(2)] by (simp add: expand_node_def)
  next
    case NODE_SENSOR
    show ?thesis by (rule single) (simp_all add: NODE_SENSOR edges_of_def expand_node_def)
  next
    case NODE_MERGE
    show ?thesis by (rule single) (simp_all add: NODE_MERGE edges_of_def expand_node_def)
  next
    case NODE_ENTER
    show ?thesis by (rule single) (simp_all add: NODE_ENTER edges_of_def expand_node_def)
  qed (use inv in \<open>simp_all add: expand_node_def edges_of_def expand_def\<close>)
qed

section \<open>The search invariant\<close>

definition label_ok :: "track \<Rightarrow> nptr \<Rightarrow> search_node list \<Rightarrow> nat \<Rightarrow> search_node \<Rightarrow> bool" where
  "label_ok T s deq k x \<longleftrightarrow>
     sn_prev x = None \<and> sn_distance x = (if sn_node x = s then 0 else INFINITE_DISTANCE) \<or>
     (\<exists>j < k. sn_prev x = Some j \<and> sn_node x \<noteq> s \<and> sn_distance x < INFINITE_DISTANCE \<and>
        track_link T (sn_node (deq ! j)) (sn_node x) (sn_distance x - sn_distance (deq ! j)))"

definition search_inv :: "track \<Rightarrow> nat \<Rightarrow> nptr \<Rightarrow> search_node list \<Rightarrow> search_node multiset \<Rightarrow> bool" where
  "search_inv T nodes s deq B \<longleftrightarrow>
     mset (map sn_node deq) + image_mset sn_node B = mset [0..<nodes] \<and>
     sorted (map sn_distance deq) \<and>
     (\<forall>u \<in> set deq. \<forall>x \<in># B. sn_distance u \<le> sn_distance x) \<and>
     (\<forall>x \<in> set deq \<union> set_mset B. 0 \<le> sn_distance x \<and> sn_distance x \<le> INFINITE_DISTANCE) \<and>
     (\<forall>i < length deq. label_ok T s deq i (deq ! i)) \<and>
     (\<forall>x \<in># B. label_ok T s deq (length deq) x) \<and>
     (\<forall>u \<in> set deq. \<forall>x \<in> set deq \<union> set_mset B. \<forall>d. track_link T (sn_node u) (sn_node x) d \<longrightarrow>
        sn_distance x \<le> sn_distance u + d) \<and>
     (deq \<noteq> [] \<longrightarrow> sn_node (deq ! 0) = s)"

text \<open>Labels only refer to what has been taken out before.\<close>

lemma label_ok_append:
  assumes "label_ok T s deq k x" "k \<le> length deq"
  shows "label_ok T s (deq @ [c]) k x"
proof -
  have "(deq @ [c]) ! j = deq ! j" if "j < k" for j using that assms(2) by (simp add: nth_append)
  then show ?thesis using assms(1) unfolding label_ok_def by (simp cong: conj_cong)
qed

lemma label_ok_mono: "label_ok T s deq k x \<Longrightarrow> k \<le> l \<Longrightarrow> label_ok T s deq l x"
  unfolding label_ok_def by (meson order_less_le_trans)

lemma search_inv_nodes:
  assumes "search_inv T nodes s deq B"
  shows "\<And>x. x \<in> set deq \<Longrightarrow> sn_node x < nodes" "\<And>x. x \<in># B \<Longrightarrow> sn_node x < nodes"
    "length deq + size B = nodes" "distinct (map sn_node deq)"
proof -
  have m: "mset (map sn_node deq) + image_mset sn_node B = mset [0..<nodes]"
    using assms by (simp add: search_inv_def)
  have *: "set (map sn_node deq) \<union> sn_node ` set_mset B = {..<nodes}"
    using arg_cong [OF m, of set_mset] by (auto simp: atLeast_upt)
  show "\<And>x. x \<in> set deq \<Longrightarrow> sn_node x < nodes" "\<And>x. x \<in># B \<Longrightarrow> sn_node x < nodes" using * by auto
  show "length deq + size B = nodes" using arg_cong [OF m, of size] by simp
  obtain xs where "mset xs = image_mset sn_node B" using ex_mset by blast
  then have "mset (map sn_node deq @ xs) = mset [0..<nodes]" using m by simp
  then have "distinct (map sn_node deq @ xs)" using mset_eq_imp_distinct_iff distinct_upt by blast
  then show "distinct (map sn_node deq)" by simp
qed

text \<open>Taking out a least element and expanding it keeps the invariant.\<close>

lemma search_inv_step:
  assumes inv: "search_inv T nodes s deq (add_mset c B)"
    and T: "routable T nodes" and s: "s < nodes"
    and least: "\<And>x. x \<in># B \<Longrightarrow> sn_distance c \<le> sn_distance x"
  shows "search_inv T nodes s (deq @ [c])
    (image_mset (expand (sn_distance c) (length deq) (edges_of (T ! sn_node c))) B)"
proof -
  let ?f = "expand (sn_distance c) (length deq) (edges_of (T ! sn_node c))"
  have c: "sn_node c < nodes" and B: "\<And>x. x \<in># B \<Longrightarrow> sn_node x < nodes"
    using search_inv_nodes(2) [OF inv] by auto
  have m: "mset (map sn_node deq) + image_mset sn_node (add_mset c B) = mset [0..<nodes]"
    and srt: "sorted (map sn_distance deq)"
    and low: "\<And>u x. u \<in> set deq \<Longrightarrow> x = c \<or> x \<in># B \<Longrightarrow> sn_distance u \<le> sn_distance x"
    and rng: "\<And>x. x \<in> set deq \<or> x = c \<or> x \<in># B \<Longrightarrow> 0 \<le> sn_distance x \<and> sn_distance x \<le> INFINITE_DISTANCE"
    and lab: "\<And>i. i < length deq \<Longrightarrow> label_ok T s deq i (deq ! i)"
    and labB: "\<And>x. x = c \<or> x \<in># B \<Longrightarrow> label_ok T s deq (length deq) x"
    and rel: "\<And>u x d. u \<in> set deq \<Longrightarrow> x \<in> set deq \<or> x = c \<or> x \<in># B \<Longrightarrow>
      track_link T (sn_node u) (sn_node x) d \<Longrightarrow> sn_distance x \<le> sn_distance u + d"
    and first: "deq \<noteq> [] \<Longrightarrow> sn_node (deq ! 0) = s"
    using inv unfolding search_inv_def by auto
  have f: "sn_node (?f x) = sn_node x" "sn_distance (?f x) \<le> sn_distance x" for x
    using expand_props [of "sn_distance c" "length deq" "edges_of (T ! sn_node c)" x] by auto
  have f_link: "sn_distance (?f x) \<le> sn_distance c + d" if "track_link T (sn_node c) (sn_node x) d" for x d
    using expand_props [of "sn_distance c" "length deq" "edges_of (T ! sn_node c)" x] that
    by (auto simp: track_link_def)
  have f_cases: "?f x = x \<or> sn_prev (?f x) = Some (length deq) \<and> sn_distance (?f x) < sn_distance x \<and>
      0 \<le> sn_distance (?f x) - sn_distance c \<and>
      track_link T (sn_node c) (sn_node x) (sn_distance (?f x) - sn_distance c)" for x
  proof -
    consider "?f x = x" | e where "e \<in> set (edges_of (T ! sn_node c))" "the (e_dest e) = sn_node x"
      "sn_distance (?f x) = sn_distance c + e_dist e" "sn_prev (?f x) = Some (length deq)"
      "sn_distance (?f x) < sn_distance x"
      using expand_props [of "sn_distance c" "length deq" "edges_of (T ! sn_node c)" x] by blast
    then show ?thesis
    proof cases
      case 2
      from routable_edge [OF T c 2(1)] obtain v where "e_dest e = Some v" "0 \<le> e_dist e"
        "track_link T (sn_node c) v (e_dist e)" by metis
      then show ?thesis using 2 by simp
    qed simp
  qed
  have c_le: "sn_distance c \<le> sn_distance (?f x)" if "x \<in># B" for x
    using f_cases [of x] least [OF that] by auto
  have srt': "sorted (map sn_distance (deq @ [c]))" using srt low by (auto simp: sorted_append)
  have low': "sn_distance u \<le> sn_distance (?f x)" if "u \<in> set (deq @ [c])" "x \<in># B" for u x
    using that low [of u c] c_le [of x] by (auto intro: order_trans)
  have rng': "0 \<le> sn_distance (?f x) \<and> sn_distance (?f x) \<le> INFINITE_DISTANCE" if "x \<in># B" for x
    using c_le [OF that] rng [of c] rng [of x] f(2) [of x] that by auto
  have lab': "label_ok T s (deq @ [c]) i ((deq @ [c]) ! i)" if "i < length (deq @ [c])" for i
    using that lab [of i] labB [of c] by (auto simp: nth_append less_Suc_eq intro: label_ok_append)
  have labB': "label_ok T s (deq @ [c]) (Suc (length deq)) (?f x)" if x: "x \<in># B" for x
  proof (cases "?f x = x")
    case True
    then show ?thesis using labB [of x] x label_ok_append label_ok_mono by (metis le_refl lessI less_imp_le)
  next
    case False
    then have new: "sn_prev (?f x) = Some (length deq)" "sn_distance (?f x) < sn_distance x"
      "0 \<le> sn_distance (?f x) - sn_distance c"
      "track_link T (sn_node c) (sn_node x) (sn_distance (?f x) - sn_distance c)"
      using f_cases [of x] by auto
    have "sn_node x \<noteq> s" using labB [of x] x new(2,3) rng [of c] by (auto simp: label_ok_def)
    then show ?thesis using new rng [of x] x f(1) [of x] unfolding label_ok_def
      by (intro disjI2 exI [of _ "length deq"]) auto
  qed
  have rel': "sn_distance y \<le> sn_distance u + d"
    if "u \<in> set (deq @ [c])" "y \<in> set (deq @ [c]) \<or> (\<exists>x. x \<in># B \<and> y = ?f x)"
      "track_link T (sn_node u) (sn_node y) d" for u y d
  proof -
    have "0 \<le> d" using routable_link [OF T _ that(3)] that(1) c search_inv_nodes(1) [OF inv] by auto
    show ?thesis
    proof (cases "u = c")
      case True
      then show ?thesis using that f_link f(1) low [of y c] \<open>0 \<le> d\<close> by auto
    next
      case False
      then have u: "u \<in> set deq" using that(1) by simp
      show ?thesis using that(2)
      proof (elim disjE exE conjE)
        fix x assume "x \<in># B" "y = ?f x"
        then show ?thesis using rel [of u x d] u that(3) f(1,2) [of x] by auto
      qed (use rel [of u y d] u that(3) in auto)
    qed
  qed
  have first': "sn_node ((deq @ [c]) ! 0) = s"
  proof (cases "deq = []")
    case True
    have "sn_node ` set_mset (add_mset c B) = {..<nodes}"
      using arg_cong [OF m, of set_mset] True by (simp add: atLeast_upt)
    then have "s \<in> sn_node ` set_mset (add_mset c B)" using s by simp
    then have "\<exists>x. x \<in># add_mset c B \<and> sn_node x = s" by blast
    then obtain x where x: "x = c \<or> x \<in># B" "sn_node x = s" by auto
    then have "sn_distance c \<le> 0" using labB [of x] least [of x] True by (auto simp: label_ok_def)
    then show ?thesis using labB [of c] True by (auto simp: label_ok_def INFINITE_DISTANCE_def split: if_splits)
  qed (use first in \<open>auto simp: nth_append\<close>)
  have m': "mset (map sn_node (deq @ [c])) + image_mset sn_node (image_mset ?f B) = mset [0..<nodes]"
    using m f(1) by (simp add: multiset.map_comp o_def)
  show ?thesis
    unfolding search_inv_def
  proof (intro conjI)
    show "mset (map sn_node (deq @ [c])) + image_mset sn_node (image_mset ?f B) = mset [0..<nodes]" by (rule m')
    show "sorted (map sn_distance (deq @ [c]))" by (rule srt')
    show "\<forall>u \<in> set (deq @ [c]). \<forall>x \<in># image_mset ?f B. sn_distance u \<le> sn_distance x"
      using low' by auto
    show "\<forall>x \<in> set (deq @ [c]) \<union> set_mset (image_mset ?f B). 0 \<le> sn_distance x \<and> sn_distance x \<le> INFINITE_DISTANCE"
      using rng rng' by auto
    show "\<forall>i < length (deq @ [c]). label_ok T s (deq @ [c]) i ((deq @ [c]) ! i)" using lab' by blast
    show "\<forall>x \<in># image_mset ?f B. label_ok T s (deq @ [c]) (length (deq @ [c])) x" using labB' by auto
    show "\<forall>u \<in> set (deq @ [c]). \<forall>x \<in> set (deq @ [c]) \<union> set_mset (image_mset ?f B). \<forall>d.
        track_link T (sn_node u) (sn_node x) d \<longrightarrow> sn_distance x \<le> sn_distance u + d"
    proof (intro ballI allI impI)
      fix u y d
      assume a: "u \<in> set (deq @ [c])" "y \<in> set (deq @ [c]) \<union> set_mset (image_mset ?f B)"
        "track_link T (sn_node u) (sn_node y) d"
      then have "y \<in> set (deq @ [c]) \<or> (\<exists>x. x \<in># B \<and> y = ?f x)" by (elim UnE) auto
      then show "sn_distance y \<le> sn_distance u + d" using rel' a(1,3) by blast
    qed
    show "deq @ [c] \<noteq> [] \<longrightarrow> sn_node ((deq @ [c]) ! 0) = s" using first' by blast
  qed
qed

section \<open>The search\<close>

definition start_label :: "nptr \<Rightarrow> nptr \<Rightarrow> search_node" where
  "start_label s i = \<lparr>sn_node = i, sn_distance = (if i = s then 0 else INFINITE_DISTANCE), sn_prev = None\<rparr>"

lemma enqueue_nodes_bag:
  assumes "length (pq_elts q) = SEARCH_NODE_QUEUE_SIZE"
  shows "k \<le> SEARCH_NODE_QUEUE_SIZE \<Longrightarrow>
    pq_inv sn_distance SEARCH_NODE_QUEUE_SIZE (enqueue_nodes k (Some s) (pq_init (pq_elts q))) \<and>
    pq_bag (enqueue_nodes k (Some s) (pq_init (pq_elts q))) = image_mset (start_label s) (mset [0..<k])"
proof (induction k)
  case 0
  then show ?case using assms by (simp add: enqueue_nodes_def pq_init_inv pq_bag_init)
next
  case (Suc k)
  let ?q = "enqueue_nodes k (Some s) (pq_init (pq_elts q))"
  have IH: "pq_inv sn_distance SEARCH_NODE_QUEUE_SIZE ?q" "pq_bag ?q = image_mset (start_label s) (mset [0..<k])"
    using Suc by auto
  have "size (pq_bag ?q) < SEARCH_NODE_QUEUE_SIZE" using IH(2) Suc.prems by simp
  moreover have "enqueue_nodes (Suc k) (Some s) (pq_init (pq_elts q)) =
      fst (pq_enqueue sn_distance SEARCH_NODE_QUEUE_SIZE ?q (start_label s k))"
    by (simp add: enqueue_nodes_def enqueue_node_def start_label_def)
  ultimately show ?case using snq.enq_ok [OF IH(1), of "start_label s k"] IH(2) by simp
qed

lemma search_inv_init: "search_inv T nodes s [] (image_mset (start_label s) (mset [0..<nodes]))"
  by (auto simp: search_inv_def start_label_def label_ok_def INFINITE_DISTANCE_def multiset.map_comp o_def)

lemma live_distinct:
  assumes "search_inv T nodes s deq (pq_bag q)"
  shows "distinct (map sn_node (live q))"
proof -
  have "mset (map sn_node deq @ map sn_node (live q)) = mset [0..<nodes]"
    using assms by (simp add: search_inv_def pq_bag_def)
  then have "distinct (map sn_node deq @ map sn_node (live q))"
    using mset_eq_imp_distinct_iff distinct_upt by blast
  then show ?thesis by simp
qed

lemma search_loop_total:
  assumes "routable T nodes" "s < nodes" "pq_inv sn_distance SEARCH_NODE_QUEUE_SIZE q"
    "search_inv T nodes s deq (pq_bag q)"
  shows "\<exists>deq'. search_loop T nodes q deq = Some deq' \<and> search_inv T nodes s deq' {#}"
  using assms(3,4)
proof (induction "pq_size q" arbitrary: q deq)
  case 0
  then have "pq_bag q = {#}" by (simp add: pq_bag_def)
  then show ?case using 0 snq.peek_None [OF 0(2)] by (simp add: search_loop.simps)
next
  case (Suc k)
  note T = assms(1,2)
  have wf: "pq_wf SEARCH_NODE_QUEUE_SIZE q" using snq.inv_wf [OF Suc(3)] .
  then have "size (pq_bag q) = Suc k" using size_pq_bag [OF wf] Suc(2) by simp
  then have "pq_bag q \<noteq> {#}" by auto
  then obtain c where peek: "pq_peek q = Some c" using snq.peek_None [OF Suc(3)] by auto
  obtain q1 where q1: "pq_dequeue sn_distance q c = (q1, c, 0)" "pq_inv sn_distance SEARCH_NODE_QUEUE_SIZE q1"
    "pq_bag q = add_mset c (pq_bag q1)"
    using snq.deq_ok [OF Suc(3) peek] by blast
  have wf1: "pq_wf SEARCH_NODE_QUEUE_SIZE q1" using snq.inv_wf [OF q1(2)] .
  have inv: "search_inv T nodes s deq (add_mset c (pq_bag q1))" using Suc(4) q1(3) by simp
  have sz: "pq_size q1 = k" "length deq < nodes"
    using search_inv_nodes(3) [OF inv] size_pq_bag [OF wf1] size_pq_bag [OF wf] q1(3) Suc(2) by auto
  have least: "sn_distance c \<le> sn_distance x" if "x \<in># pq_bag q1" for x
    using snq.peek_min [OF Suc(3) peek, of x] q1(3) that by simp
  have c: "sn_node c < nodes" using search_inv_nodes(2) [OF inv] by simp
  have rng: "0 \<le> sn_distance c" "sn_distance c \<le> INFINITE_DISTANCE" using inv by (auto simp: search_inv_def)
  have "distinct (map sn_node deq @ map sn_node (live q1) @ [sn_node c])"
  proof -
    have "mset (map sn_node deq @ map sn_node (live q1) @ [sn_node c]) = mset [0..<nodes]"
      using inv by (simp add: search_inv_def pq_bag_def)
    then show ?thesis using mset_eq_imp_distinct_iff distinct_upt by blast
  qed
  then have dist: "distinct (map sn_node (live q1))" by simp
  let ?deq = "deq @ [c]" and ?i = "length deq"
  obtain q2 where q2: "expand_node T ?deq ?i (n_type (T ! sn_node (?deq ! ?i))) q1 = Some q2"
    "pq_inv sn_distance SEARCH_NODE_QUEUE_SIZE q2" "pq_size q2 = pq_size q1"
    "pq_bag q2 = image_mset (expand (sn_distance (?deq ! ?i)) ?i (edges_of (T ! sn_node (?deq ! ?i)))) (pq_bag q1)"
    using expand_node_ok [OF wf1 q1(2) dist T(1), of ?i ?deq] c rng by auto
  have "search_inv T nodes s ?deq (pq_bag q2)"
    using search_inv_step [OF inv T least] q2(4) by simp
  then obtain deq' where "search_loop T nodes q2 ?deq = Some deq'" "search_inv T nodes s deq' {#}"
    using Suc(1) [of q2 ?deq] q2(2,3) sz(1) by auto
  moreover have "sn_node c < length T" using c T(1) by (simp add: routable_def)
  ultimately show ?case using peek q1(1) q2(1) sz(2)
    by (subst search_loop.simps) (simp add: Let_def)
qed

section \<open>What the labels say\<close>

lemma label_bound:
  assumes T: "routable T nodes" and inv: "search_inv T nodes s deq {#}"
  shows "i < length deq \<Longrightarrow> sn_distance (deq ! i) < INFINITE_DISTANCE \<Longrightarrow>
    sn_distance (deq ! i) \<le> 100000 * int i"
proof (induction i rule: less_induct)
  case (less i)
  have lab: "label_ok T s deq i (deq ! i)" using inv less.prems(1) by (simp add: search_inv_def)
  show ?case
  proof (cases "sn_prev (deq ! i)")
    case None
    then show ?thesis using lab less.prems by (auto simp: label_ok_def split: if_splits)
  next
    case (Some j)
    then have j: "j < i" "track_link T (sn_node (deq ! j)) (sn_node (deq ! i)) (sn_distance (deq ! i) - sn_distance (deq ! j))"
      using lab by (auto simp: label_ok_def)
    have "sn_node (deq ! j) < nodes" using search_inv_nodes(1) [OF inv] j(1) less.prems(1) by simp
    from routable_link [OF T this j(2)] have d: "0 \<le> sn_distance (deq ! i) - sn_distance (deq ! j)"
      "sn_distance (deq ! i) - sn_distance (deq ! j) \<le> 100000" by auto
    then have "sn_distance (deq ! j) \<le> 100000 * int j" using less.IH [OF j(1)] j(1) less.prems by simp
    then show ?thesis using d j(1) by simp
  qed
qed

lemma first_only:
  assumes "search_inv T nodes s deq {#}" "i < length deq" "sn_node (deq ! i) = s"
  shows "i = 0"
proof -
  have "sn_node (deq ! 0) = s" using assms by (auto simp: search_inv_def)
  then show ?thesis
    using nth_eq_iff_index_eq [OF search_inv_nodes(4) [OF assms(1)], of i 0] assms(2,3)
    by (cases deq) auto
qed

lemma search_inv_distinct:
  assumes "search_inv T nodes s deq {#}"
  shows "distinct (map sn_node deq)"
proof -
  have "mset (map sn_node deq) = mset [0..<nodes]" using assms by (simp add: search_inv_def)
  then show ?thesis by (metis distinct_upt mset_eq_imp_distinct_iff)
qed

lemma label_path:
  assumes T: "routable T nodes" and inv: "search_inv T nodes s deq {#}"
  shows "i < length deq \<Longrightarrow> sn_distance (deq ! i) < INFINITE_DISTANCE \<Longrightarrow>
    \<exists>p. route_path T s p (sn_node (deq ! i)) (sn_distance (deq ! i)) \<and> length p \<le> Suc i \<and>
      (\<forall>n. path_length_loop deq i n = Some (n + length p - 1)) \<and> p \<noteq> [] \<and>
      (\<forall>route. length p \<le> length route \<longrightarrow>
        fill_route deq (length p) (Some i) route = Some (map Some p @ drop (length p) route)) \<and>
      distinct p \<and> set p \<subseteq> (\<lambda>k. sn_node (deq ! k)) ` {..i}"
proof (induction i rule: less_induct)
  case (less i)
  have lab: "label_ok T s deq i (deq ! i)" using inv less.prems(1) by (simp add: search_inv_def)
  show ?case
  proof (cases "sn_prev (deq ! i)")
    case None
    then have at: "sn_node (deq ! i) = s" "sn_distance (deq ! i) = 0"
      using lab less.prems(2) by (auto simp: label_ok_def split: if_splits)
    then have "i = 0" using first_only [OF inv less.prems(1)] by simp
    have "fill_route deq (length [s]) (Some i) route = Some (map Some [s] @ drop (length [s]) route)"
      if "length [s] \<le> length route" for route :: route
      using that at less.prems(1) \<open>i = 0\<close> by (cases route) auto
    then show ?thesis using at \<open>i = 0\<close>
      by (intro exI [of _ "[s]"]) (simp add: route_path.start path_length_loop.simps)
  next
    case (Some j)
    then have j: "j < i" "track_link T (sn_node (deq ! j)) (sn_node (deq ! i)) (sn_distance (deq ! i) - sn_distance (deq ! j))"
      using lab by (auto simp: label_ok_def)
    have jl: "j < length deq" using j(1) less.prems(1) by simp
    have "sn_node (deq ! j) < nodes" using search_inv_nodes(1) [OF inv] jl by simp
    from routable_link [OF T this j(2)] less.prems(2) have "sn_distance (deq ! j) < INFINITE_DISTANCE" by simp
    then obtain p where p: "route_path T s p (sn_node (deq ! j)) (sn_distance (deq ! j))" "length p \<le> Suc j"
      "\<And>n. path_length_loop deq j n = Some (n + length p - 1)" "p \<noteq> []"
      "\<And>route. length p \<le> length route \<Longrightarrow>
        fill_route deq (length p) (Some j) route = Some (map Some p @ drop (length p) route)"
      "distinct p" "set p \<subseteq> (\<lambda>k. sn_node (deq ! k)) ` {..j}"
      using less.IH [OF j(1) jl] by blast
    have ne: "sn_node (deq ! k) \<noteq> sn_node (deq ! i)" if "k \<le> j" for k
      using that j(1) less.prems(1) nth_eq_iff_index_eq [OF search_inv_distinct [OF inv], of k i] by simp
    have new: "sn_node (deq ! i) \<notin> set p"
    proof
      assume "sn_node (deq ! i) \<in> set p"
      then obtain k where "k \<le> j" "sn_node (deq ! k) = sn_node (deq ! i)" using p(7) by auto
      then show False using ne by blast
    qed
    have le: "{..j} \<subseteq> {..i}" using j(1) by auto
    have nodes: "set p \<subseteq> (\<lambda>k. sn_node (deq ! k)) ` {..i}" by (rule order_trans [OF p(7) image_mono [OF le]])
    let ?p = "p @ [sn_node (deq ! i)]"
    have "route_path T s ?p (sn_node (deq ! i)) (sn_distance (deq ! i))"
      using route_path.extend [OF p(1) j(2)] by simp
    moreover have "path_length_loop deq i n = Some (n + length ?p - 1)" for n
      using p(3) [of "n + 1"] p(4) less.prems(1) Some j(1)
      by (subst path_length_loop.simps) (cases p, auto)
    moreover have "fill_route deq (length ?p) (Some i) route = Some (map Some ?p @ drop (length ?p) route)"
      if "length ?p \<le> length route" for route
      using p(5) [of "route[length p := Some (sn_node (deq ! i))]"] that less.prems(1) Some
      by (simp add: drop_update_swap flip: Cons_nth_drop_Suc)
    moreover have "distinct ?p" "set ?p \<subseteq> (\<lambda>k. sn_node (deq ! k)) ` {..i}" using p(6) new nodes by auto
    ultimately show ?thesis using p(2) j(1) by (intro exI [of _ ?p] conjI) simp_all
  qed
qed

lemma label_least:
  assumes T: "routable T nodes" and inv: "search_inv T nodes s deq {#}" and s: "s < nodes"
  shows "route_path T s p v d \<Longrightarrow> v < nodes \<and> (\<forall>i < length deq. sn_node (deq ! i) = v \<longrightarrow>
    sn_distance (deq ! i) \<le> d \<and> sn_distance (deq ! i) < INFINITE_DISTANCE)"
proof (induction rule: route_path.induct)
  case start
  have "sn_distance (deq ! i) = 0" if "i < length deq" "sn_node (deq ! i) = s" for i
  proof -
    have "label_ok T s deq i (deq ! i)" using inv that(1) by (simp add: search_inv_def)
    then show ?thesis using that(2) by (auto simp: label_ok_def)
  qed
  then show ?case using s by (simp add: INFINITE_DISTANCE_def)
next
  case (extend p u d v w)
  have v: "v < nodes" "w \<le> 100000" using routable_link [OF T] extend by auto
  have len: "length deq = nodes" using search_inv_nodes(3) [OF inv] by simp
  have "mset (map sn_node deq) = mset [0..<nodes]" using inv by (simp add: search_inv_def)
  then have "set (map sn_node deq) = {0..<nodes}" by (metis set_mset_mset set_upt)
  then have "u \<in> sn_node ` set deq" using extend.IH by simp
  then obtain j where j: "j < length deq" "sn_node (deq ! j) = u" by (auto simp: in_set_conv_nth)
  have dj: "sn_distance (deq ! j) \<le> d" "sn_distance (deq ! j) < INFINITE_DISTANCE" using extend.IH j by auto
  have "sn_distance (deq ! j) \<le> 100000 * int j" by (rule label_bound [OF T inv j(1) dj(2)])
  then have b: "sn_distance (deq ! j) + w < INFINITE_DISTANCE"
    using j(1) v(2) len T by (simp add: INFINITE_DISTANCE_def routable_def MAX_ROUTE_LENGTH_def TRACK_MAX_def)
  have "sn_distance (deq ! i) \<le> sn_distance (deq ! j) + w" if "i < length deq" "sn_node (deq ! i) = v" for i
    using inv j that extend.hyps(2) by (fastforce simp: search_inv_def)
  then show ?case using v b dj by fastforce
qed

section \<open>The route planned\<close>

lemma fold_last:
  "(\<exists>x \<in> set xs. P x) \<Longrightarrow> \<exists>i \<in> set xs. P i \<and> fold (\<lambda>i found. if P i then Some i else found) xs a = Some i"
  by (induction xs rule: rev_induct) auto

definition shortest :: "track \<Rightarrow> nptr \<Rightarrow> nptr list \<Rightarrow> nptr \<Rightarrow> int \<Rightarrow> bool" where
  "shortest T s p v d \<longleftrightarrow> route_path T s p v d \<and> (\<forall>p' d'. route_path T s p' v d' \<longrightarrow> d \<le> d')"

lemma plan_route_ok:
  assumes T: "routable T nodes" and s: "s < nodes" and v: "v < nodes"
    and q: "length (pq_elts q) = SEARCH_NODE_QUEUE_SIZE" and r: "length route = MAX_ROUTE_LENGTH"
  shows "(\<exists>p d. plan_route T nodes q (Some s) (Some v) route =
        Some (True, map Some p @ None # drop (Suc (length p)) route) \<and> shortest T s p v d \<and>
        length p < MAX_ROUTE_LENGTH \<and> distinct p) \<or>
    plan_route T nodes q (Some s) (Some v) route = Some (False, route) \<and> (\<nexists>p d. route_path T s p v d)"
proof -
  have "nodes \<le> SEARCH_NODE_QUEUE_SIZE"
    using T by (simp add: routable_def MAX_ROUTE_LENGTH_def SEARCH_NODE_QUEUE_SIZE_def)
  from enqueue_nodes_bag [OF q this, of s] search_loop_total [OF T s] search_inv_init
  obtain deq where deq: "search_loop T nodes (enqueue_nodes nodes (Some s) (pq_init (pq_elts q))) [] = Some deq"
    and inv: "search_inv T nodes s deq {#}" by metis
  have len: "length deq = nodes" using search_inv_nodes(3) [OF inv] by simp
  have "mset (map sn_node deq) = mset [0..<nodes]" using inv by (simp add: search_inv_def)
  then have "set (map sn_node deq) = {0..<nodes}" by (metis set_mset_mset set_upt)
  then have "v \<in> sn_node ` set deq" using v by simp
  then obtain k where "k < length deq" "sn_node (deq ! k) = v" by (auto simp: in_set_conv_nth)
  then have "\<exists>i \<in> set [0..<nodes]. Some (sn_node (deq ! i)) = Some v" using len by (intro bexI [of _ k]) auto
  from fold_last [OF this, of None] len obtain i where i: "i < length deq" "sn_node (deq ! i) = v"
    "find_end deq nodes (Some v) = Some (Some i)" by (auto simp: find_end_def)
  have lab: "label_ok T s deq i (deq ! i)" using inv i(1) by (simp add: search_inv_def)
  show ?thesis
  proof (cases "sn_prev (deq ! i) = None \<and> i \<noteq> 0")
    case True
    then have "sn_distance (deq ! i) = INFINITE_DISTANCE"
      using lab first_only [OF inv i(1)] by (auto simp: label_ok_def)
    then have "\<nexists>p d. route_path T s p v d" using label_least [OF T inv s] i by fastforce
    then show ?thesis using True deq i(3) by (simp add: plan_route_def)
  next
    case False
    have fin: "sn_distance (deq ! i) < INFINITE_DISTANCE"
    proof (cases "i = 0")
      case True
      then have "sn_node (deq ! i) = s" using inv i(1) by (auto simp: search_inv_def)
      then show ?thesis using lab by (auto simp: label_ok_def INFINITE_DISTANCE_def)
    qed (use False lab in \<open>auto simp: label_ok_def\<close>)
    obtain p where p: "route_path T s p v (sn_distance (deq ! i))" "length p \<le> Suc i" "p \<noteq> []"
      "\<And>n. path_length_loop deq i n = Some (n + length p - 1)"
      "\<And>route. length p \<le> length route \<Longrightarrow>
        fill_route deq (length p) (Some i) route = Some (map Some p @ drop (length p) route)" "distinct p"
      using label_path [OF T inv i(1) fin] i(2) by metis
    have lp: "Suc (length p - Suc 0) = length p" using p(3) by simp
    have lt: "length p < length route" using p(2) i(1) len T r by (simp add: routable_def)
    have "plan_route T nodes q (Some s) (Some v) route =
        Some (True, map Some p @ drop (length p) (route[length p := None]))"
      using False deq i(3) p(4) [of 0] p(5) [of "route[length p := None]"] lt
      by (auto simp: plan_route_def lp simp del: fill_route.simps)
    also have "drop (length p) (route[length p := None]) = None # drop (Suc (length p)) route"
      using lt by (metis (no_types) Cons_nth_drop_Suc drop_update_cancel length_list_update lessI nth_list_update_eq)
    finally have "plan_route T nodes q (Some s) (Some v) route =
        Some (True, map Some p @ None # drop (Suc (length p)) route)" .
    moreover have "shortest T s p v (sn_distance (deq ! i))"
      using p(1) label_least [OF T inv s] i unfolding shortest_def by blast
    ultimately show ?thesis using lt r p(6) by auto
  qed
qed

section \<open>The length of a route\<close>

definition link_dist :: "track \<Rightarrow> nptr \<Rightarrow> nptr \<Rightarrow> int" where
  "link_dist T u v = (if n_type (T ! u) = NODE_BRANCH \<and> STRAIGHT (T ! u) \<noteq> Some v
     then e_dist (n_edge1 (T ! u)) else e_dist (n_edge0 (T ! u)))"

fun path_dist :: "track \<Rightarrow> nptr list \<Rightarrow> int" where
  "path_dist T (u # v # p) = link_dist T u v + path_dist T (v # p)"
| "path_dist T _ = 0"

definition linked :: "track \<Rightarrow> nat \<Rightarrow> nptr \<Rightarrow> nptr \<Rightarrow> bool" where
  "linked T nodes u v \<longleftrightarrow> u < nodes \<and> (\<exists>d. track_link T u v d)"

lemma link_dist:
  assumes "routable T nodes" "u < nodes" "track_link T u v d"
  shows "link_dist T u v = d" "route_step_dist T (Some u) (Some v # rest) = int32 (d * 100)"
proof -
  have "T ! u \<in> set (take nodes T)" using assms(1,2)
    by (auto simp: routable_def in_set_conv_nth intro!: exI [of _ u])
  then have twin: "twin_ok (T ! u)" using assms(1) by (auto simp: routable_def list_all_iff)
  have "u < length T" using assms(3) by (simp add: track_link_def)
  then show "link_dist T u v = d" "route_step_dist T (Some u) (Some v # rest) = int32 (d * 100)"
    using assms(3) twin by (auto simp: track_link_def edges_of_def link_dist_def twin_ok_def
      route_step_dist_def node_at_def split: node_type.splits)
qed

lemma path_dist_snoc: "p \<noteq> [] \<Longrightarrow> path_dist T (p @ [v]) = path_dist T p + link_dist T (last p) v"
  by (induction T p rule: path_dist.induct) auto

lemma route_path_linked:
  assumes T: "routable T nodes" and s: "s < nodes"
  shows "route_path T s p v d \<Longrightarrow> p \<noteq> [] \<and> hd p = s \<and> last p = v \<and> v < nodes \<and>
    successively (linked T nodes) p \<and> path_dist T p = d"
proof (induction rule: route_path.induct)
  case (extend p u d v w)
  then show ?case using routable_link(1) [OF T] link_dist(1) [OF T]
    by (auto simp: successively_append_iff path_dist_snoc linked_def)
qed (use s in simp)

lemma path_dist_bounds:
  assumes T: "routable T nodes"
  shows "successively (linked T nodes) p \<Longrightarrow> 0 \<le> path_dist T p \<and> path_dist T p \<le> 100000 * int (length p - 1)"
proof (induction p rule: induct_list012)
  case (3 u v p)
  then obtain d where d: "u < nodes" "track_link T u v d" by (auto simp: linked_def)
  have "0 \<le> link_dist T u v" "link_dist T u v \<le> 100000"
    using link_dist(1) [OF T d] routable_link [OF T d] by auto
  moreover have "0 \<le> path_dist T (v # p) \<and> path_dist T (v # p) \<le> 100000 * int (length (v # p) - 1)"
    using 3 by simp
  ultimately show ?case by simp
qed auto

lemma remaining_dist_path:
  assumes T: "routable T nodes"
  shows "successively (linked T nodes) p \<Longrightarrow> p \<noteq> [] \<Longrightarrow> 0 \<le> acc \<Longrightarrow> acc + 100 * path_dist T p < 2 ^ 31 \<Longrightarrow>
    remaining_dist_loop T ln (map Some p @ None # rest) True acc = Some (acc + 100 * path_dist T p)"
proof (induction p arbitrary: acc rule: induct_list012)
  case (3 u v p)
  then obtain d where d: "u < nodes" "track_link T u v d" by (auto simp: linked_def)
  have l: "link_dist T u v = d" "0 \<le> d" using link_dist(1) [OF T d] routable_link [OF T d] by auto
  have b: "0 \<le> path_dist T (v # p)" using path_dist_bounds [OF T, of "v # p"] 3 by simp
  have r: "route_step_dist T (Some u) (Some v # map Some p @ None # rest) = int32 (d * 100)"
    by (rule link_dist(2) [OF T d])
  have i: "int32 (d * 100) = Some (d * 100)" "int32 (acc + d * 100) = Some (acc + d * 100)"
    using 3 l b by (auto simp: int32_def)
  have "remaining_dist_loop T ln (map Some (v # p) @ None # rest) True (acc + d * 100) =
      Some (acc + d * 100 + 100 * path_dist T (v # p))"
    using 3 l by (intro 3) auto
  then show ?case using r i l by (simp add: Let_def)
qed auto

lemma route_length_path:
  assumes T: "routable T nodes" and p: "route_path T s p v d" and s: "s < nodes" and "length p < MAX_ROUTE_LENGTH"
  shows "route_length T (map Some p @ None # rest) = Some (100 * d)"
proof -
  note lk = route_path_linked [OF T s p]
  then obtain p' where p': "p = s # p'" by (cases p) auto
  have b: "0 \<le> d" "100 * d < 2 ^ 31"
    using path_dist_bounds [OF T, of p] lk assms(4) by (auto simp: MAX_ROUTE_LENGTH_def TRACK_MAX_def)
  have "remaining_dist_loop T (Some s) (map Some p @ None # rest) True 0 = Some (100 * d)"
    using remaining_dist_path [OF T, of p 0] lk b by auto
  moreover have "remaining_dist_loop T (Some s) (Some s # zs) False 0 = remaining_dist_loop T (Some s) (Some s # zs) True 0" for zs
    by (cases zs) auto
  ultimately show ?thesis using p' b
    by (simp add: route_length_def get_remaining_dist_in_route_def int32_def)
qed

end
