(* ===== verification/Track_Graph.thy ===== *)
theory Track_Graph
  imports Track_Data
begin

text \<open>
  The two track tables are well formed: reversing is an involution without fixed points, each
  node has the edges its type calls for, and the reverse of an edge runs the other way between the
  reversed nodes, with the same length. What follows from it is proved once in the locale
  \<open>reversible_track\<close> and holds of both tracks.
\<close>

definition edge_at :: "track \<Rightarrow> nat \<times> nat \<Rightarrow> track_edge option" where
  "edge_at T p = map_option (if snd p = 0 then n_edge0 else n_edge1) (array_get T (fst p))"

definition rev_of :: "track \<Rightarrow> nptr \<Rightarrow> nptr option" where
  "rev_of T i = Option.bind (array_get T i) n_reverse"

definition edge_ok :: "track \<Rightarrow> nptr \<Rightarrow> nat \<Rightarrow> bool" where
  "edge_ok T i d \<longleftrightarrow> (case edge_at T (i, d) of None \<Rightarrow> False | Some e \<Rightarrow>
     e_src e = Some i \<and> 0 \<le> e_dist e \<and>
     (case (e_dest e, e_reverse e) of (Some j, Some r) \<Rightarrow>
        rev_of T j = Some (fst r) \<and>
        (case edge_at T r of None \<Rightarrow> False | Some re \<Rightarrow>
           e_dest re = rev_of T i \<and> e_dist re = e_dist e \<and> e_reverse re = Some (i, d))
      | _ \<Rightarrow> False))"

definition reverse_type :: "node_type \<Rightarrow> node_type" where
  "reverse_type ty = (case ty of NODE_BRANCH \<Rightarrow> NODE_MERGE | NODE_MERGE \<Rightarrow> NODE_BRANCH
     | NODE_ENTER \<Rightarrow> NODE_EXIT | NODE_EXIT \<Rightarrow> NODE_ENTER | _ \<Rightarrow> ty)"

definition node_ok :: "track \<Rightarrow> nptr \<Rightarrow> bool" where
  "node_ok T i \<longleftrightarrow> (case array_get T i of None \<Rightarrow> False | Some n \<Rightarrow>
     (case n_reverse n of None \<Rightarrow> False | Some r \<Rightarrow>
        r \<noteq> i \<and> rev_of T r = Some i \<and>
        map_option n_type (array_get T r) = Some (reverse_type (n_type n))) \<and>
     (case n_type n of
        NODE_SENSOR \<Rightarrow> edge_ok T i 0 \<and> n_num n = int i
      | NODE_MERGE \<Rightarrow> edge_ok T i 0
      | NODE_ENTER \<Rightarrow> edge_ok T i 0
      | NODE_BRANCH \<Rightarrow> edge_ok T i 0 \<and> edge_ok T i 1 \<and>
          i = turnout_num_to_node (of_int (n_num n)) \<and> is_valid_turnout_num (of_int (n_num n))
      | NODE_EXIT \<Rightarrow> True
      | NODE_NONE \<Rightarrow> False))"

definition track_ok :: "track \<Rightarrow> nat \<Rightarrow> bool" where
  "track_ok T N \<longleftrightarrow> N \<le> length T \<and> list_all (node_ok T) [0..<N]"

lemma mk_node_sels [simp]:
  "n_type (mk_node nm ty num r e0 e1) = ty" "n_num (mk_node nm ty num r e0 e1) = num"
  "n_reverse (mk_node nm ty num r e0 e1) = Some r" "n_edge0 (mk_node nm ty num r e0 e1) = e0"
  "n_edge1 (mk_node nm ty num r e0 e1) = e1"
  by (simp_all add: mk_node_def)

lemma mk_edge_sels [simp]:
  "e_reverse (mk_edge rn rd s d k) = Some (rn, rd)" "e_src (mk_edge rn rd s d k) = Some s"
  "e_dest (mk_edge rn rd s d k) = Some d" "e_dist (mk_edge rn rd s d k) = k"
  by (simp_all add: mk_edge_def)

lemma no_edge_sels [simp]:
  "e_reverse no_edge = None" "e_src no_edge = None" "e_dest no_edge = None" "e_dist no_edge = 0"
  by (simp_all add: no_edge_def)

lemma all_less_Suc_numeral:
  "list_all P [0..<numeral k] \<longleftrightarrow> list_all P [0..<pred_numeral k] \<and> P (pred_numeral k)"
  by (simp add: numeral_eq_Suc)

lemmas tracka_simps = track_simps tracka_0_17_nodes(2) [unfolded One_nat_def]
  trackb_0_17_nodes(2) [unfolded One_nat_def]

lemmas track_check_defs = all_less_Suc_numeral node_ok_def edge_ok_def edge_at_def rev_of_def
  reverse_type_def turnout_num_to_node_def turnout_num_to_map_offset_def is_valid_turnout_num_def

lemma tracka_ok: "track_ok init_tracka 144"
  unfolding track_ok_def by (simp add: track_check_defs tracka_simps del: array_get_Some)

lemma trackb_ok: "track_ok init_trackb 140"
  unfolding track_ok_def by (simp add: track_check_defs tracka_simps del: array_get_Some)

section \<open>Reversal\<close>

definition rv :: "track \<Rightarrow> nptr \<Rightarrow> nptr" where
  "rv T i = (case rev_of T i of Some r \<Rightarrow> r | None \<Rightarrow> i)"

text \<open>
  What the clients of the track rely on: every node has a partner at the same place facing the
  other way.
\<close>

locale reversal =
  fixes r :: "nptr \<Rightarrow> nptr" and N :: nat
  assumes r_less: "i < N \<Longrightarrow> r i < N"
    and r_r: "i < N \<Longrightarrow> r (r i) = i"
    and r_neq: "i < N \<Longrightarrow> r i \<noteq> i"
begin

text \<open>A relation on pairs of nodes that does not change when a pair is reversed.\<close>

definition symmetric :: "(nptr \<Rightarrow> nptr \<Rightarrow> 'v) \<Rightarrow> bool" where
  "symmetric f \<longleftrightarrow> (\<forall>i < N. \<forall>j < N. f (r j) (r i) = f i j)"

lemma r_eq_iff: "i < N \<Longrightarrow> j < N \<Longrightarrow> r i = j \<longleftrightarrow> i = r j"
  using r_r by auto

lemma symmetric_const: "symmetric (\<lambda>_ _. c)"
  by (simp add: symmetric_def)

lemma symmetric_update:
  assumes f: "symmetric f" and ij: "i < N" "j < N"
  shows "symmetric (\<lambda>a b. if a = i \<and> b = j \<or> a = r j \<and> b = r i then v else f a b)"
  unfolding symmetric_def
proof (intro allI impI)
  fix a b assume ab: "a < N" "b < N"
  have "r b = i \<and> r a = j \<longleftrightarrow> a = r j \<and> b = r i" "r b = r j \<and> r a = r i \<longleftrightarrow> a = i \<and> b = j"
    using ab ij r_r by metis+
  then show "(if r b = i \<and> r a = j \<or> r b = r j \<and> r a = r i then v else f (r b) (r a)) =
      (if a = i \<and> b = j \<or> a = r j \<and> b = r i then v else f a b)"
    using f ab by (auto simp: symmetric_def)
qed

lemma symmetric_map: "symmetric f \<Longrightarrow> symmetric (\<lambda>a b. g (f a b))"
  by (simp add: symmetric_def)

end

lemma track_ok_node:
  assumes "track_ok T N" "i < N"
  obtains n where "array_get T i = Some n" "node_ok T i"
proof -
  have "node_ok T i" using assms by (auto simp: track_ok_def list_all_iff)
  then show ?thesis using that by (auto simp: node_ok_def split: option.splits)
qed

text \<open>Reverse pointers that pair up the first \<open>N\<close> nodes.\<close>

definition rev_node_ok :: "track \<Rightarrow> nat \<Rightarrow> nptr \<Rightarrow> bool" where
  "rev_node_ok T N i \<longleftrightarrow> (case rev_of T i of None \<Rightarrow> False
     | Some r \<Rightarrow> r < N \<and> r \<noteq> i \<and> rev_of T r = Some i)"

definition rev_ok :: "track \<Rightarrow> nat \<Rightarrow> bool" where
  "rev_ok T N \<longleftrightarrow> N \<le> length T \<and> list_all (rev_node_ok T N) [0..<N]"

lemma rev_ok_get:
  assumes "rev_ok T N" "i < N"
  shows "rev_of T i = Some (rv T i)" "rv T i < N" "i < length T" "rv T (rv T i) = i" "rv T i \<noteq> i"
proof -
  have "rev_node_ok T N i" and l: "N \<le> length T" using assms by (simp_all add: rev_ok_def list_all_iff)
  then obtain r where "rev_of T i = Some r" "r < N" "r \<noteq> i" "rev_of T r = Some i"
    by (auto simp: rev_node_ok_def split: option.splits)
  with l assms(2) show "rev_of T i = Some (rv T i)" "rv T i < N" "i < length T"
    "rv T (rv T i) = i" "rv T i \<noteq> i"
    by (simp_all add: rv_def)
qed

lemma rev_ok_reversal: "rev_ok T N \<Longrightarrow> reversal (rv T) N"
  by unfold_locales (rule rev_ok_get; assumption)+

lemma tracka_rev_ok: "rev_ok init_tracka 144"
  unfolding rev_ok_def
  by (simp add: all_less_Suc_numeral rev_node_ok_def rev_of_def tracka_simps del: array_get_Some)

lemma trackb_rev_ok: "rev_ok init_trackb 140"
  unfolding rev_ok_def
  by (simp add: all_less_Suc_numeral rev_node_ok_def rev_of_def tracka_simps del: array_get_Some)

text \<open>Fixing a turnout keeps all but the edges of one node.\<close>

lemma set_turnout_frame:
  assumes "set_turnout_permanently T k st = Some T'"
  shows "length T' = length T" "rev_of T' i = rev_of T i"
    "map_option n_type (array_get T' i) = map_option n_type (array_get T i)"
    "map_option n_num (array_get T' i) = map_option n_num (array_get T i)"
  using assms
  by (auto simp: set_turnout_permanently_def Let_def array_get_def array_set_def rev_of_def
      nth_list_update split: turnout_state.splits bind_splits if_splits)

lemma set_turnout_rev_ok:
  assumes "set_turnout_permanently T k st = Some T'"
  shows "rev_ok T' N = rev_ok T N"
proof -
  have "rev_of T' = rev_of T" using set_turnout_frame(2) [OF assms] by (rule ext)
  then show ?thesis
    unfolding rev_ok_def rev_node_ok_def [abs_def] set_turnout_frame(1) [OF assms] by metis
qed

lemma init_track_b_ok: "\<exists>T. init_track_b = Some T \<and> rev_ok T 140 \<and> length T = 144"
proof -
  have b: "n_type (init_trackb ! 112) = NODE_BRANCH" "n_type (init_trackb ! 120) = NODE_BRANCH"
    "n_type (init_trackb ! 122) = NODE_BRANCH"
    using trackb_102_115_nodes(11) trackb_116_137_nodes(5,7) by (auto simp: array_get_def)
  obtain t1 where t1: "set_turnout_permanently init_trackb 17 TURNOUT_CURVED = Some t1"
    using b by (simp add: set_turnout_permanently_def turnout_num_to_map_offset_def)
  have "map_option n_type (array_get t1 120) = Some NODE_BRANCH"
    using set_turnout_frame(3) [OF t1, of 120] b by simp
  then obtain t2 where t2: "set_turnout_permanently t1 155 TURNOUT_CURVED = Some t2"
    using set_turnout_frame(1) [OF t1]
    by (auto simp: set_turnout_permanently_def turnout_num_to_map_offset_def)
  have "map_option n_type (array_get t2 122) = Some NODE_BRANCH"
    using set_turnout_frame(3) [OF t1, of 122] set_turnout_frame(3) [OF t2, of 122] b by simp
  then obtain t3 where t3: "set_turnout_permanently t2 156 TURNOUT_STRAIGHT = Some t3"
    using set_turnout_frame(1) [OF t1] set_turnout_frame(1) [OF t2]
    by (auto simp: set_turnout_permanently_def turnout_num_to_map_offset_def)
  show ?thesis
    using t1 t2 t3 trackb_rev_ok set_turnout_frame(1) [OF t1] set_turnout_frame(1) [OF t2]
      set_turnout_frame(1) [OF t3]
    by (auto simp: init_track_b_def set_turnout_rev_ok)
qed

definition lab_track :: track where
  "lab_track = the init_track_b"

lemma lab_track_rev_ok: "rev_ok lab_track 140" "length lab_track = 144"
proof -
  obtain T where "init_track_b = Some T" "rev_ok T 140" "length T = 144" using init_track_b_ok by blast
  then show "rev_ok lab_track 140" "length lab_track = 144"
    unfolding lab_track_def by (metis option.sel)+
qed

interpretation tra: reversal "rv init_tracka" 144
  by (rule rev_ok_reversal [OF tracka_rev_ok])

interpretation trl: reversal "rv lab_track" 140
  by (rule rev_ok_reversal [OF lab_track_rev_ok(1)])

end
