(* ===== verification/Reservation.thy ===== *)
theory Reservation
  imports Track_Graph
begin

text \<open>
  The track reservation server, \<open>usr/train/track_reservation_server.c\<close>: a table of owners over
  pairs of node indices, \<open>NOT_RESERVED\<close> where nobody owns the edge. The server answers one message
  at a time; a message and its reply are values of the step function. A failed \<open>Assert\<close> and a NULL
  dereference are \<open>None\<close>.
\<close>

definition NOT_RESERVED :: int where "NOT_RESERVED = 5678"
definition RESPONSE_OK :: int where "RESPONSE_OK = 0"
definition RESPONSE_NO_SUCH_EDGE :: int where "RESPONSE_NO_SUCH_EDGE = -1"
definition RESPONSE_NOT_RESERVED :: int where "RESPONSE_NOT_RESERVED = -2"
definition RESPONSE_ALREADY_RESERVED :: int where "RESPONSE_ALREADY_RESERVED = -2"
definition MAX_RESERVATIONS_RETURNED :: nat where "MAX_RESERVATIONS_RETURNED = 30"

definition RESERVATION_ENCODE :: "nat \<Rightarrow> nat \<Rightarrow> nat" where
  "RESERVATION_ENCODE i j = i * TRACK_MAX + j"

type_synonym reserved = "nptr \<Rightarrow> nptr \<Rightarrow> int"

definition set_reserved :: "reserved \<Rightarrow> nptr \<Rightarrow> nptr \<Rightarrow> int \<Rightarrow> reserved" where
  "set_reserved R i j v = R(i := (R i)(j := v))"

definition handle_reservation_request ::
  "track \<Rightarrow> reserved \<Rightarrow> nptr option \<Rightarrow> nptr option \<Rightarrow> int \<Rightarrow> int \<Rightarrow> int \<Rightarrow> (reserved \<times> int) option" where
  "handle_reservation_request T R start finish check_for reserve_for error_response = do {
     follows \<leftarrow> node_follows T start finish;
     if \<not> follows then Some (R, RESPONSE_NO_SUCH_EDGE)
     else do {
       start_index \<leftarrow> start;
       end_index \<leftarrow> finish;
       s \<leftarrow> node_at T start;
       e \<leftarrow> node_at T finish;
       reverse_start_index \<leftarrow> n_reverse e;
       reverse_end_index \<leftarrow> n_reverse s;
       if R start_index end_index = check_for then
         if R reverse_start_index reverse_end_index \<noteq> check_for then Some (R, error_response)
         else
           (let R1 = set_reserved R start_index end_index reserve_for
            in Some (set_reserved R1 reverse_start_index reverse_end_index reserve_for, RESPONSE_OK))
       else Some (R, error_response)
     }
   }"

definition reservation_server_init :: reserved where
  "reservation_server_init = (\<lambda>i j. NOT_RESERVED)"

definition drop_all :: "reserved \<Rightarrow> int \<Rightarrow> reserved" where
  "drop_all R train = (\<lambda>i j. if i < TRACK_MAX \<and> j < TRACK_MAX \<and> R i j = train
     then NOT_RESERVED else R i j)"

text \<open>The two loops of \<open>GET_ALL\<close>; \<open>acc\<close> is what the reply holds so far.\<close>

primrec get_all_row :: "reserved \<Rightarrow> int \<Rightarrow> nptr \<Rightarrow> nptr list \<Rightarrow> nat list \<Rightarrow> nat list" where
  "get_all_row R train i [] acc = acc"
| "get_all_row R train i (j # js) acc =
     (if length acc \<ge> MAX_RESERVATIONS_RETURNED then acc
      else get_all_row R train i js
        (if R i j = train then acc @ [RESERVATION_ENCODE i j] else acc))"

primrec get_all_rows :: "reserved \<Rightarrow> int \<Rightarrow> nptr list \<Rightarrow> nat list \<Rightarrow> nat list" where
  "get_all_rows R train [] acc = acc"
| "get_all_rows R train (i # rows) acc =
     (if length acc \<ge> MAX_RESERVATIONS_RETURNED then acc
      else get_all_rows R train rows (get_all_row R train i [0..<TRACK_MAX] acc))"

datatype reservation_message =
    RESERVATION_MAKE "nptr option" "nptr option" int
  | RESERVATION_DROP "nptr option" "nptr option" int
  | RESERVATION_DROP_ALL int
  | RESERVATION_GET_ALL int
  | RESERVATION_OTHER

datatype reservation_reply =
    REPLY_RESERVATION_MAKE int
  | REPLY_RESERVATION_DROP int
  | REPLY_EMPTY
  | REPLY_RESERVATION_GET_ALL "nat list"

fun reservation_step ::
  "track \<Rightarrow> reserved \<Rightarrow> reservation_message \<Rightarrow> (reserved \<times> reservation_reply) option" where
  "reservation_step T R (RESERVATION_MAKE start finish train) = do {
     (R', response) \<leftarrow> handle_reservation_request T R start finish NOT_RESERVED train
       RESPONSE_ALREADY_RESERVED;
     Some (R', REPLY_RESERVATION_MAKE response)
   }"
| "reservation_step T R (RESERVATION_DROP start finish train) = do {
     (R', response) \<leftarrow> handle_reservation_request T R start finish train NOT_RESERVED
       RESPONSE_NOT_RESERVED;
     Some (R', REPLY_RESERVATION_DROP response)
   }"
| "reservation_step T R (RESERVATION_DROP_ALL train) = Some (drop_all R train, REPLY_EMPTY)"
| "reservation_step T R (RESERVATION_GET_ALL train) =
     Some (R, REPLY_RESERVATION_GET_ALL (get_all_rows R train [0..<TRACK_MAX] []))"
| "reservation_step T R RESERVATION_OTHER = None"

text \<open>The tables the server can reach.\<close>

inductive reservation_run :: "track \<Rightarrow> reserved \<Rightarrow> bool" for T where
  init: "reservation_run T reservation_server_init"
| step: "reservation_run T R \<Longrightarrow> reservation_step T R m = Some (R', reply) \<Longrightarrow> reservation_run T R'"

section \<open>Tracks the server runs on\<close>

text \<open>Paired nodes, and edges only between them.\<close>

definition edges_in :: "track \<Rightarrow> nat \<Rightarrow> nptr \<Rightarrow> bool" where
  "edges_in T N i \<longleftrightarrow> (case array_get T i of None \<Rightarrow> False | Some n \<Rightarrow>
     list_all (\<lambda>e. case e_dest e of None \<Rightarrow> True | Some j \<Rightarrow> i < N \<and> j < N) [n_edge0 n, n_edge1 n])"

definition server_track :: "track \<Rightarrow> nat \<Rightarrow> bool" where
  "server_track T N \<longleftrightarrow> rev_ok T N \<and> N \<le> TRACK_MAX \<and> list_all (edges_in T N) [0..<length T]"

lemma set_turnout_edges_in:
  assumes "set_turnout_permanently T k st = Some T'" "list_all (edges_in T N) [0..<length T]"
  shows "list_all (edges_in T' N) [0..<length T']"
  using assms
  by (auto simp: set_turnout_permanently_def Let_def array_get_def array_set_def edges_in_def
      list_all_iff nth_list_update split: turnout_state.splits bind_splits if_splits)

lemma server_track_a: "server_track init_tracka 144"
proof -
  have "list_all (edges_in init_tracka 144) [0..<144]"
    by (simp add: all_less_Suc_numeral edges_in_def tracka_simps del: array_get_Some)
  then show ?thesis using tracka_rev_ok
    by (simp add: server_track_def TRACK_MAX_def)
qed

lemma edges_in_trackb: "list_all (edges_in init_trackb 140) [0..<144]"
proof -
  have "array_get init_trackb 140 = Some null_node" "array_get init_trackb 141 = Some null_node"
    "array_get init_trackb 142 = Some null_node" "array_get init_trackb 143 = Some null_node"
    by (simp_all add: init_trackb_def nth_append)
  moreover have "list_all (edges_in init_trackb 140) [0..<140]"
    by (simp add: all_less_Suc_numeral edges_in_def tracka_simps del: array_get_Some)
  ultimately show ?thesis
    by (simp add: all_less_Suc_numeral edges_in_def null_node_def del: array_get_Some)
qed

lemma server_track_lab: "server_track lab_track 140"
proof -
  obtain T where T: "init_track_b = Some T" using init_track_b_ok by blast
  then have "list_all (edges_in T 140) [0..<length T]"
    unfolding init_track_b_def
    by (auto simp: edges_in_trackb split: bind_splits
      elim!: set_turnout_edges_in)
  moreover have "lab_track = T" by (simp add: lab_track_def T)
  ultimately show ?thesis using lab_track_rev_ok by (simp add: server_track_def TRACK_MAX_def)
qed

lemma server_track_node:
  assumes "server_track T N" "i < N"
  shows "node_at T (Some i) = Some (T ! i)" "n_reverse (T ! i) = Some (rv T i)" "rv T i < N"
    "rv T (rv T i) = i" "rv T i \<noteq> i"
proof -
  have r: "rev_ok T N" using assms(1) by (simp add: server_track_def)
  note g = rev_ok_get [OF r assms(2)]
  show "node_at T (Some i) = Some (T ! i)" using g(3) by (simp add: node_at_def)
  show "n_reverse (T ! i) = Some (rv T i)" using g(1,3) by (simp add: rev_of_def)
  show "rv T i < N" "rv T (rv T i) = i" "rv T i \<noteq> i" using g(2,4,5) by simp_all
qed

lemma server_track_follows:
  assumes st: "server_track T N" and f: "node_follows T (Some i) (Some j) = Some True"
  shows "i < N" "j < N"
proof -
  obtain n where n: "array_get T i = Some n" "e_dest (n_edge0 n) = Some j \<or> e_dest (n_edge1 n) = Some j"
    using f by (auto simp: node_follows_def node_at_def split: bind_splits)
  then have "edges_in T N i" using st by (auto simp: server_track_def list_all_iff array_get_def split: if_splits)
  with n show "i < N" "j < N" by (auto simp: edges_in_def)
qed

section \<open>Ownership is symmetric\<close>

definition reserved_inv :: "track \<Rightarrow> nat \<Rightarrow> reserved \<Rightarrow> bool" where
  "reserved_inv T N R \<longleftrightarrow> (\<forall>i < N. \<forall>j < N. R (rv T j) (rv T i) = R i j)"

text \<open>The table after both directions of an edge have been assigned.\<close>

definition own_edge :: "track \<Rightarrow> reserved \<Rightarrow> nptr \<Rightarrow> nptr \<Rightarrow> int \<Rightarrow> reserved" where
  "own_edge T R i j v = set_reserved (set_reserved R i j v) (rv T j) (rv T i) v"

lemma own_edge_apply:
  "own_edge T R i j v a b = (if a = i \<and> b = j \<or> a = rv T j \<and> b = rv T i then v else R a b)"
  by (auto simp: own_edge_def set_reserved_def)

lemma server_track_reversal: "server_track T N \<Longrightarrow> reversal (rv T) N"
  by (simp add: server_track_def rev_ok_reversal)

lemma reserved_inv_symmetric:
  "server_track T N \<Longrightarrow> reserved_inv T N R = reversal.symmetric (rv T) N R"
  by (simp add: reserved_inv_def reversal.symmetric_def server_track_reversal)

lemma own_edge_inv:
  assumes st: "server_track T N" and inv: "reserved_inv T N R" and ij: "i < N" "j < N"
  shows "reserved_inv T N (own_edge T R i j v)"
proof -
  have "own_edge T R i j v = (\<lambda>a b. if a = i \<and> b = j \<or> a = rv T j \<and> b = rv T i then v else R a b)"
    by (intro ext own_edge_apply)
  then show ?thesis
    using reversal.symmetric_update [OF server_track_reversal [OF st] _ ij] inv
    by (simp add: reserved_inv_symmetric [OF st])
qed

lemma drop_all_inv:
  assumes st: "server_track T N" and inv: "reserved_inv T N R"
  shows "reserved_inv T N (drop_all R t)"
proof -
  have "N \<le> TRACK_MAX" using st by (simp add: server_track_def)
  then have lt: "i < TRACK_MAX" "rv T i < TRACK_MAX" if "i < N" for i
    using that server_track_node(3) [OF st that] by simp_all
  show ?thesis using inv lt by (simp add: reserved_inv_def drop_all_def)
qed

text \<open>What one request does.\<close>

lemma handle_request_edge:
  assumes st: "server_track T N" and f: "node_follows T (Some i) (Some j) = Some True"
  shows "handle_reservation_request T R (Some i) (Some j) chk owner err =
    Some (if R i j = chk \<and> R (rv T j) (rv T i) = chk then (own_edge T R i j owner, RESPONSE_OK)
      else (R, err))"
  using f server_track_node(1,2) [OF st server_track_follows(1) [OF st f]]
    server_track_node(1,2) [OF st server_track_follows(2) [OF st f]]
  by (simp add: handle_reservation_request_def own_edge_def)

lemma handle_request_no_edge:
  "node_follows T s e = Some False \<Longrightarrow>
   handle_reservation_request T R s e chk owner err = Some (R, RESPONSE_NO_SUCH_EDGE)"
  by (simp add: handle_reservation_request_def)

lemma handle_request_cases:
  assumes st: "server_track T N"
    and h: "handle_reservation_request T R s e chk owner err = Some (R', resp)"
  obtains (none) "R' = R" "resp \<in> {RESPONSE_NO_SUCH_EDGE, err}"
    | (own) i j where "s = Some i" "e = Some j" "i < N" "j < N"
      "node_follows T (Some i) (Some j) = Some True" "R i j = chk" "R' = own_edge T R i j owner"
      "resp = RESPONSE_OK"
proof (cases "node_follows T s e")
  case (Some b)
  show ?thesis
  proof (cases b)
    case True
    then obtain i j where ij: "s = Some i" "e = Some j"
      using h Some by (auto simp: handle_reservation_request_def split: bind_splits)
    with Some True have f: "node_follows T (Some i) (Some j) = Some True" by simp
    show ?thesis
    proof (cases "R i j = chk \<and> R (rv T j) (rv T i) = chk")
      case True
      then have "R' = own_edge T R i j owner" "resp = RESPONSE_OK"
        using h by (simp_all add: ij handle_request_edge [OF st f])
      then show ?thesis using own ij server_track_follows [OF st f] f True by simp
    next
      case False
      then have "R' = R" "resp = err"
        using h handle_request_edge [OF st f, of R chk owner err] by (simp_all only: ij if_False) simp_all
      then show ?thesis using none by simp
    qed
  next
    case False
    then show ?thesis using h Some handle_request_no_edge none by auto
  qed
qed (use h in \<open>simp add: handle_reservation_request_def\<close>)

lemma reservation_step_inv:
  assumes st: "server_track T N" and inv: "reserved_inv T N R"
    and s: "reservation_step T R m = Some (R', reply)"
  shows "reserved_inv T N R'"
proof -
  have req: "reserved_inv T N R'"
    if "handle_reservation_request T R a b chk owner err = Some (R', resp)" for a b chk owner err resp
    by (rule handle_request_cases [OF st that]) (simp_all add: inv own_edge_inv [OF st inv])
  show ?thesis
    using s inv drop_all_inv [OF st inv]
    by (cases m) (auto split: bind_splits elim!: req)
qed

lemma reservation_run_inv:
  assumes "reservation_run T R" "server_track T N"
  shows "reserved_inv T N R"
  using assms
proof induction
  case init
  then show ?case by (simp add: reserved_inv_def reservation_server_init_def)
qed (rule reservation_step_inv)

text \<open>So the branch that finds the two directions with different owners is dead.\<close>

lemma reservation_run_make:
  assumes run: "reservation_run T R" and st: "server_track T N"
    and f: "node_follows T (Some i) (Some j) = Some True"
  shows "reservation_step T R (RESERVATION_MAKE (Some i) (Some j) t) =
    Some (if R i j = NOT_RESERVED then (own_edge T R i j t, REPLY_RESERVATION_MAKE RESPONSE_OK)
      else (R, REPLY_RESERVATION_MAKE RESPONSE_ALREADY_RESERVED))"
  using reservation_run_inv [OF run st] server_track_follows [OF st f]
  by (simp add: handle_request_edge [OF st f] reserved_inv_def)

lemma reservation_run_drop:
  assumes run: "reservation_run T R" and st: "server_track T N"
    and f: "node_follows T (Some i) (Some j) = Some True"
  shows "reservation_step T R (RESERVATION_DROP (Some i) (Some j) t) =
    Some (if R i j = t then (own_edge T R i j NOT_RESERVED, REPLY_RESERVATION_DROP RESPONSE_OK)
      else (R, REPLY_RESERVATION_DROP RESPONSE_NOT_RESERVED))"
  using reservation_run_inv [OF run st] server_track_follows [OF st f]
  by (simp add: handle_request_edge [OF st f] reserved_inv_def)

section \<open>Listing the reservations of a train\<close>

definition owned_by :: "reserved \<Rightarrow> int \<Rightarrow> (nptr \<times> nptr) list" where
  "owned_by R t = filter (\<lambda>(i, j). R i j = t) (List.product [0..<TRACK_MAX] [0..<TRACK_MAX])"

abbreviation encode_pair :: "nptr \<times> nptr \<Rightarrow> nat" where
  "encode_pair p \<equiv> RESERVATION_ENCODE (fst p) (snd p)"

lemma take_append_full: "n \<le> length xs \<Longrightarrow> take n (xs @ ys) = take n xs"
  by simp

lemma get_all_row_take:
  assumes "length acc \<le> MAX_RESERVATIONS_RETURNED"
  shows "get_all_row R t i js acc =
    take MAX_RESERVATIONS_RETURNED (acc @ map (RESERVATION_ENCODE i) (filter (\<lambda>j. R i j = t) js))"
  using assms
  by (induction js arbitrary: acc) (auto simp: not_le Suc_le_eq take_Cons')

lemma get_all_rows_take:
  assumes "length acc \<le> MAX_RESERVATIONS_RETURNED"
  shows "get_all_rows R t rows acc = take MAX_RESERVATIONS_RETURNED
    (acc @ map encode_pair (filter (\<lambda>(i, j). R i j = t) (List.product rows [0..<TRACK_MAX])))"
  using assms
proof (induction rows arbitrary: acc)
  case (Cons i rows)
  let ?M = "MAX_RESERVATIONS_RETURNED"
  let ?row = "map (RESERVATION_ENCODE i) (filter (\<lambda>j. R i j = t) [0..<TRACK_MAX])"
  have row: "map encode_pair (filter (\<lambda>(i, j). R i j = t) (map (Pair i) [0..<TRACK_MAX])) = ?row"
    by (simp add: filter_map comp_def)
  show ?case
  proof (cases "?M \<le> length acc")
    case False
    then have "length (get_all_row R t i [0..<TRACK_MAX] acc) \<le> ?M"
      by (simp add: get_all_row_take)
    from Cons.IH [OF this] False show ?thesis
      by (simp add: get_all_row_take row min_def flip: append_assoc)
  qed (use Cons.prems in simp)
qed simp

lemma get_all_exact:
  "reservation_step T R (RESERVATION_GET_ALL t) = Some (R, REPLY_RESERVATION_GET_ALL
     (take MAX_RESERVATIONS_RETURNED (map encode_pair (owned_by R t))))"
  by (simp add: get_all_rows_take owned_by_def)

lemma reservation_encode_inj:
  assumes "j < TRACK_MAX" "j' < TRACK_MAX" "RESERVATION_ENCODE i j = RESERVATION_ENCODE i' j'"
  shows "i = i' \<and> j = j'"
proof -
  have "(i * TRACK_MAX + j) div TRACK_MAX = i" "(i' * TRACK_MAX + j') div TRACK_MAX = i'"
    using assms(1,2) by (simp_all add: div_add1_eq)
  then show ?thesis using assms(3) by (auto simp: RESERVATION_ENCODE_def)
qed

end
