(* ===== verification/Track_Properties.thy ===== *)
theory Track_Properties
  imports Reservation
begin

text \<open>
  The properties of the two track tables, of the walk from sensor to sensor, and of the reservation
  server. The walk ends because from every node each way forward meets a sensor or the end of the
  track within \<open>WALK_BOUND\<close> steps, whatever the turnouts are set to.
\<close>

section \<open>The tables\<close>

text \<open>
  C33: both track tables are well formed: reversing a node is an involution without fixed points
  and gives the opposite type, every node has the edges its type calls for, each edge is paired with
  an edge of the same length between the reversed nodes, sensor numbers are indices and the turnout
  numbers are valid and lead back to their node.
\<close>

theorem track_tables_ok: "track_ok init_tracka TRACK_MAX \<and> track_ok init_trackb 140"
  using tracka_ok trackb_ok by (simp add: TRACK_MAX_def)

text \<open>
  The turnouts \<open>init_track\<close> fixes on track B exist, so \<open>init_track\<close> runs through, and the result
  still pairs all nodes.
\<close>

theorem init_track_succeeds:
  "\<exists>T. init_track_b = Some T \<and> length T = TRACK_MAX \<and> rev_ok T 140 \<and> server_track T 140"
proof -
  obtain T where T: "init_track_b = Some T" using init_track_b_ok by blast
  have "lab_track = T" by (simp add: lab_track_def T)
  with T show ?thesis using lab_track_rev_ok server_track_lab by (auto simp: TRACK_MAX_def)
qed

section \<open>From sensor to sensor\<close>

text \<open>The nodes a train can be on next, over all settings of the turnouts.\<close>

definition successors :: "track \<Rightarrow> nptr \<Rightarrow> nptr option list" where
  "successors T i = (case array_get T i of None \<Rightarrow> [] | Some n \<Rightarrow>
     if n_type n = NODE_SENSOR \<or> n_type n = NODE_MERGE \<or> n_type n = NODE_ENTER then [AHEAD n]
     else if n_type n = NODE_BRANCH then [STRAIGHT n, CURVED n] else [None])"

definition is_sensor :: "track \<Rightarrow> nptr \<Rightarrow> bool" where
  "is_sensor T i \<longleftrightarrow> (case array_get T i of None \<Rightarrow> False | Some n \<Rightarrow> n_type n = NODE_SENSOR)"

fun meets_sensor :: "track \<Rightarrow> nat \<Rightarrow> nptr \<Rightarrow> bool" where
  "meets_sensor T 0 i \<longleftrightarrow> False"
| "meets_sensor T (Suc k) i \<longleftrightarrow> i < length T \<and>
     list_all (\<lambda>p. case p of None \<Rightarrow> True
       | Some j \<Rightarrow> if is_sensor T j then True else meets_sensor T k j) (successors T i)"

definition WALK_BOUND :: nat where "WALK_BOUND = 8"

definition turnouts_in :: "track \<Rightarrow> nptr \<Rightarrow> bool" where
  "turnouts_in T i \<longleftrightarrow> (case array_get T i of None \<Rightarrow> False | Some n \<Rightarrow>
     n_type n = NODE_BRANCH \<longrightarrow> unat (turnout_num_to_map_offset (of_int (n_num n))) < NUM_TURNOUTS)"

lemma track_node_next_successors:
  assumes "track_node_next T ts (Some i) = Some p" shows "p \<in> set (successors T i)"
  using assms
  by (auto simp: track_node_next_def node_at_def successors_def split: bind_splits if_splits)

lemma track_node_next_defined:
  assumes "turnouts_in T i" "length ts = NUM_TURNOUTS"
  shows "\<exists>p. track_node_next T ts (Some i) = Some p"
  using assms by (auto simp: track_node_next_def node_at_def turnouts_in_def split: option.splits)

lemma sensor_next_meets:
  assumes t: "\<And>i. i < length T \<Longrightarrow> turnouts_in T i" and l: "length ts = NUM_TURNOUTS"
  shows "meets_sensor T k i \<Longrightarrow> \<exists>r. sensor_next T ts (Some i) = Some r \<and>
    (case r of None \<Rightarrow> True | Some j \<Rightarrow> is_sensor T j)"
proof (induction k arbitrary: i)
  case (Suc k)
  then have i: "i < length T" by simp
  obtain p where p: "track_node_next T ts (Some i) = Some p"
    using track_node_next_defined [OF t [OF i] l] by blast
  show ?case
  proof (cases p)
    case None
    then show ?thesis using p by (subst sensor_next.simps) simp
  next
    case (Some j)
    then have j: "is_sensor T j \<or> meets_sensor T k j"
      using Suc.prems track_node_next_successors [OF p] by (auto simp: list_all_iff split: if_splits)
    then have "j < length T" by (cases k) (auto simp: is_sensor_def array_get_def split: if_splits)
    note j = this j
    then show ?thesis
      using p Some Suc.IH [of j] by (subst sensor_next.simps) (auto simp: is_sensor_def)
  qed
qed simp

lemma meets_sensor_numeral:
  "meets_sensor T (numeral k) i \<longleftrightarrow> i < length T \<and>
     list_all (\<lambda>p. case p of None \<Rightarrow> True
       | Some j \<Rightarrow> if is_sensor T j then True else meets_sensor T (pred_numeral k) j) (successors T i)"
  by (simp add: numeral_eq_Suc)

lemma tracka_meets: "list_all (meets_sensor init_tracka 8) [0..<144]"
  by (simp add: all_less_Suc_numeral meets_sensor_numeral successors_def is_sensor_def tracka_simps
      del: array_get_Some meets_sensor.simps)

lemma trackb_meets: "list_all (meets_sensor init_trackb 8) [0..<140]"
  by (simp add: all_less_Suc_numeral meets_sensor_numeral successors_def is_sensor_def tracka_simps
      del: array_get_Some meets_sensor.simps)

lemma tracka_turnouts_in: "list_all (turnouts_in init_tracka) [0..<144]"
  by (simp add: all_less_Suc_numeral turnouts_in_def turnout_num_to_map_offset_def NUM_TURNOUTS_def
      tracka_simps del: array_get_Some)

lemma trackb_turnouts_in: "list_all (turnouts_in init_trackb) [0..<144]"
proof -
  have "array_get init_trackb 140 = Some null_node" "array_get init_trackb 141 = Some null_node"
    "array_get init_trackb 142 = Some null_node" "array_get init_trackb 143 = Some null_node"
    by (simp_all add: init_trackb_def nth_append)
  then show ?thesis
    by (simp add: all_less_Suc_numeral turnouts_in_def turnout_num_to_map_offset_def NUM_TURNOUTS_def
        null_node_def tracka_simps del: array_get_Some)
qed

text \<open>Fixing a turnout only takes ways forward away.\<close>

lemma set_turnout_successors:
  assumes "set_turnout_permanently T k st = Some T'"
  shows "set (successors T' i) \<subseteq> set (successors T i)" "is_sensor T' i = is_sensor T i"
    "turnouts_in T' i = turnouts_in T i" "length T' = length T"
  using assms
  by (auto simp: set_turnout_permanently_def Let_def array_get_def array_set_def successors_def
      is_sensor_def turnouts_in_def nth_list_update split: turnout_state.splits bind_splits if_splits)

lemma set_turnout_meets:
  assumes "set_turnout_permanently T k st = Some T'"
  shows "meets_sensor T n i \<Longrightarrow> meets_sensor T' n i"
proof (induction n arbitrary: i)
  case (Suc n)
  then show ?case
    using set_turnout_successors [OF assms] by (fastforce simp: list_all_iff split: option.splits)
qed simp

lemma lab_track_meets: "i < 140 \<Longrightarrow> meets_sensor lab_track 8 i" "i < 144 \<Longrightarrow> turnouts_in lab_track i"
proof -
  obtain T where T: "init_track_b = Some T" using init_track_b_ok by blast
  have l: "lab_track = T" by (simp add: lab_track_def T)
  obtain t1 t2 where t: "set_turnout_permanently init_trackb 17 TURNOUT_CURVED = Some t1"
    "set_turnout_permanently t1 155 TURNOUT_CURVED = Some t2"
    "set_turnout_permanently t2 156 TURNOUT_STRAIGHT = Some T"
    using T by (auto simp: init_track_b_def split: bind_splits)
  show "i < 140 \<Longrightarrow> meets_sensor lab_track 8 i"
    unfolding l using trackb_meets
    by (intro set_turnout_meets [OF t(3)] set_turnout_meets [OF t(2)] set_turnout_meets [OF t(1)])
       (simp add: list_all_iff del: meets_sensor.simps)
  show "i < 144 \<Longrightarrow> turnouts_in lab_track i"
    unfolding l using trackb_turnouts_in
    by (simp add: set_turnout_successors(3) [OF t(3)] set_turnout_successors(3) [OF t(2)]
        set_turnout_successors(3) [OF t(1)] list_all_iff)
qed

text \<open>
  On both tracks, from every node and for every setting of the turnouts, \<open>sensor_next\<close> returns:
  a sensor, or NULL where the track ends before the next sensor. (The loop has no bound of its own.)
\<close>

theorem sensor_next_returns:
  assumes "length ts = NUM_TURNOUTS"
  shows "(i < 144 \<longrightarrow> (\<exists>r. sensor_next init_tracka ts (Some i) = Some r \<and>
      (case r of None \<Rightarrow> True | Some j \<Rightarrow> is_sensor init_tracka j))) \<and>
    (i < 140 \<longrightarrow> (\<exists>r. sensor_next lab_track ts (Some i) = Some r \<and>
      (case r of None \<Rightarrow> True | Some j \<Rightarrow> is_sensor lab_track j)))"
proof (intro conjI impI)
  assume "i < 144"
  then have "meets_sensor init_tracka 8 i" using tracka_meets by (simp add: list_all_iff del: meets_sensor.simps)
  then show "\<exists>r. sensor_next init_tracka ts (Some i) = Some r \<and>
      (case r of None \<Rightarrow> True | Some j \<Rightarrow> is_sensor init_tracka j)"
    by (rule sensor_next_meets [rotated 2]) (use assms tracka_turnouts_in in \<open>auto simp: list_all_iff\<close>)
next
  assume "i < 140"
  from lab_track_meets(1) [OF this] show "\<exists>r. sensor_next lab_track ts (Some i) = Some r \<and>
      (case r of None \<Rightarrow> True | Some j \<Rightarrow> is_sensor lab_track j)"
    by (rule sensor_next_meets [rotated 2])
       (use assms lab_track_meets(2) lab_track_rev_ok(2) in simp_all)
qed

theorem sensor_next_returns_witness:
  "\<exists>r. sensor_next lab_track (replicate 22 TURNOUT_CURVED) (Some 5) = Some r"
  using sensor_next_returns [of "replicate 22 TURNOUT_CURVED" 5] by (auto simp: NUM_TURNOUTS_def)

section \<open>Reservations\<close>

text \<open>
  C12: in every state of the reservation server an edge and its reverse belong to the same train.
\<close>

theorem reservations_symmetric:
  assumes "reservation_run T R" "server_track T N" "i < N" "j < N"
  shows "R (rv T j) (rv T i) = R i j"
  using reservation_run_inv [OF assms(1,2)] assms(3,4) by (simp add: reserved_inv_def)

theorem reservations_symmetric_witness:
  "reservation_server_init (rv lab_track 3) (rv lab_track 2) = reservation_server_init 2 3"
  by (rule reservations_symmetric [OF reservation_run.init server_track_lab]) simp_all


lemma set_turnout_other:
  assumes "set_turnout_permanently T k st = Some T'" "i \<noteq> 80 + 2 * unat (turnout_num_to_map_offset k)"
  shows "array_get T' i = array_get T i"
  using assms
  by (auto simp: set_turnout_permanently_def Let_def array_get_def array_set_def
      split: turnout_state.splits bind_splits if_splits)

lemma lab_follows: "node_follows lab_track (Some 0) (Some 103) = Some True"
proof -
  obtain T where T: "init_track_b = Some T" using init_track_b_ok by blast
  have l: "lab_track = T" by (simp add: lab_track_def T)
  obtain t1 t2 where t: "set_turnout_permanently init_trackb 17 TURNOUT_CURVED = Some t1"
    "set_turnout_permanently t1 155 TURNOUT_CURVED = Some t2"
    "set_turnout_permanently t2 156 TURNOUT_STRAIGHT = Some T"
    using T by (auto simp: init_track_b_def split: bind_splits)
  have "array_get T 0 = array_get init_trackb 0"
    using set_turnout_other [OF t(3), of 0] set_turnout_other [OF t(2), of 0]
      set_turnout_other [OF t(1), of 0] by simp
  then show ?thesis
    by (simp add: l node_follows_def node_at_def trackb_0_17_nodes del: array_get_Some)
qed


text \<open>
  \<open>DROP\<close> gives the edge and its reverse back exactly when the train owns it; otherwise it
  changes nothing. \<open>DROP_ALL\<close> gives back all the train's edges and no others.
\<close>

theorem reservation_drop:
  assumes run: "reservation_run T R" and st: "server_track T N"
    and f: "node_follows T (Some i) (Some j) = Some True"
  shows "reservation_step T R (RESERVATION_DROP (Some i) (Some j) t) = Some
      (if R i j = t
       then (\<lambda>a b. if a = i \<and> b = j \<or> a = rv T j \<and> b = rv T i then NOT_RESERVED else R a b,
         REPLY_RESERVATION_DROP RESPONSE_OK)
       else (R, REPLY_RESERVATION_DROP RESPONSE_NOT_RESERVED)) \<and>
    reservation_step T R (RESERVATION_DROP_ALL t) = Some
      (\<lambda>a b. if a < TRACK_MAX \<and> b < TRACK_MAX \<and> R a b = t then NOT_RESERVED else R a b, REPLY_EMPTY)"
proof -
  have "own_edge T R i j NOT_RESERVED =
      (\<lambda>a b. if a = i \<and> b = j \<or> a = rv T j \<and> b = rv T i then NOT_RESERVED else R a b)"
    by (intro ext own_edge_apply)
  then show ?thesis
    using reservation_run_drop [OF run st f, of t] by (simp only: reservation_step.simps(3) drop_all_def)
qed

theorem reservation_drop_witness:
  "reservation_step lab_track reservation_server_init (RESERVATION_DROP (Some 0) (Some 103) 24) =
     Some (reservation_server_init, REPLY_RESERVATION_DROP RESPONSE_NOT_RESERVED)"
  using reservation_drop [OF reservation_run.init server_track_lab lab_follows, of 24]
  by (simp add: NOT_RESERVED_def reservation_server_init_def)

text \<open>
  \<open>GET_ALL\<close> lists the edges the train owns, in the order of their indices, and at most 30 of
  them; the codes of different edges differ.
\<close>

theorem reservation_get_all:
  "reservation_step T R (RESERVATION_GET_ALL t) = Some (R, REPLY_RESERVATION_GET_ALL
     (take MAX_RESERVATIONS_RETURNED (map encode_pair (owned_by R t)))) \<and>
   distinct (map encode_pair (owned_by R t))"
proof -
  have "inj_on encode_pair (set (owned_by R t))"
    by (rule inj_onI) (auto simp: owned_by_def dest: reservation_encode_inj [rotated 2])
  then show ?thesis
    unfolding get_all_exact by (simp add: distinct_map owned_by_def distinct_product)
qed

end
