(* ===== verification/Route_Properties.thy ===== *)
theory Route_Properties
  imports Shortest_Route Track_Properties
begin

text \<open>
  The properties of routes and of the router, and that the track of the lab satisfies what they ask
  of a track.
\<close>

section \<open>The track of the lab\<close>

definition routable_at :: "track \<Rightarrow> nat \<Rightarrow> nat \<Rightarrow> bool" where
  "routable_at T nodes i \<longleftrightarrow> (case array_get T i of None \<Rightarrow> False
     | Some n \<Rightarrow> list_all (run_edge_ok nodes) (edges_of n) \<and> twin_ok n)"

lemma routable_iff:
  "routable T nodes \<longleftrightarrow> nodes \<le> length T \<and> nodes < MAX_ROUTE_LENGTH \<and> list_all (routable_at T nodes) [0..<nodes]"
proof (cases "nodes \<le> length T")
  case True
  have "routable_at T nodes i \<longleftrightarrow> list_all (run_edge_ok nodes) (edges_of (T ! i)) \<and> twin_ok (T ! i)"
    if "i < length T" for i
    using that by (simp add: routable_at_def)
  then show ?thesis using True by (simp add: routable_def list_all_length)
qed (simp add: routable_def)

lemma trackb_routable: "list_all (routable_at init_trackb 140) [0..<140]"
  by (simp add: all_less_Suc_numeral routable_at_def edges_of_def run_edge_ok_def twin_ok_def tracka_simps
      del: array_get_Some)

lemma set_turnout_routable:
  assumes "set_turnout_permanently T k st = Some T'" "routable_at T n i"
  shows "routable_at T' n i"
proof -
  obtain j nd nd' where j: "j < length T" "nd = T ! j" "n_type nd = NODE_BRANCH" "T' = T[j := nd']"
    "nd' = nd\<lparr>n_edge1 := n_edge0 nd\<rparr> \<or> nd' = nd\<lparr>n_edge0 := n_edge1 nd\<rparr>"
    using assms(1)
    by (auto simp: set_turnout_permanently_def Let_def array_get_def array_set_def
        split: turnout_state.splits bind_splits if_splits)
  show ?thesis
  proof (cases "i = j")
    case True
    then have "array_get T i = Some nd" "array_get T' i = Some nd'" using j by simp_all
    then show ?thesis using assms(2) j(3,5) by (auto simp: routable_at_def edges_of_def twin_ok_def)
  next
    case False
    then have "array_get T' i = array_get T i" using j(4) by (simp add: array_get_def)
    then show ?thesis using assms(2) by (simp add: routable_at_def)
  qed
qed

lemma lab_track_routable: "routable lab_track 140"
proof -
  obtain T where T: "init_track_b = Some T" using init_track_b_ok by blast
  have l: "lab_track = T" by (simp add: lab_track_def T)
  obtain t1 t2 where t: "set_turnout_permanently init_trackb 17 TURNOUT_CURVED = Some t1"
    "set_turnout_permanently t1 155 TURNOUT_CURVED = Some t2"
    "set_turnout_permanently t2 156 TURNOUT_STRAIGHT = Some T"
    using T by (auto simp: init_track_b_def split: bind_splits)
  have "list_all (routable_at T 140) [0..<140]"
    using trackb_routable set_turnout_routable [OF t(1)] set_turnout_routable [OF t(2)]
      set_turnout_routable [OF t(3)]
    by (simp add: list_all_iff)
  then show ?thesis using lab_track_rev_ok(2)
    by (simp add: routable_iff l MAX_ROUTE_LENGTH_def TRACK_MAX_def)
qed

section \<open>Properties\<close>

lemma router_ok:
  assumes T: "routable T nodes" and s: "l_node start = Some s" "s < nodes"
    and f: "l_node finish = Some f" "f < nodes" "n_reverse (T ! f) = Some r" "r < nodes"
    and l: "length (pq_elts q) = SEARCH_NODE_QUEUE_SIZE" "length fw = MAX_ROUTE_LENGTH" "length bw = MAX_ROUTE_LENGTH"
  shows "\<exists>reply route'. router_step T nodes q fw bw start finish route = Some (reply, route') \<and>
    (if reply = REPLY_GET_ROUTE_ERROR
     then route' = route \<and> (\<nexists>p v d. v \<in> {f, r} \<and> route_path T s p v d)
     else \<exists>p v d rest. route' = map Some p @ None # rest \<and> v \<in> {f, r} \<and> route_path T s p v d \<and>
       (\<forall>p' v' d'. v' \<in> {f, r} \<longrightarrow> route_path T s p' v' d' \<longrightarrow> d \<le> d'))"
proof -
  have "f < length T" using f(2) T by (simp add: routable_def)
  then have rv: "location_reverse T finish = Some \<lparr>l_node = Some r, l_offset = - l_offset finish\<rparr>"
    using f by (simp add: location_reverse_def node_at_def)
  note len = route_length_path [OF T _ s(2)]
  from plan_route_ok [OF T s(2) f(2) l(1,2)] plan_route_ok [OF T s(2) f(4) l(1,3)] show ?thesis
  proof (elim disjE exE conjE)
    fix p d p' d'
    assume a: "plan_route T nodes q (Some s) (Some f) fw = Some (True, map Some p @ None # drop (Suc (length p)) fw)"
      "shortest T s p f d" "length p < MAX_ROUTE_LENGTH"
      "plan_route T nodes q (Some s) (Some r) bw = Some (True, map Some p' @ None # drop (Suc (length p')) bw)"
      "shortest T s p' r d'" "length p' < MAX_ROUTE_LENGTH"
    have l: "route_length T (map Some p @ None # rest) = Some (100 * d)"
      "route_length T (map Some p' @ None # rest) = Some (100 * d')" for rest
      using len [of p f d] len [of p' r d'] a by (simp_all add: shortest_def)
    show ?thesis
    proof (cases "d < d'")
      case True
      have "d \<le> x" if "route_path T s p'' r x" for p'' x
        using a(5) that True unfolding shortest_def by (meson less_le_trans less_imp_le)
      then show ?thesis using a l rv s(1) f(1) True unfolding router_step_def shortest_def
        by (auto intro!: exI [of _ p] exI [of _ f] exI [of _ d])
    next
      case False
      have "d' \<le> x" if "route_path T s p'' f x" for p'' x
        using a(2) that False unfolding shortest_def by fastforce
      then show ?thesis using a l rv s(1) f(1) False unfolding router_step_def shortest_def
        by (auto intro!: exI [of _ p'] exI [of _ r] exI [of _ d'])
    qed
  next
    fix p d
    assume "plan_route T nodes q (Some s) (Some f) fw = Some (True, map Some p @ None # drop (Suc (length p)) fw)"
      "shortest T s p f d" "plan_route T nodes q (Some s) (Some r) bw = Some (False, bw)" "\<nexists>p d. route_path T s p r d"
    then show ?thesis using rv s(1) f(1) unfolding router_step_def shortest_def
      by (auto intro!: exI [of _ p] exI [of _ f] exI [of _ d])
  next
    fix p d
    assume "plan_route T nodes q (Some s) (Some r) bw = Some (True, map Some p @ None # drop (Suc (length p)) bw)"
      "shortest T s p r d" "plan_route T nodes q (Some s) (Some f) fw = Some (False, fw)" "\<nexists>p d. route_path T s p f d"
    then show ?thesis using rv s(1) f(1) unfolding router_step_def shortest_def
      by (auto intro!: exI [of _ p] exI [of _ r] exI [of _ d])
  next
    assume "plan_route T nodes q (Some s) (Some f) fw = Some (False, fw)" "\<nexists>p d. route_path T s p f d"
      "plan_route T nodes q (Some s) (Some r) bw = Some (False, bw)" "\<nexists>p d. route_path T s p r d"
    then show ?thesis using rv s(1) f(1) unfolding router_step_def by auto
  qed
qed

text \<open>
  C13: on a track with fewer nodes than a route has entries \<open>plan_route\<close> always returns. It reports
  failure, leaving the route alone, exactly when no way leads to the end node; otherwise it writes
  a shortest way from the start to the end node, ended by NULL, and nothing beyond.
\<close>

theorem plan_route_shortest:
  assumes "routable T nodes" "s < nodes" "v < nodes"
    and "length (pq_elts q) = SEARCH_NODE_QUEUE_SIZE" "length route = MAX_ROUTE_LENGTH"
  shows "\<exists>ok route'. plan_route T nodes q (Some s) (Some v) route = Some (ok, route') \<and>
    (ok \<longleftrightarrow> (\<exists>p d. route_path T s p v d)) \<and>
    (ok \<longrightarrow> (\<exists>p d. route' = map Some p @ None # drop (Suc (length p)) route \<and> shortest T s p v d)) \<and>
    (\<not> ok \<longrightarrow> route' = route)"
  using plan_route_ok [OF assms] unfolding shortest_def by (elim disjE) fastforce+

definition blank_queue :: search_node_queue where
  "blank_queue = \<lparr>pq_size = 0, pq_elts = replicate 144 \<lparr>sn_node = 0, sn_distance = 0, sn_prev = None\<rparr>\<rparr>"

lemma blank_queue_length: "length (pq_elts blank_queue) = SEARCH_NODE_QUEUE_SIZE"
  by (simp add: blank_queue_def SEARCH_NODE_QUEUE_SIZE_def TRACK_MAX_def)

lemma blank_route_length: "length (replicate 144 None) = MAX_ROUTE_LENGTH"
  by (simp add: MAX_ROUTE_LENGTH_def TRACK_MAX_def)

theorem plan_route_shortest_witness:
  "\<exists>ok route'. plan_route lab_track 140 blank_queue (Some 0) (Some 30) (replicate 144 None) = Some (ok, route') \<and>
    (ok \<longleftrightarrow> (\<exists>p d. route_path lab_track 0 p 30 d)) \<and>
    (ok \<longrightarrow> (\<exists>p d. route' = map Some p @ None # drop (Suc (length p)) (replicate 144 None) \<and>
      shortest lab_track 0 p 30 d)) \<and>
    (\<not> ok \<longrightarrow> route' = replicate 144 None)"
  by (rule plan_route_shortest) (simp_all add: lab_track_routable blank_queue_length blank_route_length del: length_replicate)

text \<open>
  C14: the router always answers. It answers with an error, leaving the sender's route alone, exactly
  when neither the end location nor its reverse can be reached; otherwise the sender gets a way to
  one of the two that is as short as any to either.
\<close>

theorem router_answers:
  assumes T: "routable T nodes" and s: "l_node start = Some s" "s < nodes"
    and f: "l_node finish = Some f" "f < nodes" "n_reverse (T ! f) = Some r" "r < nodes"
    and l: "length (pq_elts q) = SEARCH_NODE_QUEUE_SIZE" "length fw = MAX_ROUTE_LENGTH" "length bw = MAX_ROUTE_LENGTH"
  shows "\<exists>reply route'. router_step T nodes q fw bw start finish route = Some (reply, route') \<and>
    (if reply = REPLY_GET_ROUTE_ERROR
     then route' = route \<and> (\<nexists>p v d. v \<in> {f, r} \<and> route_path T s p v d)
     else \<exists>p v d rest. route' = map Some p @ None # rest \<and> v \<in> {f, r} \<and> route_path T s p v d \<and>
       (\<forall>p' v' d'. v' \<in> {f, r} \<longrightarrow> route_path T s p' v' d' \<longrightarrow> d \<le> d'))"
  by (rule router_ok [OF assms])

lemma lab_node_30: "array_get lab_track 30 = array_get init_trackb 30"
proof -
  obtain T where T: "init_track_b = Some T" using init_track_b_ok by blast
  then show ?thesis
    by (auto simp: lab_track_def init_track_b_def set_turnout_permanently_def Let_def array_set_def array_get_def
        turnout_num_to_map_offset_def split: bind_splits if_splits)
qed

theorem router_answers_witness:
  "\<exists>reply route'. router_step lab_track 140 blank_queue (replicate 144 None) (replicate 144 None)
      \<lparr>l_node = Some 0, l_offset = 0\<rparr> \<lparr>l_node = Some 30, l_offset = 0\<rparr> [] = Some (reply, route') \<and>
    (reply = REPLY_GET_ROUTE_ERROR \<longrightarrow> route' = [])"
proof -
  have n: "n_reverse (lab_track ! 30) = Some 31"
    using lab_node_30 lab_track_rev_ok(2) by (simp add: tracka_simps)
  from router_answers [OF lab_track_routable _ _ _ _ n _ blank_queue_length blank_route_length blank_route_length,
      of "\<lparr>l_node = Some 0, l_offset = 0\<rparr>" 0 "\<lparr>l_node = Some 30, l_offset = 0\<rparr>" "[]"]
  show ?thesis by (auto split: if_splits)
qed

text \<open>
  \<open>num_turnouts_within_distance\<close> counts exactly the calls \<open>switch_turnouts_within_distance\<close> makes.
\<close>

theorem num_turnouts_counts_switches:
  "num_turnouts_within_distance T turnouts route loc distance =
     map_option length (switch_turnouts_within_distance T turnouts route loc distance)"
  using num_turnouts_loop_length [of T turnouts route loc distance route 0 False "[]"]
  by (simp add: num_turnouts_within_distance_def switch_turnouts_within_distance_def)

end
