(* ===== verification/Ring_Buffer.thy ===== *)
theory Ring_Buffer
  imports Trains_Prelude
begin

text \<open>
  The ring buffer template \<open>lib/buffer.h\<close>, instantiated by \<open>lib/buffertypes\<close> at \<open>char\<close>
  and \<open>int32_t\<close>; the element type is a type variable here. \<open>BUFFER_SIZE_TYPE\<close> is
  \<open>uint32_t\<close> in both instances, so the four counters are 32-bit words. The C array the
  caller passes to \<open>init\<close> is the list \<open>b_data\<close>.
\<close>

record 'a buffer =
  b_data :: "'a list"
  b_size :: u32
  b_elems :: u32
  b_in :: u32
  b_out :: u32

definition buffer_init :: "'a list \<Rightarrow> u32 \<Rightarrow> 'a buffer" where
  "buffer_init d sz = \<lparr>b_data = d, b_size = sz, b_elems = 0, b_in = 0, b_out = 0\<rparr>"

definition buffer_is_full :: "'a buffer \<Rightarrow> bool" where
  "buffer_is_full b \<longleftrightarrow> b_elems b \<ge> b_size b"

definition buffer_is_empty :: "'a buffer \<Rightarrow> bool" where
  "buffer_is_empty b \<longleftrightarrow> b_elems b = 0"

definition buffer_length :: "'a buffer \<Rightarrow> u32" where
  "buffer_length b = b_elems b"

definition buffer_put :: "'a buffer \<Rightarrow> 'a \<Rightarrow> 'a buffer option" where
  "buffer_put b e = do {
     d \<leftarrow> array_set (b_data b) (unat (b_in b)) e;
     let b1 = b\<lparr>b_data := d, b_in := b_in b + 1\<rparr>;
     let b2 = (if b_in b1 \<ge> b_size b1 then b1\<lparr>b_in := 0\<rparr> else b1);
     Some (b2\<lparr>b_elems := b_elems b2 + 1\<rparr>)
   }"

definition buffer_put_safe :: "'a buffer \<Rightarrow> 'a \<Rightarrow> ('a buffer \<times> int) option" where
  "buffer_put_safe b e =
     (if \<not> buffer_is_full b then do { b' \<leftarrow> buffer_put b e; Some (b', 0) }
      else Some (b, 1))"

definition buffer_remove :: "'a buffer \<Rightarrow> 'a buffer option" where
  "buffer_remove b = do {
     guard_opt (b_size b \<noteq> 0);
     Some (b\<lparr>b_out := (b_out b + 1) mod b_size b, b_elems := b_elems b - 1\<rparr>)
   }"

definition buffer_put_replace :: "'a buffer \<Rightarrow> 'a \<Rightarrow> 'a buffer option" where
  "buffer_put_replace b e = do {
     b' \<leftarrow> (if buffer_is_full b then buffer_remove b else Some b);
     buffer_put b' e
   }"

definition buffer_peek :: "'a buffer \<Rightarrow> 'a option" where
  "buffer_peek b = array_get (b_data b) (unat (b_out b))"

definition buffer_get :: "'a buffer \<Rightarrow> ('a buffer \<times> 'a) option" where
  "buffer_get b = do {
     ret \<leftarrow> array_get (b_data b) (unat (b_out b));
     b' \<leftarrow> buffer_remove b;
     Some (b', ret)
   }"

definition buffer_empty :: "'a buffer \<Rightarrow> 'a buffer" where
  "buffer_empty b = b\<lparr>b_in := 0, b_out := 0, b_elems := 0\<rparr>"

text \<open>The index arithmetic for walking the buffer backwards; \<open>None\<close> is a division by zero.\<close>

definition buffer_iter_prev_starti :: "'a buffer \<Rightarrow> u32 option" where
  "buffer_iter_prev_starti b =
     (if b_elems b = 0 \<and> b_in b = 0 then Some 0
      else do {
        guard_opt (b_elems b \<noteq> 0);
        Some ((b_elems b + b_in b - 1) mod b_elems b)
      })"

definition buffer_iter_prev_endx :: "'a buffer \<Rightarrow> u32 option" where
  "buffer_iter_prev_endx b = map_option (\<lambda>i. i + 1) (buffer_iter_prev_starti b)"

definition buffer_next_i :: "'a buffer \<Rightarrow> u32 \<Rightarrow> u32 option" where
  "buffer_next_i b i = do {
     guard_opt (b_elems b \<noteq> 0);
     Some ((i + 1) mod b_elems b)
   }"

definition buffer_prev_i :: "'a buffer \<Rightarrow> u32 \<Rightarrow> u32 option" where
  "buffer_prev_i b i =
     (if i + b_elems b = 0 then Some 0
      else do {
        guard_opt (b_elems b \<noteq> 0);
        Some ((i - 1 + b_elems b) mod b_elems b)
      })"

text \<open>
  The invariant of a buffer over an array of its size, and the queue it holds: the
  \<open>elems\<close> elements from \<open>out\<close> on, wrapping at \<open>size\<close>.
\<close>

definition buffer_inv :: "'a buffer \<Rightarrow> bool" where
  "buffer_inv b \<longleftrightarrow>
     0 < unat (b_size b) \<and> length (b_data b) = unat (b_size b) \<and>
     unat (b_elems b) \<le> unat (b_size b) \<and> unat (b_out b) < unat (b_size b) \<and>
     unat (b_in b) = (unat (b_out b) + unat (b_elems b)) mod unat (b_size b)"

definition buffer_contents :: "'a buffer \<Rightarrow> 'a list" where
  "buffer_contents b =
     map (\<lambda>k. b_data b ! ((unat (b_out b) + k) mod unat (b_size b))) [0..<unat (b_elems b)]"

text \<open>Functional correctness of every operation against the queue.\<close>

lemma buffer_init_inv:
  assumes "length d = unat sz" and "0 < unat sz"
  shows "buffer_inv (buffer_init d sz)" and "buffer_contents (buffer_init d sz) = []"
  using assms by (simp_all add: buffer_inv_def buffer_contents_def buffer_init_def)

lemma buffer_is_empty_iff: "buffer_is_empty b \<longleftrightarrow> buffer_contents b = []"
  by (auto simp: buffer_is_empty_def buffer_contents_def unat_eq_0)

lemma length_buffer_contents: "length (buffer_contents b) = unat (buffer_length b)"
  by (simp add: buffer_contents_def buffer_length_def)

lemma buffer_is_full_iff:
  "buffer_inv b \<Longrightarrow> buffer_is_full b \<longleftrightarrow> length (buffer_contents b) = unat (b_size b)"
  by (auto simp: buffer_is_full_def buffer_contents_def buffer_inv_def word_le_nat_alt)

lemma buffer_inv_in_lt: "buffer_inv b \<Longrightarrow> unat (b_in b) < unat (b_size b)"
  by (simp add: buffer_inv_def)

lemma buffer_put_in:
  assumes "buffer_inv b"
  defines "i' \<equiv> (if b_in b + 1 \<ge> b_size b then 0 else b_in b + 1)"
  shows "unat i' = Suc (unat (b_in b)) mod unat (b_size b)"
proof -
  have "unat (b_in b) < unat (b_size b)" using assms by (simp add: buffer_inv_def)
  then show ?thesis
    by (auto simp: i'_def word_le_nat_alt unat_Suc_lt mod_if)
qed

lemma buffer_put_append:
  assumes inv: "buffer_inv b" and nf: "\<not> buffer_is_full b"
  shows "\<exists>b'. buffer_put b e = Some b' \<and> buffer_inv b' \<and> b_size b' = b_size b \<and>
    buffer_contents b' = buffer_contents b @ [e]"
proof -
  let ?N = "unat (b_size b)" and ?n = "unat (b_elems b)" and ?o = "unat (b_out b)"
  let ?i = "unat (b_in b)"
  define b' where "b' = b\<lparr>b_data := (b_data b)[?i := e],
    b_in := (if b_in b + 1 \<ge> b_size b then 0 else b_in b + 1), b_elems := b_elems b + 1\<rparr>"
  have i: "?i < ?N" and l: "length (b_data b) = ?N" and o: "?o < ?N"
    and ieq: "?i = (?o + ?n) mod ?N"
    using inv by (simp_all add: buffer_inv_def)
  have n: "?n < ?N" using inv nf by (simp add: buffer_is_full_def word_le_nat_alt)
  have n': "unat (b_elems b + 1) = Suc ?n" using n by (rule unat_Suc_lt)
  have put: "buffer_put b e = Some b'"
    using i l by (simp add: buffer_put_def b'_def Let_def)
  have "unat (b_in b') = Suc ?i mod ?N"
    using buffer_put_in [OF inv] by (simp add: b'_def)
  also have "\<dots> = (?o + Suc ?n) mod ?N" by (simp add: ieq mod_Suc_eq)
  finally have inv': "buffer_inv b'"
    using inv n n' by (simp add: buffer_inv_def b'_def)
  have "b_data b' ! ((?o + k) mod ?N) = b_data b ! ((?o + k) mod ?N)" if "k < ?n" for k
  proof -
    have "(?o + k) mod ?N \<noteq> ?i"
      using that n o by (auto simp: ieq wrap_mod split: if_splits)
    then show ?thesis by (simp add: b'_def)
  qed
  moreover have "b_data b' ! ((?o + ?n) mod ?N) = e"
    using i l by (simp add: b'_def flip: ieq)
  ultimately have "buffer_contents b' = buffer_contents b @ [e]"
    by (simp add: buffer_contents_def b'_def n')
  with put inv' show ?thesis by (simp add: b'_def)
qed

lemma buffer_remove_tl:
  assumes inv: "buffer_inv b" and ne: "\<not> buffer_is_empty b"
  shows "\<exists>b'. buffer_remove b = Some b' \<and> buffer_inv b' \<and> b_size b' = b_size b \<and>
    buffer_contents b' = tl (buffer_contents b)"
proof -
  let ?N = "unat (b_size b)" and ?n = "unat (b_elems b)" and ?o = "unat (b_out b)"
  define b' where
    "b' = b\<lparr>b_out := (b_out b + 1) mod b_size b, b_elems := b_elems b - 1\<rparr>"
  have o: "?o < ?N" and N: "0 < ?N" and le: "?n \<le> ?N"
    using inv by (simp_all add: buffer_inv_def)
  have n: "0 < ?n" using ne by (simp add: buffer_is_empty_def unat_gt_0)
  have rm: "buffer_remove b = Some b'"
    using N by (simp add: buffer_remove_def b'_def unat_gt_0)
  have o': "unat (b_out b') = Suc ?o mod ?N"
    using unat_Suc_lt [OF o] by (simp add: b'_def unat_mod)
  have n': "unat (b_elems b') = ?n - 1" using n by (simp add: b'_def unat_pred_pos)
  have "(Suc ?o mod ?N + (?n - 1)) mod ?N = (Suc ?o + (?n - 1)) mod ?N"
    by (rule mod_add_left_eq)
  also have "Suc ?o + (?n - 1) = ?o + ?n" using n by simp
  finally have "(Suc ?o mod ?N + (?n - 1)) mod ?N = (?o + ?n) mod ?N" .
  then have inv': "buffer_inv b'"
    using inv n' o' N by (auto simp: buffer_inv_def b'_def)
  have "buffer_contents b' = map (\<lambda>k. b_data b ! ((?o + Suc k) mod ?N)) [0..<?n - 1]"
    unfolding buffer_contents_def n' o' by (simp add: b'_def mod_add_left_eq)
  also have "\<dots> = map (\<lambda>k. b_data b ! ((?o + k) mod ?N)) (map Suc [0..<?n - 1])"
    by simp
  also have "map Suc [0..<?n - 1] = tl [0..<?n]"
    using n by (simp add: map_Suc_upt tl_upt)
  finally have "buffer_contents b' = tl (buffer_contents b)"
    by (simp only: buffer_contents_def map_tl)
  with rm inv' show ?thesis by (simp add: b'_def)
qed

lemma buffer_peek_hd:
  assumes inv: "buffer_inv b" and ne: "\<not> buffer_is_empty b"
  shows "buffer_peek b = Some (hd (buffer_contents b))"
proof -
  have "0 < unat (b_elems b)" using ne by (simp add: buffer_is_empty_def unat_gt_0)
  then show ?thesis
    using inv by (simp add: buffer_peek_def buffer_contents_def buffer_inv_def hd_map)
qed

lemma buffer_get_hd_tl:
  assumes inv: "buffer_inv b" and ne: "\<not> buffer_is_empty b"
  shows "\<exists>b'. buffer_get b = Some (b', hd (buffer_contents b)) \<and> buffer_inv b' \<and>
    b_size b' = b_size b \<and> buffer_contents b' = tl (buffer_contents b)"
  using buffer_remove_tl [OF assms] buffer_peek_hd [OF assms]
  by (auto simp: buffer_get_def buffer_peek_def)

lemma buffer_put_safe_full:
  "buffer_is_full b \<Longrightarrow> buffer_put_safe b e = Some (b, 1)"
  by (simp add: buffer_put_safe_def)

lemma buffer_put_safe_append:
  assumes "buffer_inv b" "\<not> buffer_is_full b"
  shows "\<exists>b'. buffer_put_safe b e = Some (b', 0) \<and> buffer_inv b' \<and>
    b_size b' = b_size b \<and> buffer_contents b' = buffer_contents b @ [e]"
  using buffer_put_append [OF assms, of e] assms(2) by (auto simp: buffer_put_safe_def)

lemma buffer_full_nonempty: "buffer_inv b \<Longrightarrow> buffer_is_full b \<Longrightarrow> \<not> buffer_is_empty b"
  by (auto simp: buffer_is_full_def buffer_is_empty_def buffer_inv_def word_le_nat_alt)

lemma buffer_put_replace_append:
  assumes inv: "buffer_inv b"
  shows "\<exists>b'. buffer_put_replace b e = Some b' \<and> buffer_inv b' \<and> b_size b' = b_size b \<and>
    buffer_contents b' =
      (if buffer_is_full b then tl (buffer_contents b) else buffer_contents b) @ [e]"
proof (cases "buffer_is_full b")
  case True
  then have ne: "\<not> buffer_is_empty b" by (rule buffer_full_nonempty [OF inv])
  obtain b1 where b1: "buffer_remove b = Some b1" "buffer_inv b1" "b_size b1 = b_size b"
    "buffer_contents b1 = tl (buffer_contents b)"
    using buffer_remove_tl [OF inv ne] by blast
  have "\<not> buffer_is_full b1"
    using True b1 inv ne buffer_inv_in_lt [OF inv]
    by (auto simp: buffer_is_full_iff buffer_is_empty_iff)
  from buffer_put_append [OF b1(2) this, of e] show ?thesis
    using True b1 by (auto simp: buffer_put_replace_def)
next
  case False
  from buffer_put_append [OF inv this, of e] show ?thesis
    using False by (auto simp: buffer_put_replace_def)
qed

lemma buffer_empty_clears:
  "buffer_inv b \<Longrightarrow> buffer_inv (buffer_empty b) \<and> buffer_contents (buffer_empty b) = []"
  by (simp add: buffer_inv_def buffer_empty_def buffer_contents_def)

text \<open>
  The queue contract the IO servers rely on, and its consequences for any client that feeds
  a batch in and takes a batch out.
\<close>

locale bounded_fifo =
  fixes put :: "'q \<Rightarrow> 'a \<Rightarrow> 'q option"
    and get :: "'q \<Rightarrow> ('q \<times> 'a) option"
    and contents :: "'q \<Rightarrow> 'a list"
    and cap :: "'q \<Rightarrow> nat"
    and inv :: "'q \<Rightarrow> bool"
  assumes put_spec: "inv q \<Longrightarrow> length (contents q) < cap q \<Longrightarrow>
      \<exists>q'. put q x = Some q' \<and> inv q' \<and> cap q' = cap q \<and> contents q' = contents q @ [x]"
    and get_spec: "inv q \<Longrightarrow> contents q = x # xs \<Longrightarrow>
      \<exists>q'. get q = Some (q', x) \<and> inv q' \<and> cap q' = cap q \<and> contents q' = xs"
begin

lemma feed_all:
  "inv q \<Longrightarrow> length (contents q) + length xs \<le> cap q \<Longrightarrow>
   \<exists>q'. feed put q xs = Some q' \<and> inv q' \<and> cap q' = cap q \<and> contents q' = contents q @ xs"
proof (induction xs arbitrary: q)
  case (Cons x xs)
  then obtain q1 where "put q x = Some q1" "inv q1" "cap q1 = cap q"
    "contents q1 = contents q @ [x]"
    using put_spec [of q x] by auto
  with Cons.IH [of q1] Cons.prems show ?case by auto
qed simp

lemma drain_all:
  "inv q \<Longrightarrow> contents q = xs @ ys \<Longrightarrow>
   \<exists>q'. drain get (length xs) q = Some (q', xs) \<and> inv q' \<and> cap q' = cap q \<and> contents q' = ys"
proof (induction xs arbitrary: q)
  case (Cons x xs)
  then obtain q1 where "get q = Some (q1, x)" "inv q1" "cap q1 = cap q"
    "contents q1 = xs @ ys"
    using get_spec [of q x "xs @ ys"] by auto
  with Cons.IH [of q1] show ?case by auto
qed simp

lemma feed_drain:
  assumes "inv q" "contents q = []" "length xs \<le> cap q"
  shows "\<exists>q1 q2. feed put q xs = Some q1 \<and> drain get (length xs) q1 = Some (q2, xs) \<and>
    inv q2 \<and> contents q2 = []"
proof -
  obtain q1 where "feed put q xs = Some q1" "inv q1" "contents q1 = xs @ []"
    using feed_all [of q xs] assms by auto
  with drain_all [of q1 xs "[]"] show ?thesis by auto
qed

end

interpretation rb: bounded_fifo buffer_put buffer_get buffer_contents
  "\<lambda>b. unat (b_size b)" buffer_inv
proof
  fix b :: "'a buffer" and x :: 'a and xs
  assume inv: "buffer_inv b"
  show "length (buffer_contents b) < unat (b_size b) \<Longrightarrow>
      \<exists>b'. buffer_put b x = Some b' \<and> buffer_inv b' \<and> unat (b_size b') = unat (b_size b) \<and>
      buffer_contents b' = buffer_contents b @ [x]"
    using buffer_put_append [OF inv, of x] buffer_is_full_iff [OF inv] by auto
  show "buffer_contents b = x # xs \<Longrightarrow> \<exists>b'. buffer_get b = Some (b', x) \<and> buffer_inv b' \<and>
      unat (b_size b') = unat (b_size b) \<and> buffer_contents b' = xs"
    using buffer_get_hd_tl [OF inv] by (auto simp: buffer_is_empty_iff)
qed

section \<open>Properties\<close>

text \<open>
  As many elements as the buffer has room for go in without an error, and come out in the order
  they went in, whatever the position of the two indices; the buffer is empty again after that.
\<close>

theorem buffer_fifo:
  assumes "buffer_inv b" "buffer_contents b = []" "length xs \<le> unat (b_size b)"
  shows "\<exists>b1 b2. feed buffer_put b xs = Some b1 \<and> drain buffer_get (length xs) b1 = Some (b2, xs) \<and>
    buffer_inv b2 \<and> buffer_contents b2 = []"
  using rb.feed_drain [OF assms] .

theorem buffer_fifo_witness:
  "\<exists>b1 b2. feed buffer_put (buffer_init [0, 0, 0] 3) [7, 8, 9 :: int] = Some b1 \<and>
     drain buffer_get (length [7, 8, 9 :: int]) b1 = Some (b2, [7, 8, 9])"
proof -
  have "buffer_inv (buffer_init [0, 0, 0 :: int] 3)" "buffer_contents (buffer_init [0, 0, 0 :: int] 3) = []"
    by (rule buffer_init_inv; simp)+
  moreover have "length [7, 8, 9 :: int] \<le> unat (b_size (buffer_init [0, 0, 0 :: int] 3))"
    by (simp add: buffer_init_def)
  ultimately show ?thesis using buffer_fifo [of "buffer_init [0, 0, 0 :: int] 3" "[7, 8, 9]"] by blast
qed

text \<open>
  On a full buffer \<open>put_safe\<close> returns 1 and changes nothing, and \<open>put_replace\<close> overwrites the
  oldest element; on any other both append.
\<close>

theorem buffer_overflow:
  assumes "buffer_inv b"
  shows "\<exists>b' r b''. buffer_put_safe b e = Some (b', r) \<and> buffer_put_replace b e = Some b'' \<and>
    buffer_inv b' \<and> buffer_inv b'' \<and>
    (if length (buffer_contents b) = unat (b_size b)
     then r = 1 \<and> b' = b \<and> buffer_contents b'' = tl (buffer_contents b) @ [e]
     else r = 0 \<and> buffer_contents b' = buffer_contents b @ [e] \<and>
       buffer_contents b'' = buffer_contents b @ [e])"
proof -
  obtain b'' where b'': "buffer_put_replace b e = Some b''" "buffer_inv b''"
    "buffer_contents b'' = (if buffer_is_full b then tl (buffer_contents b) else buffer_contents b) @ [e]"
    using buffer_put_replace_append [OF assms] by blast
  show ?thesis
  proof (cases "buffer_is_full b")
    case True
    then show ?thesis using b'' assms buffer_put_safe_full [OF True, of e] buffer_is_full_iff [OF assms]
      by (intro exI [of _ b] exI [of _ 1] exI [of _ b'']) simp
  next
    case False
    obtain b' where "buffer_put_safe b e = Some (b', 0)" "buffer_inv b'"
      "buffer_contents b' = buffer_contents b @ [e]"
      using buffer_put_safe_append [OF assms False] by blast
    then show ?thesis using b'' False buffer_is_full_iff [OF assms]
      by (intro exI [of _ b'] exI [of _ 0] exI [of _ b'']) simp
  qed
qed

theorem buffer_overflow_witness:
  "\<exists>b' r b''. buffer_put_safe (buffer_init [0] 1) (5 :: int) = Some (b', r) \<and>
     buffer_put_replace (buffer_init [0] 1) (5 :: int) = Some b'' \<and> r = 0 \<and> buffer_contents b'' = [5]"
proof -
  have i: "buffer_inv (buffer_init [0 :: int] 1)" "buffer_contents (buffer_init [0 :: int] 1) = []"
    by (rule buffer_init_inv; simp)+
  have n: "unat (b_size (buffer_init [0 :: int] 1)) = 1" by (simp add: buffer_init_def)
  from buffer_overflow [OF i(1), of 5] show ?thesis by (simp add: i(2) n) blast
qed

end
