(* ===== verification/IO_Server.thy ===== *)
theory IO_Server
  imports Ring_Buffer Task
begin

text \<open>
  The I/O servers, \<open>usr/ioserver.c\<close>: one message is one step, its events are the bytes written to
  the UART and the replies, in order. What the UART answers (\<open>rawcanputc\<close>, \<open>rawputc\<close>,
  \<open>raw_get_error\<close>, \<open>rawcangetc\<close>, \<open>rawgetc\<close>) and what \<open>Reply\<close> returns are arguments; \<open>None\<close> is a
  failed assertion. The \<open>generic\<close> servers run in the build without FIFOs, the \<open>fifo\<close> ones on
  the terminal in the build with them.
\<close>

definition ESC_CH :: u8 where "ESC_CH = 27"
definition TERMINAL_TX_BUF_SZ :: u32 where "TERMINAL_TX_BUF_SZ = 20000"
definition TERMINAL_RX_BUF_SZ :: u32 where "TERMINAL_RX_BUF_SZ = 20000"
definition TRAIN_TX_BUF_SZ :: u32 where "TRAIN_TX_BUF_SZ = 2000"
definition TRAIN_RX_BUF_SZ :: u32 where "TRAIN_RX_BUF_SZ = 100"

section \<open>Transmitting\<close>

datatype tx_message = TX_NOTIFIER | TX_PUTC u8 | TX_PRINTF "u8 list" | TX_OTHER

datatype tx_event = WIRE u8 | REPLY_SENDER | REPLY_NOTIFIER

record tx_server =
  tx_buf :: "u8 buffer"
  tx_can_put :: bool

text \<open>The answers of the UART and of \<open>Reply\<close> during one step.\<close>

record tx_env =
  te_error_before :: bool
  te_rawcanputc :: bool
  te_rawputc :: int
  te_error_after :: bool
  te_reply_sender :: int
  te_reply_notifier :: int

definition tx_server_init :: "u8 list \<Rightarrow> u32 \<Rightarrow> tx_server" where
  "tx_server_init buf sz = \<lparr>tx_buf = buffer_init buf sz, tx_can_put = False\<rparr>"

text \<open>The next byte goes out and the notifier waits for the next interrupt.\<close>

definition tx_put_byte :: "tx_env \<Rightarrow> tx_server \<Rightarrow> (tx_server \<times> tx_event list) option" where
  "tx_put_byte env s = do {
     guard_opt (te_rawcanputc env);
     guard_opt (\<not> buffer_is_empty (tx_buf s));
     (b, c) \<leftarrow> buffer_get (tx_buf s);
     guard_opt (te_rawputc env = 0);
     guard_opt (\<not> te_error_after env);
     guard_opt (te_reply_notifier env \<ge> 0);
     Some (\<lparr>tx_buf = b, tx_can_put = False\<rparr>, [WIRE c, REPLY_NOTIFIER])
   }"

text \<open>A byte more in the buffer, which must not be full.\<close>

definition tx_enqueue :: "u8 buffer \<Rightarrow> u8 \<Rightarrow> u8 buffer option" where
  "tx_enqueue b c = do { guard_opt (\<not> buffer_is_full b); buffer_put b c }"

fun generic_tx_step :: "tx_env \<Rightarrow> tx_server \<Rightarrow> tx_message \<Rightarrow> (tx_server \<times> tx_event list) option" where
  "generic_tx_step env s TX_NOTIFIER = do {
     guard_opt (\<not> te_error_before env);
     if \<not> buffer_is_empty (tx_buf s) then tx_put_byte env s
     else Some (s\<lparr>tx_can_put := True\<rparr>, [])
   }"
| "generic_tx_step env s (TX_PUTC c) = do {
     guard_opt (\<not> te_error_before env);
     guard_opt (te_reply_sender env \<ge> 0);
     b \<leftarrow> tx_enqueue (tx_buf s) c;
     let s1 = s\<lparr>tx_buf := b\<rparr>;
     if tx_can_put s1 then do { (s2, ev) \<leftarrow> tx_put_byte env s1; Some (s2, REPLY_SENDER # ev) }
     else Some (s1, [REPLY_SENDER])
   }"
| "generic_tx_step env s (TX_PRINTF cs) = do {
     guard_opt (\<not> te_error_before env);
     b \<leftarrow> feed tx_enqueue (tx_buf s) cs;
     let s1 = s\<lparr>tx_buf := b\<rparr>;
     guard_opt (te_reply_sender env \<ge> 0);
     if cs \<noteq> [] \<and> tx_can_put s1 then do { (s2, ev) \<leftarrow> tx_put_byte env s1; Some (s2, REPLY_SENDER # ev) }
     else Some (s1, [REPLY_SENDER])
   }"
| "generic_tx_step env s TX_OTHER = None"

text \<open>
  With FIFOs a burst of bytes goes out: as long as the UART takes one, up to the next escape
  character. \<open>cans\<close> are the answers of \<open>rawcanputc\<close>, \<open>puts\<close> those of \<open>rawputc\<close>, from the \<open>n\<close>th on.
\<close>

lemma buffer_get_elems: "buffer_get b = Some (b', c) \<Longrightarrow> b_elems b' = b_elems b - 1"
  by (auto simp: buffer_get_def buffer_remove_def split: bind_splits)

function tx_burst :: "(nat \<Rightarrow> bool) \<Rightarrow> (nat \<Rightarrow> int) \<Rightarrow> nat \<Rightarrow> u8 buffer \<Rightarrow> (u8 buffer \<times> u8 list) option" where
  "tx_burst cans puts n b =
     (if buffer_is_empty b then Some (b, [])
      else case buffer_get b of
        None \<Rightarrow> None
      | Some (b1, c) \<Rightarrow> do {
          guard_opt (puts n = 0);
          if \<not> cans n then Some (b1, [c])
          else do {
            p \<leftarrow> buffer_peek b1;
            if p = ESC_CH then Some (b1, [c])
            else do { (b2, cs) \<leftarrow> tx_burst cans puts (n + 1) b1; Some (b2, c # cs) }
          }
        })"
  by pat_completeness auto
termination
  by (relation "measure (\<lambda>(_, _, _, b). unat (b_elems b))")
     (auto simp: buffer_is_empty_def unat_gt_0 unat_pred_pos dest!: buffer_get_elems)

declare tx_burst.simps [simp del]

definition tx_put_burst ::
  "(nat \<Rightarrow> bool) \<Rightarrow> (nat \<Rightarrow> int) \<Rightarrow> int \<Rightarrow> tx_server \<Rightarrow> (tx_server \<times> tx_event list) option" where
  "tx_put_burst cans puts notified s = do {
     (b, cs) \<leftarrow> tx_burst cans puts 0 (tx_buf s);
     guard_opt (notified \<ge> 0);
     Some (\<lparr>tx_buf = b, tx_can_put = False\<rparr>, map WIRE cs @ [REPLY_NOTIFIER])
   }"

fun fifo_tx_step ::
  "tx_env \<Rightarrow> (nat \<Rightarrow> bool) \<Rightarrow> (nat \<Rightarrow> int) \<Rightarrow> tx_server \<Rightarrow> tx_message \<Rightarrow> (tx_server \<times> tx_event list) option" where
  "fifo_tx_step env cans puts s TX_NOTIFIER =
     (if \<not> buffer_is_empty (tx_buf s) then tx_put_burst cans puts (te_reply_notifier env) s
      else Some (s\<lparr>tx_can_put := True\<rparr>, []))"
| "fifo_tx_step env cans puts s (TX_PUTC c) = do {
     guard_opt (te_reply_sender env \<ge> 0);
     b \<leftarrow> tx_enqueue (tx_buf s) c;
     let s1 = s\<lparr>tx_buf := b\<rparr>;
     if tx_can_put s1 then do {
       guard_opt (te_rawcanputc env);
       (s2, ev) \<leftarrow> tx_put_burst cans puts (te_reply_notifier env) s1;
       Some (s2, REPLY_SENDER # ev)
     }
     else Some (s1, [REPLY_SENDER])
   }"
| "fifo_tx_step env cans puts s (TX_PRINTF cs) = do {
     b \<leftarrow> feed tx_enqueue (tx_buf s) cs;
     let s1 = s\<lparr>tx_buf := b\<rparr>;
     guard_opt (te_reply_sender env \<ge> 0);
     if cs \<noteq> [] \<and> tx_can_put s1 then do {
       guard_opt (te_rawcanputc env);
       (s2, ev) \<leftarrow> tx_put_burst cans puts (te_reply_notifier env) s1;
       Some (s2, REPLY_SENDER # ev)
     }
     else Some (s1, [REPLY_SENDER])
   }"
| "fifo_tx_step env cans puts s TX_OTHER = None"

section \<open>Receiving\<close>

datatype rx_message = RX_NOTIFIER | RX_GETC int | RX_OTHER

datatype rx_event = RX_REPLY_NOTIFIER | REPLY_GETC int u8

record rx_server =
  rx_buf :: "u8 buffer"
  rx_wait :: "int buffer"

definition rx_server_init :: "u8 list \<Rightarrow> u32 \<Rightarrow> int list \<Rightarrow> rx_server" where
  "rx_server_init buf sz wait =
     \<lparr>rx_buf = buffer_init buf sz, rx_wait = buffer_init wait (of_nat MAX_TASKS)\<rparr>"

text \<open>The first character in the buffer goes to the task that has waited longest.\<close>

definition rx_serve :: "int \<Rightarrow> rx_server \<Rightarrow> (rx_server \<times> rx_event) option" where
  "rx_serve replied s = do {
     (b, c) \<leftarrow> buffer_get (rx_buf s);
     (w, tid) \<leftarrow> buffer_get (rx_wait s);
     guard_opt (replied \<ge> 0);
     Some (\<lparr>rx_buf = b, rx_wait = w\<rparr>, REPLY_GETC tid c)
   }"

definition rx_getc :: "int \<Rightarrow> rx_server \<Rightarrow> int \<Rightarrow> (rx_server \<times> rx_event list) option" where
  "rx_getc replied s sender_tid =
     (if \<not> buffer_is_empty (rx_buf s) then do {
        (b, c) \<leftarrow> buffer_get (rx_buf s);
        guard_opt (replied \<ge> 0);
        Some (s\<lparr>rx_buf := b\<rparr>, [REPLY_GETC sender_tid c])
      }
      else do { w \<leftarrow> buffer_put (rx_wait s) sender_tid; Some (s\<lparr>rx_wait := w\<rparr>, []) })"

text \<open>
  \<open>can\<close> and \<open>c\<close> are the answers of \<open>rawcangetc\<close> and the character \<open>rawgetc\<close> delivers; an error flag
  of the UART is only logged.
\<close>

fun generic_rx_step :: "bool \<Rightarrow> u8 \<Rightarrow> int \<Rightarrow> int \<Rightarrow> rx_server \<Rightarrow> rx_message \<Rightarrow> (rx_server \<times> rx_event list) option" where
  "generic_rx_step can c notified replied s RX_NOTIFIER = do {
     guard_opt can;
     b \<leftarrow> tx_enqueue (rx_buf s) c;
     guard_opt (notified \<ge> 0);
     let s1 = s\<lparr>rx_buf := b\<rparr>;
     if \<not> buffer_is_empty (rx_wait s1) then do {
       (s2, e) \<leftarrow> rx_serve replied s1;
       Some (s2, [RX_REPLY_NOTIFIER, e])
     }
     else Some (s1, [RX_REPLY_NOTIFIER])
   }"
| "generic_rx_step can c notified replied s (RX_GETC sender_tid) = rx_getc replied s sender_tid"
| "generic_rx_step can c notified replied s RX_OTHER = None"

text \<open>With FIFOs all characters the UART has, \<open>cs\<close>, are read, and all waiting tasks served.\<close>

function rx_serve_all :: "int \<Rightarrow> rx_server \<Rightarrow> (rx_server \<times> rx_event list) option" where
  "rx_serve_all replied s =
     (if buffer_is_empty (rx_wait s) then Some (s, [])
      else case rx_serve replied s of
        None \<Rightarrow> None
      | Some (s1, e) \<Rightarrow> do { (s2, es) \<leftarrow> rx_serve_all replied s1; Some (s2, e # es) })"
  by pat_completeness auto
termination
  by (relation "measure (\<lambda>(_, s). unat (b_elems (rx_wait s)))")
     (auto simp: buffer_is_empty_def unat_gt_0 unat_pred_pos rx_serve_def
       dest!: buffer_get_elems split: bind_splits)

declare rx_serve_all.simps [simp del]

fun fifo_rx_step :: "u8 list \<Rightarrow> int \<Rightarrow> int \<Rightarrow> rx_server \<Rightarrow> rx_message \<Rightarrow> (rx_server \<times> rx_event list) option" where
  "fifo_rx_step cs notified replied s RX_NOTIFIER = do {
     b \<leftarrow> feed tx_enqueue (rx_buf s) cs;
     guard_opt (notified \<ge> 0);
     (s2, es) \<leftarrow> rx_serve_all replied (s\<lparr>rx_buf := b\<rparr>);
     Some (s2, RX_REPLY_NOTIFIER # es)
   }"
| "fifo_rx_step cs notified replied s (RX_GETC sender_tid) = rx_getc replied s sender_tid"
| "fifo_rx_step cs notified replied s RX_OTHER = None"

section \<open>The transmit server and its notifier\<close>

text \<open>
  The server together with its notifier, which sends \<open>NOTIFIER\<close> only when it is not waiting for a
  reply: the bytes taken in so far, and the bytes on the wire.
\<close>

definition tx_bytes :: "tx_message \<Rightarrow> u8 list" where
  "tx_bytes m = (case m of TX_PUTC c \<Rightarrow> [c] | TX_PRINTF cs \<Rightarrow> cs | _ \<Rightarrow> [])"

definition tx_wire :: "tx_event list \<Rightarrow> u8 list" where
  "tx_wire ev = concat (map (\<lambda>e. case e of WIRE c \<Rightarrow> [c] | _ \<Rightarrow> []) ev)"

inductive tx_run :: "u32 \<Rightarrow> tx_server \<Rightarrow> bool \<Rightarrow> u8 list \<Rightarrow> u8 list \<Rightarrow> bool" for sz where
  tx_start: "length buf = unat sz \<Longrightarrow> 0 < unat sz \<Longrightarrow> tx_run sz (tx_server_init buf sz) False [] []"
| tx_next: "tx_run sz s waiting taken wire \<Longrightarrow> (m = TX_NOTIFIER \<longrightarrow> \<not> waiting) \<Longrightarrow>
    generic_tx_step env s m = Some (s', ev) \<Longrightarrow>
    tx_run sz s' (if REPLY_NOTIFIER \<in> set ev then False else waiting \<or> m = TX_NOTIFIER)
      (taken @ tx_bytes m) (wire @ tx_wire ev)"

definition tx_ok :: "u32 \<Rightarrow> tx_server \<Rightarrow> bool" where
  "tx_ok sz s \<longleftrightarrow> buffer_inv (tx_buf s) \<and> b_size (tx_buf s) = sz"

abbreviation tx_queue :: "tx_server \<Rightarrow> u8 list" where
  "tx_queue s \<equiv> buffer_contents (tx_buf s)"

text \<open>The operations on the queue, forwards: what a step that succeeds has done.\<close>

lemma tx_put_byte_effect:
  assumes "tx_put_byte env s = Some (s', ev)" and "tx_ok sz s"
  shows "tx_ok sz s' \<and> \<not> tx_can_put s' \<and>
    (\<exists>c. ev = [WIRE c, REPLY_NOTIFIER] \<and> tx_queue s = c # tx_queue s')"
proof -
  have ne: "\<not> buffer_is_empty (tx_buf s)" using assms(1) by (auto simp: tx_put_byte_def split: bind_splits)
  obtain b' where "buffer_get (tx_buf s) = Some (b', hd (tx_queue s))" "buffer_inv b'"
    "b_size b' = b_size (tx_buf s)" "buffer_contents b' = tl (tx_queue s)"
    using buffer_get_hd_tl [OF _ ne] assms(2) by (auto simp: tx_ok_def)
  then show ?thesis using assms ne
    by (auto simp: tx_put_byte_def tx_ok_def buffer_is_empty_iff split: bind_splits)
qed

lemma tx_put_byte_succeeds:
  assumes "tx_ok sz s" "tx_queue s \<noteq> []" "te_rawcanputc env" "te_rawputc env = 0"
    "\<not> te_error_after env" "te_reply_notifier env \<ge> 0"
  shows "\<exists>s'. tx_put_byte env s = Some (s', [WIRE (hd (tx_queue s)), REPLY_NOTIFIER])"
  using buffer_get_hd_tl [of "tx_buf s"] assms
  by (auto simp: tx_put_byte_def tx_ok_def buffer_is_empty_iff)

lemma tx_enqueue_effect:
  assumes "tx_enqueue b c = Some b'" and "buffer_inv b"
  shows "buffer_inv b' \<and> b_size b' = b_size b \<and> buffer_contents b' = buffer_contents b @ [c]"
  using assms buffer_put_append [OF assms(2), of c] by (auto simp: tx_enqueue_def split: bind_splits)

lemma feed_tx_enqueue_effect:
  assumes "feed tx_enqueue b cs = Some b'" and "buffer_inv b"
  shows "buffer_inv b' \<and> b_size b' = b_size b \<and> buffer_contents b' = buffer_contents b @ cs"
  using assms
proof (induction cs arbitrary: b)
  case (Cons c cs)
  then obtain b1 where b1: "tx_enqueue b c = Some b1" "feed tx_enqueue b1 cs = Some b'"
    by (auto split: bind_splits)
  then show ?case using Cons.IH [OF b1(2)] tx_enqueue_effect [OF b1(1) Cons.prems(2)] by simp
qed simp

interpretation txq: bounded_fifo tx_enqueue buffer_get buffer_contents "\<lambda>b. unat (b_size b)" buffer_inv
proof
  fix b :: "u8 buffer" and x xs assume inv: "buffer_inv b"
  show "length (buffer_contents b) < unat (b_size b) \<Longrightarrow>
      \<exists>b'. tx_enqueue b x = Some b' \<and> buffer_inv b' \<and> unat (b_size b') = unat (b_size b) \<and>
      buffer_contents b' = buffer_contents b @ [x]"
    using buffer_put_append [OF inv, of x] buffer_is_full_iff [OF inv] by (auto simp: tx_enqueue_def)
  show "buffer_contents b = x # xs \<Longrightarrow> \<exists>b'. buffer_get b = Some (b', x) \<and> buffer_inv b' \<and>
      unat (b_size b') = unat (b_size b) \<and> buffer_contents b' = xs"
    by (rule rb.get_spec [OF inv])
qed

text \<open>One step of the server, in terms of the queue.\<close>

lemma tx_step_effect:
  assumes step: "generic_tx_step env s m = Some (s', ev)" and ok: "tx_ok sz s"
    and idle: "tx_can_put s \<Longrightarrow> tx_queue s = []"
  shows "tx_ok sz s'" and "tx_queue s @ tx_bytes m = tx_wire ev @ tx_queue s'"
    and "tx_can_put s' \<Longrightarrow> tx_queue s' = []"
    and "REPLY_NOTIFIER \<in> set ev \<Longrightarrow> \<not> tx_can_put s' \<and> (tx_can_put s \<or> m = TX_NOTIFIER)"
    and "REPLY_NOTIFIER \<notin> set ev \<Longrightarrow> tx_can_put s' \<longleftrightarrow> tx_can_put s \<or> m = TX_NOTIFIER"
proof -
  have *: "tx_ok sz s' \<and> tx_queue s @ tx_bytes m = tx_wire ev @ tx_queue s' \<and>
    (tx_can_put s' \<longrightarrow> tx_queue s' = []) \<and>
    (if REPLY_NOTIFIER \<in> set ev then \<not> tx_can_put s' \<and> (tx_can_put s \<or> m = TX_NOTIFIER)
     else tx_can_put s' \<longleftrightarrow> tx_can_put s \<or> m = TX_NOTIFIER)"
  proof (cases m)
    case TX_NOTIFIER
    show ?thesis
    proof (cases "buffer_is_empty (tx_buf s)")
      case True
      then show ?thesis using step ok TX_NOTIFIER
        by (auto simp: tx_bytes_def tx_wire_def tx_ok_def buffer_is_empty_iff split: bind_splits)
    next
      case False
      then have "tx_put_byte env s = Some (s', ev)" using step TX_NOTIFIER by (auto split: bind_splits)
      from tx_put_byte_effect [OF this ok] show ?thesis using TX_NOTIFIER
        by (auto simp: tx_bytes_def tx_wire_def)
    qed
  next
    case (TX_PUTC c)
    then obtain b where b: "tx_enqueue (tx_buf s) c = Some b" using step by (auto split: bind_splits)
    have q: "tx_ok sz (s\<lparr>tx_buf := b\<rparr>)" "buffer_contents b = tx_queue s @ [c]"
      using tx_enqueue_effect [OF b] ok by (simp_all add: tx_ok_def)
    show ?thesis using step b q idle TX_PUTC tx_put_byte_effect [of env "s\<lparr>tx_buf := b\<rparr>", OF _ q(1)]
      by (auto simp: tx_bytes_def tx_wire_def Let_def split: bind_splits if_splits) 
  next
    case (TX_PRINTF cs)
    then obtain b where b: "feed tx_enqueue (tx_buf s) cs = Some b" using step by (auto split: bind_splits)
    have q: "tx_ok sz (s\<lparr>tx_buf := b\<rparr>)" "buffer_contents b = tx_queue s @ cs"
      using feed_tx_enqueue_effect [OF b] ok by (simp_all add: tx_ok_def)
    show ?thesis using step b q idle TX_PRINTF tx_put_byte_effect [of env "s\<lparr>tx_buf := b\<rparr>", OF _ q(1)]
      by (auto simp: tx_bytes_def tx_wire_def Let_def split: bind_splits if_splits)
  next
    case TX_OTHER
    then show ?thesis using step by simp
  qed
  then show "tx_ok sz s'" "tx_queue s @ tx_bytes m = tx_wire ev @ tx_queue s'"
    "tx_can_put s' \<Longrightarrow> tx_queue s' = []"
    "REPLY_NOTIFIER \<in> set ev \<Longrightarrow> \<not> tx_can_put s' \<and> (tx_can_put s \<or> m = TX_NOTIFIER)"
    "REPLY_NOTIFIER \<notin> set ev \<Longrightarrow> tx_can_put s' \<longleftrightarrow> tx_can_put s \<or> m = TX_NOTIFIER"
    by (auto split: if_splits)
qed

lemma tx_run_inv:
  "tx_run sz s waiting taken wire \<Longrightarrow>
   tx_ok sz s \<and> wire @ tx_queue s = taken \<and> tx_can_put s = waiting \<and> (waiting \<longrightarrow> tx_queue s = [])"
proof (induction rule: tx_run.induct)
  case (tx_start buf)
  then show ?case
    using buffer_init_inv [of buf sz] by (simp add: tx_server_init_def tx_ok_def) (simp add: buffer_init_def)
next
  case (tx_next s waiting taken wire m env s' ev)
  note e = tx_step_effect [OF tx_next.hyps(3), of sz]
  show ?case using e tx_next.IH by (auto simp flip: append_assoc) (simp_all add: append_assoc)
qed

text \<open>A UART that is ready and a kernel that delivers the replies.\<close>

definition tx_env_ok :: "tx_env \<Rightarrow> bool" where
  "tx_env_ok env \<longleftrightarrow> \<not> te_error_before env \<and> te_rawcanputc env \<and> te_rawputc env = 0 \<and>
     \<not> te_error_after env \<and> te_reply_sender env \<ge> 0 \<and> te_reply_notifier env \<ge> 0"

lemma feed_tx_enqueue_succeeds:
  assumes "tx_ok sz s" "length (tx_queue s) + length cs \<le> unat sz"
  obtains b where "feed tx_enqueue (tx_buf s) cs = Some b" "tx_ok sz (s\<lparr>tx_buf := b\<rparr>)"
    "buffer_contents b = tx_queue s @ cs"
proof -
  obtain b where b: "feed tx_enqueue (tx_buf s) cs = Some b"
    using txq.feed_all [of "tx_buf s" cs] assms by (auto simp: tx_ok_def)
  then show ?thesis using that feed_tx_enqueue_effect [OF b] assms(1) by (auto simp: tx_ok_def)
qed

lemma tx_step_succeeds:
  assumes ok: "tx_ok sz s" and env: "tx_env_ok env" and m: "m \<noteq> TX_OTHER"
    and room: "length (tx_queue s) + length (tx_bytes m) \<le> unat sz"
  shows "\<exists>s' ev. generic_tx_step env s m = Some (s', ev) \<and>
    (tx_queue s @ tx_bytes m \<noteq> [] \<and> (m = TX_NOTIFIER \<or> tx_can_put s \<and> tx_bytes m \<noteq> []) \<longrightarrow>
       tx_wire ev = [hd (tx_queue s @ tx_bytes m)] \<and> REPLY_NOTIFIER \<in> set ev)"
proof (cases m)
  case TX_NOTIFIER
  then show ?thesis using env tx_put_byte_succeeds [OF ok, of env]
    by (cases "tx_queue s = []") (auto simp: tx_env_ok_def buffer_is_empty_iff tx_bytes_def tx_wire_def)
next
  case (TX_PUTC c)
  then obtain b where b: "tx_enqueue (tx_buf s) c = Some b" and q: "tx_ok sz (s\<lparr>tx_buf := b\<rparr>)"
    "buffer_contents b = tx_queue s @ [c]"
    using feed_tx_enqueue_succeeds [OF ok, of "[c]"] room by (auto simp: tx_bytes_def split: bind_splits)
  show ?thesis using TX_PUTC env b q tx_put_byte_succeeds [OF q(1), of env]
    by (cases "tx_can_put s") (auto simp: tx_env_ok_def tx_bytes_def tx_wire_def Let_def)
next
  case (TX_PRINTF cs)
  then obtain b where b: "feed tx_enqueue (tx_buf s) cs = Some b" and q: "tx_ok sz (s\<lparr>tx_buf := b\<rparr>)"
    "buffer_contents b = tx_queue s @ cs"
    using feed_tx_enqueue_succeeds [OF ok, of cs] room by (auto simp: tx_bytes_def)
  show ?thesis using TX_PRINTF env b q tx_put_byte_succeeds [OF q(1), of env]
    by (cases "tx_can_put s \<and> cs \<noteq> []") (auto simp: tx_env_ok_def tx_bytes_def tx_wire_def Let_def)
next
  case TX_OTHER
  then show ?thesis using m by simp
qed

section \<open>The receive server and its clients\<close>

text \<open>
  The server together with the tasks that use it, \<open>live\<close>: a task waits for the answer to its
  \<open>GETC\<close>. The characters read so far, and the requests and the answers so far.
\<close>

definition rx_bytes :: "u8 \<Rightarrow> rx_message \<Rightarrow> u8 list" where
  "rx_bytes c m = (case m of RX_NOTIFIER \<Rightarrow> [c] | _ \<Rightarrow> [])"

definition rx_requests :: "rx_message \<Rightarrow> int list" where
  "rx_requests m = (case m of RX_GETC tid \<Rightarrow> [tid] | _ \<Rightarrow> [])"

definition rx_answers :: "rx_event list \<Rightarrow> (int \<times> u8) list" where
  "rx_answers ev = concat (map (\<lambda>e. case e of REPLY_GETC tid c \<Rightarrow> [(tid, c)] | _ \<Rightarrow> []) ev)"

abbreviation rx_queue :: "rx_server \<Rightarrow> u8 list" where
  "rx_queue s \<equiv> buffer_contents (rx_buf s)"

abbreviation rx_waiting :: "rx_server \<Rightarrow> int list" where
  "rx_waiting s \<equiv> buffer_contents (rx_wait s)"

inductive rx_run :: "int set \<Rightarrow> rx_server \<Rightarrow> u8 list \<Rightarrow> int list \<Rightarrow> (int \<times> u8) list \<Rightarrow> bool" for live where
  rx_start: "length buf = unat sz \<Longrightarrow> 0 < unat sz \<Longrightarrow> length wait = MAX_TASKS \<Longrightarrow>
    rx_run live (rx_server_init buf sz wait) [] [] []"
| rx_next: "rx_run live s taken requests answers \<Longrightarrow>
    (\<forall>tid. m = RX_GETC tid \<longrightarrow> tid \<in> live \<and> tid \<notin> set (rx_waiting s)) \<Longrightarrow>
    generic_rx_step can c notified replied s m = Some (s', ev) \<Longrightarrow>
    rx_run live s' (taken @ rx_bytes c m) (requests @ rx_requests m) (answers @ rx_answers ev)"

definition rx_ok :: "int set \<Rightarrow> rx_server \<Rightarrow> bool" where
  "rx_ok live s \<longleftrightarrow> buffer_inv (rx_buf s) \<and> buffer_inv (rx_wait s) \<and> b_size (rx_wait s) = of_nat MAX_TASKS \<and>
     distinct (rx_waiting s) \<and> set (rx_waiting s) \<subseteq> live \<and> (rx_queue s = [] \<or> rx_waiting s = [])"

lemma waiting_not_full:
  assumes "rx_ok live s" "finite live" "card live \<le> MAX_TASKS" "tid \<in> live" "tid \<notin> set (rx_waiting s)"
  shows "\<not> buffer_is_full (rx_wait s)"
proof -
  have "card (insert tid (set (rx_waiting s))) \<le> card live"
    using assms by (intro card_mono) (auto simp: rx_ok_def)
  then have "length (rx_waiting s) < MAX_TASKS"
    using assms by (simp add: rx_ok_def distinct_card)
  then show ?thesis using assms(1) by (simp add: buffer_is_full_iff rx_ok_def MAX_TASKS_def)
qed

lemma rx_step_effect:
  assumes step: "generic_rx_step can c notified replied s m = Some (s', ev)" and ok: "rx_ok live s"
    and live: "finite live" "card live \<le> MAX_TASKS"
    and tid: "\<And>tid. m = RX_GETC tid \<Longrightarrow> tid \<in> live \<and> tid \<notin> set (rx_waiting s)"
  shows "rx_ok live s' \<and> rx_queue s @ rx_bytes c m = map snd (rx_answers ev) @ rx_queue s' \<and>
    rx_waiting s @ rx_requests m = map fst (rx_answers ev) @ rx_waiting s'"
proof (cases m)
  case RX_NOTIFIER
  then obtain b where b: "tx_enqueue (rx_buf s) c = Some b" using step by (auto split: bind_splits)
  have q: "buffer_inv b" "buffer_contents b = rx_queue s @ [c]"
    using tx_enqueue_effect [OF b] ok by (simp_all add: rx_ok_def)
  show ?thesis
  proof (cases "rx_waiting s")
    case Nil
    then have "s' = s\<lparr>rx_buf := b\<rparr>" "ev = [RX_REPLY_NOTIFIER]"
      using step RX_NOTIFIER b by (auto simp: buffer_is_empty_iff split: bind_splits)
    then show ?thesis using ok q Nil RX_NOTIFIER
      by (simp add: rx_ok_def rx_bytes_def rx_requests_def rx_answers_def)
  next
    case (Cons t ts)
    then have e: "rx_queue s = []" using ok by (simp add: rx_ok_def)
    obtain b' where b': "buffer_get b = Some (b', c)" "buffer_inv b'" "buffer_contents b' = []"
      using rb.get_spec [OF q(1), of c "[]"] q(2) e by auto
    obtain w where w: "buffer_get (rx_wait s) = Some (w, t)" "buffer_inv w"
      "b_size w = b_size (rx_wait s)" "buffer_contents w = ts"
      using buffer_get_hd_tl [of "rx_wait s"] ok Cons by (auto simp: rx_ok_def buffer_is_empty_iff)
    have "s' = \<lparr>rx_buf = b', rx_wait = w\<rparr>" "ev = [RX_REPLY_NOTIFIER, REPLY_GETC t c]"
      using step RX_NOTIFIER b b'(1) w(1) Cons
      by (auto simp: rx_serve_def buffer_is_empty_iff Let_def split: bind_splits)
    then show ?thesis using ok b' w Cons RX_NOTIFIER e
      by (simp add: rx_ok_def rx_bytes_def rx_requests_def rx_answers_def)
  qed
next
  case (RX_GETC t)
  note t = tid [OF RX_GETC]
  show ?thesis
  proof (cases "rx_queue s")
    case Nil
    then obtain w where w: "buffer_put (rx_wait s) t = Some w" "buffer_inv w"
      "b_size w = b_size (rx_wait s)" "buffer_contents w = rx_waiting s @ [t]"
      using buffer_put_append [OF _ waiting_not_full [OF ok live], of t t] t ok by (auto simp: rx_ok_def)
    then have "s' = s\<lparr>rx_wait := w\<rparr>" "ev = []"
      using step RX_GETC Nil by (auto simp: rx_getc_def buffer_is_empty_iff)
    then show ?thesis using ok w Nil RX_GETC t
      by (simp add: rx_ok_def rx_bytes_def rx_requests_def rx_answers_def)
  next
    case (Cons x xs)
    then have e: "rx_waiting s = []" using ok by (simp add: rx_ok_def)
    obtain b' where b': "buffer_get (rx_buf s) = Some (b', x)" "buffer_inv b'" "buffer_contents b' = xs"
      using rb.get_spec [of "rx_buf s" x xs] ok Cons by (auto simp: rx_ok_def)
    then have "s' = s\<lparr>rx_buf := b'\<rparr>" "ev = [REPLY_GETC t x]"
      using step RX_GETC Cons by (auto simp: rx_getc_def buffer_is_empty_iff split: bind_splits)
    then show ?thesis using ok b' Cons RX_GETC e
      by (simp add: rx_ok_def rx_bytes_def rx_requests_def rx_answers_def)
  qed
next
  case RX_OTHER
  then show ?thesis using step by simp
qed

lemma rx_notifier_succeeds:
  assumes ok: "rx_ok live s" and room: "length (rx_queue s) < unat (b_size (rx_buf s))"
    and "notified \<ge> 0" "replied \<ge> 0"
  shows "\<exists>s' ev. generic_rx_step True c notified replied s RX_NOTIFIER = Some (s', ev)"
proof -
  obtain b where b: "tx_enqueue (rx_buf s) c = Some b" "buffer_inv b" "buffer_contents b = rx_queue s @ [c]"
    using txq.put_spec [OF _ room, of c] ok by (auto simp: rx_ok_def)
  have "rx_waiting s = [] \<or> (\<exists>s' e. rx_serve replied (s\<lparr>rx_buf := b\<rparr>) = Some (s', e))"
    using buffer_get_hd_tl [of b] buffer_get_hd_tl [of "rx_wait s"] ok b assms(4)
    by (cases "rx_waiting s = []") (auto simp: rx_serve_def rx_ok_def buffer_is_empty_iff)
  then show ?thesis using b assms(3) by (auto simp: Let_def buffer_is_empty_iff)
qed

lemma rx_run_inv:
  assumes "rx_run live s taken requests answers" "finite live" "card live \<le> MAX_TASKS"
  shows "rx_ok live s \<and> map snd answers @ rx_queue s = taken \<and> map fst answers @ rx_waiting s = requests"
  using assms
proof (induction rule: rx_run.induct)
  case (rx_start buf sz wait)
  have "unat (of_nat MAX_TASKS :: u32) = MAX_TASKS" by (simp add: MAX_TASKS_def)
  then show ?case using rx_start buffer_init_inv [of buf sz] buffer_init_inv [of wait "of_nat MAX_TASKS"]
    by (simp add: rx_server_init_def rx_ok_def MAX_TASKS_def) (simp add: buffer_init_def)
next
  case (rx_next s taken requests answers m can c notified replied s' ev)
  from rx_step_effect [OF rx_next.hyps(3), of live] rx_next.IH rx_next.prems rx_next.hyps(2)
  show ?case by (auto simp flip: append_assoc) (simp_all add: append_assoc)
qed

text \<open>
  A defect of \<open>fifo_rx_server\<close>: it serves all waiting tasks after an interrupt, with characters or
  without. With two tasks waiting and one character read, the second gets a byte that is not input,
  and the count of elements wraps, so that the buffer is full from then on.
\<close>

lemma fifo_rx_serves_without_input:
  fixes s
  defines "s \<equiv> \<lparr>rx_buf = buffer_init [0, 0] 2, rx_wait =
    \<lparr>b_data = [5, 6], b_size = 2, b_elems = 2, b_in = 0, b_out = 0\<rparr>\<rparr>"
  shows "map_option (\<lambda>(s', ev). (ev, b_elems (rx_buf s'), buffer_is_full (rx_buf s')))
      (fifo_rx_step [65] 0 0 s RX_NOTIFIER) =
    Some ([RX_REPLY_NOTIFIER, REPLY_GETC 5 65, REPLY_GETC 6 0], 0xFFFFFFFF, True)"
  unfolding s_def by code_simp

section \<open>Properties\<close>

text \<open>
  C8: the transmit server loses, doubles and reorders nothing: what is on the wire, followed by what
  is in its buffer, is what \<open>Putc\<close> and \<open>Printf\<close> gave it. It knows when the UART is ready, which is when
  the notifier waits for its reply, and then its buffer is empty: no byte waits for a UART that is idle.
\<close>

theorem tx_server_in_order:
  assumes "tx_run sz s waiting taken wire"
  shows "taken = wire @ buffer_contents (tx_buf s) \<and> tx_can_put s = waiting \<and>
    (waiting \<longrightarrow> buffer_contents (tx_buf s) = [])"
  using tx_run_inv [OF assms] by blast

text \<open>
  In every reachable state, with a UART that is ready and room in the buffer, the transmit server
  handles any of its messages, and an interrupt, or a byte that arrives when the UART is ready, sends
  the oldest byte out and answers the notifier.
\<close>

theorem tx_server_progress:
  assumes "tx_run sz s waiting taken wire" "tx_env_ok env" "m \<noteq> TX_OTHER"
    and "length (buffer_contents (tx_buf s)) + length (tx_bytes m) \<le> unat sz"
  shows "\<exists>s' ev. generic_tx_step env s m = Some (s', ev) \<and>
    (buffer_contents (tx_buf s) @ tx_bytes m \<noteq> [] \<and> (m = TX_NOTIFIER \<or> waiting) \<longrightarrow>
       tx_wire ev = [hd (buffer_contents (tx_buf s) @ tx_bytes m)] \<and> REPLY_NOTIFIER \<in> set ev)"
proof -
  note i = tx_run_inv [OF assms(1)]
  then have "tx_ok sz s" by simp
  from tx_step_succeeds [OF this assms(2-4)] i show ?thesis
    by (cases "tx_bytes m = []") auto
qed

text \<open>
  C23: the receive server hands the characters out in the order they arrived, each once, and to the
  tasks in the order they asked: the answers are a prefix of both. No task waits while a character is
  there.
\<close>

theorem rx_server_in_order:
  assumes "rx_run live s taken requests answers" "finite live" "card live \<le> MAX_TASKS"
  shows "taken = map snd answers @ buffer_contents (rx_buf s) \<and>
    requests = map fst answers @ buffer_contents (rx_wait s) \<and>
    (buffer_contents (rx_buf s) = [] \<or> buffer_contents (rx_wait s) = [])"
  using rx_run_inv [OF assms] by (auto simp: rx_ok_def)

text \<open>A server with room for two bytes: the notifier reports, two bytes arrive, the notifier reports.\<close>

definition ready_uart :: tx_env where
  "ready_uart = \<lparr>te_error_before = False, te_rawcanputc = True, te_rawputc = 0, te_error_after = False,
     te_reply_sender = 0, te_reply_notifier = 0\<rparr>"

definition sample_tx :: tx_server where
  "sample_tx = \<lparr>tx_buf = \<lparr>b_data = [7, 8], b_size = 2, b_elems = 1, b_in = 0, b_out = 1\<rparr>, tx_can_put = False\<rparr>"

lemma sample_tx_run: "tx_run 2 sample_tx False [7, 8] [7]"
proof -
  let ?s0 = "tx_server_init [0, 0] 2"
  have "tx_run 2 ?s0 False [] []" by (rule tx_start) simp_all
  from tx_next [OF this, of TX_NOTIFIER ready_uart "?s0\<lparr>tx_can_put := True\<rparr>" "[]"]
  have "tx_run 2 (?s0\<lparr>tx_can_put := True\<rparr>) True [] []"
    by (simp add: tx_server_init_def buffer_init_def buffer_is_empty_def ready_uart_def tx_bytes_def tx_wire_def)
  from tx_next [OF this, of "TX_PRINTF [7, 8]" ready_uart sample_tx "[REPLY_SENDER, WIRE 7, REPLY_NOTIFIER]"]
  show ?thesis
    by (simp add: tx_server_init_def sample_tx_def ready_uart_def buffer_init_def tx_bytes_def tx_wire_def
        tx_enqueue_def buffer_is_full_def buffer_is_empty_def buffer_put_def buffer_get_def buffer_remove_def
        tx_put_byte_def array_get_def array_set_def Let_def word_le_nat_alt)
qed

lemma sample_tx_contents: "buffer_contents (tx_buf sample_tx) = [8]"
  by (simp add: sample_tx_def buffer_contents_def)

theorem tx_server_in_order_witness: "[7, 8] = [7] @ buffer_contents (tx_buf sample_tx)"
  using tx_server_in_order [OF sample_tx_run] by simp

theorem tx_server_progress_witness:
  "\<exists>s' ev. generic_tx_step ready_uart sample_tx TX_NOTIFIER = Some (s', ev) \<and> tx_wire ev = [8]"
proof -
  have "tx_env_ok ready_uart" by (simp add: tx_env_ok_def ready_uart_def)
  from tx_server_progress [OF sample_tx_run this, of TX_NOTIFIER] show ?thesis
    by (simp add: tx_bytes_def sample_tx_contents del: generic_tx_step.simps) blast
qed

theorem rx_server_in_order_witness:
  "\<exists>s. rx_run {5} s [65] [5] [(5, 65)] \<and> [65] = map snd [(5 :: int, 65)] @ buffer_contents (rx_buf s)"
proof -
  let ?s0 = "rx_server_init [0, 0] 2 (replicate MAX_TASKS 0)"
  have "rx_run {5} ?s0 [] [] []" by (rule rx_start) simp_all
  moreover have "rx_waiting ?s0 = []" by (simp add: rx_server_init_def buffer_init_def buffer_contents_def)
  moreover obtain s1 where "generic_rx_step True 0 0 0 ?s0 (RX_GETC 5) = Some (s1, [])"
    by (simp add: rx_server_init_def rx_getc_def buffer_init_def buffer_is_empty_def buffer_put_def
        MAX_TASKS_def array_set_def Let_def word_le_nat_alt)
  ultimately have r: "rx_run {5} s1 [] [5] []"
    using rx_next [of "{5}" ?s0 "[]" "[]" "[]" "RX_GETC 5" True 0 0 0 s1 "[]"]
    by (simp add: rx_bytes_def rx_requests_def rx_answers_def)
  have q: "rx_ok {5} s1" "rx_queue s1 = []" "rx_waiting s1 = [5]"
    using rx_run_inv [OF r] by (simp_all add: MAX_TASKS_def)
  then obtain s2 ev where s2: "generic_rx_step True 65 0 0 s1 RX_NOTIFIER = Some (s2, ev)"
    using rx_notifier_succeeds [of "{5}" s1 0 0 65] by (auto simp: rx_ok_def buffer_inv_def)
  then have "rx_ok {5} s2" "map snd (rx_answers ev) @ rx_queue s2 = [65]" "map fst (rx_answers ev) @ rx_waiting s2 = [5]"
    using rx_step_effect [OF s2 q(1)] q(2,3) by (simp_all add: rx_bytes_def rx_requests_def MAX_TASKS_def)
  then have a: "rx_answers ev = [(5, 65)]" by (cases "rx_answers ev") (auto simp: rx_ok_def)
  have "rx_run {5} s2 ([] @ rx_bytes 65 RX_NOTIFIER) ([5] @ rx_requests RX_NOTIFIER) ([] @ rx_answers ev)"
    by (rule rx_next [OF r _ s2]) simp
  then have r2: "rx_run {5} s2 [65] [5] [(5, 65)]" by (simp add: rx_bytes_def rx_requests_def a)
  have "[65] = map snd [(5 :: int, 65)] @ buffer_contents (rx_buf s2)"
    using rx_server_in_order [OF r2] by (simp add: MAX_TASKS_def)
  with r2 show ?thesis by blast
qed

end
