(* ===== verification/Tstd_Strings.thy ===== *)
theory Tstd_Strings
  imports Ring_Buffer
begin

text \<open>
  The string functions of \<open>lib/tstdlib.c\<close> and \<open>lib/tstring.c\<close>. A \<open>char *\<close> is the list of the
  bytes of the array it points into, from that byte on; reading past the end is undefined, \<open>None\<close>.
  \<open>char\<close> is unsigned on ARM. An \<open>unsigned int\<close> that counts or is divided is a natural number, with
  the reduction modulo \<open>2 ^ 32\<close> written out where it can happen; an \<open>int\<close> that overflows is
  undefined.
\<close>

type_synonym chars = "u8 list"

text \<open>A string literal, and one that ends with the line end of the terminal.\<close>

definition str :: "string \<Rightarrow> chars" where
  "str s = map of_char s @ [0]"

definition str_line :: "string \<Rightarrow> chars" where
  "str_line s = map of_char s @ [10, 13, 0]"

definition ubound :: nat where "ubound = 2 ^ 32"

section \<open>Comparison\<close>

fun tstrncmp_loop :: "chars \<Rightarrow> chars \<Rightarrow> nat \<Rightarrow> nat \<Rightarrow> int option" where
  "tstrncmp_loop d s i 0 = Some 0"
| "tstrncmp_loop d s i (Suc n) = do {
     a \<leftarrow> array_get d i;
     b \<leftarrow> array_get s i;
     if a = 0 \<and> b = 0 then Some 0
     else if a > b then Some 1
     else if a < b then Some (-1)
     else tstrncmp_loop d s (i + 1) n
   }"

definition tstrncmp :: "chars \<Rightarrow> chars \<Rightarrow> int \<Rightarrow> int option" where
  "tstrncmp d s max_length = tstrncmp_loop d s 0 (nat max_length)"

fun tstrcmp :: "chars \<Rightarrow> chars \<Rightarrow> int option" where
  "tstrcmp (a # d) (b # s) =
     (if a = 0 \<and> b = 0 then Some 1 else if a \<noteq> b then Some 0 else tstrcmp d s)"
| "tstrcmp _ _ = None"

fun tstrlen :: "chars \<Rightarrow> nat option" where
  "tstrlen [] = None"
| "tstrlen (c # s) = (if c \<noteq> 0 then map_option Suc (tstrlen s) else Some 0)"

text \<open>
  \<open>string_starts_with\<close>: \<open>i\<close> is compared before it is incremented, and only when neither string has
  ended.
\<close>

fun string_starts_with_loop :: "chars \<Rightarrow> chars \<Rightarrow> int \<Rightarrow> int \<Rightarrow> int option" where
  "string_starts_with_loop (a # s1) (b # s2) max_cmp_index i =
     (if a \<noteq> 0 \<and> b \<noteq> 0 \<and> max_cmp_index \<ge> i then
        if a \<noteq> b then Some 0 else string_starts_with_loop s1 s2 max_cmp_index (i + 1)
      else Some (if a = 0 \<and> b \<noteq> 0 then 0 else 1))"
| "string_starts_with_loop _ _ max_cmp_index i = None"

definition string_starts_with :: "chars \<Rightarrow> chars \<Rightarrow> int \<Rightarrow> int option" where
  "string_starts_with s1 s2 max_cmp_index = string_starts_with_loop s1 s2 max_cmp_index 0"

section \<open>Numbers\<close>

definition a2d :: "u8 \<Rightarrow> int" where
  "a2d ch = (let c = uint ch in
     if c \<ge> 48 \<and> c \<le> 57 then c - 48
     else if c \<ge> 97 \<and> c \<le> 102 then c - 97 + 10
     else if c \<ge> 65 \<and> c \<le> 70 then c - 65 + 10
     else -1)"

definition parse_two_digit_number :: "chars \<Rightarrow> int option" where
  "parse_two_digit_number s = do {
     s0 \<leftarrow> array_get s 0;
     s1 \<leftarrow> array_get s 1;
     let tens = a2d s0;
     let ones = a2d s1;
     Some (if ones = -1 then 10 * 0 + tens else 10 * tens + ones)
   }"

text \<open>\<open>a2i\<close>: the loop returns the character after the number, the rest of the source, the number.\<close>

fun a2i_loop :: "u8 \<Rightarrow> chars \<Rightarrow> int \<Rightarrow> int \<Rightarrow> (u8 \<times> chars \<times> int) option" where
  "a2i_loop ch p base num =
     (if a2d ch \<ge> 0 \<and> \<not> a2d ch > base then
        let num' = num * base + a2d ch in
        if \<not> int_range num' then None
        else case p of [] \<Rightarrow> None | c # p' \<Rightarrow> a2i_loop c p' base num'
      else Some (ch, p, num))"

declare a2i_loop.simps [simp del]

definition a2i :: "u8 \<Rightarrow> chars \<Rightarrow> int \<Rightarrow> (u8 \<times> chars \<times> int) option" where
  "a2i ch src base = a2i_loop ch src base 0"

text \<open>
  \<open>ui2a\<close>: the divisor is scaled up to the leading digit, then the digits are written. Dividing by a
  divisor that has wrapped to 0, or by a base of 0, is undefined; base 1 loops. The result is what is
  written to \<open>bf\<close>, which must have room for it.
\<close>

partial_function (option) ui2a_scale :: "nat \<Rightarrow> nat \<Rightarrow> nat \<Rightarrow> nat option" where
  "ui2a_scale num base d = do {
     guard_opt (d \<noteq> 0);
     if num div d \<ge> base then ui2a_scale num base (d * base mod ubound) else Some d
   }"

definition digit_char :: "nat \<Rightarrow> u8" where
  "digit_char dgt = of_nat (dgt + (if dgt < 10 then 48 else 97 - 10))"

partial_function (option) ui2a_digits :: "nat \<Rightarrow> nat \<Rightarrow> nat \<Rightarrow> nat \<Rightarrow> chars option" where
  "ui2a_digits num base d n =
     (if d \<noteq> 0 then do {
        guard_opt (base \<noteq> 0);
        if n \<noteq> 0 \<or> num div d > 0 \<or> d div base = 0
        then do {
          bf \<leftarrow> ui2a_digits (num mod d) base (d div base) (n + 1);
          Some (digit_char (num div d) # bf)
        }
        else ui2a_digits (num mod d) base (d div base) n
      }
      else Some [])"

definition ui2a :: "nat \<Rightarrow> nat \<Rightarrow> chars option" where
  "ui2a num base = do {
     d \<leftarrow> ui2a_scale num base 1;
     bf \<leftarrow> ui2a_digits num base d 0;
     Some (bf @ [0])
   }"

text \<open>\<open>-num\<close> overflows for the least \<open>int\<close>.\<close>

definition i2a :: "int \<Rightarrow> chars option" where
  "i2a num =
     (if num < 0 then do { guard_opt (int_range (- num)); map_option (\<lambda>bf. 45 # bf) (ui2a (nat (- num)) 10) }
      else ui2a (nat num) 10)"

text \<open>The two readers of numbers in a command line; \<open>b_data\<close> is the line, \<open>b_elems\<close> its length.\<close>

fun is_valid_number_loop :: "u8 buffer \<Rightarrow> nat list \<Rightarrow> int option" where
  "is_valid_number_loop buf [] = Some (int (unat (b_elems buf)))"
| "is_valid_number_loop buf (i # rest) = do {
     c \<leftarrow> array_get (b_data buf) i;
     if c = 0 \<or> c = 32 then Some (int i + 1)
     else if \<not> (c \<ge> 48 \<and> c \<le> 57) then Some (-1)
     else is_valid_number_loop buf rest
   }"

definition is_valid_number :: "u8 buffer \<Rightarrow> nat \<Rightarrow> int option" where
  "is_valid_number buf fromOffset =
     (if fromOffset \<ge> unat (b_elems buf) then Some (-1)
      else is_valid_number_loop buf [fromOffset..<unat (b_elems buf)])"

fun parse_number_loop :: "u8 buffer \<Rightarrow> nat list \<Rightarrow> u32 \<Rightarrow> u32 option" where
  "parse_number_loop buf [] ret = Some ret"
| "parse_number_loop buf (i # rest) ret = do {
     c \<leftarrow> array_get (b_data buf) i;
     if c = 0 \<or> c = 32 then Some ret
     else parse_number_loop buf rest (ret * 10 + (ucast c - 48))
   }"

definition parse_number :: "u8 buffer \<Rightarrow> nat \<Rightarrow> u32 option" where
  "parse_number buf start_offset =
     parse_number_loop buf [start_offset..<unat (b_elems buf)] 0"

section \<open>Printing and reading numbers\<close>

lemma ui2a_scale_ok:
  assumes base: "2 \<le> base" and num: "num < ubound"
  shows "base ^ k \<le> num \<or> k = 0 \<Longrightarrow> \<exists>K. ui2a_scale num base (base ^ k) = Some (base ^ K) \<and>
    num < base ^ (K + 1) \<and> (base ^ K \<le> num \<or> K = 0)"
proof (induction "num - base ^ k" arbitrary: k rule: less_induct)
  case less
  have pos: "0 < base ^ k" using base by simp
  show ?case
  proof (cases "num div base ^ k \<ge> base")
    case True
    then have le: "base ^ Suc k \<le> num" by (simp add: less_eq_div_iff_mult_less_eq [OF pos] mult.commute)
    then have m: "base ^ k * base mod ubound = base ^ Suc k" using num by (simp add: mult.commute)
    have "base ^ k < base ^ Suc k" using base by simp
    then have "num - base ^ Suc k < num - base ^ k" using le by linarith
    from less.hyps [OF this] le obtain K where "ui2a_scale num base (base ^ Suc k) = Some (base ^ K)"
      "num < base ^ (K + 1)" "base ^ K \<le> num \<or> K = 0" by blast
    moreover have "ui2a_scale num base (base ^ k) = ui2a_scale num base (base ^ Suc k)"
      using True pos m by (subst ui2a_scale.simps) (simp del: power_Suc)
    ultimately show ?thesis by auto
  next
    case False
    then have "num < base ^ (k + 1)" using div_less_iff_less_mult [OF pos, of num base] by (simp add: mult.commute)
    then show ?thesis using False pos less.prems by (subst ui2a_scale.simps) auto
  qed
qed

abbreviation digits_value :: "nat \<Rightarrow> nat list \<Rightarrow> nat" where
  "digits_value base ds \<equiv> foldl (\<lambda>a d. a * base + d) 0 ds"

lemma digits_value_acc: "foldl (\<lambda>a d. a * base + d) x ds = x * base ^ length ds + digits_value base ds"
proof (induction ds arbitrary: x)
  case (Cons d ds)
  show ?case using Cons [of "x * base + d"] Cons [of d] by (simp add: algebra_simps)
qed simp

lemma ui2a_digits_ok:
  assumes base: "2 \<le> base"
  shows "num < base ^ (K + 1) \<Longrightarrow> n \<noteq> 0 \<or> base ^ K \<le> num \<or> K = 0 \<Longrightarrow>
    \<exists>ds. ui2a_digits num base (base ^ K) n = Some (map digit_char ds) \<and> length ds = K + 1 \<and>
      (\<forall>d \<in> set ds. d < base) \<and> digits_value base ds = num \<and> hd ds = num div base ^ K"
proof (induction K arbitrary: num n)
  case 0
  then show ?case using base
    by (intro exI [of _ "[num]"]) (subst ui2a_digits.simps, simp, subst ui2a_digits.simps, simp)
next
  case (Suc K)
  let ?d = "base ^ Suc K"
  have pos: "0 < ?d" "?d div base = base ^ K" using base by simp_all
  have "num mod ?d < base ^ (K + 1)" using pos(1) mod_less_divisor [of ?d num] by simp
  then obtain ds where ds: "ui2a_digits (num mod ?d) base (base ^ K) (n + 1) = Some (map digit_char ds)"
    "length ds = K + 1" "\<forall>d \<in> set ds. d < base" "digits_value base ds = num mod ?d"
    using Suc.IH [of "num mod ?d" "n + 1"] by auto
  have "n \<noteq> 0 \<or> num div ?d > 0"
    using Suc.prems(2) pos(1) by (auto simp: div_greater_zero_iff simp del: power_Suc)
  moreover have "num div ?d < base"
    using Suc.prems(1) pos(1) by (simp add: div_less_iff_less_mult mult.commute mult.left_commute)
  moreover have "num div ?d * ?d + num mod ?d = num" by (rule div_mult_mod_eq)
  then have "digits_value base (num div ?d # ds) = num"
    using digits_value_acc [of base "num div ?d" ds] ds(2,4) by simp
  ultimately show ?case
    using ds pos base
    by (intro exI [of _ "num div ?d # ds"]) (subst ui2a_digits.simps, simp del: power_Suc)
qed

text \<open>\<open>ui2a\<close> writes the digits of the number, most significant first, without leading zeros.\<close>

lemma ui2a_ok:
  assumes "2 \<le> base" "num < ubound"
  shows "\<exists>ds. ui2a num base = Some (map digit_char ds @ [0]) \<and> ds \<noteq> [] \<and>
    (\<forall>d \<in> set ds. d < base) \<and> digits_value base ds = num \<and> (num \<noteq> 0 \<longrightarrow> hd ds \<noteq> 0) \<and>
    length ds \<le> 32"
proof -
  obtain K where K: "ui2a_scale num base 1 = Some (base ^ K)" "num < base ^ (K + 1)" "base ^ K \<le> num \<or> K = 0"
    using ui2a_scale_ok [OF assms, of 0] by auto
  obtain ds where "ui2a_digits num base (base ^ K) 0 = Some (map digit_char ds)" "length ds = K + 1"
    "\<forall>d \<in> set ds. d < base" "digits_value base ds = num" "hd ds = num div base ^ K"
    using ui2a_digits_ok [OF assms(1) K(2), of 0] K(3) by auto
  moreover have "num div base ^ K \<noteq> 0" if "num \<noteq> 0"
    using that K(3) assms(1) by (auto simp: div_eq_0_iff)
  moreover have "K < 32"
  proof (cases "K = 0")
    case False
    then have "base ^ K < 2 ^ 32" using K(3) assms(2) by (simp add: ubound_def)
    moreover have "(2 :: nat) ^ K \<le> base ^ K" using assms(1) by (rule power_mono) simp
    ultimately have "(2 :: nat) ^ K < 2 ^ 32" by linarith
    then show ?thesis by (simp only: power_strict_increasing_iff one_less_numeral_iff semiring_norm)
  qed simp
  ultimately show ?thesis using K(1) by (intro exI [of _ ds]) (auto simp: ui2a_def)
qed

lemma digit_cases:
  assumes "d < (16 :: nat)"
  obtains "d = 0" | "d = 1" | "d = 2" | "d = 3" | "d = 4" | "d = 5" | "d = 6" | "d = 7" | "d = 8"
    | "d = 9" | "d = 10" | "d = 11" | "d = 12" | "d = 13" | "d = 14" | "d = 15"
proof -
  have "d = 0 \<or> d = 1 \<or> d = 2 \<or> d = 3 \<or> d = 4 \<or> d = 5 \<or> d = 6 \<or> d = 7 \<or> d = 8 \<or> d = 9 \<or> d = 10 \<or>
      d = 11 \<or> d = 12 \<or> d = 13 \<or> d = 14 \<or> d = 15"
    using assms by (simp add: numeral_eq_Suc less_Suc_eq)
  then show ?thesis using that by blast
qed

lemma digit_char:
  assumes "d < 16"
  shows "a2d (digit_char d) = int d" "digit_char d \<noteq> 0" "digit_char d \<noteq> 32"
    "d < 10 \<Longrightarrow> ucast (digit_char d) - 48 = (of_nat d :: u32)"
    "d < 10 \<Longrightarrow> 48 \<le> digit_char d \<and> digit_char d \<le> 57"
  by (cases rule: digit_cases [OF assms]; simp add: digit_char_def a2d_def Let_def)+

lemma parse_number_digits:
  assumes "\<forall>d \<in> set ds. d < 10"
  shows "(\<And>k. k < length ds \<Longrightarrow> array_get (b_data buf) (s + k) = Some (digit_char (ds ! k))) \<Longrightarrow>
    parse_number_loop buf ([s..<s + length ds] @ rest) ret =
    parse_number_loop buf rest (foldl (\<lambda>a d. a * 10 + of_nat d) ret ds)"
  using assms
proof (induction ds arbitrary: s ret)
  case (Cons d ds)
  have d: "array_get (b_data buf) s = Some (digit_char d)" using Cons.prems(1) [of 0] by simp
  have "array_get (b_data buf) (Suc s + k) = Some (digit_char (ds ! k))" if "k < length ds" for k
    using Cons.prems(1) [of "Suc k"] that by simp
  from Cons.IH [OF this] have ih: "parse_number_loop buf ([Suc s..<Suc s + length ds] @ rest) r =
      parse_number_loop buf rest (foldl (\<lambda>a d. a * 10 + of_nat d) r ds)" for r
    using Cons.prems(2) by simp
  have "[s..<s + length (d # ds)] = s # [Suc s..<Suc s + length ds]"
    by (simp add: upt_conv_Cons del: upt_Suc)
  then show ?case using d digit_char [of d] Cons.prems(2) ih by simp
qed simp

lemma foldl_of_nat: "foldl (\<lambda>a d. a * 10 + of_nat d) (of_nat x) ds = (of_nat (foldl (\<lambda>a d. a * 10 + d) x ds) :: u32)"
proof (induction ds arbitrary: x)
  case (Cons d ds)
  show ?case using Cons [of "x * 10 + d"] by simp
qed simp

lemma a2i_digits:
  assumes "base \<le> 16"
  shows "\<forall>d \<in> set ds. d < base \<Longrightarrow> foldl (\<lambda>a d. a * base + d) n ds < 2 ^ 31 \<Longrightarrow>
    a2i_loop (hd (map digit_char ds @ [0])) (tl (map digit_char ds @ [0]) @ rest) (int base) (int n) =
    Some (0, rest, int (foldl (\<lambda>a d. a * base + d) n ds))"
proof (induction ds arbitrary: n)
  case Nil
  then show ?case by (simp add: a2i_loop.simps a2d_def)
next
  case (Cons d ds)
  have d: "d < base" "d < 16" using Cons.prems(1) assms by auto
  have "n * base + d \<le> foldl (\<lambda>a d. a * base + d) (n * base + d) ds"
  proof -
    have "base \<noteq> 0" using d(1) by simp
    then have "1 \<le> base ^ length ds" by simp
    then have "(n * base + d) * 1 \<le> (n * base + d) * base ^ length ds" by (rule mult_le_mono2)
    then show ?thesis unfolding digits_value_acc [of base "n * base + d" ds] mult_1_right
      by (rule le_trans [OF _ le_add1])
  qed
  then have "int n * int base + int d < 2 ^ 31" using Cons.prems(2)
    by (metis (mono_tags, lifting) foldl_Cons of_nat_add of_nat_less_numeral_power_cancel_iff of_nat_mult order_le_less_trans)
  moreover have "0 \<le> int n * int base + int d" by simp
  ultimately have "int_range (int n * int base + int d)" unfolding int_range_def by linarith
  then have r: "int_range (int n * int base + a2d (digit_char d))" by (simp only: digit_char(1) [OF d(2)])
  have ih: "a2i_loop (hd (map digit_char ds @ [0])) (tl (map digit_char ds @ [0]) @ rest) (int base)
      (int n * int base + int d) = Some (0, rest, int (foldl (\<lambda>a d. a * base + d) n (d # ds)))"
    using Cons.IH [of "n * base + d"] Cons.prems by simp
  have "map digit_char ds @ [0] = hd (map digit_char ds @ [0]) # tl (map digit_char ds @ [0])" by simp
  then obtain c p where cp: "map digit_char ds @ [0] = c # p" by blast
  have "a2i_loop (digit_char d) ((c # p) @ rest) (int base) (int n) =
      a2i_loop c (p @ rest) (int base) (int n * int base + int d)"
    using r digit_char(1) [OF d(2)] d(1) by (simp add: a2i_loop.simps [of "digit_char d"] Let_def)
  then show ?case using ih cp by simp
qed

section \<open>Properties\<close>

text \<open>
  C37: \<open>ui2a\<close> returns for every 32-bit number in any base from 2 to 16, without a leading zero, and
  \<open>a2i\<close> in the same base reads the number back (up to the largest \<open>int\<close>), stopping at the end of
  the string.
\<close>

theorem number_roundtrip:
  assumes "2 \<le> base" "base \<le> 16" "num < 2 ^ 32"
  shows "\<exists>c bf. ui2a num base = Some (c # bf) \<and> (num \<noteq> 0 \<longrightarrow> c \<noteq> 48) \<and>
    (num < 2 ^ 31 \<longrightarrow> a2i c bf (int base) = Some (0, [], int num))"
proof -
  obtain ds where ds: "ui2a num base = Some (map digit_char ds @ [0])" "ds \<noteq> []"
    "\<forall>d \<in> set ds. d < base" "digits_value base ds = num" "num \<noteq> 0 \<longrightarrow> hd ds \<noteq> 0"
    using ui2a_ok [OF assms(1), of num] assms(3) by (auto simp: ubound_def)
  have h: "hd ds < 16" using ds(2,3) assms(2) by (meson hd_in_set order_less_le_trans)
  have "a2d (digit_char (hd ds)) = int (hd ds)" by (rule digit_char(1) [OF h])
  then have z: "digit_char (hd ds) \<noteq> 48" if "num \<noteq> 0" using ds(5) that by (auto simp: a2d_def)
  have "a2i (digit_char (hd ds)) (map digit_char (tl ds) @ [0]) (int base) = Some (0, [], int num)"
    if "num < 2 ^ 31"
    using a2i_digits [OF assms(2) ds(3), of 0 "[]"] ds(2,4) that
    by (simp add: a2i_def tl_append split: list.split) (cases ds; simp)
  moreover have "map digit_char ds @ [0] = digit_char (hd ds) # (map digit_char (tl ds) @ [0])"
    using ds(2) by (cases ds) auto
  ultimately show ?thesis using ds(1) z by auto
qed

theorem number_roundtrip_witness:
  "\<exists>c bf. ui2a 300 10 = Some (c # bf) \<and> a2i c bf 10 = Some (0, [], 300)"
  using number_roundtrip [of 10 300] by auto

text \<open>
  What \<open>ui2a\<close> prints in base 10 \<open>parse_number\<close> reads back, for every 32-bit number.
\<close>

theorem parse_number_roundtrip:
  assumes "num < 2 ^ 32"
  shows "\<exists>bf. ui2a num 10 = Some bf \<and>
    parse_number \<lparr>b_data = bf, b_size = of_nat (length bf), b_elems = of_nat (length bf), b_in = 0, b_out = 0\<rparr> 0 =
      Some (of_nat num)"
proof -
  obtain ds where ds: "ui2a num 10 = Some (map digit_char ds @ [0])"
    "\<forall>d \<in> set ds. d < 10" "digits_value 10 ds = num" "length ds \<le> 32"
    using ui2a_ok [of 10 num] assms by (auto simp: ubound_def)
  let ?bf = "map digit_char ds @ [0]"
  let ?b = "\<lparr>b_data = ?bf, b_size = of_nat (length ?bf), b_elems = of_nat (length ?bf), b_in = 0, b_out = 0\<rparr>"
  have "unat (of_nat (length ?bf) :: u32) = length ?bf"
    by (subst unat_of_nat) (use ds(4) in simp)
  then have p: "parse_number ?b 0 = parse_number_loop ?b ([0..<0 + length ds] @ [length ds]) 0"
    by (simp add: parse_number_def)
  have "parse_number ?b 0 = Some (of_nat num)"
    unfolding p by (subst parse_number_digits [OF ds(2)])
      (use foldl_of_nat [of 0 ds] ds(3) in \<open>simp_all add: nth_append\<close>)
  then show ?thesis using ds(1) by blast
qed

theorem parse_number_roundtrip_witness:
  "\<exists>bf. ui2a 4000000000 10 = Some bf \<and> parse_number \<lparr>b_data = bf, b_size = of_nat (length bf),
     b_elems = of_nat (length bf), b_in = 0, b_out = 0\<rparr> 0 = Some 4000000000"
  using parse_number_roundtrip [of 4000000000] by auto

end
