(* ===== verification/Clock_Server.thy ===== *)
theory Clock_Server
  imports Priority_Queue
begin

text \<open>
  The clock server, \<open>usr/clock.c\<close>, on the queue of waiting tasks \<open>usr/lib/clock_wait_queue.c\<close>, the
  heap template at \<open>clock_wait\<close> with \<open>ticks\<close> as value. One message is one step; the replies sent
  are part of the result. \<open>res\<close> is what \<open>Reply\<close> returns for each task replied to. \<open>int32_t\<close> sums
  that overflow are undefined, hence \<open>None\<close>, as is a failed \<open>Assert\<close>.
\<close>

record clock_wait =
  cw_tid :: int
  cw_ticks :: int

definition CLOCK_WAIT_QUEUE_SIZE :: nat where
  "CLOCK_WAIT_QUEUE_SIZE = 64"

type_synonym clock_wait_queue = "clock_wait pqueue"

interpretation cwq: mutable_prio_queue cw_ticks CLOCK_WAIT_QUEUE_SIZE
  "pq_enqueue cw_ticks CLOCK_WAIT_QUEUE_SIZE" "pq_dequeue cw_ticks" pq_peek pq_bag
  "pq_inv cw_ticks CLOCK_WAIT_QUEUE_SIZE" "pq_heapify cw_ticks" "pq_wf CLOCK_WAIT_QUEUE_SIZE"
  by (rule pq_mutable_prio_queue)

record clock_state =
  c_ticks :: int
  c_queue :: clock_wait_queue
  c_cw :: clock_wait

datatype clock_message =
    CLOCK_NOTIFIER
  | CLOCK_TIME
  | CLOCK_DELAY int
  | CLOCK_DELAY_UNTIL int
  | CLOCK_OTHER

datatype clock_reply =
    CLOCK_EMPTY
  | REPLY_CLOCK_SERVER_OK
  | REPLY_CLOCK_SERVER_ERROR
  | REPLY_TIME int

text \<open>The loop that answers the tasks whose time has come.\<close>

lemma pq_dequeue_size: "pq_peek q \<noteq> None \<Longrightarrow> pq_size (fst (pq_dequeue v q e)) < pq_size q"
  by (auto simp: pq_peek_def pq_dequeue_def Let_def split: if_splits)

function clock_wake ::
  "(int \<Rightarrow> int) \<Rightarrow> int \<Rightarrow> clock_wait_queue \<Rightarrow> clock_wait \<Rightarrow>
   (clock_wait_queue \<times> clock_wait \<times> (int \<times> clock_reply) list) option" where
  "clock_wake res ticks q cw =
     (case pq_peek q of
        None \<Rightarrow> Some (q, cw, [])
      | Some head \<Rightarrow>
          if cw_ticks head \<le> ticks then
            (case pq_dequeue cw_ticks q cw of
               (q1, cw1, r) \<Rightarrow>
                 if r = -1 then None
                 else if res (cw_tid cw1) = 0 \<or> res (cw_tid cw1) = -2 then
                   map_option (\<lambda>(q2, cw2, rs). (q2, cw2, (cw_tid cw1, REPLY_CLOCK_SERVER_OK) # rs))
                     (clock_wake res ticks q1 cw1)
                 else None)
          else Some (q, cw, []))"
  by pat_completeness auto
termination
  by (relation "measure (\<lambda>(res, ticks, q, cw). pq_size q)")
     (use pq_dequeue_size in \<open>force simp: prod_eq_iff\<close>)+

declare clock_wake.simps [simp del]

definition clock_init :: "clock_wait list \<Rightarrow> clock_wait \<Rightarrow> clock_state" where
  "clock_init elts cw = \<lparr>c_ticks = 0, c_queue = pq_init elts, c_cw = cw\<rparr>"

definition clock_enqueue :: "clock_state \<Rightarrow> int \<Rightarrow> int \<Rightarrow> clock_state option" where
  "clock_enqueue s tid t = do {
     let cw = \<lparr>cw_tid = tid, cw_ticks = t\<rparr>;
     let (q, r) = pq_enqueue cw_ticks CLOCK_WAIT_QUEUE_SIZE (c_queue s) cw;
     guard_opt (r \<noteq> -1);
     Some (s\<lparr>c_queue := q, c_cw := cw\<rparr>)
   }"

fun clock_step ::
  "(int \<Rightarrow> int) \<Rightarrow> clock_state \<Rightarrow> int \<Rightarrow> clock_message \<Rightarrow>
   (clock_state \<times> (int \<times> clock_reply) list) option" where
  "clock_step res s sender_tid CLOCK_NOTIFIER = do {
     guard_opt (res sender_tid \<ge> 0);
     ticks \<leftarrow> int32 (c_ticks s + 1);
     (q, cw, rs) \<leftarrow> clock_wake res ticks (c_queue s) (c_cw s);
     Some (s\<lparr>c_ticks := ticks, c_queue := q, c_cw := cw\<rparr>, (sender_tid, CLOCK_EMPTY) # rs)
   }"
| "clock_step res s sender_tid CLOCK_TIME = do {
     guard_opt (res sender_tid \<ge> 0);
     Some (s, [(sender_tid, REPLY_TIME (c_ticks s))])
   }"
| "clock_step res s sender_tid (CLOCK_DELAY n) =
     (if n \<le> 0 then Some (s, [(sender_tid, REPLY_CLOCK_SERVER_ERROR)])
      else do {
        t \<leftarrow> int32 (c_ticks s + n);
        s' \<leftarrow> clock_enqueue s sender_tid t;
        Some (s', [])
      })"
| "clock_step res s sender_tid (CLOCK_DELAY_UNTIL n) =
     (if n \<le> c_ticks s then Some (s, [(sender_tid, REPLY_CLOCK_SERVER_ERROR)])
      else do {
        s' \<leftarrow> clock_enqueue s sender_tid n;
        Some (s', [])
      })"
| "clock_step res s sender_tid CLOCK_OTHER = None"

inductive clock_run :: "clock_state \<Rightarrow> bool" where
  init: "length elts = CLOCK_WAIT_QUEUE_SIZE \<Longrightarrow> clock_run (clock_init elts cw)"
| step: "clock_run s \<Longrightarrow> clock_step res s tid m = Some (s', rs) \<Longrightarrow> clock_run s'"

section \<open>The waiting tasks\<close>

text \<open>Everybody who waits, waits for a tick still to come.\<close>

definition clock_inv :: "clock_state \<Rightarrow> bool" where
  "clock_inv s \<longleftrightarrow> pq_inv cw_ticks CLOCK_WAIT_QUEUE_SIZE (c_queue s) \<and>
     (\<forall>w \<in># pq_bag (c_queue s). c_ticks s < cw_ticks w)"

abbreviation waiting :: "clock_state \<Rightarrow> clock_wait multiset" where
  "waiting s \<equiv> pq_bag (c_queue s)"

abbreviation wake_reply :: "clock_wait \<Rightarrow> int \<times> clock_reply" where
  "wake_reply w \<equiv> (cw_tid w, REPLY_CLOCK_SERVER_OK)"

lemma clock_wake_exact:
  assumes "pq_inv cw_ticks CLOCK_WAIT_QUEUE_SIZE q" "\<And>t. res t = 0 \<or> res t = -2"
  shows "\<exists>q' cw' ws. clock_wake res ticks q cw = Some (q', cw', map wake_reply ws) \<and>
    pq_inv cw_ticks CLOCK_WAIT_QUEUE_SIZE q' \<and> sorted (map cw_ticks ws) \<and>
    mset ws = {# w \<in># pq_bag q. cw_ticks w \<le> ticks #} \<and>
    pq_bag q' = {# w \<in># pq_bag q. ticks < cw_ticks w #}"
  using assms
proof (induction "pq_size q" arbitrary: q cw rule: less_induct)
  case less
  note inv = less.prems(1)
  show ?case
  proof (cases "pq_peek q")
    case None
    then have "pq_bag q = {#}" using cwq.peek_None [OF inv] by simp
    then show ?thesis using None inv
      by (intro exI [of _ q] exI [of _ cw] exI [of _ "[]"]) (simp add: clock_wake.simps [of res ticks q cw])
  next
    case (Some h)
    show ?thesis
    proof (cases "cw_ticks h \<le> ticks")
      case False
      have "{# w \<in># pq_bag q. cw_ticks w \<le> ticks #} = {#}"
        by (rule cwq.none_below_peek [OF inv Some False])
      moreover have "{# w \<in># pq_bag q. ticks < cw_ticks w #} = {# w \<in># pq_bag q. True #}"
        by (rule filter_mset_cong) (use cwq.peek_min [OF inv Some] False in fastforce)+
      ultimately show ?thesis using False Some inv
        by (intro exI [of _ q] exI [of _ cw] exI [of _ "[]"]) (simp add: clock_wake.simps [of res ticks q cw])
    next
      case True
      obtain q1 where q1: "pq_dequeue cw_ticks q cw = (q1, h, 0)"
        "pq_inv cw_ticks CLOCK_WAIT_QUEUE_SIZE q1" "pq_bag q = add_mset h (pq_bag q1)"
        using cwq.deq_ok [OF inv Some, of cw] by blast
      have "pq_size q1 < pq_size q" using pq_dequeue_size [of q cw_ticks cw] Some q1(1) by simp
      from less.hyps [OF this q1(2) less.prems(2), of h] obtain q' cw' ws where
        w: "clock_wake res ticks q1 h = Some (q', cw', map wake_reply ws)"
        "pq_inv cw_ticks CLOCK_WAIT_QUEUE_SIZE q'" "sorted (map cw_ticks ws)"
        "mset ws = {# w \<in># pq_bag q1. cw_ticks w \<le> ticks #}"
        "pq_bag q' = {# w \<in># pq_bag q1. ticks < cw_ticks w #}" by blast
      have "\<forall>w \<in> set ws. cw_ticks h \<le> cw_ticks w"
      proof
        fix w assume "w \<in> set ws"
        then have "w \<in># mset ws" by simp
        then have "w \<in># pq_bag q1" unfolding w(4) by simp
        then show "cw_ticks h \<le> cw_ticks w" using cwq.peek_min [OF inv Some, of w] q1(3) by simp
      qed
      then show ?thesis
        using True Some q1 w less.prems(2) [of "cw_tid h"]
        by (intro exI [of _ q'] exI [of _ cw'] exI [of _ "h # ws"])
           (simp add: clock_wake.simps [of res ticks q cw])
    qed
  qed
qed

lemma clock_enqueue_ok:
  assumes inv: "clock_inv s" and room: "size (waiting s) < CLOCK_WAIT_QUEUE_SIZE" and t: "c_ticks s < t"
  shows "\<exists>s'. clock_enqueue s tid t = Some s' \<and> clock_inv s' \<and> c_ticks s' = c_ticks s \<and>
    waiting s' = add_mset \<lparr>cw_tid = tid, cw_ticks = t\<rparr> (waiting s)"
proof -
  let ?w = "\<lparr>cw_tid = tid, cw_ticks = t\<rparr>"
  obtain q r where e: "pq_enqueue cw_ticks CLOCK_WAIT_QUEUE_SIZE (c_queue s) ?w = (q, r)" by fastforce
  then show ?thesis
    using cwq.enq_ok [of "c_queue s" ?w] inv room t
    by (intro exI [of _ "s\<lparr>c_queue := q, c_cw := ?w\<rparr>"]) (auto simp: clock_enqueue_def clock_inv_def)
qed

lemma clock_enqueue_inv:
  assumes "clock_enqueue s tid t = Some s'" "clock_inv s" "c_ticks s < t"
  shows "clock_inv s'"
proof (cases "size (waiting s) = CLOCK_WAIT_QUEUE_SIZE")
  case True
  then show ?thesis
    using assms cwq.enq_full [of "c_queue s" "\<lparr>cw_tid = tid, cw_ticks = t\<rparr>"]
    by (simp add: clock_enqueue_def clock_inv_def)
next
  case False
  have "pq_inv cw_ticks CLOCK_WAIT_QUEUE_SIZE (c_queue s)" using assms(2) by (simp add: clock_inv_def)
  then have "size (waiting s) < CLOCK_WAIT_QUEUE_SIZE" using cwq.size_bag False by fastforce
  from clock_enqueue_ok [OF assms(2) this assms(3), of tid] assms(1) show ?thesis by auto
qed

text \<open>Whatever \<open>Reply\<close> returns, a loop that does not fail does the same.\<close>

lemma clock_wake_res:
  "clock_wake res ticks q cw = Some x \<Longrightarrow> clock_wake (\<lambda>_. 0) ticks q cw = Some x"
proof (induction res ticks q cw arbitrary: x rule: clock_wake.induct)
  case (1 res ticks q cw)
  show ?case
  proof (cases "pq_peek q")
    case None
    then show ?thesis using "1.prems" by (simp add: clock_wake.simps)
  next
    case (Some h)
    obtain q1 cw1 r where d: "pq_dequeue cw_ticks q cw = (q1, cw1, r)" by (metis prod_cases3)
    show ?thesis
    proof (cases "cw_ticks h \<le> ticks \<and> r \<noteq> -1 \<and> (res (cw_tid cw1) = 0 \<or> res (cw_tid cw1) = -2)")
      case True
      then have c: "cw_ticks h \<le> ticks" "r \<noteq> -1" "res (cw_tid cw1) = 0 \<or> res (cw_tid cw1) = -2" by auto
      obtain y where y: "clock_wake res ticks q1 cw1 = Some y"
        "x = (\<lambda>(q2, cw2, rs). (q2, cw2, (cw_tid cw1, REPLY_CLOCK_SERVER_OK) # rs)) y"
        using "1.prems" Some d c by (auto simp: clock_wake.simps [of res ticks q cw])
      have "clock_wake (\<lambda>_. 0) ticks q1 cw1 = Some y"
        using "1.IH" [OF Some c(1) d [symmetric] refl c(2,3) y(1)] .
      then show ?thesis using Some d c(1,2) y(2) by (simp add: clock_wake.simps [of _ ticks q cw])
    next
      case False
      then show ?thesis
        using "1.prems" Some d by (auto simp: clock_wake.simps [of _ ticks q cw] split: if_splits)
    qed
  qed
qed

text \<open>A tick answers exactly the tasks that wait for it.\<close>

lemma clock_tick:
  assumes inv: "clock_inv s" and s: "clock_step res s tid CLOCK_NOTIFIER = Some (s', rs)"
  shows "\<exists>ws. rs = (tid, CLOCK_EMPTY) # map wake_reply ws \<and> c_ticks s' = c_ticks s + 1 \<and>
    mset ws = {# w \<in># waiting s. cw_ticks w = c_ticks s' #} \<and>
    waiting s' = {# w \<in># waiting s. c_ticks s' < cw_ticks w #} \<and> clock_inv s'"
proof -
  obtain q cw rs' where w: "clock_wake res (c_ticks s + 1) (c_queue s) (c_cw s) = Some (q, cw, rs')"
    "s' = s\<lparr>c_ticks := c_ticks s + 1, c_queue := q, c_cw := cw\<rparr>" "rs = (tid, CLOCK_EMPTY) # rs'"
    using s by (auto simp: int32_Some split: bind_splits)
  have pinv: "pq_inv cw_ticks CLOCK_WAIT_QUEUE_SIZE (c_queue s)" using inv by (simp add: clock_inv_def)
  obtain q' cw' ws where e: "clock_wake (\<lambda>_. 0) (c_ticks s + 1) (c_queue s) (c_cw s) =
      Some (q', cw', map wake_reply ws)" "pq_inv cw_ticks CLOCK_WAIT_QUEUE_SIZE q'"
    "mset ws = {# w \<in># pq_bag (c_queue s). cw_ticks w \<le> c_ticks s + 1 #}"
    "pq_bag q' = {# w \<in># pq_bag (c_queue s). c_ticks s + 1 < cw_ticks w #}"
    using clock_wake_exact [OF pinv, of "\<lambda>_. 0"] by blast
  have eq: "q = q'" "cw = cw'" "rs' = map wake_reply ws" using clock_wake_res [OF w(1)] e(1) by simp_all
  have "{# w \<in># waiting s. cw_ticks w \<le> c_ticks s + 1 #} = {# w \<in># waiting s. cw_ticks w = c_ticks s + 1 #}"
    by (rule filter_mset_cong) (use inv in \<open>force simp: clock_inv_def\<close>)+
  then show ?thesis using w(2,3) e eq by (intro exI [of _ ws]) (simp add: clock_inv_def)
qed

lemma clock_step_inv:
  assumes inv: "clock_inv s" and s: "clock_step res s tid m = Some (s', rs)"
  shows "clock_inv s'"
proof (cases m)
  case CLOCK_NOTIFIER
  then show ?thesis using clock_tick [OF inv, of res tid s' rs] s by blast
next
  case (CLOCK_DELAY n)
  then show ?thesis
    using inv s by (auto simp: int32_Some intro: clock_enqueue_inv split: if_splits bind_splits)
next
  case (CLOCK_DELAY_UNTIL n)
  then show ?thesis using inv s by (auto intro: clock_enqueue_inv split: if_splits bind_splits)
qed (use inv s in \<open>auto split: bind_splits\<close>)

lemma clock_run_inv: "clock_run s \<Longrightarrow> clock_inv s"
proof (induction rule: clock_run.induct)
  case (init elts cw)
  then show ?case by (simp add: clock_inv_def clock_init_def pq_init_inv pq_bag_init)
qed (rule clock_step_inv)

section \<open>Properties\<close>

text \<open>
  Taking a queue of waiting tasks apart with \<open>dequeue\<close> gives each of them once, in the order of
  their times.
\<close>

theorem clock_queue_drain_sorted:
  assumes "pq_inv cw_ticks CLOCK_WAIT_QUEUE_SIZE q"
  shows "\<exists>q' xs. drain (cwq.take_min e) (pq_size q) q = Some (q', xs) \<and> pq_bag q' = {#} \<and>
    mset xs = pq_bag q \<and> sorted (map cw_ticks xs)"
proof -
  have "size (pq_bag q) = pq_size q" using assms by (auto simp: pq_inv_def size_pq_bag)
  from cwq.drain_sorted [OF assms this, of e] show ?thesis by blast
qed

definition sample_waits :: clock_wait_queue where
  "sample_waits = fst (pq_enqueue cw_ticks CLOCK_WAIT_QUEUE_SIZE
     (pq_init (replicate 64 \<lparr>cw_tid = 0, cw_ticks = 0\<rparr>)) \<lparr>cw_tid = 5, cw_ticks = 20\<rparr>)"

lemma sample_waits: "pq_inv cw_ticks CLOCK_WAIT_QUEUE_SIZE sample_waits"
  "pq_bag sample_waits = {# \<lparr>cw_tid = 5, cw_ticks = 20\<rparr> #}"
  using cwq.enq_ok [OF pq_init_inv, of "replicate 64 \<lparr>cw_tid = 0, cw_ticks = 0\<rparr>" "\<lparr>cw_tid = 5, cw_ticks = 20\<rparr>"]
  by (simp_all add: sample_waits_def pq_bag_init CLOCK_WAIT_QUEUE_SIZE_def)

theorem clock_queue_drain_sorted_witness:
  "\<exists>q' xs. drain (cwq.take_min \<lparr>cw_tid = 0, cw_ticks = 0\<rparr>) (pq_size sample_waits) sample_waits =
     Some (q', xs) \<and> mset xs = {# \<lparr>cw_tid = 5, cw_ticks = 20\<rparr> #}"
  using clock_queue_drain_sorted [OF sample_waits(1), of "\<lparr>cw_tid = 0, cw_ticks = 0\<rparr>"] sample_waits(2)
  by auto

text \<open>
  C26: in every run of the clock server a timer tick answers exactly the tasks waiting for the new
  time, no task early and none late, and keeps the others waiting.
\<close>

theorem clock_tick_exact:
  assumes run: "clock_run s" and s: "clock_step res s tid CLOCK_NOTIFIER = Some (s', rs)"
  shows "\<exists>ws. rs = (tid, CLOCK_EMPTY) # map wake_reply ws \<and> c_ticks s' = c_ticks s + 1 \<and>
    mset ws = {# w \<in># waiting s. cw_ticks w = c_ticks s' #} \<and>
    waiting s' = {# w \<in># waiting s. c_ticks s' < cw_ticks w #}"
  using clock_tick [OF clock_run_inv [OF run] s] by blast

definition fresh_clock :: clock_state where
  "fresh_clock = clock_init (replicate 64 \<lparr>cw_tid = 0, cw_ticks = 0\<rparr>) \<lparr>cw_tid = 0, cw_ticks = 0\<rparr>"

lemma fresh_clock_run: "clock_run fresh_clock"
  unfolding fresh_clock_def by (rule clock_run.init) (simp add: CLOCK_WAIT_QUEUE_SIZE_def)

theorem clock_tick_exact_witness:
  "\<exists>s' rs ws. clock_step (\<lambda>_. 0) fresh_clock 9 CLOCK_NOTIFIER = Some (s', rs) \<and>
     rs = (9, CLOCK_EMPTY) # map wake_reply ws \<and> c_ticks s' = 1"
proof -
  have "\<exists>s' rs. clock_step (\<lambda>_. 0) fresh_clock 9 CLOCK_NOTIFIER = Some (s', rs)"
    by (simp add: fresh_clock_def clock_init_def int32_def clock_wake.simps pq_peek_def pq_init_def)
  then obtain s' rs where "clock_step (\<lambda>_. 0) fresh_clock 9 CLOCK_NOTIFIER = Some (s', rs)" by blast
  from clock_tick_exact [OF fresh_clock_run this] this show ?thesis
    by (auto simp: fresh_clock_def clock_init_def)
qed

text \<open>
  A delay of \<open>n > 0\<close> ticks, while fewer than 64 tasks wait and the time does not overflow, makes
  the sender wait, without a reply, for the time \<open>n\<close> ticks from now; a delay of no ticks is
  answered with an error at once.
\<close>

theorem clock_delay:
  assumes run: "clock_run s" and room: "size (waiting s) < CLOCK_WAIT_QUEUE_SIZE"
    and t: "- (2 ^ 31) \<le> c_ticks s" "c_ticks s + n < 2 ^ 31"
  shows "\<exists>s' rs. clock_step res s tid (CLOCK_DELAY n) = Some (s', rs) \<and> c_ticks s' = c_ticks s \<and>
    (if n \<le> 0 then rs = [(tid, REPLY_CLOCK_SERVER_ERROR)] \<and> waiting s' = waiting s
     else rs = [] \<and> waiting s' = add_mset \<lparr>cw_tid = tid, cw_ticks = c_ticks s + n\<rparr> (waiting s))"
proof (cases "n \<le> 0")
  case False
  obtain s' where "clock_enqueue s tid (c_ticks s + n) = Some s'" "c_ticks s' = c_ticks s"
    "waiting s' = add_mset \<lparr>cw_tid = tid, cw_ticks = c_ticks s + n\<rparr> (waiting s)"
    using clock_enqueue_ok [OF clock_run_inv [OF run] room, of "c_ticks s + n" tid] False by auto
  then show ?thesis using False t by (simp add: int32_def)
qed simp

theorem clock_delay_witness:
  "\<exists>s'. clock_step (\<lambda>_. 0) fresh_clock 9 (CLOCK_DELAY 3) = Some (s', []) \<and>
     waiting s' = {# \<lparr>cw_tid = 9, cw_ticks = 3\<rparr> #}"
  using clock_delay [OF fresh_clock_run, of 3 "\<lambda>_. 0" 9]
  by (auto simp: fresh_clock_def clock_init_def pq_bag_init CLOCK_WAIT_QUEUE_SIZE_def)

end
