(* ===== verification/Client_Calls.thy ===== *)
theory Client_Calls
  imports IO_Server Tstd_Strings Clock_Server
begin

text \<open>
  The calls of the clients of the clock and I/O servers, \<open>lib/codes.c\<close>: each sends one message and
  turns the answer into its result. \<open>snt\<close> is what \<open>Send\<close> returns, and the reply is an argument;
  \<open>reply_size\<close> is \<open>sizeof(message)\<close>. \<open>None\<close> is a failed assertion or undefined behaviour.
\<close>

section \<open>Time and characters\<close>

definition TRAIN :: int where "TRAIN = 1"
definition TERMINAL :: int where "TERMINAL = 0"

definition Time :: "int \<Rightarrow> int \<Rightarrow> int \<Rightarrow> clock_message \<times> int" where
  "Time reply_size snt reply_time_ticks = (CLOCK_TIME, if snt = reply_size then reply_time_ticks else -1)"

definition delay_result :: "int \<Rightarrow> clock_reply \<Rightarrow> int option" where
  "delay_result snt reply =
     (if snt \<ge> 0 then do {
        guard_opt (reply = REPLY_CLOCK_SERVER_OK \<or> reply = REPLY_CLOCK_SERVER_ERROR);
        Some (if reply = REPLY_CLOCK_SERVER_ERROR then -2 else 0)
      }
      else Some (-1))"

definition Delay :: "int \<Rightarrow> int \<Rightarrow> clock_reply \<Rightarrow> (clock_message \<times> int) option" where
  "Delay ticks snt reply = map_option (\<lambda>r. (CLOCK_DELAY ticks, r)) (delay_result snt reply)"

definition DelayUntil :: "int \<Rightarrow> int \<Rightarrow> clock_reply \<Rightarrow> (clock_message \<times> int) option" where
  "DelayUntil ticks snt reply = map_option (\<lambda>r. (CLOCK_DELAY_UNTIL ticks, r)) (delay_result snt reply)"

definition Putc :: "int \<Rightarrow> u8 \<Rightarrow> int \<Rightarrow> (tx_message \<times> int) option" where
  "Putc uart ch snt = do {
     guard_opt (uart = TRAIN \<or> uart = TERMINAL);
     Some (TX_PUTC ch, if snt = 0 then 0 else -1)
   }"

text \<open>\<open>reply\<close> is the character of a \<open>REPLY_GETC\<close>, \<open>None\<close> any other answer.\<close>

definition Getc :: "int \<Rightarrow> int \<Rightarrow> int \<Rightarrow> u8 option \<Rightarrow> (rx_message \<times> int) option" where
  "Getc uart my_tid snt reply = do {
     guard_opt (uart = TRAIN \<or> uart = TERMINAL);
     r \<leftarrow> (if snt \<ge> 0 then do { c \<leftarrow> reply; Some (uint c) } else Some (-1));
     Some (RX_GETC my_tid, r)
   }"

section \<open>Printing\<close>

definition PRINTF_MESSAGE_BUFFER_SIZE :: nat where "PRINTF_MESSAGE_BUFFER_SIZE = 256"

datatype printf_arg = ARG_CHAR u8 | ARG_STRING chars | ARG_UNSIGNED u32 | ARG_INT int

text \<open>The output buffer and the index of the next character, which \<open>PUT\<close> keeps inside.\<close>

type_synonym printf_out = "chars \<times> nat"

definition PUT :: "printf_out \<Rightarrow> u8 \<Rightarrow> printf_out option" where
  "PUT = (\<lambda>(out, i) c. if i < PRINTF_MESSAGE_BUFFER_SIZE
     then do { out' \<leftarrow> array_set out i c; Some (out', i + 1) } else Some (out, i))"

fun printf_putw :: "printf_out \<Rightarrow> chars \<Rightarrow> printf_out option" where
  "printf_putw out [] = None"
| "printf_putw out (ch # bf) =
     (if ch = 0 then Some out else do { out' \<leftarrow> PUT out ch; printf_putw out' bf })"

text \<open>The number formats, through the local array of 12 characters.\<close>

definition number_text :: "chars option \<Rightarrow> chars option" where
  "number_text r = do { bf \<leftarrow> r; guard_opt (length bf \<le> 12); Some bf }"

fun printf_format :: "printf_out \<Rightarrow> chars \<Rightarrow> printf_arg list \<Rightarrow> printf_out option" where
  "printf_format out [] va = None"
| "printf_format out (ch # fmt) va =
     (if ch = 0 then Some out
      else if ch \<noteq> 37 then do { out' \<leftarrow> PUT out ch; printf_format out' fmt va }
      else case fmt of
        [] \<Rightarrow> None
      | ch # fmt \<Rightarrow>
          if ch = 0 then Some out
          else if ch = 99 then (case va of
              ARG_CHAR c # va \<Rightarrow> do { out' \<leftarrow> PUT out c; printf_format out' fmt va }
            | _ \<Rightarrow> None)
          else if ch = 115 then (case va of
              ARG_STRING s # va \<Rightarrow> do { out' \<leftarrow> printf_putw out s; printf_format out' fmt va }
            | _ \<Rightarrow> None)
          else if ch = 117 then (case va of
              ARG_UNSIGNED n # va \<Rightarrow> do {
                bf \<leftarrow> number_text (ui2a (unat n) 10);
                out' \<leftarrow> printf_putw out bf;
                printf_format out' fmt va
              }
            | _ \<Rightarrow> None)
          else if ch = 100 then (case va of
              ARG_INT n # va \<Rightarrow> do {
                bf \<leftarrow> number_text (i2a n);
                out' \<leftarrow> printf_putw out bf;
                printf_format out' fmt va
              }
            | _ \<Rightarrow> None)
          else if ch = 120 then (case va of
              ARG_UNSIGNED n # va \<Rightarrow> do {
                bf \<leftarrow> number_text (ui2a (unat n) 16);
                out' \<leftarrow> printf_putw out bf;
                printf_format out' fmt va
              }
            | _ \<Rightarrow> None)
          else if ch = 37 then do { out' \<leftarrow> PUT out ch; printf_format out' fmt va }
          else printf_format out fmt va)"

definition PutBytes :: "chars \<Rightarrow> nat \<Rightarrow> int \<Rightarrow> (tx_message \<times> int) option" where
  "PutBytes bytes bytes_size snt = do {
     guard_opt (bytes_size \<le> length bytes);
     Some (TX_PRINTF (take bytes_size bytes), if snt = 0 then 0 else -1)
   }"

text \<open>\<open>buf\<close> is the uninitialised local array; a text that does not fit is not sent at all.\<close>

definition Printf :: "chars \<Rightarrow> chars \<Rightarrow> printf_arg list \<Rightarrow> int \<Rightarrow> (tx_message list \<times> int) option" where
  "Printf buf fmt va snt = do {
     (out, i) \<leftarrow> printf_format (buf, 0) fmt va;
     if i \<ge> PRINTF_MESSAGE_BUFFER_SIZE then Some ([], -2)
     else do { (m, r) \<leftarrow> PutBytes out i snt; Some ([m], r) }
   }"

section \<open>The text of a format\<close>

text \<open>What a format stands for, without a buffer.\<close>

fun c_string :: "chars \<Rightarrow> chars option" where
  "c_string [] = None"
| "c_string (c # cs) = (if c = 0 then Some [] else map_option (\<lambda>s. c # s) (c_string cs))"

fun format_text :: "chars \<Rightarrow> printf_arg list \<Rightarrow> chars option" where
  "format_text [] va = None"
| "format_text (ch # fmt) va =
     (if ch = 0 then Some []
      else if ch \<noteq> 37 then map_option (\<lambda>s. ch # s) (format_text fmt va)
      else case fmt of
        [] \<Rightarrow> None
      | ch # fmt \<Rightarrow>
          if ch = 0 then Some []
          else if ch = 37 then map_option (\<lambda>s. ch # s) (format_text fmt va)
          else if ch \<notin> {99, 115, 117, 100, 120} then format_text fmt va
          else case va of [] \<Rightarrow> None | a # va \<Rightarrow> do {
            w \<leftarrow> (case a of
                ARG_CHAR c \<Rightarrow> if ch = 99 then Some [c] else None
              | ARG_STRING s \<Rightarrow> if ch = 115 then c_string s else None
              | ARG_UNSIGNED n \<Rightarrow>
                  if ch = 117 then Option.bind (number_text (ui2a (unat n) 10)) c_string
                  else if ch = 120 then Option.bind (number_text (ui2a (unat n) 16)) c_string else None
              | ARG_INT n \<Rightarrow> if ch = 100 then Option.bind (number_text (i2a n)) c_string else None);
            map_option (\<lambda>s. w @ s) (format_text fmt va)
          })"

text \<open>The buffer after a text has been put into it: as much of it as fits, and nothing else changed.\<close>

definition put_text :: "printf_out \<Rightarrow> chars \<Rightarrow> printf_out" where
  "put_text = (\<lambda>(out, i) s. let s' = take (PRINTF_MESSAGE_BUFFER_SIZE - i) s
     in (take i out @ s' @ drop (i + length s') out, i + length s'))"

definition out_ok :: "printf_out \<Rightarrow> bool" where
  "out_ok = (\<lambda>(out, i). length out = PRINTF_MESSAGE_BUFFER_SIZE \<and> i \<le> PRINTF_MESSAGE_BUFFER_SIZE)"

lemma put_text_Nil [simp]: "put_text o1 [] = o1"
  by (cases o1) (simp add: put_text_def)

lemma PUT_put_text:
  assumes "out_ok o1"
  shows "PUT o1 c = Some (put_text o1 [c])"
  using assms by (cases o1) (auto simp: PUT_def put_text_def out_ok_def upd_conv_take_nth_drop Let_def)

lemma out_ok_put_text: "out_ok o1 \<Longrightarrow> out_ok (put_text o1 s)"
  by (cases o1) (auto simp: put_text_def out_ok_def Let_def)

lemma put_text_append:
  assumes "out_ok o1"
  shows "put_text (put_text o1 s) t = put_text o1 (s @ t)"
proof -
  obtain out i where o1: "o1 = (out, i)" by (cases o1)
  then have "length out = PRINTF_MESSAGE_BUFFER_SIZE" "i \<le> PRINTF_MESSAGE_BUFFER_SIZE" using assms by (simp_all add: out_ok_def)
  then show ?thesis using o1 by (cases "length s \<le> PRINTF_MESSAGE_BUFFER_SIZE - i") (auto simp: put_text_def Let_def min_def ac_simps)
qed

lemma printf_putw_text:
  "out_ok o1 \<Longrightarrow> printf_putw o1 bf = map_option (put_text o1) (c_string bf)"
proof (induction bf arbitrary: o1)
  case (Cons c bf)
  then show ?case using Cons.IH [of "put_text o1 [c]"]
    by (auto simp: PUT_put_text out_ok_put_text put_text_append option.map_comp comp_def)
qed simp

lemma put_text_then:
  "out_ok o1 \<Longrightarrow> map_option (put_text (put_text o1 w)) r = map_option (put_text o1) (map_option (\<lambda>s. w @ s) r)"
  by (cases r) (simp_all add: put_text_append)

lemma bind_map_option: "Option.bind (map_option f x) g = Option.bind x (\<lambda>y. g (f y))"
  by (cases x) simp_all

lemma printf_format_text:
  "out_ok o1 \<Longrightarrow> printf_format o1 fmt va = map_option (put_text o1) (format_text fmt va)"
proof (induction fmt arbitrary: o1 va rule: length_induct)
  case (1 fmt)
  note ok = 1(2)
  have word: "printf_format (put_text o1 w) fmt' va' = map_option (put_text o1) (map_option (\<lambda>s. w @ s) (format_text fmt' va'))"
    if "length fmt' < length fmt" for w fmt' va'
    using 1(1) [rule_format, OF that out_ok_put_text [OF ok]] put_text_then [OF ok] by simp
  have word0: "printf_format o1 fmt' va' = map_option (put_text o1) (format_text fmt' va')"
    if "length fmt' < length fmt" for fmt' va'
    by (rule 1(1) [rule_format, OF that ok])
  show ?case
  proof (cases fmt)
    case Nil
    then show ?thesis by simp
  next
    case (Cons ch fmt1)
    show ?thesis
    proof (cases "ch = 37")
      case False
      then show ?thesis using Cons word [of fmt1 "[ch]"] ok by (simp add: PUT_put_text)
    next
      case True
      show ?thesis
      proof (cases fmt1)
        case Nil
        then show ?thesis using Cons True by simp
      next
        case fmt1: (Cons d fmt2)
        have len: "length fmt2 < length fmt" using Cons fmt1 by simp
        note steps = Cons True fmt1 ok PUT_put_text printf_putw_text word [OF len] word0 [OF len]
        show ?thesis
        proof (cases "d \<in> {99, 115, 117, 100, 120}")
          case False
          then show ?thesis by (simp add: steps)
        next
          case d: True
          show ?thesis
          proof (cases va)
            case Nil
            then show ?thesis using d by (auto simp: steps)
          next
            case (Cons a va2)
            then show ?thesis using d
              by (cases a) (auto simp: steps bind_map_option option.map_comp comp_def Option.map_conv_bind_option
                  split: bind_splits)
          qed
        qed
      qed
    qed
  qed
qed

section \<open>Properties\<close>

text \<open>
  The doc of \<open>printf_putw\<close> says the index never reaches \<open>PRINTF_MESSAGE_BUFFER_SIZE\<close>; it does,
  and \<open>Printf\<close> takes that as the sign of a text that is too long. So 255 characters are the longest text.
\<close>

lemma put_text_index: "out_ok (out, i) \<Longrightarrow> snd (put_text (out, i) s) = min PRINTF_MESSAGE_BUFFER_SIZE (i + length s)"
  by (auto simp: put_text_def out_ok_def Let_def min_def)

text \<open>
  C24: \<open>printf_format\<close> writes the text of its format, cut off at the end of the buffer, and nothing
  outside the buffer; \<open>Printf\<close> sends the whole text to the server in one message, or, when it has 256
  characters or more, nothing, and returns -2.
\<close>

theorem printf_sends_text:
  assumes "length buf = PRINTF_MESSAGE_BUFFER_SIZE" "format_text fmt va = Some txt"
  shows "printf_format (buf, 0) fmt va =
      Some (take 256 txt @ drop (length txt) buf, min 256 (length txt)) \<and>
    Printf buf fmt va snt =
      (if length txt < 256 then Some ([TX_PRINTF txt], if snt = 0 then 0 else -1) else Some ([], -2))"
proof -
  have ok: "out_ok (buf, 0)" using assms(1) by (simp add: out_ok_def)
  have l: "length buf = 256" using assms(1) by (simp add: PRINTF_MESSAGE_BUFFER_SIZE_def)
  have "put_text (buf, 0) txt = (take 256 txt @ drop (length txt) buf, min 256 (length txt))"
    using l by (auto simp: put_text_def PRINTF_MESSAGE_BUFFER_SIZE_def Let_def min_def)
  with printf_format_text [OF ok, of fmt va] assms(2)
  have f: "printf_format (buf, 0) fmt va = Some (take 256 txt @ drop (length txt) buf, min 256 (length txt))"
    by simp
  moreover have "Printf buf fmt va snt =
      (if length txt < 256 then Some ([TX_PRINTF txt], if snt = 0 then 0 else -1) else Some ([], -2))"
    using l by (auto simp: Printf_def f PutBytes_def PRINTF_MESSAGE_BUFFER_SIZE_def min_def)
  ultimately show ?thesis by blast
qed

theorem printf_sends_text_witness:
  "\<exists>bf. format_text [116, 37, 99, 37, 37, 0] [ARG_CHAR 55] = Some [116, 55, 37] \<and>
    Printf (replicate 256 0) [116, 37, 99, 37, 37, 0] [ARG_CHAR 55] 0 = Some ([TX_PRINTF bf], 0) \<and> bf = [116, 55, 37]"
proof -
  have "format_text [116, 37, 99, 37, 37, 0] [ARG_CHAR 55] = Some [116, 55, 37]" by simp
  from printf_sends_text [OF _ this, of "replicate 256 0" 0] show ?thesis
    by (simp add: PRINTF_MESSAGE_BUFFER_SIZE_def)
qed

end
