(* ===== verification/Track_State.thy ===== *)
theory Track_State
  imports Track_Data
begin

text \<open>
  The global state of the track: \<open>init_track\<close> of \<open>lib/track/track_data.c\<close> with the calibration tables,
  \<open>setup_default_map\<close> of \<open>lib/track/model.c\<close>, and the track state controller,
  \<open>usr/train/track_state_controller.c\<close>, in the lab build (track B). \<open>None\<close> is a failed \<open>Assert\<close>, an
  access outside an array or a division by zero.
\<close>

section \<open>The calibration tables\<close>

text \<open>Train, speed, value; 1337 three times ends a table.\<close>

type_synonym default_value = "int \<times> int \<times> u32"

definition default_speeds :: "default_value list" where
  "default_speeds = [
     (24, 0, 0), (24, 1, 1073), (24, 2, 2332), (24, 3, 3780), (24, 4, 4448),
     (24, 5, 8308), (24, 6, 11652), (24, 7, 16502), (24, 8, 22005), (24, 9, 30495),
     (24, 10, 37865), (24, 11, 44705), (24, 12, 50547), (24, 13, 56677), (24, 14, 57087),
     (58, 0, 0), (58, 1, 998), (58, 2, 5796), (58, 3, 8682), (58, 4, 12579),
     (58, 5, 13143), (58, 6, 15460), (58, 7, 19906), (58, 8, 22789), (58, 9, 28110),
     (58, 10, 33068), (58, 11, 40838), (58, 12, 47287), (58, 13, 50212), (58, 14, 57506),
     (74, 0, 0), (74, 1, 923), (74, 2, 7225), (74, 3, 12462), (74, 4, 17220),
     (74, 5, 21784), (74, 6, 26735), (74, 7, 33404), (74, 8, 36291), (74, 9, 43451),
     (74, 10, 47980), (74, 11, 54109), (74, 12, 57767), (74, 13, 62513), (74, 14, 65192),
     (77, 0, 0), (77, 1, 688), (77, 2, 4000), (77, 3, 5992), (77, 4, 7639),
     (77, 5, 12443), (77, 6, 17124), (77, 7, 22363), (77, 8, 27409), (77, 9, 33549),
     (77, 10, 36891), (77, 11, 47035), (77, 12, 54329), (77, 13, 61487), (77, 14, 70099),
     (78, 0, 0), (78, 1, 885), (78, 2, 2468), (78, 3, 4824), (78, 4, 5961),
     (78, 5, 8010), (78, 6, 11586), (78, 7, 16060), (78, 8, 20189), (78, 9, 24750),
     (78, 10, 28762), (78, 11, 34951), (78, 12, 40057), (78, 13, 47599), (78, 14, 49394),
     (79, 0, 0), (79, 1, 824), (79, 2, 4938), (79, 3, 7174), (79, 4, 10395),
     (79, 5, 14949), (79, 6, 17371), (79, 7, 23388), (79, 8, 27888), (79, 9, 34001),
     (79, 10, 40884), (79, 11, 50210), (79, 12, 58437), (79, 13, 63219), (79, 14, 66973),
     (1337, 1337, 1337)]"

definition super_default_speeds :: "u32 list" where
  "super_default_speeds = [0, 998, 5796, 8682, 12579, 17143, 20990, 27078, 30644, 37350, 40932, 46895, 51378, 57346, 60097]"

definition default_stopping_distances :: "default_value list" where
  "default_stopping_distances = [
     (24, 0, 0), (24, 1, 110), (24, 2, 350), (24, 3, 740), (24, 4, 1960),
     (24, 5, 3980), (24, 6, 7811), (24, 7, 13540), (24, 8, 20840), (24, 9, 30976),
     (24, 10, 44390), (24, 11, 60910), (24, 12, 83435), (24, 13, 106430), (24, 14, 140575),
     (58, 0, 0), (58, 1, 110), (58, 2, 350), (58, 3, 740), (58, 4, 1960),
     (58, 5, 3980), (58, 6, 7440), (58, 7, 12790), (58, 8, 20090), (58, 9, 30670),
     (58, 10, 42816), (58, 11, 55683), (58, 12, 74089), (58, 13, 93892), (58, 14, 143575),
     (74, 0, 0), (74, 1, 110), (74, 2, 350), (74, 3, 740), (74, 4, 1960),
     (74, 5, 3980), (74, 6, 7440), (74, 7, 12790), (74, 8, 20090), (74, 9, 30670),
     (74, 10, 43640), (74, 11, 60160), (74, 12, 80220), (74, 13, 102330), (74, 14, 142342),
     (77, 14, 131032), (78, 0, 0), (78, 1, 75), (78, 2, 200), (78, 3, 450),
     (78, 4, 1500), (78, 5, 3000), (78, 6, 6000), (78, 7, 10000), (78, 8, 15000),
     (78, 9, 22500), (78, 10, 35000), (78, 11, 45000), (78, 12, 60000), (78, 13, 73926),
     (78, 14, 99245), (78, 14, 137155), (1337, 1337, 1337)]"

definition super_default_stopping_distances :: "u32 list" where
  "super_default_stopping_distances = [0, 110, 350, 740, 1960, 3980, 7563, 13040, 20340, 30772, 43890, 60410, 78498, 100917, 139302]"

definition default_stopping_times :: "default_value list" where
  "default_stopping_times = [
     (24, 0, 0), (24, 1, 0), (24, 2, 0), (24, 3, 0), (24, 4, 0),
     (24, 5, 0), (24, 6, 560000), (24, 7, 1043000), (24, 8, 1352600), (24, 9, 1796000),
     (24, 10, 1429400), (24, 11, 2261600), (24, 12, 2517987), (24, 13, 3279754), (24, 14, 3430256),
     (58, 0, 0), (58, 1, 0), (58, 2, 0), (58, 3, 0), (58, 4, 0),
     (58, 5, 0), (58, 6, 0), (58, 7, 0), (58, 8, 0), (58, 9, 0),
     (58, 10, 0), (58, 11, 0), (58, 12, 2382025), (58, 13, 3196000), (58, 14, 3344723),
     (74, 0, 0), (74, 1, 0), (74, 2, 0), (74, 3, 0), (74, 4, 0),
     (74, 5, 0), (74, 6, 0), (74, 7, 0), (74, 8, 0), (74, 9, 0),
     (74, 10, 0), (74, 11, 0), (74, 12, 0), (74, 13, 0), (74, 14, 0),
     (1337, 1337, 1337)]"

definition super_default_stopping_times :: "u32 list" where
  "super_default_stopping_times = [0, 0, 0, 0, 0, 0, 560000, 1043000, 1352600, 1796000, 1429400, 2261600, 2613993, 3372877, 3362489]"

section \<open>The models\<close>

type_synonym model = "u32 list list"

definition is_guard :: "default_value \<Rightarrow> bool" where
  "is_guard d \<longleftrightarrow> d = (1337, 1337, 1337)"

fun setup_default_loop :: "model \<Rightarrow> default_value list \<Rightarrow> model option" where
  "setup_default_loop m [] = None"
| "setup_default_loop m ((t, s, v) # rest) =
     (if is_guard (t, s, v) then Some m
      else do {
        guard_opt (t \<ge> 1 \<and> t \<le> 81);
        guard_opt (s \<ge> 0 \<and> s \<le> 14);
        row \<leftarrow> array_get m (nat t);
        row' \<leftarrow> array_set row (nat s) v;
        m' \<leftarrow> array_set m (nat t) row';
        setup_default_loop m' rest
      })"

definition setup_default_map :: "default_value list \<Rightarrow> u32 list \<Rightarrow> model option" where
  "setup_default_map defaults super_defaults = do {
     row \<leftarrow> (if length super_defaults < 15 then None else Some (take 15 super_defaults));
     setup_default_loop (replicate 81 row) defaults
   }"

record train_data =
  td_train :: u8
  td_direction :: bool
  td_should_speed :: int
  td_headlights :: bool
  td_last_speed :: int
  td_time_speed_last_changed :: int

record track_state =
  ts_turnouts :: "turnout_state list"
  ts_train :: "train_data list"
  ts_track :: track
  ts_tracka :: track
  ts_trackb :: track
  ts_nodes :: nat
  ts_speed_to_velocity :: model
  ts_stopping_distance :: model
  ts_stopping_time_mus :: model
  ts_last_switch_time :: "int list"

definition init_train :: "train_data \<Rightarrow> train_data" where
  "init_train d = d\<lparr>td_direction := True, td_should_speed := 0, td_headlights := False,
     td_last_speed := 0, td_time_speed_last_changed := 0\<rparr>"

definition TRACKB_SIZE :: nat where "TRACKB_SIZE = 140"

text \<open>\<open>init_track\<close>; of the old content of the struct only \<open>train[i].train\<close> survives.\<close>

definition init_track :: "track_state \<Rightarrow> track_state option" where
  "init_track s = do {
     trackb \<leftarrow> init_track_b;
     guard_opt (length (ts_train s) = 81);
     velocity \<leftarrow> setup_default_map default_speeds super_default_speeds;
     distance \<leftarrow> setup_default_map default_stopping_distances super_default_stopping_distances;
     time \<leftarrow> setup_default_map default_stopping_times super_default_stopping_times;
     Some \<lparr>ts_turnouts = replicate NUM_TURNOUTS TURNOUT_UNKNOWN, ts_train = map init_train (ts_train s),
       ts_track = trackb, ts_tracka = init_tracka, ts_trackb = trackb, ts_nodes = TRACKB_SIZE,
       ts_speed_to_velocity = velocity, ts_stopping_distance = distance, ts_stopping_time_mus = time,
       ts_last_switch_time = replicate NUM_TURNOUTS 0\<rparr>
   }"

section \<open>What the tables make\<close>

fun table_row :: "default_value list \<Rightarrow> nat \<Rightarrow> u32 list \<Rightarrow> u32 list" where
  "table_row [] t row = row"
| "table_row ((t', s, v) # ds) t row = table_row ds t (if t' = int t then row[nat s := v] else row)"

definition entry_ok :: "default_value \<Rightarrow> bool" where
  "entry_ok d \<longleftrightarrow> (case d of (t, s, v) \<Rightarrow> 1 \<le> t \<and> t \<le> 80 \<and> 0 \<le> s \<and> s \<le> 14)"

lemma setup_default_loop_rows:
  "list_all entry_ok ds \<Longrightarrow> length m = 81 \<Longrightarrow> \<forall>row \<in> set m. length row = 15 \<Longrightarrow>
   \<exists>m'. setup_default_loop m (ds @ [(1337, 1337, 1337)]) = Some m' \<and> length m' = 81 \<and>
     (\<forall>t < 81. m' ! t = table_row ds t (m ! t))"
proof (induction ds arbitrary: m)
  case Nil
  then show ?case by (simp add: is_guard_def)
next
  case (Cons d ds)
  obtain t s v where d: "d = (t, s, v)" by (cases d) auto
  have r: "1 \<le> t" "t \<le> 80" "0 \<le> s" "s \<le> 14" using Cons.prems(1) by (auto simp: d entry_ok_def)
  let ?m = "m[nat t := (m ! nat t)[nat s := v]]"
  have lt: "nat t < length m" using r Cons.prems(2) by auto
  then have ls: "nat s < length (m ! nat t)" using r Cons.prems(3) by auto
  have "\<forall>row \<in> set ?m. length row = 15"
  proof
    fix row assume "row \<in> set ?m"
    then have "row = (m ! nat t)[nat s := v] \<or> row \<in> set m"
      using set_update_subset_insert [of m "nat t"] by fastforce
    then show "length row = 15" using Cons.prems(3) lt by auto
  qed
  then obtain m' where m': "setup_default_loop ?m (ds @ [(1337, 1337, 1337)]) = Some m'" "length m' = 81"
    "\<forall>t < 81. m' ! t = table_row ds t (?m ! t)"
    using Cons.IH [of ?m] Cons.prems by auto
  have "?m ! k = (if t = int k then (m ! k)[nat s := v] else m ! k)" if "k < 81" for k
    using that lt r by (auto simp: nth_list_update)
  then have "\<forall>k < 81. m' ! k = table_row (d # ds) k (m ! k)" using m'(3) by (auto simp: d)
  moreover have "\<not> is_guard (t, s, v)" using r by (simp add: is_guard_def)
  ultimately show ?case using m'(1,2) r lt ls by (intro exI [of _ m']) (simp add: d)
qed

definition model_ok :: "u32 list \<Rightarrow> bool" where
  "model_ok row \<longleftrightarrow> length row = 15 \<and> hd row = 0 \<and> sorted row"

lemma table_row_other: "\<forall>d \<in> set ds. fst d \<noteq> int t \<Longrightarrow> table_row ds t row = row"
  by (induction ds arbitrary: row) auto

lemma setup_default_map_rows:
  assumes d: "d = ds @ [(1337, 1337, 1337)]" "list_all entry_ok ds" and sup: "length super = 15"
    and ok: "P super" "\<And>t. int t \<in> fst ` set ds \<Longrightarrow> P (table_row ds t super)"
  shows "\<exists>m. setup_default_map d super = Some m \<and> length m = 81 \<and> (\<forall>t < 81. P (m ! t))"
proof -
  have "length (replicate 81 super) = 81" by simp
  then obtain m where m: "setup_default_loop (replicate 81 super) d = Some m" "length m = 81"
    "\<forall>t < 81. m ! t = table_row ds t (replicate 81 super ! t)"
    using setup_default_loop_rows [OF d(2), of "replicate 81 super"] sup d(1) by auto
  have "P (m ! t)" if "t < 81" for t
  proof (cases "int t \<in> fst ` set ds")
    case False
    then have "table_row ds t super = super" by (intro table_row_other) force
    then show ?thesis using m(3) that ok(1) by simp
  qed (use m(3) that ok(2) in simp)
  then show ?thesis using m(1,2) sup by (simp add: setup_default_map_def)
qed

lemma velocity_models:
  "\<exists>m. setup_default_map default_speeds super_default_speeds = Some m \<and> length m = 81 \<and> 
    (\<forall>t < 81. model_ok (m ! t) \<and> last (m ! t) < 150000)"
proof (rule setup_default_map_rows)
  show "default_speeds = butlast default_speeds @ [(1337, 1337, 1337)]" by (simp add: default_speeds_def)
  show "list_all entry_ok (butlast default_speeds)" by (simp add: default_speeds_def entry_ok_def)
  show "length super_default_speeds = 15" by (simp add: super_default_speeds_def)
  show "model_ok super_default_speeds \<and> last super_default_speeds < 150000" by (simp add: super_default_speeds_def model_ok_def)
  fix t assume "int t \<in> fst ` set (butlast default_speeds)"
  then have "t = 24 \<or> t = 58 \<or> t = 74 \<or> t = 77 \<or> t = 78 \<or> t = 79" by (auto simp: default_speeds_def)
  then show "model_ok (table_row (butlast default_speeds) t super_default_speeds) \<and>
      last (table_row (butlast default_speeds) t super_default_speeds) < 150000"
    by (elim disjE) (simp_all add: default_speeds_def super_default_speeds_def model_ok_def)
qed

lemma distance_models:
  "\<exists>m. setup_default_map default_stopping_distances super_default_stopping_distances = Some m \<and> length m = 81 \<and>
    (\<forall>t < 81. model_ok (m ! t) \<and> last (m ! t) < 200000)"
proof (rule setup_default_map_rows)
  show "default_stopping_distances = butlast default_stopping_distances @ [(1337, 1337, 1337)]"
    by (simp add: default_stopping_distances_def)
  show "list_all entry_ok (butlast default_stopping_distances)"
    by (simp add: default_stopping_distances_def entry_ok_def)
  show "length super_default_stopping_distances = 15" by (simp add: super_default_stopping_distances_def)
  show "model_ok super_default_stopping_distances \<and> last super_default_stopping_distances < 200000"
    by (simp add: super_default_stopping_distances_def model_ok_def)
  fix t assume "int t \<in> fst ` set (butlast default_stopping_distances)"
  then have "t = 24 \<or> t = 58 \<or> t = 74 \<or> t = 77 \<or> t = 78" by (auto simp: default_stopping_distances_def)
  then show "model_ok (table_row (butlast default_stopping_distances) t super_default_stopping_distances) \<and>
      last (table_row (butlast default_stopping_distances) t super_default_stopping_distances) < 200000"
    by (elim disjE) (simp_all add: default_stopping_distances_def super_default_stopping_distances_def model_ok_def)
qed

lemma time_models:
  "\<exists>m. setup_default_map default_stopping_times super_default_stopping_times = Some m \<and> length m = 81 \<and>
    (\<forall>t < 81. length (m ! t) = 15 \<and> (\<forall>v \<in> set (m ! t). v < 10000000))"
proof (rule setup_default_map_rows)
  show "default_stopping_times = butlast default_stopping_times @ [(1337, 1337, 1337)]"
    by (simp add: default_stopping_times_def)
  show "list_all entry_ok (butlast default_stopping_times)"
    by (simp add: default_stopping_times_def entry_ok_def)
  show "length super_default_stopping_times = 15" by (simp add: super_default_stopping_times_def)
  show "length super_default_stopping_times = 15 \<and> (\<forall>v \<in> set super_default_stopping_times. v < 10000000)"
    by (simp add: super_default_stopping_times_def)
  fix t assume "int t \<in> fst ` set (butlast default_stopping_times)"
  then have "t = 24 \<or> t = 58 \<or> t = 74" by (auto simp: default_stopping_times_def)
  then show "length (table_row (butlast default_stopping_times) t super_default_stopping_times) = 15 \<and>
      (\<forall>v \<in> set (table_row (butlast default_stopping_times) t super_default_stopping_times). v < 10000000)"
    by (elim disjE) (simp_all add: default_stopping_times_def super_default_stopping_times_def)
qed

end
