(* ===== verification/Track_Controller.thy ===== *)
theory Track_Controller
  imports Track_State Track_Graph
begin

text \<open>
  The track state controller, \<open>usr/train/track_state_controller.c\<close>. One message is one step; its
  events are the replies and the messages sent on to the train coordinates server, in order.
  \<open>clk\<close> gives the readings of the clock the step takes, \<open>res\<close> and \<open>snt\<close> what \<open>Reply\<close> and \<open>Send\<close>
  return where the code asserts on it. \<open>None\<close> is a failed \<open>Assert\<close> or an access outside an array.
\<close>

text \<open>The messages of the train coordinates server.\<close>

datatype coords_message =
    UPDATE_COORDS_SPEED train_data "u32 list" "u32 list"
  | UPDATE_COORDS_REVERSE int
  | UPDATE_COORDS_SENSOR int u32 int
  | FORWARD_TURNOUT_STATES "turnout_state list"
  | GET_COORDINATES int

datatype tsc_message =
    SENSORSRECEIVED "int list"
  | GETTRAIN int
  | GETSENSORS
  | GETTURNOUTS
  | TRAINSETDIRECTION int bool
  | TRAINSETSPEED int int bool
  | TRAINREVERSED int bool
  | TURNOUTSWITCHED u32 turnout_state
  | GETCONSTANTSPEEDMODEL int
  | UPDATECONSTANTSPEEDMODEL int int u32 u32 int
  | GETSTOPPINGDISTANCEMODEL int
  | UPDATESTOPPINGDISTANCEMODEL int int u32
  | GETSTOPPINGTIMEMODEL int
  | UPDATESTOPPINGTIMEMODEL int int u32
  | REQUEST_COORD_UPDATE int
  | TSC_OTHER

datatype tsc_reply =
    TSC_EMPTY
  | REPLY_GETTRAIN bool int bool int int
  | REPLY_GETSENSORS "int list"
  | REPLY_GETTURNOUTS "turnout_state list"
  | REPLY_MODEL "u32 list"

datatype tsc_event = TSC_REPLY tsc_reply | TSC_SEND coords_message

record controller =
  tc_state :: track_state
  tc_sensors :: "int list"

definition DEFINITE_MAX_CM_PER_SEC :: u32 where "DEFINITE_MAX_CM_PER_SEC = 150"

section \<open>Steps\<close>

text \<open>What goes to the coordinates server after a change of speed; \<open>now\<close> is the time read.\<close>

definition track_controller_update_coordinates :: "track_state \<Rightarrow> int \<Rightarrow> int \<Rightarrow> coords_message option" where
  "track_controller_update_coordinates s train now = do {
     guard_opt (train \<ge> 0);
     d \<leftarrow> array_get (ts_train s) (nat train);
     v \<leftarrow> array_get (ts_speed_to_velocity s) (nat train);
     sd \<leftarrow> array_get (ts_stopping_distance s) (nat train);
     Some (UPDATE_COORDS_SPEED (d\<lparr>td_train := of_int train, td_time_speed_last_changed := now\<rparr>) v sd)
   }"

text \<open>A new measurement enters a model: taken as it is at first, then with weight 1/10.\<close>

definition blend_value :: "u32 \<Rightarrow> u32 \<Rightarrow> u32" where
  "blend_value old v = (if old = 0 then v else (old * 9 + v) div 10)"

definition update_model :: "model \<Rightarrow> int \<Rightarrow> int \<Rightarrow> u32 \<Rightarrow> model option" where
  "update_model m t s v = do {
     row \<leftarrow> array_get m (nat t);
     old \<leftarrow> array_get row (nat s);
     row' \<leftarrow> array_set row (nat s) (blend_value old v);
     array_set m (nat t) row'
   }"

abbreviation train_index :: "int \<Rightarrow> bool" where
  "train_index t \<equiv> 1 \<le> t \<and> t \<le> 80"

abbreviation speed_index :: "int \<Rightarrow> bool" where
  "speed_index s \<equiv> 0 \<le> s \<and> s \<le> 14"

definition set_train :: "track_state \<Rightarrow> int \<Rightarrow> (train_data \<Rightarrow> train_data) \<Rightarrow> track_state option" where
  "set_train s train f = do {
     guard_opt (train \<ge> 0);
     d \<leftarrow> array_get (ts_train s) (nat train);
     ds \<leftarrow> array_set (ts_train s) (nat train) (f d);
     Some (s\<lparr>ts_train := ds\<rparr>)
   }"

definition controller_init :: "track_state \<Rightarrow> controller option" where
  "controller_init s = do { s' \<leftarrow> init_track s; Some \<lparr>tc_state = s', tc_sensors = replicate 10 0\<rparr> }"

text \<open>The velocity measured between two sensors; unsigned arithmetic throughout.\<close>

definition measured_velocity :: "track_state \<Rightarrow> u32 \<Rightarrow> u32 \<Rightarrow> int \<Rightarrow> u32 option" where
  "measured_velocity s start finish ticks = do {
     a \<leftarrow> find_sensor (ts_track s) (ts_nodes s) start;
     b \<leftarrow> find_sensor (ts_track s) (ts_nodes s) finish;
     distance \<leftarrow> distance_between_track_nodes (ts_track s) (Some a) (Some b);
     if ticks = 0 then do { _ \<leftarrow> sensor_bank start; _ \<leftarrow> sensor_bank finish; Some 0 }
     else Some (of_int distance * 10000 div of_int ticks)
   }"

fun controller_step ::
  "(nat \<Rightarrow> int) \<Rightarrow> int \<Rightarrow> int \<Rightarrow> controller \<Rightarrow> tsc_message \<Rightarrow> (controller \<times> tsc_event list) option" where
  "controller_step clk res snt c (SENSORSRECEIVED sensors) = do {
     guard_opt (length sensors = 10);
     Some (c\<lparr>tc_sensors := sensors\<rparr>, [TSC_REPLY TSC_EMPTY])
   }"
| "controller_step clk res snt c (GETTRAIN train) = do {
     guard_opt (train \<ge> 0 \<and> train \<le> 80);
     d \<leftarrow> array_get (ts_train (tc_state c)) (nat train);
     Some (c, [TSC_REPLY (REPLY_GETTRAIN (td_direction d) (td_should_speed d) (td_headlights d)
       (td_last_speed d) (td_time_speed_last_changed d))])
   }"
| "controller_step clk res snt c GETSENSORS = Some (c, [TSC_REPLY (REPLY_GETSENSORS (tc_sensors c))])"
| "controller_step clk res snt c GETTURNOUTS = do {
     guard_opt (res = 0);
     Some (c, [TSC_REPLY (REPLY_GETTURNOUTS (ts_turnouts (tc_state c)))])
   }"
| "controller_step clk res snt c (TRAINSETDIRECTION train direction) = do {
     s \<leftarrow> set_train (tc_state c) train (\<lambda>d. d\<lparr>td_direction := direction\<rparr>);
     Some (c\<lparr>tc_state := s\<rparr>, [TSC_REPLY TSC_EMPTY])
   }"
| "controller_step clk res snt c (TRAINSETSPEED train speed headlights) = do {
     guard_opt (train \<ge> 0 \<and> train \<le> 80);
     guard_opt (speed_index speed);
     s1 \<leftarrow> set_train (tc_state c) train (\<lambda>d. d\<lparr>td_headlights := headlights\<rparr>);
     d \<leftarrow> array_get (ts_train s1) (nat train);
     if speed \<noteq> td_should_speed d then do {
       s2 \<leftarrow> set_train s1 train (\<lambda>d. d\<lparr>td_last_speed := td_should_speed d, td_should_speed := speed,
         td_time_speed_last_changed := clk 0\<rparr>);
       m \<leftarrow> track_controller_update_coordinates s2 train (clk 1);
       guard_opt (snt = 0);
       Some (c\<lparr>tc_state := s2\<rparr>, [TSC_SEND m, TSC_REPLY TSC_EMPTY])
     }
     else Some (c\<lparr>tc_state := s1\<rparr>, [TSC_REPLY TSC_EMPTY])
   }"
| "controller_step clk res snt c (TRAINREVERSED train direction) = do {
     guard_opt (train \<ge> 0 \<and> train \<le> 80);
     s \<leftarrow> set_train (tc_state c) train (\<lambda>d. d\<lparr>td_direction := direction\<rparr>);
     guard_opt (snt = 0);
     Some (c\<lparr>tc_state := s\<rparr>, [TSC_REPLY TSC_EMPTY, TSC_SEND (UPDATE_COORDS_REVERSE train)])
   }"
| "controller_step clk res snt c (TURNOUTSWITCHED turnout_num state) = do {
     guard_opt (is_valid_turnout_num turnout_num);
     let s = tc_state c;
     ts \<leftarrow> array_set (ts_turnouts s) (unat (turnout_num_to_map_offset turnout_num)) state;
     guard_opt (snt = 0);
     Some (c\<lparr>tc_state := s\<lparr>ts_turnouts := ts\<rparr>\<rparr>,
       [TSC_REPLY TSC_EMPTY, TSC_SEND (FORWARD_TURNOUT_STATES ts)])
   }"
| "controller_step clk res snt c (GETCONSTANTSPEEDMODEL t) = do {
     guard_opt (train_index t);
     row \<leftarrow> array_get (ts_speed_to_velocity (tc_state c)) (nat t);
     Some (c, [TSC_REPLY (REPLY_MODEL row)])
   }"
| "controller_step clk res snt c (UPDATECONSTANTSPEEDMODEL t s start finish ticks) = do {
     velocity \<leftarrow> measured_velocity (tc_state c) start finish ticks;
     guard_opt (res = 0);
     if ticks = 0 then Some (c, [TSC_REPLY TSC_EMPTY])
     else do {
       guard_opt (train_index t);
       guard_opt (speed_index s);
       if velocity \<ge> DEFINITE_MAX_CM_PER_SEC * 10 * 100 then Some (c, [TSC_REPLY TSC_EMPTY])
       else do {
         m \<leftarrow> update_model (ts_speed_to_velocity (tc_state c)) t s velocity;
         Some (c\<lparr>tc_state := (tc_state c)\<lparr>ts_speed_to_velocity := m\<rparr>\<rparr>, [TSC_REPLY TSC_EMPTY])
       }
     }
   }"
| "controller_step clk res snt c (GETSTOPPINGDISTANCEMODEL t) = do {
     guard_opt (train_index t);
     row \<leftarrow> array_get (ts_stopping_distance (tc_state c)) (nat t);
     Some (c, [TSC_REPLY (REPLY_MODEL row)])
   }"
| "controller_step clk res snt c (UPDATESTOPPINGDISTANCEMODEL t s v) = do {
     guard_opt (train_index t);
     guard_opt (speed_index s);
     guard_opt (res = 0);
     if v < 200000 then do {
       m \<leftarrow> update_model (ts_stopping_distance (tc_state c)) t s v;
       Some (c\<lparr>tc_state := (tc_state c)\<lparr>ts_stopping_distance := m\<rparr>\<rparr>, [TSC_REPLY TSC_EMPTY])
     }
     else Some (c, [TSC_REPLY TSC_EMPTY])
   }"
| "controller_step clk res snt c (GETSTOPPINGTIMEMODEL t) = do {
     guard_opt (train_index t);
     row \<leftarrow> array_get (ts_stopping_time_mus (tc_state c)) (nat t);
     Some (c, [TSC_REPLY (REPLY_MODEL row)])
   }"
| "controller_step clk res snt c (UPDATESTOPPINGTIMEMODEL t s v) = do {
     guard_opt (train_index t);
     guard_opt (speed_index s);
     guard_opt (res = 0);
     if v < 1000 * 1000 * 10 then do {
       m \<leftarrow> update_model (ts_stopping_time_mus (tc_state c)) t s v;
       Some (c\<lparr>tc_state := (tc_state c)\<lparr>ts_stopping_time_mus := m\<rparr>\<rparr>, [TSC_REPLY TSC_EMPTY])
     }
     else Some (c, [TSC_REPLY TSC_EMPTY])
   }"
| "controller_step clk res snt c (REQUEST_COORD_UPDATE train) = do {
     m \<leftarrow> track_controller_update_coordinates (tc_state c) train (clk 0);
     guard_opt (snt = 0);
     Some (c, [TSC_REPLY TSC_EMPTY, TSC_SEND m])
   }"
| "controller_step clk res snt c TSC_OTHER = None"

inductive controller_run :: "controller \<Rightarrow> bool" where
  init: "controller_init s = Some c \<Longrightarrow> controller_run c"
| step: "controller_run c \<Longrightarrow> controller_step clk res snt c m = Some (c', ev) \<Longrightarrow> controller_run c'"

section \<open>The invariant\<close>

definition model_bounded :: "u32 \<Rightarrow> model \<Rightarrow> bool" where
  "model_bounded B m \<longleftrightarrow> length m = 81 \<and> (\<forall>row \<in> set m. length row = 15 \<and> (\<forall>v \<in> set row. v < B))"

definition train_ok :: "train_data \<Rightarrow> bool" where
  "train_ok d \<longleftrightarrow> speed_index (td_should_speed d) \<and> speed_index (td_last_speed d)"

definition track_state_ok :: "track_state \<Rightarrow> bool" where
  "track_state_ok s \<longleftrightarrow> length (ts_turnouts s) = NUM_TURNOUTS \<and> length (ts_train s) = 81 \<and>
     (\<forall>d \<in> set (ts_train s). train_ok d) \<and> model_bounded 150000 (ts_speed_to_velocity s) \<and>
     model_bounded 200000 (ts_stopping_distance s) \<and> model_bounded 10000000 (ts_stopping_time_mus s)"

definition controller_inv :: "controller \<Rightarrow> bool" where
  "controller_inv c \<longleftrightarrow> track_state_ok (tc_state c) \<and> length (tc_sensors c) = 10"

lemma blend_value_bound:
  assumes "old < B" "v < B" "unat B \<le> 400000000"
  shows "blend_value old v < B"
proof (cases "old = 0")
  case False
  have l: "unat old < unat B" "unat v < unat B" using assms(1,2) by (simp_all add: word_less_nat_alt)
  then have m: "unat (old * 9) = unat old * 9"
    using assms(3) by (simp add: unat_mult_lem [THEN iffD1])
  then have "unat (old * 9 + v) = unat old * 9 + unat v"
    using l assms(3) by (simp add: unat_add_lem [THEN iffD1])
  then show ?thesis using l False by (simp add: blend_value_def word_less_nat_alt unat_div)
qed (simp add: blend_value_def assms(2))

lemma set_update_cases: "x \<in> set (xs[i := y]) \<Longrightarrow> x = y \<or> x \<in> set xs"
  using set_update_subset_insert by fastforce

lemma update_model_bounded:
  assumes m: "model_bounded B m" and u: "update_model m t s v = Some m'" and v: "v < B" "unat B \<le> 400000000"
  shows "model_bounded B m'"
proof -
  from u obtain k: "nat t < length m" "nat s < length (m ! nat t)"
    and m': "m' = m[nat t := (m ! nat t)[nat s := blend_value (m ! nat t ! nat s) v]]"
    by (auto simp: update_model_def array_get_def array_set_def split: bind_splits if_splits)
  have row: "length (m ! nat t) = 15" "\<forall>x \<in> set (m ! nat t). x < B"
    using m k(1) by (auto simp: model_bounded_def)
  have "blend_value (m ! nat t ! nat s) v < B" using blend_value_bound row(2) k(2) v by simp
  then have "\<forall>x \<in> set ((m ! nat t)[nat s := blend_value (m ! nat t ! nat s) v]). x < B"
    using row(2) set_update_cases by metis
  then show ?thesis using m row(1) set_update_cases unfolding model_bounded_def m' by fastforce
qed

lemma model_ok_bounded:
  assumes "length m = 81" "\<forall>t < 81. model_ok (m ! t) \<and> last (m ! t) < B"
  shows "model_bounded B m"
proof -
  have "length row = 15 \<and> (\<forall>v \<in> set row. v < B)" if "row \<in> set m" for row
  proof -
    have r: "model_ok row" "last row < B" using that assms by (auto simp: in_set_conv_nth)
    then have "row \<noteq> []" "sorted row" "length row = 15" by (auto simp: model_ok_def)
    then have "v \<le> last row" if "v \<in> set row" for v
      using that sorted_nth_mono [of row _ "length row - 1"] by (auto simp: in_set_conv_nth last_conv_nth)
    then show ?thesis using r(2) \<open>length row = 15\<close> by (meson order_le_less_trans)
  qed
  then show ?thesis using assms(1) by (simp add: model_bounded_def)
qed

lemma init_track_ok:
  assumes "length (ts_train s) = 81"
  shows "\<exists>s'. init_track s = Some s' \<and> track_state_ok s' \<and> ts_track s' = lab_track \<and>
    (\<forall>t < 81. model_ok (ts_speed_to_velocity s' ! t) \<and> model_ok (ts_stopping_distance s' ! t))"
proof -
  obtain T where T: "init_track_b = Some T" using init_track_b_ok by blast
  obtain v where v: "setup_default_map default_speeds super_default_speeds = Some v" "length v = 81"
    "\<forall>t < 81. model_ok (v ! t) \<and> last (v ! t) < 150000" using velocity_models by blast
  obtain d where d: "setup_default_map default_stopping_distances super_default_stopping_distances = Some d"
    "length d = 81" "\<forall>t < 81. model_ok (d ! t) \<and> last (d ! t) < 200000" using distance_models by blast
  obtain ti where ti: "setup_default_map default_stopping_times super_default_stopping_times = Some ti"
    "length ti = 81" "\<forall>t < 81. length (ti ! t) = 15 \<and> (\<forall>v \<in> set (ti ! t). v < 10000000)"
    using time_models by blast
  have "model_bounded 10000000 ti" unfolding model_bounded_def using ti(2,3) by (metis in_set_conv_nth)
  moreover have "init_track s = Some \<lparr>ts_turnouts = replicate NUM_TURNOUTS TURNOUT_UNKNOWN,
      ts_train = map init_train (ts_train s), ts_track = T, ts_tracka = init_tracka, ts_trackb = T,
      ts_nodes = TRACKB_SIZE, ts_speed_to_velocity = v, ts_stopping_distance = d, ts_stopping_time_mus = ti,
      ts_last_switch_time = replicate NUM_TURNOUTS 0\<rparr>" (is "_ = Some ?s")
    by (simp add: init_track_def T v(1) d(1) ti(1) assms)
  moreover have "lab_track = T" by (simp add: lab_track_def T)
  ultimately show ?thesis
    using assms v(3) d(3) model_ok_bounded [OF v(2,3)] model_ok_bounded [OF d(2,3)]
    by (intro exI [of _ ?s]) (simp add: track_state_ok_def train_ok_def init_train_def)
qed

lemma set_train_ok:
  assumes "set_train s t f = Some s'" "track_state_ok s" "\<And>d. train_ok d \<Longrightarrow> train_ok (f d)"
  shows "track_state_ok s'"
proof -
  from assms(1) obtain k: "nat t < length (ts_train s)"
    and s': "s' = s\<lparr>ts_train := (ts_train s)[nat t := f (ts_train s ! nat t)]\<rparr>"
    by (auto simp: set_train_def array_get_def array_set_def split: bind_splits if_splits)
  have "train_ok (f (ts_train s ! nat t))" using assms(2,3) k by (auto simp: track_state_ok_def)
  then show ?thesis using assms(2) set_update_cases unfolding s' track_state_ok_def by fastforce
qed

lemma track_state_ok_updates:
  assumes "track_state_ok s"
  shows "length ts = NUM_TURNOUTS \<Longrightarrow> track_state_ok (s\<lparr>ts_turnouts := ts\<rparr>)"
    "model_bounded 150000 m \<Longrightarrow> track_state_ok (s\<lparr>ts_speed_to_velocity := m\<rparr>)"
    "model_bounded 200000 m \<Longrightarrow> track_state_ok (s\<lparr>ts_stopping_distance := m\<rparr>)"
    "model_bounded 10000000 m \<Longrightarrow> track_state_ok (s\<lparr>ts_stopping_time_mus := m\<rparr>)"
  using assms by (simp_all add: track_state_ok_def)

lemma controller_step_inv:
  assumes inv: "controller_inv c" and st: "controller_step clk res snt c m = Some (c', ev)"
  shows "controller_inv c'"
proof -
  have ok: "track_state_ok (tc_state c)" "length (tc_sensors c) = 10" using inv by (auto simp: controller_inv_def)
  note upd = track_state_ok_updates [OF ok(1)]
  have b: "model_bounded 150000 (ts_speed_to_velocity (tc_state c))"
    "model_bounded 200000 (ts_stopping_distance (tc_state c))"
    "model_bounded 10000000 (ts_stopping_time_mus (tc_state c))"
    "length (ts_turnouts (tc_state c)) = NUM_TURNOUTS"
    using ok(1) by (auto simp: track_state_ok_def)
  show ?thesis
  proof (cases m)
    case (TRAINSETDIRECTION t d)
    then show ?thesis using st ok set_train_ok [OF _ ok(1)]
      by (auto simp: controller_inv_def train_ok_def split: bind_splits)
  next
    case (TRAINREVERSED t d)
    then show ?thesis using st ok set_train_ok [OF _ ok(1)]
      by (auto simp: controller_inv_def train_ok_def split: bind_splits)
  next
    case (TRAINSETSPEED t v h)
    then obtain s1 where s1: "set_train (tc_state c) t (\<lambda>d. d\<lparr>td_headlights := h\<rparr>) = Some s1" "speed_index v"
      using st by (auto split: bind_splits)
    have ok1: "track_state_ok s1" by (rule set_train_ok [OF s1(1) ok(1)]) (simp add: train_ok_def)
    then show ?thesis using st s1 ok(2) set_train_ok [OF _ ok1] unfolding TRAINSETSPEED
      by (auto simp: controller_inv_def train_ok_def split: bind_splits if_splits)
  next
    case (TURNOUTSWITCHED n t)
    then show ?thesis using st ok upd(1) b(4)
      by (auto simp: controller_inv_def array_set_def Let_def split: bind_splits if_splits)
  next
    case (UPDATECONSTANTSPEEDMODEL t v a e k)
    then show ?thesis using st ok upd(2) update_model_bounded [OF b(1)]
      by (auto simp: controller_inv_def DEFINITE_MAX_CM_PER_SEC_def split: bind_splits if_splits)
  next
    case (UPDATESTOPPINGDISTANCEMODEL t v x)
    then show ?thesis using st ok upd(3) update_model_bounded [OF b(2)]
      by (auto simp: controller_inv_def split: bind_splits if_splits)
  next
    case (UPDATESTOPPINGTIMEMODEL t v x)
    then show ?thesis using st ok upd(4) update_model_bounded [OF b(3)]
      by (auto simp: controller_inv_def split: bind_splits if_splits)
  qed (use st ok in \<open>auto simp: controller_inv_def split: bind_splits\<close>)
qed

lemma controller_init_ok: "controller_init s = Some c \<Longrightarrow> controller_inv c"
proof -
  assume i: "controller_init s = Some c"
  then obtain s' where s': "init_track s = Some s'" "c = \<lparr>tc_state = s', tc_sensors = replicate 10 0\<rparr>"
    by (auto simp: controller_init_def split: bind_splits)
  then have "length (ts_train s) = 81" by (auto simp: init_track_def split: bind_splits)
  from init_track_ok [OF this] s' show "controller_inv c" by (auto simp: controller_inv_def)
qed

lemma controller_run_inv: "controller_run c \<Longrightarrow> controller_inv c"
  by (induction rule: controller_run.induct) (auto intro: controller_init_ok controller_step_inv)

section \<open>Properties\<close>

text \<open>
  \<open>init_track\<close> runs through: the lab's track is selected, and every train has velocities and
  stopping distances for the speeds 0 to 14 that start at 0 and never decrease.
\<close>

theorem init_track_models:
  assumes "length (ts_train s) = 81"
  shows "\<exists>s'. init_track s = Some s' \<and> ts_track s' = lab_track \<and> rev_ok lab_track (ts_nodes s') \<and>
    (\<forall>t < 81. model_ok (ts_speed_to_velocity s' ! t) \<and> model_ok (ts_stopping_distance s' ! t))"
proof -
  obtain s' where s': "init_track s = Some s'" "ts_track s' = lab_track"
    "\<forall>t < 81. model_ok (ts_speed_to_velocity s' ! t) \<and> model_ok (ts_stopping_distance s' ! t)"
    using init_track_ok [OF assms] by blast
  moreover have "ts_nodes s' = 140" using s'(1) by (auto simp: init_track_def TRACKB_SIZE_def split: bind_splits)
  ultimately show ?thesis using lab_track_rev_ok(1) by auto
qed

definition zero_train :: train_data where
  "zero_train = \<lparr>td_train = 0, td_direction = False, td_should_speed = 0, td_headlights = False,
     td_last_speed = 0, td_time_speed_last_changed = 0\<rparr>"

definition zero_track_state :: track_state where
  "zero_track_state = \<lparr>ts_turnouts = [], ts_train = replicate 81 zero_train, ts_track = [], ts_tracka = [],
     ts_trackb = [], ts_nodes = 0, ts_speed_to_velocity = [], ts_stopping_distance = [],
     ts_stopping_time_mus = [], ts_last_switch_time = []\<rparr>"

lemma zero_track_state_trains: "length (ts_train zero_track_state) = 81"
  by (simp add: zero_track_state_def)

theorem init_track_models_witness:
  "\<exists>s'. init_track zero_track_state = Some s' \<and> model_ok (ts_speed_to_velocity s' ! 24)"
  using init_track_models [OF zero_track_state_trains] by force

text \<open>
  C39: in every run of the track state controller, whatever messages it takes, all speeds stay in 0
  to 14 and all entries of the three models below the limits the conductors and the stopping
  formula assert: 1.5 m/s, 2 m and 10 s.
\<close>

theorem controller_keeps_limits:
  assumes "controller_run c"
  shows "model_bounded 150000 (ts_speed_to_velocity (tc_state c)) \<and>
    model_bounded 200000 (ts_stopping_distance (tc_state c)) \<and>
    model_bounded 10000000 (ts_stopping_time_mus (tc_state c)) \<and>
    length (ts_train (tc_state c)) = 81 \<and> (\<forall>d \<in> set (ts_train (tc_state c)). train_ok d)"
  using controller_run_inv [OF assms] by (simp add: controller_inv_def track_state_ok_def)

lemma controller_starts: "\<exists>c. controller_init zero_track_state = Some c"
  using init_track_ok [OF zero_track_state_trains] by (auto simp: controller_init_def)

theorem controller_keeps_limits_witness:
  "\<exists>c. controller_init zero_track_state = Some c \<and> model_bounded 200000 (ts_stopping_distance (tc_state c))"
proof -
  obtain c where "controller_init zero_track_state = Some c" using controller_starts by blast
  then show ?thesis using controller_keeps_limits [OF controller_run.init] by blast
qed

end
