(* ===== verification/Train_Coordinates.thy ===== *)
theory Train_Coordinates
  imports Track_Controller "HOL-Library.Signed_Division"
begin

text \<open>
  The train coordinates server, \<open>usr/train/train_coordinates_server.c\<close>: where each train is believed
  to be, moved on by its velocity and acceleration. The numbers are C \<open>int\<close>s, \<open>None\<close> where a result
  leaves their range; \<open>/\<close> truncates, \<open>sdiv\<close>. Lengths are in 1/100 mm, velocities in 1/100 mm/s,
  times in ticks of 1/100 s.
\<close>

record coordinates =
  c_loc :: location
  c_ticks :: int
  c_current_speed :: int
  c_last_speed :: int
  c_velocity :: int
  c_target_velocity :: int
  c_acceleration :: int

definition PICKUP_LENGTH :: int where "PICKUP_LENGTH = 5 * 10 * 100"

definition MAX_SENSORS_PASSED :: int where "MAX_SENSORS_PASSED = 3"

definition NO_DATA_RECEIVED :: u32 where "NO_DATA_RECEIVED = 0xDEDEDEDE"

text \<open>A product and a quotient of \<open>int\<close>s.\<close>

definition cmul :: "int \<Rightarrow> int \<Rightarrow> int option" where "cmul a b = int32 (a * b)"

definition cdiv :: "int \<Rightarrow> int \<Rightarrow> int option" where
  "cdiv a b = (if b = 0 then None else int32 (a sdiv b))"

section \<open>Moving on\<close>

text \<open>The velocity reached at \<open>now_ticks\<close>, not beyond the one aimed for.\<close>

definition velocity_at :: "int \<Rightarrow> coordinates \<Rightarrow> int option" where
  "velocity_at now_ticks c = do {
     dt \<leftarrow> int32 (now_ticks - c_ticks c);
     x \<leftarrow> cmul (c_acceleration c) dt;
     y \<leftarrow> cdiv x 100;
     v \<leftarrow> int32 (c_velocity c + y);
     Some (if c_acceleration c < 0 \<and> v < c_target_velocity c \<or> c_acceleration c > 0 \<and> v > c_target_velocity c
       then c_target_velocity c else v)
   }"

definition offset_at :: "int \<Rightarrow> int \<Rightarrow> coordinates \<Rightarrow> int option" where
  "offset_at now_ticks current_velocity c = do {
     velocity_diff \<leftarrow> int32 (current_velocity - c_velocity c);
     dt \<leftarrow> int32 (now_ticks - c_ticks c);
     x \<leftarrow> cmul current_velocity dt;
     y \<leftarrow> cdiv x 100;
     offset \<leftarrow> int32 (l_offset (c_loc c) + y);
     if c_acceleration c \<noteq> 0 then do {
       sq \<leftarrow> cmul velocity_diff velocity_diff;
       a2 \<leftarrow> cmul 2 (c_acceleration c);
       z \<leftarrow> cdiv sq a2;
       int32 (offset - z)
     }
     else Some offset
   }"

definition update_coordinates_helper ::
  "track \<Rightarrow> int \<Rightarrow> turnout_state list \<Rightarrow> coordinates \<Rightarrow> coordinates option" where
  "update_coordinates_helper T now_ticks turnouts c = do {
     current_velocity \<leftarrow> velocity_at now_ticks c;
     offset \<leftarrow> offset_at now_ticks current_velocity c;
     let loc = (c_loc c)\<lparr>l_offset := offset\<rparr>;
     loc' \<leftarrow> (if l_node loc \<noteq> None then location_canonicalize T turnouts loc else Some loc);
     Some (c\<lparr>c_loc := loc', c_velocity := current_velocity,
       c_acceleration := (if current_velocity = c_target_velocity c then 0 else c_acceleration c),
       c_ticks := now_ticks\<rparr>)
   }"

definition update_coordinates_after_sensor_hit ::
  "track \<Rightarrow> nat \<Rightarrow> u32 \<Rightarrow> int \<Rightarrow> turnout_state list \<Rightarrow> coordinates \<Rightarrow> coordinates option" where
  "update_coordinates_after_sensor_hit T nodes sensor ticks turnouts c = do {
     c1 \<leftarrow> update_coordinates_helper T ticks turnouts c;
     n \<leftarrow> find_sensor T nodes sensor;
     Some (c1\<lparr>c_loc := \<lparr>l_node = Some n, l_offset = 0\<rparr>\<rparr>)
   }"

text \<open>
  \<open>vel * vel / (2 * sd)\<close> is computed in \<open>long long\<close>, in which it cannot overflow, and cut to \<open>int\<close>.
  Both models are indexed with the speeds.
\<close>

definition model_entry :: "u32 list \<Rightarrow> int \<Rightarrow> u32 option" where
  "model_entry m i = do { guard_opt (i \<ge> 0); array_get m (nat i) }"

definition update_coordinates_after_speed_change ::
  "track \<Rightarrow> train_data \<Rightarrow> u32 list \<Rightarrow> u32 list \<Rightarrow> turnout_state list \<Rightarrow> coordinates \<Rightarrow> coordinates option" where
  "update_coordinates_after_speed_change T tr_data velocity_model stopping_distance_model turnouts c0 = do {
     c1 \<leftarrow> update_coordinates_helper T (td_time_speed_last_changed tr_data) turnouts c0;
     let c2 = c1\<lparr>c_current_speed := td_should_speed tr_data, c_last_speed := td_last_speed tr_data\<rparr>;
     target \<leftarrow> model_entry velocity_model (td_should_speed tr_data);
     let c3 = c2\<lparr>c_target_velocity := sint target\<rparr>;
     let vel = (if c_target_velocity c3 = 0 then c_velocity c3 else c_target_velocity c3);
     sd \<leftarrow> model_entry stopping_distance_model
       (if c_current_speed c3 = 0 then c_last_speed c3 else c_current_speed c3);
     guard_opt (sd \<noteq> 0);
     let accel = sint (word_of_int ((vel * vel) sdiv (2 * uint sd)) :: u32);
     if c_velocity c3 < c_target_velocity c3 then Some (c3\<lparr>c_acceleration := accel\<rparr>)
     else if c_velocity c3 = c_target_velocity c3 then Some (c3\<lparr>c_acceleration := 0\<rparr>)
     else do { a \<leftarrow> int32 (- accel); Some (c3\<lparr>c_acceleration := a\<rparr>) }
   }"

definition update_coordinates_after_reverse :: "track \<Rightarrow> coordinates \<Rightarrow> coordinates option" where
  "update_coordinates_after_reverse T c =
     (if l_node (c_loc c) \<noteq> None then do {
        loc \<leftarrow> location_reverse T (c_loc c);
        offset \<leftarrow> int32 (l_offset loc + PICKUP_LENGTH);
        Some (c\<lparr>c_loc := loc\<lparr>l_offset := offset\<rparr>\<rparr>)
      }
      else Some c)"

section \<open>The server\<close>

record coords_server =
  cs_coords :: "coordinates list"
  cs_last_sensor :: "u32 list"
  cs_sensors_passed :: "int list"
  cs_turnouts :: "turnout_state list"

definition zero_coordinates :: coordinates where
  "zero_coordinates = \<lparr>c_loc = \<lparr>l_node = None, l_offset = 0\<rparr>, c_ticks = 0, c_current_speed = 0,
     c_last_speed = 0, c_velocity = 0, c_target_velocity = 0, c_acceleration = 0\<rparr>"

text \<open>The turnout states are what the stack held until the first \<open>FORWARD_TURNOUT_STATES\<close>.\<close>

definition coords_server_init :: "turnout_state list \<Rightarrow> coords_server" where
  "coords_server_init turnouts = \<lparr>cs_coords = replicate 81 zero_coordinates,
     cs_last_sensor = replicate 81 NO_DATA_RECEIVED, cs_sensors_passed = replicate 81 0, cs_turnouts = turnouts\<rparr>"

text \<open>
  \<open>GET_COORDINATES\<close> after the move: passing more sensors than \<open>MAX_SENSORS_PASSED\<close> without a report
  makes the train lost.
\<close>

definition count_sensor ::
  "track \<Rightarrow> nat \<Rightarrow> coordinates \<Rightarrow> u32 \<Rightarrow> int \<Rightarrow> (coordinates \<times> u32 \<times> int) option" where
  "count_sensor T nodes c last_sensor passed =
     (case l_node (c_loc c) of
        None \<Rightarrow> Some (c, last_sensor, passed)
      | Some i \<Rightarrow> do {
          n \<leftarrow> array_get T i;
          if n_type n = NODE_SENSOR \<and> n_num n \<noteq> sint last_sensor then do {
            ls \<leftarrow> find_sensor T nodes last_sensor;
            l \<leftarrow> array_get T ls;
            let passed' = (if Some i \<noteq> n_reverse l then passed + 1 else passed);
            let c' = (if passed' > MAX_SENSORS_PASSED then c\<lparr>c_loc := (c_loc c)\<lparr>l_node := None\<rparr>\<rparr> else c);
            Some (c', of_int (n_num n), passed')
          }
          else Some (c, last_sensor, passed)
        })"

definition set_coords :: "coords_server \<Rightarrow> int \<Rightarrow> coordinates \<Rightarrow> coords_server option" where
  "set_coords s train c = do {
     guard_opt (train \<ge> 0);
     cs \<leftarrow> array_set (cs_coords s) (nat train) c;
     Some (s\<lparr>cs_coords := cs\<rparr>)
   }"

definition get_coords :: "coords_server \<Rightarrow> int \<Rightarrow> coordinates option" where
  "get_coords s train = do { guard_opt (train \<ge> 0); array_get (cs_coords s) (nat train) }"

text \<open>\<open>res\<close> is what \<open>Reply\<close> returns, asserted to be 0; \<open>now\<close> is the reading of the clock.\<close>

fun coords_step ::
  "track \<Rightarrow> nat \<Rightarrow> int \<Rightarrow> int \<Rightarrow> coords_server \<Rightarrow> coords_message \<Rightarrow> (coords_server \<times> coordinates option) option" where
  "coords_step T nodes now res s (UPDATE_COORDS_SPEED tr_data vm sdm) = do {
     let train = uint (td_train tr_data);
     c \<leftarrow> get_coords s train;
     c' \<leftarrow> update_coordinates_after_speed_change T tr_data vm sdm (cs_turnouts s) c;
     s' \<leftarrow> set_coords s train c';
     guard_opt (res = 0);
     Some (s', None)
   }"
| "coords_step T nodes now res s (UPDATE_COORDS_REVERSE train) = do {
     c \<leftarrow> get_coords s train;
     c' \<leftarrow> update_coordinates_after_reverse T c;
     s' \<leftarrow> set_coords s train c';
     guard_opt (res = 0);
     Some (s', None)
   }"
| "coords_step T nodes now res s (UPDATE_COORDS_SENSOR train sensor ticks) = do {
     c \<leftarrow> get_coords s train;
     c' \<leftarrow> update_coordinates_after_sensor_hit T nodes sensor ticks (cs_turnouts s) c;
     s1 \<leftarrow> set_coords s train c';
     ls \<leftarrow> array_set (cs_last_sensor s1) (nat train) sensor;
     sp \<leftarrow> array_set (cs_sensors_passed s1) (nat train) 0;
     guard_opt (res = 0);
     Some (s1\<lparr>cs_last_sensor := ls, cs_sensors_passed := sp\<rparr>, None)
   }"
| "coords_step T nodes now res s (FORWARD_TURNOUT_STATES turnouts) = do {
     guard_opt (length turnouts = NUM_TURNOUTS);
     guard_opt (res = 0);
     Some (s\<lparr>cs_turnouts := turnouts\<rparr>, None)
   }"
| "coords_step T nodes now res s (GET_COORDINATES train) = do {
     c \<leftarrow> get_coords s train;
     c1 \<leftarrow> update_coordinates_helper T now (cs_turnouts s) c;
     last \<leftarrow> array_get (cs_last_sensor s) (nat train);
     passed \<leftarrow> array_get (cs_sensors_passed s) (nat train);
     (c2, last', passed') \<leftarrow> count_sensor T nodes c1 last passed;
     s1 \<leftarrow> set_coords s train c2;
     ls \<leftarrow> array_set (cs_last_sensor s1) (nat train) last';
     sp \<leftarrow> array_set (cs_sensors_passed s1) (nat train) passed';
     guard_opt (res = 0);
     Some (s1\<lparr>cs_last_sensor := ls, cs_sensors_passed := sp\<rparr>, Some c2)
   }"

section \<open>Properties\<close>

text \<open>The acceleration points from the velocity to the one aimed for.\<close>

definition steering :: "coordinates \<Rightarrow> bool" where
  "steering c \<longleftrightarrow> (c_acceleration c > 0 \<longrightarrow> c_velocity c \<le> c_target_velocity c) \<and>
     (c_acceleration c < 0 \<longrightarrow> c_target_velocity c \<le> c_velocity c)"

lemma sdiv_100_sign: "0 \<le> x \<Longrightarrow> 0 \<le> x sdiv 100" "x \<le> 0 \<Longrightarrow> x sdiv 100 \<le> 0" for x :: int
  by (auto simp: signed_divide_int_def sgn_if)

lemma velocity_at_between:
  assumes "velocity_at now c = Some v" "steering c" "c_ticks c \<le> now"
  shows "min (c_velocity c) (c_target_velocity c) \<le> v \<and> v \<le> max (c_velocity c) (c_target_velocity c)"
    "c_acceleration c = 0 \<Longrightarrow> v = c_velocity c"
    "c_acceleration c > 0 \<Longrightarrow> c_velocity c \<le> v \<and> v \<le> c_target_velocity c"
    "c_acceleration c < 0 \<Longrightarrow> c_target_velocity c \<le> v \<and> v \<le> c_velocity c"
proof -
  define x where "x = c_acceleration c * (now - c_ticks c)"
  have v: "v = (let w = c_velocity c + x sdiv 100 in
      if c_acceleration c < 0 \<and> w < c_target_velocity c \<or> c_acceleration c > 0 \<and> w > c_target_velocity c
      then c_target_velocity c else w)"
    using assms(1)
    by (auto simp: velocity_at_def cmul_def cdiv_def int32_Some x_def Let_def split: bind_splits if_splits)
  show 0: "c_acceleration c = 0 \<Longrightarrow> v = c_velocity c" using v by (simp add: x_def Let_def)
  show 1: "c_acceleration c > 0 \<Longrightarrow> c_velocity c \<le> v \<and> v \<le> c_target_velocity c"
    using v sdiv_100_sign(1) [of x] assms(2,3) by (auto simp: x_def Let_def steering_def)
  show 2: "c_acceleration c < 0 \<Longrightarrow> c_target_velocity c \<le> v \<and> v \<le> c_velocity c"
    using v sdiv_100_sign(2) [of x] assms(2,3)
    by (auto simp: x_def Let_def steering_def mult_nonpos_nonneg)
  show "min (c_velocity c) (c_target_velocity c) \<le> v \<and> v \<le> max (c_velocity c) (c_target_velocity c)"
    using 0 1 2 by (cases "c_acceleration c" "0 :: int" rule: linorder_cases) auto
qed

text \<open>
  C40: moving a train on in time takes its velocity towards the one aimed for and never beyond it; the
  acceleration stays pointed at it and ends when it is reached.
\<close>

theorem velocity_never_overshoots:
  assumes u: "update_coordinates_helper T now turnouts c = Some c'" and st: "steering c" and t: "c_ticks c \<le> now"
  shows "min (c_velocity c) (c_target_velocity c) \<le> c_velocity c' \<and>
    c_velocity c' \<le> max (c_velocity c) (c_target_velocity c) \<and>
    c_target_velocity c' = c_target_velocity c \<and> steering c' \<and> c_ticks c' = now \<and>
    (c_velocity c' = c_target_velocity c' \<longrightarrow> c_acceleration c' = 0)"
proof -
  obtain v loc where v: "velocity_at now c = Some v" and c': "c' = c\<lparr>c_loc := loc, c_velocity := v,
      c_acceleration := (if v = c_target_velocity c then 0 else c_acceleration c), c_ticks := now\<rparr>"
    using u by (auto simp: update_coordinates_helper_def Let_def split: bind_splits if_splits)
  from velocity_at_between [OF v st t] show ?thesis unfolding c' steering_def by auto
qed

definition rolling :: coordinates where
  "rolling = zero_coordinates\<lparr>c_target_velocity := 1000, c_acceleration := 50\<rparr>"

theorem velocity_never_overshoots_witness:
  "\<exists>c'. update_coordinates_helper [] 5000 [] rolling = Some c' \<and> c_velocity c' \<le> 1000"
proof -
  have "\<exists>c'. update_coordinates_helper [] 5000 [] rolling = Some c'"
    by (simp add: update_coordinates_helper_def velocity_at_def offset_at_def cmul_def cdiv_def int32_def
        rolling_def zero_coordinates_def signed_divide_int_def)
  then obtain c' where "update_coordinates_helper [] 5000 [] rolling = Some c'" by blast
  from velocity_never_overshoots [OF this] this show ?thesis
    by (auto simp: rolling_def zero_coordinates_def steering_def)
qed

section \<open>Where the arithmetic fails\<close>

text \<open>
  A train that has never moved has stopping distance 0 for both its speeds, so the coordinates update
  the train model courier asks for when the system starts divides by zero.
\<close>

lemma fresh_train_divides_by_zero:
  assumes "td_should_speed d = 0" "td_last_speed d = 0" "sdm \<noteq> []" "hd sdm = 0"
  shows "update_coordinates_after_speed_change T d vm sdm turnouts c = None"
  using assms
  by (cases sdm) (auto simp: update_coordinates_after_speed_change_def model_entry_def Let_def guard_opt_def
      split: option.splits bind_splits)

text \<open>
  The square of the change in velocity leaves the range of \<open>int\<close> when a train speeds up from
  standing to 0.6 m/s between two updates.
\<close>

lemma velocity_square_overflows:
  assumes "c_velocity c = 0" "c_target_velocity c = 60097" "c_acceleration c = 12964" "l_offset (c_loc c) = 0"
    "c_ticks c = 0"
  shows "update_coordinates_helper T 500 turnouts c = None"
  using assms
  by (simp add: update_coordinates_helper_def velocity_at_def offset_at_def cmul_def cdiv_def int32_def
      signed_divide_int_def)

end
