(* ===== verification/Command_Line.thy ===== *)
theory Command_Line
  imports Tstd_Strings Track_Data
begin

text \<open>
  The command line: \<open>parse_command\<close> and the input loop of \<open>usr/project.c\<close>, the commands of
  \<open>lib/user_command.c\<close>, the groups of \<open>lib/groups.c\<close> and the parameter names of
  \<open>usr/train/parameters.c\<close>. \<open>None\<close> is an access outside an array or through a NULL pointer.
\<close>

section \<open>Commands, groups, parameters\<close>

datatype user_command_type =
    USER_CMD_GO | USER_CMD_STOP | USER_CMD_TR | USER_CMD_SW | USER_CMD_RV | USER_CMD_Q | USER_CMD_SD
  | USER_CMD_V | USER_CMD_LOOP | USER_CMD_SET | USER_CMD_R | USER_CMD_T2START | USER_CMD_T2STOP
  | USER_CMD_GROUP | USER_CMD_UNGROUP | USER_CMD_TRG | USER_CMD_RVG | NULL_USER_CMD

record user_command =
  uc_type :: user_command_type
  uc_data :: "int list"

definition user_command_reset :: user_command where
  "user_command_reset = \<lparr>uc_type = NULL_USER_CMD, uc_data = replicate 10 0\<rparr>"

text \<open>The assignments of a type and of the first entries of \<open>data\<close>.\<close>

fun set_data :: "nat \<Rightarrow> int list \<Rightarrow> user_command \<Rightarrow> user_command" where
  "set_data i [] cmd = cmd"
| "set_data i (v # vs) cmd = set_data (i + 1) vs (cmd\<lparr>uc_data := (uc_data cmd)[i := v]\<rparr>)"

definition set_command :: "user_command_type \<Rightarrow> int list \<Rightarrow> user_command \<Rightarrow> user_command" where
  "set_command ty vs cmd = set_data 0 vs (cmd\<lparr>uc_type := ty\<rparr>)"

definition MAX_GROUP_NAME_LEN :: nat where "MAX_GROUP_NAME_LEN = 4"

record train_group_info =
  g_members :: "int list"
  g_num_members :: int
  g_name :: chars
  g_tid :: int

text \<open>\<open>find_group\<close>: \<open>tr_groups\<close> and \<open>num_groups\<close> are arguments; the pointer is an index.\<close>

fun find_group_loop :: "chars \<Rightarrow> train_group_info list \<Rightarrow> nat list \<Rightarrow> nat option option" where
  "find_group_loop name tr_groups [] = Some None"
| "find_group_loop name tr_groups (i # rest) = do {
     group \<leftarrow> array_get tr_groups i;
     eq \<leftarrow> tstrcmp name (g_name group);
     if eq \<noteq> 0 then Some (Some i) else find_group_loop name tr_groups rest
   }"

definition find_group :: "train_group_info list \<Rightarrow> nat \<Rightarrow> chars \<Rightarrow> nat option option" where
  "find_group tr_groups num_groups name = find_group_loop name tr_groups [0..<num_groups]"

definition SET_TRAINS :: nat where "SET_TRAINS = 1"
definition SET_DIRECTION :: nat where "SET_DIRECTION = 4"
definition MAX_PARAMETER :: nat where "MAX_PARAMETER = 8"
definition PARAMETER_NAME_LENGTH :: nat where "PARAMETER_NAME_LENGTH = 30"

text \<open>The names \<open>init_parameters\<close> stores, in the order of the enum; entry 0 stays zeroed.\<close>

definition parameter_names :: "chars list" where
  "parameter_names = map (\<lambda>s. str s @ replicate (29 - length s) 0)
     ['''', ''trains'', ''switch_padding'', ''track'', ''direction'', ''spacing'', ''spacing_error'',
      ''spacing_catchup_time'']"

definition get_parameter_name :: "nat \<Rightarrow> chars option" where
  "get_parameter_name index = array_get parameter_names index"

fun parameter_loop :: "chars \<Rightarrow> nat list \<Rightarrow> nat option" where
  "parameter_loop name [] = Some MAX_PARAMETER"
| "parameter_loop name (i # rest) = do {
     pn \<leftarrow> get_parameter_name i;
     eq \<leftarrow> tstrcmp name pn;
     if eq \<noteq> 0 then Some i else parameter_loop name rest
   }"

definition get_parameter_value :: "chars \<Rightarrow> nat option" where
  "get_parameter_value name = parameter_loop name [0..<MAX_PARAMETER]"

section \<open>The branches of the parser\<close>

text \<open>
  \<open>elems\<close> is the length of the line. \<open>is_number\<close> is \<open>is_valid_number\<close> followed by the tests
  \<open>n >= 0\<close> and \<open>elems >= n\<close>: the index after the number, if there is one.
\<close>

abbreviation elems :: "u8 buffer \<Rightarrow> nat" where
  "elems b \<equiv> unat (b_elems b)"

definition is_number :: "u8 buffer \<Rightarrow> nat \<Rightarrow> nat option option" where
  "is_number ibuf i = do {
     n \<leftarrow> is_valid_number ibuf i;
     Some (if n \<ge> 0 \<and> int (elems ibuf) \<ge> n then Some (nat n) else None)
   }"

text \<open>
  A command with one two-digit number, at \<open>i\<close>: \<open>rv\<close>, \<open>v\<close>, \<open>t2start\<close>, \<open>t2stop\<close>. The first two also
  write 0 to \<open>data[1]\<close>.
\<close>

definition parse_address :: "u8 buffer \<Rightarrow> user_command_type \<Rightarrow> nat \<Rightarrow> int list \<Rightarrow> user_command \<Rightarrow> user_command option" where
  "parse_address ibuf ty i extra cmd = do {
     nParse \<leftarrow> is_number ibuf i;
     case nParse of
       None \<Rightarrow> Some cmd
     | Some n \<Rightarrow> do {
         address \<leftarrow> parse_two_digit_number (drop i (b_data ibuf));
         Some (set_command ty (address # extra) cmd)
       }
   }"

text \<open>
  A command with two numbers, the second a speed from \<open>lo\<close> to 14: \<open>tr\<close>, \<open>sd\<close>, \<open>loop\<close>. Only the
  second result of \<open>is_valid_number\<close> is compared with \<open>elems\<close>.
\<close>

definition parse_speed ::
  "u8 buffer \<Rightarrow> user_command_type \<Rightarrow> nat \<Rightarrow> int \<Rightarrow> user_command \<Rightarrow> user_command option" where
  "parse_speed ibuf ty i lo cmd = do {
     first_num_parse \<leftarrow> is_valid_number ibuf i;
     if first_num_parse \<ge> 0 then do {
       second_num_parse \<leftarrow> is_number ibuf (nat first_num_parse);
       case second_num_parse of
         None \<Rightarrow> Some cmd
       | Some n \<Rightarrow> do {
           address \<leftarrow> parse_two_digit_number (drop i (b_data ibuf));
           speed \<leftarrow> parse_two_digit_number (drop (nat first_num_parse) (b_data ibuf));
           Some (if speed \<ge> lo \<and> speed \<le> 14 then set_command ty [address, speed] cmd else cmd)
         }
     }
     else Some cmd
   }"

definition parse_sw :: "u8 buffer \<Rightarrow> user_command \<Rightarrow> user_command option" where
  "parse_sw ibuf cmd = do {
     nParse \<leftarrow> is_valid_number ibuf 3;
     if nParse \<ge> 0 \<and> int (elems ibuf) = nParse + 1 then do {
       change_cmd \<leftarrow> array_get (b_data ibuf) (nat nParse);
       if change_cmd = 83 \<or> change_cmd = 67 then do {
         num \<leftarrow> parse_number ibuf 3;
         Some (if is_valid_turnout_num num
           then set_command USER_CMD_SW [sint num, uint change_cmd] cmd else cmd)
       }
       else Some cmd
     }
     else Some cmd
   }"

definition parse_r :: "u8 buffer \<Rightarrow> user_command \<Rightarrow> user_command option" where
  "parse_r ibuf cmd = do {
     nParse \<leftarrow> is_number ibuf 2;
     case nParse of None \<Rightarrow> Some cmd | Some n \<Rightarrow> do {
       address \<leftarrow> parse_two_digit_number (drop 2 (b_data ibuf));
       if \<not> (address > 0 \<and> address \<le> 80) then Some cmd
       else do {
         bank \<leftarrow> array_get (b_data ibuf) n;
         nParseSensorIndex \<leftarrow> is_number ibuf (n + 1);
         case nParseSensorIndex of None \<Rightarrow> Some cmd | Some si \<Rightarrow>
           if \<not> (bank \<ge> 65 \<and> bank \<le> 69) then Some cmd
           else do {
             index \<leftarrow> parse_two_digit_number (drop (n + 1) (b_data ibuf));
             if \<not> (index > 0 \<and> index \<le> 16) then Some cmd
             else do {
               nParseOffset \<leftarrow> is_number ibuf si;
               case nParseOffset of None \<Rightarrow> Some cmd | Some _ \<Rightarrow> do {
                 offset \<leftarrow> parse_number ibuf si;
                 Some (set_command USER_CMD_R
                   [address, sint (sensor_offset bank (of_int index)), sint offset] cmd)
               }
             }
           }
       }
     }
   }"

text \<open>
  The loops that copy a word of the line, from \<open>i\<close> on and at most \<open>k\<close> characters, into a local array:
  the index after it, its length, and the array.
\<close>

fun copy_name :: "u8 buffer \<Rightarrow> nat \<Rightarrow> nat \<Rightarrow> chars \<Rightarrow> nat \<Rightarrow> (nat \<times> nat \<times> chars) option" where
  "copy_name ibuf i 0 name j = Some (i, j, name)"
| "copy_name ibuf i (Suc k) name j =
     (if i < elems ibuf then do {
        c \<leftarrow> array_get (b_data ibuf) i;
        if c \<noteq> 32 then do { name' \<leftarrow> array_set name j c; copy_name ibuf (i + 1) k name' (j + 1) }
        else Some (i, j, name)
      }
      else Some (i, j, name))"

text \<open>The name of a group, terminated; the loop admits one character more than the array holds.\<close>

definition group_name :: "u8 buffer \<Rightarrow> nat \<Rightarrow> chars \<Rightarrow> (nat \<times> nat \<times> chars) option" where
  "group_name ibuf i junk = do {
     (bi, j, name) \<leftarrow> copy_name ibuf i (MAX_GROUP_NAME_LEN + 1) junk 0;
     name' \<leftarrow> array_set name j 0;
     Some (bi, j, name')
   }"

text \<open>
  \<open>group\<close> and \<open>ungroup\<close> store the name at the address \<open>cmd->data[1]\<close> or \<open>cmd->data[0]\<close>, which
  \<open>user_command_reset\<close> has just set to 0: a NULL pointer.
\<close>

definition parse_group :: "u8 buffer \<Rightarrow> chars \<Rightarrow> user_command \<Rightarrow> user_command option" where
  "parse_group ibuf junk cmd = do {
     (bi, j, name) \<leftarrow> copy_name ibuf 6 (MAX_GROUP_NAME_LEN + 1) junk 0;
     if bi + 1 \<noteq> elems ibuf \<and> j \<noteq> 0 then None else Some cmd
   }"

definition parse_ungroup ::
  "train_group_info list \<Rightarrow> nat \<Rightarrow> u8 buffer \<Rightarrow> chars \<Rightarrow> user_command \<Rightarrow> user_command option" where
  "parse_ungroup tr_groups num_groups ibuf junk cmd = do {
     (bi, j, name) \<leftarrow> group_name ibuf 8 junk;
     group \<leftarrow> find_group tr_groups num_groups name;
     if group \<noteq> None then None else Some cmd
   }"

text \<open>The loop over the numbers of \<open>set trains\<close>, rounds \<open>i\<close> to 7.\<close>

fun set_trains_loop :: "u8 buffer \<Rightarrow> nat \<Rightarrow> nat list \<Rightarrow> user_command \<Rightarrow> user_command option" where
  "set_trains_loop ibuf bi [] cmd = Some cmd"
| "set_trains_loop ibuf bi (i # rest) cmd =
     (if bi < elems ibuf then do {
        n \<leftarrow> is_valid_number ibuf bi;
        if n \<ge> 0 then do {
          v \<leftarrow> parse_number ibuf bi;
          set_trains_loop ibuf (nat n) rest
            (set_data (i + 2) [sint v] (set_command USER_CMD_SET [int SET_TRAINS, int i + 1] cmd))
        }
        else Some cmd
      }
      else Some cmd)"

definition parse_set :: "u8 buffer \<Rightarrow> chars \<Rightarrow> user_command \<Rightarrow> user_command option" where
  "parse_set ibuf junk cmd = do {
     (bi, pi, name) \<leftarrow> copy_name ibuf 4 (PARAMETER_NAME_LENGTH - 1) junk 0;
     param_name \<leftarrow> array_set name pi 0;
     let buffer_index = bi + 1;
     param \<leftarrow> get_parameter_value param_name;
     if param = SET_TRAINS then set_trains_loop ibuf buffer_index [0..<8] cmd
     else if param = SET_DIRECTION then
       (if buffer_index < elems ibuf then do {
          n \<leftarrow> is_number ibuf buffer_index;
          case n of None \<Rightarrow> Some cmd | Some n \<Rightarrow> do {
            train_number \<leftarrow> parse_number ibuf buffer_index;
            n2 \<leftarrow> is_number ibuf n;
            case n2 of None \<Rightarrow> Some cmd | Some _ \<Rightarrow> do {
              d \<leftarrow> parse_number ibuf n;
              Some (set_command USER_CMD_SET [int SET_DIRECTION, sint train_number, sint d] cmd)
            }
          }
        }
        else Some cmd)
     else if param \<noteq> MAX_PARAMETER then
       (if buffer_index < elems ibuf then do {
          n \<leftarrow> is_number ibuf buffer_index;
          case n of None \<Rightarrow> Some cmd | Some n \<Rightarrow> do {
            v \<leftarrow> parse_number ibuf buffer_index;
            Some (set_command USER_CMD_SET [int param, sint v] cmd)
          }
        }
        else Some cmd)
     else Some cmd
   }"

text \<open>\<open>addr i\<close> is the address of \<open>tr_groups[i]\<close>.\<close>

definition parse_trg ::
  "train_group_info list \<Rightarrow> nat \<Rightarrow> (nat \<Rightarrow> int) \<Rightarrow> u8 buffer \<Rightarrow> chars \<Rightarrow> user_command \<Rightarrow> user_command option" where
  "parse_trg tr_groups num_groups addr ibuf junk cmd = do {
     (bi, j, name) \<leftarrow> group_name ibuf 4 junk;
     group \<leftarrow> find_group tr_groups num_groups name;
     case group of None \<Rightarrow> Some cmd | Some g \<Rightarrow>
       if bi + 1 < elems ibuf \<and> j \<noteq> 0 then do {
         n \<leftarrow> is_valid_number ibuf (bi + 1);
         if n \<ge> 0 then do {
           v \<leftarrow> parse_number ibuf (bi + 1);
           let speed = sint v;
           Some (if speed \<ge> 0 \<and> speed \<le> 14 then set_command USER_CMD_TRG [addr g, speed] cmd else cmd)
         }
         else Some cmd
       }
       else Some cmd
   }"

definition parse_rvg ::
  "train_group_info list \<Rightarrow> nat \<Rightarrow> (nat \<Rightarrow> int) \<Rightarrow> u8 buffer \<Rightarrow> chars \<Rightarrow> user_command \<Rightarrow> user_command option" where
  "parse_rvg tr_groups num_groups addr ibuf junk cmd = do {
     (bi, j, name) \<leftarrow> group_name ibuf 4 junk;
     group \<leftarrow> find_group tr_groups num_groups name;
     Some (case group of None \<Rightarrow> cmd | Some g \<Rightarrow> set_command USER_CMD_RVG [addr g] cmd)
   }"

section \<open>The parser\<close>

definition char_buffer_clear :: "u8 buffer \<Rightarrow> u8 buffer option" where
  "char_buffer_clear b = do {
     guard_opt (elems b \<le> length (b_data b));
     Some (b\<lparr>b_data := replicate (elems b) 0 @ drop (elems b) (b_data b)\<rparr>)
   }"

text \<open>
  The chain of prefixes: the first that fits decides. \<open>gn\<close> and \<open>pn\<close> are the uninitialised arrays
  of a group's and of a parameter's name.
\<close>

definition dispatch_line ::
  "train_group_info list \<Rightarrow> nat \<Rightarrow> (nat \<Rightarrow> int) \<Rightarrow> chars \<Rightarrow> chars \<Rightarrow> u8 buffer \<Rightarrow> user_command \<Rightarrow>
   user_command option" where
  "dispatch_line tr_groups num_groups addr gn pn ibuf cmd =
     (let starts = (\<lambda>s k e. do {
        r \<leftarrow> string_starts_with (b_data ibuf) (str s) (int (elems ibuf));
        if r \<noteq> 0 then k else e
      })
      in starts ''tr '' (parse_speed ibuf USER_CMD_TR 3 0 cmd)
        (starts ''rv '' (parse_address ibuf USER_CMD_RV 3 [0] cmd)
        (starts ''sw '' (parse_sw ibuf cmd)
        (starts ''sd '' (parse_speed ibuf USER_CMD_SD 3 0 cmd)
        (starts ''v '' (parse_address ibuf USER_CMD_V 2 [0] cmd)
        (starts ''r '' (parse_r ibuf cmd)
        (starts ''t2start '' (parse_address ibuf USER_CMD_T2START 8 [] cmd)
        (starts ''t2stop '' (parse_address ibuf USER_CMD_T2STOP 7 [] cmd)
        (starts ''loop '' (parse_speed ibuf USER_CMD_LOOP 5 1 cmd)
        (starts ''group '' (parse_group ibuf gn cmd)
        (starts ''ungroup '' (parse_ungroup tr_groups num_groups ibuf gn cmd)
        (starts ''set '' (parse_set ibuf pn cmd)
        (starts ''trg '' (parse_trg tr_groups num_groups addr ibuf gn cmd)
        (starts ''rvg '' (parse_rvg tr_groups num_groups addr ibuf gn cmd)
        (do {
           r \<leftarrow> string_starts_with (b_data ibuf) (str ''stop'') (int (elems ibuf));
           if r \<noteq> 0 \<and> elems ibuf = 4 then Some (cmd\<lparr>uc_type := USER_CMD_STOP\<rparr>)
           else do {
             r \<leftarrow> string_starts_with (b_data ibuf) (str ''go'') (int (elems ibuf));
             if r \<noteq> 0 \<and> elems ibuf = 2 then Some (cmd\<lparr>uc_type := USER_CMD_GO\<rparr>)
             else do {
               r \<leftarrow> string_starts_with (b_data ibuf) (str ''q'') (int (elems ibuf));
               Some (if r \<noteq> 0 \<and> elems ibuf = 1 then cmd\<lparr>uc_type := USER_CMD_Q\<rparr> else cmd)
             }
           }
         })))))))))))))))"

definition parse_command ::
  "train_group_info list \<Rightarrow> nat \<Rightarrow> (nat \<Rightarrow> int) \<Rightarrow> chars \<Rightarrow> chars \<Rightarrow> u8 buffer \<Rightarrow> user_command \<Rightarrow> u8 \<Rightarrow>
   (bool \<times> u8 buffer \<times> user_command) option" where
  "parse_command tr_groups num_groups addr gn pn ibuf cmd data =
     (if data = 13 then
        (if elems ibuf = 0 then Some (True, ibuf, cmd)
         else do {
           cmd' \<leftarrow> dispatch_line tr_groups num_groups addr gn pn ibuf user_command_reset;
           b \<leftarrow> char_buffer_clear ibuf;
           Some (True, buffer_empty b, cmd')
         })
      else do {
        (b, r) \<leftarrow> buffer_put_safe ibuf data;
        if r \<noteq> 0 then do {
          b' \<leftarrow> char_buffer_clear b;
          Some (True, buffer_empty b', user_command_reset)
        }
        else Some (False, b, cmd)
      })"

section \<open>The input loop\<close>

text \<open>
  One character of the loop of \<open>project_first_user_task\<close>: the buffer and the command after it, the
  commands sent to the dispatcher, and whether the loop goes on.
\<close>

definition backspace :: "u8 buffer \<Rightarrow> u8 buffer option" where
  "backspace b = do {
     let i = (if sint (b_in b) - 1 < 0 then 0 else b_in b - 1);
     d \<leftarrow> array_set (b_data b) (unat i) 0;
     Some (b\<lparr>b_in := i, b_data := d,
       b_elems := (if sint (b_elems b) - 1 < 0 then 0 else b_elems b - 1)\<rparr>)
   }"

definition input_step ::
  "train_group_info list \<Rightarrow> nat \<Rightarrow> (nat \<Rightarrow> int) \<Rightarrow> chars \<Rightarrow> chars \<Rightarrow> u8 buffer \<Rightarrow> user_command \<Rightarrow> u8 \<Rightarrow>
   (u8 buffer \<times> user_command \<times> user_command list \<times> bool) option" where
  "input_step tr_groups num_groups addr gn pn ibuf cmd c =
     (if c = 127 \<or> c = 8 then do { b \<leftarrow> backspace ibuf; Some (b, cmd, [], True) }
      else do {
        (parsed, b, cmd') \<leftarrow> parse_command tr_groups num_groups addr gn pn ibuf cmd c;
        Some (b, cmd', if parsed \<and> uc_type cmd' \<noteq> NULL_USER_CMD then [cmd'] else [],
          \<not> (parsed \<and> uc_type cmd' = USER_CMD_Q))
      })"

fun input_run ::
  "train_group_info list \<Rightarrow> nat \<Rightarrow> (nat \<Rightarrow> int) \<Rightarrow> chars \<Rightarrow> chars \<Rightarrow> u8 buffer \<Rightarrow> user_command \<Rightarrow> u8 list \<Rightarrow>
   (u8 buffer \<times> user_command \<times> user_command list \<times> bool) option" where
  "input_run tr_groups num_groups addr gn pn ibuf cmd [] = Some (ibuf, cmd, [], True)"
| "input_run tr_groups num_groups addr gn pn ibuf cmd (c # cs) = do {
     (b, cmd1, sent, go) \<leftarrow> input_step tr_groups num_groups addr gn pn ibuf cmd c;
     if go then do {
       (b2, cmd2, sent2, go2) \<leftarrow> input_run tr_groups num_groups addr gn pn b cmd1 cs;
       Some (b2, cmd2, sent @ sent2, go2)
     }
     else Some (b, cmd1, sent, False)
   }"

section \<open>Lines\<close>

text \<open>A number below 100 as it is typed.\<close>

definition dec_digits :: "nat \<Rightarrow> nat list" where
  "dec_digits n = (if n < 10 then [n] else [n div 10, n mod 10])"

abbreviation dec :: "nat \<Rightarrow> chars" where
  "dec n \<equiv> map digit_char (dec_digits n)"

text \<open>The buffer after typing a line: the rest of its array starts with a zero.\<close>

definition typed :: "chars \<Rightarrow> u8 buffer \<Rightarrow> bool" where
  "typed line ibuf \<longleftrightarrow> (\<exists>rest. b_data ibuf = line @ 0 # rest) \<and> elems ibuf = length line"

lemma dec_digits_less: "n < 100 \<Longrightarrow> d \<in> set (dec_digits n) \<Longrightarrow> d < 10"
  by (auto simp: dec_digits_def split: if_splits)

lemma dec_digits_nonempty: "dec_digits n \<noteq> []"
  by (simp add: dec_digits_def)

lemma parse_two_digit_dec:
  assumes "n < 100" "a2d c = -1"
  shows "parse_two_digit_number (dec n @ c # rest) = Some (int n)"
proof (cases "n < 10")
  case False
  then have "int n = 10 * int (n div 10) + int (n mod 10)" by presburger
  then show ?thesis using False assms digit_char(1) [of "n div 10"] digit_char(1) [of "n mod 10"]
    by (simp add: dec_digits_def parse_two_digit_number_def array_get_def)
qed (use assms digit_char(1) [of n] in \<open>simp add: dec_digits_def parse_two_digit_number_def array_get_def\<close>)

lemma is_valid_number_digits:
  assumes "\<forall>d \<in> set ds. d < 10"
  shows "(\<And>k. k < length ds \<Longrightarrow> array_get (b_data buf) (s + k) = Some (digit_char (ds ! k))) \<Longrightarrow>
    is_valid_number_loop buf ([s..<s + length ds] @ rest) = is_valid_number_loop buf rest"
  using assms
proof (induction ds arbitrary: s)
  case (Cons d ds)
  have d: "array_get (b_data buf) s = Some (digit_char d)" using Cons.prems(1) [of 0] by simp
  have "array_get (b_data buf) (Suc s + k) = Some (digit_char (ds ! k))" if "k < length ds" for k
    using Cons.prems(1) [of "Suc k"] that by simp
  from Cons.IH [OF this] have ih: "is_valid_number_loop buf ([Suc s..<Suc s + length ds] @ rest) =
      is_valid_number_loop buf rest"
    using Cons.prems(2) by simp
  have "[s..<s + length (d # ds)] = s # [Suc s..<Suc s + length ds]"
    by (simp add: upt_conv_Cons del: upt_Suc)
  then show ?case using d digit_char [of d] Cons.prems(2) ih by simp
qed simp

text \<open>A number followed by a space, and one that ends the line.\<close>

lemma number_at:
  assumes data: "b_data buf = pre @ dec n @ post" and n: "n < 100"
    and len: "length pre + length (dec n) \<le> elems buf"
  shows "is_valid_number buf (length pre) =
    is_valid_number_loop buf [length pre + length (dec n)..<elems buf]"
proof -
  let ?l = "length pre + length (dec n)"
  have "[length pre..<elems buf] = [length pre..<?l] @ [?l..<elems buf]"
    using len upt_add_eq_append [of "length pre" ?l "elems buf - ?l"] by simp
  moreover have "is_valid_number_loop buf ([length pre..<length pre + length (dec_digits n)] @ [?l..<elems buf]) =
      is_valid_number_loop buf [?l..<elems buf]"
    by (rule is_valid_number_digits) (use n dec_digits_less in \<open>auto simp: data nth_append\<close>)
  moreover have "\<not> length pre \<ge> elems buf" using dec_digits_nonempty [of n] len by (cases "dec_digits n") auto
  ultimately show ?thesis by (simp add: is_valid_number_def)
qed

lemma number_space:
  assumes "b_data buf = pre @ dec n @ 32 # post" "n < 100" "length pre + length (dec n) < elems buf"
  shows "is_valid_number buf (length pre) = Some (int (length pre + length (dec n)) + 1)"
proof -
  have "[length pre + length (dec n)..<elems buf] =
      (length pre + length (dec n)) # [Suc (length pre + length (dec n))..<elems buf]"
    using assms(3) by (simp add: upt_conv_Cons)
  moreover have "array_get (b_data buf) (length pre + length (dec n)) = Some 32"
    using assms(1) by (simp add: array_get_def nth_append)
  ultimately show ?thesis using number_at [OF assms(1,2)] assms(3) by simp
qed

lemma number_end:
  assumes "b_data buf = pre @ dec n @ post" "n < 100" "length pre + length (dec n) = elems buf"
  shows "is_number buf (length pre) = Some (Some (elems buf))"
  using number_at [OF assms(1,2)] assms(3) by (simp add: is_number_def)

lemma parse_speed_line:
  assumes t: "typed (pre @ dec a @ 32 # dec v) ibuf" and a: "a < 100" and v: "v \<le> 14" "lo \<le> int v"
  shows "parse_speed ibuf ty (length pre) lo cmd = Some (set_command ty [int a, int v] cmd)"
proof -
  obtain rest where data: "b_data ibuf = pre @ dec a @ 32 # dec v @ 0 # rest" and
    len: "elems ibuf = length (pre @ dec a @ 32 # dec v)"
    using t by (auto simp: typed_def)
  let ?pre = "pre @ dec a @ [32]"
  have v100: "v < 100" using v(1) by simp
  have 1: "is_valid_number ibuf (length pre) = Some (int (length ?pre))"
    using number_space [OF data a] len by simp
  have 2: "is_number ibuf (length ?pre) = Some (Some (elems ibuf))"
    by (rule number_end [where post = "0 # rest", OF _ v100]) (use data len in simp_all)
  have 3: "parse_two_digit_number (drop (length pre) (b_data ibuf)) = Some (int a)"
    "parse_two_digit_number (drop (length ?pre) (b_data ibuf)) = Some (int v)"
    using parse_two_digit_dec [OF a, of 32] parse_two_digit_dec [OF v100, of 0]
    by (simp_all add: data a2d_def)
  show ?thesis unfolding parse_speed_def 1
    using 2 3 v by (simp del: length_append)
qed

lemma clear_typed: "typed line ibuf \<Longrightarrow> \<exists>b. char_buffer_clear ibuf = Some b"
  by (auto simp: typed_def char_buffer_clear_def)

lemma tr_command_read:
  assumes t: "typed (map of_char ''tr '' @ dec a @ 32 # dec v) ibuf" and a: "a < 100" and v: "v \<le> 14"
    and b: "char_buffer_clear ibuf = Some b"
  shows "parse_command tr_groups num_groups addr gn pn ibuf cmd 13 = Some (True, buffer_empty b,
    \<lparr>uc_type = USER_CMD_TR, uc_data = [int a, int v, 0, 0, 0, 0, 0, 0, 0, 0]\<rparr>)"
proof -
  obtain rest where data: "b_data ibuf = [116, 114, 32] @ dec a @ 32 # dec v @ 0 # rest" and
    len: "elems ibuf = 3 + length (dec a @ 32 # dec v)"
    using t by (auto simp: typed_def)
  have "parse_speed ibuf USER_CMD_TR 3 0 c = Some (set_command USER_CMD_TR [int a, int v] c)" for c
    using parse_speed_line [OF t a v, of 0] by (simp add: numeral_3_eq_3)
  moreover obtain x d where "dec a @ 32 # dec v @ 0 # rest = x # d" by (cases "dec a") auto
  then have "string_starts_with (b_data ibuf) (str ''tr '') (int (elems ibuf)) = Some 1"
    using len by (simp add: data string_starts_with_def str_def)
  ultimately show ?thesis using b len
    by (simp add: parse_command_def dispatch_line_def buffer_empty_def user_command_reset_def set_command_def
        numeral_eq_Suc)
qed

lemma user_command_reset_eq:
  "user_command_reset = \<lparr>uc_type = NULL_USER_CMD, uc_data = [0, 0, 0, 0, 0, 0, 0, 0, 0, 0]\<rparr>"
  by (simp add: user_command_reset_def numeral_eq_Suc)

text \<open>The buffer between lines, and while a line is typed.\<close>

definition line_so_far :: "chars \<Rightarrow> u8 buffer \<Rightarrow> bool" where
  "line_so_far line b \<longleftrightarrow> length line < 64 \<and> b_data b = line @ replicate (64 - length line) 0 \<and>
     b_size b = 64 \<and> b_elems b = of_nat (length line) \<and> b_in b = of_nat (length line) \<and> b_out b = 0"

lemma unat_small: "n \<le> 64 \<Longrightarrow> unat (of_nat n :: u32) = n"
  by (simp add: unsigned_of_nat take_bit_nat_eq_self)

lemma line_so_far_typed:
  assumes "line_so_far line b" shows "typed line b"
proof -
  have "replicate (64 - length line) (0 :: u8) = 0 # replicate (63 - length line) 0"
    using Suc_diff_le [of "length line" 63] assms by (simp add: line_so_far_def flip: replicate_Suc)
  then show ?thesis using assms by (auto simp: line_so_far_def typed_def unat_small)
qed

lemma line_so_far_put:
  assumes "line_so_far line b" "length line < 63" "c \<noteq> 13" "c \<noteq> 127" "c \<noteq> 8"
  shows "\<exists>b'. input_step tr_groups num_groups addr gn pn b cmd c = Some (b', cmd, [], True) \<and>
    line_so_far (line @ [c]) b'"
proof -
  let ?n = "length line"
  let ?b = "b\<lparr>b_data := (b_data b)[?n := c], b_in := of_nat ?n + 1, b_elems := of_nat ?n + 1\<rparr>"
  have n: "unat (of_nat ?n :: u32) = ?n" "unat (of_nat (Suc ?n) :: u32) = Suc ?n"
    using assms(2) unat_small [of ?n] unat_small [of "Suc ?n"] by simp_all
  have k: "unat (64 :: u32) = 64" by simp
  have "\<not> (64 :: u32) \<le> of_nat ?n" "\<not> (64 :: u32) \<le> of_nat (Suc ?n)"
    unfolding word_le_nat_alt n k using assms(2) by simp_all
  then have "\<not> of_nat ?n \<ge> (64 :: u32)" "\<not> of_nat ?n + 1 \<ge> (64 :: u32)"
    by (simp_all add: add.commute)
  then have "buffer_put_safe b c = Some (?b, 0)"
    using assms(1,2) n
    by (simp add: buffer_put_safe_def buffer_put_def buffer_is_full_def line_so_far_def Let_def)
  then have "input_step tr_groups num_groups addr gn pn b cmd c = Some (?b, cmd, [], True)"
    using assms(3-5) by (simp add: input_step_def parse_command_def)
  moreover have "replicate (64 - ?n) (0 :: u8) = 0 # replicate (63 - ?n) 0"
    using Suc_diff_le [of ?n 63] assms(2) by (simp flip: replicate_Suc)
  then have "line_so_far (line @ [c]) ?b"
    using assms(1,2) by (simp add: line_so_far_def list_update_append add.commute)
  ultimately show ?thesis by blast
qed

lemma input_run_line:
  assumes "\<forall>c \<in> set cs. c \<noteq> 13 \<and> c \<noteq> 127 \<and> c \<noteq> 8"
  shows "line_so_far line b \<Longrightarrow> length line + length cs < 64 \<Longrightarrow>
    \<exists>b'. line_so_far (line @ cs) b' \<and> (\<forall>r. input_run tr_groups num_groups addr gn pn b cmd (cs @ r) =
      input_run tr_groups num_groups addr gn pn b' cmd r)"
  using assms
proof (induction cs arbitrary: line b)
  case (Cons c cs)
  then obtain b1 where b1: "input_step tr_groups num_groups addr gn pn b cmd c = Some (b1, cmd, [], True)"
    "line_so_far (line @ [c]) b1"
    using line_so_far_put [of line b c tr_groups num_groups addr gn pn cmd] by auto
  obtain b' where "line_so_far ((line @ [c]) @ cs) b'"
    "\<forall>r. input_run tr_groups num_groups addr gn pn b1 cmd (cs @ r) = input_run tr_groups num_groups addr gn pn b' cmd r"
    using Cons.IH [OF b1(2)] Cons.prems by auto
  then show ?case using b1(1) by (intro exI [of _ b']) simp
qed auto

lemma line_so_far_clear:
  assumes "line_so_far line b"
  shows "\<exists>b'. char_buffer_clear b = Some b' \<and> line_so_far [] (buffer_empty b')"
  using assms by (auto simp: char_buffer_clear_def line_so_far_def buffer_empty_def unat_small
      simp flip: replicate_add)


definition fresh_line :: "u8 buffer" where
  "fresh_line = buffer_init (replicate 64 0) 64"

lemma fresh_line: "line_so_far [] fresh_line"
  by (simp add: line_so_far_def fresh_line_def buffer_init_def)


section \<open>Lines that go wrong\<close>

text \<open>A second space makes the address negative: \<open>tr  5\<close> sets the speed of train -5.\<close>

lemma tr_two_spaces:
  assumes "typed [116, 114, 32, 32, 53] b"
  shows "\<exists>b'. parse_command tr_groups num_groups addr gn pn b cmd 13 =
    Some (True, b', \<lparr>uc_type = USER_CMD_TR, uc_data = [-5, 5, 0, 0, 0, 0, 0, 0, 0, 0]\<rparr>)"
proof -
  obtain rest where d: "b_data b = [116, 114, 32, 32, 53, 0] @ rest" "elems b = 5"
    using assms by (auto simp: typed_def)
  have "parse_speed b USER_CMD_TR 3 0 c = Some (set_command USER_CMD_TR [-5, 5] c)" for c
    using d by (simp add: parse_speed_def is_number_def is_valid_number_def upt_rec_numeral array_get_def
        parse_two_digit_number_def a2d_def)
  moreover have "string_starts_with (b_data b) (str ''tr '') (int (elems b)) = Some 1"
    using d by (simp add: string_starts_with_def str_def)
  moreover obtain b' where "char_buffer_clear b = Some b'" using clear_typed [OF assms] by blast
  ultimately show ?thesis using d
    by (simp add: parse_command_def dispatch_line_def user_command_reset_eq set_command_def)
qed

text \<open>Return on an empty line sends the previous command once more.\<close>

lemma empty_line_repeats:
  assumes "elems b = 0" "uc_type cmd \<noteq> NULL_USER_CMD" "uc_type cmd \<noteq> USER_CMD_Q"
  shows "input_step tr_groups num_groups addr gn pn b cmd 13 = Some (b, cmd, [cmd], True)"
  using assms by (simp add: input_step_def parse_command_def)

text \<open>
  Backspace on a full line of 64 characters, where the write index has wrapped: the first character
  is erased, the last stays, and the next one typed replaces the first.
\<close>

lemma backspace_full_line:
  assumes "b_size b = 64" "b_elems b = 64" "b_in b = 0" "length (b_data b) = 64"
  shows "backspace b = Some (b\<lparr>b_data := (b_data b)[0 := 0], b_elems := 63\<rparr>)"
  using assms by (simp add: backspace_def Let_def)

lemma copy_name_numeral:
  "copy_name ibuf i (numeral k) name j =
     (if i < elems ibuf then do {
        c \<leftarrow> array_get (b_data ibuf) i;
        if c \<noteq> 32 then do { name' \<leftarrow> array_set name j c; copy_name ibuf (i + 1) (pred_numeral k) name' (j + 1) }
        else Some (i, j, name)
      }
      else Some (i, j, name))"
  by (simp add: numeral_eq_Suc)

text \<open>A group's name is stored through a NULL pointer: \<open>group a 1\<close>.\<close>

lemma group_command_null:
  assumes "typed [103, 114, 111, 117, 112, 32, 97, 32, 49] b" "length gn = 4"
  shows "parse_command tr_groups num_groups addr gn pn b cmd 13 = None"
proof -
  obtain rest where d: "b_data b = [103, 114, 111, 117, 112, 32, 97, 32, 49, 0] @ rest" "elems b = 9"
    using assms by (auto simp: typed_def)
  have "parse_group b gn c = None" for c
    using d assms(2) by (simp add: parse_group_def MAX_GROUP_NAME_LEN_def array_get_def array_set_def copy_name_numeral)
  moreover have "string_starts_with (b_data b) (str p) (int (elems b)) = Some 0"
    if "p \<in> {''tr '', ''rv '', ''sw '', ''sd '', ''v '', ''r '', ''t2start '', ''t2stop '', ''loop ''}" for p
    using that d by (auto simp: string_starts_with_def str_def)
  moreover have "string_starts_with (b_data b) (str ''group '') (int (elems b)) = Some 1"
    using d by (simp add: string_starts_with_def str_def)
  ultimately show ?thesis using d by (simp add: parse_command_def dispatch_line_def)
qed

end
