(* ===== verification/Command_Dispatcher.thy ===== *)
theory Command_Dispatcher
  imports Command_Line Track_State
begin

text \<open>
  The command dispatcher, \<open>usr/command_dispatcher.c\<close>: it hands the commands of the user on to the
  conductors of the trains, one at a time, and keeps what they cannot take yet. One message is one
  step; the events are what it sends, in order. \<open>ok\<close> says that the calls it asserts on return what it
  expects, \<open>new\<close> gives the results of \<open>Create\<close> in turn, \<open>name_at\<close> the string at an address. \<open>None\<close> is
  a failed assertion or an access outside an array.
\<close>

definition TR_Q_LEN :: int where "TR_Q_LEN = 5"
definition NO_DESTINATION :: int where "NO_DESTINATION = 7777"
definition MAX_GROUPS :: int where "MAX_GROUPS = 6"
definition MAX_GROUP_MEMBERS :: int where "MAX_GROUP_MEMBERS = 6"
definition TRACKA_SIZE :: nat where "TRACKA_SIZE = 144"

record conductor_data =
  cd_t :: int
  cd_tid :: int
  cd_msgs_available :: int
  cd_msgs_i :: int
  cd_msgs_o :: int
  cd_rdy :: bool
  cd_auto_mode :: bool
  cd_msgs :: "user_command list"
  cd_t2_tid :: int
  cd_destination :: int

datatype disp_event =
    D_REPLY int
  | D_REPLY_DESTINATION int int
  | D_COMMAND int user_command
  | D_AUTOMODE
  | D_PUTC u8
  | D_SETTRAIN int int
  | D_SETGROUP int nat
  | D_SUNSET int
  | D_KILL int
  | D_T2_START int int
  | D_SWITCH int int bool
  | D_CALIB_V int int
  | D_SETDIRECTION int bool

section \<open>One conductor\<close>

definition is_auto_cmd :: "user_command \<Rightarrow> bool" where
  "is_auto_cmd cmd \<longleftrightarrow> uc_type cmd = USER_CMD_SD \<or> uc_type cmd = USER_CMD_R \<or> uc_type cmd = USER_CMD_LOOP"

definition cmd_data :: "user_command \<Rightarrow> nat \<Rightarrow> int option" where
  "cmd_data cmd i = array_get (uc_data cmd) i"

definition queue_next :: "int \<Rightarrow> int" where
  "queue_next i = (if i < TR_Q_LEN - 1 then i + 1 else 0)"

definition msg_at :: "conductor_data \<Rightarrow> int \<Rightarrow> user_command option" where
  "msg_at c i = do { guard_opt (i \<ge> 0); array_get (cd_msgs c) (nat i) }"

text \<open>The message at \<open>msgs_o\<close> goes to the conductor.\<close>

definition send_next :: "bool \<Rightarrow> conductor_data \<Rightarrow> (conductor_data \<times> disp_event list) option" where
  "send_next ok c = do {
     m \<leftarrow> msg_at c (cd_msgs_o c);
     d \<leftarrow> (if uc_type m = USER_CMD_R then cmd_data m 1 else Some (cd_destination c));
     guard_opt ok;
     avail \<leftarrow> int32 (cd_msgs_available c - 1);
     Some (c\<lparr>cd_destination := d, cd_auto_mode := is_auto_cmd m, cd_msgs_o := queue_next (cd_msgs_o c),
       cd_msgs_available := avail, cd_rdy := False\<rparr>, [D_COMMAND (cd_tid c) m])
   }"

definition send_if_rdy :: "bool \<Rightarrow> user_command \<Rightarrow> conductor_data \<Rightarrow> (conductor_data \<times> disp_event list) option" where
  "send_if_rdy ok m c =
     (if cd_auto_mode c then do { guard_opt ok; Some (c, [D_AUTOMODE]) }
      else do {
        guard_opt (cd_msgs_i c \<ge> 0);
        ms \<leftarrow> array_set (cd_msgs c) (nat (cd_msgs_i c)) m;
        avail \<leftarrow> int32 (cd_msgs_available c + 1);
        let c1 = c\<lparr>cd_msgs := ms, cd_msgs_i := queue_next (cd_msgs_i c), cd_msgs_available := avail\<rparr>;
        if cd_rdy c1 then do {
          nxt \<leftarrow> msg_at c1 (cd_msgs_o c1);
          guard_opt (uc_type nxt \<noteq> NULL_USER_CMD);
          send_next ok c1
        }
        else Some (c1, [])
      })"

definition conductor_ready :: "bool \<Rightarrow> conductor_data \<Rightarrow> (conductor_data \<times> disp_event list) option" where
  "conductor_ready ok c =
     (if cd_msgs_available c \<noteq> 0 then send_next ok c
      else Some (c\<lparr>cd_rdy := True, cd_auto_mode := False\<rparr>, []))"

section \<open>The table of conductors\<close>

type_synonym conductors = "conductor_data list"

definition get_conductor :: "conductors \<Rightarrow> int \<Rightarrow> conductor_data option" where
  "get_conductor cs t = do { guard_opt (t \<ge> 0); array_get cs (nat t) }"

definition set_conductor :: "conductors \<Rightarrow> int \<Rightarrow> conductor_data \<Rightarrow> conductors option" where
  "set_conductor cs t c = do { guard_opt (t \<ge> 0); array_set cs (nat t) c }"

definition create_conductor :: "bool \<Rightarrow> int \<Rightarrow> int \<Rightarrow> conductors \<Rightarrow> (conductors \<times> disp_event list) option" where
  "create_conductor ok tid t cs = do {
     c \<leftarrow> get_conductor cs t;
     guard_opt (tid > 0);
     guard_opt ok;
     cs' \<leftarrow> set_conductor cs t (c\<lparr>cd_t := t, cd_tid := tid, cd_rdy := True, cd_msgs_i := 0, cd_msgs_o := 0,
       cd_msgs_available := 0, cd_auto_mode := False, cd_destination := NO_DESTINATION, cd_t2_tid := 0\<rparr>);
     Some (cs', [D_SETTRAIN tid t])
   }"

definition sunset_tid :: "bool \<Rightarrow> int \<Rightarrow> disp_event list option" where
  "sunset_tid ok tid = (if tid > 0 then do { guard_opt ok; Some [D_SUNSET tid] } else Some [])"

fun update_conductors ::
  "bool \<Rightarrow> (nat \<Rightarrow> int) \<Rightarrow> nat \<Rightarrow> int list \<Rightarrow> conductors \<Rightarrow> (conductors \<times> disp_event list) option" where
  "update_conductors ok new k [] cs = Some (cs, [])"
| "update_conductors ok new k (t # ts) cs = do {
     c \<leftarrow> get_conductor cs t;
     if cd_tid c = 0 then do {
       (cs1, ev1) \<leftarrow> create_conductor ok (new k) t cs;
       (cs2, ev2) \<leftarrow> update_conductors ok new (k + 1) ts cs1;
       Some (cs2, ev1 @ ev2)
     }
     else update_conductors ok new k ts cs
   }"

section \<open>The dispatcher\<close>

record dispatcher =
  d_conductors :: conductors
  d_active_trains :: "int list"
  d_num_active_trains :: int
  d_groups :: "train_group_info list"
  d_num_groups :: int
  d_switch_padding :: int
  d_spacing :: int
  d_spacing_error :: int
  d_spacing_catchup_time :: int
  d_track :: track_state

datatype disp_message =
    DM_USER user_command
  | DM_GET_DESTINATION u8
  | DM_READY u8
  | DM_OTHER

text \<open>The first \<open>n\<close> entries of an array, as a loop over them reads them.\<close>

definition array_prefix :: "'a list \<Rightarrow> int \<Rightarrow> 'a list option" where
  "array_prefix xs n = do { guard_opt (n \<le> int (length xs)); Some (take (nat n) xs) }"

definition dispatcher_init :: "bool \<Rightarrow> (nat \<Rightarrow> int) \<Rightarrow> dispatcher \<Rightarrow> (dispatcher \<times> disp_event list) option" where
  "dispatcher_init ok new d = do {
     guard_opt (length (d_conductors d) = 81);
     active \<leftarrow> array_prefix (d_active_trains d) (d_num_active_trains d);
     (cs, ev) \<leftarrow> update_conductors ok new 0 active (map (\<lambda>c. c\<lparr>cd_tid := 0\<rparr>) (d_conductors d));
     Some (d\<lparr>d_conductors := cs, d_num_groups := 0\<rparr>, ev)
   }"

text \<open>A command for one train.\<close>

definition train_command :: "bool \<Rightarrow> user_command \<Rightarrow> dispatcher \<Rightarrow> (dispatcher \<times> disp_event list) option" where
  "train_command ok cmd d = do {
     train \<leftarrow> cmd_data cmd 0;
     if train \<ge> 1 \<and> train \<le> 80 then do {
       c \<leftarrow> get_conductor (d_conductors d) train;
       if cd_tid c \<noteq> 0 then do {
         (c', ev) \<leftarrow> send_if_rdy ok cmd c;
         cs \<leftarrow> set_conductor (d_conductors d) train c';
         Some (d\<lparr>d_conductors := cs\<rparr>, ev)
       }
       else Some (d, [])
     }
     else Some (d, [])
   }"

fun set_active_loop :: "user_command \<Rightarrow> nat list \<Rightarrow> int list \<Rightarrow> int list option" where
  "set_active_loop cmd [] trains = Some trains"
| "set_active_loop cmd (i # is) trains = do {
     t \<leftarrow> cmd_data cmd (i + 2);
     ts \<leftarrow> array_set trains i t;
     set_active_loop cmd is ts
   }"

definition set_command_step ::
  "bool \<Rightarrow> (nat \<Rightarrow> int) \<Rightarrow> user_command \<Rightarrow> dispatcher \<Rightarrow> (dispatcher \<times> disp_event list) option" where
  "set_command_step ok new cmd d = do {
     p \<leftarrow> cmd_data cmd 0;
     v \<leftarrow> cmd_data cmd 1;
     if p = 1 then do {
       active \<leftarrow> set_active_loop cmd [0..<nat v] (d_active_trains d);
       trains \<leftarrow> array_prefix active v;
       (cs, ev) \<leftarrow> update_conductors ok new 0 trains (d_conductors d);
       Some (d\<lparr>d_num_active_trains := v, d_active_trains := active, d_conductors := cs\<rparr>, ev)
     }
     else if p = 2 then Some (d\<lparr>d_switch_padding := v\<rparr>, [])
     else if p = 3 then
       Some (d\<lparr>d_track := (if v = 0
         then (d_track d)\<lparr>ts_track := ts_tracka (d_track d), ts_nodes := TRACKA_SIZE\<rparr>
         else (d_track d)\<lparr>ts_track := ts_trackb (d_track d), ts_nodes := TRACKB_SIZE\<rparr>)\<rparr>, [])
     else if p = 4 then do {
       fwd \<leftarrow> cmd_data cmd 2;
       guard_opt ok;
       Some (d, [D_SETDIRECTION v (fwd \<noteq> 0)])
     }
     else if p = 5 then Some (d\<lparr>d_spacing := v\<rparr>, [])
     else if p = 6 then Some (d\<lparr>d_spacing_error := v\<rparr>, [])
     else if p = 7 then Some (d\<lparr>d_spacing_catchup_time := v\<rparr>, [])
     else None
   }"

text \<open>A new group: its members lose their own conductors to the one of the group.\<close>

fun group_members_loop ::
  "bool \<Rightarrow> user_command \<Rightarrow> nat list \<Rightarrow> int list \<Rightarrow> conductors \<Rightarrow> (int list \<times> conductors \<times> disp_event list) option" where
  "group_members_loop ok cmd [] ms cs = Some (ms, cs, [])"
| "group_members_loop ok cmd (i # is) ms cs = do {
     tr \<leftarrow> cmd_data cmd (3 + i);
     ms1 \<leftarrow> array_set ms i tr;
     c \<leftarrow> get_conductor cs tr;
     ev1 \<leftarrow> sunset_tid ok (cd_tid c);
     cs1 \<leftarrow> set_conductor cs tr (c\<lparr>cd_tid := 0\<rparr>);
     (ms2, cs2, ev2) \<leftarrow> group_members_loop ok cmd is ms1 cs1;
     Some (ms2, cs2, ev1 @ ev2)
   }"

definition group_step ::
  "bool \<Rightarrow> (nat \<Rightarrow> int) \<Rightarrow> (int \<Rightarrow> chars option) \<Rightarrow> user_command \<Rightarrow> dispatcher \<Rightarrow> (dispatcher \<times> disp_event list) option" where
  "group_step ok new name_at cmd d =
     (if d_num_groups d \<ge> MAX_GROUPS then Some (d, [])
      else do {
        group_name_len \<leftarrow> cmd_data cmd 0;
        guard_opt (group_name_len \<le> int MAX_GROUP_NAME_LEN);
        address \<leftarrow> cmd_data cmd 1;
        num_members \<leftarrow> cmd_data cmd 2;
        guard_opt (num_members \<le> MAX_GROUP_MEMBERS);
        guard_opt (d_num_groups d \<ge> 0);
        let n = nat (d_num_groups d);
        g \<leftarrow> array_get (d_groups d) n;
        name \<leftarrow> name_at address;
        name' \<leftarrow> array_prefix name (int MAX_GROUP_NAME_LEN);
        (ms, cs, ev) \<leftarrow> group_members_loop ok cmd [0..<nat num_members] (g_members g) (d_conductors d);
        guard_opt (new 0 > 0);
        guard_opt ok;
        gs \<leftarrow> array_set (d_groups d) n
          (g\<lparr>g_num_members := num_members, g_name := name', g_members := ms, g_tid := new 0\<rparr>);
        Some (d\<lparr>d_conductors := cs, d_groups := gs, d_num_groups := d_num_groups d + 1\<rparr>,
          ev @ [D_SETGROUP (new 0) n])
      })"

text \<open>The end of a group: every member gets a conductor again, and the later groups move up.\<close>

fun create_conductors_loop ::
  "bool \<Rightarrow> (nat \<Rightarrow> int) \<Rightarrow> nat \<Rightarrow> int list \<Rightarrow> conductors \<Rightarrow> (conductors \<times> disp_event list) option" where
  "create_conductors_loop ok new k [] cs = Some (cs, [])"
| "create_conductors_loop ok new k (t # ts) cs = do {
     (cs1, ev1) \<leftarrow> create_conductor ok (new k) t cs;
     (cs2, ev2) \<leftarrow> create_conductors_loop ok new (k + 1) ts cs1;
     Some (cs2, ev1 @ ev2)
   }"

fun shift_groups_loop :: "nat list \<Rightarrow> train_group_info list \<Rightarrow> train_group_info list option" where
  "shift_groups_loop [] gs = Some gs"
| "shift_groups_loop (i # is) gs = do {
     g \<leftarrow> array_get gs i;
     gs1 \<leftarrow> array_set gs (i - 1) g;
     shift_groups_loop is gs1
   }"

fun find_named_loop :: "chars \<Rightarrow> train_group_info list \<Rightarrow> nat list \<Rightarrow> nat option option" where
  "find_named_loop name gs [] = Some None"
| "find_named_loop name gs (i # is) = do {
     g \<leftarrow> array_get gs i;
     eq \<leftarrow> tstrcmp (g_name g) name;
     if eq \<noteq> 0 then Some (Some i) else find_named_loop name gs is
   }"

definition ungroup_step ::
  "bool \<Rightarrow> (nat \<Rightarrow> int) \<Rightarrow> (int \<Rightarrow> chars option) \<Rightarrow> user_command \<Rightarrow> dispatcher \<Rightarrow> (dispatcher \<times> disp_event list) option" where
  "ungroup_step ok new name_at cmd d = do {
     address \<leftarrow> cmd_data cmd 0;
     name \<leftarrow> name_at address;
     index \<leftarrow> find_named_loop name (d_groups d) [0..<nat (d_num_groups d)];
     case index of
       None \<Rightarrow> Some (d, [])
     | Some i \<Rightarrow> do {
         g \<leftarrow> array_get (d_groups d) i;
         ev1 \<leftarrow> sunset_tid ok (g_tid g);
         members \<leftarrow> array_prefix (g_members g) (g_num_members g);
         (cs, ev2) \<leftarrow> create_conductors_loop ok new 0 members (d_conductors d);
         gs \<leftarrow> shift_groups_loop [i + 1..<nat (d_num_groups d)] (d_groups d);
         guard_opt ok;
         Some (d\<lparr>d_conductors := cs, d_groups := gs, d_num_groups := d_num_groups d - 1\<rparr>, ev1 @ ev2)
       }
   }"

text \<open>
  One user command. \<open>addr i\<close> is the address of \<open>tr_groups[i]\<close>, which the commands for a group carry.
\<close>

definition CMD_GO :: u8 where "CMD_GO = 0x60"
definition CMD_STOP :: u8 where "CMD_STOP = 0x61"

definition user_command_step ::
  "bool \<Rightarrow> (nat \<Rightarrow> int) \<Rightarrow> (int \<Rightarrow> chars option) \<Rightarrow> (nat \<Rightarrow> int) \<Rightarrow> user_command \<Rightarrow> dispatcher \<Rightarrow>
   (dispatcher \<times> disp_event list) option" where
  "user_command_step ok new name_at addr cmd d = (case uc_type cmd of
       USER_CMD_GO \<Rightarrow> do { guard_opt ok; Some (d, [D_PUTC CMD_GO]) }
     | USER_CMD_STOP \<Rightarrow> do { guard_opt ok; Some (d, [D_PUTC CMD_STOP]) }
     | USER_CMD_Q \<Rightarrow> do { guard_opt ok; Some (d, [D_PUTC CMD_STOP]) }
     | USER_CMD_SD \<Rightarrow> train_command ok cmd d
     | USER_CMD_LOOP \<Rightarrow> train_command ok cmd d
     | USER_CMD_RV \<Rightarrow> train_command ok cmd d
     | USER_CMD_R \<Rightarrow> train_command ok cmd d
     | USER_CMD_TR \<Rightarrow> train_command ok cmd d
     | USER_CMD_T2START \<Rightarrow> do {
         train \<leftarrow> cmd_data cmd 0;
         c \<leftarrow> get_conductor (d_conductors d) train;
         if cd_t2_tid c = 0 then do {
           guard_opt (new 0 > 0);
           cs \<leftarrow> set_conductor (d_conductors d) train (c\<lparr>cd_t2_tid := new 0\<rparr>);
           guard_opt ok;
           Some (d\<lparr>d_conductors := cs\<rparr>, [D_T2_START (new 0) train])
         }
         else Some (d, [])
       }
     | USER_CMD_T2STOP \<Rightarrow> do {
         train \<leftarrow> cmd_data cmd 0;
         c \<leftarrow> get_conductor (d_conductors d) train;
         if cd_t2_tid c \<noteq> 0 then do {
           guard_opt ok;
           cs \<leftarrow> set_conductor (d_conductors d) train (c\<lparr>cd_t2_tid := 0\<rparr>);
           Some (d\<lparr>d_conductors := cs\<rparr>, [D_KILL (cd_t2_tid c)])
         }
         else Some (d, [])
       }
     | USER_CMD_SW \<Rightarrow> do {
         turnout_num \<leftarrow> cmd_data cmd 0;
         state \<leftarrow> cmd_data cmd 1;
         guard_opt (new 0 > 0);
         guard_opt ok;
         Some (d, [D_SWITCH (new 0) turnout_num (state = 67)])
       }
     | USER_CMD_V \<Rightarrow> do {
         train \<leftarrow> cmd_data cmd 0;
         guard_opt ok;
         Some (d, [D_CALIB_V (new 0) train])
       }
     | USER_CMD_SET \<Rightarrow> set_command_step ok new cmd d
     | USER_CMD_GROUP \<Rightarrow> group_step ok new name_at cmd d
     | USER_CMD_UNGROUP \<Rightarrow> ungroup_step ok new name_at cmd d
     | USER_CMD_TRG \<Rightarrow> do {
         p \<leftarrow> cmd_data cmd 0;
         i \<leftarrow> List.find (\<lambda>i. addr i = p) [0..<length (d_groups d)];
         guard_opt ok;
         Some (d, [D_COMMAND (g_tid (d_groups d ! i)) cmd])
       }
     | USER_CMD_RVG \<Rightarrow> do {
         p \<leftarrow> cmd_data cmd 0;
         i \<leftarrow> List.find (\<lambda>i. addr i = p) [0..<length (d_groups d)];
         guard_opt ok;
         Some (d, [D_COMMAND (g_tid (d_groups d ! i)) cmd])
       }
     | NULL_USER_CMD \<Rightarrow> None)"

text \<open>
  Whether the sender is answered at once: not when it asks for a destination, and not the demo task of
  a train, which is to wait until its route is done.
\<close>

definition replies_first :: "int \<Rightarrow> disp_message \<Rightarrow> dispatcher \<Rightarrow> bool option" where
  "replies_first sender_tid m d = (case m of
       DM_GET_DESTINATION t \<Rightarrow> Some False
     | DM_USER cmd \<Rightarrow>
         if uc_type cmd = USER_CMD_R then do {
           t \<leftarrow> cmd_data cmd 0;
           c \<leftarrow> get_conductor (d_conductors d) t;
           Some (sender_tid \<noteq> cd_t2_tid c)
         }
         else Some True
     | _ \<Rightarrow> Some True)"

definition dispatch_message ::
  "bool \<Rightarrow> (nat \<Rightarrow> int) \<Rightarrow> (int \<Rightarrow> chars option) \<Rightarrow> (nat \<Rightarrow> int) \<Rightarrow> int \<Rightarrow> disp_message \<Rightarrow> dispatcher \<Rightarrow>
   (dispatcher \<times> disp_event list) option" where
  "dispatch_message ok new name_at addr sender_tid m d = (case m of
       DM_USER cmd \<Rightarrow> user_command_step ok new name_at addr cmd d
     | DM_GET_DESTINATION train \<Rightarrow> do {
         c \<leftarrow> get_conductor (d_conductors d) (uint train);
         guard_opt ok;
         Some (d, [D_REPLY_DESTINATION sender_tid (cd_destination c)])
       }
     | DM_READY train \<Rightarrow> do {
         c \<leftarrow> get_conductor (d_conductors d) (uint train);
         (c1, ev) \<leftarrow> conductor_ready ok c;
         guard_opt (cd_t2_tid c1 \<noteq> 0 \<longrightarrow> ok);
         cs \<leftarrow> set_conductor (d_conductors d) (uint train) (c1\<lparr>cd_destination := NO_DESTINATION\<rparr>);
         Some (d\<lparr>d_conductors := cs\<rparr>, ev @ (if cd_t2_tid c1 \<noteq> 0 then [D_REPLY (cd_t2_tid c1)] else []))
       }
     | DM_OTHER \<Rightarrow> None)"

definition dispatcher_step ::
  "bool \<Rightarrow> (nat \<Rightarrow> int) \<Rightarrow> (int \<Rightarrow> chars option) \<Rightarrow> (nat \<Rightarrow> int) \<Rightarrow> int \<Rightarrow> disp_message \<Rightarrow> dispatcher \<Rightarrow>
   (dispatcher \<times> disp_event list) option" where
  "dispatcher_step ok new name_at addr sender_tid m d = do {
     first \<leftarrow> replies_first sender_tid m d;
     guard_opt (first \<longrightarrow> ok);
     (d', ev) \<leftarrow> dispatch_message ok new name_at addr sender_tid m d;
     Some (d', (if first then [D_REPLY sender_tid] else []) @ ev)
   }"

section \<open>The queue of a conductor\<close>

definition cd_wf :: "conductor_data \<Rightarrow> bool" where
  "cd_wf c \<longleftrightarrow> length (cd_msgs c) = 5 \<and> 0 \<le> cd_msgs_available c \<and> cd_msgs_available c \<le> 5 \<and>
     0 \<le> cd_msgs_o c \<and> cd_msgs_o c < 5 \<and> cd_msgs_i c = (cd_msgs_o c + cd_msgs_available c) mod 5"

definition cd_queue :: "conductor_data \<Rightarrow> user_command list" where
  "cd_queue c = map (\<lambda>k. cd_msgs c ! ((nat (cd_msgs_o c) + k) mod 5)) [0..<nat (cd_msgs_available c)]"

text \<open>A conductor that is ready has nothing waiting and drives no automatic command.\<close>

definition cd_ok :: "conductor_data \<Rightarrow> bool" where
  "cd_ok c \<longleftrightarrow> cd_wf c \<and> (cd_rdy c \<longrightarrow> cd_queue c = [] \<and> \<not> cd_auto_mode c)"

lemma cd_queue_Nil: "cd_wf c \<Longrightarrow> cd_queue c = [] \<longleftrightarrow> cd_msgs_available c = 0"
  by (auto simp: cd_queue_def cd_wf_def)

lemma length_cd_queue: "length (cd_queue c) = nat (cd_msgs_available c)"
  by (simp add: cd_queue_def)

lemma queue_next_mod: "0 \<le> i \<Longrightarrow> i < 5 \<Longrightarrow> queue_next i = (i + 1) mod 5"
  unfolding queue_next_def TR_Q_LEN_def by presburger

definition enqueue_msg :: "user_command \<Rightarrow> conductor_data \<Rightarrow> conductor_data" where
  "enqueue_msg m c = c\<lparr>cd_msgs := (cd_msgs c)[nat (cd_msgs_i c) := m], cd_msgs_i := queue_next (cd_msgs_i c),
     cd_msgs_available := cd_msgs_available c + 1\<rparr>"

lemma mod_add_neq:
  fixes a k n m :: nat
  assumes "k < n" "n < m"
  shows "(a + k) mod m \<noteq> (a + n) mod m"
proof
  assume "(a + k) mod m = (a + n) mod m"
  then have "m dvd a + n - (a + k)" using assms(1) by (metis add_le_mono1 add.commute less_imp_le mod_eq_dvd_iff_nat)
  then show False using assms nat_dvd_not_less [of "n - k" m] by simp
qed

lemma enqueue_msg_queue:
  assumes wf: "cd_wf c" and room: "length (cd_queue c) < 5"
  shows "cd_wf (enqueue_msg m c) \<and> cd_queue (enqueue_msg m c) = cd_queue c @ [m]"
proof
  define o' n where "o' = nat (cd_msgs_o c)" and "n = nat (cd_msgs_available c)"
  have c: "cd_msgs_o c = int o'" "cd_msgs_available c = int n" "o' < 5" "n < 5" "length (cd_msgs c) = 5"
    using wf room by (auto simp: cd_wf_def o'_def n_def length_cd_queue)
  have i: "cd_msgs_i c = int ((o' + n) mod 5)"
    using wf c by (simp add: cd_wf_def zmod_int)
  have succ: "(int ((o' + n) mod 5) + 1) mod 5 = (int o' + (int n + 1)) mod 5" by presburger
  show "cd_wf (enqueue_msg m c)"
    using c queue_next_mod [of "cd_msgs_i c"] succ by (simp add: enqueue_msg_def cd_wf_def i)
  have "\<forall>k\<in>{0..<n}. (o' + n) mod 5 \<noteq> (o' + k) mod 5"
    using \<open>n < 5\<close> mod_add_neq [of _ n 5 o'] by (metis atLeastLessThan_iff)
  then show "cd_queue (enqueue_msg m c) = cd_queue c @ [m]"
    using c i by (simp add: cd_queue_def enqueue_msg_def nat_add_distrib)
qed

lemma send_next_effect:
  assumes wf: "cd_wf c" and q: "cd_queue c = m # ms" and step: "send_next ok c = Some (c', ev)"
  shows "cd_wf c' \<and> cd_queue c' = ms \<and> \<not> cd_rdy c' \<and> cd_auto_mode c' = is_auto_cmd m \<and>
    cd_tid c' = cd_tid c \<and> ev = [D_COMMAND (cd_tid c) m]"
proof -
  define o' n where "o' = nat (cd_msgs_o c)" and "n = nat (cd_msgs_available c)"
  have c: "cd_msgs_o c = int o'" "cd_msgs_available c = int n" "o' < 5" "0 < n" "n \<le> 5" "length (cd_msgs c) = 5"
    using wf q cd_queue_Nil [OF wf] by (auto simp: cd_wf_def o'_def n_def)
  have qn: "cd_queue c = cd_msgs c ! o' # map (\<lambda>k. cd_msgs c ! ((o' + Suc k) mod 5)) [0..<n - 1]"
  proof -
    obtain n' where n': "n = Suc n'" using c(4) by (cases n) auto
    have "cd_queue c = map (\<lambda>k. cd_msgs c ! ((o' + k) mod 5)) [0..<Suc n']"
      using c(1,2) n' by (simp add: cd_queue_def del: upt_Suc of_nat_Suc)
    then show ?thesis using c(3) n' by (simp add: map_upt_Suc del: upt_Suc)
  qed
  have m: "msg_at c (cd_msgs_o c) = Some m" using q qn c by (simp add: msg_at_def)
  obtain d where c': "c' = c\<lparr>cd_destination := d, cd_auto_mode := is_auto_cmd m,
      cd_msgs_o := queue_next (cd_msgs_o c), cd_msgs_available := cd_msgs_available c - 1, cd_rdy := False\<rparr>"
    and ev: "ev = [D_COMMAND (cd_tid c) m]"
    using step m by (auto simp: send_next_def int32_Some split: bind_splits)
  have o2: "queue_next (int o') = int (Suc o' mod 5)" using c by (simp add: queue_next_mod zmod_int add.commute)
  have "cd_wf c'" using wf c o2 by (simp add: c' cd_wf_def zmod_int mod_simps)
  moreover have "cd_queue c' = map (\<lambda>k. cd_msgs c ! ((o' + Suc k) mod 5)) [0..<n - 1]"
    using c by (simp add: cd_queue_def c' o2 nat_diff_distrib mod_simps)
  ultimately show ?thesis using q qn c' ev by simp
qed

lemma send_if_rdy_effect:
  assumes c: "cd_ok c" and step: "send_if_rdy ok m c = Some (c', ev)"
    and room: "cd_auto_mode c \<or> cd_rdy c \<or> length (cd_queue c) < 5"
  shows "cd_ok c' \<and> cd_tid c' = cd_tid c \<and>
    (if cd_auto_mode c then c' = c \<and> ev = [D_AUTOMODE]
     else if cd_rdy c then \<not> cd_rdy c' \<and> cd_queue c' = [] \<and> ev = [D_COMMAND (cd_tid c) m]
     else \<not> cd_rdy c' \<and> cd_queue c' = cd_queue c @ [m] \<and> ev = [])"
proof (cases "cd_auto_mode c")
  case True
  then show ?thesis using step c by (auto simp: send_if_rdy_def split: bind_splits)
next
  case False
  have q: "cd_wf (enqueue_msg m c)" "cd_queue (enqueue_msg m c) = cd_queue c @ [m]"
    using enqueue_msg_queue [of c m] c room False by (auto simp: cd_ok_def)
  show ?thesis
  proof (cases "cd_rdy c")
    case True
    then have "send_next ok (enqueue_msg m c) = Some (c', ev)"
      using step False by (auto simp: send_if_rdy_def enqueue_msg_def Let_def array_set_eq_Some int32_Some split: bind_splits)
    from send_next_effect [OF q(1) _ this, of m "[]"] q c True False show ?thesis
      by (simp add: cd_ok_def enqueue_msg_def)
  next
    case rdy: False
    then have "c' = enqueue_msg m c" "ev = []"
      using step False by (auto simp: send_if_rdy_def enqueue_msg_def Let_def array_set_eq_Some int32_Some split: bind_splits)
    then show ?thesis using q rdy False by (simp add: cd_ok_def enqueue_msg_def)
  qed
qed

lemma conductor_ready_effect:
  assumes c: "cd_ok c" and step: "conductor_ready ok c = Some (c', ev)"
  shows "cd_ok c' \<and> cd_tid c' = cd_tid c \<and>
    (case cd_queue c of [] \<Rightarrow> cd_rdy c' \<and> \<not> cd_auto_mode c' \<and> cd_queue c' = [] \<and> ev = []
     | m # ms \<Rightarrow> \<not> cd_rdy c' \<and> cd_auto_mode c' = is_auto_cmd m \<and> cd_queue c' = ms \<and> ev = [D_COMMAND (cd_tid c) m])"
proof (cases "cd_queue c")
  case Nil
  then show ?thesis using c step
    by (auto simp: conductor_ready_def cd_ok_def cd_wf_def cd_queue_def split: if_splits)
next
  case (Cons m ms)
  then have "send_next ok c = Some (c', ev)"
    using c step by (auto simp: conductor_ready_def cd_ok_def cd_queue_def split: if_splits)
  from send_next_effect [OF _ Cons this] c Cons show ?thesis by (simp add: cd_ok_def)
qed

lemma get_conductor_set:
  "set_conductor cs t c = Some cs' \<Longrightarrow> get_conductor cs' u = (if u = t then Some c else get_conductor cs u)"
  by (auto simp: set_conductor_def get_conductor_def array_get_def array_set_eq_Some split: bind_splits)

lemma create_conductor_frame:
  "create_conductor ok tid t cs = Some (cs', ev) \<Longrightarrow> u \<noteq> t \<Longrightarrow> get_conductor cs' u = get_conductor cs u"
  by (auto simp: create_conductor_def get_conductor_set split: bind_splits)

definition commands_to :: "int \<Rightarrow> disp_event list \<Rightarrow> user_command list" where
  "commands_to tid ev = concat (map (\<lambda>e. case e of D_COMMAND tid' m \<Rightarrow> if tid' = tid then [m] else [] | _ \<Rightarrow> []) ev)"

lemma commands_to_simps [simp]:
  "commands_to tid [] = []" "commands_to tid (ev1 @ ev2) = commands_to tid ev1 @ commands_to tid ev2"
  "commands_to tid (D_COMMAND tid' m # ev) = (if tid' = tid then m # commands_to tid ev else commands_to tid ev)"
  "commands_to tid (D_REPLY x # ev) = commands_to tid ev" "commands_to tid (D_AUTOMODE # ev) = commands_to tid ev"
  "commands_to tid (D_REPLY_DESTINATION x y # ev) = commands_to tid ev"
  "commands_to tid (D_PUTC b # ev) = commands_to tid ev" "commands_to tid (D_SETTRAIN x y # ev) = commands_to tid ev"
  "commands_to tid (D_KILL x # ev) = commands_to tid ev" "commands_to tid (D_T2_START x y # ev) = commands_to tid ev"
  "commands_to tid (D_SWITCH x y z # ev) = commands_to tid ev" "commands_to tid (D_CALIB_V x y # ev) = commands_to tid ev"
  "commands_to tid (D_SETDIRECTION x z # ev) = commands_to tid ev"
  by (simp_all add: commands_to_def)

lemma update_conductors_frame:
  "update_conductors ok new k ts cs = Some (cs', ev) \<Longrightarrow> get_conductor cs u = Some c \<Longrightarrow> cd_tid c \<noteq> 0 \<Longrightarrow>
   get_conductor cs' u = Some c \<and> commands_to tid ev = []"
proof (induction ok new k ts cs arbitrary: cs' ev rule: update_conductors.induct)
  case (2 ok new k t ts cs)
  then obtain ct where ct: "get_conductor cs t = Some ct" by (auto split: bind_splits)
  show ?case
  proof (cases "cd_tid ct = 0")
    case True
    then obtain cs1 ev1 ev2 where 1: "create_conductor ok (new k) t cs = Some (cs1, ev1)"
      "update_conductors ok new (k + 1) ts cs1 = Some (cs', ev2)" "ev = ev1 @ ev2"
      using "2.prems"(1) ct by (auto split: bind_splits)
    have "u \<noteq> t" using True ct "2.prems"(2,3) by auto
    then have "get_conductor cs1 u = Some c" using create_conductor_frame [OF 1(1)] "2.prems"(2) by simp
    moreover have "commands_to tid ev1 = []" using 1(1) by (auto simp: create_conductor_def split: bind_splits)
    ultimately show ?thesis using "2.IH"(1) [OF ct True 1(1) refl 1(2)] 1(3) "2.prems"(3) by auto
  next
    case False
    then show ?thesis using "2.IH"(2) [OF ct False] "2.prems" ct by simp
  qed
qed simp

section \<open>The dispatcher and one conductor\<close>

text \<open>What a message means for the conductor of train \<open>t\<close>: a command for it, or that it is ready.\<close>

definition command_for :: "int \<Rightarrow> disp_message \<Rightarrow> user_command list" where
  "command_for t m = (case m of
       DM_USER cmd \<Rightarrow>
         if uc_type cmd \<in> {USER_CMD_SD, USER_CMD_LOOP, USER_CMD_RV, USER_CMD_R, USER_CMD_TR} \<and>
           cmd_data cmd 0 = Some t then [cmd] else []
     | _ \<Rightarrow> [])"

definition ready_for :: "int \<Rightarrow> disp_message \<Rightarrow> bool" where
  "ready_for t m = (case m of DM_READY u \<Rightarrow> uint u = t | _ \<Rightarrow> False)"

definition regroups :: "disp_message \<Rightarrow> bool" where
  "regroups m = (case m of DM_USER cmd \<Rightarrow> uc_type cmd = USER_CMD_GROUP \<or> uc_type cmd = USER_CMD_UNGROUP | _ \<Rightarrow> False)"

text \<open>No other conductor, of a train or of a group, has this tid.\<close>

definition tid_unique :: "dispatcher \<Rightarrow> int \<Rightarrow> int \<Rightarrow> bool" where
  "tid_unique d t tid \<longleftrightarrow> (\<forall>u c. u \<noteq> t \<and> get_conductor (d_conductors d) u = Some c \<longrightarrow> cd_tid c \<noteq> tid) \<and>
     (\<forall>g \<in> set (d_groups d). g_tid g \<noteq> tid)"

definition same_queue :: "conductor_data \<Rightarrow> conductor_data \<Rightarrow> bool" where
  "same_queue c c' \<longleftrightarrow> cd_queue c' = cd_queue c \<and> cd_rdy c' = cd_rdy c \<and> cd_auto_mode c' = cd_auto_mode c"

lemma same_queue_refl [simp]: "same_queue c c" by (simp add: same_queue_def)

lemma train_command_frame:
  assumes step: "train_command ok cmd d = Some (d', ev)" and t: "cmd_data cmd 0 \<noteq> Some t"
    and c: "get_conductor (d_conductors d) t = Some c" and u: "tid_unique d t (cd_tid c)"
  shows "get_conductor (d_conductors d') t = Some c \<and> commands_to (cd_tid c) ev = []"
proof -
  obtain u where data: "cmd_data cmd 0 = Some u" and ne: "u \<noteq> t"
    using step t by (auto simp: train_command_def split: bind_splits)
  have tid: "cd_tid c2 \<noteq> cd_tid c" if "get_conductor (d_conductors d) u = Some c2" for c2
    using assms(4) that ne by (auto simp: tid_unique_def)
  have ev: "commands_to (cd_tid c) ev2 = []" if "send_if_rdy ok cmd c2 = Some (c3, ev2)" "cd_tid c2 \<noteq> cd_tid c"
    for c2 c3 ev2
    using that by (auto simp: send_if_rdy_def send_next_def Let_def split: bind_splits if_splits)
  show ?thesis using step data ne c tid ev
    by (auto simp: train_command_def get_conductor_set split: bind_splits if_splits)
qed

lemma find_mem: "List.find P xs = Some x \<Longrightarrow> x \<in> set xs"
  by (auto simp: find_Some_iff)

lemma user_command_step_frame:
  assumes step: "user_command_step ok new name_at addr cmd d = Some (d', ev)" and t: "command_for t (DM_USER cmd) = []"
    and g: "\<not> regroups (DM_USER cmd)"
    and c: "get_conductor (d_conductors d) t = Some c" "cd_tid c \<noteq> 0" and u: "tid_unique d t (cd_tid c)"
  shows "\<exists>c'. get_conductor (d_conductors d') t = Some c' \<and> same_queue c c' \<and> cd_wf c' = cd_wf c \<and>
    cd_tid c' = cd_tid c \<and> commands_to (cd_tid c) ev = []"
proof (cases "uc_type cmd \<in> {USER_CMD_SD, USER_CMD_LOOP, USER_CMD_RV, USER_CMD_R, USER_CMD_TR}")
  case True
  then have "train_command ok cmd d = Some (d', ev)" using step by (auto simp: user_command_step_def)
  from train_command_frame [OF this _ c(1) u] t True show ?thesis by (auto simp: command_for_def split: if_splits)
next
  case False
  have grp: "g_tid (d_groups d ! i) \<noteq> cd_tid c" if "List.find P [0..<length (d_groups d)] = Some i" for P i
    using find_mem [OF that] u by (auto simp: tid_unique_def)
  show ?thesis
  proof (cases "uc_type cmd")
    case USER_CMD_SET
    then show ?thesis using step c update_conductors_frame [OF _ c]
      by (auto simp: user_command_step_def set_command_step_def split: bind_splits if_splits)
  next
    case USER_CMD_T2START
    then show ?thesis using step c
      by (auto simp: user_command_step_def get_conductor_set same_queue_def cd_queue_def cd_wf_def split: bind_splits if_splits)
  next
    case USER_CMD_T2STOP
    then show ?thesis using step c
      by (auto simp: user_command_step_def get_conductor_set same_queue_def cd_queue_def cd_wf_def split: bind_splits if_splits)
  qed (use step c g False grp in \<open>auto simp: user_command_step_def regroups_def split: bind_splits if_splits\<close>)
qed

lemma dispatcher_step_conductor:
  assumes step: "dispatcher_step ok new name_at addr sender m d = Some (d', ev)"
    and c: "get_conductor (d_conductors d) t = Some c" "cd_ok c" "cd_tid c \<noteq> 0" and t: "1 \<le> t" "t \<le> 80"
    and u: "tid_unique d t (cd_tid c)" and g: "\<not> regroups m"
    and room: "command_for t m \<noteq> [] \<Longrightarrow> cd_auto_mode c \<or> cd_rdy c \<or> length (cd_queue c) < 5"
  shows "\<exists>c'. get_conductor (d_conductors d') t = Some c' \<and> cd_ok c' \<and> cd_tid c' = cd_tid c \<and>
    commands_to (cd_tid c) ev @ cd_queue c' = cd_queue c @ (if cd_auto_mode c then [] else command_for t m) \<and>
    length (commands_to (cd_tid c) ev) \<le> 1 \<and>
    (commands_to (cd_tid c) ev \<noteq> [] \<longrightarrow> cd_rdy c \<or> ready_for t m) \<and>
    (cd_rdy c' \<longleftrightarrow> commands_to (cd_tid c) ev = [] \<and> (cd_rdy c \<or> ready_for t m))"
    (is "\<exists>c'. ?P c' ev")
proof -
  obtain ev2 where d: "dispatch_message ok new name_at addr sender m d = Some (d', ev2)"
    and ev: "commands_to (cd_tid c) ev = commands_to (cd_tid c) ev2"
    using step by (auto simp: dispatcher_step_def split: bind_splits)
  have "\<exists>c'. ?P c' ev2"
  proof (cases m)
    case (DM_USER cmd)
    then have us: "user_command_step ok new name_at addr cmd d = Some (d', ev2)" using d by (simp add: dispatch_message_def)
    show ?thesis
    proof (cases "command_for t m = []")
      case True
      then have "command_for t (DM_USER cmd) = []" "\<not> regroups (DM_USER cmd)" using DM_USER g by simp_all
      from user_command_step_frame [OF us this c(1,3) u] c(2) True DM_USER show ?thesis
        by (auto simp: same_queue_def cd_ok_def ready_for_def)
    next
      case False
      then have ty: "uc_type cmd \<in> {USER_CMD_SD, USER_CMD_LOOP, USER_CMD_RV, USER_CMD_R, USER_CMD_TR}"
        and data: "cmd_data cmd 0 = Some t" and cf: "command_for t m = [cmd]"
        using DM_USER by (auto simp: command_for_def split: if_splits)
      have "train_command ok cmd d = Some (d', ev2)" using us ty by (auto simp: user_command_step_def)
      then obtain c' where s: "send_if_rdy ok cmd c = Some (c', ev2)" "get_conductor (d_conductors d') t = Some c'"
        using data t c by (auto simp: train_command_def get_conductor_set split: bind_splits)
      from send_if_rdy_effect [OF c(2) s(1) room] False s(2) c(2) cf DM_USER show ?thesis
        by (intro exI [of _ c']) (auto simp: ready_for_def cd_ok_def split: if_splits)
    qed
  next
    case (DM_GET_DESTINATION x)
    then show ?thesis using d c
      by (auto simp: dispatch_message_def command_for_def ready_for_def split: bind_splits)
  next
    case (DM_READY x)
    then obtain cx c1 e1 where x: "get_conductor (d_conductors d) (uint x) = Some cx"
      "conductor_ready ok cx = Some (c1, e1)"
      "\<And>v. get_conductor (d_conductors d') v =
        (if v = uint x then Some (c1\<lparr>cd_destination := NO_DESTINATION\<rparr>) else get_conductor (d_conductors d) v)"
      "commands_to (cd_tid c) ev2 = commands_to (cd_tid c) e1"
      using d by (auto simp: dispatch_message_def get_conductor_set split: bind_splits if_splits)
    show ?thesis
    proof (cases "uint x = t")
      case True
      then have "cx = c" using x(1) c(1) by simp
      from conductor_ready_effect [OF c(2)] x(2) \<open>cx = c\<close>
      have "cd_ok c1 \<and> cd_tid c1 = cd_tid c \<and>
        (case cd_queue c of [] \<Rightarrow> cd_rdy c1 \<and> cd_queue c1 = [] \<and> e1 = []
         | m # ms \<Rightarrow> \<not> cd_rdy c1 \<and> cd_queue c1 = ms \<and> e1 = [D_COMMAND (cd_tid c) m])"
        by (auto split: list.splits)
      then show ?thesis using True x(3,4) DM_READY
        by (intro exI [of _ "c1\<lparr>cd_destination := NO_DESTINATION\<rparr>"])
           (auto simp: command_for_def ready_for_def cd_ok_def cd_wf_def cd_queue_def split: list.splits)
    next
      case False
      then have "cd_tid cx \<noteq> cd_tid c" using u x(1) by (auto simp: tid_unique_def)
      then have "commands_to (cd_tid c) e1 = []"
        using x(2) by (auto simp: conductor_ready_def send_next_def split: bind_splits if_splits)
      then show ?thesis using False x(3,4) c DM_READY by (auto simp: command_for_def ready_for_def)
    qed
  next
    case DM_OTHER
    then show ?thesis using d by (simp add: dispatch_message_def)
  qed
  then show ?thesis by (simp only: ev)
qed

text \<open>
  A run of the dispatcher, watched at train \<open>t\<close>: the commands it took for the train, those it sent to
  the conductor, how many the conductor has finished, and whether it is busy. A conductor reports only
  when it is busy, and the queue never overflows.
\<close>

inductive dispatch_run :: "int \<Rightarrow> int \<Rightarrow> dispatcher \<Rightarrow> user_command list \<Rightarrow> user_command list \<Rightarrow> nat \<Rightarrow> bool \<Rightarrow> bool"
  for t tid where
  dispatch_start: "get_conductor (d_conductors d) t = Some c \<Longrightarrow> cd_ok c \<Longrightarrow> cd_rdy c \<Longrightarrow> cd_tid c = tid \<Longrightarrow>
    dispatch_run t tid d [] [] 0 False"
| dispatch_next: "dispatch_run t tid d taken sent finished busy \<Longrightarrow>
    get_conductor (d_conductors d) t = Some c \<Longrightarrow> tid_unique d t tid \<Longrightarrow> \<not> regroups m \<Longrightarrow>
    (ready_for t m \<longrightarrow> busy) \<Longrightarrow>
    (command_for t m \<noteq> [] \<longrightarrow> cd_auto_mode c \<or> cd_rdy c \<or> length (cd_queue c) < 5) \<Longrightarrow>
    dispatcher_step ok new name_at addr sender m d = Some (d', ev) \<Longrightarrow>
    dispatch_run t tid d' (taken @ (if cd_auto_mode c then [] else command_for t m))
      (sent @ commands_to tid ev) (if ready_for t m then finished + 1 else finished)
      (commands_to tid ev \<noteq> [] \<or> busy \<and> \<not> ready_for t m)"

lemma dispatch_run_inv:
  assumes "dispatch_run t tid d taken sent finished busy" "1 \<le> t" "t \<le> 80" "tid \<noteq> 0"
  shows "\<exists>c. get_conductor (d_conductors d) t = Some c \<and> cd_ok c \<and> cd_tid c = tid \<and>
    taken = sent @ cd_queue c \<and> length sent = finished + (if busy then 1 else 0) \<and> cd_rdy c = (\<not> busy)"
  using assms
proof (induction rule: dispatch_run.induct)
  case (dispatch_start d c)
  then show ?case by (auto simp: cd_ok_def)
next
  case (dispatch_next d taken sent finished busy c m ok new name_at addr sender d' ev)
  then have c: "cd_ok c" "cd_tid c = tid" "taken = sent @ cd_queue c"
    "length sent = finished + (if busy then 1 else 0)" "cd_rdy c = (\<not> busy)" by auto
  then have tid: "cd_tid c \<noteq> 0" "tid_unique d t (cd_tid c)" using dispatch_next by simp_all
  obtain c' where c': "get_conductor (d_conductors d') t = Some c'" "cd_ok c'" "cd_tid c' = tid"
    "commands_to tid ev @ cd_queue c' = cd_queue c @ (if cd_auto_mode c then [] else command_for t m)"
    "length (commands_to tid ev) \<le> 1" "commands_to tid ev \<noteq> [] \<longrightarrow> cd_rdy c \<or> ready_for t m"
    "cd_rdy c' \<longleftrightarrow> commands_to tid ev = [] \<and> (cd_rdy c \<or> ready_for t m)"
    using dispatcher_step_conductor [OF dispatch_next.hyps(7,2) c(1) tid(1) dispatch_next.prems(1,2) tid(2)
      dispatch_next.hyps(4)] dispatch_next.hyps(6) c(2) by auto
  have "length (commands_to tid ev) = (if commands_to tid ev = [] then 0 else 1)"
    using c'(5) by (cases "commands_to tid ev") auto
  then show ?case using c c' dispatch_next.hyps(5) by (intro exI [of _ c']) auto
qed

section \<open>Defects\<close>

text \<open>
  A full queue is only logged: the sixth command replaces the one that should go next, and the count
  says six.
\<close>

lemma queue_overflow:
  assumes "cd_wf c" "cd_msgs_available c = 5" "\<not> cd_rdy c" "\<not> cd_auto_mode c"
  shows "\<exists>c'. send_if_rdy ok m c = Some (c', []) \<and> cd_msgs_available c' = 6 \<and> msg_at c' (cd_msgs_o c') = Some m"
proof -
  have "cd_msgs_i c = cd_msgs_o c" "0 \<le> cd_msgs_o c" "cd_msgs_o c < 5" "length (cd_msgs c) = 5"
    using assms by (simp_all add: cd_wf_def)
  then show ?thesis using assms by (simp add: send_if_rdy_def msg_at_def int32_def Let_def)
qed

text \<open>
  \<open>MESSAGE_READY\<close> clears the destination after the next command has been sent: the train of a route
  that was waiting is on its way, and has no destination.
\<close>

lemma ready_forgets_destination:
  assumes "dispatcher_step ok new name_at addr sender (DM_READY x) d = Some (d', ev)"
  shows "\<exists>c. get_conductor (d_conductors d') (uint x) = Some c \<and> cd_destination c = NO_DESTINATION"
  using assms by (auto simp: dispatcher_step_def dispatch_message_def get_conductor_set split: bind_splits)

section \<open>Properties\<close>


text \<open>Train 1 is told to go at speed 5.\<close>

definition idle_conductor :: "int \<Rightarrow> conductor_data" where
  "idle_conductor tid = \<lparr>cd_t = 1, cd_tid = tid, cd_msgs_available = 0, cd_msgs_i = 0, cd_msgs_o = 0, cd_rdy = True,
     cd_auto_mode = False, cd_msgs = replicate 5 user_command_reset, cd_t2_tid = 0, cd_destination = NO_DESTINATION\<rparr>"

definition tr_1_5 :: user_command where
  "tr_1_5 = set_command USER_CMD_TR [1, 5] user_command_reset"

definition sample_dispatcher :: dispatcher where
  "sample_dispatcher = \<lparr>d_conductors = [idle_conductor 0, idle_conductor 9], d_active_trains = [1],
     d_num_active_trains = 1, d_groups = [], d_num_groups = 0, d_switch_padding = 50, d_spacing = 100,
     d_spacing_error = 10, d_spacing_catchup_time = 100,
     d_track = \<lparr>ts_turnouts = [], ts_train = [], ts_track = [], ts_tracka = [], ts_trackb = [], ts_nodes = 0,
       ts_speed_to_velocity = [], ts_stopping_distance = [], ts_stopping_time_mus = [], ts_last_switch_time = []\<rparr>\<rparr>"

lemma sample_step:
  "\<exists>d. dispatcher_step True (\<lambda>_. 1) (\<lambda>_. None) (\<lambda>_. 0) 3 (DM_USER tr_1_5) sample_dispatcher =
     Some (d, [D_REPLY 3, D_COMMAND 9 tr_1_5])"
  by (simp add: dispatcher_step_def replies_first_def dispatch_message_def user_command_step_def train_command_def
      tr_1_5_def set_command_def user_command_reset_def sample_dispatcher_def idle_conductor_def cmd_data_def
      get_conductor_def set_conductor_def send_if_rdy_def send_next_def msg_at_def is_auto_cmd_def
      queue_next_def TR_Q_LEN_def int32_def Let_def array_get_def array_set_def eval_nat_numeral)


end
