(* ===== verification/Sensor_Interpreter.thy ===== *)
theory Sensor_Interpreter
  imports Train_Coordinates Command_Dispatcher
begin

text \<open>
  The sensor interpreter, \<open>usr/train/sensors/sensor_interpreter.c\<close>, with the sensor functions of
  \<open>usr/train/train_util.c\<close>: it decides which train has triggered a sensor. One message is one step.
  \<open>NOT_ATTRIBUTED\<close> is \<open>None\<close>. \<open>None\<close> as a result is a failed assertion, an access outside an
  array or a sum that leaves \<open>int\<close>.
\<close>

section \<open>Sensor reports\<close>

text \<open>Ten words, a bit for each sensor.\<close>

definition get_leading_edge :: "u32 list \<Rightarrow> u32 list \<Rightarrow> (u32 list \<times> u32 list) option" where
  "get_leading_edge old_sensors new_sensors = do {
     guard_opt (length old_sensors = 10 \<and> length new_sensors = 10);
     Some (map2 (\<lambda>x y. NOT x AND y) old_sensors new_sensors, new_sensors)
   }"

definition is_sensor_triggered :: "u32 list \<Rightarrow> u32 \<Rightarrow> bool option" where
  "is_sensor_triggered sensors offset = do {
     i \<leftarrow> sensor_data_element offset;
     x \<leftarrow> array_get sensors (unat i);
     m \<leftarrow> sensor_data_mask offset;
     Some (x AND m \<noteq> 0)
   }"

definition any_sensor_is_triggered :: "u32 list \<Rightarrow> bool" where
  "any_sensor_is_triggered sensors = list_ex (\<lambda>x. x \<noteq> 0) sensors"

section \<open>State and environment\<close>

record interpreter =
  si_last_sensor :: "u32 list"
  si_time_at_last_sensor_hit :: "int list"
  si_current_sensors :: "u32 list"

text \<open>
  What a step finds: whether the calls it asserts on succeed, the clock, what the track state
  controller answers for each train, and the global tables.
\<close>

record si_env =
  se_ok :: bool
  se_time :: int
  se_train :: "int \<Rightarrow> train_data"
  se_num_groups :: int
  se_groups :: "train_group_info list"
  se_active :: "int list"
  se_num_active :: int
  se_expected :: "u32 list"
  se_track :: track
  se_nodes :: nat

datatype si_message = SI_SENSORSRECEIVED "u32 list" | GET_LAST_SENSOR_HIT u8 | SI_OTHER

datatype si_event =
    SI_REPLY
  | REPLY_GET_LAST_SENSOR_HIT u32 int
  | SI_MODEL tsc_message
  | SI_COORDS coords_message

definition interpreter_init :: interpreter where
  "interpreter_init = \<lparr>si_last_sensor = replicate 80 NO_DATA_RECEIVED,
     si_time_at_last_sensor_hit = replicate 80 0, si_current_sensors = replicate 10 0\<rparr>"

definition last_sensor :: "interpreter \<Rightarrow> int \<Rightarrow> u32 option" where
  "last_sensor s train = do { guard_opt (train \<ge> 0); array_get (si_last_sensor s) (nat train) }"

definition last_time :: "interpreter \<Rightarrow> int \<Rightarrow> int option" where
  "last_time s train = do { guard_opt (train \<ge> 0); array_get (si_time_at_last_sensor_hit s) (nat train) }"

section \<open>Attribution\<close>

definition attribute_sensor :: "si_env \<Rightarrow> interpreter \<Rightarrow> int \<Rightarrow> u32 \<Rightarrow> interpreter option" where
  "attribute_sensor env s train sensor = do {
     guard_opt (train \<ge> 0);
     ls \<leftarrow> array_set (si_last_sensor s) (nat train) sensor;
     ts \<leftarrow> array_set (si_time_at_last_sensor_hit s) (nat train) (se_time env);
     _ \<leftarrow> sensor_bank sensor;
     _ \<leftarrow> sensor_index sensor;
     guard_opt (se_ok env);
     Some (s\<lparr>si_last_sensor := ls, si_time_at_last_sensor_hit := ts\<rparr>)
   }"

definition train_is_lost :: "int \<Rightarrow> int \<Rightarrow> bool option" where
  "train_is_lost speed time_difference =
     (if speed = 0 then Some False
      else if speed = 1 then Some (time_difference > 100 * 100)
      else do { q \<leftarrow> cdiv (42 * 100) speed; Some (time_difference > q) })"

definition TICKS_TO_CHANGE_ONE_SPEED :: int where "TICKS_TO_CHANGE_ONE_SPEED = 40"

text \<open>The first train in the list that passes a test.\<close>

fun first_train :: "(int \<Rightarrow> bool option) \<Rightarrow> int list \<Rightarrow> int option option" where
  "first_train P [] = Some None"
| "first_train P (t # ts) = do { b \<leftarrow> P t; if b then Some (Some t) else first_train P ts }"

text \<open>The four tests, in the order they are tried.\<close>

definition is_expecting :: "si_env \<Rightarrow> interpreter \<Rightarrow> u32 \<Rightarrow> int \<Rightarrow> bool option" where
  "is_expecting env s sensor train = do {
     ls \<leftarrow> last_sensor s train;
     if ls = NO_DATA_RECEIVED then do {
       e \<leftarrow> array_get (se_expected env) (nat train);
       Some (sensor = e)
     }
     else Some False
   }"

definition is_followed :: "si_env \<Rightarrow> interpreter \<Rightarrow> u32 \<Rightarrow> int \<Rightarrow> bool option" where
  "is_followed env s sensor train = do {
     ls \<leftarrow> last_sensor s train;
     if ls \<noteq> NO_DATA_RECEIVED then sensor_is_followed_by (se_track env) (se_nodes env) ls sensor
     else Some False
   }"

definition may_be_next :: "si_env \<Rightarrow> interpreter \<Rightarrow> u32 \<Rightarrow> int \<Rightarrow> bool option" where
  "may_be_next env s sensor train = do {
     ls \<leftarrow> last_sensor s train;
     if ls \<noteq> NO_DATA_RECEIVED then sensor_may_be_seen_next (se_track env) (se_nodes env) ls sensor
     else Some False
   }"

definition is_lost :: "si_env \<Rightarrow> interpreter \<Rightarrow> int \<Rightarrow> bool option" where
  "is_lost env s train = do {
     lt \<leftarrow> last_time s train;
     d \<leftarrow> int32 (se_time env - lt);
     train_is_lost (td_should_speed (se_train env train)) d
   }"

text \<open>A train that runs at a constant speed between two sensors calibrates its velocity.\<close>

definition calibrate :: "si_env \<Rightarrow> interpreter \<Rightarrow> u32 \<Rightarrow> int \<Rightarrow> si_event list option" where
  "calibrate env s sensor train = do {
     ls \<leftarrow> last_sensor s train;
     lt \<leftarrow> last_time s train;
     let data = se_train env train;
     time_diff \<leftarrow> int32 (lt - td_time_speed_last_changed data);
     diff \<leftarrow> int32 (td_should_speed data - td_last_speed data);
     ticks_to_change_speed \<leftarrow> cmul TICKS_TO_CHANGE_ONE_SPEED \<bar>diff\<bar>;
     if time_diff > ticks_to_change_speed then do {
       time_elapsed \<leftarrow> int32 (se_time env - lt);
       guard_opt (se_ok env);
       Some [SI_MODEL (UPDATECONSTANTSPEEDMODEL train (td_should_speed data) ls sensor time_elapsed)]
     }
     else Some []
   }"

definition interpret_sensor ::
  "si_env \<Rightarrow> int list \<Rightarrow> u32 list \<Rightarrow> interpreter \<Rightarrow> int option \<Rightarrow> u32 \<Rightarrow>
   (interpreter \<times> int option \<times> si_event list) option" where
  "interpret_sensor env trains leading_edge s attributed sensor = do {
     triggered \<leftarrow> is_sensor_triggered leading_edge sensor;
     if \<not> triggered then Some (s, attributed, [])
     else do {
       p1 \<leftarrow> first_train (is_expecting env s sensor) trains;
       case p1 of
         Some t \<Rightarrow> do { s' \<leftarrow> attribute_sensor env s t sensor; Some (s', Some t, []) }
       | None \<Rightarrow>
           if attributed \<noteq> None then Some (s, attributed, [])
           else do {
             p2 \<leftarrow> first_train (is_followed env s sensor) trains;
             case p2 of
               Some t \<Rightarrow> do {
                 ev \<leftarrow> calibrate env s sensor t;
                 s' \<leftarrow> attribute_sensor env s t sensor;
                 Some (s', Some t, ev)
               }
             | None \<Rightarrow> do {
                 p3 \<leftarrow> first_train (may_be_next env s sensor) trains;
                 p4 \<leftarrow> (if p3 = None then first_train (is_lost env s) trains else Some p3);
                 case p4 of
                   Some t \<Rightarrow> do { s' \<leftarrow> attribute_sensor env s t sensor; Some (s', Some t, []) }
                 | None \<Rightarrow> Some (s, None, [])
               }
           }
     }
   }"

fun interpret_loop ::
  "si_env \<Rightarrow> int list \<Rightarrow> u32 list \<Rightarrow> interpreter \<Rightarrow> int option \<Rightarrow> nat list \<Rightarrow>
   (interpreter \<times> int option \<times> si_event list) option" where
  "interpret_loop env trains leading_edge s attributed [] = Some (s, attributed, [])"
| "interpret_loop env trains leading_edge s attributed (sensor # rest) = do {
     (s1, a1, ev1) \<leftarrow> interpret_sensor env trains leading_edge s attributed (of_nat sensor);
     (s2, a2, ev2) \<leftarrow> interpret_loop env trains leading_edge s1 a1 rest;
     Some (s2, a2, ev1 @ ev2)
   }"

text \<open>The trains considered, in an array of 80: the members of a group when there is one, and the active trains.\<close>

definition trains_to_attribute_to :: "si_env \<Rightarrow> int list option" where
  "trains_to_attribute_to env = do {
     active \<leftarrow> array_prefix (se_active env) (se_num_active env);
     trains \<leftarrow> (if se_num_groups env = 1 then do {
         g \<leftarrow> array_get (se_groups env) 0;
         members \<leftarrow> array_prefix (g_members g) (g_num_members g);
         Some (members @ active)
       }
       else Some active);
     guard_opt (length trains \<le> 80);
     Some trains
   }"

fun interpreter_step :: "si_env \<Rightarrow> interpreter \<Rightarrow> si_message \<Rightarrow> (interpreter \<times> si_event list) option" where
  "interpreter_step env s (SI_SENSORSRECEIVED sensors) = do {
     guard_opt (se_ok env);
     (leading_edge, current) \<leftarrow> get_leading_edge (si_current_sensors s) sensors;
     let s1 = s\<lparr>si_current_sensors := current\<rparr>;
     if \<not> any_sensor_is_triggered leading_edge then Some (s1, [SI_REPLY])
     else do {
       trains \<leftarrow> trains_to_attribute_to env;
       guard_opt (list_all (\<lambda>t. 0 \<le> t \<and> t \<le> 80) trains);
       (s2, attributed, ev) \<leftarrow> interpret_loop env trains leading_edge s1 None [0..<80];
       case attributed of
         None \<Rightarrow> Some (s2, SI_REPLY # ev)
       | Some t \<Rightarrow> do {
           ls \<leftarrow> last_sensor s2 t;
           tls \<leftarrow> last_time s2 t;
           Some (s2, SI_REPLY # ev @ [SI_COORDS (UPDATE_COORDS_SENSOR t ls tls)])
         }
     }
   }"
| "interpreter_step env s (GET_LAST_SENSOR_HIT train) = do {
     guard_opt (train > 0 \<and> train \<le> 80);
     ls \<leftarrow> last_sensor s (uint train);
     lt \<leftarrow> last_time s (uint train);
     guard_opt (se_ok env);
     Some (s, [REPLY_GET_LAST_SENSOR_HIT ls lt])
   }"
| "interpreter_step env s SI_OTHER = None"

section \<open>Why a sensor goes to a train\<close>

lemma first_trainD: "first_train P ts = Some (Some t) \<Longrightarrow> t \<in> set ts \<and> P t = Some True"
  by (induction ts) (auto split: bind_splits if_splits)

text \<open>The ground on which a sensor may be attributed to a train, in the state before the report.\<close>

definition justified :: "si_env \<Rightarrow> interpreter \<Rightarrow> u32 \<Rightarrow> int \<Rightarrow> bool" where
  "justified env s sensor t \<longleftrightarrow>
     is_expecting env s sensor t = Some True \<or> is_followed env s sensor t = Some True \<or>
     may_be_next env s sensor t = Some True \<or> is_lost env s t = Some True"

text \<open>What is known of a train: its last sensor and the time of the hit.\<close>

definition known :: "interpreter \<Rightarrow> int \<Rightarrow> (u32 \<times> int) option" where
  "known s t = do { ls \<leftarrow> last_sensor s t; lt \<leftarrow> last_time s t; Some (ls, lt) }"

lemma attribute_sensor_known:
  assumes "attribute_sensor env s t sensor = Some s'"
  shows "known s' u = (if u = t then Some (sensor, se_time env) else known s u)"
    and "si_current_sensors s' = si_current_sensors s"
  using assms
  by (auto simp: attribute_sensor_def known_def last_sensor_def last_time_def array_set_eq_Some array_get_def
      nat_eq_iff split: bind_splits if_splits)

lemma last_known: "known s t = Some (ls, lt) \<Longrightarrow> last_sensor s t = Some ls \<and> last_time s t = Some lt"
  by (auto simp: known_def split: bind_splits)

lemma tests_cong:
  assumes "known s' t = known s t" "known s t \<noteq> None"
  shows "is_expecting env s' sensor t = is_expecting env s sensor t"
    "is_followed env s' sensor t = is_followed env s sensor t"
    "may_be_next env s' sensor t = may_be_next env s sensor t" "is_lost env s' t = is_lost env s t"
  using assms last_known [of s t] last_known [of s' t]
  by (auto simp: is_expecting_def is_followed_def may_be_next_def is_lost_def)

lemma interpret_sensor_cases:
  assumes "interpret_sensor env trains edge s attributed sensor = Some (s', attributed', ev)"
  shows "(s' = s \<and> attributed' = attributed \<and> ev = []) \<or>
    (\<exists>t \<in> set trains. attribute_sensor env s t sensor = Some s' \<and> attributed' = Some t \<and>
      is_sensor_triggered edge sensor = Some True \<and> justified env s sensor t \<and>
      (attributed \<noteq> None \<longrightarrow> is_expecting env s sensor t = Some True))"
proof -
  obtain p1 where t: "is_sensor_triggered edge sensor = Some True \<and> first_train (is_expecting env s sensor) trains = Some p1 \<or>
      s' = s \<and> attributed' = attributed \<and> ev = []"
    using assms by (auto simp: interpret_sensor_def split: bind_splits if_splits)
  then show ?thesis using assms
    by (auto simp: interpret_sensor_def justified_def dest!: first_trainD split: bind_splits if_splits option.splits)
qed

text \<open>The state of the loop: every train is as before the report, or has been given a sensor, on a ground
  that held before the report.\<close>

definition attributed_ok ::
  "si_env \<Rightarrow> int list \<Rightarrow> u32 list \<Rightarrow> interpreter \<Rightarrow> interpreter \<Rightarrow> int option \<Rightarrow> bool" where
  "attributed_ok env trains edge s s' attributed \<longleftrightarrow>
     (\<forall>t. known s' t = known s t \<or>
       t \<in> set trains \<and> (\<exists>sensor < 80. known s' t = Some (sensor, se_time env) \<and>
         is_sensor_triggered edge sensor = Some True \<and> justified env s sensor t)) \<and>
     (attributed = None \<longrightarrow> s' = s) \<and>
     (\<forall>t. attributed = Some t \<longrightarrow> t \<in> set trains \<and> (\<exists>sensor < 80. known s' t = Some (sensor, se_time env)))"

lemma no_data_not_sensor: "sensor < 80 \<Longrightarrow> sensor \<noteq> NO_DATA_RECEIVED"
  by (auto simp: NO_DATA_RECEIVED_def word_less_nat_alt)

lemma attribute_sensor_valid:
  "attribute_sensor env s t sensor = Some s' \<Longrightarrow> known s t \<noteq> None"
  by (auto simp: attribute_sensor_def known_def last_sensor_def last_time_def array_set_eq_Some array_get_def
      split: bind_splits)

lemma interpret_sensor_ok:
  assumes ok: "attributed_ok env trains edge s s1 attributed" and sensor: "sensor < 80"
    and step: "interpret_sensor env trains edge s1 attributed sensor = Some (s2, attributed2, ev)"
  shows "attributed_ok env trains edge s s2 attributed2"
  using interpret_sensor_cases [OF step]
proof
  assume "s2 = s1 \<and> attributed2 = attributed \<and> ev = []"
  then show ?thesis using ok by simp
next
  assume "\<exists>t\<in>set trains. attribute_sensor env s1 t sensor = Some s2 \<and> attributed2 = Some t \<and>
      is_sensor_triggered edge sensor = Some True \<and> justified env s1 sensor t \<and>
      (attributed \<noteq> None \<longrightarrow> is_expecting env s1 sensor t = Some True)"
  then obtain t where t: "t \<in> set trains" "attribute_sensor env s1 t sensor = Some s2" "attributed2 = Some t"
    "is_sensor_triggered edge sensor = Some True" "justified env s1 sensor t"
    "attributed \<noteq> None \<Longrightarrow> is_expecting env s1 sensor t = Some True" by blast
  have "known s1 t = known s t"
  proof (cases "attributed = None")
    case True
    then show ?thesis using ok by (simp add: attributed_ok_def)
  next
    case False
    then obtain lt where "known s1 t = Some (NO_DATA_RECEIVED, lt)"
      using t(6) attribute_sensor_valid [OF t(2)]
      by (auto simp: is_expecting_def known_def split: bind_splits if_splits)
    moreover have "known s1 t \<noteq> Some (x, se_time env)" if "x < 80" for x
      using calculation no_data_not_sensor [OF that] by auto
    moreover have "known s1 t = known s t \<or> (\<exists>x < 80. known s1 t = Some (x, se_time env))"
      using ok unfolding attributed_ok_def by blast
    ultimately show ?thesis by blast
  qed
  then have "justified env s sensor t"
    using t(5) tests_cong [of s1 t s] attribute_sensor_valid [OF t(2)] by (auto simp: justified_def)
  then show ?thesis
    using ok t sensor attribute_sensor_known(1) [OF t(2)] by (auto simp: attributed_ok_def)
qed

lemma interpret_loop_ok:
  assumes "interpret_loop env trains edge s1 attributed sensors = Some (s2, attributed2, ev)"
    and "attributed_ok env trains edge s s1 attributed" and "\<forall>i \<in> set sensors. i < 80"
  shows "attributed_ok env trains edge s s2 attributed2"
  using assms
proof (induction env trains edge s1 attributed sensors arbitrary: s2 attributed2 ev rule: interpret_loop.induct)
  case (2 env trains edge s1 attributed i rest)
  then obtain s3 a3 e3 e4 where 3: "interpret_sensor env trains edge s1 attributed (of_nat i) = Some (s3, a3, e3)"
    "interpret_loop env trains edge s3 a3 rest = Some (s2, attributed2, e4)"
    by (auto split: bind_splits)
  have "(of_nat i :: u32) < 80" using 2(4) by (simp add: word_less_nat_alt unat_of_nat)
  from interpret_sensor_ok [OF 2(3) this 3(1)] 3 2(4) show ?case
    by (intro "2.IH" [OF 3(1) refl refl 3(2)]) auto
qed simp

text \<open>
  \<open>sensor_attributed_to\<close> is not reset between the sensors of a report: once one has been attributed,
  another goes to a train that expects it as its first sensor, or is lost.
\<close>

lemma later_sensor_dropped:
  assumes "first_train (is_expecting env s sensor) trains = Some None" "is_sensor_triggered edge sensor = Some True"
  shows "interpret_sensor env trains edge s (Some t) sensor = Some (s, Some t, [])"
  using assms by (simp add: interpret_sensor_def)

section \<open>Properties\<close>

text \<open>
  C15: whatever the report, a train whose last sensor or time of the hit changes is one of those
  considered, and gets a sensor that the report shows for the first time, with the present time, and on a
  ground that held before the report: it was at no known place and was expected there, or the sensor
  follows or may be seen next from its last one, or it was lost.
\<close>

theorem attribution_justified:
  assumes step: "interpreter_step env s (SI_SENSORSRECEIVED sensors) = Some (s', ev)"
    and changed: "known s' t \<noteq> known s t"
  shows "\<exists>trains sensor edge. trains_to_attribute_to env = Some trains \<and> t \<in> set trains \<and> sensor < 80 \<and>
    get_leading_edge (si_current_sensors s) sensors = Some (edge, sensors) \<and>
    is_sensor_triggered edge sensor = Some True \<and> known s' t = Some (sensor, se_time env) \<and>
    (is_expecting env s sensor t = Some True \<or> is_followed env s sensor t = Some True \<or>
     may_be_next env s sensor t = Some True \<or> is_lost env s t = Some True)"
proof -
  define s1 where "s1 = s\<lparr>si_current_sensors := sensors\<rparr>"
  have k: "known s1 u = known s u" for u by (simp add: s1_def known_def last_sensor_def last_time_def)
  obtain edge where edge: "get_leading_edge (si_current_sensors s) sensors = Some (edge, sensors)"
    using step by (auto simp: get_leading_edge_def split: bind_splits)
  have "any_sensor_is_triggered edge"
    using step edge changed k [of t] by (auto simp: s1_def Let_def split: bind_splits if_splits)
  then obtain trains att ev' where tr: "trains_to_attribute_to env = Some trains"
    and loop: "interpret_loop env trains edge s1 None [0..<80] = Some (s', att, ev')"
    using step edge by (auto simp: s1_def Let_def split: bind_splits if_splits option.splits)
  have "attributed_ok env trains edge s1 s1 None" by (simp add: attributed_ok_def)
  from interpret_loop_ok [OF loop this] have "attributed_ok env trains edge s1 s' att"
    by (simp only: set_upt atLeastLessThan_iff) simp
  then obtain sensor where sensor: "t \<in> set trains" "sensor < 80" "known s' t = Some (sensor, se_time env)"
    "is_sensor_triggered edge sensor = Some True" "justified env s1 sensor t"
    using changed k [of t] unfolding attributed_ok_def by metis
  have "last_sensor s1 = last_sensor s \<and> last_time s1 = last_time s"
    by (simp add: s1_def last_sensor_def last_time_def fun_eq_iff)
  then have "justified env s sensor t"
    using sensor(5) by (simp add: justified_def is_expecting_def is_followed_def may_be_next_def is_lost_def)
  then show ?thesis using tr edge sensor unfolding justified_def by blast
qed

text \<open>Train 24, at no known place, is expected at sensor 0, which fires.\<close>

definition sample_env :: si_env where
  "sample_env = \<lparr>se_ok = True, se_time = 500, se_train = (\<lambda>_. \<lparr>td_train = 24, td_direction = True,
     td_should_speed = 0, td_headlights = True, td_last_speed = 0, td_time_speed_last_changed = 0\<rparr>),
     se_num_groups = 0, se_groups = [], se_active = [24], se_num_active = 1, se_expected = replicate 81 0,
     se_track = [], se_nodes = 0\<rparr>"

definition sensor_0 :: "u32 list" where "sensor_0 = 0x80 # replicate 9 0"

lemma untriggered_loop:
  "list_all (\<lambda>i. is_sensor_triggered edge (of_nat i) = Some False) sensors \<Longrightarrow>
   interpret_loop env trains edge s a sensors = Some (s, a, [])"
  by (induction sensors) (simp_all add: interpret_sensor_def)

lemma sensor_0_only: "list_all (\<lambda>i. is_sensor_triggered sensor_0 (of_nat i) = Some False) [1..<80]"
  by code_simp

definition train_24_seen :: interpreter where
  "train_24_seen = \<lparr>si_last_sensor = (replicate 80 NO_DATA_RECEIVED)[24 := 0],
     si_time_at_last_sensor_hit = (replicate 80 0)[24 := 500], si_current_sensors = sensor_0\<rparr>"

lemma sample_sensor_0:
  "interpret_sensor sample_env [24] sensor_0 (interpreter_init\<lparr>si_current_sensors := sensor_0\<rparr>) None 0 =
     Some (train_24_seen, Some 24, [])"
  by code_simp

lemma sample_report:
  "\<exists>ev. interpreter_step sample_env interpreter_init (SI_SENSORSRECEIVED sensor_0) = Some (train_24_seen, ev)"
proof -
  have edge: "get_leading_edge (replicate 10 0) sensor_0 = Some (sensor_0, sensor_0)"
    "any_sensor_is_triggered sensor_0" "trains_to_attribute_to sample_env = Some [24]" by code_simp+
  have "interpret_loop sample_env [24] sensor_0 (interpreter_init\<lparr>si_current_sensors := sensor_0\<rparr>) None [0..<80] =
      Some (train_24_seen, Some 24, [])"
    using untriggered_loop [OF sensor_0_only, of sample_env "[24]" train_24_seen "Some 24"] sample_sensor_0
    by (simp add: upt_conv_Cons)
  then show ?thesis
    using edge by (simp add: interpreter_init_def sample_env_def train_24_seen_def last_sensor_def last_time_def)
qed

theorem attribution_justified_witness: "known train_24_seen 24 = Some (0, 500) \<and>
  (\<exists>sensor. known train_24_seen 24 = Some (sensor, se_time sample_env) \<and> sensor < 80)"
proof -
  have k: "known train_24_seen 24 = Some (0, 500)" "known interpreter_init 24 = Some (NO_DATA_RECEIVED, 0)" by code_simp+
  then have ne: "known train_24_seen 24 \<noteq> known interpreter_init 24" by simp
  obtain ev where "interpreter_step sample_env interpreter_init (SI_SENSORSRECEIVED sensor_0) = Some (train_24_seen, ev)"
    using sample_report by blast
  from attribution_justified [OF this ne] obtain sensor
    where "known train_24_seen 24 = Some (sensor, se_time sample_env)" "sensor < 80" by blast
  with k(1) show ?thesis by blast
qed

end
