(* ===== verification/Nameserver.thy ===== *)
theory Nameserver
  imports Tstd_Strings
begin

text \<open>
  The nameserver, \<open>usr/nameserver.c\<close>, and its clients \<open>RegisterAs\<close> and \<open>WhoIs\<close> of \<open>lib/codes.c\<close>.
  The server's arrays start with whatever the stack held. One message is one step: the bytes of the
  message go into the buffer, of which the rest keeps its old content, as \<open>Receive\<close> does. \<open>None\<close>
  is reading outside an array.
\<close>

definition NAMESERVER_MSG_LENGTH :: nat where "NAMESERVER_MSG_LENGTH = 32"

definition TOTAL_NUM_NAMES :: nat where "TOTAL_NUM_NAMES = 512"

record nameserver =
  ns_names :: "chars list"
  ns_task_ids :: "int list"
  ns_next_name :: nat
  ns_buffer :: chars

section \<open>The server\<close>

fun index_of_name_loop :: "chars \<Rightarrow> chars list \<Rightarrow> nat list \<Rightarrow> int option" where
  "index_of_name_loop name names [] = Some (-1)"
| "index_of_name_loop name names (i # rest) = do {
     row \<leftarrow> array_get names i;
     r \<leftarrow> tstrncmp row name (int NAMESERVER_MSG_LENGTH - 1);
     if r = 0 then Some (int i) else index_of_name_loop name names rest
   }"

definition get_index_of_name :: "chars \<Rightarrow> chars list \<Rightarrow> nat \<Rightarrow> int option" where
  "get_index_of_name name names next_name = index_of_name_loop name names [0..<next_name]"

text \<open>\<open>0xABAD10DE\<close> as an \<open>int\<close>.\<close>

definition NS_WRONG :: int where "NS_WRONG = 0xABAD10DE - 2 ^ 32"

datatype ns_outcome = NS_REPLY nameserver int | NS_RETURN

text \<open>\<open>Receive\<close>: the length of the message, or -1 when it was cut.\<close>

definition ns_receive :: "chars \<Rightarrow> chars \<Rightarrow> chars \<times> int" where
  "ns_receive buf msg = (take NAMESERVER_MSG_LENGTH msg @ drop (length msg) buf,
     if length msg > NAMESERVER_MSG_LENGTH then -1 else int (length msg))"

definition ns_register :: "nameserver \<Rightarrow> int \<Rightarrow> int \<Rightarrow> (nameserver \<times> int) option" where
  "ns_register s sender_tid ret =
     (if ns_next_name s \<ge> TOTAL_NUM_NAMES then Some (s, -4)
      else do {
        let name = drop 1 (ns_buffer s);
        index \<leftarrow> get_index_of_name name (ns_names s) (ns_next_name s);
        if index = -1 then do {
          task_ids \<leftarrow> array_set (ns_task_ids s) (ns_next_name s) sender_tid;
          row \<leftarrow> array_get (ns_names s) (ns_next_name s);
          let n = nat (ret - 1);
          guard_opt (n \<le> length name \<and> n \<le> length row);
          names \<leftarrow> array_set (ns_names s) (ns_next_name s) (take n name @ drop n row);
          Some (s\<lparr>ns_task_ids := task_ids, ns_names := names, ns_next_name := ns_next_name s + 1\<rparr>, 0)
        }
        else do {
          task_ids \<leftarrow> array_set (ns_task_ids s) (nat index) sender_tid;
          Some (s\<lparr>ns_task_ids := task_ids\<rparr>, 0)
        }
      })"

definition ns_whois :: "nameserver \<Rightarrow> int option" where
  "ns_whois s = do {
     index \<leftarrow> get_index_of_name (drop 1 (ns_buffer s)) (ns_names s) (ns_next_name s);
     if index = -1 then Some (-4) else array_get (ns_task_ids s) (nat index)
   }"

definition nameserver_step :: "nameserver \<Rightarrow> int \<Rightarrow> chars \<Rightarrow> ns_outcome option" where
  "nameserver_step s0 sender_tid msg = do {
     let (buf, ret) = ns_receive (ns_buffer s0) msg;
     let s = s0\<lparr>ns_buffer := buf\<rparr>;
     if ret = -1 then Some (NS_REPLY s (-2))
     else if ret \<le> 2 then Some (NS_REPLY s (-3))
     else do {
       c \<leftarrow> array_get buf 0;
       if c = 82 then do { (s', r) \<leftarrow> ns_register s sender_tid ret; Some (NS_REPLY s' r) }
       else if c = 87 then do { r \<leftarrow> ns_whois s; Some (NS_REPLY s r) }
       else if c = 75 then Some NS_RETURN
       else Some (NS_REPLY s NS_WRONG)
     }
   }"

section \<open>The clients\<close>

text \<open>
  \<open>send_message_to_nameserver\<close> while the server runs: the string with its terminator behind the type
  of the message. \<open>nameserver_panic\<close> does not return.
\<close>

definition send_message_to_nameserver ::
  "nameserver \<Rightarrow> int \<Rightarrow> chars \<Rightarrow> u8 \<Rightarrow> (nameserver \<times> int) option" where
  "send_message_to_nameserver s tid c msg_type = do {
     len \<leftarrow> tstrlen c;
     out \<leftarrow> nameserver_step s tid (msg_type # take (len + 1) c);
     case out of
       NS_REPLY s' response \<Rightarrow> if response = NS_WRONG then None else Some (s', response)
     | NS_RETURN \<Rightarrow> None
   }"

definition RegisterAs :: "nameserver \<Rightarrow> int \<Rightarrow> chars \<Rightarrow> (nameserver \<times> int) option" where
  "RegisterAs s tid c = send_message_to_nameserver s tid c 82"

definition WhoIs :: "nameserver \<Rightarrow> int \<Rightarrow> chars \<Rightarrow> (nameserver \<times> int) option" where
  "WhoIs s tid c = send_message_to_nameserver s tid c 87"

section \<open>The table as a map\<close>

text \<open>A C string: the bytes up to the terminator.\<close>

definition cstring :: "chars \<Rightarrow> chars" where
  "cstring row = takeWhile (\<lambda>b. b \<noteq> 0) row"

definition terminated :: "nat \<Rightarrow> chars \<Rightarrow> bool" where
  "terminated n row \<longleftrightarrow> n \<le> length row \<and> 0 \<in> set (take n row)"

lemma tstrncmp_loop_shift: "tstrncmp_loop (a # d) (b # s) (Suc i) n = tstrncmp_loop d s i n"
  by (induction n arbitrary: i) (simp_all add: array_get_def)

lemma tstrncmp_loop_eq:
  "terminated n d \<Longrightarrow> terminated n s \<Longrightarrow>
   \<exists>r. tstrncmp_loop d s 0 n = Some r \<and> (r = 0 \<longleftrightarrow> cstring d = cstring s)"
proof (induction n arbitrary: d s)
  case (Suc n)
  then obtain a d' b s' where ds: "d = a # d'" "s = b # s'"
    by (cases d; cases s) (auto simp: terminated_def)
  show ?case
  proof (cases "a = b \<and> a \<noteq> 0")
    case True
    then have "terminated n d'" "terminated n s'" using Suc.prems by (auto simp: ds terminated_def)
    from Suc.IH [OF this] show ?thesis using True by (simp add: ds tstrncmp_loop_shift cstring_def)
  next
    case False
    then show ?thesis using linorder_neq_iff [of a b] by (auto simp: ds cstring_def)
  qed
qed (simp add: terminated_def)

definition ns_ok :: "nameserver \<Rightarrow> bool" where
  "ns_ok s \<longleftrightarrow> length (ns_names s) = TOTAL_NUM_NAMES \<and> length (ns_task_ids s) = TOTAL_NUM_NAMES \<and>
     ns_next_name s \<le> TOTAL_NUM_NAMES \<and> length (ns_buffer s) = NAMESERVER_MSG_LENGTH \<and>
     (\<forall>row \<in> set (ns_names s). length row = NAMESERVER_MSG_LENGTH) \<and>
     (\<forall>i < ns_next_name s. terminated 31 (ns_names s ! i))"

definition ns_find :: "nameserver \<Rightarrow> chars \<Rightarrow> nat option" where
  "ns_find s c = find (\<lambda>i. cstring (ns_names s ! i) = c) [0..<ns_next_name s]"

definition ns_map :: "nameserver \<Rightarrow> chars \<Rightarrow> int option" where
  "ns_map s c = map_option (\<lambda>i. ns_task_ids s ! i) (ns_find s c)"

lemma index_of_name_loop_find:
  assumes "terminated 31 name"
  shows "\<forall>i \<in> set is. i < length names \<and> terminated 31 (names ! i) \<Longrightarrow>
    index_of_name_loop name names is =
      Some (case find (\<lambda>i. cstring (names ! i) = cstring name) is of None \<Rightarrow> -1 | Some i \<Rightarrow> int i)"
proof (induction "is")
  case (Cons i "is")
  obtain r where r: "tstrncmp_loop (names ! i) name 0 31 = Some r" "r = 0 \<longleftrightarrow> cstring (names ! i) = cstring name"
    using tstrncmp_loop_eq [of 31 "names ! i" name] Cons.prems assms by auto
  have "nat (int NAMESERVER_MSG_LENGTH - 1) = 31" by (simp add: NAMESERVER_MSG_LENGTH_def)
  then show ?case using Cons r by (auto simp: tstrncmp_def)
qed simp

lemma get_index_ns_find:
  assumes "ns_ok s" "terminated 31 name"
  shows "get_index_of_name name (ns_names s) (ns_next_name s) =
    Some (case ns_find s (cstring name) of None \<Rightarrow> -1 | Some i \<Rightarrow> int i)"
  unfolding get_index_of_name_def ns_find_def
  by (rule index_of_name_loop_find [OF assms(2)]) (use assms(1) in \<open>auto simp: ns_ok_def\<close>)

lemma find_snoc: "find P (xs @ [x]) = (case find P xs of None \<Rightarrow> if P x then Some x else None | r \<Rightarrow> r)"
  by (induction xs) auto

lemma ns_find_Some:
  assumes "ns_find s c = Some i"
  shows "i < ns_next_name s" "cstring (ns_names s ! i) = c"
  using assms unfolding ns_find_def by (auto simp: find_Some_iff)

text \<open>A string, the message it makes, and what the server finds in its buffer.\<close>

lemma tstrlen_split:
  "tstrlen c = Some n \<Longrightarrow> n < length c \<and> c ! n = 0 \<and> cstring c = take n c \<and> 0 \<notin> set (take n c)"
proof (induction c arbitrary: n)
  case (Cons b c)
  then show ?case by (cases "b = 0") (auto simp: cstring_def split: option.splits)
qed simp

lemma cstring_take:
  assumes "tstrlen c = Some n"
  shows "cstring (take (Suc n) c @ z) = take n c" "n \<le> 30 \<Longrightarrow> 31 \<le> length (take (Suc n) c @ z) \<Longrightarrow>
    terminated 31 (take (Suc n) c @ z)"
proof -
  note c = tstrlen_split [OF assms]
  have t: "take (Suc n) c = take n c @ [0]" using c by (simp add: take_Suc_conv_app_nth)
  have nz: "takeWhile (\<lambda>b. b \<noteq> 0) (take n c @ 0 # z) = take n c" using c
    by (subst takeWhile_append2) auto
  show "cstring (take (Suc n) c @ z) = take n c" using nz by (simp add: t cstring_def)
  assume "n \<le> 30" "31 \<le> length (take (Suc n) c @ z)"
  moreover have "0 \<in> set (take 31 (take (Suc n) c @ z))"
    using \<open>n \<le> 30\<close> c by (auto simp: t take_Cons' min_def)
  ultimately show "terminated 31 (take (Suc n) c @ z)" by (simp add: terminated_def)
qed

lemma client_message:
  assumes "length buf = NAMESERVER_MSG_LENGTH" "tstrlen c = Some n" "n \<le> 30"
  obtains z where "ns_receive buf (ty # take (n + 1) c) = (ty # take (n + 1) c @ z, int n + 2)"
    "length (ty # take (n + 1) c @ z) = NAMESERVER_MSG_LENGTH"
proof
  let ?z = "drop (n + 2) buf"
  have "length (take (n + 1) c) = n + 1" using tstrlen_split [OF assms(2)] by simp
  then show "ns_receive buf (ty # take (n + 1) c) = (ty # take (n + 1) c @ ?z, int n + 2)"
    "length (ty # take (n + 1) c @ ?z) = NAMESERVER_MSG_LENGTH"
    using assms by (simp_all add: ns_receive_def NAMESERVER_MSG_LENGTH_def)
qed

text \<open>Changing the buffer changes nothing in the table.\<close>

lemma ns_buffer_frame [simp]:
  "ns_find (s\<lparr>ns_buffer := b\<rparr>) = ns_find s" "ns_map (s\<lparr>ns_buffer := b\<rparr>) = ns_map s"
  by (auto simp: ns_find_def ns_map_def fun_eq_iff)

lemma ns_ok_buffer: "ns_ok s \<Longrightarrow> length b = NAMESERVER_MSG_LENGTH \<Longrightarrow> ns_ok (s\<lparr>ns_buffer := b\<rparr>)"
  by (simp add: ns_ok_def)

lemma ns_register_ok:
  assumes ok: "ns_ok s" and buf: "ns_buffer s = ty # take (Suc n) c @ z"
    and c: "tstrlen c = Some n" "n \<le> 30"
  shows "\<exists>s'. ns_register s tid (int n + 2) =
      Some (s', if ns_next_name s \<ge> TOTAL_NUM_NAMES then -4 else 0) \<and> ns_ok s' \<and>
    ns_map s' = (if ns_next_name s \<ge> TOTAL_NUM_NAMES then ns_map s else (ns_map s)(cstring c \<mapsto> tid))"
proof (cases "ns_next_name s \<ge> TOTAL_NUM_NAMES")
  case False
  let ?name = "take (Suc n) c @ z" and ?k = "ns_next_name s"
  have nl: "length ?name = 31" using ok buf by (auto simp: ns_ok_def NAMESERVER_MSG_LENGTH_def)
  have cs: "cstring ?name = cstring c" "terminated 31 ?name"
    using cstring_take [OF c(1), of z] tstrlen_split [OF c(1)] c(2) nl by auto
  have nm: "drop 1 (ns_buffer s) = ?name" using buf by simp
  note ix = get_index_ns_find [OF ok cs(2), unfolded cs(1)]
  show ?thesis
  proof (cases "ns_find s (cstring c)")
    case None
    define row where "row = take (Suc n) ?name @ drop (Suc n) (ns_names s ! ?k)"
    let ?s = "s\<lparr>ns_task_ids := (ns_task_ids s)[?k := tid], ns_names := (ns_names s)[?k := row],
      ns_next_name := ?k + 1\<rparr>"
    have k: "?k < length (ns_names s)" "?k < length (ns_task_ids s)" "length (ns_names s ! ?k) = 32"
      using ok False by (auto simp: ns_ok_def NAMESERVER_MSG_LENGTH_def)
    have lt: "length (take (Suc n) c) = Suc n" using tstrlen_split [OF c(1)] by simp
    then have row: "row = take (Suc n) c @ drop (Suc n) (ns_names s ! ?k)" "length row = NAMESERVER_MSG_LENGTH"
      using k(3) c(2) by (simp_all add: row_def NAMESERVER_MSG_LENGTH_def)
    then have rowc: "cstring row = cstring c" "terminated 31 row"
      using cstring_take [OF c(1), of "drop (Suc n) (ns_names s ! ?k)"] tstrlen_split [OF c(1)] c(2)
      by (auto simp: NAMESERVER_MSG_LENGTH_def)
    have "ns_register s tid (int n + 2) = Some (?s, 0)"
      using False nm ix None k nl c(2) by (simp add: ns_register_def Let_def nat_add_distrib row_def)
    moreover have "\<forall>r \<in> set ((ns_names s)[?k := row]). length r = NAMESERVER_MSG_LENGTH"
      using ok row(2) set_update_subset_insert [of "ns_names s" ?k row] by (auto simp: ns_ok_def)
    then have "ns_ok ?s"
      using ok False rowc(2) k(1) by (auto simp: ns_ok_def nth_list_update less_Suc_eq)
    moreover have "ns_find ?s d = (case ns_find s d of None \<Rightarrow> if d = cstring c then Some ?k else None | r \<Rightarrow> r)" for d
    proof -
      have "find (\<lambda>i. cstring ((ns_names s)[?k := row] ! i) = d) [0..<?k] =
          find (\<lambda>i. cstring (ns_names s ! i) = d) [0..<?k]"
        by (rule find_cong) simp_all
      then show ?thesis using rowc(1) k(1) by (auto simp: ns_find_def find_snoc split: option.splits)
    qed
    then have "ns_map ?s d = ((ns_map s)(cstring c \<mapsto> tid)) d" for d
      using None k(2) ns_find_Some(1) [of s d]
      by (auto simp: ns_map_def split: option.splits)
    ultimately show ?thesis using False by (intro exI [of _ ?s]) auto
  next
    case (Some i)
    let ?s = "s\<lparr>ns_task_ids := (ns_task_ids s)[i := tid]\<rparr>"
    have i: "i < ?k" "i < length (ns_task_ids s)" using ns_find_Some(1) [OF Some] ok by (auto simp: ns_ok_def)
    have "ns_register s tid (int n + 2) = Some (?s, 0)"
      using False nm ix Some i by (simp add: ns_register_def Let_def)
    moreover have "ns_ok ?s" using ok by (simp add: ns_ok_def)
    moreover have "ns_find ?s d = ns_find s d" for d by (simp add: ns_find_def)
    then have "ns_map ?s d = ((ns_map s)(cstring c \<mapsto> tid)) d" for d
      using Some i ns_find_Some(2) [of s d] ns_find_Some(2) [OF Some]
      by (cases "ns_find s d") (auto simp: ns_map_def nth_list_update)
    ultimately show ?thesis using False by (intro exI [of _ ?s]) auto
  qed
qed (use ok in \<open>simp add: ns_register_def\<close>)

section \<open>Properties\<close>

text \<open>Runs: clients register and ask, with any strings, from any content of the server's stack.\<close>

inductive ns_run :: "nameserver \<Rightarrow> bool" where
  init: "length names = TOTAL_NUM_NAMES \<Longrightarrow> \<forall>row \<in> set names. length row = NAMESERVER_MSG_LENGTH \<Longrightarrow>
    length task_ids = TOTAL_NUM_NAMES \<Longrightarrow> length buf = NAMESERVER_MSG_LENGTH \<Longrightarrow>
    ns_run \<lparr>ns_names = names, ns_task_ids = task_ids, ns_next_name = 0, ns_buffer = buf\<rparr>"
| register: "ns_run s \<Longrightarrow> RegisterAs s tid c = Some (s', r) \<Longrightarrow> ns_run s'"
| ask: "ns_run s \<Longrightarrow> WhoIs s tid c = Some (s', r) \<Longrightarrow> ns_run s'"

lemma ns_receive_length:
  "length buf = NAMESERVER_MSG_LENGTH \<Longrightarrow> length (fst (ns_receive buf m)) = NAMESERVER_MSG_LENGTH"
  by (auto simp: ns_receive_def)

lemma client_rejected:
  assumes ok: "ns_ok s" and n: "tstrlen c = Some n" "n = 0 \<or> 30 < n"
  shows "\<exists>s'. send_message_to_nameserver s tid c ty = Some (s', if n = 0 then -3 else -2) \<and>
    ns_ok s' \<and> ns_map s' = ns_map s"
proof -
  let ?m = "ty # take (Suc n) c" let ?b = "fst (ns_receive (ns_buffer s) ?m)"
  have l: "length ?m = n + 2" using tstrlen_split [OF n(1)] by simp
  have "length ?b = NAMESERVER_MSG_LENGTH" using ok ns_receive_length by (auto simp: ns_ok_def)
  moreover have "nameserver_step s tid ?m = Some (NS_REPLY (s\<lparr>ns_buffer := ?b\<rparr>) (if n = 0 then -3 else -2))"
    using n(2) l by (auto simp: nameserver_step_def ns_receive_def Let_def NAMESERVER_MSG_LENGTH_def)
  ultimately show ?thesis using n(1) ok
    by (auto simp: send_message_to_nameserver_def ns_ok_buffer NS_WRONG_def)
qed

lemma register_ok:
  assumes ok: "ns_ok s" and n: "tstrlen c = Some n" "0 < n" "n \<le> 30"
  shows "\<exists>s'. RegisterAs s tid c = Some (s', if ns_next_name s \<ge> TOTAL_NUM_NAMES then -4 else 0) \<and> ns_ok s' \<and>
    ns_map s' = (if ns_next_name s \<ge> TOTAL_NUM_NAMES then ns_map s else (ns_map s)(cstring c \<mapsto> tid))"
proof -
  have lb: "length (ns_buffer s) = NAMESERVER_MSG_LENGTH" using ok by (simp add: ns_ok_def)
  obtain z where z: "ns_receive (ns_buffer s) (82 # take (n + 1) c) = (82 # take (n + 1) c @ z, int n + 2)"
    "length (82 # take (n + 1) c @ z) = NAMESERVER_MSG_LENGTH"
    using client_message [OF lb n(1,3)] by blast
  let ?s = "s\<lparr>ns_buffer := 82 # take (n + 1) c @ z\<rparr>"
  have "ns_ok ?s" using ns_ok_buffer [OF ok] z(2) by simp
  from ns_register_ok [OF this _ n(1,3), of 82 z tid] obtain s' where
    "ns_register ?s tid (int n + 2) = Some (s', if ns_next_name s \<ge> TOTAL_NUM_NAMES then -4 else 0)"
    "ns_ok s'" "ns_map s' = (if ns_next_name s \<ge> TOTAL_NUM_NAMES then ns_map s else (ns_map s)(cstring c \<mapsto> tid))"
    by auto
  then show ?thesis using z(1) n
    by (simp add: RegisterAs_def send_message_to_nameserver_def nameserver_step_def Let_def NS_WRONG_def)
qed

lemma whois_ok:
  assumes ok: "ns_ok s" and n: "tstrlen c = Some n" "0 < n" "n \<le> 30"
    and t: "ns_map s (cstring c) \<noteq> Some NS_WRONG"
  shows "\<exists>s'. WhoIs s tid c = Some (s', case ns_map s (cstring c) of None \<Rightarrow> -4 | Some t \<Rightarrow> t) \<and> ns_ok s' \<and>
    ns_map s' = ns_map s"
proof -
  have lb: "length (ns_buffer s) = NAMESERVER_MSG_LENGTH" using ok by (simp add: ns_ok_def)
  obtain z where z: "ns_receive (ns_buffer s) (87 # take (n + 1) c) = (87 # take (n + 1) c @ z, int n + 2)"
    "length (87 # take (n + 1) c @ z) = NAMESERVER_MSG_LENGTH"
    using client_message [OF lb n(1,3)] by blast
  let ?s = "s\<lparr>ns_buffer := 87 # take (n + 1) c @ z\<rparr>" and ?name = "take (Suc n) c @ z"
  have ok': "ns_ok ?s" using ns_ok_buffer [OF ok] z(2) by simp
  have cs: "cstring ?name = cstring c" "terminated 31 ?name"
    using cstring_take [OF n(1), of z] tstrlen_split [OF n(1)] n(3) z(2) by (auto simp: NAMESERVER_MSG_LENGTH_def)
  have "ns_whois ?s = Some (case ns_map s (cstring c) of None \<Rightarrow> -4 | Some t \<Rightarrow> t)"
    using get_index_ns_find [OF ok' cs(2)] cs(1) ns_find_Some(1) [of s "cstring c"] ok
    by (auto simp: ns_whois_def ns_map_def ns_ok_def split: option.splits)
  then show ?thesis using z(1) n ok' t
    by (auto simp: WhoIs_def send_message_to_nameserver_def nameserver_step_def Let_def NS_WRONG_def
        split: option.splits)
qed

lemma ns_receive_head: "array_get (fst (ns_receive buf (t # m))) 0 = Some t"
  by (simp add: ns_receive_def NAMESERVER_MSG_LENGTH_def)

lemma whois_frame:
  assumes "ns_ok s" "WhoIs s tid c = Some (s', r)"
  shows "ns_ok s'" "ns_map s' = ns_map s"
proof -
  obtain m where s': "s' = s\<lparr>ns_buffer := fst (ns_receive (ns_buffer s) m)\<rparr>"
    using assms(2)
    by (auto simp: WhoIs_def send_message_to_nameserver_def nameserver_step_def Let_def case_prod_beta
        ns_receive_head split: bind_splits if_splits ns_outcome.splits)
  have "length (fst (ns_receive (ns_buffer s) m)) = NAMESERVER_MSG_LENGTH"
    using assms(1) ns_receive_length by (auto simp: ns_ok_def)
  then show "ns_ok s'" "ns_map s' = ns_map s" using assms(1) by (simp_all add: s' ns_ok_buffer)
qed

lemma send_tstrlen: "send_message_to_nameserver s tid c ty = Some x \<Longrightarrow> \<exists>n. tstrlen c = Some n"
  by (auto simp: send_message_to_nameserver_def split: bind_splits)

lemma ns_run_ok: "ns_run s \<Longrightarrow> ns_ok s"
proof (induction rule: ns_run.induct)
  case (init names task_ids buf)
  then show ?case by (simp add: ns_ok_def)
next
  case (register s tid c s' r)
  obtain n where n: "tstrlen c = Some n" using register(2) send_tstrlen unfolding RegisterAs_def by blast
  show ?case
    using client_rejected [OF register.IH n, of tid 82] register_ok [OF register.IH n, of tid] register(2)
    by (cases "n = 0 \<or> 30 < n") (auto simp: RegisterAs_def)
qed (rule whois_frame)


definition blank_ns :: nameserver where
  "blank_ns = \<lparr>ns_names = replicate 512 (replicate 32 0), ns_task_ids = replicate 512 0,
     ns_next_name = 0, ns_buffer = replicate 32 0\<rparr>"

lemma blank_ns_run: "ns_run blank_ns"
  unfolding blank_ns_def by (rule ns_run.init) (simp_all add: TOTAL_NUM_NAMES_def NAMESERVER_MSG_LENGTH_def)


text \<open>
  In every run \<open>WhoIs\<close> gives the tid last registered under a name of 1 to 30 characters, -4 when
  there is none, and changes nothing in the table.
\<close>

theorem nameserver_whois:
  assumes "ns_run s" "tstrlen c = Some n" "ns_map s (cstring c) \<noteq> Some NS_WRONG"
  shows "\<exists>s'. WhoIs s tid c = Some (s', if n = 0 then -3 else if 30 < n then -2
      else case ns_map s (cstring c) of None \<Rightarrow> -4 | Some t \<Rightarrow> t) \<and> ns_run s' \<and> ns_map s' = ns_map s"
proof -
  note ok = ns_run_ok [OF assms(1)]
  have "\<exists>s'. WhoIs s tid c = Some (s', if n = 0 then -3 else if 30 < n then -2
      else case ns_map s (cstring c) of None \<Rightarrow> -4 | Some t \<Rightarrow> t) \<and> ns_map s' = ns_map s"
  proof (cases "n = 0 \<or> 30 < n")
    case True
    then show ?thesis using client_rejected [OF ok assms(2), of tid 87] by (auto simp: WhoIs_def)
  next
    case False
    then show ?thesis using whois_ok [OF ok assms(2) _ _ assms(3), of tid] by auto
  qed
  then show ?thesis using ns_run.ask [OF assms(1)] by blast
qed

theorem nameserver_whois_witness:
  "\<exists>s'. WhoIs blank_ns 7 [67, 0] = Some (s', -4) \<and> ns_run s'"
  using nameserver_whois [OF blank_ns_run, of "[67, 0]" 1 7]
  by (auto simp: blank_ns_def ns_map_def ns_find_def)

end
