(* ===== verification/Train_Commands.thy ===== *)
theory Train_Commands
  imports Sensor_Interpreter Reservation
begin

text \<open>
  The commands, \<open>usr/train/commands.c\<close>: what a task calls to move trains and turnouts and to ask the
  servers; with them the short-lived tasks made of such calls. A command that talks to several tasks is
  the list of its events in order: a message to the transmit server of the trains or to the track state
  controller, a delay. The code asserts on the result of almost every call, and a failed assertion
  ends the system, so that in such a run only a first part of the events happens. \<open>None\<close> is a failed
  assertion on the arguments.
\<close>

datatype cmd_event =
    PUT_BYTES "u8 list"
  | PUTC u8
  | TSC tsc_message
  | DELAY int

text \<open>The train in a message is a \<open>char\<close>.\<close>

definition char_field :: "int \<Rightarrow> int" where "char_field i = uint (of_int i :: u8)"

section \<open>Speed and direction\<close>

definition REVERSE_SPEED :: u8 where "REVERSE_SPEED = 15"

definition set_train_speed_and_headlights :: "int \<Rightarrow> int \<Rightarrow> bool \<Rightarrow> cmd_event list option" where
  "set_train_speed_and_headlights train speed headlights = do {
     guard_opt (train \<ge> 1 \<and> train \<le> 80);
     guard_opt (speed \<ge> 0 \<and> speed \<le> 14);
     Some [PUT_BYTES [of_int (speed + (if headlights then 0x10 else 0)), of_int train],
       TSC (TRAINSETSPEED train speed headlights)]
   }"

definition set_train_speed :: "int \<Rightarrow> int \<Rightarrow> cmd_event list option" where
  "set_train_speed train speed = set_train_speed_and_headlights train speed True"

text \<open>\<open>direction\<close> is the direction in the reply to \<open>GETTRAIN\<close>.\<close>

definition reverse_train :: "int \<Rightarrow> bool \<Rightarrow> cmd_event list option" where
  "reverse_train train direction = do {
     guard_opt (train > 0 \<and> train \<le> 80);
     Some [PUT_BYTES [REVERSE_SPEED, of_int train], TSC (GETTRAIN train), TSC (TRAINREVERSED train (\<not> direction))]
   }"

definition stop_and_reverse_helper :: "int \<Rightarrow> int \<Rightarrow> int \<Rightarrow> bool \<Rightarrow> cmd_event list option" where
  "stop_and_reverse_helper train previous_speed speed direction = do {
     stop \<leftarrow> set_train_speed train 0;
     wait \<leftarrow> cmul previous_speed 33;
     reverse \<leftarrow> reverse_train train direction;
     go \<leftarrow> set_train_speed train speed;
     Some (stop @ [DELAY wait] @ reverse @ [DELAY 8] @ go)
   }"

text \<open>\<open>should_speed\<close> is the speed in the reply to the first \<open>GETTRAIN\<close>.\<close>

definition stop_and_reverse_train_to_speed :: "int \<Rightarrow> int \<Rightarrow> int \<Rightarrow> bool \<Rightarrow> cmd_event list option" where
  "stop_and_reverse_train_to_speed train speed should_speed direction =
     map_option (Cons (TSC (GETTRAIN (char_field train)))) (stop_and_reverse_helper train should_speed speed direction)"

definition stop_and_reverse_train :: "int \<Rightarrow> int \<Rightarrow> bool \<Rightarrow> cmd_event list option" where
  "stop_and_reverse_train train should_speed direction =
     map_option (Cons (TSC (GETTRAIN (char_field train)))) (stop_and_reverse_helper train should_speed should_speed direction)"

section \<open>Turnouts\<close>

definition paired_turnouts :: "int list" where "paired_turnouts = [154, 153, 156, 155]"

definition switch_turnout :: "int \<Rightarrow> bool \<Rightarrow> cmd_event list option" where
  "switch_turnout turnout_num curved = do {
     guard_opt (is_valid_turnout_num (of_int turnout_num));
     let first = [PUT_BYTES [if curved then 0x22 else 0x21, of_int turnout_num],
       TSC (TURNOUTSWITCHED (of_int turnout_num) (if curved then TURNOUT_CURVED else TURNOUT_STRAIGHT))];
     pair \<leftarrow> (if turnout_num \<ge> 153 \<and> turnout_num \<le> 156 \<and> curved then do {
         paired \<leftarrow> array_get paired_turnouts (nat (turnout_num - 153));
         Some [PUT_BYTES [0x21, of_int paired], TSC (TURNOUTSWITCHED (of_int paired) TURNOUT_STRAIGHT)]
       }
       else Some []);
     Some (first @ pair @ [DELAY 15, PUTC 0x20])
   }"

text \<open>\<open>switcher_turnout\<close> creates a switcher two priorities above its caller and sends it this message.\<close>

datatype switch_message = MESSAGE_SWITCH int bool | SWITCH_OTHER

definition switcher_turnout :: "int \<Rightarrow> int \<Rightarrow> bool \<Rightarrow> int \<times> switch_message" where
  "switcher_turnout my_priority turnout_num curved = (my_priority + 2, MESSAGE_SWITCH turnout_num curved)"

definition DELAY_BETWEEN_SW :: int where "DELAY_BETWEEN_SW = 50"

text \<open>The switcher task: \<open>t\<close> is the time read; a turnout switched less than half a second ago is left alone.\<close>

fun switcher :: "int \<Rightarrow> switch_message \<Rightarrow> track_state \<Rightarrow> (track_state \<times> cmd_event list) option" where
  "switcher t (MESSAGE_SWITCH turnout_num curved) s = do {
     guard_opt (t > 0);
     let i = turnout_num_to_map_offset (of_int turnout_num);
     guard_opt (unat i < NUM_TURNOUTS);
     last \<leftarrow> array_get (ts_last_switch_time s) (unat i);
     earliest \<leftarrow> int32 (last + DELAY_BETWEEN_SW);
     if t \<ge> earliest then do {
       times \<leftarrow> array_set (ts_last_switch_time s) (unat i) t;
       ev \<leftarrow> switch_turnout turnout_num curved;
       Some (s\<lparr>ts_last_switch_time := times\<rparr>, ev)
     }
     else Some (s, [])
   }"
| "switcher t SWITCH_OTHER s = None"

text \<open>The tasks that put everything back: all turnouts, the speeds of the active trains.\<close>

fun switch_turnouts :: "(int \<times> bool) list \<Rightarrow> cmd_event list option" where
  "switch_turnouts [] = Some []"
| "switch_turnouts ((n, curved) # rest) = do {
     ev \<leftarrow> switch_turnout n curved;
     ev' \<leftarrow> switch_turnouts rest;
     Some (ev @ ev')
   }"

definition turnout_resetter :: "cmd_event list option" where
  "turnout_resetter = switch_turnouts (map (\<lambda>i. (i, True)) [1..18] @
     [(153, True), (154, False), (155, True), (156, False)])"

fun set_speeds :: "int list \<Rightarrow> cmd_event list option" where
  "set_speeds [] = Some []"
| "set_speeds (train # trains) = do {
     ev \<leftarrow> set_train_speed train 0;
     ev' \<leftarrow> set_speeds trains;
     Some (ev @ ev')
   }"

definition speed_resetter :: "int list \<Rightarrow> int \<Rightarrow> cmd_event list option" where
  "speed_resetter active_trains num_active_trains =
     Option.bind (array_prefix active_trains num_active_trains) set_speeds"

text \<open>The reverser task: the message names the train, a \<open>char\<close>; the rest is in the reply of \<open>GETTRAIN\<close>.\<close>

datatype reverse_message = MESSAGE_REVERSE u8 | REVERSE_OTHER

fun reverser :: "reverse_message \<Rightarrow> int \<Rightarrow> bool \<Rightarrow> cmd_event list option" where
  "reverser (MESSAGE_REVERSE train) should_speed direction = do {
     guard_opt (train \<le> 81);
     stop_and_reverse_train (uint train) should_speed direction
   }"
| "reverser REVERSE_OTHER should_speed direction = None"

section \<open>Questions to the servers\<close>

text \<open>
  Each sends one message; the result is read from the reply, whose type is asserted. The track state
  controller answers the three model questions with one type of reply each, which \<open>REPLY_MODEL\<close> stands for.
\<close>

fun get_train :: "int \<Rightarrow> tsc_reply \<Rightarrow> (tsc_message \<times> tsc_reply) option" where
  "get_train train (REPLY_GETTRAIN d v h l c) = Some (GETTRAIN (char_field train), REPLY_GETTRAIN d v h l c)"
| "get_train train _ = None"

fun get_sensors :: "tsc_reply \<Rightarrow> (tsc_message \<times> int list) option" where
  "get_sensors (REPLY_GETSENSORS sensors) = Some (GETSENSORS, sensors)"
| "get_sensors _ = None"

fun get_turnouts :: "tsc_reply \<Rightarrow> (tsc_message \<times> turnout_state list) option" where
  "get_turnouts (REPLY_GETTURNOUTS turnouts) = do {
     guard_opt (NUM_TURNOUTS \<le> length turnouts);
     Some (GETTURNOUTS, take NUM_TURNOUTS turnouts)
   }"
| "get_turnouts _ = None"

fun get_constant_velocity_model :: "int \<Rightarrow> tsc_reply \<Rightarrow> (tsc_message \<times> u32 list) option" where
  "get_constant_velocity_model train (REPLY_MODEL m) = Some (GETCONSTANTSPEEDMODEL (char_field train), m)"
| "get_constant_velocity_model train _ = None"

fun get_stopping_distance_model :: "int \<Rightarrow> tsc_reply \<Rightarrow> (tsc_message \<times> u32 list) option" where
  "get_stopping_distance_model train (REPLY_MODEL m) = Some (GETSTOPPINGDISTANCEMODEL (char_field train), m)"
| "get_stopping_distance_model train _ = None"

fun get_stopping_time_model :: "int \<Rightarrow> tsc_reply \<Rightarrow> (tsc_message \<times> u32 list) option" where
  "get_stopping_time_model train (REPLY_MODEL m) = Some (GETSTOPPINGTIMEMODEL (char_field train), m)"
| "get_stopping_time_model train _ = None"

definition update_constant_velocity_model :: "int \<Rightarrow> int \<Rightarrow> u32 \<Rightarrow> u32 \<Rightarrow> u32 \<Rightarrow> tsc_message" where
  "update_constant_velocity_model train speed start finish ticks =
     UPDATECONSTANTSPEEDMODEL train speed start finish (sint ticks)"

definition update_stopping_distance_model :: "int \<Rightarrow> int \<Rightarrow> u32 \<Rightarrow> tsc_message" where
  "update_stopping_distance_model train speed distance = UPDATESTOPPINGDISTANCEMODEL train speed distance"

definition update_stopping_time_model :: "int \<Rightarrow> int \<Rightarrow> u32 \<Rightarrow> tsc_message" where
  "update_stopping_time_model train speed time = UPDATESTOPPINGTIMEMODEL train speed time"

fun get_last_sensor_hit :: "int \<Rightarrow> si_event \<Rightarrow> (si_message \<times> u32 \<times> int) option" where
  "get_last_sensor_hit train (REPLY_GET_LAST_SENSOR_HIT sensor ticks) =
     Some (GET_LAST_SENSOR_HIT (of_int train), sensor, ticks)"
| "get_last_sensor_hit train _ = None"

definition get_coordinates :: "int \<Rightarrow> coordinates option \<Rightarrow> (coords_message \<times> coordinates) option" where
  "get_coordinates train reply = map_option (\<lambda>c. (GET_COORDINATES (char_field train), c)) reply"

text \<open>The two questions answered with a response code; the reservation server's others follow.\<close>

definition send_to_track_reservation_server ::
  "(nptr option \<Rightarrow> nptr option \<Rightarrow> int \<Rightarrow> reservation_message) \<Rightarrow> (reservation_reply \<Rightarrow> int option) \<Rightarrow>
   int \<Rightarrow> nptr option \<Rightarrow> nptr option \<Rightarrow> reservation_reply \<Rightarrow> (reservation_message \<times> int) option" where
  "send_to_track_reservation_server send_type expected train start finish reply =
     map_option (\<lambda>r. (send_type start finish train, r)) (expected reply)"

fun make_response :: "reservation_reply \<Rightarrow> int option" where
  "make_response (REPLY_RESERVATION_MAKE r) = Some r"
| "make_response _ = None"

fun drop_response :: "reservation_reply \<Rightarrow> int option" where
  "drop_response (REPLY_RESERVATION_DROP r) = Some r"
| "drop_response _ = None"

definition reservation_make ::
  "int \<Rightarrow> nptr option \<Rightarrow> nptr option \<Rightarrow> reservation_reply \<Rightarrow> (reservation_message \<times> int) option" where
  "reservation_make = send_to_track_reservation_server RESERVATION_MAKE make_response"

definition reservation_drop ::
  "int \<Rightarrow> nptr option \<Rightarrow> nptr option \<Rightarrow> reservation_reply \<Rightarrow> (reservation_message \<times> int) option" where
  "reservation_drop = send_to_track_reservation_server RESERVATION_DROP drop_response"

definition reservation_drop_all :: "int \<Rightarrow> reservation_message" where
  "reservation_drop_all train = RESERVATION_DROP_ALL train"

fun reservation_get_all :: "int \<Rightarrow> reservation_reply \<Rightarrow> (reservation_message \<times> nat list) option" where
  "reservation_get_all train (REPLY_RESERVATION_GET_ALL rs) = Some (RESERVATION_GET_ALL train, rs)"
| "reservation_get_all train _ = None"

fun get_train_destination :: "int \<Rightarrow> disp_event \<Rightarrow> (disp_message \<times> u32) option" where
  "get_train_destination train (D_REPLY_DESTINATION t destination) =
     Some (DM_GET_DESTINATION (of_int train), of_int destination)"
| "get_train_destination train _ = None"

section \<open>Crossovers\<close>

text \<open>
  The turnouts 153 and 154, and 155 and 156, must not both be curved. Any number of tasks switch
  turnouts at the same time; their messages reach the transmit server and the track state controller
  in any interleaving. \<open>sy_sent\<close> is what the transmit server got, the latest first.
\<close>

record switch_system =
  sy_controller :: controller
  sy_sent :: "u8 list list"
  sy_tasks :: "cmd_event list list"

fun happens :: "cmd_event \<Rightarrow> switch_system \<Rightarrow> switch_system \<Rightarrow> bool" where
  "happens (PUT_BYTES b) s s' \<longleftrightarrow> s' = s\<lparr>sy_sent := b # sy_sent s\<rparr>"
| "happens (PUTC c) s s' \<longleftrightarrow> s' = s\<lparr>sy_sent := [c] # sy_sent s\<rparr>"
| "happens (TSC m) s s' \<longleftrightarrow> (\<exists>clk res snt c ev. controller_step clk res snt (sy_controller s) m = Some (c, ev) \<and>
     s' = s\<lparr>sy_controller := c\<rparr>)"
| "happens (DELAY t) s s' \<longleftrightarrow> s' = s"

fun about_turnout :: "cmd_event \<Rightarrow> bool" where
  "about_turnout (PUT_BYTES b) \<longleftrightarrow> b \<noteq> [] \<and> hd b \<in> {0x21, 0x22}"
| "about_turnout (TSC (TURNOUTSWITCHED n st)) \<longleftrightarrow> True"
| "about_turnout _ \<longleftrightarrow> False"

inductive switch_step :: "switch_system \<Rightarrow> switch_system \<Rightarrow> bool" where
  start: "int_range n \<Longrightarrow> switch_turnout n curved = Some es \<Longrightarrow> switch_step s (s\<lparr>sy_tasks := es # sy_tasks s\<rparr>)"
| event: "sy_tasks s = xs @ (e # es) # ys \<Longrightarrow> happens e s s' \<Longrightarrow>
     switch_step s (s'\<lparr>sy_tasks := xs @ es # ys\<rparr>)"
| other: "\<not> about_turnout e \<Longrightarrow> happens e s s' \<Longrightarrow> switch_step s s'"

inductive switch_run :: "switch_system \<Rightarrow> bool" where
  init: "controller_init t = Some c \<Longrightarrow> switch_run \<lparr>sy_controller = c, sy_sent = [], sy_tasks = []\<rparr>"
| step: "switch_run s \<Longrightarrow> switch_step s s' \<Longrightarrow> switch_run s'"

text \<open>What is known of a turnout: the state the controller keeps, the last command sent to it.\<close>

definition recorded_curved :: "switch_system \<Rightarrow> u32 \<Rightarrow> bool" where
  "recorded_curved s n \<longleftrightarrow>
     ts_turnouts (tc_state (sy_controller s)) ! unat (turnout_num_to_map_offset n) = TURNOUT_CURVED"

fun last_command :: "u8 list list \<Rightarrow> u8 \<Rightarrow> u8 option" where
  "last_command [] n = None"
| "last_command (b # bs) n =
     (if length b = 2 \<and> hd b \<in> {0x21, 0x22} \<and> last b = n then Some (hd b) else last_command bs n)"

definition commanded_curved :: "switch_system \<Rightarrow> u32 \<Rightarrow> bool" where
  "commanded_curved s n \<longleftrightarrow> last_command (sy_sent s) (ucast n) = Some 0x22"

fun recorded_switch :: "cmd_event \<Rightarrow> (u32 \<times> bool) option" where
  "recorded_switch (TSC (TURNOUTSWITCHED n st)) = Some (n, st = TURNOUT_CURVED)"
| "recorded_switch _ = None"

fun commanded_switch :: "cmd_event \<Rightarrow> (u32 \<times> bool) option" where
  "commanded_switch (PUT_BYTES [c, n]) = (if c = 0x22 then Some (ucast n, True) else
     if c = 0x21 then Some (ucast n, False) else None)"
| "commanded_switch _ = None"

text \<open>
  One argument serves both: a view of the system in which every event sets at most one turnout. While
  both turnouts of a pair are curved, the task that curved the last of them has yet to straighten the
  other.
\<close>

definition pending :: "(cmd_event \<Rightarrow> (u32 \<times> bool) option) \<Rightarrow> u32 set \<Rightarrow> cmd_event list \<Rightarrow> bool" where
  "pending sw P es \<longleftrightarrow> (\<exists>e \<in> set es. \<exists>n \<in> P. sw e = Some (n, False)) \<and> (\<forall>e \<in> set es. \<forall>n \<in> P. sw e \<noteq> Some (n, True))"

fun settles :: "(cmd_event \<Rightarrow> (u32 \<times> bool) option) \<Rightarrow> u32 set \<Rightarrow> cmd_event list \<Rightarrow> bool" where
  "settles sw P [] \<longleftrightarrow> True"
| "settles sw P (e # es) \<longleftrightarrow> (\<forall>n \<in> P. sw e = Some (n, True) \<longrightarrow> pending sw P es) \<and> settles sw P es"

locale crossover =
  fixes sw :: "cmd_event \<Rightarrow> (u32 \<times> bool) option" and curved :: "switch_system \<Rightarrow> u32 \<Rightarrow> bool"
    and a b :: u32
  assumes frame: "happens e s s' \<Longrightarrow> n \<in> {a, b} \<Longrightarrow> (\<forall>v. sw e \<noteq> Some (n, v)) \<Longrightarrow> curved s' n = curved s n"
    and straightens: "happens e s s' \<Longrightarrow> n \<in> {a, b} \<Longrightarrow> sw e = Some (n, False) \<Longrightarrow> \<not> curved s' n"
    and tasks: "curved (s\<lparr>sy_tasks := ts\<rparr>) = curved s"
    and other: "\<not> about_turnout e \<Longrightarrow> sw e = None"
    and settling: "int_range k \<Longrightarrow> switch_turnout k c = Some es \<Longrightarrow> settles sw {a, b} es"
    and start: "controller_init t = Some ctl \<Longrightarrow>
      \<not> (curved \<lparr>sy_controller = ctl, sy_sent = [], sy_tasks = []\<rparr> a \<and>
         curved \<lparr>sy_controller = ctl, sy_sent = [], sy_tasks = []\<rparr> b)"
begin

definition safe :: "switch_system \<Rightarrow> bool" where
  "safe s \<longleftrightarrow> (\<forall>es \<in> set (sy_tasks s). settles sw {a, b} es) \<and>
     (curved s a \<and> curved s b \<longrightarrow> (\<exists>es \<in> set (sy_tasks s). pending sw {a, b} es))"

lemma happens_tasks: "happens e s s' \<Longrightarrow> sy_tasks s' = sy_tasks s"
  by (cases e) auto

lemma happens_both:
  assumes "happens e s s'" "curved s' a \<and> curved s' b"
  shows "\<not> (\<exists>n \<in> {a, b}. sw e = Some (n, False))"
    "(\<exists>n \<in> {a, b}. sw e = Some (n, True)) \<or> (curved s a \<and> curved s b)"
proof -
  show 1: "\<not> (\<exists>n \<in> {a, b}. sw e = Some (n, False))" using assms straightens by blast
  show "(\<exists>n \<in> {a, b}. sw e = Some (n, True)) \<or> (curved s a \<and> curved s b)"
  proof (rule disjCI)
    assume "\<not> (curved s a \<and> curved s b)"
    then obtain n where n: "n \<in> {a, b}" "\<not> curved s n" by blast
    then have "curved s' n \<noteq> curved s n" using assms(2) by blast
    then obtain v where "sw e = Some (n, v)" using frame [OF assms(1) n(1)] by blast
    then show "\<exists>n \<in> {a, b}. sw e = Some (n, True)" using 1 n(1) by (cases v) auto
  qed
qed

lemma pending_tail:
  assumes "pending sw {a, b} (e # es)" "\<not> (\<exists>n \<in> {a, b}. sw e = Some (n, False))"
  shows "pending sw {a, b} es"
  using assms unfolding pending_def by auto

lemma safe_step:
  assumes "switch_step s s'" "safe s"
  shows "safe s'"
  using assms(1)
proof cases
  case (start n c es)
  then show ?thesis using assms(2) settling [OF start(2,3)] tasks unfolding safe_def by auto
next
  case (event xs e es ys s1)
  have set: "settles sw {a, b} (e # es)" using assms(2) event(2) by (simp add: safe_def)
  have old: "curved s a \<Longrightarrow> curved s b \<Longrightarrow> \<exists>t \<in> set (sy_tasks s). pending sw {a, b} t"
    using assms(2) by (simp add: safe_def)
  have "\<exists>t \<in> set (xs @ es # ys). pending sw {a, b} t" if both: "curved s1 a \<and> curved s1 b"
  proof (cases "\<exists>n \<in> {a, b}. sw e = Some (n, True)")
    case True
    then show ?thesis using set by auto
  next
    case False
    then obtain t where "t \<in> set (sy_tasks s)" "pending sw {a, b} t"
      using happens_both(2) [OF event(3) both] old by blast
    then show ?thesis using event(2) pending_tail happens_both(1) [OF event(3) both] by auto
  qed
  then show ?thesis using assms(2) set event(1,2) tasks unfolding safe_def by auto
next
  case (other e)
  have "sw e = None" using crossover.other [OF crossover_axioms other(1)] .
  then show ?thesis using assms(2) happens_tasks [OF other(2)] happens_both(2) [OF other(2)]
    unfolding safe_def by auto
qed

lemma safe_run: "switch_run s \<Longrightarrow> safe s"
proof (induction rule: switch_run.induct)
  case (init t c)
  then show ?case using start [OF init] by (simp add: safe_def)
qed (rule safe_step)

lemma exclusive:
  assumes "switch_run s" "\<forall>es \<in> set (sy_tasks s). es = []"
  shows "\<not> (curved s a \<and> curved s b)"
proof
  assume "curved s a \<and> curved s b"
  then obtain es where "es \<in> set (sy_tasks s)" "pending sw {a, b} es"
    using safe_run [OF assms(1)] unfolding safe_def by blast
  then show False using assms(2) by (auto simp: pending_def)
qed

end

lemma valid_turnout_cases:
  assumes "int_range n" "switch_turnout n curved = Some es"
  shows "1 \<le> n \<and> n \<le> 18 \<or> n = 153 \<or> n = 154 \<or> n = 155 \<or> n = 156"
proof -
  have v: "is_valid_turnout_num (of_int n)"
    using assms(2) by (auto simp: switch_turnout_def Let_def split: bind_splits)
  have u: "uint (of_int n :: u32) = n mod 2 ^ 32" by (simp add: unsigned_of_int take_bit_eq_mod)
  have "1 \<le> n mod 2 ^ 32 \<and> n mod 2 ^ 32 \<le> 18 \<or> 153 \<le> n mod 2 ^ 32 \<and> n mod 2 ^ 32 \<le> 156"
    using v unfolding is_valid_turnout_num_def word_le_def u by simp
  moreover have "n mod 2 ^ 32 = (if n < 0 then n + 2 ^ 32 else n)"
  proof (cases "n < 0")
    case True
    have "n mod 2 ^ 32 = (n + 2 ^ 32) mod 2 ^ 32" by (rule mod_add_self2 [symmetric])
    also have "\<dots> = n + 2 ^ 32"
      using True assms(1) unfolding int_range_def by (intro mod_pos_pos_trivial) auto
    finally show ?thesis using True by simp
  qed (use assms(1) in \<open>simp add: int_range_def\<close>)
  ultimately show ?thesis using assms(1) unfolding int_range_def by (auto split: if_splits)
qed

lemma of_int_small_word:
  assumes "0 \<le> n" "n < 256"
  shows "uint (of_int n :: u32) = n" "uint (of_int n :: u8) = n"
  using assms by (simp_all add: unsigned_of_int take_bit_int_eq_self)

lemma switch_turnout_events:
  assumes "int_range n" "switch_turnout n curved = Some es"
  shows "es = [PUT_BYTES [if curved then 0x22 else 0x21, of_int n],
      TSC (TURNOUTSWITCHED (of_int n) (if curved then TURNOUT_CURVED else TURNOUT_STRAIGHT)), DELAY 15, PUTC 0x20] \<and>
      (curved \<longrightarrow> 1 \<le> n \<and> n \<le> 18) \<or>
    curved \<and> (\<exists>p. (n, p) \<in> {(153, 154), (154, 153), (155, 156), (156, 155)} \<and>
      es = [PUT_BYTES [0x22, of_int n], TSC (TURNOUTSWITCHED (of_int n) TURNOUT_CURVED),
        PUT_BYTES [0x21, of_int p], TSC (TURNOUTSWITCHED (of_int p) TURNOUT_STRAIGHT), DELAY 15, PUTC 0x20])"
proof (cases "curved \<and> 153 \<le> n")
  case False
  then have no_pair: "(153 \<le> n \<and> n \<le> 156 \<and> curved) = False" and small: "curved \<longrightarrow> 1 \<le> n \<and> n \<le> 18"
    using valid_turnout_cases [OF assms] by auto
  have "es = [PUT_BYTES [if curved then 0x22 else 0x21, of_int n],
      TSC (TURNOUTSWITCHED (of_int n) (if curved then TURNOUT_CURVED else TURNOUT_STRAIGHT)), DELAY 15, PUTC 0x20]"
    using assms(2) unfolding switch_turnout_def Let_def no_pair
    by (cases "is_valid_turnout_num (of_int n)") simp_all
  then show ?thesis using small by blast
next
  case True
  then have "n \<in> {153, 154, 155, 156}" using valid_turnout_cases [OF assms] by auto
  then show ?thesis using assms(2) True
    by (elim insertE) (simp_all add: switch_turnout_def paired_turnouts_def Let_def split: bind_splits)
qed

lemma of_int_pair:
  assumes "1 \<le> n" "n \<le> 18"
  shows "of_int n \<notin> {153, 154 :: u32}" "of_int n \<notin> {155, 156 :: u32}"
    "ucast (of_int n :: u8) \<notin> {153, 154 :: u32}" "ucast (of_int n :: u8) \<notin> {155, 156 :: u32}"
  using assms of_int_small_word [of n] by (auto simp: word_uint_eq_iff unsigned_ucast_eq take_bit_int_eq_self)

lemma switch_turnout_settles:
  assumes "int_range n" "switch_turnout n curved = Some es"
  shows "settles recorded_switch {153, 154} es" "settles recorded_switch {155, 156} es"
    "settles commanded_switch {153, 154} es" "settles commanded_switch {155, 156} es"
  using switch_turnout_events [OF assms] of_int_pair [of n] by (auto simp: pending_def)

lemma set_train_turnouts: "set_train s t f = Some s' \<Longrightarrow> ts_turnouts s' = ts_turnouts s"
  by (auto simp: set_train_def split: bind_splits)

lemma controller_step_turnouts:
  assumes "controller_step clk res snt c m = Some (c', ev)" "\<forall>n st. m \<noteq> TURNOUTSWITCHED n st"
  shows "ts_turnouts (tc_state c') = ts_turnouts (tc_state c)"
  using assms by (cases m) (auto simp: set_train_turnouts split: bind_splits if_splits)

lemma map_offset_inj:
  assumes "is_valid_turnout_num n" "is_valid_turnout_num k"
    "unat (turnout_num_to_map_offset n) = unat (turnout_num_to_map_offset k)"
  shows "n = k"
proof -
  have "turnout_num_to_map_offset n = turnout_num_to_map_offset k" using assms(3) by (simp add: word_unat_eq_iff)
  moreover have "map_offset_to_turnout (turnout_num_to_map_offset m) = m" if "is_valid_turnout_num m" for m
    using that unfolding is_valid_turnout_num_def turnout_num_to_map_offset_def map_offset_to_turnout_def
    by (auto simp: word_less_nat_alt word_le_nat_alt unat_sub_if_size word_size)
  ultimately show ?thesis using assms(1,2) by metis
qed

lemma switched_recorded:
  assumes "happens (TSC (TURNOUTSWITCHED k st)) s s'" "is_valid_turnout_num n"
  shows "recorded_curved s' n = (if n = k then st = TURNOUT_CURVED else recorded_curved s n)"
proof -
  obtain clk res snt c ev where c: "controller_step clk res snt (sy_controller s) (TURNOUTSWITCHED k st) = Some (c, ev)"
    and s': "s' = s\<lparr>sy_controller := c\<rparr>" using assms(1) by auto
  have k: "is_valid_turnout_num k" and i: "unat (turnout_num_to_map_offset k) < length (ts_turnouts (tc_state (sy_controller s)))"
    and t: "ts_turnouts (tc_state c) = (ts_turnouts (tc_state (sy_controller s)))[unat (turnout_num_to_map_offset k) := st]"
    using c by (auto simp: Let_def array_set_eq_Some split: bind_splits)
  show ?thesis using map_offset_inj [OF assms(2) k] i unfolding recorded_curved_def s' by (auto simp: t nth_list_update)
qed

lemma recorded_frame:
  assumes "happens e s s'" "is_valid_turnout_num n" "\<forall>v. recorded_switch e \<noteq> Some (n, v)"
  shows "recorded_curved s' n = recorded_curved s n"
proof (cases "\<exists>k st. e = TSC (TURNOUTSWITCHED k st)")
  case True
  then obtain k st where e: "e = TSC (TURNOUTSWITCHED k st)" by blast
  then have "n \<noteq> k" using assms(3) by auto
  then show ?thesis using switched_recorded [of k st s s' n] assms(1,2) e by simp
next
  case False
  then show ?thesis using assms(1) controller_step_turnouts
    by (cases e) (fastforce simp: recorded_curved_def)+
qed

lemma recorded_straightens:
  assumes "happens e s s'" "is_valid_turnout_num n" "recorded_switch e = Some (n, False)"
  shows "\<not> recorded_curved s' n"
proof -
  obtain st where e: "e = TSC (TURNOUTSWITCHED n st)" "st \<noteq> TURNOUT_CURVED"
    using assms(3) by (cases e rule: recorded_switch.cases) auto
  then show ?thesis using switched_recorded [of n st s s' n] assms(1,2) by simp
qed

lemma recorded_start:
  assumes "controller_init t = Some c"
  shows "\<not> recorded_curved \<lparr>sy_controller = c, sy_sent = [], sy_tasks = []\<rparr> 153"
    "\<not> recorded_curved \<lparr>sy_controller = c, sy_sent = [], sy_tasks = []\<rparr> 155"
proof -
  have "ts_turnouts (tc_state c) = replicate NUM_TURNOUTS TURNOUT_UNKNOWN"
    using assms by (auto simp: controller_init_def init_track_def split: bind_splits)
  then show "\<not> recorded_curved \<lparr>sy_controller = c, sy_sent = [], sy_tasks = []\<rparr> 153"
    "\<not> recorded_curved \<lparr>sy_controller = c, sy_sent = [], sy_tasks = []\<rparr> 155"
    by (simp_all add: recorded_curved_def turnout_num_to_map_offset_def NUM_TURNOUTS_def)
qed

lemma commanded_switch_iff:
  "commanded_switch e = Some (n, v) \<longleftrightarrow> (\<exists>k. e = PUT_BYTES [if v then 0x22 else 0x21, k] \<and> n = ucast k)"
  by (cases e rule: commanded_switch.cases) auto

lemma commanded_frame:
  assumes "happens e s s'" "\<forall>v. commanded_switch e \<noteq> Some (n, v)" "n < 256"
  shows "commanded_curved s' n = commanded_curved s n"
proof (cases "\<exists>b. e = PUT_BYTES b")
  case True
  then obtain b where e: "e = PUT_BYTES b" by blast
  have n: "ucast (ucast n :: u8) = n"
    using assms(3) by (simp add: word_uint_eq_iff unsigned_ucast_eq unsigned_take_bit_eq take_bit_int_eq_self word_less_def)
  have "\<not> (length b = 2 \<and> hd b \<in> {0x21, 0x22} \<and> last b = ucast n)"
  proof
    assume "length b = 2 \<and> hd b \<in> {0x21, 0x22} \<and> last b = ucast n"
    then have "b = [if hd b = 0x22 then 0x22 else 0x21, ucast n]"
      by (cases b; cases "tl b") auto
    then have "commanded_switch e = Some (n, hd b = 0x22)" using n unfolding commanded_switch_iff e by metis
    then show False using assms(2) by blast
  qed
  then have "last_command (b # sy_sent s) (ucast n) = last_command (sy_sent s) (ucast n)"
    unfolding last_command.simps by (simp only: if_False)
  then show ?thesis using assms(1) unfolding e by (simp add: commanded_curved_def del: last_command.simps)
next
  case False
  then show ?thesis using assms(1) by (cases e) (auto simp: commanded_curved_def)
qed

lemma ucast_ucast_char: "ucast (ucast (k :: u8) :: u32) = k"
  by (simp add: ucast_up_ucast_id is_up)

lemma commanded_straightens:
  assumes "happens e s s'" "commanded_switch e = Some (n, False)"
  shows "\<not> commanded_curved s' n"
  using assms unfolding commanded_switch_iff by (auto simp: commanded_curved_def ucast_ucast_char)

lemma other_switches: "\<not> about_turnout e \<Longrightarrow> recorded_switch e = None \<and> commanded_switch e = None"
  by (cases e rule: commanded_switch.cases; cases e rule: recorded_switch.cases) auto

lemma curved_tasks: "recorded_curved (s\<lparr>sy_tasks := ts\<rparr>) = recorded_curved s"
  "commanded_curved (s\<lparr>sy_tasks := ts\<rparr>) = commanded_curved s"
  by (simp_all add: recorded_curved_def commanded_curved_def fun_eq_iff)

lemmas crossover_laws = other_switches switch_turnout_settles curved_tasks

lemma crossover_small: "n \<in> {153, 154} \<or> n \<in> {155, 156} \<Longrightarrow> n < (256 :: u32)"
  by auto

lemma crossover_valid: "n \<in> {153, 154} \<or> n \<in> {155, 156} \<Longrightarrow> is_valid_turnout_num n"
  by (auto simp: is_valid_turnout_num_def)

lemma commanded_start: "\<not> commanded_curved \<lparr>sy_controller = c, sy_sent = [], sy_tasks = []\<rparr> n"
  by (simp add: commanded_curved_def)

interpretation recorded_153: crossover recorded_switch recorded_curved 153 154
proof (unfold_locales, goal_cases)
  case (1 e s s' n)
  then show ?case using recorded_frame crossover_valid by blast
next
  case (2 e s s' n)
  then show ?case using recorded_straightens crossover_valid by blast
qed (simp_all add: crossover_laws recorded_start)

interpretation recorded_155: crossover recorded_switch recorded_curved 155 156
proof (unfold_locales, goal_cases)
  case (1 e s s' n)
  then show ?case using recorded_frame crossover_valid by blast
next
  case (2 e s s' n)
  then show ?case using recorded_straightens crossover_valid by blast
qed (simp_all add: crossover_laws recorded_start)

interpretation commanded_153: crossover commanded_switch commanded_curved 153 154
proof (unfold_locales, goal_cases)
  case (1 e s s' n)
  then show ?case using commanded_frame crossover_small by blast
next
  case (2 e s s' n)
  then show ?case using commanded_straightens by blast
qed (simp_all add: crossover_laws commanded_start)

interpretation commanded_155: crossover commanded_switch commanded_curved 155 156
proof (unfold_locales, goal_cases)
  case (1 e s s' n)
  then show ?case using commanded_frame crossover_small by blast
next
  case (2 e s s' n)
  then show ?case using commanded_straightens by blast
qed (simp_all add: crossover_laws commanded_start)

section \<open>Reversing\<close>

text \<open>The track state controller serves the messages of a command in order.\<close>

fun serve :: "(nat \<Rightarrow> int) \<Rightarrow> controller \<Rightarrow> cmd_event \<Rightarrow> controller option" where
  "serve clk c (TSC m) = map_option fst (controller_step clk 0 0 c m)"
| "serve clk c _ = Some c"

definition train_of :: "controller \<Rightarrow> int \<Rightarrow> train_data" where
  "train_of c train = ts_train (tc_state c) ! nat train"

definition put_train :: "controller \<Rightarrow> int \<Rightarrow> train_data \<Rightarrow> controller" where
  "put_train c train d = c\<lparr>tc_state := (tc_state c)\<lparr>ts_train := (ts_train (tc_state c))[nat train := d]\<rparr>\<rparr>"

fun set_speed :: "(nat \<Rightarrow> int) \<Rightarrow> int \<Rightarrow> bool \<Rightarrow> train_data \<Rightarrow> train_data" where
  "set_speed clk speed headlights d = (if speed \<noteq> td_should_speed d
     then d\<lparr>td_headlights := headlights, td_last_speed := td_should_speed d, td_should_speed := speed,
       td_time_speed_last_changed := clk 0\<rparr>
     else d\<lparr>td_headlights := headlights\<rparr>)"

lemma inv_lengths:
  assumes "controller_inv c"
  shows "length (ts_train (tc_state c)) = 81" "length (ts_speed_to_velocity (tc_state c)) = 81"
    "length (ts_stopping_distance (tc_state c)) = 81"
  using assms by (auto simp: controller_inv_def track_state_ok_def model_bounded_def)

lemma train_index_nat: "train_index t \<Longrightarrow> nat t < 81" by auto

lemma serve_set_speed:
  assumes "controller_inv c" "train_index t" "speed_index v"
  shows "serve clk c (TSC (TRAINSETSPEED t v h)) = Some (put_train c t (set_speed clk v h (train_of c t)))"
  using assms inv_lengths [OF assms(1)] train_index_nat [OF assms(2)]
  by (simp add: put_train_def train_of_def set_train_def track_controller_update_coordinates_def nth_list_update)

lemma serve_reversed:
  assumes "controller_inv c" "train_index t"
  shows "serve clk c (TSC (TRAINREVERSED t d)) = Some (put_train c t ((train_of c t)\<lparr>td_direction := d\<rparr>))"
  using assms inv_lengths [OF assms(1)] train_index_nat [OF assms(2)]
  by (simp add: put_train_def train_of_def set_train_def)

lemma serve_get_train:
  "controller_inv c \<Longrightarrow> train_index t \<Longrightarrow> serve clk c (TSC (GETTRAIN t)) = Some c"
  using inv_lengths(1) [of c] train_index_nat [of t] by simp

lemma serve_inv: "controller_inv c \<Longrightarrow> serve clk c e = Some c' \<Longrightarrow> controller_inv c'"
  by (cases e) (auto dest: controller_step_inv)

lemma train_of_put: "controller_inv c \<Longrightarrow> train_index t \<Longrightarrow> train_of (put_train c t d) t = d"
  using inv_lengths(1) [of c] train_index_nat [of t] by (simp add: train_of_def put_train_def)

lemma put_train_put: "put_train (put_train c t d) t d' = put_train c t d'"
  by (simp add: put_train_def)

lemma train_index_char: "train_index t \<Longrightarrow> char_field t = t"
  by (simp add: char_field_def unsigned_of_int take_bit_int_eq_self)

text \<open>
  Stopping and reversing a train. The transmit server gets the stop, the reverse and the old speed
  again, in this order and only these; the controller, which serves the command's messages, ends with the
  direction turned, the old speed and every other train as it was.
\<close>

theorem stop_and_reverse_restores:
  assumes run: "controller_run c" and t: "train_index t"
  shows "\<exists>es c'. stop_and_reverse_train t (td_should_speed (train_of c t)) (td_direction (train_of c t)) = Some es \<and>
    [b. PUT_BYTES b \<leftarrow> es] = [[16, of_int t], [15, of_int t], [16 + of_int (td_should_speed (train_of c t)), of_int t]] \<and>
    feed (serve clk) c es = Some c' \<and>
    td_direction (train_of c' t) = (\<not> td_direction (train_of c t)) \<and>
    td_should_speed (train_of c' t) = td_should_speed (train_of c t) \<and>
    (\<forall>k. train_index k \<and> k \<noteq> t \<longrightarrow> train_of c' k = train_of c k) \<and>
    ts_turnouts (tc_state c') = ts_turnouts (tc_state c)"
proof -
  define d v where "d = train_of c t" and "v = td_should_speed d"
  have inv: "controller_inv c" by (rule controller_run_inv [OF run])
  have "d \<in> set (ts_train (tc_state c))" using train_index_nat [OF t] inv_lengths(1) [OF inv] by (simp add: d_def train_of_def)
  then have v: "speed_index v" using inv by (auto simp: controller_inv_def track_state_ok_def train_ok_def v_def)
  define d1 d2 d3 where "d1 = set_speed clk 0 True d" and "d2 = d1\<lparr>td_direction := \<not> td_direction d\<rparr>"
    and "d3 = set_speed clk v True d2"
  define c1 c2 c3 where "c1 = put_train c t d1" and "c2 = put_train c1 t d2" and "c3 = put_train c2 t d3"
  have s1: "serve clk c (TSC (TRAINSETSPEED t 0 True)) = Some c1"
    using serve_set_speed [OF inv t, of 0 clk True] by (simp add: c1_def d1_def d_def)
  have i1: "controller_inv c1" by (rule serve_inv [OF inv s1])
  have s2: "serve clk c1 (TSC (TRAINREVERSED t (\<not> td_direction d))) = Some c2"
    using serve_reversed [OF i1 t, of clk] train_of_put [OF inv t] by (simp add: c1_def c2_def d2_def)
  have i2: "controller_inv c2" by (rule serve_inv [OF i1 s2])
  have s3: "serve clk c2 (TSC (TRAINSETSPEED t v True)) = Some c3"
    using serve_set_speed [OF i2 t v, of clk True] train_of_put [OF i1 t] by (simp add: c2_def c3_def d3_def)
  define es where "es = [TSC (GETTRAIN t), PUT_BYTES [16, of_int t], TSC (TRAINSETSPEED t 0 True), DELAY (v * 33),
    PUT_BYTES [REVERSE_SPEED, of_int t], TSC (GETTRAIN t), TSC (TRAINREVERSED t (\<not> td_direction d)), DELAY 8,
    PUT_BYTES [of_int (v + 16), of_int t], TSC (TRAINSETSPEED t v True)]"
  have es: "stop_and_reverse_train t v (td_direction d) = Some es"
    using t v by (simp add: stop_and_reverse_train_def stop_and_reverse_helper_def set_train_speed_def
        set_train_speed_and_headlights_def reverse_train_def cmul_def int32_def train_index_char es_def)
  have "feed (serve clk) c es = Some c3"
    unfolding es_def
    by (simp only: feed.simps serve_get_train [OF inv t] serve_get_train [OF i1 t] s1 s2 s3 serve.simps(2-)
      Option.bind.simps)
  moreover have c3: "c3 = put_train c t d3" by (simp add: c3_def c2_def c1_def put_train_put)
  moreover have "train_of c3 t = d3" unfolding c3 by (rule train_of_put [OF inv t])
  moreover have "td_direction d3 = (\<not> td_direction d)" "td_should_speed d3 = v"
    by (auto simp: d3_def d2_def)
  moreover have "\<forall>k. train_index k \<and> k \<noteq> t \<longrightarrow> train_of c3 k = train_of c k"
    using t by (auto simp: c3 put_train_def train_of_def nth_list_update)
  moreover have "ts_turnouts (tc_state c3) = ts_turnouts (tc_state c)" by (simp add: c3 put_train_def)
  moreover have "[b. PUT_BYTES b \<leftarrow> es] = [[16, of_int t], [15, of_int t], [16 + of_int v, of_int t]]"
    by (simp add: es_def REVERSE_SPEED_def add.commute)
  ultimately show ?thesis using es unfolding v_def d_def
    by (intro exI [of _ es] exI [of _ c3] conjI) simp_all
qed

text \<open>
  A command for a turnout within half a second of the last for the same is dropped without a word; so is
  any in the first half second, the times of the last switches being 0.
\<close>

lemma early_switch_dropped:
  assumes "ts_last_switch_time s = replicate NUM_TURNOUTS 0" "0 < t" "t < 50" "is_valid_turnout_num (of_int n)"
  shows "switcher t (MESSAGE_SWITCH n curved) s = Some (s, [])"
proof -
  have "unat (turnout_num_to_map_offset (of_int n)) < NUM_TURNOUTS"
    using assms(4) by (auto simp: is_valid_turnout_num_def turnout_num_to_map_offset_def NUM_TURNOUTS_def
        word_le_nat_alt word_less_nat_alt unat_sub_if_size word_size)
  then show ?thesis using assms(1-3) by (simp add: Let_def DELAY_BETWEEN_SW_def int32_def)
qed

text \<open>
  C10: however the tasks that switch turnouts interleave, once all of them are through neither crossover
  is set to two curves: not in what the track state controller keeps, and not by the last commands that
  were sent to its two turnouts.
\<close>

theorem crossovers_exclusive:
  assumes "switch_run s" "\<forall>es \<in> set (sy_tasks s). es = []"
  shows "\<not> (recorded_curved s 153 \<and> recorded_curved s 154) \<and> \<not> (recorded_curved s 155 \<and> recorded_curved s 156) \<and>
    \<not> (commanded_curved s 153 \<and> commanded_curved s 154) \<and> \<not> (commanded_curved s 155 \<and> commanded_curved s 156)"
  using recorded_153.exclusive [OF assms] recorded_155.exclusive [OF assms]
    commanded_153.exclusive [OF assms] commanded_155.exclusive [OF assms] by blast

definition starting :: "controller \<Rightarrow> switch_system" where
  "starting c = \<lparr>sy_controller = c, sy_sent = [], sy_tasks = []\<rparr>"

lemma switch_153_run:
  assumes "controller_init t = Some c"
  shows "\<exists>s. switch_run s \<and> sy_tasks s = [[]] \<and> commanded_curved s 153 \<and> recorded_curved s 153"
proof -
  have len: "length (ts_turnouts (tc_state c)) = NUM_TURNOUTS"
    using controller_init_ok [OF assms] by (simp add: controller_inv_def track_state_ok_def)
  define es where "es = [PUT_BYTES [0x22, 153], TSC (TURNOUTSWITCHED 153 TURNOUT_CURVED),
    PUT_BYTES [0x21, 154], TSC (TURNOUTSWITCHED 154 TURNOUT_STRAIGHT), DELAY 15, PUTC 0x20]"
  define c1 where "c1 = c\<lparr>tc_state := (tc_state c)\<lparr>ts_turnouts := (ts_turnouts (tc_state c))[18 := TURNOUT_CURVED]\<rparr>\<rparr>"
  define c2 where "c2 = c1\<lparr>tc_state := (tc_state c1)\<lparr>ts_turnouts := (ts_turnouts (tc_state c1))[19 := TURNOUT_STRAIGHT]\<rparr>\<rparr>"
  have run0: "switch_run (starting c)" unfolding starting_def by (rule switch_run.init [OF assms])
  have "switch_turnout 153 True = Some es"
    by (simp add: switch_turnout_def is_valid_turnout_num_def paired_turnouts_def es_def)
  then have run1: "switch_run \<lparr>sy_controller = c, sy_sent = [], sy_tasks = [es]\<rparr>"
    using switch_run.step [OF run0 switch_step.start [of 153 True es]] by (simp add: int_range_def starting_def)
  have go: "switch_run \<lparr>sy_controller = k', sy_sent = l', sy_tasks = [fs]\<rparr>"
    if "switch_run \<lparr>sy_controller = k, sy_sent = l, sy_tasks = [e # fs]\<rparr>"
      "happens e \<lparr>sy_controller = k, sy_sent = l, sy_tasks = [e # fs]\<rparr> \<lparr>sy_controller = k', sy_sent = l', sy_tasks = [e # fs]\<rparr>"
    for e fs k k' l l'
    using switch_run.step [OF that(1) switch_step.event [where xs = "[]" and ys = "[]" and e = e and es = fs, OF _ that(2)]] by simp
  have told: "switch_run \<lparr>sy_controller = k', sy_sent = l, sy_tasks = [fs]\<rparr>"
    if "switch_run \<lparr>sy_controller = k, sy_sent = l, sy_tasks = [TSC m # fs]\<rparr>" "controller_step clk 0 0 k m = Some (k', ev)"
    for k k' l m fs clk ev
    by (rule go [OF that(1)]) (use that(2) in \<open>force simp del: controller_step.simps\<close>)
  have st1: "controller_step clk 0 0 c (TURNOUTSWITCHED 153 TURNOUT_CURVED) =
      Some (c1, [TSC_REPLY TSC_EMPTY, TSC_SEND (FORWARD_TURNOUT_STATES (ts_turnouts (tc_state c1)))])" for clk
    using len by (simp add: is_valid_turnout_num_def turnout_num_to_map_offset_def NUM_TURNOUTS_def c1_def Let_def)
  have st2: "controller_step clk 0 0 c1 (TURNOUTSWITCHED 154 TURNOUT_STRAIGHT) =
      Some (c2, [TSC_REPLY TSC_EMPTY, TSC_SEND (FORWARD_TURNOUT_STATES (ts_turnouts (tc_state c2)))])" for clk
    using len by (simp add: is_valid_turnout_num_def turnout_num_to_map_offset_def NUM_TURNOUTS_def c1_def c2_def Let_def)
  have "switch_run \<lparr>sy_controller = c, sy_sent = [[0x22, 153]], sy_tasks = [tl es]\<rparr>"
    using go [OF run1 [unfolded es_def]] by (simp add: es_def)
  then have "switch_run \<lparr>sy_controller = c1, sy_sent = [[0x22, 153]], sy_tasks = [tl (tl es)]\<rparr>"
    using told [OF _ st1] by (simp add: es_def)
  then have "switch_run \<lparr>sy_controller = c1, sy_sent = [[0x21, 154], [0x22, 153]], sy_tasks = [drop 3 es]\<rparr>"
    using go by (simp add: es_def)
  then have "switch_run \<lparr>sy_controller = c2, sy_sent = [[0x21, 154], [0x22, 153]], sy_tasks = [drop 4 es]\<rparr>"
    using told [OF _ st2] by (simp add: es_def)
  then have "switch_run \<lparr>sy_controller = c2, sy_sent = [[0x21, 154], [0x22, 153]], sy_tasks = [drop 5 es]\<rparr>"
    using go by (simp add: es_def)
  then have "switch_run \<lparr>sy_controller = c2, sy_sent = [[0x20], [0x21, 154], [0x22, 153]], sy_tasks = [[]]\<rparr>"
    using go by (simp add: es_def)
  then show ?thesis using len
    by (intro exI [of _ "\<lparr>sy_controller = c2, sy_sent = [[0x20], [0x21, 154], [0x22, 153]], sy_tasks = [[]]\<rparr>"])
      (simp add: commanded_curved_def recorded_curved_def turnout_num_to_map_offset_def c1_def c2_def NUM_TURNOUTS_def)
qed

theorem crossovers_exclusive_witness:
  "\<exists>s. switch_run s \<and> recorded_curved s 153 \<and> \<not> recorded_curved s 154 \<and> commanded_curved s 153 \<and>
    \<not> commanded_curved s 154"
proof -
  obtain c where "controller_init zero_track_state = Some c" using controller_starts by blast
  then obtain s where s: "switch_run s" "sy_tasks s = [[]]" "commanded_curved s 153" "recorded_curved s 153"
    using switch_153_run by blast
  then have "\<forall>es \<in> set (sy_tasks s). es = []" by simp
  from crossovers_exclusive [OF s(1) this] s show ?thesis by blast
qed

theorem stop_and_reverse_restores_witness:
  "\<exists>c es c'. controller_run c \<and> stop_and_reverse_train 24 0 True = Some es \<and>
    feed (serve (\<lambda>_. 0)) c es = Some c' \<and> \<not> td_direction (train_of c' 24)"
proof -
  obtain c where c: "controller_init zero_track_state = Some c" using controller_starts by blast
  then have "train_of c 24 = init_train zero_train"
    by (auto simp: controller_init_def init_track_def train_of_def zero_track_state_def split: bind_splits)
  then have "td_should_speed (train_of c 24) = 0" "td_direction (train_of c 24) = True"
    by (simp_all add: init_train_def)
  then show ?thesis using stop_and_reverse_restores [OF controller_run.init [OF c], of 24 "\<lambda>_. 0"] c
    by (auto intro: controller_run.init)
qed

end
