(* ===== verification/Prediction.thy ===== *)
theory Prediction
  imports Train_Commands Route_Properties
begin

text \<open>
  Where a train will be, \<open>usr/train/prediction.c\<close> and the stopping distance of \<open>usr/train/train_util.c\<close>.
  The two uses of floating point are arguments: \<open>root x\<close> is the value of \<open>(int)(1.0F / tinvsqrt(x))\<close>, and
  \<open>interp a b n d\<close> that of \<open>(int)(a + (b - a) * ((float) n / (float) d))\<close>. The array of turnout states a
  route is turned into is not initialised; \<open>stack\<close> is what it holds. A \<open>long long\<close> is an \<open>int\<close>, its
  range being out of reach here; a cast to \<open>int\<close> keeps the low 32 bits.
\<close>

definition INFINITE_TICKS :: int where "INFINITE_TICKS = 100000000"
definition ROLLOUT_TICKS :: int where "ROLLOUT_TICKS = 5"
definition MAX_ROLLOUT_STEPS :: nat where "MAX_ROLLOUT_STEPS = 100"
definition SPACING_PADDING :: int where "SPACING_PADDING = 20 * 10 * 100"
definition TRAIN_LENGTH :: int where "TRAIN_LENGTH = 20 * 10 * 100"

definition cast_int :: "int \<Rightarrow> int" where "cast_int i = sint (word_of_int i :: u32)"

text \<open>The absolute value of an \<open>int\<close>.\<close>

definition cabs :: "int \<Rightarrow> int option" where "cabs i = int32 (abs i)"

section \<open>The next sensor\<close>

text \<open>The ticks of the prediction, for a train \<open>dist\<close> away from its next sensor.\<close>

definition ticks_to_sensor :: "(int \<Rightarrow> int) \<Rightarrow> coordinates \<Rightarrow> int \<Rightarrow> int option" where
  "ticks_to_sensor root current dist =
     (let v = c_velocity current; a = c_acceleration current; tv = c_target_velocity current in
      if v = 0 then Some INFINITE_TICKS
      else if tv = 0 then do {
        na \<leftarrow> int32 (- a);
        d2 \<leftarrow> cmul 2 na;
        guard_opt (d2 \<noteq> 0);
        if cast_int ((v * v) sdiv d2) < dist then Some INFINITE_TICKS
        else do {
          a2 \<leftarrow> cmul 2 a;
          x \<leftarrow> cmul a2 dist;
          Some (cast_int (c_ticks current + (100 * (root (v * v + x) - v)) sdiv a))
        }
      }
      else if a = 0 then do {
        x \<leftarrow> cmul 100 dist;
        y \<leftarrow> cdiv x v;
        int32 (c_ticks current + y)
      }
      else do {
        diff \<leftarrow> int32 (v - tv);
        x \<leftarrow> cmul 100 dist;
        y \<leftarrow> cdiv x tv;
        a2 \<leftarrow> cmul 2 a;
        z \<leftarrow> cmul a2 tv;
        int32 (c_ticks current + cast_int (y + (100 * (diff * diff)) sdiv z))
      })"

definition no_prediction :: "coordinates \<Rightarrow> coordinates" where
  "no_prediction p = p\<lparr>c_loc := (c_loc p)\<lparr>l_node := None\<rparr>, c_ticks := INFINITE_TICKS\<rparr>"

text \<open>\<open>current\<close> is what \<open>get_coordinates\<close> returns.\<close>

definition predict_sensor_hit ::
  "(int \<Rightarrow> int) \<Rightarrow> track \<Rightarrow> turnout_state list \<Rightarrow> coordinates \<Rightarrow> coordinates \<Rightarrow> coordinates option" where
  "predict_sensor_hit root T turnouts current prediction =
     (if l_node (c_loc current) = None then Some (no_prediction prediction)
      else do {
        next_sensor \<leftarrow> sensor_next T turnouts (l_node (c_loc current));
        if next_sensor = None then Some (no_prediction prediction)
        else do {
          d \<leftarrow> distance_between_track_nodes T (l_node (c_loc current)) next_sensor;
          dist \<leftarrow> int32 (100 * d - l_offset (c_loc current));
          ticks \<leftarrow> ticks_to_sensor root current dist;
          Some (prediction\<lparr>c_loc := \<lparr>l_node = next_sensor, l_offset = 0\<rparr>, c_ticks := ticks\<rparr>)
        }
      })"

section \<open>Along a route\<close>

fun synthesize_loop :: "track \<Rightarrow> route \<Rightarrow> turnout_state list \<Rightarrow> turnout_state list option" where
  "synthesize_loop T (c # c1 # rest) states =
     (if c1 = None then Some states
      else do {
        n \<leftarrow> node_at T c;
        let i = unat (turnout_num_to_map_offset (of_int (n_num n)));
        states' \<leftarrow> (if n_type n = NODE_BRANCH then
            if c1 = STRAIGHT n then array_set states i TURNOUT_STRAIGHT
            else if c1 = CURVED n then array_set states i TURNOUT_CURVED
            else Some states
          else Some states);
        synthesize_loop T (c1 # rest) states'
      })"
| "synthesize_loop T _ states = None"

definition synthesize_turnout_states_from_route ::
  "track \<Rightarrow> route \<Rightarrow> turnout_state list \<Rightarrow> turnout_state list option" where
  "synthesize_turnout_states_from_route T route states = synthesize_loop T route states"

text \<open>
  The speeds whose velocities are next to \<open>velocity\<close>, the last one below and the first one above, or the
  one that has it.
\<close>

datatype speed_search = EQUAL nat | BETWEEN "nat option" "nat option"

fun velocity_loop :: "u32 list \<Rightarrow> int \<Rightarrow> nat list \<Rightarrow> nat option \<Rightarrow> speed_search option" where
  "velocity_loop vm velocity [] smaller = Some (BETWEEN smaller None)"
| "velocity_loop vm velocity (i # js) smaller = do {
     v \<leftarrow> array_get vm i;
     if sint v < velocity then velocity_loop vm velocity js (Some i)
     else if sint v > velocity then Some (BETWEEN smaller (Some i))
     else Some (EQUAL i)
   }"

definition stopping_dist_from_velocity ::
  "(int \<Rightarrow> int \<Rightarrow> int \<Rightarrow> int \<Rightarrow> int) \<Rightarrow> int \<Rightarrow> u32 list \<Rightarrow> u32 list \<Rightarrow> int option" where
  "stopping_dist_from_velocity interp velocity vm sdm = do {
     r \<leftarrow> velocity_loop vm velocity [0..<15] None;
     case r of
       EQUAL i \<Rightarrow> map_option sint (array_get sdm i)
     | BETWEEN None _ \<Rightarrow> Some 0
     | BETWEEN (Some s) None \<Rightarrow> do {
         smaller_val \<leftarrow> array_get sdm s;
         larger_val \<leftarrow> array_get sdm 14;
         diff \<leftarrow> int32 (sint larger_val - sint smaller_val);
         let dist = interp (sint smaller_val) (sint smaller_val + diff) 1 1;
         guard_opt (dist < 200000);
         Some dist
       }
     | BETWEEN (Some s) (Some l) \<Rightarrow> do {
         smaller_val \<leftarrow> array_get sdm s;
         larger_val \<leftarrow> array_get sdm l;
         diff \<leftarrow> int32 (sint larger_val - sint smaller_val);
         vs \<leftarrow> array_get vm s;
         vl \<leftarrow> array_get vm l;
         numerator \<leftarrow> int32 (velocity - sint vs);
         denominator \<leftarrow> int32 (sint vl - sint vs);
         let dist = interp (sint smaller_val) (sint smaller_val + diff) numerator denominator;
         guard_opt (dist < 200000);
         Some dist
       }
   }"

text \<open>
  \<open>CAUTION_FACTOR\<close> is -0.1: the distance asked for is 1.8 times the stopping distance; the comparison in
  \<open>double\<close> is exact for the values a model can have.
\<close>

fun feasible_loop :: "int \<Rightarrow> u32 list \<Rightarrow> nat list \<Rightarrow> int option" where
  "feasible_loop path_length sdm [] = Some (-1)"
| "feasible_loop path_length sdm (i # js) = do {
     d \<leftarrow> array_get sdm i;
     if 5 * path_length > 9 * uint d then Some (int i) else feasible_loop path_length sdm js
   }"

definition get_max_feasible_speed :: "int \<Rightarrow> u32 list \<Rightarrow> int option" where
  "get_max_feasible_speed path_length sdm = feasible_loop path_length sdm (List.rev [1..<15])"

text \<open>\<open>stopping_distance\<close> is the result of \<open>stopping_dist_from_velocity\<close> for the velocity aimed for.\<close>

definition predict_train_stop ::
  "track \<Rightarrow> turnout_state list \<Rightarrow> coordinates \<Rightarrow> route \<Rightarrow> int \<Rightarrow> coordinates option" where
  "predict_train_stop T stack c route stopping_distance = do {
     remaining \<leftarrow> get_remaining_dist_in_route T route (c_loc c);
     x \<leftarrow> int32 (remaining - stopping_distance);
     offset \<leftarrow> int32 (l_offset (c_loc c) + x);
     states \<leftarrow> synthesize_turnout_states_from_route T route stack;
     loc \<leftarrow> location_canonicalize T states ((c_loc c)\<lparr>l_offset := offset\<rparr>);
     Some (c\<lparr>c_loc := loc\<rparr>)
   }"

fun next_switch_loop ::
  "track \<Rightarrow> nptr option \<Rightarrow> int \<Rightarrow> route \<Rightarrow> bool \<Rightarrow> int \<Rightarrow> int \<Rightarrow> (int \<times> bool \<times> int) option option" where
  "next_switch_loop T node max_lookahead (c # c1 # c2 # rest) passed lookahead remaining =
     (if c2 = None \<or> \<not> lookahead < max_lookahead then Some None
      else do {
        let passed' = (passed \<or> c = node);
        let lookahead' = (if passed' then lookahead + 1 else lookahead);
        n \<leftarrow> node_at T c;
        d \<leftarrow> int32 (e_dist (if n_type n = NODE_BRANCH \<and> STRAIGHT n \<noteq> c1 then n_edge1 n else n_edge0 n) * 100);
        remaining' \<leftarrow> int32 (remaining + d);
        n1 \<leftarrow> (if passed' then map_option Some (node_at T c1) else Some None);
        case n1 of
          Some m \<Rightarrow> if n_type m = NODE_BRANCH then Some (Some (n_num m, c2 = CURVED m, remaining'))
            else next_switch_loop T node max_lookahead (c1 # c2 # rest) passed' lookahead' remaining'
        | None \<Rightarrow> next_switch_loop T node max_lookahead (c1 # c2 # rest) passed' lookahead' remaining'
      })"
| "next_switch_loop T node max_lookahead _ passed lookahead remaining = None"

text \<open>The place to send the command at, and the turnout with its direction when one is found.\<close>

definition predict_next_switch ::
  "track \<Rightarrow> turnout_state list \<Rightarrow> coordinates \<Rightarrow> route \<Rightarrow> int \<Rightarrow> int \<Rightarrow> (coordinates \<times> (int \<times> bool) option) option" where
  "predict_next_switch T stack co route distance max_lookahead = do {
     r \<leftarrow> next_switch_loop T (l_node (c_loc co)) max_lookahead route False 0 0;
     case r of
       None \<Rightarrow> Some (co, None)
     | Some (num, curved, remaining) \<Rightarrow> do {
         x \<leftarrow> int32 (remaining - distance);
         node \<leftarrow> array_get route 0;
         states \<leftarrow> synthesize_turnout_states_from_route T route stack;
         loc \<leftarrow> location_canonicalize T states \<lparr>l_node = node, l_offset = max 0 x\<rparr>;
         Some (co\<lparr>c_loc := loc\<rparr>, Some (num, curved))
       }
   }"

section \<open>Collisions\<close>

text \<open>The test of one other train; both have a place.\<close>

definition too_near :: "track \<Rightarrow> location \<Rightarrow> location \<Rightarrow> bool option" where
  "too_near T own other = do {
     di \<leftarrow> distance_between_locations T own other;
     di_pair \<leftarrow> distance_between_locations T other own;
     back \<leftarrow> location_reverse T other;
     di_1 \<leftarrow> distance_between_locations T back own;
     di_pair_1 \<leftarrow> distance_between_locations T own back;
     let near = (\<lambda>d. if d = -1 then Some False else do { a \<leftarrow> cabs d; Some (a < TRAIN_LENGTH + SPACING_PADDING) });
     or_else (or_else (near di) (near di_1)) (or_else (near di_pair) (near di_pair_1))
   }"

fun others_loop ::
  "track \<Rightarrow> turnout_state list \<Rightarrow> location \<Rightarrow> coordinates list \<Rightarrow> (bool \<times> coordinates list) option" where
  "others_loop T turnouts own [] = Some (False, [])"
| "others_loop T turnouts own (o1 # os) = do {
     now \<leftarrow> int32 (c_ticks o1 + ROLLOUT_TICKS);
     o2 \<leftarrow> update_coordinates_helper T now turnouts o1;
     hit \<leftarrow> (if l_node own = None \<or> l_node (c_loc o2) = None then Some False else too_near T own (c_loc o2));
     if hit then Some (True, o2 # os)
     else do { (r, os') \<leftarrow> others_loop T turnouts own os; Some (r, o2 # os') }
   }"

text \<open>Whether the train meets another within \<open>distance\<close>; the argument counts the steps left.\<close>

fun rollout ::
  "track \<Rightarrow> turnout_state list \<Rightarrow> int \<Rightarrow> nat \<Rightarrow> int \<Rightarrow> coordinates \<Rightarrow> location \<Rightarrow> coordinates list \<Rightarrow> bool option" where
  "rollout T turnouts distance 0 d c one_behind others = Some False"
| "rollout T turnouts distance (Suc k) d c one_behind others =
     (if \<not> d < distance then Some False
      else do {
        now \<leftarrow> int32 (c_ticks c + ROLLOUT_TICKS);
        c' \<leftarrow> update_coordinates_helper T now turnouts c;
        step \<leftarrow> (if l_node (c_loc c') \<noteq> None then distance_between_locations T one_behind (c_loc c') else Some 0);
        d' \<leftarrow> int32 (d + step);
        (hit, others') \<leftarrow> others_loop T turnouts (c_loc c') others;
        if hit then Some True
        else rollout T turnouts distance k d' c' (if l_node (c_loc c') \<noteq> None then c_loc c' else one_behind) others'
      })"

definition rollout_at_speed ::
  "track \<Rightarrow> int \<Rightarrow> coordinates \<Rightarrow> coordinates list \<Rightarrow> turnout_state list \<Rightarrow> u32 list \<Rightarrow> u32 list \<Rightarrow> int \<Rightarrow>
   train_data \<Rightarrow> int \<Rightarrow> bool option" where
  "rollout_at_speed T distance c others turnouts vm sdm t tr_data j = do {
     c' \<leftarrow> update_coordinates_after_speed_change T
       (tr_data\<lparr>td_should_speed := j, td_last_speed := c_current_speed c, td_time_speed_last_changed := t\<rparr>)
       vm sdm turnouts c;
     rollout T turnouts distance MAX_ROLLOUT_STEPS 0 c' (c_loc c') others
   }"

fun speeds_loop :: "(int \<Rightarrow> bool option) \<Rightarrow> int \<Rightarrow> int list \<Rightarrow> (bool \<times> int) option" where
  "speeds_loop collides current [] = Some (True, -1)"
| "speeds_loop collides current (j # js) = do {
     hit \<leftarrow> collides j;
     if hit then speeds_loop collides current js else Some (j = current, j)
   }"

text \<open>
  The result and the highest acceptable speed. \<open>c\<close> is as before in the end. \<open>tr_data\<close> is the local
  variable, of which three fields are set; \<open>vm\<close>, \<open>sdm\<close> and \<open>t\<close> are what the two models and the clock give.
\<close>

definition will_collide_with_other_train ::
  "track \<Rightarrow> int \<Rightarrow> coordinates \<Rightarrow> coordinates list \<Rightarrow> turnout_state list \<Rightarrow> u32 list \<Rightarrow> u32 list \<Rightarrow> int \<Rightarrow>
   train_data \<Rightarrow> (bool \<times> int) option" where
  "will_collide_with_other_train T distance c others turnouts vm sdm t tr_data =
     speeds_loop (rollout_at_speed T distance c others turnouts vm sdm t tr_data) (c_current_speed c)
       (List.rev [1..14])"

section \<open>The turnouts of a route\<close>

text \<open>A track on which each branch has a turnout of its own, with a state in the array.\<close>

definition turnout_index :: "track_node \<Rightarrow> nat" where
  "turnout_index n = unat (turnout_num_to_map_offset (of_int (n_num n)))"

definition own_turnout :: "track \<Rightarrow> nat \<Rightarrow> bool" where
  "own_turnout T i \<longleftrightarrow> (case array_get T i of None \<Rightarrow> False | Some n \<Rightarrow>
     n_type n = NODE_BRANCH \<longrightarrow> i = 80 + 2 * turnout_index n \<and> turnout_index n < NUM_TURNOUTS)"

definition steerable :: "track \<Rightarrow> nat \<Rightarrow> bool" where
  "steerable T nodes \<longleftrightarrow> nodes \<le> length T \<and> list_all (own_turnout T) [0..<nodes]"

lemma steerable_branch:
  assumes "steerable T nodes" "u < nodes" "n_type (T ! u) = NODE_BRANCH"
  shows "u = 80 + 2 * turnout_index (T ! u)" "turnout_index (T ! u) < NUM_TURNOUTS"
  using assms by (auto simp: steerable_def own_turnout_def list_all_iff split: option.splits)

definition exit_state :: "track_node \<Rightarrow> nptr \<Rightarrow> turnout_state" where
  "exit_state n v = (if STRAIGHT n = Some v then TURNOUT_STRAIGHT else TURNOUT_CURVED)"

lemma linked_branch:
  assumes "linked T nodes u v" "n_type (T ! u) = NODE_BRANCH"
  shows "STRAIGHT (T ! u) = Some v \<or> CURVED (T ! u) = Some v"
  using assms by (auto simp: linked_def track_link_def edges_of_def)

lemma synthesize_loop_step:
  assumes T: "steerable T nodes" and l: "linked T nodes u v" and st: "length st = NUM_TURNOUTS"
  shows "synthesize_loop T (Some u # Some v # rest) st = synthesize_loop T (Some v # rest)
    (if n_type (T ! u) = NODE_BRANCH then st[turnout_index (T ! u) := exit_state (T ! u) v] else st)"
proof -
  have u: "u < nodes" "u < length T" using l by (auto simp: linked_def track_link_def)
  then have "node_at T (Some u) = Some (T ! u)" by (simp add: node_at_def)
  then show ?thesis using steerable_branch [OF T u(1)] linked_branch [OF l] st
    by (auto simp: turnout_index_def exit_state_def)
qed

lemma synthesize_loop_states:
  assumes T: "steerable T nodes"
  shows "p \<noteq> [] \<Longrightarrow> distinct p \<Longrightarrow> successively (linked T nodes) p \<Longrightarrow> length st = NUM_TURNOUTS \<Longrightarrow>
    \<exists>st'. synthesize_loop T (map Some p @ None # rest) st = Some st' \<and> length st' = NUM_TURNOUTS \<and>
      (\<forall>i. Suc i < length p \<longrightarrow> n_type (T ! (p ! i)) = NODE_BRANCH \<longrightarrow>
        st' ! turnout_index (T ! (p ! i)) = exit_state (T ! (p ! i)) (p ! Suc i)) \<and>
      (\<forall>u < nodes. u \<notin> set p \<longrightarrow> n_type (T ! u) = NODE_BRANCH \<longrightarrow>
        st' ! turnout_index (T ! u) = st ! turnout_index (T ! u))"
proof (induction p arbitrary: st)
  case (Cons u p)
  show ?case
  proof (cases p)
    case Nil
    then show ?thesis using Cons.prems by simp
  next
    case (Cons v q)
    have l: "linked T nodes u v" using Cons.prems(3) Cons by simp
    define st1 where "st1 = (if n_type (T ! u) = NODE_BRANCH then st[turnout_index (T ! u) := exit_state (T ! u) v] else st)"
    have len: "length st1 = NUM_TURNOUTS" using Cons.prems(4) by (simp add: st1_def)
    obtain st' where st': "synthesize_loop T (map Some p @ None # rest) st1 = Some st'" "length st' = NUM_TURNOUTS"
      "\<forall>i. Suc i < length p \<longrightarrow> n_type (T ! (p ! i)) = NODE_BRANCH \<longrightarrow>
        st' ! turnout_index (T ! (p ! i)) = exit_state (T ! (p ! i)) (p ! Suc i)"
      "\<forall>w < nodes. w \<notin> set p \<longrightarrow> n_type (T ! w) = NODE_BRANCH \<longrightarrow>
        st' ! turnout_index (T ! w) = st1 ! turnout_index (T ! w)"
      using Cons.IH [of st1] Cons.prems Cons len by (auto simp: successively_Cons)
    have u: "u < nodes" using l by (simp add: linked_def)
    have "synthesize_loop T (map Some (u # p) @ None # rest) st = Some st'"
      using synthesize_loop_step [OF T l Cons.prems(4), of "map Some q @ None # rest"] st'(1) Cons
      by (simp add: st1_def)
    moreover have "st' ! turnout_index (T ! ((u # p) ! i)) = exit_state (T ! ((u # p) ! i)) ((u # p) ! Suc i)"
      if i: "Suc i < length (u # p)" "n_type (T ! ((u # p) ! i)) = NODE_BRANCH" for i
    proof (cases i)
      case 0
      then have b: "n_type (T ! u) = NODE_BRANCH" using i(2) by simp
      have "st' ! turnout_index (T ! u) = st1 ! turnout_index (T ! u)"
        using st'(4) u b Cons.prems(2) by simp
      also have "\<dots> = exit_state (T ! u) v"
        using b steerable_branch(2) [OF T u b] Cons.prems(4) by (simp add: st1_def)
      finally show ?thesis using 0 Cons by simp
    next
      case (Suc k)
      then show ?thesis using st'(3) i by simp
    qed
    moreover have "st' ! turnout_index (T ! w) = st ! turnout_index (T ! w)"
      if w: "w < nodes" "w \<notin> set (u # p)" "n_type (T ! w) = NODE_BRANCH" for w
    proof -
      have "turnout_index (T ! u) \<noteq> turnout_index (T ! w)" if "n_type (T ! u) = NODE_BRANCH"
        using steerable_branch(1) [OF T u that] steerable_branch(1) [OF T w(1,3)] w(2) by auto
      then show ?thesis using st'(4) w by (simp add: st1_def nth_list_update_neq)
    qed
    ultimately show ?thesis using st'(2) by blast
  qed
qed simp

text \<open>With these states the turnouts lead along the route.\<close>

lemma steered:
  assumes T: "steerable T nodes" and l: "linked T nodes u v" and st: "length st = NUM_TURNOUTS"
    "n_type (T ! u) = NODE_BRANCH \<Longrightarrow> st ! turnout_index (T ! u) = exit_state (T ! u) v"
  shows "track_node_next T st (Some u) = Some (Some v)"
proof -
  have u: "u < nodes" "u < length T" using l by (auto simp: linked_def track_link_def)
  then have n: "node_at T (Some u) = Some (T ! u)" by (simp add: node_at_def)
  show ?thesis
  proof (cases "n_type (T ! u) = NODE_BRANCH")
    case True
    then have "array_get st (turnout_index (T ! u)) = Some (exit_state (T ! u) v)"
      using steerable_branch(2) [OF T u(1)] st by simp
    then show ?thesis using n True linked_branch [OF l True]
      by (auto simp: track_node_next_def turnout_index_def exit_state_def)
  next
    case False
    then show ?thesis using l n by (auto simp: track_node_next_def linked_def track_link_def edges_of_def split: node_type.splits)
  qed
qed

lemma synthesized_steers:
  assumes "steerable T nodes" "p \<noteq> []" "distinct p" "successively (linked T nodes) p" "length st = NUM_TURNOUTS"
  shows "\<exists>st'. synthesize_turnout_states_from_route T (map Some p @ None # rest) st = Some st' \<and>
    length st' = NUM_TURNOUTS \<and>
    (\<forall>i. Suc i < length p \<longrightarrow> track_node_next T st' (Some (p ! i)) = Some (Some (p ! Suc i)))"
proof -
  obtain st' where st': "synthesize_loop T (map Some p @ None # rest) st = Some st'" "length st' = NUM_TURNOUTS"
    "\<forall>i. Suc i < length p \<longrightarrow> n_type (T ! (p ! i)) = NODE_BRANCH \<longrightarrow>
      st' ! turnout_index (T ! (p ! i)) = exit_state (T ! (p ! i)) (p ! Suc i)"
    using synthesize_loop_states [OF assms] by blast
  have "linked T nodes (p ! i) (p ! Suc i)" if "Suc i < length p" for i
    using successively_conv_nth [of "linked T nodes" p] assms(4) that by blast
  then show ?thesis using st' steered [OF assms(1)] unfolding synthesize_turnout_states_from_route_def by blast
qed

section \<open>The track of the lab\<close>

lemma set_turnout_own_turnout:
  assumes "set_turnout_permanently T k st = Some T'"
  shows "own_turnout T' i = own_turnout T i"
  using set_turnout_frame(3,4) [OF assms, of i] unfolding own_turnout_def turnout_index_def
  by (auto split: option.splits)

lemma trackb_own_turnouts: "list_all (own_turnout init_trackb) [0..<140]"
  by (simp add: all_less_Suc_numeral own_turnout_def turnout_index_def turnout_num_to_map_offset_def NUM_TURNOUTS_def
      tracka_simps del: array_get_Some)

lemma lab_track_fixed:
  obtains t1 t2 where "set_turnout_permanently init_trackb 17 TURNOUT_CURVED = Some t1"
    "set_turnout_permanently t1 155 TURNOUT_CURVED = Some t2"
    "set_turnout_permanently t2 156 TURNOUT_STRAIGHT = Some lab_track"
proof -
  obtain T where T: "init_track_b = Some T" using init_track_b_ok by blast
  moreover have "lab_track = T" by (simp add: lab_track_def T)
  ultimately show ?thesis using that by (auto simp: init_track_b_def split: bind_splits)
qed

lemma lab_track_steerable: "steerable lab_track 140"
proof -
  obtain t1 t2 where t: "set_turnout_permanently init_trackb 17 TURNOUT_CURVED = Some t1"
    "set_turnout_permanently t1 155 TURNOUT_CURVED = Some t2"
    "set_turnout_permanently t2 156 TURNOUT_STRAIGHT = Some lab_track" by (rule lab_track_fixed)
  show ?thesis using trackb_own_turnouts lab_track_rev_ok(2)
    by (simp add: steerable_def list_all_iff set_turnout_own_turnout [OF t(3)] set_turnout_own_turnout [OF t(2)]
      set_turnout_own_turnout [OF t(1)])
qed

lemma set_turnout_get:
  assumes "set_turnout_permanently T k st = Some T'"
  shows "i \<noteq> 80 + 2 * unat (turnout_num_to_map_offset k) \<Longrightarrow> array_get T' i = array_get T i"
    "i = 80 + 2 * unat (turnout_num_to_map_offset k) \<Longrightarrow> st = TURNOUT_STRAIGHT \<Longrightarrow>
      array_get T' i = map_option (\<lambda>n. n\<lparr>n_edge1 := n_edge0 n\<rparr>) (array_get T i)"
    "i = 80 + 2 * unat (turnout_num_to_map_offset k) \<Longrightarrow> st = TURNOUT_CURVED \<Longrightarrow>
      array_get T' i = map_option (\<lambda>n. n\<lparr>n_edge0 := n_edge1 n\<rparr>) (array_get T i)"
  using assms
  by (auto simp: set_turnout_permanently_def Let_def array_get_def array_set_def
      split: turnout_state.splits bind_splits if_splits)

lemma lab_track_get:
  "i \<notin> {112, 120, 122} \<Longrightarrow> array_get lab_track i = array_get init_trackb i"
  "array_get lab_track 112 = map_option (\<lambda>n. n\<lparr>n_edge0 := n_edge1 n\<rparr>) (array_get init_trackb 112)"
  "array_get lab_track 120 = map_option (\<lambda>n. n\<lparr>n_edge0 := n_edge1 n\<rparr>) (array_get init_trackb 120)"
  "array_get lab_track 122 = map_option (\<lambda>n. n\<lparr>n_edge1 := n_edge0 n\<rparr>) (array_get init_trackb 122)"
proof -
  obtain t1 t2 where t: "set_turnout_permanently init_trackb 17 TURNOUT_CURVED = Some t1"
    "set_turnout_permanently t1 155 TURNOUT_CURVED = Some t2"
    "set_turnout_permanently t2 156 TURNOUT_STRAIGHT = Some lab_track" by (rule lab_track_fixed)
  note g = set_turnout_get [OF t(1)] set_turnout_get [OF t(2)] set_turnout_get [OF t(3)]
  show "i \<notin> {112, 120, 122} \<Longrightarrow> array_get lab_track i = array_get init_trackb i"
    "array_get lab_track 112 = map_option (\<lambda>n. n\<lparr>n_edge0 := n_edge1 n\<rparr>) (array_get init_trackb 112)"
    "array_get lab_track 120 = map_option (\<lambda>n. n\<lparr>n_edge0 := n_edge1 n\<rparr>) (array_get init_trackb 120)"
    "array_get lab_track 122 = map_option (\<lambda>n. n\<lparr>n_edge1 := n_edge0 n\<rparr>) (array_get init_trackb 122)"
    using g by (simp_all add: turnout_num_to_map_offset_def)
qed

definition adjacent_ok :: "track \<Rightarrow> nat \<Rightarrow> bool" where
  "adjacent_ok T i \<longleftrightarrow> (case array_get T i of None \<Rightarrow> False | Some n \<Rightarrow>
     list_all (\<lambda>e. distance_between_track_nodes T (Some i) (e_dest e) = Some (e_dist e)) (edges_of n))"

lemma distance_helper_step:
  "distance_between_track_nodes_helper T start start tot l = Some tot"
  "start \<noteq> finish \<Longrightarrow> distance_between_track_nodes_helper T start finish tot 0 = Some (-1)"
  "start \<noteq> finish \<Longrightarrow> distance_between_track_nodes_helper T start finish tot (numeral k) = do {
     n \<leftarrow> node_at T start;
     if n_type n = NODE_ENTER \<or> n_type n = NODE_SENSOR \<or> n_type n = NODE_MERGE then
       distance_between_track_nodes_helper T (AHEAD n) finish (tot + e_dist (n_edge0 n)) (pred_numeral k)
     else if n_type n = NODE_BRANCH then do {
       result \<leftarrow> distance_between_track_nodes_helper T (STRAIGHT n) finish (tot + e_dist (n_edge0 n)) (pred_numeral k);
       if result \<noteq> -1 then Some result
       else distance_between_track_nodes_helper T (CURVED n) finish (tot + e_dist (n_edge1 n)) (pred_numeral k)
     }
     else Some (-1) }"
  "start \<noteq> finish \<Longrightarrow> distance_between_track_nodes_helper T start finish tot (Suc l) = do {
     n \<leftarrow> node_at T start;
     if n_type n = NODE_ENTER \<or> n_type n = NODE_SENSOR \<or> n_type n = NODE_MERGE then
       distance_between_track_nodes_helper T (AHEAD n) finish (tot + e_dist (n_edge0 n)) l
     else if n_type n = NODE_BRANCH then do {
       result \<leftarrow> distance_between_track_nodes_helper T (STRAIGHT n) finish (tot + e_dist (n_edge0 n)) l;
       if result \<noteq> -1 then Some result
       else distance_between_track_nodes_helper T (CURVED n) finish (tot + e_dist (n_edge1 n)) l
     }
     else Some (-1) }"
  by (subst distance_between_track_nodes_helper.simps; simp add: numeral_eq_Suc)+

lemma lab_track_adjacent: "list_all (adjacent_ok lab_track) [0..<140]"
  by (simp add: all_less_Suc_numeral adjacent_ok_def edges_of_def distance_between_track_nodes_def FIND_LIMIT_def
      distance_helper_step node_at_def lab_track_get tracka_simps del: array_get_Some)

section \<open>Where to stop\<close>

text \<open>A track as the predictions need it: routable, with own turnouts, and with the lengths of its edges found.\<close>

definition predictable :: "track \<Rightarrow> nat \<Rightarrow> bool" where
  "predictable T nodes \<longleftrightarrow> routable T nodes \<and> steerable T nodes \<and> list_all (adjacent_ok T) [0..<nodes]"

lemma lab_track_predictable: "predictable lab_track 140"
  by (simp add: predictable_def lab_track_routable lab_track_steerable lab_track_adjacent)

lemma adjacent_edge:
  assumes "predictable T nodes" "u < nodes" "e \<in> set (edges_of (T ! u))"
  shows "distance_between_track_nodes T (Some u) (e_dest e) = Some (e_dist e)"
  using assms unfolding predictable_def adjacent_ok_def list_all_iff
  by (auto simp: array_get_def split: if_splits dest!: bspec [where x = u])

lemma adjacent_link:
  assumes T: "predictable T nodes" and l: "linked T nodes u v"
  shows "distance_between_track_nodes T (Some u) (Some v) = Some (link_dist T u v)" "0 \<le> link_dist T u v" "v < nodes"
proof -
  obtain e where e: "u < nodes" "e \<in> set (edges_of (T ! u))" "e_dest e = Some v" "track_link T u v (e_dist e)"
    using l by (auto simp: linked_def track_link_def)
  have r: "routable T nodes" using T by (simp add: predictable_def)
  note d = link_dist(1) [OF r e(1,4)]
  then show "distance_between_track_nodes T (Some u) (Some v) = Some (link_dist T u v)" "0 \<le> link_dist T u v" "v < nodes"
    using adjacent_edge [OF T e(1,2)] routable_link [OF r e(1,4)] e(3) by simp_all
qed

lemma next_edge:
  assumes "track_node_next T st (Some u) = Some (Some v)"
  shows "\<exists>e \<in> set (edges_of (T ! u)). e_dest e = Some v"
proof -
  obtain n where "node_at T (Some u) = Some n" using assms by (auto simp: track_node_next_def split: bind_splits)
  then have "node_at T (Some u) = Some (T ! u)" by (auto simp: node_at_def array_get_eq_Some)
  then show ?thesis using assms
    by (auto simp: track_node_next_def edges_of_def split: bind_splits if_splits)
qed

text \<open>The states \<open>st\<close> lead along the nodes \<open>p\<close>.\<close>

definition leads :: "track \<Rightarrow> nat \<Rightarrow> turnout_state list \<Rightarrow> nptr list \<Rightarrow> bool" where
  "leads T nodes st p \<longleftrightarrow> p \<noteq> [] \<and> distinct p \<and> successively (linked T nodes) p \<and> set p \<subseteq> {..<nodes} \<and>
     length st = NUM_TURNOUTS \<and>
     (\<forall>i. Suc i < length p \<longrightarrow> track_node_next T st (Some (p ! i)) = Some (Some (p ! Suc i)))"

lemma leads_linked: "leads T nodes st p \<Longrightarrow> Suc i < length p \<Longrightarrow> linked T nodes (p ! i) (p ! Suc i)"
  using successively_conv_nth [of "linked T nodes" p] unfolding leads_def by blast

lemma path_dist_drop:
  assumes "Suc k < length p"
  shows "path_dist T (drop k p) = link_dist T (p ! k) (p ! Suc k) + path_dist T (drop (Suc k) p)"
  using assms by (metis Cons_nth_drop_Suc Suc_lessD path_dist.simps(1))

lemma canonicalize_along:
  assumes T: "predictable T nodes" and p: "leads T nodes st p"
  shows "Suc k < length p \<Longrightarrow> x < 100 * path_dist T (drop k p) \<Longrightarrow>
    \<exists>m y. canonicalize_loop T st \<lparr>l_node = Some (p ! k), l_offset = x\<rparr> (Some (p ! Suc k))
        (link_dist T (p ! k) (p ! Suc k) * 100) = Some \<lparr>l_node = Some (p ! m), l_offset = y\<rparr> \<and>
      m < length p \<and> 100 * path_dist T (drop m p) - y = 100 * path_dist T (drop k p) - x \<and> k \<le> m"
proof (induction "length p - k" arbitrary: k x)
  case (Suc n)
  define d where "d = link_dist T (p ! k) (p ! Suc k)"
  note pd = path_dist_drop [OF Suc.prems(1), of T, folded d_def]
  show ?case
  proof (cases "x < d * 100")
    case True
    then have "canonicalize_loop T st \<lparr>l_node = Some (p ! k), l_offset = x\<rparr> (Some (p ! Suc k)) (d * 100) =
        Some \<lparr>l_node = Some (p ! k), l_offset = x\<rparr>"
      by (subst canonicalize_loop.simps) simp
    then show ?thesis using Suc.prems(1) unfolding d_def
      by (intro exI [of _ k] exI [of _ x]) simp
  next
    case False
    then have k2: "Suc (Suc k) < length p"
    proof (cases "Suc (Suc k) < length p")
      case F: False
      then have "drop (Suc k) p = [p ! Suc k]" using Suc.prems(1)
        by (metis Cons_nth_drop_Suc Suc_lessI drop_eq_Nil not_less order_refl)
      then show ?thesis using False Suc.prems(2) pd by simp
    qed simp
    note l = leads_linked [OF p k2]
    have nx: "track_node_next T st (Some (p ! Suc k)) = Some (Some (p ! Suc (Suc k)))"
      using p k2 unfolding leads_def by blast
    have "x - d * 100 < 100 * path_dist T (drop (Suc k) p)" using Suc.prems(2) pd by simp
    then obtain m y where m: "canonicalize_loop T st \<lparr>l_node = Some (p ! Suc k), l_offset = x - d * 100\<rparr>
        (Some (p ! Suc (Suc k))) (link_dist T (p ! Suc k) (p ! Suc (Suc k)) * 100) =
        Some \<lparr>l_node = Some (p ! m), l_offset = y\<rparr>" "m < length p"
      "100 * path_dist T (drop m p) - y = 100 * path_dist T (drop (Suc k) p) - (x - d * 100)" "Suc k \<le> m"
      using Suc.hyps(1) [of "Suc k" "x - d * 100"] Suc.hyps(2) k2 by fastforce
    have "canonicalize_loop T st \<lparr>l_node = Some (p ! k), l_offset = x\<rparr> (Some (p ! Suc k)) (d * 100) =
        Some \<lparr>l_node = Some (p ! m), l_offset = y\<rparr>"
      using False nx adjacent_link(1) [OF T l] m(1) by (subst canonicalize_loop.simps) simp
    then show ?thesis using m(2-4) pd unfolding d_def by (intro exI [of _ m] exI [of _ y]) simp
  qed
qed simp

lemma location_canonicalize_along:
  assumes T: "predictable T nodes" and p: "leads T nodes st p" and k: "k < length p"
    and x: "x < 100 * path_dist T (drop k p)"
  shows "\<exists>m y. location_canonicalize T st \<lparr>l_node = Some (p ! k), l_offset = x\<rparr> =
      Some \<lparr>l_node = Some (p ! m), l_offset = y\<rparr> \<and>
    m < length p \<and> 100 * path_dist T (drop m p) - y = 100 * path_dist T (drop k p) - x \<and> k \<le> m"
proof (cases "Suc k < length p")
  case True
  have "track_node_next T st (Some (p ! k)) = Some (Some (p ! Suc k))" using p True by (simp add: leads_def)
  then show ?thesis
    using canonicalize_along [OF T p True x] adjacent_link(1) [OF T leads_linked [OF p True]]
    by (simp add: location_canonicalize_def)
next
  case False
  then have "drop k p = [p ! k]" using k by (metis Cons_nth_drop_Suc drop_eq_Nil not_less)
  then have x0: "x < 0" using x by simp
  have u: "p ! k < nodes" "length st = NUM_TURNOUTS" using p k unfolding leads_def by (auto dest: nth_mem)
  have "steerable T nodes" using T by (simp add: predictable_def)
  then have "turnouts_in T (p ! k)" using u(1) steerable_branch(2)
    by (auto simp: turnouts_in_def turnout_index_def steerable_def array_get_def)
  then obtain nx where nx: "track_node_next T st (Some (p ! k)) = Some nx"
    using track_node_next_defined u(2) by blast
  have "location_canonicalize T st \<lparr>l_node = Some (p ! k), l_offset = x\<rparr> =
      Some \<lparr>l_node = Some (p ! k), l_offset = x\<rparr>"
  proof (cases nx)
    case (Some w)
    then obtain e where e: "e \<in> set (edges_of (T ! (p ! k)))" "e_dest e = Some w" using next_edge nx by blast
    have "0 \<le> e_dist e" using T routable_edge [OF _ u(1) e(1)] unfolding predictable_def by blast
    then show ?thesis using nx Some adjacent_edge [OF T u(1) e(1)] e(2) x0
      by (simp add: location_canonicalize_def canonicalize_loop.simps)
  qed (simp add: location_canonicalize_def nx)
  then show ?thesis using k by blast
qed

lemma remaining_dist_from:
  assumes T: "routable T nodes"
  shows "successively (linked T nodes) (a @ u # b) \<Longrightarrow> u \<notin> set a \<Longrightarrow> 100 * path_dist T (u # b) < 2 ^ 31 \<Longrightarrow>
    remaining_dist_loop T (Some u) (map Some (a @ u # b) @ None # rest) False 0 = Some (100 * path_dist T (u # b))"
proof (induction a)
  case Nil
  have "remaining_dist_loop T (Some u) (map Some (u # b) @ None # rest) True 0 = Some (100 * path_dist T (u # b))"
    using remaining_dist_path [OF T, of "u # b" 0] Nil by simp
  moreover have "remaining_dist_loop T (Some u) (Some u # zs) False 0 = remaining_dist_loop T (Some u) (Some u # zs) True 0" for zs
    by (cases zs) auto
  ultimately show ?case by simp
next
  case (Cons x a)
  obtain w ws where w: "map Some (a @ u # b) @ None # rest = Some w # ws" by (cases a) auto
  have "remaining_dist_loop T (Some u) (map Some ((x # a) @ u # b) @ None # rest) False 0 =
      remaining_dist_loop T (Some u) (Some x # Some w # ws) False 0" using w by simp
  also have "\<dots> = remaining_dist_loop T (Some u) (Some w # ws) False 0" using Cons.prems(2) by simp
  also have "\<dots> = Some (100 * path_dist T (u # b))" unfolding w [symmetric]
    using Cons.IH Cons.prems by (simp add: successively_Cons)
  finally show ?case .
qed

lemma remaining_dist_at:
  assumes T: "routable T nodes" and p: "successively (linked T nodes) p" "distinct p" "length p < MAX_ROUTE_LENGTH"
    and k: "k < length p"
  shows "get_remaining_dist_in_route T (map Some p @ None # rest) \<lparr>l_node = Some (p ! k), l_offset = x\<rparr> =
    int32 (100 * path_dist T (drop k p) - x)"
    "0 \<le> path_dist T (drop k p)" "100 * path_dist T (drop k p) \<le> 1430000000"
proof -
  have s: "p = take k p @ p ! k # drop (Suc k) p" by (rule id_take_nth_drop [OF k])
  have dr: "drop k p = p ! k # drop (Suc k) p" using k by (simp add: Cons_nth_drop_Suc)
  have sd: "successively (linked T nodes) (drop k p)"
    using p(1) s unfolding dr by (metis successively_append_iff)
  show b: "0 \<le> path_dist T (drop k p)" "100 * path_dist T (drop k p) \<le> 1430000000"
    using path_dist_bounds [OF T sd] p(3) by (auto simp: MAX_ROUTE_LENGTH_def TRACK_MAX_def)
  have "p ! k \<notin> set (take k p)" using p(2) s by (metis distinct_append distinct.simps(2) disjoint_insert(1) list.simps(15))
  then show "get_remaining_dist_in_route T (map Some p @ None # rest) \<lparr>l_node = Some (p ! k), l_offset = x\<rparr> =
      int32 (100 * path_dist T (drop k p) - x)"
    using remaining_dist_from [OF T, of "take k p" "p ! k" "drop (Suc k) p" rest] p(1) s b
    by (simp add: get_remaining_dist_in_route_def dr del: map_append)
qed

lemma on_route_nth:
  "on_route (map Some p @ None # rest) loc = Some True \<Longrightarrow> \<exists>k < length p. l_node loc = Some (p ! k)"
proof (induction p)
  case (Cons u p)
  show ?case
  proof (cases "l_node loc = Some u")
    case True
    then show ?thesis by (intro exI [of _ 0]) simp
  next
    case False
    then obtain k where "k < length p" "l_node loc = Some (p ! k)" using Cons by auto
    then show ?thesis by (intro exI [of _ "Suc k"]) simp
  qed
qed simp

text \<open>A planned route and the states it is turned into.\<close>

lemma planned_route:
  assumes T: "predictable T nodes" and sv: "s < nodes" "v < nodes"
    and l: "length (pq_elts q) = SEARCH_NODE_QUEUE_SIZE" "length r0 = MAX_ROUTE_LENGTH" "length stack = NUM_TURNOUTS"
    and pr: "plan_route T nodes q (Some s) (Some v) r0 = Some (True, route)"
  obtains p rest st where "route = map Some p @ None # rest" "length p < MAX_ROUTE_LENGTH" "leads T nodes st p"
    "synthesize_turnout_states_from_route T route stack = Some st" "hd p = s" "last p = v"
proof -
  have r: "routable T nodes" "steerable T nodes" using T by (simp_all add: predictable_def)
  obtain p d where p: "route = map Some p @ None # drop (Suc (length p)) r0" "shortest T s p v d"
    "length p < MAX_ROUTE_LENGTH" "distinct p"
    using plan_route_ok [OF r(1) sv l(1,2)] pr by auto
  have lk: "p \<noteq> []" "hd p = s" "last p = v" "successively (linked T nodes) p"
    using route_path_linked [OF r(1) sv(1)] p(2) by (auto simp: shortest_def)
  have "p ! i < nodes" if "i < length p" for i
  proof (cases "Suc i < length p")
    case True
    then show ?thesis using lk(4) successively_conv_nth [of "linked T nodes" p] by (auto simp: linked_def)
  next
    case False
    then have "i = length p - 1" using that by linarith
    then have "p ! i = last p" using lk(1) by (simp add: last_conv_nth)
    then show ?thesis using lk(3) sv(2) by simp
  qed
  then have "set p \<subseteq> {..<nodes}" by (auto simp: in_set_conv_nth)
  moreover obtain st where "synthesize_turnout_states_from_route T route stack = Some st" "length st = NUM_TURNOUTS"
    "\<forall>i. Suc i < length p \<longrightarrow> track_node_next T st (Some (p ! i)) = Some (Some (p ! Suc i))"
    using synthesized_steers [OF r(2) lk(1) p(4) lk(4) l(3)] p(1) by metis
  ultimately show ?thesis using that p(1,3,4) lk unfolding leads_def by blast
qed

text \<open>
  C17: the place at which a train on a planned route is told to stop is exactly its stopping distance
  before the end of the route, wherever on the route the train is and whatever the array of turnout
  states held.
\<close>

theorem stop_predicted_exactly:
  assumes T: "predictable T nodes" and sv: "s < nodes" "v < nodes"
    and l: "length (pq_elts q) = SEARCH_NODE_QUEUE_SIZE" "length r0 = MAX_ROUTE_LENGTH" "length stack = NUM_TURNOUTS"
    and pr: "plan_route T nodes q (Some s) (Some v) r0 = Some (True, route)"
    and on: "on_route route (c_loc c) = Some True"
    and b: "\<bar>l_offset (c_loc c)\<bar> \<le> 500000000" "0 < stopping_distance" "stopping_distance \<le> 500000000"
  shows "\<exists>target. predict_train_stop T stack c route stopping_distance = Some target \<and>
    on_route route (c_loc target) = Some True \<and>
    get_remaining_dist_in_route T route (c_loc target) = Some stopping_distance"
proof -
  obtain p rest st where p: "route = map Some p @ None # rest" "length p < MAX_ROUTE_LENGTH" "leads T nodes st p"
    "synthesize_turnout_states_from_route T route stack = Some st"
    using planned_route [OF T sv l pr] by metis
  have r: "routable T nodes" using T by (simp add: predictable_def)
  have lk: "successively (linked T nodes) p" "distinct p" using p(3) by (auto simp: leads_def)
  obtain k where k: "k < length p" "l_node (c_loc c) = Some (p ! k)" using on_route_nth on p(1) by blast
  define o1 where "o1 = l_offset (c_loc c)"
  define R where "R = 100 * path_dist T (drop k p)"
  note rem = remaining_dist_at(1) [OF r lk p(2), where rest = rest, folded p(1)] remaining_dist_at(2,3) [OF r lk p(2)]
  have loc: "c_loc c = \<lparr>l_node = Some (p ! k), l_offset = o1\<rparr>" using k(2) by (simp add: o1_def)
  have R: "0 \<le> R" "R \<le> 1430000000" using rem(2,3) [OF k(1)] by (simp_all add: R_def)
  have i: "int32 (R - o1) = Some (R - o1)" "int32 (R - o1 - stopping_distance) = Some (R - o1 - stopping_distance)"
    "int32 (o1 + (R - o1 - stopping_distance)) = Some (R - stopping_distance)"
    using R b by (auto simp: int32_def o1_def abs_le_iff)
  obtain m y where m: "location_canonicalize T st \<lparr>l_node = Some (p ! k), l_offset = R - stopping_distance\<rparr> =
      Some \<lparr>l_node = Some (p ! m), l_offset = y\<rparr>" "m < length p"
    "100 * path_dist T (drop m p) - y = R - (R - stopping_distance)"
    using location_canonicalize_along [OF T p(3) k(1), of "R - stopping_distance"] b(2) R_def by auto
  have "predict_train_stop T stack c route stopping_distance =
      Some (c\<lparr>c_loc := \<lparr>l_node = Some (p ! m), l_offset = y\<rparr>\<rparr>)"
    using rem(1) [OF k(1), of o1] i p(4) m(1)
    by (simp add: predict_train_stop_def loc R_def)
  moreover have "get_remaining_dist_in_route T route \<lparr>l_node = Some (p ! m), l_offset = y\<rparr> = Some stopping_distance"
    using rem(1) [OF m(2), of y] m(3) b by (simp add: int32_def)
  moreover have "on_route route \<lparr>l_node = Some (p ! m), l_offset = y\<rparr> = Some True"
    unfolding p(1) using m(2) by (induction p arbitrary: m) (auto simp: nth_Cons')
  ultimately show ?thesis
    by (intro exI [of _ "c\<lparr>c_loc := \<lparr>l_node = Some (p ! m), l_offset = y\<rparr>\<rparr>"] conjI) simp_all
qed

text \<open>The witness is on the way from A1 to the sensor after it, 103.\<close>

lemma lab_track_sizes: "length (replicate 144 (None :: nptr option)) = MAX_ROUTE_LENGTH"
  "length (replicate 22 TURNOUT_UNKNOWN) = NUM_TURNOUTS"
  by (simp_all add: MAX_ROUTE_LENGTH_def TRACK_MAX_def NUM_TURNOUTS_def)

lemma lab_link_0: "linked lab_track 140 0 103"
proof -
  have "array_get lab_track 0 = array_get init_trackb 0" by (rule lab_track_get) simp
  then show ?thesis using lab_track_rev_ok(2)
    by (simp add: linked_def track_link_def edges_of_def tracka_simps)
qed

lemma lab_plan_0:
  "\<exists>route. plan_route lab_track 140 blank_queue (Some 0) (Some 103) (replicate 144 None) = Some (True, route) \<and>
    on_route route \<lparr>l_node = Some 0, l_offset = 0\<rparr> = Some True"
proof -
  obtain d where "track_link lab_track 0 103 d" using lab_link_0 by (auto simp: linked_def)
  then have "route_path lab_track 0 ([0] @ [103]) 103 (0 + d)"
    by (intro route_path.extend [OF route_path.start])
  then have ex: "\<exists>p d. route_path lab_track 0 p 103 d" by blast
  define r0 where "r0 = replicate 144 (None :: nptr option)"
  have "length r0 = MAX_ROUTE_LENGTH" unfolding r0_def by (rule lab_track_sizes)
  from plan_route_ok [OF lab_track_routable _ _ blank_queue_length this, of 0 103] ex
  obtain p d where r: "plan_route lab_track 140 blank_queue (Some 0) (Some 103) r0 =
      Some (True, map Some p @ None # drop (Suc (length p)) r0)" "route_path lab_track 0 p 103 d"
    unfolding shortest_def by auto
  then have "p \<noteq> []" "hd p = 0" using route_path_linked [OF lab_track_routable _ r(2)] by simp_all
  then show ?thesis using r(1) unfolding r0_def by (cases p) auto
qed

theorem stop_predicted_exactly_witness:
  "\<exists>route target. predict_train_stop lab_track (replicate 22 TURNOUT_UNKNOWN)
      (zero_coordinates\<lparr>c_loc := \<lparr>l_node = Some 0, l_offset = 0\<rparr>\<rparr>) route 4000 = Some target \<and>
    get_remaining_dist_in_route lab_track route (c_loc target) = Some 4000"
proof -
  obtain route where "plan_route lab_track 140 blank_queue (Some 0) (Some 103) (replicate 144 None) = Some (True, route)"
    "on_route route \<lparr>l_node = Some 0, l_offset = 0\<rparr> = Some True" using lab_plan_0 by blast
  then show ?thesis
    using stop_predicted_exactly [OF lab_track_predictable _ _ blank_queue_length lab_track_sizes, of 0 103 route
        "zero_coordinates\<lparr>c_loc := \<lparr>l_node = Some 0, l_offset = 0\<rparr>\<rparr>" 4000] by force
qed

section \<open>Predictions and movement\<close>

text \<open>
  The prediction of the next sensor and the movement of the coordinates server agree: a train at
  constant velocity, moved on to the predicted time, is not beyond the sensor and at most one tick of
  its way, and the rounding, before it.
\<close>

theorem prediction_agrees_with_movement:
  assumes t: "ticks_to_sensor root c dist = Some t" and v: "0 < c_velocity c" "c_target_velocity c \<noteq> 0"
    and a: "c_acceleration c = 0" and d: "0 \<le> dist" and x: "offset_at t (c_velocity c) c = Some x"
  shows "c_ticks c \<le> t \<and> x \<le> l_offset (c_loc c) + dist \<and>
    l_offset (c_loc c) + dist \<le> x + c_velocity c div 100 + 1"
proof -
  define v y where "v = c_velocity c" and "y = 100 * dist div v"
  have v0: "0 < v" using v(1) by (simp add: v_def)
  have q: "(100 * dist) sdiv v = y" using v0 d by (simp add: signed_divide_int_def sgn_if y_def)
  have t': "t = c_ticks c + y"
    using t v a q by (auto simp: ticks_to_sensor_def Let_def cmul_def cdiv_def int32_Some v_def split: bind_splits if_splits)
  have y0: "0 \<le> y" using d v0 by (simp add: y_def pos_imp_zdiv_nonneg_iff)
  have "x = l_offset (c_loc c) + (v * y) sdiv 100"
    using x a t' by (auto simp: offset_at_def cmul_def cdiv_def int32_Some v_def split: bind_splits if_splits)
  also have "(v * y) sdiv 100 = v * y div 100"
    using v0 y0 by (simp add: signed_divide_int_def sgn_if)
  finally have x': "x = l_offset (c_loc c) + v * y div 100" .
  have "100 * dist = v * y + 100 * dist mod v" by (simp add: y_def)
  moreover have "0 \<le> 100 * dist mod v" "100 * dist mod v < v" using v0 by auto
  ultimately have "v * y \<le> 100 * dist" "100 * dist < v * y + v" by linarith+
  then have "v * y div 100 \<le> dist" "dist \<le> v * y div 100 + v div 100 + 1" by linarith+
  then show ?thesis using x' t' y0 by (simp add: v_def)
qed

theorem prediction_agrees_with_movement_witness:
  "ticks_to_sensor (\<lambda>x. x) (zero_coordinates\<lparr>c_velocity := 30000, c_target_velocity := 30000\<rparr>) 23100 = Some 77 \<and>
    23100 \<le> 23100 + (30000 :: int) div 100 + 1"
proof -
  let ?c = "zero_coordinates\<lparr>c_velocity := 30000, c_target_velocity := 30000\<rparr>"
  have t: "ticks_to_sensor (\<lambda>x. x) ?c 23100 = Some 77"
    by (simp add: ticks_to_sensor_def zero_coordinates_def cmul_def cdiv_def int32_def signed_divide_int_def)
  have x: "offset_at 77 (c_velocity ?c) ?c = Some 23100"
    by (simp add: offset_at_def zero_coordinates_def cmul_def cdiv_def int32_def signed_divide_int_def)
  show ?thesis using prediction_agrees_with_movement [OF t _ _ _ _ x] t by (simp add: zero_coordinates_def)
qed

text \<open>The speed found is free of collisions and every higher one is not; -1 is found when all of them collide.\<close>

lemma speeds_loop_highest:
  assumes "speeds_loop f current (List.rev [1..n]) = Some (r, j)"
  shows "(\<forall>k. j < k \<longrightarrow> 1 \<le> k \<longrightarrow> k \<le> n \<longrightarrow> f k = Some True) \<and>
    (j = -1 \<and> r \<or> 1 \<le> j \<and> j \<le> n \<and> f j = Some False \<and> r = (j = current))"
  using assms
proof (induction "nat n" arbitrary: n)
  case (Suc m)
  then have n: "List.rev [1..n] = n # List.rev [1..n - 1]" by (simp add: upto_rec2)
  obtain h where h: "f n = Some h" using Suc.prems by (auto simp: n split: bind_splits)
  show ?case
  proof (cases h)
    case True
    then have "speeds_loop f current (List.rev [1..n - 1]) = Some (r, j)" using Suc.prems h by (simp add: n)
    from Suc.hyps(1) [OF _ this] Suc.hyps(2) show ?thesis using h True by force
  next
    case False
    then show ?thesis using Suc.prems Suc.hyps(2) h by (auto simp: n)
  qed
qed auto

lemma highest_speed_free:
  assumes "will_collide_with_other_train T distance c others turnouts vm sdm t tr_data = Some (r, j)"
  shows "(\<forall>k. j < k \<longrightarrow> 1 \<le> k \<longrightarrow> k \<le> 14 \<longrightarrow>
      rollout_at_speed T distance c others turnouts vm sdm t tr_data k = Some True) \<and>
    (j = -1 \<and> r \<or> 1 \<le> j \<and> j \<le> 14 \<and>
      rollout_at_speed T distance c others turnouts vm sdm t tr_data j = Some False \<and> r = (j = c_current_speed c))"
  using assms unfolding will_collide_with_other_train_def by (rule speeds_loop_highest)

text \<open>A moving train that is to stop, whose acceleration has been rounded to 0, ends the prediction with a division by zero.\<close>

lemma prediction_divides_by_zero:
  "c_velocity c \<noteq> 0 \<Longrightarrow> c_target_velocity c = 0 \<Longrightarrow> c_acceleration c = 0 \<Longrightarrow> ticks_to_sensor root c dist = None"
  by (simp add: ticks_to_sensor_def cmul_def int32_def)

end
