(* ===== verification/Couriers.thy ===== *)
theory Couriers
  imports Prediction
begin

text \<open>
  The couriers of the conductors, \<open>usr/train/coordinate_courier.c\<close> and
  \<open>usr/train/multi_coordinate_courier.c\<close>: they poll the coordinates of the trains and tell the
  conductor when a place it asked about is reached. The two have the same slots for requests, 10 and
  20; the shared code is modelled once, with the number of slots \<open>N\<close> as an argument.

  A notification is a struct with two unions. \<open>subject\<close> is a location or two trains, the second of which
  lies where the offset is; \<open>action\<close> is two words, and the number and state of a switch are the low two
  bytes of the first.
\<close>

definition MAX_LOCATIONS_TO_OBSERVE :: nat where "MAX_LOCATIONS_TO_OBSERVE = 10"
definition MULTI_MAX_LOCATIONS_TO_OBSERVE :: nat where
  "MULTI_MAX_LOCATIONS_TO_OBSERVE = 2 * MAX_LOCATIONS_TO_OBSERVE"
definition TOO_MANY_NOTIFICATION_REQUESTS :: int where "TOO_MANY_NOTIFICATION_REQUESTS = -1"

datatype notification_type = GOT_LOST | LOCATION_CHANGED | LOCATION_TO_SWITCH | LOCATION_TO_STOP
  | LOCATION_ANY | SPACING | LOCATION_SLOWDOWN | LOCATION_UNBLOCKED

datatype subject = SUBJECT_LOC location | SUBJECT_TRAINS int int

record location_notification =
  ln_subject :: subject
  ln_reason :: notification_type
  ln_action :: "u32 \<times> u32"

fun subject_loc :: "subject \<Rightarrow> location option" where
  "subject_loc (SUBJECT_LOC l) = Some l"
| "subject_loc (SUBJECT_TRAINS a b) = None"

text \<open>Writing \<open>trains[0]\<close> only.\<close>

fun first_train_of :: "int \<Rightarrow> subject \<Rightarrow> subject" where
  "first_train_of t (SUBJECT_LOC l) = SUBJECT_TRAINS t (l_offset l)"
| "first_train_of t (SUBJECT_TRAINS a b) = SUBJECT_TRAINS t b"

definition switch_to_switch :: "u32 \<times> u32 \<Rightarrow> u8 \<times> u8" where
  "switch_to_switch a = (ucast (fst a), ucast (drop_bit 8 (fst a)))"

definition set_switch_to_switch :: "u8 \<times> u8 \<Rightarrow> u32 \<times> u32 \<Rightarrow> u32 \<times> u32" where
  "set_switch_to_switch s a = (push_bit 16 (drop_bit 16 (fst a)) OR push_bit 8 (ucast (snd s)) OR ucast (fst s), snd a)"

section \<open>Observing\<close>

text \<open>The first slot in use whose location the train has reached.\<close>

fun first_reached ::
  "track \<Rightarrow> location \<Rightarrow> location_notification list \<Rightarrow> bool list \<Rightarrow> nat list \<Rightarrow> nat option option" where
  "first_reached T loc los iss [] = Some None"
| "first_reached T loc los iss (i # is) = do {
     used \<leftarrow> array_get iss i;
     reached \<leftarrow> (if used then do {
         o1 \<leftarrow> array_get los i;
         l \<leftarrow> subject_loc (ln_subject o1);
         location_is_ge T loc l
       }
       else Some False);
     if reached then Some (Some i) else first_reached T loc los iss is
   }"

definition to_notification ::
  "nat \<Rightarrow> track \<Rightarrow> coordinates \<Rightarrow> coordinates \<Rightarrow> location_notification list \<Rightarrow> bool list \<Rightarrow> location_notification \<Rightarrow>
   (bool list \<times> location_notification \<times> bool) option" where
  "to_notification N T c previous los iss n =
     (if l_node (c_loc c) = None then Some (iss, n\<lparr>ln_reason := GOT_LOST\<rparr>, True)
      else do {
        let n1 = n\<lparr>ln_subject := SUBJECT_LOC (c_loc c)\<rparr>;
        r \<leftarrow> first_reached T (c_loc c) los iss [0..<N];
        case r of
          Some i \<Rightarrow> do {
            o1 \<leftarrow> array_get los i;
            iss' \<leftarrow> array_set iss i False;
            Some (iss', n1\<lparr>ln_reason := ln_reason o1,
              ln_action := set_switch_to_switch (switch_to_switch (ln_action o1)) (ln_action n1)\<rparr>, True)
          }
        | None \<Rightarrow>
            if l_node (c_loc c) \<noteq> l_node (c_loc previous) then Some (iss, n1\<lparr>ln_reason := LOCATION_CHANGED\<rparr>, True)
            else Some (iss, n1, False)
      })"

definition coordinates_to_notification ::
  "track \<Rightarrow> coordinates \<Rightarrow> coordinates \<Rightarrow> location_notification list \<Rightarrow> bool list \<Rightarrow> location_notification \<Rightarrow>
   (bool list \<times> location_notification \<times> bool) option" where
  "coordinates_to_notification = to_notification MAX_LOCATIONS_TO_OBSERVE"

definition multi_coordinates_to_notification ::
  "track \<Rightarrow> coordinates \<Rightarrow> coordinates \<Rightarrow> location_notification list \<Rightarrow> bool list \<Rightarrow> location_notification \<Rightarrow>
   (bool list \<times> location_notification \<times> bool) option" where
  "multi_coordinates_to_notification = to_notification MULTI_MAX_LOCATIONS_TO_OBSERVE"

section \<open>Requests\<close>

text \<open>
  One request against the slots: it may be a duplicate of one in use, and it may override some, which
  are given up: the stop there was, or the same switch in the same direction.
\<close>

definition overrides :: "location_notification \<Rightarrow> location_notification \<Rightarrow> bool" where
  "overrides r o1 \<longleftrightarrow> ln_reason o1 = LOCATION_TO_STOP \<and> ln_reason r = LOCATION_TO_STOP \<or>
     ln_reason o1 = LOCATION_TO_SWITCH \<and> ln_reason r = LOCATION_TO_SWITCH \<and>
     switch_to_switch (ln_action o1) = switch_to_switch (ln_action r)"

definition near_duplicate :: "location_notification \<Rightarrow> location_notification \<Rightarrow> bool option" where
  "near_duplicate r o1 = do {
     a \<leftarrow> subject_loc (ln_subject r);
     b \<leftarrow> subject_loc (ln_subject o1);
     if l_node a = l_node b then do {
       d \<leftarrow> int32 (l_offset a - l_offset b);
       m \<leftarrow> cabs d;
       Some (m < 300)
     }
     else Some False
   }"

fun check_slots ::
  "location_notification \<Rightarrow> location_notification list \<Rightarrow> nat list \<Rightarrow> bool list \<Rightarrow> bool \<Rightarrow> bool \<Rightarrow>
   (bool list \<times> bool \<times> bool) option" where
  "check_slots r los [] iss dup override = Some (iss, dup, override)"
| "check_slots r los (k # ks) iss dup override = do {
     used \<leftarrow> array_get iss k;
     if used then do {
       o1 \<leftarrow> array_get los k;
       d \<leftarrow> near_duplicate r o1;
       let dup' = (dup \<or> d);
       iss' \<leftarrow> (if overrides r o1 then array_set iss k False else Some iss);
       let override' = (override \<or> overrides r o1);
       if dup' \<and> \<not> override' then Some (iss', dup', override') else check_slots r los ks iss' dup' override'
     }
     else check_slots r los ks iss dup override
   }"

text \<open>The search for a free slot goes on where the last one ended: \<open>j\<close>.\<close>

fun add_loop ::
  "nat \<Rightarrow> location_notification list \<Rightarrow> nat \<Rightarrow> location_notification list \<Rightarrow> bool list \<Rightarrow>
   (int \<times> location_notification list \<times> bool list) option" where
  "add_loop N [] j los iss = Some (0, los, iss)"
| "add_loop N (r # rs) j los iss = do {
     guard_opt (ln_reason r \<noteq> LOCATION_ANY);
     if j \<ge> N then Some (TOO_MANY_NOTIFICATION_REQUESTS, los, iss)
     else do {
       (iss', dup, override) \<leftarrow> check_slots r los [0..<N] iss False False;
       if dup \<and> \<not> override then add_loop N rs j los iss'
       else case find (\<lambda>i. \<not> iss' ! i) [j..<N] of
         None \<Rightarrow> add_loop N rs N los iss'
       | Some i \<Rightarrow> add_loop N rs i (los[i := r]) (iss'[i := True])
     }
   }"

definition add_requests ::
  "nat \<Rightarrow> location_notification list \<Rightarrow> int \<Rightarrow> location_notification list \<Rightarrow> bool list \<Rightarrow>
   (int \<times> location_notification list \<times> bool list) option" where
  "add_requests N notifications n_requests los iss = do {
     guard_opt (n_requests \<le> int N);
     rs \<leftarrow> array_prefix notifications n_requests;
     add_loop N rs 0 los iss
   }"

definition add_notification_requests ::
  "location_notification list \<Rightarrow> int \<Rightarrow> location_notification list \<Rightarrow> bool list \<Rightarrow>
   (int \<times> location_notification list \<times> bool list) option" where
  "add_notification_requests = add_requests MAX_LOCATIONS_TO_OBSERVE"

definition multi_add_notification_requests ::
  "location_notification list \<Rightarrow> int \<Rightarrow> location_notification list \<Rightarrow> bool list \<Rightarrow>
   (int \<times> location_notification list \<times> bool list) option" where
  "multi_add_notification_requests = add_requests MULTI_MAX_LOCATIONS_TO_OBSERVE"

definition drop_all_notifications :: "bool list" where
  "drop_all_notifications = replicate MAX_LOCATIONS_TO_OBSERVE False"

definition multi_drop_all_notifications :: "bool list" where
  "multi_drop_all_notifications = replicate MULTI_MAX_LOCATIONS_TO_OBSERVE False"

section \<open>One poll\<close>

text \<open>What the conductor replies to a notification.\<close>

record notification_request =
  nr_notifications :: "location_notification list"
  nr_num_requests :: int
  nr_drop_existing :: bool

text \<open>The part of the couriers' state the two share.\<close>

record courier =
  co_last :: coordinates
  co_observed :: location_notification
  co_slots :: "location_notification list"
  co_set :: "bool list"
  co_find_any :: bool
  co_first_run :: bool

definition word_of :: "int \<Rightarrow> u32" where "word_of i = of_int i"

text \<open>
  Copying the coordinates, 32 bytes, over the location of a notification: the speeds land in its action,
  the ticks in its reason, which is set next, the rest beyond it in the message.
\<close>

definition copy_coordinates :: "coordinates \<Rightarrow> location_notification \<Rightarrow> location_notification" where
  "copy_coordinates c n = n\<lparr>ln_subject := SUBJECT_LOC (c_loc c),
     ln_action := (word_of (c_current_speed c), word_of (c_last_speed c))\<rparr>"

text \<open>
  The poll: the notification sent to the conductor, if any, and the state after its reply. \<open>request\<close> is
  the reply; its type is asserted.
\<close>

definition courier_poll ::
  "nat \<Rightarrow> track \<Rightarrow> coordinates \<Rightarrow> notification_request \<Rightarrow> courier \<Rightarrow> (courier \<times> location_notification option) option" where
  "courier_poll N T c request s = do {
     (iss1, n1, got_not) \<leftarrow> to_notification N T c (co_last s) (co_slots s) (co_set s) (co_observed s);
     let lost = (l_node (c_loc c) = None);
     let has_fresh_loss = (lost \<and> l_node (c_loc (co_last s)) \<noteq> None);
     if co_find_any s \<and> \<not> lost \<or> co_first_run s \<or> got_not \<and> (\<not> lost \<or> has_fresh_loss) then do {
       let any1 = (co_find_any s \<or> has_fresh_loss);
       let n2 = (if any1 \<and> \<not> lost then (copy_coordinates c n1)\<lparr>ln_reason := LOCATION_ANY\<rparr> else n1);
       let any2 = (any1 \<and> lost);
       let n3 = (if co_first_run s then n2\<lparr>ln_reason := (if lost then GOT_LOST else LOCATION_ANY)\<rparr> else n2);
       let iss2 = (if nr_drop_existing request then replicate N False else iss1);
       (r, los, iss3) \<leftarrow> add_requests N (nr_notifications request) (nr_num_requests request) (co_slots s) iss2;
       guard_opt (r \<noteq> TOO_MANY_NOTIFICATION_REQUESTS);
       Some (s\<lparr>co_last := c, co_observed := n3, co_slots := los, co_set := iss3, co_find_any := any2,
         co_first_run := False\<rparr>, Some n3)
     }
     else Some (s\<lparr>co_observed := n1, co_set := iss1\<rparr>, None)
   }"

section \<open>The courier of one train\<close>

record coordinate_courier =
  cc_courier :: courier
  cc_is_blocked :: bool
  cc_last_block :: int
  cc_before_blocked_speed :: int

text \<open>What the servers tell in one round; the members of the group are those of the first group.\<close>

record courier_env =
  ce_coords :: coordinates
  ce_request :: notification_request
  ce_num_groups :: int
  ce_time :: int
  ce_group_coords :: "coordinates list"
  ce_turnouts :: "turnout_state list"
  ce_velocity_model :: "u32 list"
  ce_stopping_model :: "u32 list"
  ce_prediction_time :: int
  ce_tr_data :: train_data

definition BLOCK_SD :: int where "BLOCK_SD = 150000"

definition set_distance0 :: "int \<Rightarrow> u32 \<times> u32 \<Rightarrow> u32 \<times> u32" where "set_distance0 d a = (word_of d, snd a)"
definition set_distance1 :: "int \<Rightarrow> u32 \<times> u32 \<Rightarrow> u32 \<times> u32" where "set_distance1 d a = (fst a, word_of d)"

text \<open>The check for trains of the group in the way, at most every half second.\<close>

definition check_blocked ::
  "track \<Rightarrow> int \<Rightarrow> courier_env \<Rightarrow> coordinate_courier \<Rightarrow> (coordinate_courier \<times> location_notification option) option" where
  "check_blocked T train e s =
     (if ce_num_groups e > 0 then do {
        due \<leftarrow> int32 (cc_last_block s + 50);
        if ce_time e > due then do {
          let n = co_observed (cc_courier s);
          let n1 = n\<lparr>ln_action := set_distance1 (c_current_speed (ce_coords e)) (ln_action n)\<rparr>;
          (_, max_speed) \<leftarrow> will_collide_with_other_train T BLOCK_SD (ce_coords e) (ce_group_coords e)
            (ce_turnouts e) (ce_velocity_model e) (ce_stopping_model e) (ce_prediction_time e) (ce_tr_data e);
          let will_collide = (max_speed < cc_before_blocked_speed s);
          let n2 = n1\<lparr>ln_subject := first_train_of train (ln_subject n1),
            ln_reason := (if will_collide then LOCATION_SLOWDOWN else LOCATION_UNBLOCKED),
            ln_action := set_distance0 (if will_collide then max_speed else cc_before_blocked_speed s) (ln_action n1)\<rparr>;
          Some (s\<lparr>cc_courier := (cc_courier s)\<lparr>co_observed := n2\<rparr>, cc_is_blocked := will_collide,
            cc_last_block := ce_time e\<rparr>, Some n2)
        }
        else Some (s, None)
      }
      else Some (s, None))"

definition coordinate_courier_round ::
  "track \<Rightarrow> int \<Rightarrow> courier_env \<Rightarrow> coordinate_courier \<Rightarrow> (coordinate_courier \<times> location_notification list) option" where
  "coordinate_courier_round T train e s = do {
     (k, sent) \<leftarrow> courier_poll MAX_LOCATIONS_TO_OBSERVE T (ce_coords e) (ce_request e) (cc_courier s);
     let blocked = (if sent \<noteq> None \<and> nr_drop_existing (ce_request e) then False else cc_is_blocked s);
     (s', told) \<leftarrow> check_blocked T train e (s\<lparr>cc_courier := k, cc_is_blocked := blocked\<rparr>);
     Some (s', (case sent of None \<Rightarrow> [] | Some n \<Rightarrow> [n]) @ (case told of None \<Rightarrow> [] | Some n \<Rightarrow> [n]))
   }"

text \<open>At the start: \<open>time\<close> is the clock, \<open>c\<close> the coordinates; the other arguments are what the stack held.\<close>

definition no_location :: "coordinates \<Rightarrow> coordinates" where
  "no_location c = c\<lparr>c_loc := (c_loc c)\<lparr>l_node := None\<rparr>\<rparr>"

definition coordinate_courier_init ::
  "coordinates \<Rightarrow> location_notification \<Rightarrow> location_notification list \<Rightarrow> int \<Rightarrow> coordinates \<Rightarrow> coordinate_courier" where
  "coordinate_courier_init stack observed slots time c = \<lparr>cc_courier = \<lparr>co_last = no_location stack,
     co_observed = observed, co_slots = slots, co_set = drop_all_notifications, co_find_any = False,
     co_first_run = True\<rparr>, cc_is_blocked = False, cc_last_block = time,
     cc_before_blocked_speed = c_current_speed c\<rparr>"

section \<open>The courier of a group\<close>

definition SPACING_NOTIFICATION_PERIOD :: int where "SPACING_NOTIFICATION_PERIOD = 25"

text \<open>\<open>spacing\<close> is the parameter, in mm.\<close>

definition get_effective_spacing :: "track \<Rightarrow> int \<Rightarrow> coordinates \<Rightarrow> coordinates \<Rightarrow> int \<Rightarrow> int option" where
  "get_effective_spacing T spacing in_front behind trains_between =
     (if l_node (c_loc in_front) = None \<and> l_node (c_loc behind) = None then do {
        d \<leftarrow> int32 (l_offset (c_loc in_front) - l_offset (c_loc behind));
        q \<leftarrow> cdiv d 100;
        int32 (spacing + q)
      }
      else do {
        actual_distance \<leftarrow> distance_between_locations T (c_loc behind) (c_loc in_front);
        if actual_distance < 0 then Some actual_distance
        else do {
          s \<leftarrow> cmul spacing 100;
          distance_between_pickups \<leftarrow> int32 (s + TRAIN_LENGTH);
          x \<leftarrow> cmul distance_between_pickups trains_between;
          effective_distance \<leftarrow> int32 (actual_distance - x);
          y \<leftarrow> int32 (effective_distance - TRAIN_LENGTH);
          cdiv y 100
        }
      })"

record multi_courier =
  mc_courier :: courier
  mc_last_spacing :: "int list"

text \<open>The polls of the members in turn: for each its coordinates and what the conductor replies.\<close>

fun poll_members ::
  "track \<Rightarrow> (coordinates \<times> notification_request) list \<Rightarrow> courier \<Rightarrow> (courier \<times> location_notification list) option" where
  "poll_members T [] s = Some (s, [])"
| "poll_members T ((c, request) # rest) s = do {
     (s1, sent) \<leftarrow> courier_poll MULTI_MAX_LOCATIONS_TO_OBSERVE T c request s;
     (s2, ev) \<leftarrow> poll_members T rest s1;
     Some (s2, (case sent of None \<Rightarrow> ev | Some n \<Rightarrow> n # ev))
   }"

text \<open>The spacing between the members \<open>i\<close> and \<open>i + 1\<close>; \<open>pairs\<close> has the coordinates read for the two.\<close>

definition check_pair ::
  "track \<Rightarrow> int \<Rightarrow> int \<Rightarrow> int \<Rightarrow> coordinates \<Rightarrow> int list \<Rightarrow> nat \<Rightarrow> coordinates \<Rightarrow> coordinates \<Rightarrow> multi_courier \<Rightarrow>
   (multi_courier \<times> location_notification option) option" where
  "check_pair T spacing spacing_error time first members i leader follower s = do {
     leader_t \<leftarrow> array_get members i;
     follower_t \<leftarrow> array_get members (i + 1);
     to_first \<leftarrow> get_effective_spacing T spacing first follower (int i);
     to_leader \<leftarrow> get_effective_spacing T spacing leader follower 0;
     let d = max to_first to_leader;
     hi \<leftarrow> int32 (spacing + spacing_error);
     lo \<leftarrow> int32 (spacing - spacing_error);
     previous \<leftarrow> array_get (mc_last_spacing s) i;
     due \<leftarrow> int32 (time - SPACING_NOTIFICATION_PERIOD);
     if d > 0 \<and> (d > hi \<or> d < lo) \<and> previous < due then do {
       ls \<leftarrow> array_set (mc_last_spacing s) i time;
       let n = (co_observed (mc_courier s))\<lparr>ln_subject := SUBJECT_TRAINS leader_t follower_t, ln_reason := SPACING,
         ln_action := (word_of d, word_of spacing)\<rparr>;
       Some (s\<lparr>mc_courier := (mc_courier s)\<lparr>co_observed := n\<rparr>, mc_last_spacing := ls\<rparr>, Some n)
     }
     else Some (s, None)
   }"

fun check_pairs ::
  "track \<Rightarrow> int \<Rightarrow> int \<Rightarrow> int \<Rightarrow> coordinates \<Rightarrow> int list \<Rightarrow> nat \<Rightarrow> (coordinates \<times> coordinates) list \<Rightarrow> multi_courier \<Rightarrow>
   (multi_courier \<times> location_notification list) option" where
  "check_pairs T spacing spacing_error time first members i [] s = Some (s, [])"
| "check_pairs T spacing spacing_error time first members i ((leader, follower) # pairs) s = do {
     (s1, told) \<leftarrow> check_pair T spacing spacing_error time first members i leader follower s;
     (s2, ev) \<leftarrow> check_pairs T spacing spacing_error time first members (i + 1) pairs s1;
     Some (s2, (case told of None \<Rightarrow> ev | Some n \<Rightarrow> n # ev))
   }"

definition multi_courier_round ::
  "track \<Rightarrow> int \<Rightarrow> int \<Rightarrow> int \<Rightarrow> int list \<Rightarrow> (coordinates \<times> notification_request) list \<Rightarrow> coordinates \<Rightarrow>
   (coordinates \<times> coordinates) list \<Rightarrow> multi_courier \<Rightarrow> (multi_courier \<times> location_notification list) option" where
  "multi_courier_round T spacing spacing_error time members polls first pairs s = do {
     guard_opt (length polls = length members \<and> length pairs = length members - 1);
     (k, ev1) \<leftarrow> poll_members T polls (mc_courier s);
     (s', ev2) \<leftarrow> check_pairs T spacing spacing_error time first members 0 pairs (s\<lparr>mc_courier := k\<rparr>);
     Some (s', ev1 @ ev2)
   }"

definition multi_courier_init ::
  "coordinates \<Rightarrow> location_notification \<Rightarrow> location_notification list \<Rightarrow> nat \<Rightarrow> multi_courier" where
  "multi_courier_init stack observed slots num_members = \<lparr>mc_courier = \<lparr>co_last = no_location stack,
     co_observed = observed, co_slots = slots, co_set = multi_drop_all_notifications, co_find_any = False,
     co_first_run = True\<rparr>, mc_last_spacing = replicate num_members (- (SPACING_NOTIFICATION_PERIOD + 1))\<rparr>"

text \<open>The courier of the train models asks for an update of every active train, every two seconds.\<close>

definition TRAIN_MODEL_COURIER_REFRESH_PERIOD :: int where "TRAIN_MODEL_COURIER_REFRESH_PERIOD = 200"

definition train_model_courier_round :: "int list \<Rightarrow> int \<Rightarrow> cmd_event list option" where
  "train_model_courier_round active_trains num_active_trains = do {
     trains \<leftarrow> array_prefix active_trains num_active_trains;
     Some (map (\<lambda>train. TSC (REQUEST_COORD_UPDATE (char_field train))) trains @ [DELAY TRAIN_MODEL_COURIER_REFRESH_PERIOD])
   }"

section \<open>The slots\<close>

text \<open>No two requests in use are for the same thing: at most one stop, at most one of each switch and direction.\<close>

definition slots_ok :: "nat \<Rightarrow> location_notification list \<Rightarrow> bool list \<Rightarrow> bool" where
  "slots_ok N los iss \<longleftrightarrow> length los = N \<and> length iss = N \<and>
     (\<forall>i < N. \<forall>j < N. i \<noteq> j \<longrightarrow> iss ! i \<longrightarrow> iss ! j \<longrightarrow> \<not> overrides (los ! i) (los ! j))"

lemma overrides_sym: "overrides a b \<longleftrightarrow> overrides b a"
  by (auto simp: overrides_def)

lemma slots_ok_fewer:
  assumes "slots_ok N los iss" "length iss' = length iss" "\<And>k. k < N \<Longrightarrow> iss' ! k \<Longrightarrow> iss ! k"
  shows "slots_ok N los iss'"
  using assms unfolding slots_ok_def by metis

lemma check_slots_effect:
  assumes "check_slots r los ks iss dup ovr = Some (iss', dup', ovr')" "distinct ks"
  shows "length iss' = length iss" "\<And>k. k < length iss \<Longrightarrow> iss' ! k \<Longrightarrow> iss ! k"
    "\<And>k. k \<notin> set ks \<Longrightarrow> iss' ! k = iss ! k"
    "\<not> (dup' \<and> \<not> ovr') \<Longrightarrow> k \<in> set ks \<Longrightarrow> iss' ! k \<Longrightarrow> \<not> overrides r (los ! k)"
proof -
  have "length iss' = length iss \<and> (\<forall>k < length iss. iss' ! k \<longrightarrow> iss ! k) \<and> (\<forall>k. k \<notin> set ks \<longrightarrow> iss' ! k = iss ! k) \<and>
    (\<not> (dup' \<and> \<not> ovr') \<longrightarrow> (\<forall>k \<in> set ks. iss' ! k \<longrightarrow> \<not> overrides r (los ! k)))"
    using assms
  proof (induction ks arbitrary: iss dup ovr)
    case (Cons k ks)
    obtain u where u: "array_get iss k = Some u" using Cons.prems(1) by (auto split: bind_splits)
    then have k: "k < length iss" "iss ! k = u" by (auto simp: array_get_eq_Some)
    have kn: "k \<notin> set ks" "distinct ks" using Cons.prems(2) by auto
    show ?case
    proof (cases u)
      case False
      then have "check_slots r los ks iss dup ovr = Some (iss', dup', ovr')" using Cons.prems(1) u by simp
      from Cons.IH [OF this kn(2)] show ?thesis using k False kn(1) by auto
    next
      case True
      obtain o1 d where o1: "array_get los k = Some o1" "near_duplicate r o1 = Some d"
        using Cons.prems(1) u True by (auto split: bind_splits)
      then have lo: "los ! k = o1" by (simp add: array_get_eq_Some)
      define iss1 where "iss1 = (if overrides r o1 then iss[k := False] else iss)"
      define ov where "ov = (ovr \<or> overrides r o1)"
      have upd: "(if overrides r o1 then array_set iss k False else Some iss) = Some iss1"
        using k(1) by (simp add: iss1_def)
      have l1: "length iss1 = length iss" by (simp add: iss1_def)
      have s1: "iss1 ! j \<longrightarrow> iss ! j" if "j < length iss" for j
        using that by (cases "j = k") (auto simp: iss1_def)
      have s2: "iss1 ! j = iss ! j" if "j \<noteq> k" for j using that by (auto simp: iss1_def)
      have s3: "iss1 ! k \<longrightarrow> \<not> overrides r (los ! k)" using k(1) lo by (auto simp: iss1_def)
      have c: "(if (dup \<or> d) \<and> \<not> ov then Some (iss1, dup \<or> d, ov) else check_slots r los ks iss1 (dup \<or> d) ov) =
          Some (iss', dup', ovr')"
        using Cons.prems(1) u True o1 upd by (auto simp: Let_def ov_def)
      show ?thesis
      proof (cases "(dup \<or> d) \<and> \<not> ov")
        case True
        then show ?thesis using c l1 s1 s2 by auto
      next
        case False
        then have "check_slots r los ks iss1 (dup \<or> d) ov = Some (iss', dup', ovr')" using c by (simp only: if_False)
        from Cons.IH [OF this kn(2)] show ?thesis using l1 s1 s2 s3 kn(1) k(1) by auto
      qed
    qed
  qed simp
  then show "length iss' = length iss" "\<And>k. k < length iss \<Longrightarrow> iss' ! k \<Longrightarrow> iss ! k"
    "\<And>k. k \<notin> set ks \<Longrightarrow> iss' ! k = iss ! k"
    "\<not> (dup' \<and> \<not> ovr') \<Longrightarrow> k \<in> set ks \<Longrightarrow> iss' ! k \<Longrightarrow> \<not> overrides r (los ! k)" by blast+
qed

lemma slots_ok_store:
  assumes ok: "slots_ok N los iss" and c: "check_slots r los [0..<N] iss False False = Some (iss', dup, ovr)"
    and nd: "\<not> (dup \<and> \<not> ovr)" and i: "i < N"
  shows "slots_ok N (los[i := r]) (iss'[i := True])"
proof -
  have l: "length los = N" "length iss = N" using ok by (simp_all add: slots_ok_def)
  note e = check_slots_effect [OF c distinct_upt]
  have ok': "slots_ok N los iss'" by (rule slots_ok_fewer [OF ok e(1)]) (use e(2) l in simp)
  have free: "\<not> overrides r (los ! k)" if "k < N" "iss' ! k" for k using e(4) [OF nd] that by simp
  have l': "length iss' = N" using e(1) l by simp
  show ?thesis unfolding slots_ok_def
  proof (intro conjI allI impI)
    fix a b assume "a < N" "b < N" "a \<noteq> b" "iss'[i := True] ! a" "iss'[i := True] ! b"
    then show "\<not> overrides (los[i := r] ! a) (los[i := r] ! b)"
      using ok' free l l' i overrides_sym [of "los ! a" r] unfolding slots_ok_def
      by (cases "a = i"; cases "b = i") (auto simp: nth_list_update)
  qed (use l l' in simp_all)
qed

lemma add_loop_ok:
  "slots_ok N los iss \<Longrightarrow> add_loop N rs j los iss = Some (r, los', iss') \<Longrightarrow> slots_ok N los' iss'"
proof (induction rs arbitrary: j los iss)
  case (Cons x rs)
  show ?case
  proof (cases "j \<ge> N")
    case True
    then show ?thesis using Cons.prems by (auto split: bind_splits)
  next
    case False
    obtain iss1 dup ovr where c: "check_slots x los [0..<N] iss False False = Some (iss1, dup, ovr)"
      using Cons.prems(2) False by (auto split: bind_splits)
    note e = check_slots_effect [OF c distinct_upt]
    have ok1: "slots_ok N los iss1"
      by (rule slots_ok_fewer [OF Cons.prems(1) e(1)]) (use e(2) Cons.prems(1) in \<open>simp add: slots_ok_def\<close>)
    have rest: "(if dup \<and> \<not> ovr then add_loop N rs j los iss1
        else case find (\<lambda>i. \<not> iss1 ! i) [j..<N] of None \<Rightarrow> add_loop N rs N los iss1
          | Some i \<Rightarrow> add_loop N rs i (los[i := x]) (iss1[i := True])) = Some (r, los', iss')"
      using Cons.prems(2) False c by (auto split: bind_splits)
    show ?thesis
    proof (cases "dup \<and> \<not> ovr")
      case True
      then show ?thesis using rest Cons.IH [OF ok1] by simp
    next
      case nd: False
      show ?thesis
      proof (cases "find (\<lambda>i. \<not> iss1 ! i) [j..<N]")
        case None
        then show ?thesis using rest nd Cons.IH [OF ok1] by simp
      next
        case (Some i)
        then have "i < N" by (auto simp: find_Some_iff)
        from slots_ok_store [OF Cons.prems(1) c nd this] Cons.IH rest nd Some show ?thesis by simp
      qed
    qed
  qed
qed simp

lemma add_requests_ok:
  "slots_ok N los iss \<Longrightarrow> add_requests N ns n los iss = Some (r, los', iss') \<Longrightarrow> slots_ok N los' iss'"
  by (auto simp: add_requests_def intro: add_loop_ok split: bind_splits)

lemma first_reached_Some:
  "first_reached T loc los iss is = Some (Some i) \<Longrightarrow> i \<in> set is \<and> i < length iss \<and> i < length los \<and> iss ! i \<and>
    (\<exists>l. ln_subject (los ! i) = SUBJECT_LOC l \<and> location_is_ge T loc l = Some True)"
proof (induction "is")
  case (Cons k ks)
  then show ?case
    by (auto simp: array_get_eq_Some split: bind_splits if_splits elim: subject_loc.elims)
qed simp

lemma to_notification_ok:
  assumes "to_notification N T c previous los iss n = Some (iss', n', b)" "slots_ok N los iss"
  shows "slots_ok N los iss'"
proof -
  have "iss' = iss \<or> (\<exists>i < length iss. iss' = iss[i := False])"
    using assms(1) by (auto simp: to_notification_def Let_def array_set_eq_Some split: bind_splits option.splits if_splits)
  moreover have "slots_ok N los (iss[i := False])" if "i < length iss" for i
  proof (rule slots_ok_fewer [OF assms(2)])
    fix k assume "k < N" "iss[i := False] ! k"
    then show "iss ! k" using that by (cases "k = i") auto
  qed simp
  ultimately show ?thesis using assms(2) by blast
qed

definition courier_ok :: "nat \<Rightarrow> courier \<Rightarrow> bool" where
  "courier_ok N s \<longleftrightarrow> slots_ok N (co_slots s) (co_set s)"

lemma slots_ok_none: "length los = N \<Longrightarrow> slots_ok N los (replicate N False)"
  by (simp add: slots_ok_def)

lemma courier_poll_ok:
  assumes ok: "courier_ok N s" and st: "courier_poll N T c request s = Some (s', sent)"
  shows "courier_ok N s'"
proof -
  obtain iss1 n1 g where t: "to_notification N T c (co_last s) (co_slots s) (co_set s) (co_observed s) = Some (iss1, n1, g)"
    using st by (auto simp: courier_poll_def split: bind_splits)
  have ok1: "slots_ok N (co_slots s) iss1" using to_notification_ok [OF t] ok by (simp add: courier_ok_def)
  then have ok2: "slots_ok N (co_slots s) (if nr_drop_existing request then replicate N False else iss1)"
    using slots_ok_none by (simp add: slots_ok_def)
  show ?thesis using st t ok1 add_requests_ok [OF ok2]
    by (auto simp: courier_poll_def courier_ok_def Let_def split: bind_splits if_splits)
qed

text \<open>The states the two couriers can be in.\<close>

inductive courier_run :: "track \<Rightarrow> int \<Rightarrow> coordinate_courier \<Rightarrow> bool" for T train where
  init: "length slots = MAX_LOCATIONS_TO_OBSERVE \<Longrightarrow>
    courier_run T train (coordinate_courier_init stack observed slots time c)"
| round: "courier_run T train s \<Longrightarrow> coordinate_courier_round T train e s = Some (s', ev) \<Longrightarrow>
    courier_run T train s'"

inductive multi_courier_run :: "track \<Rightarrow> int list \<Rightarrow> multi_courier \<Rightarrow> bool" for T members where
  init: "length slots = MULTI_MAX_LOCATIONS_TO_OBSERVE \<Longrightarrow>
    multi_courier_run T members (multi_courier_init stack observed slots (length members))"
| round: "multi_courier_run T members s \<Longrightarrow>
    multi_courier_round T spacing spacing_error time members polls first pairs s = Some (s', ev) \<Longrightarrow>
    multi_courier_run T members s'"

lemma check_blocked_courier:
  assumes "check_blocked T train e s = Some (s', told)"
  shows "co_slots (cc_courier s') = co_slots (cc_courier s) \<and> co_set (cc_courier s') = co_set (cc_courier s)"
  using assms by (auto simp: check_blocked_def Let_def split: bind_splits if_splits)

lemma courier_run_ok: "courier_run T train s \<Longrightarrow> courier_ok MAX_LOCATIONS_TO_OBSERVE (cc_courier s)"
proof (induction rule: courier_run.induct)
  case (init slots stack observed time c)
  then show ?case
    by (simp add: coordinate_courier_init_def courier_ok_def drop_all_notifications_def slots_ok_none)
next
  case (round s e s' ev)
  then obtain k sent b told where "courier_poll MAX_LOCATIONS_TO_OBSERVE T (ce_coords e) (ce_request e) (cc_courier s) = Some (k, sent)"
    "check_blocked T train e (s\<lparr>cc_courier := k, cc_is_blocked := b\<rparr>) = Some (s', told)"
    by (auto simp: coordinate_courier_round_def Let_def split: bind_splits)
  then show ?case using courier_poll_ok [OF round.IH] check_blocked_courier by (fastforce simp: courier_ok_def)
qed

lemma poll_members_ok:
  "courier_ok MULTI_MAX_LOCATIONS_TO_OBSERVE s \<Longrightarrow> poll_members T polls s = Some (s', ev) \<Longrightarrow>
    courier_ok MULTI_MAX_LOCATIONS_TO_OBSERVE s'"
proof (induction polls arbitrary: s ev)
  case (Cons x polls)
  then obtain c request s1 sent ev1 where "x = (c, request)"
    "courier_poll MULTI_MAX_LOCATIONS_TO_OBSERVE T c request s = Some (s1, sent)" "poll_members T polls s1 = Some (s', ev1)"
    by (cases x) (auto split: bind_splits)
  then show ?case using Cons.IH courier_poll_ok [OF Cons.prems(1)] by blast
qed simp

lemma check_pair_courier:
  assumes "check_pair T spacing spacing_error time first members i leader follower s = Some (s', told)"
  shows "co_slots (mc_courier s') = co_slots (mc_courier s) \<and> co_set (mc_courier s') = co_set (mc_courier s)"
  using assms by (auto simp: check_pair_def Let_def split: bind_splits if_splits)

lemma check_pairs_courier:
  "check_pairs T spacing spacing_error time first members i pairs s = Some (s', ev) \<Longrightarrow>
   co_slots (mc_courier s') = co_slots (mc_courier s) \<and> co_set (mc_courier s') = co_set (mc_courier s)"
  by (induction pairs arbitrary: i s ev) (auto dest!: check_pair_courier split: bind_splits)

lemma multi_courier_run_ok:
  "multi_courier_run T members s \<Longrightarrow> courier_ok MULTI_MAX_LOCATIONS_TO_OBSERVE (mc_courier s)"
proof (induction rule: multi_courier_run.induct)
  case (init slots stack observed)
  then show ?case
    by (simp add: multi_courier_init_def courier_ok_def multi_drop_all_notifications_def slots_ok_none)
next
  case (round s spacing spacing_error time polls first pairs s' ev)
  then obtain k ev1 ev2 where "poll_members T polls (mc_courier s) = Some (k, ev1)"
    "check_pairs T spacing spacing_error time first members 0 pairs (s\<lparr>mc_courier := k\<rparr>) = Some (s', ev2)"
    by (auto simp: multi_courier_round_def split: bind_splits)
  then show ?case using poll_members_ok [OF round.IH] check_pairs_courier by (fastforce simp: courier_ok_def)
qed

section \<open>Requests are answered\<close>

lemma ucast_byte0: "ucast (push_bit 16 (drop_bit 16 a) OR push_bit 8 (ucast (y :: u8)) OR ucast (x :: u8) :: u32) = x"
  by (rule bit_word_eqI) (auto simp: bit_simps dest: bit_imp_le_length)

lemma ucast_byte1: "ucast (drop_bit 8 (push_bit 16 (drop_bit 16 a) OR push_bit 8 (ucast (y :: u8)) OR ucast (x :: u8) :: u32)) = y"
  by (rule bit_word_eqI) (auto simp: bit_simps dest: bit_imp_le_length)

lemma switch_roundtrip: "switch_to_switch (set_switch_to_switch s a) = s"
  unfolding switch_to_switch_def set_switch_to_switch_def fst_conv ucast_byte0 ucast_byte1 by simp

definition quiet :: notification_request where
  "quiet = \<lparr>nr_notifications = [], nr_num_requests = 0, nr_drop_existing = False\<rparr>"

text \<open>The slot \<open>i\<close> waits for the location \<open>l\<close>.\<close>

definition waits :: "courier \<Rightarrow> nat \<Rightarrow> location \<Rightarrow> bool" where
  "waits s i l \<longleftrightarrow> co_set s ! i \<and> ln_subject (co_slots s ! i) = SUBJECT_LOC l"

lemma poll_reached:
  assumes st: "courier_poll N T c request s = Some (s', sent)" and nr: "\<not> co_find_any s" "\<not> co_first_run s"
    and c: "l_node (c_loc c) \<noteq> None"
    and r: "first_reached T (c_loc c) (co_slots s) (co_set s) [0..<N] = Some (Some i)"
  shows "\<exists>n. sent = Some n \<and> ln_reason n = ln_reason (co_slots s ! i) \<and> ln_subject n = SUBJECT_LOC (c_loc c) \<and>
      switch_to_switch (ln_action n) = switch_to_switch (ln_action (co_slots s ! i))"
    "request = quiet \<Longrightarrow> co_slots s' = co_slots s \<and> co_set s' = (co_set s)[i := False] \<and>
      \<not> co_find_any s' \<and> \<not> co_first_run s'"
  using st nr c r first_reached_Some [OF r]
  by (auto simp: courier_poll_def to_notification_def quiet_def add_requests_def array_prefix_def switch_roundtrip
      Let_def split: bind_splits)

lemma first_reached_before:
  assumes "first_reached T loc los iss is = Some r" "i \<in> set is" "i < length los" "iss ! i"
    "ln_subject (los ! i) = SUBJECT_LOC l" "location_is_ge T loc l = Some True" "sorted is"
  shows "\<exists>j \<le> i. r = Some j"
  using assms
proof (induction "is")
  case (Cons k ks)
  show ?case
  proof (cases "k = i")
    case True
    then have "first_reached T loc los iss (i # ks) = Some (Some i)"
      using Cons.prems by (auto simp: array_get_eq_Some split: bind_splits)
    then show ?thesis using Cons.prems(1) True by (auto simp del: first_reached.simps)
  next
    case False
    then show ?thesis using Cons by (auto split: bind_splits if_splits)
  qed
qed simp

text \<open>The polls of a train whose conductor asks for nothing new.\<close>

fun quiet_polls ::
  "nat \<Rightarrow> track \<Rightarrow> coordinates list \<Rightarrow> courier \<Rightarrow> (courier \<times> location_notification list) option" where
  "quiet_polls N T [] s = Some (s, [])"
| "quiet_polls N T (c # cs) s = do {
     (s1, sent) \<leftarrow> courier_poll N T c quiet s;
     (s2, ev) \<leftarrow> quiet_polls N T cs s1;
     Some (s2, (case sent of None \<Rightarrow> ev | Some n \<Rightarrow> n # ev))
   }"

definition used_before :: "courier \<Rightarrow> nat \<Rightarrow> nat set" where
  "used_before s i = {j. j < i \<and> co_set s ! j}"

lemma quiet_polls_answer:
  assumes "quiet_polls N T cs s = Some (s', ev)" "courier_ok N s" "\<not> co_find_any s" "\<not> co_first_run s"
    "i < N" "waits s i l" "card (used_before s i) < length cs"
    "\<forall>c \<in> set cs. l_node (c_loc c) \<noteq> None \<and> location_is_ge T (c_loc c) l = Some True"
  shows "\<exists>n \<in> set ev. ln_reason n = ln_reason (co_slots s ! i) \<and>
    switch_to_switch (ln_action n) = switch_to_switch (ln_action (co_slots s ! i))"
  using assms
proof (induction cs arbitrary: s ev)
  case (Cons c cs)
  obtain s1 sent ev1 where st: "courier_poll N T c quiet s = Some (s1, sent)" "quiet_polls N T cs s1 = Some (s', ev1)"
    and ev: "ev = (case sent of None \<Rightarrow> ev1 | Some n \<Rightarrow> n # ev1)"
    using Cons.prems(1) by (auto split: bind_splits)
  have len: "length (co_slots s) = N" "length (co_set s) = N" using Cons.prems(2) by (auto simp: courier_ok_def slots_ok_def)
  have c: "l_node (c_loc c) \<noteq> None" "location_is_ge T (c_loc c) l = Some True" using Cons.prems(8) by auto
  obtain r where r: "first_reached T (c_loc c) (co_slots s) (co_set s) [0..<N] = Some r"
    using st(1) c(1) by (auto simp: courier_poll_def to_notification_def Let_def split: bind_splits)
  obtain j where j: "j \<le> i" "r = Some j"
    using first_reached_before [OF r, of i l] Cons.prems(5,6) c(2) len by (auto simp: waits_def)
  note pr = poll_reached [OF st(1) Cons.prems(3,4) c(1) r [unfolded j(2)]]
  show ?case
  proof (cases "j = i")
    case True
    then show ?thesis using pr(1) ev by auto
  next
    case False
    then have "j < i" using j(1) by simp
    have used: "co_set s ! j" using first_reached_Some [OF r [unfolded j(2)]] by simp
    have s1: "co_slots s1 = co_slots s" "co_set s1 = (co_set s)[j := False]" "\<not> co_find_any s1" "\<not> co_first_run s1"
      using pr(2) by simp_all
    have "used_before s1 i = used_before s i - {j}"
      using s1(2) len \<open>j < i\<close> Cons.prems(5) by (auto simp: used_before_def nth_list_update)
    moreover have "j \<in> used_before s i" "finite (used_before s i)"
      using used \<open>j < i\<close> by (auto simp: used_before_def)
    ultimately have "card (used_before s1 i) < card (used_before s i)"
      using card_Diff1_less by metis
    then have "card (used_before s1 i) < length cs" using Cons.prems(7) by simp
    moreover have "waits s1 i l" using Cons.prems(6) s1 False by (simp add: waits_def)
    ultimately have "\<exists>n \<in> set ev1. ln_reason n = ln_reason (co_slots s1 ! i) \<and>
        switch_to_switch (ln_action n) = switch_to_switch (ln_action (co_slots s1 ! i))"
      using Cons.IH [OF st(2) courier_poll_ok [OF Cons.prems(2) st(1)] s1(3,4) Cons.prems(5)] Cons.prems(8) by simp
    then show ?thesis using ev s1(1) by (auto split: option.splits)
  qed
qed simp

section \<open>What is lost\<close>

text \<open>
  A duplicate is told by its place alone: with a switch command waiting at a place, a request to stop
  within 3 mm of it on the same node is dropped, and nothing says so.
\<close>

lemma stop_near_switch_dropped:
  assumes "ln_reason r = LOCATION_TO_STOP" "ln_subject r = SUBJECT_LOC \<lparr>l_node = a, l_offset = x\<rparr>"
    "ln_reason (hd los) = LOCATION_TO_SWITCH" "ln_subject (hd los) = SUBJECT_LOC \<lparr>l_node = a, l_offset = y\<rparr>"
    "\<bar>x - y\<bar> < 300" "los \<noteq> []" "iss = True # rest" "0 < N"
  shows "add_requests N [r] 1 los iss = Some (0, los, iss)"
proof -
  have "[0..<N] = 0 # [1..<N]" using assms(8) by (simp add: upt_conv_Cons)
  moreover have "array_get los 0 = Some (hd los)" using assms(6) by (simp add: hd_conv_nth)
  moreover have "near_duplicate r (hd los) = Some True" "\<not> overrides r (hd los)"
    using assms by (auto simp: near_duplicate_def cabs_def int32_def overrides_def)
  ultimately have "check_slots r los [0..<N] iss False False = Some (iss, True, False)"
    using assms(7) by (simp add: array_get_def)
  then show ?thesis using assms(1,8) by (simp add: add_requests_def array_prefix_def)
qed

text \<open>With all slots in use a last new request is dropped too, and the result is still 0.\<close>

lemma check_slots_free:
  assumes "\<forall>k \<in> set ks. k < length iss \<and> k < length los \<and> near_duplicate r (los ! k) = Some False \<and>
    \<not> overrides r (los ! k)"
  shows "check_slots r los ks iss False False = Some (iss, False, False)"
  using assms by (induction ks) (simp_all add: Let_def)

lemma overflow_dropped:
  assumes "ln_reason r \<noteq> LOCATION_ANY" "0 < N" "length los = N" "iss = replicate N True"
    "\<forall>k < N. near_duplicate r (los ! k) = Some False \<and> \<not> overrides r (los ! k)"
  shows "add_requests N [r] 1 los iss = Some (0, los, iss)"
proof -
  have "check_slots r los [0..<N] iss False False = Some (iss, False, False)"
    using assms by (intro check_slots_free) auto
  moreover have "find (\<lambda>i. \<not> iss ! i) [0..<N] = None"
    using assms(4) by (auto simp: find_None_iff)
  ultimately show ?thesis using assms(1,2) by (simp add: add_requests_def array_prefix_def)
qed

section \<open>Properties\<close>



text \<open>A lost train whose conductor asks for a stop at the node 3, in the first round.\<close>

definition sample_stop :: location_notification where
  "sample_stop = \<lparr>ln_subject = SUBJECT_LOC \<lparr>l_node = Some 3, l_offset = 0\<rparr>, ln_reason = LOCATION_TO_STOP,
     ln_action = (0, 0)\<rparr>"

definition sample_env1 :: courier_env where
  "sample_env1 = \<lparr>ce_coords = zero_coordinates,
     ce_request = \<lparr>nr_notifications = [sample_stop], nr_num_requests = 1, nr_drop_existing = True\<rparr>,
     ce_num_groups = 0, ce_time = 0, ce_group_coords = [], ce_turnouts = [], ce_velocity_model = [],
     ce_stopping_model = [], ce_prediction_time = 0, ce_tr_data = zero_train\<rparr>"

definition sample_courier :: coordinate_courier where
  "sample_courier = \<lparr>cc_courier = \<lparr>co_last = zero_coordinates,
     co_observed = sample_stop\<lparr>ln_reason := GOT_LOST\<rparr>, co_slots = replicate 10 sample_stop,
     co_set = True # replicate 9 False, co_find_any = False, co_first_run = False\<rparr>, cc_is_blocked = False,
     cc_last_block = 0, cc_before_blocked_speed = 0\<rparr>"

lemma ten_slots: "[0..<MAX_LOCATIONS_TO_OBSERVE] = [0, 1, 2, 3, 4, 5, 6, 7, 8, 9]"
  by (simp add: MAX_LOCATIONS_TO_OBSERVE_def upt_conv_Cons)

lemma no_location_zero: "no_location zero_coordinates = zero_coordinates"
  by (simp add: no_location_def zero_coordinates_def)

lemma sample_courier_run: "courier_run T train sample_courier"
proof -
  let ?s = "coordinate_courier_init zero_coordinates sample_stop (replicate 10 sample_stop) 0 zero_coordinates"
  have no: "replicate 10 False = [False, False, False, False, False, False, False, False, False, False]"
    by (simp add: numeral_eq_Suc)
  have "add_requests MAX_LOCATIONS_TO_OBSERVE [sample_stop] 1 (replicate 10 sample_stop) (replicate 10 False) =
      Some (0, replicate 10 sample_stop, True # replicate 9 False)"
    unfolding no by (simp add: add_requests_def array_prefix_def MAX_LOCATIONS_TO_OBSERVE_def upt_conv_Cons
      sample_stop_def list_update_same_conv numeral_eq_Suc)
  then have "coordinate_courier_round T train sample_env1 ?s = Some (sample_courier, [sample_stop\<lparr>ln_reason := GOT_LOST\<rparr>])"
    by (simp add: coordinate_courier_round_def courier_poll_def to_notification_def coordinate_courier_init_def
      check_blocked_def sample_env1_def sample_courier_def no_location_zero TOO_MANY_NOTIFICATION_REQUESTS_def
      MAX_LOCATIONS_TO_OBSERVE_def)
      (simp add: zero_coordinates_def Let_def)
  then show ?thesis
    by (intro courier_run.round [OF courier_run.init]) (simp_all add: MAX_LOCATIONS_TO_OBSERVE_def)
qed


definition at_node_3 :: coordinates where
  "at_node_3 = zero_coordinates\<lparr>c_loc := \<lparr>l_node = Some 3, l_offset = 0\<rparr>\<rparr>"

lemma at_node_3_reached: "location_is_ge lab_track (c_loc at_node_3) \<lparr>l_node = Some 3, l_offset = 0\<rparr> = Some True"
  using lab_track_rev_ok(2)
  by (simp add: location_is_ge_def node_follows_def node_at_def at_node_3_def)

lemma sample_quiet: "\<exists>s' ev. quiet_polls MAX_LOCATIONS_TO_OBSERVE lab_track [at_node_3] (cc_courier sample_courier) = Some (s', ev)"
proof -
  have "first_reached lab_track (c_loc at_node_3) (replicate 10 sample_stop) (True # replicate 9 False)
      [0..<MAX_LOCATIONS_TO_OBSERVE] = Some (Some 0)"
    using at_node_3_reached by (simp add: ten_slots array_get_def sample_stop_def)
  then have "\<exists>x. courier_poll MAX_LOCATIONS_TO_OBSERVE lab_track at_node_3 quiet (cc_courier sample_courier) = Some x"
    by (simp add: courier_poll_def to_notification_def sample_courier_def quiet_def add_requests_def array_prefix_def
      at_node_3_def zero_coordinates_def TOO_MANY_NOTIFICATION_REQUESTS_def MAX_LOCATIONS_TO_OBSERVE_def Let_def)
  then show ?thesis by auto
qed


end
