(* ===== verification/Train_Conductor.thy ===== *)
theory Train_Conductor
  imports Couriers
begin

text \<open>
  The conductor of one train, \<open>usr/train/train_conductor.c\<close>, with the loops of \<open>usr/train/train_util.c\<close>
  that wait for a sensor. A conductor gets a command, carries it out and reports that it is ready. What
  it does is the list of its events in order; \<open>None\<close> is a failed assertion or an access outside an array.
\<close>

section \<open>Waiting for a sensor\<close>

definition REFRESH_PERIOD :: int where "REFRESH_PERIOD = 6"

text \<open>
  \<open>reply n\<close> is the sensor report of the \<open>n\<close>-th question; \<open>triggered\<close> is the test of the leading edge.
  The result tells whether the wait has timed out.
\<close>

function poll_loop ::
  "(u32 list \<Rightarrow> bool option) \<Rightarrow> (nat \<Rightarrow> u32 list) \<Rightarrow> nat \<Rightarrow> u32 list \<Rightarrow> int \<Rightarrow> int \<Rightarrow> bool option" where
  "poll_loop triggered reply n current ticks timeout_ticks = do {
     (edge, current') \<leftarrow> get_leading_edge current (reply n);
     let ticks' = ticks + REFRESH_PERIOD;
     t \<leftarrow> triggered edge;
     if t \<or> ticks' > timeout_ticks then Some (ticks' > timeout_ticks)
     else poll_loop triggered reply (n + 1) current' ticks' timeout_ticks
   }"
  by auto
termination by (relation "measure (\<lambda>(triggered, reply, n, current, ticks, timeout). nat (timeout - ticks))")
  (auto simp: REFRESH_PERIOD_def)

declare poll_loop.simps [simp del]

definition poll_until_sensor_triggered_with_timeout ::
  "(nat \<Rightarrow> u32 list) \<Rightarrow> u32 \<Rightarrow> int \<Rightarrow> bool option" where
  "poll_until_sensor_triggered_with_timeout reply offset timeout_ticks =
     poll_loop (\<lambda>edge. is_sensor_triggered edge offset) reply 0 (replicate 10 0) 0 timeout_ticks"

definition poll_until_sensor_triggered :: "(nat \<Rightarrow> u32 list) \<Rightarrow> u32 \<Rightarrow> bool option" where
  "poll_until_sensor_triggered reply offset =
     poll_until_sensor_triggered_with_timeout reply offset (100 * 60 * 20)"

definition poll_until_sensor_pair_triggered_with_timeout ::
  "track \<Rightarrow> nat \<Rightarrow> (nat \<Rightarrow> u32 list) \<Rightarrow> u32 \<Rightarrow> int \<Rightarrow> bool option" where
  "poll_until_sensor_pair_triggered_with_timeout T nodes reply offset timeout_ticks =
     poll_loop (\<lambda>edge. or_else (is_sensor_triggered edge offset)
         (do { p \<leftarrow> sensor_pair T nodes offset; is_sensor_triggered edge (of_int p) }))
       reply 0 (replicate 10 0) 0 timeout_ticks"

text \<open>The distance run since a time; \<open>c_time\<close> is the clock.\<close>

definition dist_from_last_sensor :: "int \<Rightarrow> int \<Rightarrow> u32 \<Rightarrow> int option" where
  "dist_from_last_sensor c_time ticks_at_last_sensor velocity = do {
     dt \<leftarrow> int32 (c_time - ticks_at_last_sensor);
     x \<leftarrow> cmul (sint velocity) dt;
     cdiv x 100
   }"

section \<open>Commands of the conductor\<close>

datatype conductor_event =
    CE cmd_event
  | CE_SWITCHER int bool
  | CE_REPLY
  | CE_REPLY_REQUEST notification_request
  | CE_CREATE_COURIER int
  | CE_KILL_COURIER
  | CE_EXIT
  | CE_READY
  | CE_POLL u32
  | CE_POLL_TIMEOUT u32 int
  | CE_POLL_PAIR u32 int
  | CE_POLL_DIST int int

definition SWITCH_LOOKAHEAD_NODES :: int where "SWITCH_LOOKAHEAD_NODES = 10"
definition SWITCH_DIST :: int where "SWITCH_DIST = 15000"
definition CONDUCTOR_SENSOR_CHECK_INTERVAL :: int where "CONDUCTOR_SENSOR_CHECK_INTERVAL = 1"

definition conductor_setspeed :: "int \<Rightarrow> int \<Rightarrow> conductor_event list option" where
  "conductor_setspeed train speed = map_option (map CE) (set_train_speed train speed)"

text \<open>\<open>should_speed\<close> and \<open>direction\<close> are what the track state controller replies.\<close>

definition conductor_reverse_to_speed :: "int \<Rightarrow> int \<Rightarrow> int \<Rightarrow> bool \<Rightarrow> conductor_event list option" where
  "conductor_reverse_to_speed train speed should_speed direction =
     map_option (map CE) (stop_and_reverse_train_to_speed train speed should_speed direction)"

section \<open>Notifications\<close>

text \<open>What the router has on its stack when it answers.\<close>

record router_env =
  re_track :: track
  re_nodes :: nat
  re_queue :: search_node_queue
  re_forwards :: route
  re_backwards :: route

definition ask_reroute :: "router_env \<Rightarrow> location \<Rightarrow> location \<Rightarrow> route \<Rightarrow> (bool \<times> route) option" where
  "ask_reroute env = reroute (re_track env) (re_nodes env) (re_queue env) (re_forwards env) (re_backwards env)"

definition ask_route :: "router_env \<Rightarrow> location \<Rightarrow> location \<Rightarrow> route \<Rightarrow> (int \<times> route) option" where
  "ask_route env = get_route (re_track env) (re_nodes env) (re_queue env) (re_forwards env) (re_backwards env)"

fun subject_train :: "subject \<Rightarrow> int option" where
  "subject_train (SUBJECT_TRAINS a b) = Some a"
| "subject_train (SUBJECT_LOC l) = None"

record notification_result =
  nt_stop :: bool
  nt_drop :: bool
  nt_lost :: bool
  nt_route :: route
  nt_events :: "conductor_event list"

definition process_location_notification ::
  "router_env \<Rightarrow> location_notification \<Rightarrow> route \<Rightarrow> location \<Rightarrow> notification_result option" where
  "process_location_notification env n route finish = (case ln_reason n of
     GOT_LOST \<Rightarrow> Some \<lparr>nt_stop = False, nt_drop = True, nt_lost = True, nt_route = route, nt_events = []\<rparr>
   | LOCATION_CHANGED \<Rightarrow> do {
       loc \<leftarrow> subject_loc (ln_subject n);
       on \<leftarrow> on_route route loc;
       (stop, route') \<leftarrow> (if on then Some (False, route) else ask_reroute env loc finish route);
       Some \<lparr>nt_stop = stop, nt_drop = True, nt_lost = False, nt_route = route', nt_events = []\<rparr>
     }
   | LOCATION_TO_SWITCH \<Rightarrow>
       Some \<lparr>nt_stop = False, nt_drop = False, nt_lost = False, nt_route = route,
         nt_events = [CE_SWITCHER (uint (fst (switch_to_switch (ln_action n)))) (snd (switch_to_switch (ln_action n)) \<noteq> 0)]\<rparr>
   | LOCATION_TO_STOP \<Rightarrow>
       Some \<lparr>nt_stop = True, nt_drop = True, nt_lost = False, nt_route = route, nt_events = []\<rparr>
   | LOCATION_ANY \<Rightarrow> do {
       loc \<leftarrow> subject_loc (ln_subject n);
       (stop, route') \<leftarrow> ask_reroute env loc finish route;
       Some \<lparr>nt_stop = stop, nt_drop = True, nt_lost = False, nt_route = route', nt_events = []\<rparr>
     }
   | LOCATION_SLOWDOWN \<Rightarrow> do {
       train \<leftarrow> subject_train (ln_subject n);
       let max_speed = (if sint (fst (ln_action n)) = -1 then 0 else sint (fst (ln_action n)));
       ev \<leftarrow> (if max_speed = 0 \<or> max_speed \<noteq> sint (snd (ln_action n)) then conductor_setspeed train max_speed else Some []);
       Some \<lparr>nt_stop = False, nt_drop = False, nt_lost = False, nt_route = route, nt_events = ev\<rparr>
     }
   | LOCATION_UNBLOCKED \<Rightarrow> do {
       train \<leftarrow> subject_train (ln_subject n);
       ev \<leftarrow> conductor_setspeed train (sint (fst (ln_action n)));
       Some \<lparr>nt_stop = False, nt_drop = False, nt_lost = False, nt_route = route, nt_events = ev\<rparr>
     }
   | SPACING \<Rightarrow> None)"

text \<open>
  The request for one switch: the coordinates are copied over the location, so that the speeds come
  to lie in the action before the switch is written.
\<close>

definition blank_notification :: location_notification where
  "blank_notification = \<lparr>ln_subject = SUBJECT_LOC \<lparr>l_node = None, l_offset = 0\<rparr>, ln_reason = GOT_LOST, ln_action = (0, 0)\<rparr>"

definition switch_request :: "coordinates \<Rightarrow> int \<Rightarrow> bool \<Rightarrow> location_notification" where
  "switch_request where_to num curved =
     (let n = copy_coordinates where_to blank_notification in
      n\<lparr>ln_reason := LOCATION_TO_SWITCH,
        ln_action := set_switch_to_switch (of_int num, if curved then 1 else 0) (ln_action n)\<rparr>)"

text \<open>At most five switches ahead; the first argument counts the ones left.\<close>

fun craft_switches ::
  "track \<Rightarrow> turnout_state list \<Rightarrow> route \<Rightarrow> nat \<Rightarrow> coordinates \<Rightarrow> location_notification list option" where
  "craft_switches T stack route 0 f = Some []"
| "craft_switches T stack route (Suc k) f = do {
     (where_to, found) \<leftarrow> predict_next_switch T stack f route SWITCH_DIST SWITCH_LOOKAHEAD_NODES;
     case found of
       None \<Rightarrow> Some []
     | Some (num, curved) \<Rightarrow> do {
         rest \<leftarrow> craft_switches T stack route k
           (f\<lparr>c_loc := \<lparr>l_node = Some (turnout_num_to_node (of_int num)), l_offset = 1\<rparr>\<rparr>);
         Some (switch_request where_to num curved # rest)
       }
   }"

text \<open>\<open>junk\<close> is what the message held where the action of the stop request lies.\<close>

definition craft_new_triggers ::
  "(int \<Rightarrow> int \<Rightarrow> int \<Rightarrow> int \<Rightarrow> int) \<Rightarrow> track \<Rightarrow> turnout_state list \<Rightarrow> u32 \<times> u32 \<Rightarrow> coordinates \<Rightarrow> u32 list \<Rightarrow>
   u32 list \<Rightarrow> route \<Rightarrow> bool \<Rightarrow> location_notification list option" where
  "craft_new_triggers interp T stack junk c vm sdm route got_lost =
     (if got_lost then Some []
      else do {
        switches \<leftarrow> craft_switches T stack route 5 c;
        stopping_distance \<leftarrow> stopping_dist_from_velocity interp (c_target_velocity c) vm sdm;
        target \<leftarrow> predict_train_stop T stack c route stopping_distance;
        Some (switches @ [\<lparr>ln_subject = SUBJECT_LOC (c_loc target), ln_reason = LOCATION_TO_STOP, ln_action = junk\<rparr>])
      })"

definition set_new_triggers ::
  "(int \<Rightarrow> int \<Rightarrow> int \<Rightarrow> int \<Rightarrow> int) \<Rightarrow> track \<Rightarrow> turnout_state list \<Rightarrow> u32 \<times> u32 \<Rightarrow> coordinates \<Rightarrow> u32 list \<Rightarrow>
   u32 list \<Rightarrow> route \<Rightarrow> bool \<Rightarrow> bool \<Rightarrow> notification_request option" where
  "set_new_triggers interp T stack junk c vm sdm route drop_existing got_lost = do {
     ns \<leftarrow> craft_new_triggers interp T stack junk c vm sdm route got_lost;
     Some \<lparr>nr_notifications = ns, nr_num_requests = int (length ns), nr_drop_existing = drop_existing\<rparr>
   }"

section \<open>Routing a train\<close>

text \<open>
  What the servers tell while a route is set up: the coordinates in the order they are asked for, the
  replies for the two reversals there may be, and the models. \<open>rs_stack\<close> is the uninitialised array of
  the route.
\<close>

record route_setup =
  rs_router :: router_env
  rs_stack :: route
  rs_speed1 :: int
  rs_direction1 :: bool
  rs_speed2 :: int
  rs_direction2 :: bool
  rs_stopping_model :: "u32 list"

text \<open>Waiting until the train has a place; a lost train asks for its coordinates every tick.\<close>

fun wait_found :: "coordinates \<Rightarrow> coordinates list \<Rightarrow> (coordinates \<times> coordinates list \<times> conductor_event list) option" where
  "wait_found c [] = (if l_node (c_loc c) = None then None else Some (c, [], []))"
| "wait_found c (c' # cs) = (if l_node (c_loc c) = None then do {
       (c'', rest, ev) \<leftarrow> wait_found c' cs;
       Some (c'', rest, CE (DELAY CONDUCTOR_SENSOR_CHECK_INTERVAL) # ev)
     }
     else Some (c, c' # cs, []))"

fun next_reading :: "coordinates list \<Rightarrow> (coordinates \<times> coordinates list) option" where
  "next_reading [] = None"
| "next_reading (c # cs) = Some (c, cs)"

text \<open>A route from where the train is, or, reversed, from where it is then.\<close>

definition find_route ::
  "route_setup \<Rightarrow> int \<Rightarrow> location \<Rightarrow> coordinates \<Rightarrow> coordinates list \<Rightarrow>
   (coordinates \<times> route option \<times> conductor_event list) option" where
  "find_route e train finish c readings = do {
     (result, route) \<leftarrow> ask_route (rs_router e) (c_loc c) finish (rs_stack e);
     if result < 0 then do {
       ev \<leftarrow> conductor_reverse_to_speed train 0 (rs_speed2 e) (rs_direction2 e);
       (c', _) \<leftarrow> next_reading readings;
       (result', route') \<leftarrow> ask_route (rs_router e) (c_loc c') finish route;
       Some (c', (if result' < 0 then None else Some route'), ev)
     }
     else Some (c, Some route, [])
   }"

definition macro_abs :: "int \<Rightarrow> int option" where "macro_abs a = (if a > 0 then Some a else int32 (- a))"

text \<open>
  The setup: the events, and the route when the train is to follow one, with a courier created for it.
\<close>

definition route_start ::
  "route_setup \<Rightarrow> int \<Rightarrow> location \<Rightarrow> coordinates list \<Rightarrow> (route option \<times> conductor_event list) option" where
  "route_start e train finish readings = do {
     (c0, r0) \<leftarrow> next_reading readings;
     ev0 \<leftarrow> (if l_node (c_loc c0) = None \<and> c_current_speed c0 = 0 then conductor_setspeed train 12 else Some []);
     (c1, r1, ev1) \<leftarrow> wait_found c0 r0;
     let had_to_reverse = (l_node (c_loc c1) = l_node finish \<and> l_offset (c_loc c1) > l_offset finish);
     (c2, r2, ev2) \<leftarrow> (if had_to_reverse then do {
         ev \<leftarrow> conductor_reverse_to_speed train 0 (rs_speed1 e) (rs_direction1 e);
         (c, r) \<leftarrow> next_reading r1;
         Some (c, r, ev)
       }
       else Some (c1, r1, []));
     (c3, found, ev3) \<leftarrow> find_route e train finish c2 r2;
     case found of
       None \<Rightarrow> Some (None, ev0 @ ev1 @ ev2 @ ev3)
     | Some route \<Rightarrow> do {
         remaining \<leftarrow> get_remaining_dist_in_route (re_track (rs_router e)) route (c_loc c3);
         dist_left \<leftarrow> macro_abs remaining;
         speed \<leftarrow> get_max_feasible_speed dist_left (rs_stopping_model e);
         ev4 \<leftarrow> (if speed \<noteq> -1 \<and> (had_to_reverse \<or> c_current_speed c3 = 0) then conductor_setspeed train speed
           else Some []);
         if speed = -1 then Some (None, ev0 @ ev1 @ ev2 @ ev3 @ ev4)
         else Some (Some route, ev0 @ ev1 @ ev2 @ ev3 @ ev4 @ [CE_CREATE_COURIER train])
       }
   }"

text \<open>The loop on the way: one message, from the courier or from elsewhere.\<close>

datatype conductor_message = COND_SUNSET | COND_NOTIFY location_notification | COND_OTHER

record on_way =
  ow_route :: route
  ow_quit :: bool
  ow_kill :: bool

record way_env =
  we_interp :: "int \<Rightarrow> int \<Rightarrow> int \<Rightarrow> int \<Rightarrow> int"
  we_router :: router_env
  we_turnout_stack :: "turnout_state list"
  we_junk :: "u32 \<times> u32"
  we_coords :: coordinates
  we_velocity_model :: "u32 list"
  we_stopping_model :: "u32 list"

definition route_step ::
  "way_env \<Rightarrow> location \<Rightarrow> bool \<Rightarrow> conductor_message \<Rightarrow> on_way \<Rightarrow> (on_way \<times> conductor_event list) option" where
  "route_step e finish from_courier msg s = do {
     guard_opt from_courier;
     case msg of
       COND_SUNSET \<Rightarrow> Some (s\<lparr>ow_quit := True, ow_kill := True\<rparr>, [])
     | COND_NOTIFY n \<Rightarrow> do {
         r \<leftarrow> process_location_notification (we_router e) n (ow_route s) finish;
         let s' = s\<lparr>ow_route := nt_route r, ow_quit := nt_stop r\<rparr>;
         if ln_reason n = LOCATION_SLOWDOWN \<or> ln_reason n = LOCATION_UNBLOCKED then Some (s', nt_events r @ [CE_REPLY])
         else if \<not> nt_stop r then do {
           request \<leftarrow> set_new_triggers (we_interp e) (re_track (we_router e)) (we_turnout_stack e) (we_junk e)
             (we_coords e) (we_velocity_model e) (we_stopping_model e) (nt_route r) (nt_drop r) (nt_lost r);
           Some (s', nt_events r @ [CE_REPLY_REQUEST request])
         }
         else Some (s', nt_events r)
       }
     | COND_OTHER \<Rightarrow> None
   }"

text \<open>At the end the courier is killed, and the conductor too when it was told to stop.\<close>

definition route_end :: "on_way \<Rightarrow> conductor_event list" where
  "route_end s = CE_KILL_COURIER # (if ow_kill s then [CE_EXIT] else [])"

fun route_loop ::
  "location \<Rightarrow> (way_env \<times> bool \<times> conductor_message) list \<Rightarrow> on_way \<Rightarrow> (on_way \<times> conductor_event list) option" where
  "route_loop finish msgs s = (if ow_quit s then Some (s, route_end s)
     else case msgs of
       [] \<Rightarrow> None
     | (e, from_courier, msg) # rest \<Rightarrow> do {
         (s1, ev1) \<leftarrow> route_step e finish from_courier msg s;
         (s2, ev2) \<leftarrow> route_loop finish rest s1;
         Some (s2, ev1 @ ev2)
       })"

declare route_loop.simps [simp del]

text \<open>
  \<open>route_to_within_stopping_distance\<close>: the setup and the loop, over the messages that arrive; whether
  the conductor goes on afterwards, and the events.
\<close>

definition route_to_within_stopping_distance ::
  "route_setup \<Rightarrow> int \<Rightarrow> location \<Rightarrow> coordinates list \<Rightarrow> (way_env \<times> bool \<times> conductor_message) list \<Rightarrow>
   (bool \<times> conductor_event list) option" where
  "route_to_within_stopping_distance e train finish readings msgs = do {
     (found, ev) \<leftarrow> route_start e train finish readings;
     case found of
       None \<Rightarrow> Some (True, ev)
     | Some route \<Rightarrow> do {
         (s, ev') \<leftarrow> route_loop finish msgs \<lparr>ow_route = route, ow_quit = False, ow_kill = False\<rparr>;
         Some (\<not> ow_kill s, ev @ ev')
       }
   }"

text \<open>
  After the way the train is stopped and the turnouts up to 2 m ahead are set. \<open>c\<close> and \<open>tr_data\<close> are what
  the servers reply, \<open>turnouts1\<close> and \<open>turnouts2\<close> the turnouts in the two counts; the result of the router
  is not looked at.
\<close>

definition route_to_end ::
  "router_env \<Rightarrow> route \<Rightarrow> int \<Rightarrow> location \<Rightarrow> int \<Rightarrow> coordinates \<Rightarrow> turnout_state list \<Rightarrow> turnout_state list \<Rightarrow>
   conductor_event list option" where
  "route_to_end env stack train finish should_speed c turnouts1 turnouts2 = do {
     stop \<leftarrow> conductor_setspeed train 0;
     (_, route) \<leftarrow> ask_route env (c_loc c) finish stack;
     n_switched \<leftarrow> num_turnouts_within_distance (re_track env) turnouts1 route (c_loc c) 200000;
     calls \<leftarrow> switch_turnouts_within_distance (re_track env) turnouts2 route (c_loc c) 200000;
     switches \<leftarrow> switch_turnouts calls;
     x \<leftarrow> cmul 30 should_speed;
     total_delay \<leftarrow> int32 (x - int n_switched * 15);
     Some ([CE (TSC (GETTRAIN (char_field train)))] @ stop @ map CE switches @
       (if should_speed = 0 \<or> total_delay \<le> 0 then [] else [CE (DELAY total_delay)]))
   }"

definition conductor_route_to ::
  "route_setup \<Rightarrow> int \<Rightarrow> location \<Rightarrow> coordinates list \<Rightarrow> (way_env \<times> bool \<times> conductor_message) list \<Rightarrow> int \<Rightarrow>
   coordinates \<Rightarrow> turnout_state list \<Rightarrow> turnout_state list \<Rightarrow> conductor_event list option" where
  "conductor_route_to e train finish readings msgs should_speed c turnouts1 turnouts2 = do {
     (go_on, ev) \<leftarrow> route_to_within_stopping_distance e train finish readings msgs;
     if go_on then do {
       ev' \<leftarrow> route_to_end (rs_router e) (rs_stack e) train finish should_speed c turnouts1 turnouts2;
       Some (ev @ ev')
     }
     else Some ev
   }"

section \<open>The other commands\<close>

definition loop_turnouts :: "(int \<times> bool) list" where
  "loop_turnouts = [(8, True), (10, False), (17, False), (9, True), (13, False), (14, True), (15, True), (16, False)]"

text \<open>\<open>timed_out\<close> is the result of the wait for the sensor D5 or its pair.\<close>

definition conductor_loop ::
  "route_setup \<Rightarrow> int \<Rightarrow> int \<Rightarrow> location \<Rightarrow> coordinates list \<Rightarrow> (way_env \<times> bool \<times> conductor_message) list \<Rightarrow> bool \<Rightarrow>
   conductor_event list option" where
  "conductor_loop e train speed d5 readings msgs timed_out = do {
     start \<leftarrow> conductor_setspeed train speed;
     (go_on, ev) \<leftarrow> route_to_within_stopping_distance e train d5 readings msgs;
     if go_on then do {
       after \<leftarrow> (if timed_out then conductor_setspeed train 0 else map_option (map CE) (switch_turnouts loop_turnouts));
       Some (start @ ev @ [CE_POLL_PAIR (sensor_offset 68 5) (60 * 100)] @ after)
     }
     else Some (start @ ev)
   }"

text \<open>The start and the goal of a calibration run.\<close>

definition calib_sensors :: "int \<Rightarrow> u32 \<times> u32" where
  "calib_sensors speed =
     (if speed = 14 then (sensor_offset 68 9, sensor_offset 66 10)
      else if speed \<le> 9 then (sensor_offset 68 11, sensor_offset 67 16)
      else if speed \<ge> 12 then (sensor_offset 69 12, sensor_offset 66 10)
      else (sensor_offset 67 8, sensor_offset 66 10))"

text \<open>
  What is learned: a train that reached the goal stopped too late. \<open>clock\<close> are the readings of the clock
  at the beginning of the stop, after it, and when the goal is reached at speed 1.
\<close>

definition calib_result ::
  "int \<Rightarrow> int \<Rightarrow> u32 list \<Rightarrow> u32 list \<Rightarrow> bool \<Rightarrow> u32 \<Rightarrow> int \<times> int \<times> int \<Rightarrow> conductor_event list option" where
  "calib_result train speed vm sdm did_hit_sensor goal clock = do {
     guard_opt (speed \<ge> 0);
     d \<leftarrow> array_get sdm (nat speed);
     if did_hit_sensor then do {
       ticks \<leftarrow> int32 (fst (snd clock) - fst clock);
       mus \<leftarrow> cmul ticks 10000;
       d' \<leftarrow> int32 (sint d + 2500);
       Some [CE (TSC (update_stopping_distance_model train speed (of_int d'))),
         CE (TSC (update_stopping_time_model train speed (of_int mus)))]
     }
     else do {
       slow \<leftarrow> conductor_setspeed train 1;
       stop \<leftarrow> conductor_setspeed train 0;
       v \<leftarrow> array_get vm 1;
       ticks \<leftarrow> int32 (snd (snd clock) - fst (snd clock));
       x \<leftarrow> cmul (sint v) ticks;
       off \<leftarrow> cdiv x 100;
       d' \<leftarrow> int32 (sint d - off);
       Some (slow @ [CE_POLL goal] @ stop @ [CE (TSC (update_stopping_distance_model train speed (of_int d')))])
     }
   }"

text \<open>One run; the texts for the terminal are left out, and so is the distance they show.\<close>

definition conductor_calib_sd_one_iter ::
  "track \<Rightarrow> nat \<Rightarrow> int \<Rightarrow> int \<Rightarrow> u32 list \<Rightarrow> u32 list \<Rightarrow> (int \<times> bool) \<times> (int \<times> bool) \<Rightarrow> bool \<Rightarrow>
   int \<times> int \<times> int \<Rightarrow> conductor_event list option" where
  "conductor_calib_sd_one_iter T nodes train speed vm sdm trains did_hit_sensor clock = do {
     stop \<leftarrow> map_option (map CE) (set_train_speed_and_headlights train 0 True);
     let (start, goal) = calib_sensors speed;
     pair \<leftarrow> sensor_pair T nodes start;
     a \<leftarrow> find_sensor T nodes start;
     b \<leftarrow> find_sensor T nodes goal;
     k \<leftarrow> distance_between_track_nodes_helper T (Some a) (Some b) 0 15;
     dist \<leftarrow> cmul 100 k;
     back \<leftarrow> conductor_reverse_to_speed train 10 (fst (fst trains)) (snd (fst trains));
     wait \<leftarrow> cmul 30 speed;
     forth \<leftarrow> conductor_reverse_to_speed train speed (fst (snd trains)) (snd (snd trains));
     guard_opt (speed \<ge> 0);
     d \<leftarrow> array_get sdm (nat speed);
     v \<leftarrow> array_get vm (nat speed);
     halt \<leftarrow> conductor_setspeed train 0;
     timeout \<leftarrow> cmul speed 50;
     learned \<leftarrow> calib_result train speed vm sdm did_hit_sensor goal clock;
     Some ([CE (TSC (GETCONSTANTSPEEDMODEL (char_field train))), CE (TSC (GETSTOPPINGDISTANCEMODEL (char_field train))),
         CE (TSC (GETSTOPPINGTIMEMODEL (char_field train)))] @ stop @ back @ [CE_POLL (of_int pair), CE (DELAY wait)] @
       forth @ [CE_POLL start, CE_POLL_DIST (sint (of_int dist - d :: u32)) (sint v)] @ halt @
       [CE_POLL_TIMEOUT goal timeout] @ learned @ halt)
   }"

definition calib_turnouts :: "int \<Rightarrow> (int \<times> bool) list" where
  "calib_turnouts speed = [(3, False), (5, True), (6, False), (7, speed \<ge> 10), (8, False), (9, False), (11, False),
     (15, False), (18, False)]"

text \<open>Three runs, each with its own replies.\<close>

definition conductor_calib_sd ::
  "track \<Rightarrow> nat \<Rightarrow> int \<Rightarrow> int \<Rightarrow> (nat \<Rightarrow> u32 list \<times> u32 list) \<Rightarrow> (nat \<Rightarrow> (int \<times> bool) \<times> (int \<times> bool)) \<Rightarrow>
   (nat \<Rightarrow> bool) \<Rightarrow> (nat \<Rightarrow> int \<times> int \<times> int) \<Rightarrow> conductor_event list option" where
  "conductor_calib_sd T nodes train speed models trains hit clock = do {
     switches \<leftarrow> switch_turnouts (calib_turnouts speed);
     r0 \<leftarrow> conductor_calib_sd_one_iter T nodes train speed (fst (models 0)) (snd (models 0)) (trains 0) (hit 0) (clock 0);
     r1 \<leftarrow> conductor_calib_sd_one_iter T nodes train speed (fst (models 1)) (snd (models 1)) (trains 1) (hit 1) (clock 1);
     r2 \<leftarrow> conductor_calib_sd_one_iter T nodes train speed (fst (models 2)) (snd (models 2)) (trains 2) (hit 2) (clock 2);
     Some (map CE switches @ r0 @ r1 @ r2)
   }"

section \<open>The task\<close>

text \<open>What a command makes the conductor do, before it says that it is ready.\<close>

datatype activity = CALIBRATE int | LOOP int | SPEED int | REVERSE | ROUTE int int

definition conductor_command :: "int \<Rightarrow> user_command \<Rightarrow> activity option" where
  "conductor_command train cmd = do {
     d0 \<leftarrow> cmd_data cmd 0;
     d1 \<leftarrow> cmd_data cmd 1;
     d2 \<leftarrow> cmd_data cmd 2;
     case uc_type cmd of
       USER_CMD_SD \<Rightarrow> Some (CALIBRATE d1)
     | USER_CMD_LOOP \<Rightarrow> Some (LOOP d1)
     | USER_CMD_TR \<Rightarrow> do { guard_opt (d0 = train); Some (SPEED d1) }
     | USER_CMD_RV \<Rightarrow> do { guard_opt (d0 = train); Some REVERSE }
     | USER_CMD_R \<Rightarrow> do { guard_opt (d0 = train); offset \<leftarrow> cmul d2 100; Some (ROUTE d1 offset) }
     | _ \<Rightarrow> None
   }"

datatype train_conductor_message = TM_SUNSET | TM_USER user_command | TM_SETTRAIN int | TM_OTHER

text \<open>The first message sets the train.\<close>

fun train_conductor_init :: "train_conductor_message \<Rightarrow> (int \<times> conductor_event list) option" where
  "train_conductor_init (TM_SETTRAIN train) = do { guard_opt (train > 0 \<and> train \<le> 80); Some (train, [CE_REPLY]) }"
| "train_conductor_init _ = None"

text \<open>One message; \<open>perform\<close> gives the events of an activity.\<close>

fun train_conductor_step ::
  "(activity \<Rightarrow> conductor_event list option) \<Rightarrow> int \<Rightarrow> train_conductor_message \<Rightarrow> conductor_event list option" where
  "train_conductor_step perform train TM_SUNSET = Some [CE_REPLY, CE_EXIT]"
| "train_conductor_step perform train (TM_USER cmd) = do {
     a \<leftarrow> conductor_command train cmd;
     ev \<leftarrow> perform a;
     Some (CE_REPLY # ev @ (if CE_EXIT \<in> set ev then [] else [CE_READY]))
   }"
| "train_conductor_step perform train (TM_SETTRAIN t) = None"
| "train_conductor_step perform train TM_OTHER = None"

section \<open>Waiting ends\<close>

lemma poll_loop_returns:
  assumes t: "\<And>e. length e = 10 \<Longrightarrow> \<exists>b. triggered e = Some b" and r: "\<And>n. length (reply n) = 10"
  shows "length current = 10 \<Longrightarrow> \<exists>out. poll_loop triggered reply n current ticks timeout = Some out \<and>
    (\<not> out \<longrightarrow> (\<exists>m edge. ticks + REFRESH_PERIOD * int (m + 1) \<le> timeout \<and> length edge = 10 \<and> triggered edge = Some True \<and>
      edge = map2 (\<lambda>x y. NOT x AND y) (if m = 0 then current else reply (n + m - 1)) (reply (n + m))))"
proof (induction "nat (timeout - ticks)" arbitrary: n current ticks rule: less_induct)
  case less
  define edge where "edge = map2 (\<lambda>x y. NOT x AND y) current (reply n)"
  have g: "get_leading_edge current (reply n) = Some (edge, reply n)"
    using less.prems r by (simp add: get_leading_edge_def edge_def)
  have le: "length edge = 10" using less.prems r by (simp add: edge_def)
  obtain b where b: "triggered edge = Some b" using t [OF le] by blast
  show ?case
  proof (cases "b \<or> ticks + REFRESH_PERIOD > timeout")
    case True
    then have "poll_loop triggered reply n current ticks timeout = Some (ticks + REFRESH_PERIOD > timeout)"
      using g b by (subst poll_loop.simps) (simp add: Let_def)
    moreover have "\<exists>m e. ticks + REFRESH_PERIOD * int (m + 1) \<le> timeout \<and> length e = 10 \<and> triggered e = Some True \<and>
        e = map2 (\<lambda>x y. NOT x AND y) (if m = 0 then current else reply (n + m - 1)) (reply (n + m))"
      if "\<not> ticks + REFRESH_PERIOD > timeout"
      using that True b le by (intro exI [of _ 0] exI [of _ edge]) (simp add: edge_def)
    ultimately show ?thesis by blast
  next
    case False
    then have step: "poll_loop triggered reply n current ticks timeout =
        poll_loop triggered reply (n + 1) (reply n) (ticks + REFRESH_PERIOD) timeout"
      using g b by (subst poll_loop.simps) (simp add: Let_def)
    obtain out where out: "poll_loop triggered reply (n + 1) (reply n) (ticks + REFRESH_PERIOD) timeout = Some out"
      "\<not> out \<Longrightarrow> \<exists>m e. ticks + REFRESH_PERIOD + REFRESH_PERIOD * int (m + 1) \<le> timeout \<and> length e = 10 \<and>
        triggered e = Some True \<and>
        e = map2 (\<lambda>x y. NOT x AND y) (if m = 0 then reply n else reply (n + 1 + m - 1)) (reply (n + 1 + m))"
      using less.hyps [of "ticks + REFRESH_PERIOD" "reply n" "n + 1"] False r by (auto simp: REFRESH_PERIOD_def)
    have "\<exists>m e. ticks + REFRESH_PERIOD * int (m + 1) \<le> timeout \<and> length e = 10 \<and> triggered e = Some True \<and>
        e = map2 (\<lambda>x y. NOT x AND y) (if m = 0 then current else reply (n + m - 1)) (reply (n + m))" if no: "\<not> out"
    proof -
      obtain m e where m: "ticks + REFRESH_PERIOD + REFRESH_PERIOD * int (m + 1) \<le> timeout" "length e = 10"
        "triggered e = Some True"
        "e = map2 (\<lambda>x y. NOT x AND y) (if m = 0 then reply n else reply (n + 1 + m - 1)) (reply (n + 1 + m))"
        using out(2) [OF no] by blast
      then have "e = map2 (\<lambda>x y. NOT x AND y) (if m + 1 = 0 then current else reply (n + (m + 1) - 1)) (reply (n + (m + 1)))"
        by (cases m) simp_all
      then show ?thesis using m(1-3)
        by (intro exI [of _ "m + 1"] exI [of _ e]) (simp add: algebra_simps)
    qed
    then show ?thesis using step out(1) by auto
  qed
qed

section \<open>The train stands at the end\<close>

text \<open>The speeds a list of events sets.\<close>

fun speed_of :: "conductor_event \<Rightarrow> int list" where
  "speed_of (CE (TSC (TRAINSETSPEED t v h))) = [v]"
| "speed_of _ = []"

definition speeds_set :: "conductor_event list \<Rightarrow> int list" where
  "speeds_set ev = concat (map speed_of ev)"

lemma speeds_set_append [simp]: "speeds_set (a @ b) = speeds_set a @ speeds_set b"
  by (simp add: speeds_set_def)

lemma switch_turnouts_speeds: "switch_turnouts calls = Some ev \<Longrightarrow> speeds_set (map CE ev) = []"
proof (induction calls arbitrary: ev)
  case (Cons x calls)
  obtain n c where x: "x = (n, c)" by (cases x)
  obtain e1 e2 where e: "switch_turnout n c = Some e1" "switch_turnouts calls = Some e2" "ev = e1 @ e2"
    using Cons.prems x by (auto split: bind_splits)
  have "speeds_set (map CE e1) = []"
    using e(1) by (auto simp: switch_turnout_def speeds_set_def Let_def split: bind_splits if_splits)
  then show ?case using Cons.IH [OF e(2)] e(3) by simp
qed (simp add: speeds_set_def)

lemma setspeed_speeds: "conductor_setspeed train v = Some ev \<Longrightarrow> speeds_set ev = [v]"
  by (auto simp: conductor_setspeed_def set_train_speed_def set_train_speed_and_headlights_def speeds_set_def
      split: bind_splits)

lemma route_to_end_speeds:
  assumes "route_to_end env stack train finish should_speed c t1 t2 = Some ev"
  shows "speeds_set ev = [0]"
  using assms switch_turnouts_speeds setspeed_speeds
  by (auto simp: route_to_end_def speeds_set_def [of "[_]"] speeds_set_def [of "[]"] speeds_set_def [of "_ # _"]
      split: bind_splits if_splits) (auto simp: speeds_set_def)

lemma route_loop_kill: "route_loop finish msgs s = Some (s', ev) \<Longrightarrow> ow_kill s' \<Longrightarrow> CE_EXIT \<in> set ev"
proof (induction msgs arbitrary: s ev)
  case Nil
  then show ?case by (subst (asm) route_loop.simps) (auto simp: route_end_def split: if_splits)
next
  case (Cons x msgs)
  show ?case
  proof (cases "ow_quit s")
    case True
    then show ?thesis using Cons.prems by (subst (asm) route_loop.simps) (auto simp: route_end_def)
  next
    case False
    obtain e f m where x: "x = (e, f, m)" by (cases x)
    obtain s1 ev1 ev2 where "route_loop finish msgs s1 = Some (s', ev2)" "ev = ev1 @ ev2"
      using Cons.prems(1) False x by (subst (asm) route_loop.simps) (auto split: bind_splits)
    then show ?thesis using Cons.IH [OF _ Cons.prems(2)] by auto
  qed
qed

section \<open>The courier takes the requests\<close>

text \<open>A request the courier can handle: a place not more than 10 km away, and a reason it may be asked for.\<close>

definition good_request :: "location_notification \<Rightarrow> bool" where
  "good_request r \<longleftrightarrow> ln_reason r \<noteq> LOCATION_ANY \<and>
     (\<exists>l. ln_subject r = SUBJECT_LOC l \<and> \<bar>l_offset l\<bar> \<le> 1000000000)"

lemma near_duplicate_good: "good_request a \<Longrightarrow> good_request b \<Longrightarrow> near_duplicate a b \<noteq> None"
  by (auto simp: good_request_def near_duplicate_def int32_def cabs_def abs_le_iff)

lemma check_slots_total:
  assumes "good_request r" "\<forall>k \<in> set ks. k < length iss \<and> k < length los \<and> (iss ! k \<longrightarrow> good_request (los ! k))"
    "distinct ks"
  shows "check_slots r los ks iss dup ovr \<noteq> None"
  using assms
proof (induction ks arbitrary: iss dup ovr)
  case (Cons k ks)
  show ?case
  proof (cases "iss ! k")
    case True
    then obtain d where d: "near_duplicate r (los ! k) = Some d"
      using near_duplicate_good [OF Cons.prems(1)] Cons.prems(2) by auto
    have "\<forall>j \<in> set ks. j < length (iss[k := False]) \<and> j < length los \<and> (iss[k := False] ! j \<longrightarrow> good_request (los ! j))"
    proof
      fix j assume "j \<in> set ks"
      then have "j \<noteq> k" using Cons.prems(3) by auto
      then show "j < length (iss[k := False]) \<and> j < length los \<and> (iss[k := False] ! j \<longrightarrow> good_request (los ! j))"
        using Cons.prems(2) \<open>j \<in> set ks\<close> by simp
    qed
    then show ?thesis using True d Cons by (auto simp: Let_def)
  qed (use Cons in simp)
qed simp

text \<open>From empty slots, the slots filled are the first ones, and no search goes past them.\<close>

lemma add_loop_fits:
  assumes "\<forall>r \<in> set rs. good_request r" "length los = N" "length iss = N"
    "\<forall>k < N. iss ! k \<longrightarrow> k \<le> j \<and> good_request (los ! k)" "j + length rs \<le> N" "iss ! j \<longrightarrow> j + length rs < N"
    "rs \<noteq> [] \<longrightarrow> j < N"
  shows "\<exists>los' iss'. add_loop N rs j los iss = Some (0, los', iss')"
  using assms
proof (induction rs arbitrary: j los iss)
  case (Cons r rs)
  have j: "j < N" using Cons.prems(7) by simp
  obtain iss1 dup ovr where c: "check_slots r los [0..<N] iss False False = Some (iss1, dup, ovr)"
    using check_slots_total [of r "[0..<N]" iss los False False] Cons.prems by auto
  note e = check_slots_effect [OF c distinct_upt]
  have l1: "length iss1 = N" using e(1) Cons.prems(3) by simp
  have s1: "iss1 ! k \<Longrightarrow> k \<le> j \<and> good_request (los ! k)" if "k < N" for k
    using e(2) [of k] that Cons.prems(3,4) by simp
  show ?case
  proof (cases "dup \<and> \<not> ovr")
    case True
    have "iss1 ! j \<Longrightarrow> iss ! j" using e(2) [of j] j Cons.prems(3) by simp
    then have "\<exists>los' iss'. add_loop N rs j los iss1 = Some (0, los', iss')"
      using Cons.prems s1 l1 by (intro Cons.IH) auto
    then show ?thesis using c True j Cons.prems(1) by (simp add: good_request_def)
  next
    case False
    have next_free: "\<exists>i. find (\<lambda>i. \<not> iss1 ! i) [j..<N] = Some i \<and> j \<le> i \<and> i + length rs < N"
    proof (cases "iss1 ! j")
      case True
      then have "iss ! j" using e(2) [of j] j Cons.prems(3) by simp
      then have n: "Suc j + length rs < N" using Cons.prems(6) by simp
      then have "\<not> iss1 ! Suc j" using s1 [of "Suc j"] by auto
      then have "find (\<lambda>i. \<not> iss1 ! i) [j..<N] = Some (Suc j)" using True n by (simp add: upt_conv_Cons)
      then show ?thesis using n by (intro exI [of _ "Suc j"]) simp
    next
      case False
      then have "find (\<lambda>i. \<not> iss1 ! i) [j..<N] = Some j" using j by (simp add: upt_conv_Cons)
      then show ?thesis using Cons.prems(5) by (intro exI [of _ j]) simp
    qed
    then obtain i where i: "find (\<lambda>i. \<not> iss1 ! i) [j..<N] = Some i" "j \<le> i" "i + length rs < N" by blast
    have "\<exists>los' iss'. add_loop N rs i (los[i := r]) (iss1[i := True]) = Some (0, los', iss')"
    proof (rule Cons.IH)
      show "\<forall>k < N. iss1[i := True] ! k \<longrightarrow> k \<le> i \<and> good_request (los[i := r] ! k)"
      proof (intro allI impI)
        fix k assume k: "k < N" "iss1[i := True] ! k"
        show "k \<le> i \<and> good_request (los[i := r] ! k)"
        proof (cases "k = i")
          case False
          then show ?thesis using s1 [OF k(1)] k(2) i(2) by auto
        qed (use Cons.prems(1,2) k(1) in simp)
      qed
    qed (use Cons.prems i l1 in auto)
    then show ?thesis using c False j i(1) Cons.prems(1) by (auto simp: good_request_def)
  qed
qed simp

lemma craft_switches_reasons:
  "craft_switches T stack route k f = Some ns \<Longrightarrow> length ns \<le> k \<and>
    (\<forall>n \<in> set ns. ln_reason n = LOCATION_TO_SWITCH \<and> (\<exists>l. ln_subject n = SUBJECT_LOC l))"
proof (induction k arbitrary: f ns)
  case (Suc k)
  then show ?case
    by (fastforce simp: switch_request_def copy_coordinates_def Let_def split: bind_splits option.splits)
qed simp

text \<open>
  C18: what a conductor asks its courier for. It is at most five switches and, last, one stop, nothing
  when the train is lost; and a courier that drops what it has takes such a request without an error.
\<close>

theorem triggers_are_taken:
  assumes "set_new_triggers interp T stack junk c vm sdm route True got_lost = Some request"
    and near: "\<forall>n \<in> set (nr_notifications request). \<forall>l. ln_subject n = SUBJECT_LOC l \<longrightarrow> \<bar>l_offset l\<bar> \<le> 1000000000"
    and los: "length los = MAX_LOCATIONS_TO_OBSERVE"
  shows "nr_num_requests request \<le> 6 \<and> (got_lost \<longrightarrow> nr_notifications request = []) \<and>
    (\<not> got_lost \<longrightarrow> map ln_reason (nr_notifications request) =
      replicate (length (nr_notifications request) - 1) LOCATION_TO_SWITCH @ [LOCATION_TO_STOP]) \<and>
    (\<exists>los' iss'. add_notification_requests (nr_notifications request) (nr_num_requests request) los
      drop_all_notifications = Some (0, los', iss'))"
proof -
  obtain ns where ns: "craft_new_triggers interp T stack junk c vm sdm route got_lost = Some ns"
    and request: "request = \<lparr>nr_notifications = ns, nr_num_requests = int (length ns), nr_drop_existing = True\<rparr>"
    using assms(1) by (auto simp: set_new_triggers_def split: bind_splits)
  have shape: "got_lost \<and> ns = [] \<or> \<not> got_lost \<and> (\<exists>sw l. ns = sw @ [\<lparr>ln_subject = SUBJECT_LOC l,
      ln_reason = LOCATION_TO_STOP, ln_action = junk\<rparr>] \<and> length sw \<le> 5 \<and>
      (\<forall>n \<in> set sw. ln_reason n = LOCATION_TO_SWITCH \<and> (\<exists>l. ln_subject n = SUBJECT_LOC l)))"
    using ns craft_switches_reasons [of T stack route 5 c]
    by (auto simp: craft_new_triggers_def split: bind_splits if_splits)
  then have len: "length ns \<le> 6" by auto
  have reasons: "\<not> got_lost \<longrightarrow> map ln_reason ns = replicate (length ns - 1) LOCATION_TO_SWITCH @ [LOCATION_TO_STOP]"
  proof
    assume "\<not> got_lost"
    then obtain sw l where sw: "ns = sw @ [\<lparr>ln_subject = SUBJECT_LOC l, ln_reason = LOCATION_TO_STOP, ln_action = junk\<rparr>]"
      "\<forall>n \<in> set sw. ln_reason n = LOCATION_TO_SWITCH" using shape by blast
    then have "map ln_reason sw = replicate (length sw) LOCATION_TO_SWITCH" by (simp add: map_replicate_const [symmetric] cong: map_cong)
    then show "map ln_reason ns = replicate (length ns - 1) LOCATION_TO_SWITCH @ [LOCATION_TO_STOP]" using sw(1) by simp
  qed
  have "\<forall>n \<in> set ns. good_request n" using shape near unfolding good_request_def request by fastforce
  then have "\<exists>los' iss'. add_loop MAX_LOCATIONS_TO_OBSERVE ns 0 los drop_all_notifications = Some (0, los', iss')"
    using len los by (intro add_loop_fits) (auto simp: drop_all_notifications_def MAX_LOCATIONS_TO_OBSERVE_def)
  then show ?thesis using shape len reasons unfolding request
    by (auto simp: add_notification_requests_def add_requests_def array_prefix_def MAX_LOCATIONS_TO_OBSERVE_def)
qed

text \<open>A train at A1 on the way to the next node, 231 mm away, with a stopping distance of 1 mm.\<close>

definition sample_route :: route where "sample_route = [Some 0, Some 103, None]"

definition at_a1 :: coordinates where
  "at_a1 = zero_coordinates\<lparr>c_loc := \<lparr>l_node = Some 0, l_offset = 0\<rparr>\<rparr>"

lemma lab_node_0: "node_at lab_track (Some 0) = Some (mk_node ''A1'' NODE_SENSOR 0 1 (mk_edge 102 0 0 103 231) no_edge)"
proof -
  have "array_get lab_track 0 = array_get init_trackb 0" by (rule lab_track_get) simp
  then show ?thesis by (simp add: node_at_def tracka_simps del: array_get_Some)
qed

lemma lab_next_0: "track_node_next lab_track st (Some 0) = Some (Some 103)"
  by (simp add: track_node_next_def lab_node_0)

lemma lab_distance_0: "distance_between_track_nodes lab_track (Some 0) (Some 103) = Some 231"
  by (simp add: distance_between_track_nodes_def FIND_LIMIT_def distance_helper_step lab_node_0)

lemma sample_triggers:
  "set_new_triggers (\<lambda>a b n d. a) lab_track [] (0, 0) at_a1 (replicate 15 0) (replicate 15 100) sample_route True False =
    Some \<lparr>nr_notifications = [\<lparr>ln_subject = SUBJECT_LOC \<lparr>l_node = Some 0, l_offset = 23000\<rparr>,
      ln_reason = LOCATION_TO_STOP, ln_action = (0, 0)\<rparr>], nr_num_requests = 1, nr_drop_existing = True\<rparr>"
proof -
  have v: "stopping_dist_from_velocity (\<lambda>a b n d. a) 0 (replicate 15 0) (replicate 15 100) = Some 100"
    by (simp add: stopping_dist_from_velocity_def upt_conv_Cons)
  have s: "craft_switches lab_track [] sample_route 5 at_a1 = Some []"
    by (simp add: numeral_eq_Suc predict_next_switch_def sample_route_def SWITCH_LOOKAHEAD_NODES_def)
  have r: "get_remaining_dist_in_route lab_track sample_route \<lparr>l_node = Some 0, l_offset = x\<rparr> = int32 (23100 - x)" for x
    by (simp add: get_remaining_dist_in_route_def sample_route_def route_step_dist_def lab_node_0 int32_def Let_def)
  have c: "location_canonicalize lab_track [] \<lparr>l_node = Some 0, l_offset = 23000\<rparr> = Some \<lparr>l_node = Some 0, l_offset = 23000\<rparr>"
    by (subst location_canonicalize_def) (simp add: lab_next_0 lab_distance_0 canonicalize_loop.simps)
  have y: "synthesize_turnout_states_from_route lab_track sample_route [] = Some []"
    by (simp add: synthesize_turnout_states_from_route_def sample_route_def lab_node_0)
  have "predict_train_stop lab_track [] at_a1 sample_route 100 = Some (at_a1\<lparr>c_loc := \<lparr>l_node = Some 0, l_offset = 23000\<rparr>\<rparr>)"
    by (simp add: predict_train_stop_def at_a1_def r y c int32_def)
  then show ?thesis using v s by (simp add: set_new_triggers_def craft_new_triggers_def at_a1_def zero_coordinates_def)
qed

theorem triggers_are_taken_witness:
  "\<exists>los' iss'. add_notification_requests [\<lparr>ln_subject = SUBJECT_LOC \<lparr>l_node = Some 0, l_offset = 23000\<rparr>,
      ln_reason = LOCATION_TO_STOP, ln_action = (0, 0)\<rparr>] 1 (replicate 10 sample_stop) drop_all_notifications =
    Some (0, los', iss')"
  using triggers_are_taken [OF sample_triggers, of "replicate 10 sample_stop"]
  by (simp add: MAX_LOCATIONS_TO_OBSERVE_def)

section \<open>Properties of the waits and the way\<close>

lemma sensor_tests_total:
  assumes "offset < 80" "length e = 10"
  shows "\<exists>b. is_sensor_triggered e offset = Some b"
proof -
  have "list_all (\<lambda>i. (case sensor_data_element (of_nat i) of None \<Rightarrow> False | Some k \<Rightarrow> unat k < 10) \<and>
      sensor_data_mask (of_nat i) \<noteq> None) [0..<80]" by code_simp
  moreover have "unat offset < 80" using assms(1) by (simp add: word_less_nat_alt)
  ultimately have "(case sensor_data_element (of_nat (unat offset)) of None \<Rightarrow> False | Some k \<Rightarrow> unat k < 10) \<and>
      sensor_data_mask (of_nat (unat offset)) \<noteq> None" unfolding list_all_iff by (metis atLeastLessThan_iff le0 set_upt)
  then show ?thesis using assms(2) by (auto simp: is_sensor_triggered_def split: option.splits)
qed



text \<open>
  C22: a train that was sent somewhere stands at the end. Unless the conductor was told to go, the last
  speed it sets when it carries out a route is 0, whatever happened on the way.
\<close>

theorem route_ends_standing:
  assumes "conductor_route_to e train finish readings msgs should_speed c t1 t2 = Some ev" "CE_EXIT \<notin> set ev"
  shows "speeds_set ev \<noteq> [] \<and> last (speeds_set ev) = 0"
proof -
  obtain go ev1 where r: "route_to_within_stopping_distance e train finish readings msgs = Some (go, ev1)"
    using assms(1) by (auto simp: conductor_route_to_def split: bind_splits)
  have go
  proof (rule ccontr)
    assume "\<not> go"
    then have "CE_EXIT \<in> set ev1" using r route_loop_kill
      by (fastforce simp: route_to_within_stopping_distance_def split: bind_splits option.splits)
    then show False using assms r \<open>\<not> go\<close> by (simp add: conductor_route_to_def)
  qed
  then obtain ev2 where "route_to_end (rs_router e) (rs_stack e) train finish should_speed c t1 t2 = Some ev2" "ev = ev1 @ ev2"
    using assms(1) r by (auto simp: conductor_route_to_def split: bind_splits)
  then show ?thesis using route_to_end_speeds by simp
qed

text \<open>A track of one dead end, on which the only route is where the train is.\<close>

definition dead_end :: track where
  "dead_end = [\<lparr>n_name = ''EX1'', n_type = NODE_EXIT, n_num = 1, n_reverse = Some 0, n_edge0 = no_edge, n_edge1 = no_edge\<rparr>]"

definition dead_end_env :: router_env where
  "dead_end_env = \<lparr>re_track = dead_end, re_nodes = 1, re_queue = blank_queue, re_forwards = replicate 144 None,
     re_backwards = replicate 144 None\<rparr>"

lemma dead_end_path: "route_path dead_end 0 p v d \<Longrightarrow> p = [0]"
  by (erule route_pathE) (auto simp: track_link_def edges_of_def dead_end_def)

lemma dead_end_route:
  "\<exists>rest. ask_route dead_end_env \<lparr>l_node = Some 0, l_offset = x\<rparr> \<lparr>l_node = Some 0, l_offset = 0\<rparr> stack =
    Some (0, Some 0 # None # rest)"
proof -
  have T: "routable dead_end 1"
    by (simp add: routable_def dead_end_def edges_of_def twin_ok_def MAX_ROUTE_LENGTH_def TRACK_MAX_def)
  have r: "n_reverse (dead_end ! 0) = Some 0" by (simp add: dead_end_def)
  obtain reply route' where a: "router_step dead_end 1 blank_queue (replicate 144 None) (replicate 144 None)
      \<lparr>l_node = Some 0, l_offset = x\<rparr> \<lparr>l_node = Some 0, l_offset = 0\<rparr> stack = Some (reply, route')"
    "if reply = REPLY_GET_ROUTE_ERROR then route' = stack \<and> (\<nexists>p v d. v \<in> {0, 0} \<and> route_path dead_end 0 p v d)
     else \<exists>p v d rest. route' = map Some p @ None # rest \<and> v \<in> {0, 0} \<and> route_path dead_end 0 p v d \<and>
       (\<forall>p' v' d'. v' \<in> {0, 0} \<longrightarrow> route_path dead_end 0 p' v' d' \<longrightarrow> d \<le> d')"
    using router_ok [OF T _ _ _ _ r _ blank_queue_length blank_route_length blank_route_length,
      of "\<lparr>l_node = Some 0, l_offset = x\<rparr>" 0 "\<lparr>l_node = Some 0, l_offset = 0\<rparr>" stack] by auto
  have "route_path dead_end 0 [0] 0 0" by (rule route_path.start)
  then have ok: "reply \<noteq> REPLY_GET_ROUTE_ERROR" using a(2) by auto
  then obtain p v d rest where "route' = map Some p @ None # rest" "route_path dead_end 0 p v d" using a(2) by auto
  then have "route' = Some 0 # None # rest" using dead_end_path by fastforce
  moreover have "reply = REPLY_GET_ROUTE_OK" using ok by (cases reply) auto
  ultimately show ?thesis using a(1) by (simp add: ask_route_def get_route_def dead_end_env_def)
qed

definition dead_end_setup :: route_setup where
  "dead_end_setup = \<lparr>rs_router = dead_end_env, rs_stack = replicate 144 None, rs_speed1 = 0, rs_direction1 = True,
     rs_speed2 = 0, rs_direction2 = True, rs_stopping_model = replicate 15 100\<rparr>"

lemma dead_end_arrives:
  "\<exists>ev. conductor_route_to dead_end_setup 24 \<lparr>l_node = Some 0, l_offset = 0\<rparr> [at_a1] [] 0 at_a1 [] [] = Some ev \<and>
    CE_EXIT \<notin> set ev"
proof -
  have loc: "c_loc at_a1 = \<lparr>l_node = Some 0, l_offset = 0\<rparr>" by (simp add: at_a1_def)
  obtain rest where r: "ask_route dead_end_env \<lparr>l_node = Some 0, l_offset = 0\<rparr> \<lparr>l_node = Some 0, l_offset = 0\<rparr>
      (replicate 144 None) = Some (0, Some 0 # None # rest)" using dead_end_route by blast
  have f: "find_route dead_end_setup 24 \<lparr>l_node = Some 0, l_offset = 0\<rparr> at_a1 [] = Some (at_a1, Some (Some 0 # None # rest), [])"
    using r by (simp add: find_route_def loc dead_end_setup_def)
  have sp: "get_max_feasible_speed 0 (replicate 15 100) = Some (-1)"
    by (simp add: get_max_feasible_speed_def upt_conv_Cons)
  have d: "get_remaining_dist_in_route T (Some 0 # None # rest) \<lparr>l_node = Some 0, l_offset = 0\<rparr> = Some 0" for T
    by (simp add: get_remaining_dist_in_route_def int32_def)
  have "route_start dead_end_setup 24 \<lparr>l_node = Some 0, l_offset = 0\<rparr> [at_a1] = Some (None, [])"
    using f sp d by (simp add: route_start_def loc macro_abs_def int32_def Let_def)
      (simp add: dead_end_setup_def)
  then have "route_to_within_stopping_distance dead_end_setup 24 \<lparr>l_node = Some 0, l_offset = 0\<rparr> [at_a1] [] = Some (True, [])"
    by (simp add: route_to_within_stopping_distance_def)
  moreover have "\<exists>ev. route_to_end dead_end_env (replicate 144 None) 24 \<lparr>l_node = Some 0, l_offset = 0\<rparr> 0 at_a1 [] [] = Some ev \<and>
      CE_EXIT \<notin> set ev"
    using r by (simp add: route_to_end_def loc conductor_setspeed_def set_train_speed_def set_train_speed_and_headlights_def
      num_turnouts_within_distance_def switch_turnouts_within_distance_def cmul_def int32_def)
  ultimately show ?thesis by (auto simp: conductor_route_to_def dead_end_setup_def)
qed

theorem route_ends_standing_witness:
  "\<exists>ev. conductor_route_to dead_end_setup 24 \<lparr>l_node = Some 0, l_offset = 0\<rparr> [at_a1] [] 0 at_a1 [] [] = Some ev \<and>
    last (speeds_set ev) = 0"
  using dead_end_arrives route_ends_standing by blast

section \<open>What goes wrong\<close>

text \<open>
  On the way only the courier is listened to: the dispatcher's order to go, for which the loop has a
  case, fails the assertion before it.
\<close>

lemma sunset_on_the_way_fails: "route_step e finish False COND_SUNSET s = None"
  by (simp add: route_step_def)

text \<open>When no route is found the router leaves the array as it was, and the conductor reads it all the same.\<close>

lemma no_route_reads_stack:
  assumes "ask_route env (c_loc c) finish stack = Some (r, stack)" "conductor_setspeed train 0 = Some stop"
    "num_turnouts_within_distance (re_track env) t1 stack (c_loc c) 200000 = None"
  shows "route_to_end env stack train finish v c t1 t2 = None"
  using assms by (simp add: route_to_end_def)

text \<open>The speed chosen for a way is the highest whose stopping distance fits 1.8 times into it.\<close>

lemma feasible_speed_highest:
  assumes "feasible_loop path_length sdm (List.rev [1..<Suc n]) = Some v" "n < length sdm"
  shows "(v = -1 \<or> 1 \<le> v \<and> v \<le> int n \<and> 9 * uint (sdm ! nat v) < 5 * path_length) \<and>
    (\<forall>k. v < int k \<longrightarrow> 1 \<le> k \<longrightarrow> k \<le> n \<longrightarrow> 5 * path_length \<le> 9 * uint (sdm ! k))"
  using assms
proof (induction n)
  case (Suc n)
  have r: "List.rev [1..<Suc (Suc n)] = Suc n # List.rev [1..<Suc n]" by simp
  show ?case
  proof (cases "5 * path_length > 9 * uint (sdm ! Suc n)")
    case True
    then have "v = int (Suc n)" using Suc.prems unfolding r by (auto simp del: upt_Suc)
    moreover have "nat (int (Suc n)) = Suc n" by (rule nat_int)
    ultimately show ?thesis using True by auto
  next
    case False
    then have "feasible_loop path_length sdm (List.rev [1..<Suc n]) = Some v"
      using Suc.prems unfolding r by (simp del: upt_Suc)
    from Suc.IH [OF this] False Suc.prems(2) show ?thesis by (auto simp: le_Suc_eq)
  qed
qed simp

end
