(* ===== verification/Group_Conductor.thy ===== *)
theory Group_Conductor
  imports Train_Conductor
begin

text \<open>
  The conductor of a group of trains, \<open>usr/train/multi_train_conductor.c\<close>: it sets the speeds of the
  members so that none runs into the one ahead, turns the group around, and reacts to what its
  courier reports of the spacing.
\<close>

definition GROUP_SWITCH_DIST :: int where "GROUP_SWITCH_DIST = 30000"
definition MIN_DIFF :: int where "MIN_DIFF = 1500"

text \<open>A group, \<open>lib/groups.h\<close>; the trains in the order they run in, the first one ahead.\<close>

record train_group =
  tg_members :: "int list"
  tg_num_members :: int

section \<open>Speeds\<close>

fun above_loop :: "int \<Rightarrow> u32 list \<Rightarrow> nat list \<Rightarrow> int option" where
  "above_loop target vs [] = Some (-1)"
| "above_loop target vs (i # js) = do {
     v \<leftarrow> array_get vs i;
     if sint v \<ge> target then Some (int i) else above_loop target vs js
   }"

definition speed_above :: "int \<Rightarrow> u32 list \<Rightarrow> int option" where
  "speed_above target velocities = above_loop target velocities [0..<15]"

fun below_loop :: "int \<Rightarrow> u32 list \<Rightarrow> nat list \<Rightarrow> int option" where
  "below_loop target vs [] = Some 0"
| "below_loop target vs (i # js) = do {
     v \<leftarrow> array_get vs i;
     t \<leftarrow> int32 (target - MIN_DIFF);
     if sint v \<le> t then Some (int i) else below_loop target vs js
   }"

definition speed_below :: "int \<Rightarrow> u32 list \<Rightarrow> int option" where
  "speed_below target velocities = below_loop target velocities (List.rev [0..<15])"

text \<open>
  One pass over the members after the first: their speeds below the leader's velocity, or nothing when
  one of them cannot reach it. \<open>models\<close> are the velocities of the followers.
\<close>

fun follower_speeds :: "u32 \<Rightarrow> u32 list list \<Rightarrow> int list option option" where
  "follower_speeds lead_velocity [] = Some (Some [])"
| "follower_speeds lead_velocity (m # ms) = do {
     top \<leftarrow> array_get m 14;
     if top < lead_velocity then Some None
     else do {
       s \<leftarrow> speed_below (sint lead_velocity) m;
       r \<leftarrow> follower_speeds lead_velocity ms;
       Some (map_option (Cons s) r)
     }
   }"

text \<open>The search: the leader's speed is taken down until all can follow. A negative one reads outside the model.\<close>

function group_speeds :: "u32 list \<Rightarrow> u32 list list \<Rightarrow> int \<Rightarrow> int list option" where
  "group_speeds lead ms speed =
     (if speed < 0 then None
      else do {
        lead_velocity \<leftarrow> array_get lead (nat speed);
        r \<leftarrow> follower_speeds lead_velocity ms;
        case r of None \<Rightarrow> group_speeds lead ms (speed - 1) | Some ss \<Rightarrow> Some (speed # ss)
      })"
  by auto
termination by (relation "measure (\<lambda>(lead, ms, speed). nat (speed + 1))") auto

declare group_speeds.simps [simp del]

fun set_group_speeds :: "int list \<Rightarrow> int list \<Rightarrow> cmd_event list option" where
  "set_group_speeds [] ss = Some []"
| "set_group_speeds (t # ts) [] = None"
| "set_group_speeds (t # ts) (v # ss) = do {
     guard_opt (v \<ge> 0);
     ev \<leftarrow> set_train_speed t v;
     ev' \<leftarrow> set_group_speeds ts ss;
     Some (ev @ ev')
   }"

text \<open>\<open>models\<close> are the replies to the questions for the velocities of the members.\<close>

definition multi_conductor_setspeed :: "int list \<Rightarrow> u32 list list \<Rightarrow> int \<Rightarrow> cmd_event list option" where
  "multi_conductor_setspeed members models speed = do {
     guard_opt (length models = length members);
     lead \<leftarrow> array_get models 0;
     ss \<leftarrow> group_speeds lead (tl models) speed;
     ev \<leftarrow> set_group_speeds members ss;
     Some (map (\<lambda>t. TSC (GETCONSTANTSPEEDMODEL (char_field t))) members @ ev)
   }"

section \<open>Turning around\<close>

text \<open>\<open>directions\<close> are the replies of the track state controller.\<close>

fun reverse_members :: "int list \<Rightarrow> bool list \<Rightarrow> cmd_event list option" where
  "reverse_members [] ds = Some []"
| "reverse_members (t # ts) [] = None"
| "reverse_members (t # ts) (d # ds) = do {
     ev \<leftarrow> reverse_train t d;
     ev' \<leftarrow> reverse_members ts ds;
     Some (ev @ ev')
   }"

definition reverse_order :: "train_group \<Rightarrow> train_group option" where
  "reverse_order g = do {
     ms \<leftarrow> array_prefix (tg_members g) (tg_num_members g);
     Some (g\<lparr>tg_members := List.rev ms @ drop (length ms) (tg_members g)\<rparr>)
   }"

definition reverse_group :: "train_group \<Rightarrow> bool list \<Rightarrow> (train_group \<times> cmd_event list) option" where
  "reverse_group g directions = do {
     ms \<leftarrow> array_prefix (tg_members g) (tg_num_members g);
     ev \<leftarrow> reverse_members ms directions;
     g' \<leftarrow> reverse_order g;
     Some (g', ev)
   }"

section \<open>Switches\<close>

text \<open>The turnouts of the loop the groups run on, and how they have to be.\<close>

definition group_turnouts :: "(int \<times> bool) list" where
  "group_turnouts = [(6, False), (7, False), (8, False), (9, False), (11, True), (14, False), (15, False)]"

text \<open>
  One request: 30 cm before the turnout, brought to a node of the track; whether that succeeds is not
  looked at. \<open>n\<close> is what the array held at its place.
\<close>

definition loop_trigger ::
  "track \<Rightarrow> turnout_state list \<Rightarrow> int \<Rightarrow> bool \<Rightarrow> location_notification \<Rightarrow> location_notification option" where
  "loop_trigger T turnouts num curved n = do {
     let at = \<lparr>l_node = Some (turnout_num_to_node (of_int num)), l_offset = - GROUP_SWITCH_DIST\<rparr>;
     (_, loc) \<leftarrow> location_rebase T turnouts at at;
     Some (n\<lparr>ln_subject := SUBJECT_LOC loc, ln_reason := LOCATION_TO_SWITCH,
       ln_action := set_switch_to_switch (of_int num, if curved then 1 else 0) (ln_action n)\<rparr>)
   }"

fun craft_loop_triggers ::
  "track \<Rightarrow> turnout_state list \<Rightarrow> (int \<times> bool) list \<Rightarrow> location_notification list \<Rightarrow> nat \<Rightarrow>
   (location_notification list \<times> nat) option" where
  "craft_loop_triggers T turnouts [] ns n = Some (ns, n)"
| "craft_loop_triggers T turnouts ((num, curved) # rest) ns n = do {
     old \<leftarrow> array_get ns n;
     new \<leftarrow> loop_trigger T turnouts num curved old;
     craft_loop_triggers T turnouts rest (ns[n := new]) (n + 1)
   }"

definition craft_loop_switch_triggers ::
  "track \<Rightarrow> turnout_state list \<Rightarrow> location_notification list \<Rightarrow> nat \<Rightarrow> (location_notification list \<times> nat) option" where
  "craft_loop_switch_triggers T turnouts ns n = craft_loop_triggers T turnouts group_turnouts ns n"

section \<open>Spacing\<close>

text \<open>
  What a wrong spacing leads to: a new speed for the follower, -1 for none, and one for the first train
  of the group if the follower cannot catch up. \<open>actual\<close> and \<open>expected\<close> are distances in mm, \<open>leader\<close>
  and \<open>follower\<close> the coordinates of the two trains.
\<close>

definition spacing_error_speed :: "int \<Rightarrow> int \<Rightarrow> int \<Rightarrow> int option" where
  "spacing_error_speed catchup_time actual expected = do {
     d \<leftarrow> int32 (actual - expected);
     a \<leftarrow> macro_abs d;
     x \<leftarrow> cmul 10000 a;
     cdiv x catchup_time
   }"

definition spacing_reaction ::
  "int \<Rightarrow> int \<Rightarrow> int \<Rightarrow> coordinates \<Rightarrow> coordinates \<Rightarrow> u32 list \<Rightarrow> u32 list \<Rightarrow> (int \<times> int option) option" where
  "spacing_reaction catchup_time actual expected leader follower follower_model first_model = do {
     error_p_s \<leftarrow> spacing_error_speed catchup_time actual expected;
     if c_target_velocity leader = 0 then Some (0, None)
     else if actual < expected then
       if c_acceleration leader > 0 then do {
         v \<leftarrow> speed_above (c_velocity follower) follower_model;
         Some (v, None)
       }
       else do {
         t \<leftarrow> int32 (c_target_velocity leader - error_p_s);
         v \<leftarrow> speed_below t follower_model;
         Some (v, None)
       }
     else if actual > expected \<and> c_acceleration leader < 0 then do {
       v \<leftarrow> speed_below (c_velocity follower) follower_model;
       Some (v, None)
     }
     else if actual > expected then do {
       up \<leftarrow> speed_above (c_target_velocity leader) follower_model;
       if up \<noteq> -1 then do {
         t \<leftarrow> int32 (c_target_velocity leader + error_p_s);
         v \<leftarrow> speed_above t follower_model;
         Some (if v = -1 then 14 else v, None)
       }
       else do {
         top \<leftarrow> array_get follower_model 14;
         first \<leftarrow> speed_below (sint top) first_model;
         Some (-1, if first \<noteq> -1 then Some first else None)
       }
     }
     else Some (-1, None)
   }"

section \<open>The task\<close>

datatype group_event =
    GC cmd_event
  | GC_SWITCHER int bool
  | GC_REPLY
  | GC_REPLY_REQUEST notification_request
  | GC_GET_COORDS int
  | GC_CREATE_COURIER train_group
  | GC_KILL_COURIER
  | GC_ALARM int
  | GC_WRITE_GROUP train_group

datatype group_message = GM_SUNSET | GM_USER user_command | GM_NOTIFY location_notification | GM_WAKEUP
  | GM_SETGROUP train_group | GM_OTHER

text \<open>The conductor's copy of the group, the speed to go back to after turning around, the time of the last switch.\<close>

record group_conductor =
  gc_group :: train_group
  gc_should_speed :: int
  gc_last_switch :: int
  gc_done :: bool

text \<open>
  What the servers reply during one message, and the group the dispatcher's pointer leads to:
  \<open>ge_stack\<close> is what the message for the courier held before.
\<close>

record group_env =
  ge_models :: "u32 list list"
  ge_should_speed :: int
  ge_turnouts :: "turnout_state list"
  ge_stack :: "location_notification list"
  ge_time :: int
  ge_shared :: train_group
  ge_directions :: "bool list"
  ge_leader :: coordinates
  ge_follower :: coordinates
  ge_follower_model :: "u32 list"
  ge_first_model :: "u32 list"
  ge_catchup_time :: int

fun multi_conductor_init :: "group_message \<Rightarrow> int \<Rightarrow> int \<Rightarrow> (group_conductor \<times> group_event list) option" where
  "multi_conductor_init (GM_SETGROUP g) time stack =
     Some (\<lparr>gc_group = g, gc_should_speed = stack, gc_last_switch = time, gc_done = False\<rparr>, [GC_REPLY, GC_CREATE_COURIER g])"
| "multi_conductor_init _ time stack = None"

definition trains_of :: "train_group \<Rightarrow> int list option" where
  "trains_of g = array_prefix (tg_members g) (tg_num_members g)"

definition group_user ::
  "group_env \<Rightarrow> user_command \<Rightarrow> group_conductor \<Rightarrow> (group_conductor \<times> group_event list) option" where
  "group_user e cmd s = (case uc_type cmd of
     USER_CMD_TRG \<Rightarrow> do {
       trains \<leftarrow> trains_of (gc_group s);
       speed \<leftarrow> cmd_data cmd 1;
       ev \<leftarrow> multi_conductor_setspeed trains (ge_models e) speed;
       Some (s, map GC ev @ [GC_REPLY])
     }
   | USER_CMD_RVG \<Rightarrow> do {
       trains \<leftarrow> trains_of (gc_group s);
       first \<leftarrow> array_get (tg_members (gc_group s)) 0;
       ev \<leftarrow> multi_conductor_setspeed trains (ge_models e) 0;
       ticks \<leftarrow> cmul (ge_should_speed e) 33;
       Some (s\<lparr>gc_should_speed := ge_should_speed e\<rparr>,
         GC (TSC (GETTRAIN (char_field first))) # map GC ev @ [GC_ALARM (max 1 ticks), GC_REPLY])
     }
   | _ \<Rightarrow> None)"

definition loop_request :: "track \<Rightarrow> group_env \<Rightarrow> bool \<Rightarrow> notification_request option" where
  "loop_request T e drop_existing = do {
     (ns, n) \<leftarrow> craft_loop_switch_triggers T (ge_turnouts e) (ge_stack e) 0;
     Some \<lparr>nr_notifications = ns, nr_num_requests = int n, nr_drop_existing = drop_existing\<rparr>
   }"

definition group_spacing ::
  "group_env \<Rightarrow> location_notification \<Rightarrow> group_conductor \<Rightarrow> group_event list option" where
  "group_spacing e n s = (case ln_subject n of
     SUBJECT_LOC l \<Rightarrow> None
   | SUBJECT_TRAINS leader follower \<Rightarrow> do {
       first \<leftarrow> array_get (tg_members (gc_group s)) 0;
       (new_speed, first_speed) \<leftarrow> spacing_reaction (ge_catchup_time e) (sint (fst (ln_action n))) (sint (snd (ln_action n)))
         (ge_leader e) (ge_follower e) (ge_follower_model e) (ge_first_model e);
       slow \<leftarrow> (case first_speed of
           None \<Rightarrow> Some []
         | Some v \<Rightarrow> map_option (Cons (TSC (GETCONSTANTSPEEDMODEL (char_field first)))) (set_train_speed first v));
       ev \<leftarrow> (if new_speed \<noteq> -1 then set_train_speed follower new_speed else Some []);
       Some ([GC_GET_COORDS leader, GC_GET_COORDS follower, GC (TSC (GETCONSTANTSPEEDMODEL (char_field leader))),
         GC (TSC (GETCONSTANTSPEEDMODEL (char_field follower)))] @ map GC (slow @ ev) @ [GC_REPLY])
     })"

definition group_notification ::
  "track \<Rightarrow> group_env \<Rightarrow> location_notification \<Rightarrow> group_conductor \<Rightarrow> (group_conductor \<times> group_event list) option" where
  "group_notification T e n s =
     (if ln_reason n \<in> {GOT_LOST, LOCATION_CHANGED, LOCATION_ANY} then do {
        r \<leftarrow> loop_request T e True;
        Some (s, [GC_REPLY_REQUEST r])
      }
      else if ln_reason n = LOCATION_TO_SWITCH then do {
        let sw = switch_to_switch (ln_action n);
        due \<leftarrow> int32 (gc_last_switch s + 30);
        (s', r) \<leftarrow> (if due < ge_time e then do {
            r \<leftarrow> loop_request T e False;
            Some (s\<lparr>gc_last_switch := ge_time e\<rparr>, r)
          }
          else Some (s, \<lparr>nr_notifications = ge_stack e, nr_num_requests = 0, nr_drop_existing = False\<rparr>));
        Some (s', [GC_SWITCHER (uint (fst sw)) (snd sw \<noteq> 0), GC_REPLY_REQUEST r])
      }
      else if ln_reason n = SPACING then do {
        ev \<leftarrow> group_spacing e n s;
        Some (s, ev)
      }
      else None)"

text \<open>
  The alarm after a stop: the group, in the dispatcher's table too, is turned around, and a new courier
  takes over. The task that woke the conductor gets no reply.
\<close>

definition group_wakeup :: "group_env \<Rightarrow> group_conductor \<Rightarrow> (group_conductor \<times> group_event list) option" where
  "group_wakeup e s = do {
     (g, turn) \<leftarrow> reverse_group (ge_shared e) (ge_directions e);
     trains \<leftarrow> trains_of g;
     ev \<leftarrow> multi_conductor_setspeed trains (ge_models e) (gc_should_speed s);
     Some (s\<lparr>gc_group := g\<rparr>, map GC turn @ [GC_WRITE_GROUP g, GC_KILL_COURIER, GC (DELAY 8), GC_CREATE_COURIER g] @ map GC ev)
   }"

fun multi_conductor_step ::
  "track \<Rightarrow> group_env \<Rightarrow> group_message \<Rightarrow> group_conductor \<Rightarrow> (group_conductor \<times> group_event list) option" where
  "multi_conductor_step T e GM_SUNSET s = Some (s\<lparr>gc_done := True\<rparr>, [GC_KILL_COURIER, GC_REPLY])"
| "multi_conductor_step T e (GM_USER cmd) s = group_user e cmd s"
| "multi_conductor_step T e (GM_NOTIFY n) s = group_notification T e n s"
| "multi_conductor_step T e GM_WAKEUP s = group_wakeup e s"
| "multi_conductor_step T e (GM_SETGROUP g) s = None"
| "multi_conductor_step T e GM_OTHER s = None"

section \<open>Choosing speeds\<close>

definition best_below :: "int \<Rightarrow> u32 list \<Rightarrow> int" where
  "best_below target vs = (case find (\<lambda>i. sint (vs ! i) \<le> target - MIN_DIFF) (List.rev [0..<15]) of
     None \<Rightarrow> 0 | Some i \<Rightarrow> int i)"

definition least_above :: "int \<Rightarrow> u32 list \<Rightarrow> int" where
  "least_above target vs = (case find (\<lambda>i. sint (vs ! i) \<ge> target) [0..<15] of None \<Rightarrow> -1 | Some i \<Rightarrow> int i)"

lemma above_loop_find:
  "\<forall>i \<in> set ks. i < length vs \<Longrightarrow>
   above_loop target vs ks = Some (case find (\<lambda>i. sint (vs ! i) \<ge> target) ks of None \<Rightarrow> -1 | Some i \<Rightarrow> int i)"
  by (induction ks) auto

lemma below_loop_find:
  "\<forall>i \<in> set ks. i < length vs \<Longrightarrow> int32 (target - MIN_DIFF) = Some (target - MIN_DIFF) \<Longrightarrow>
   below_loop target vs ks = Some (case find (\<lambda>i. sint (vs ! i) \<le> target - MIN_DIFF) ks of None \<Rightarrow> 0 | Some i \<Rightarrow> int i)"
  by (induction ks) auto

text \<open>What a search finds is in the list and fits.\<close>

lemma find_SomeD: "find P xs = Some x \<Longrightarrow> x \<in> set xs \<and> P x"
  by (induction xs) (auto split: if_splits)

lemma speed_above_eq: "length vs = 15 \<Longrightarrow> speed_above target vs = Some (least_above target vs)"
  by (simp add: speed_above_def least_above_def above_loop_find del: upt.simps upt_Suc)

lemma speed_below_eq:
  assumes "length vs = 15" "- (2 ^ 31) + 1500 \<le> target" "target < 2 ^ 31"
  shows "speed_below target vs = Some (best_below target vs)"
proof -
  have "int32 (target - MIN_DIFF) = Some (target - MIN_DIFF)" using assms by (simp add: int32_Some MIN_DIFF_def)
  then show ?thesis using assms(1)
    by (simp add: speed_below_def best_below_def below_loop_find del: upt.simps upt_Suc)
qed

lemma best_below_range: "0 \<le> best_below target vs" "best_below target vs \<le> 14"
  "best_below target vs = 0 \<or> sint (vs ! nat (best_below target vs)) \<le> target - 1500"
proof -
  have "0 \<le> best_below target vs \<and> best_below target vs \<le> 14 \<and>
    (best_below target vs = 0 \<or> sint (vs ! nat (best_below target vs)) \<le> target - 1500)"
  proof (cases "find (\<lambda>i. sint (vs ! i) \<le> target - MIN_DIFF) (List.rev [0..<15])")
    case (Some i)
    then have "i \<in> set (List.rev [0..<15])" "sint (vs ! i) \<le> target - MIN_DIFF" by (auto dest: find_SomeD simp del: set_rev)
    then show ?thesis using Some by (auto simp: best_below_def MIN_DIFF_def)
  qed (simp add: best_below_def)
  then show "0 \<le> best_below target vs" "best_below target vs \<le> 14"
    "best_below target vs = 0 \<or> sint (vs ! nat (best_below target vs)) \<le> target - 1500" by auto
qed

lemma least_above_range:
  "least_above target vs = -1 \<and> (\<forall>i < 15. sint (vs ! i) < target) \<or>
   0 \<le> least_above target vs \<and> least_above target vs \<le> 14 \<and> target \<le> sint (vs ! nat (least_above target vs))"
proof (cases "find (\<lambda>i. sint (vs ! i) \<ge> target) [0..<15]")
  case None
  then have "least_above target vs = -1" by (simp add: least_above_def del: upt.simps upt_Suc)
  moreover have "\<forall>i < 15. sint (vs ! i) < target"
    using None by (auto simp: find_None_iff not_le simp del: upt.simps upt_Suc)
  ultimately show ?thesis by simp
next
  case (Some i)
  then have "i \<in> set [0..<15]" "sint (vs ! i) \<ge> target" by (auto dest: find_SomeD simp del: upt.simps upt_Suc set_upt)
  then show ?thesis using Some by (auto simp: least_above_def)
qed

lemma follower_speeds_eq:
  assumes "\<forall>m \<in> set ms. length m = 15" "0 \<le> sint lv"
  shows "follower_speeds lv ms =
    Some (if \<exists>m \<in> set ms. m ! 14 < lv then None else Some (map (best_below (sint lv)) ms))"
proof -
  have "sint lv < 2 ^ 31" using sint_lt [of lv] by simp
  then show ?thesis using assms
    by (induction ms) (auto simp: speed_below_eq)
qed

lemma group_speeds_nat:
  "k < length lead \<Longrightarrow> group_speeds lead ms (int k) = Option.bind (follower_speeds (lead ! k) ms)
     (case_option (group_speeds lead ms (int k - 1)) (\<lambda>ss. Some (int k # ss)))"
  by (subst group_speeds.simps) simp

lemma group_speeds_found:
  assumes "length lead = 15" "\<forall>m \<in> set ms. length m = 15" "\<forall>v < 15. 0 \<le> sint (lead ! v)"
    "\<forall>m \<in> set ms. lead ! 0 \<le> m ! 14"
  shows "speed < 15 \<Longrightarrow> \<exists>v \<le> speed. group_speeds lead ms (int speed) = Some (int v # map (best_below (sint (lead ! v))) ms) \<and>
    (\<forall>m \<in> set ms. lead ! v \<le> m ! 14) \<and> (\<forall>w. v < w \<and> w \<le> speed \<longrightarrow> (\<exists>m \<in> set ms. m ! 14 < lead ! w))"
proof (induction speed)
  case 0
  then show ?case using assms
    by (subst group_speeds.simps) (auto simp: follower_speeds_eq not_less)
next
  case (Suc k)
  have f: "follower_speeds (lead ! Suc k) ms =
    Some (if \<exists>m \<in> set ms. m ! 14 < lead ! Suc k then None else Some (map (best_below (sint (lead ! Suc k))) ms))"
    using assms Suc.prems by (intro follower_speeds_eq) auto
  show ?case
  proof (cases "\<exists>m \<in> set ms. m ! 14 < lead ! Suc k")
    case True
    then have "group_speeds lead ms (int (Suc k)) = group_speeds lead ms (int k)"
      using f assms(1) Suc.prems group_speeds_nat [of "Suc k" lead ms] by simp
    moreover obtain v where v: "v \<le> k" "group_speeds lead ms (int k) = Some (int v # map (best_below (sint (lead ! v))) ms)"
      "\<forall>m \<in> set ms. lead ! v \<le> m ! 14" "\<forall>w. v < w \<and> w \<le> k \<longrightarrow> (\<exists>m \<in> set ms. m ! 14 < lead ! w)"
      using Suc by auto
    moreover have "\<forall>w. v < w \<and> w \<le> Suc k \<longrightarrow> (\<exists>m \<in> set ms. m ! 14 < lead ! w)"
      using v(4) True by (metis le_Suc_eq)
    ultimately show ?thesis by (intro exI [of _ v]) simp
  next
    case False
    then have "group_speeds lead ms (int (Suc k)) = Some (int (Suc k) # map (best_below (sint (lead ! Suc k))) ms)"
      using f assms(1) Suc.prems by (simp add: group_speeds_nat del: of_nat_Suc)
    then show ?thesis using False by (intro exI [of _ "Suc k"]) (auto simp: not_less)
  qed
qed

lemma set_group_speeds_events:
  assumes "length ss = length members" "\<forall>t \<in> set members. 1 \<le> t \<and> t \<le> 80" "\<forall>v \<in> set ss. 0 \<le> v \<and> v \<le> 14"
  shows "\<exists>ev. set_group_speeds members ss = Some ev \<and> [(t, v). TSC (TRAINSETSPEED t v h) \<leftarrow> ev] = zip members ss \<and>
    [t. TSC (TRAINREVERSED t d) \<leftarrow> ev] = []"
  using assms
proof (induction members arbitrary: ss)
  case (Cons t ts)
  then obtain v ss' where ss: "ss = v # ss'" by (cases ss) auto
  obtain ev where "set_group_speeds ts ss' = Some ev" "[(t, v). TSC (TRAINSETSPEED t v h) \<leftarrow> ev] = zip ts ss'"
    "[t. TSC (TRAINREVERSED t d) \<leftarrow> ev] = []"
    using Cons.IH [of ss'] Cons.prems ss by auto
  then show ?case using Cons.prems ss by (simp add: set_train_speed_def set_train_speed_and_headlights_def)
qed simp

lemma group_speeds_ok:
  assumes models: "length models = length members" "models \<noteq> []" "\<forall>m \<in> set models. length m = 15 \<and> (\<forall>v < 15. 0 \<le> sint (m ! v))"
    and members: "\<forall>t \<in> set members. 1 \<le> t \<and> t \<le> 80"
    and startable: "\<forall>m \<in> set models. hd models ! 0 \<le> m ! 14"
    and speed: "speed < 15"
  shows "\<exists>ev v ss. multi_conductor_setspeed members models (int speed) = Some ev \<and>
    [t. TSC (TRAINREVERSED t d) \<leftarrow> ev] = [] \<and>
    [(t, v). TSC (TRAINSETSPEED t v h) \<leftarrow> ev] = zip members (int v # ss) \<and> length ss = length members - 1 \<and>
    v \<le> speed \<and>
    (\<forall>i < length ss. hd models ! v \<le> models ! Suc i ! 14 \<and> (ss ! i = 0 \<or>
      sint (models ! Suc i ! nat (ss ! i)) \<le> sint (hd models ! v) - 1500)) \<and>
    (\<forall>w. v < w \<and> w \<le> speed \<longrightarrow> (\<exists>m \<in> set (tl models). m ! 14 < hd models ! w))"
proof -
  define lead ms where "lead = hd models" and "ms = tl models"
  have split: "models = lead # ms" using models(2) by (simp add: lead_def ms_def)
  then have ok: "length lead = 15" "\<forall>m \<in> set ms. length m = 15" "\<forall>v < 15. 0 \<le> sint (lead ! v)"
      "\<forall>m \<in> set ms. lead ! 0 \<le> m ! 14"
    using models(3) startable by auto
  obtain v where v: "v \<le> speed" "group_speeds lead ms (int speed) = Some (int v # map (best_below (sint (lead ! v))) ms)"
    "\<forall>m \<in> set ms. lead ! v \<le> m ! 14" "\<forall>w. v < w \<and> w \<le> speed \<longrightarrow> (\<exists>m \<in> set ms. m ! 14 < lead ! w)"
    using group_speeds_found [OF ok speed] by auto
  define ss where "ss = map (best_below (sint (lead ! v))) ms"
  have len: "length members = Suc (length ms)" using models(1) split by simp
  have "\<forall>s \<in> set (int v # ss). 0 \<le> s \<and> s \<le> 14" using v(1) speed best_below_range by (auto simp: ss_def)
  then obtain ev where ev: "set_group_speeds members (int v # ss) = Some ev"
    "[(t, v). TSC (TRAINSETSPEED t v h) \<leftarrow> ev] = zip members (int v # ss)"
    "[t. TSC (TRAINREVERSED t d) \<leftarrow> ev] = []"
    using set_group_speeds_events [of "int v # ss" members] members len by (auto simp: ss_def)
  define ev' where "ev' = map (\<lambda>t. TSC (GETCONSTANTSPEEDMODEL (char_field t))) members @ ev"
  have "array_get models 0 = Some lead" "tl models = ms" by (simp_all add: split)
  then have "multi_conductor_setspeed members models (int speed) = Some ev'"
    using models(1) v(2) ev(1) by (simp add: multi_conductor_setspeed_def ss_def ev'_def)
  moreover have "[(t, v). TSC (TRAINSETSPEED t v h) \<leftarrow> ev'] = zip members (int v # ss)"
    "[t. TSC (TRAINREVERSED t d) \<leftarrow> ev'] = []"
    using ev(2,3) by (simp_all add: ev'_def)
  moreover have "\<forall>i < length ss. lead ! v \<le> models ! Suc i ! 14 \<and> (ss ! i = 0 \<or>
      sint (models ! Suc i ! nat (ss ! i)) \<le> sint (lead ! v) - 1500)"
    using v(3) best_below_range(3) [of "sint (lead ! v)"] by (simp add: ss_def split)
  ultimately show ?thesis using v(1,4) len
    by (intro exI [of _ ev'] exI [of _ v] exI [of _ ss]) (simp add: lead_def [symmetric] ms_def [symmetric] ss_def)
qed

text \<open>
  C20: the speeds of a group. For members that all can be driven, the conductor finds speeds and sets each
  member's once, in order. The leader gets the highest speed, up to the one asked for, that every
  follower can reach; a follower stands or is slower than the leader by a margin.
\<close>

theorem group_keeps_together:
  assumes models: "length models = length members" "models \<noteq> []" "\<forall>m \<in> set models. length m = 15 \<and> (\<forall>v < 15. 0 \<le> sint (m ! v))"
    and members: "\<forall>t \<in> set members. 1 \<le> t \<and> t \<le> 80"
    and startable: "\<forall>m \<in> set models. hd models ! 0 \<le> m ! 14"
    and speed: "speed < 15"
  shows "\<exists>ev v ss. multi_conductor_setspeed members models (int speed) = Some ev \<and>
    [(t, v). TSC (TRAINSETSPEED t v h) \<leftarrow> ev] = zip members (int v # ss) \<and> length ss = length members - 1 \<and>
    v \<le> speed \<and>
    (\<forall>i < length ss. hd models ! v \<le> models ! Suc i ! 14 \<and> (ss ! i = 0 \<or>
      sint (models ! Suc i ! nat (ss ! i)) \<le> sint (hd models ! v) - 1500)) \<and>
    (\<forall>w. v < w \<and> w \<le> speed \<longrightarrow> (\<exists>m \<in> set (tl models). m ! 14 < hd models ! w))"
  using group_speeds_ok [OF assms] by blast

text \<open>Two trains, the second a little slower at each speed.\<close>

theorem group_keeps_together_witness:
  "\<exists>ev v ss. multi_conductor_setspeed [24, 58] 
      [[0, 30000, 60000, 90000, 120000, 150000, 180000, 210000, 240000, 270000, 300000, 330000, 360000, 390000, 420000],
       [0, 20000, 40000, 60000, 80000, 100000, 120000, 140000, 160000, 180000, 200000, 220000, 240000, 260000, 280000]] 14 = Some ev \<and>
    [(t, v). TSC (TRAINSETSPEED t v h) \<leftarrow> ev] = zip [24, 58] (int v # ss) \<and> v \<le> 14"
proof -
  define a b :: "u32 list" where 
      "a = [0, 30000, 60000, 90000, 120000, 150000, 180000, 210000, 240000, 270000, 300000, 330000, 360000, 390000, 420000]"
    and "b = [0, 20000, 40000, 60000, 80000, 100000, 120000, 140000, 160000, 180000, 200000, 220000, 240000, 260000, 280000]"
  have a: "length a = 15" "a ! 0 = 0" and b: "length b = 15"
    by (simp_all add: a_def b_def)
  have "list_all (\<lambda>x. 0 \<le> sint x) a" "list_all (\<lambda>x. 0 \<le> sint x) b" unfolding a_def b_def by code_simp+
  then have "\<forall>v < 15. 0 \<le> sint (a ! v)" "\<forall>v < 15. 0 \<le> sint (b ! v)" using a b by (auto simp: list_all_length)
  have "\<exists>ev v ss. multi_conductor_setspeed [24, 58] [a, b] (int 14) = Some ev \<and>
      [(t, v). TSC (TRAINSETSPEED t v h) \<leftarrow> ev] = zip [24, 58] (int v # ss) \<and> length ss = length [24, 58 :: int] - 1 \<and>
      v \<le> 14 \<and>
      (\<forall>i < length ss. hd [a, b] ! v \<le> [a, b] ! Suc i ! 14 \<and> (ss ! i = 0 \<or>
        sint ([a, b] ! Suc i ! nat (ss ! i)) \<le> sint (hd [a, b] ! v) - 1500)) \<and>
      (\<forall>w. v < w \<and> w \<le> 14 \<longrightarrow> (\<exists>m \<in> set (tl [a, b]). m ! 14 < hd [a, b] ! w))"
    using a b \<open>\<forall>v < 15. 0 \<le> sint (a ! v)\<close> \<open>\<forall>v < 15. 0 \<le> sint (b ! v)\<close>
    by (intro group_keeps_together) auto
  then show ?thesis unfolding a_def b_def by auto
qed

section \<open>Keeping the distance\<close>

lemma spacing_error_speed_eq:
  assumes "0 < catchup_time" "\<bar>actual\<bar> \<le> 100000" "\<bar>expected\<bar> \<le> 100000"
  shows "spacing_error_speed catchup_time actual expected = Some (10000 * \<bar>actual - expected\<bar> div catchup_time)"
    "0 \<le> 10000 * \<bar>actual - expected\<bar> div catchup_time" "10000 * \<bar>actual - expected\<bar> div catchup_time \<le> 2000000000"
proof -
  define x where "x = 10000 * \<bar>actual - expected\<bar>"
  have x: "0 \<le> x" "x \<le> 2000000000" using assms by (auto simp: x_def)
  have d: "0 \<le> x div catchup_time" using x(1) assms(1) by (simp add: pos_imp_zdiv_nonneg_iff)
  have u: "x div catchup_time \<le> 2000000000" using x assms(1) div_by_1 zdiv_mono2 [of x 1 catchup_time] by simp
  have "x sdiv catchup_time = x div catchup_time" using x(1) assms(1) by (cases "x = 0") (simp_all add: signed_divide_int_def)
  moreover have "int32 (actual - expected) = Some (actual - expected)" "macro_abs (actual - expected) = Some \<bar>actual - expected\<bar>"
    using assms by (auto simp: int32_def macro_abs_def)
  moreover have "cmul 10000 \<bar>actual - expected\<bar> = Some x" using x by (simp add: cmul_def int32_def x_def [symmetric])
  ultimately show "spacing_error_speed catchup_time actual expected = Some (10000 * \<bar>actual - expected\<bar> div catchup_time)"
    using d u assms(1) by (simp add: spacing_error_speed_def cdiv_def int32_def x_def [symmetric])
  show "0 \<le> 10000 * \<bar>actual - expected\<bar> div catchup_time" "10000 * \<bar>actual - expected\<bar> div catchup_time \<le> 2000000000"
    using d u by (simp_all add: x_def)
qed

definition spacing_error :: "int \<Rightarrow> int \<Rightarrow> int \<Rightarrow> int" where
  "spacing_error catchup_time actual expected = 10000 * \<bar>actual - expected\<bar> div catchup_time"

text \<open>
  The reaction to a wrong spacing, for distances up to 100 m. If the leader is to stand, so is the
  follower. A follower that is too near, and whose leader does not speed up, is set slower than the
  leader by the error, or stopped; one that is too far, and whose leader does not brake, gets a speed
  faster than the leader by the error, or its highest; if even that is too slow, the first train is
  slowed down below it.
\<close>

theorem spacing_is_corrected:
  assumes sane: "0 < catchup_time" "\<bar>actual\<bar> \<le> 100000" "\<bar>expected\<bar> \<le> 100000"
      "0 \<le> c_target_velocity leader" "c_target_velocity leader \<le> 1000000"
      "0 \<le> c_velocity follower" "c_velocity follower \<le> 1000000"
    and models: "length follower_model = 15" "length first_model = 15" "0 \<le> sint (follower_model ! 14)"
  shows "\<exists>v first. spacing_reaction catchup_time actual expected leader follower follower_model first_model = Some (v, first) \<and>
    -1 \<le> v \<and> v \<le> 14 \<and>
    (c_target_velocity leader = 0 \<longrightarrow> v = 0 \<and> first = None) \<and>
    (c_target_velocity leader \<noteq> 0 \<and> actual < expected \<and> c_acceleration leader \<le> 0 \<longrightarrow>
      v = 0 \<or> 0 < v \<and> sint (follower_model ! nat v) \<le> c_target_velocity leader - spacing_error catchup_time actual expected - 1500) \<and>
    (c_target_velocity leader \<noteq> 0 \<and> actual > expected \<and> c_acceleration leader \<ge> 0 \<longrightarrow>
      (v = -1 \<and> (\<forall>i < 15. sint (follower_model ! i) < c_target_velocity leader) \<and>
        (\<exists>f. first = Some f \<and> (f = 0 \<or> sint (first_model ! nat f) \<le> sint (follower_model ! 14) - 1500))) \<or>
      v = 14 \<or> 0 \<le> v \<and> c_target_velocity leader + spacing_error catchup_time actual expected \<le> sint (follower_model ! nat v))"
proof -
  define err where "err = spacing_error catchup_time actual expected"

  note e = spacing_error_speed_eq [OF sane(1-3), folded spacing_error_def, folded err_def]
  have t: "int32 (c_target_velocity leader - err) = Some (c_target_velocity leader - err)"
    "int32 (c_target_velocity leader + err) = Some (c_target_velocity leader + err)"
    using sane e by (auto simp: int32_def)
  have below: "speed_below (c_target_velocity leader - err) follower_model = Some (best_below (c_target_velocity leader - err) follower_model)"
    "speed_below (c_velocity follower) follower_model = Some (best_below (c_velocity follower) follower_model)"
    using models sane e by (auto intro!: speed_below_eq)
  note above = speed_above_eq [OF models(1)]
  consider (stop) "c_target_velocity leader = 0" | (near) "c_target_velocity leader \<noteq> 0" "actual < expected"
    | (right) "c_target_velocity leader \<noteq> 0" "actual = expected"
    | (brake) "c_target_velocity leader \<noteq> 0" "actual > expected" "c_acceleration leader < 0"
    | (far) "c_target_velocity leader \<noteq> 0" "actual > expected" "\<not> c_acceleration leader < 0" by linarith
  then show ?thesis
  proof cases
    case near
    then show ?thesis
      using e(1) t below above least_above_range [of "c_velocity follower" follower_model]
        best_below_range [of "c_target_velocity leader - err" follower_model]
      by (cases "c_acceleration leader > 0") (auto simp: spacing_reaction_def err_def [symmetric])
  next
    case brake
    then show ?thesis
      using e(1) below best_below_range [of "c_velocity follower" follower_model] by (auto simp: spacing_reaction_def)
  next
    case far
    show ?thesis
    proof (cases "least_above (c_target_velocity leader) follower_model = -1")
      case True
      define top f where "top = sint (follower_model ! 14)" and "f = best_below top first_model"
      have all: "\<forall>i < 15. sint (follower_model ! i) < c_target_velocity leader"
        using True least_above_range [of "c_target_velocity leader" follower_model] by auto
      have "sint (follower_model ! 14) < 2 ^ 31" using sint_lt [of "follower_model ! 14"] by simp
      then have "speed_below top first_model = Some f" using models by (simp add: top_def f_def speed_below_eq)
      then have "spacing_reaction catchup_time actual expected leader follower follower_model first_model = Some (-1, Some f)"
        using far True e(1) above models(1) best_below_range(1) [of top first_model]
        by (simp add: spacing_reaction_def top_def f_def)
      then show ?thesis using far all best_below_range [of top first_model] by (auto simp: top_def f_def)
    next
      case False
      define w where "w = least_above (c_target_velocity leader + err) follower_model"
      have "spacing_reaction catchup_time actual expected leader follower follower_model first_model =
          Some (if w = -1 then 14 else w, None)"
        using far False e(1) t above by (simp add: spacing_reaction_def w_def)
      then show ?thesis using far least_above_range [of "c_target_velocity leader + err" follower_model]
        by (auto simp: w_def [symmetric] err_def [symmetric])
    qed
  qed (use e(1) in \<open>simp_all add: spacing_reaction_def\<close>)
qed

text \<open>A follower 20 cm away where 30 cm are wanted, behind a leader at 0.3 m/s.\<close>

theorem spacing_is_corrected_witness:
  "\<exists>v first. spacing_reaction 500 200 300 (zero_coordinates\<lparr>c_target_velocity := 300000\<rparr>) zero_coordinates
      (map (\<lambda>i. of_nat i * 20000) [0..<15]) (replicate 15 0) = Some (v, first) \<and> -1 \<le> v \<and> v \<le> 14 \<and>
    (v = 0 \<or> 0 < v \<and> sint (map (\<lambda>i. of_nat i * 20000) [0..<15] ! nat v :: u32) \<le> 300000 - spacing_error 500 200 300 - 1500)"
proof -
  define m :: "u32 list" where "m = map (\<lambda>i. of_nat i * 20000) [0..<15]"
  have "length m = 15" "m ! 14 = 280000" by (simp_all add: m_def del: upt.simps upt_Suc)
  then show ?thesis
    using spacing_is_corrected [of 500 200 300 "zero_coordinates\<lparr>c_target_velocity := 300000\<rparr>" zero_coordinates m "replicate 15 0"]
    unfolding m_def [symmetric] by (fastforce simp: zero_coordinates_def)
qed

section \<open>Turning around\<close>

lemma speeds_of_commands:
  "[(t, v). GC (TSC (TRAINSETSPEED t v h)) \<leftarrow> map GC ev] = [(t, v). TSC (TRAINSETSPEED t v h) \<leftarrow> ev]"
  by (induction ev) (auto split: cmd_event.splits tsc_message.splits)

lemma reverse_members_events:
  assumes "length ds = length ts" "\<forall>t \<in> set ts. 1 \<le> t \<and> t \<le> 80"
  shows "\<exists>ev. reverse_members ts ds = Some ev \<and> [t. TSC (TRAINREVERSED t d) \<leftarrow> ev] = ts \<and>
    [(t, v). TSC (TRAINSETSPEED t v h) \<leftarrow> ev] = []"
  using assms
proof (induction ts arbitrary: ds)
  case (Cons t ts)
  then obtain d ds' where ds: "ds = d # ds'" by (cases ds) auto
  obtain ev where "reverse_members ts ds' = Some ev" "[t. TSC (TRAINREVERSED t d) \<leftarrow> ev] = ts"
    "[(t, v). TSC (TRAINSETSPEED t v h) \<leftarrow> ev] = []"
    using Cons.IH [of ds'] Cons.prems ds by auto
  then show ?case using Cons.prems ds by (simp add: reverse_train_def)
qed simp

lemma standing_below: "\<forall>v < 15. 0 \<le> sint (m ! v) \<Longrightarrow> best_below 0 m = 0"
  using best_below_range [of 0 m] by (cases "best_below 0 m = 0") (auto dest!: spec [of _ "nat (best_below 0 m)"])

lemma group_stops:
  assumes "length models = length ts" "ts \<noteq> []" "\<forall>m \<in> set models. length m = 15 \<and> m ! 0 = 0 \<and> (\<forall>v < 15. 0 \<le> sint (m ! v))"
    "\<forall>t \<in> set ts. 1 \<le> t \<and> t \<le> 80"
  shows "\<exists>ev. multi_conductor_setspeed ts models 0 = Some ev \<and>
    [(t, v). TSC (TRAINSETSPEED t v h) \<leftarrow> ev] = map (\<lambda>t. (t, 0)) ts"
proof -
  obtain lead ms where m: "models = lead # ms" using assms by (cases models) auto
  have "follower_speeds (lead ! 0) ms = Some (Some (replicate (length ms) 0))"
    using assms(3) m standing_below by (subst follower_speeds_eq) (auto simp: map_replicate_const [symmetric] cong: map_cong)
  then have "group_speeds lead ms 0 = Some (0 # replicate (length ms) 0)"
    using assms(3) m by (subst group_speeds.simps) simp
  moreover have "0 # replicate (length ms) 0 = replicate (length ts) (0 :: int)"
    using assms(1) m by (simp flip: assms(1))
  moreover obtain ev where "set_group_speeds ts (replicate (length ts) 0) = Some ev"
    "[(t, v). TSC (TRAINSETSPEED t v h) \<leftarrow> ev] = zip ts (replicate (length ts) 0)"
    using set_group_speeds_events [of "replicate (length ts) 0" ts] assms(4) by auto
  moreover have "zip ts (replicate (length ts) 0) = map (\<lambda>t. (t, 0)) ts" by (induction ts) auto
  moreover have "array_get models 0 = Some lead" "tl models = ms" by (simp_all add: m)
  moreover have "[(t, v). TSC (TRAINSETSPEED t v h) \<leftarrow> map (\<lambda>t. TSC (GETCONSTANTSPEEDMODEL (char_field t))) ts @ ev] =
      [(t, v). TSC (TRAINSETSPEED t v h) \<leftarrow> ev]" by (induction ts) auto
  ultimately show ?thesis using assms(1)
    by (intro exI [of _ "map (\<lambda>t. TSC (GETCONSTANTSPEEDMODEL (char_field t))) ts @ ev"])
      (simp add: multi_conductor_setspeed_def del: map_append concat_append)
qed

lemma turned_of_commands:
  "[t. GC (TSC (TRAINREVERSED t d)) \<leftarrow> map GC ev] = [t. TSC (TRAINREVERSED t d) \<leftarrow> ev]"
  by (induction ev) (auto split: cmd_event.splits tsc_message.splits)

text \<open>
  C19: turning a group around. The command stops every member and sets an alarm by the speed they had;
  at the alarm each member is reversed, once and in the order they ran in; the group, here and in the
  dispatcher's table, is the other way round, one new courier watches it, and the members are set off
  in the new order, the leader no faster than before.
\<close>

theorem group_turns_around:
  assumes group: "tg_num_members g = int (length ts)" "tg_members g = ts @ unused" "ts \<noteq> []" "\<forall>t \<in> set ts. 1 \<le> t \<and> t \<le> 80"
    and models: "length models = length ts"
      "\<forall>m \<in> set models. length m = 15 \<and> m ! 0 = 0 \<and> (\<forall>v < 15. 0 \<le> sint (m ! v))"
    and told: "gc_group s = g" "uc_type cmd = USER_CMD_RVG" "ge_models e1 = models" "ge_should_speed e1 = int v" "v < 15"
    and woken: "ge_models e2 = List.rev models" "ge_shared e2 = g" "length (ge_directions e2) = length ts"
  shows "\<exists>s1 ev1 s2 ev2 w ss. multi_conductor_step T e1 (GM_USER cmd) s = Some (s1, ev1) \<and>
    [(t, v). GC (TSC (TRAINSETSPEED t v h)) \<leftarrow> ev1] = map (\<lambda>t. (t, 0)) ts \<and> GC_ALARM (max 1 (33 * int v)) \<in> set ev1 \<and>
    multi_conductor_step T e2 GM_WAKEUP s1 = Some (s2, ev2) \<and>
    [t. GC (TSC (TRAINREVERSED t d)) \<leftarrow> ev2] = ts \<and>
    tg_members (gc_group s2) = List.rev ts @ unused \<and> GC_WRITE_GROUP (gc_group s2) \<in> set ev2 \<and>
    [k. GC_CREATE_COURIER k \<leftarrow> ev2] = [gc_group s2] \<and>
    [(t, v). GC (TSC (TRAINSETSPEED t v h)) \<leftarrow> ev2] = zip (List.rev ts) (int w # ss) \<and> length ss = length ts - 1 \<and> w \<le> v"
proof -
  have pre: "trains_of g = Some ts" using group(1,2) by (simp add: trains_of_def array_prefix_def)
  have first: "array_get (tg_members g) 0 = Some (hd ts)" using group(2,3) by (cases ts) simp_all
  obtain stop where stop: "multi_conductor_setspeed ts models 0 = Some stop"
    "[(t, v). TSC (TRAINSETSPEED t v h) \<leftarrow> stop] = map (\<lambda>t. (t, 0)) ts"
    using group_stops [OF models(1) group(3) models(2) group(4)] by blast
  define s1 ev1 where "s1 = s\<lparr>gc_should_speed := int v\<rparr>"
    and "ev1 = GC (TSC (GETTRAIN (char_field (hd ts)))) # map GC stop @ [GC_ALARM (max 1 (33 * int v)), GC_REPLY]"
  have "cmul (int v) 33 = Some (33 * int v)" using told(5) by (simp add: cmul_def int32_def)
  then have step1: "multi_conductor_step T e1 (GM_USER cmd) s = Some (s1, ev1)"
    using told pre first stop(1) by (simp add: group_user_def s1_def ev1_def)
  have sp1: "[(t, v). GC (TSC (TRAINSETSPEED t v h)) \<leftarrow> ev1] = map (\<lambda>t. (t, 0)) ts"
    using stop(2) speeds_of_commands [of stop] by (simp add: ev1_def)
  define g' where "g' = g\<lparr>tg_members := List.rev ts @ unused\<rparr>"
  obtain turn where turn: "reverse_members ts (ge_directions e2) = Some turn"
    "[t. TSC (TRAINREVERSED t d) \<leftarrow> turn] = ts" "[(t, v). TSC (TRAINSETSPEED t v h) \<leftarrow> turn] = []"
    using reverse_members_events [OF woken(3) group(4)] by blast
  have rg: "reverse_group g (ge_directions e2) = Some (g', turn)"
    using pre turn(1) group(1,2) by (simp add: reverse_group_def reverse_order_def trains_of_def g'_def)
  have pre': "trains_of g' = Some (List.rev ts)" using group(1) by (simp add: trains_of_def array_prefix_def g'_def)
  obtain go w ss where go: "multi_conductor_setspeed (List.rev ts) (List.rev models) (int v) = Some go"
    "[t. TSC (TRAINREVERSED t d) \<leftarrow> go] = []"
    "[(t, v). TSC (TRAINSETSPEED t v h) \<leftarrow> go] = zip (List.rev ts) (int w # ss)" "length ss = length (List.rev ts) - 1" "w \<le> v"
  proof -
    have "hd (List.rev models) \<in> set models" using models(1) group(3) by (metis hd_in_set length_0_conv set_rev rev_is_Nil_conv)
    then have "hd (List.rev models) ! 0 = 0" using models(2) by blast
    then show ?thesis
      using group_speeds_ok [of "List.rev models" "List.rev ts" v] models group(3,4) told(5) that by fastforce
  qed
  define s2 ev2 where "s2 = s1\<lparr>gc_group := g'\<rparr>"
    and "ev2 = map GC turn @ [GC_WRITE_GROUP g', GC_KILL_COURIER, GC (DELAY 8), GC_CREATE_COURIER g'] @ map GC go"
  have step2: "multi_conductor_step T e2 GM_WAKEUP s1 = Some (s2, ev2)"
    using woken(1,2) rg pre' go(1) by (simp add: group_wakeup_def s1_def s2_def ev2_def)
  have none: "[k. GC_CREATE_COURIER k \<leftarrow> map GC x] = []" for x by (induction x) auto
  have "[t. GC (TSC (TRAINREVERSED t d)) \<leftarrow> ev2] = ts"
    "[(t, v). GC (TSC (TRAINSETSPEED t v h)) \<leftarrow> ev2] = zip (List.rev ts) (int w # ss)"
    "[k. GC_CREATE_COURIER k \<leftarrow> ev2] = [g']"
    unfolding ev2_def map_append concat_append turned_of_commands speeds_of_commands none turn(2,3) go(2,3)
    by simp_all
  then show ?thesis using step1 sp1 step2 go(4,5)
    by (intro exI [of _ s1] exI [of _ ev1] exI [of _ s2] exI [of _ ev2] exI [of _ w] exI [of _ ss] conjI)
      (simp_all add: ev1_def ev2_def s2_def g'_def)
qed

definition sample_group :: train_group where
  "sample_group = \<lparr>tg_members = [24, 58, 0, 0, 0, 0], tg_num_members = 2\<rparr>"

definition sample_model :: "u32 list" where
  "sample_model = [0, 20000, 40000, 60000, 80000, 100000, 120000, 140000, 160000, 180000, 200000, 220000, 240000, 260000, 280000]"

definition sample_env :: group_env where
  "sample_env = \<lparr>ge_models = [sample_model, sample_model], ge_should_speed = 10, ge_turnouts = [], ge_stack = [],
     ge_time = 0, ge_shared = sample_group, ge_directions = [True, True], ge_leader = zero_coordinates,
     ge_follower = zero_coordinates, ge_follower_model = sample_model, ge_first_model = sample_model, ge_catchup_time = 1\<rparr>"

theorem group_turns_around_witness:
  "\<exists>s1 ev1 s2 ev2. multi_conductor_step [] sample_env (GM_USER \<lparr>uc_type = USER_CMD_RVG, uc_data = replicate 10 0\<rparr>)
      \<lparr>gc_group = sample_group, gc_should_speed = 0, gc_last_switch = 0, gc_done = False\<rparr> = Some (s1, ev1) \<and>
    GC_ALARM 330 \<in> set ev1 \<and> multi_conductor_step [] sample_env GM_WAKEUP s1 = Some (s2, ev2) \<and>
    tg_members (gc_group s2) = [58, 24, 0, 0, 0, 0]"
proof -
  have m: "length sample_model = 15" "sample_model ! 0 = 0" by (simp_all add: sample_model_def)
  have "list_all (\<lambda>x. 0 \<le> sint x) sample_model" unfolding sample_model_def by code_simp
  then have p: "\<forall>v < 15. 0 \<le> sint (sample_model ! v)" using m by (auto simp: list_all_length)
  show ?thesis
    using group_turns_around [of sample_group "[24, 58]" "[0, 0, 0, 0]" "[sample_model, sample_model]"
      "\<lparr>gc_group = sample_group, gc_should_speed = 0, gc_last_switch = 0, gc_done = False\<rparr>"
      "\<lparr>uc_type = USER_CMD_RVG, uc_data = replicate 10 0\<rparr>" sample_env 10 sample_env "[]"] m p
    by (auto simp: sample_group_def sample_env_def)
qed

text \<open>Nothing in the conductor bounds the time to catch up from below, and with 0 a report of the spacing divides by it.\<close>

lemma no_catchup_time: "spacing_reaction 0 actual expected leader follower fm m = None"
  by (simp add: spacing_reaction_def spacing_error_speed_def cdiv_def)

end
