(* ===== verification/Console_IO.thy ===== *)
theory Console_IO
  imports Client_Calls
begin

text \<open>
  The console below the kernel: \<open>include/rawio.c\<close>, the registers of the UARTs; \<open>include/bwio.c\<close>,
  busy-waiting and buffered input and output and the formatted printing of the kernel;
  \<open>include/myio.c\<close>, the setup of the lines and the log. In the lab build the train is UART 1 and the
  terminal UART 2. A register file maps addresses to contents; a register that is polled is the
  sequence of its contents at the reads.
\<close>

section \<open>Registers\<close>

type_synonym registers = "u32 \<Rightarrow> u32"

definition UART1_BASE :: u32 where "UART1_BASE = 0x808c0000"
definition UART2_BASE :: u32 where "UART2_BASE = 0x808d0000"
definition UART_DATA_OFFSET :: u32 where "UART_DATA_OFFSET = 0x0"
definition UART_RSR_OFFSET :: u32 where "UART_RSR_OFFSET = 0x4"
definition UART_LCRH_OFFSET :: u32 where "UART_LCRH_OFFSET = 0x8"
definition UART_LCRM_OFFSET :: u32 where "UART_LCRM_OFFSET = 0xc"
definition UART_LCRL_OFFSET :: u32 where "UART_LCRL_OFFSET = 0x10"
definition UART_FLAG_OFFSET :: u32 where "UART_FLAG_OFFSET = 0x18"
definition DATA_MASK :: u32 where "DATA_MASK = 0xff"
definition ERROR_MASKS :: u32 where "ERROR_MASKS = 0x8 OR 0x4 OR 0x2 OR 0x1"
definition PEN_MASK :: u32 where "PEN_MASK = 0x2"
definition STP2_MASK :: u32 where "STP2_MASK = 0x8"
definition FEN_MASK :: u32 where "FEN_MASK = 0x10"
definition WLEN_MASK :: u32 where "WLEN_MASK = 0x60"
definition CTS_MASK :: u32 where "CTS_MASK = 0x1"
definition RXFE_MASK :: u32 where "RXFE_MASK = 0x10"
definition TXFF_MASK :: u32 where "TXFF_MASK = 0x20"
definition TXFE_MASK :: u32 where "TXFE_MASK = 0x80"

definition uart_base :: "int \<Rightarrow> u32 option" where
  "uart_base channel = (if channel = TRAIN then Some UART1_BASE else if channel = TERMINAL then Some UART2_BASE else None)"

text \<open>
  \<open>ERROR_REG\<close> points to \<open>int\<close>, so that the offset added to it counts words and not bytes.
\<close>

definition raw_get_error :: "int \<Rightarrow> registers \<Rightarrow> registers \<times> u32" where
  "raw_get_error channel regs = (case uart_base channel of
     None \<Rightarrow> (regs, 0)
   | Some base \<Rightarrow>
       let a = base + 4 * UART_RSR_OFFSET; err = regs a
       in (if err \<noteq> 0 then regs(a := 0) else regs, err AND 0xF))"

definition rawputc :: "int \<Rightarrow> u8 \<Rightarrow> registers \<Rightarrow> registers \<times> int" where
  "rawputc channel c regs = (case uart_base channel of
     None \<Rightarrow> (regs, -1)
   | Some base \<Rightarrow> (regs(base + UART_DATA_OFFSET := ucast c), 0))"

definition rawgetc :: "int \<Rightarrow> registers \<Rightarrow> registers \<times> u8 option \<times> int" where
  "rawgetc channel regs = (case uart_base channel of
     None \<Rightarrow> (regs, None, -1)
   | Some base \<Rightarrow>
       let c = ucast (regs (base + UART_DATA_OFFSET) AND DATA_MASK)
       in if channel = TRAIN then let (regs', err) = raw_get_error channel regs in (regs', Some c, uint (err AND ERROR_MASKS))
          else (regs, Some c, 0))"

text \<open>For the train the flags are read twice.\<close>

definition rawcanputc :: "int \<Rightarrow> u32 \<Rightarrow> u32 \<Rightarrow> bool" where
  "rawcanputc channel flags flags' =
     (if channel = TRAIN then flags AND TXFF_MASK = 0 \<and> flags' AND CTS_MASK \<noteq> 0
      else if channel = TERMINAL then flags AND TXFF_MASK = 0 else False)"

definition rawcangetc :: "int \<Rightarrow> u32 \<Rightarrow> bool" where
  "rawcangetc channel flags = (if channel = TRAIN \<or> channel = TERMINAL then flags AND RXFE_MASK = 0 else False)"

definition setfifo :: "int \<Rightarrow> bool \<Rightarrow> registers \<Rightarrow> registers \<times> int" where
  "setfifo channel state regs = (case uart_base channel of
     None \<Rightarrow> (regs, -1)
   | Some base \<Rightarrow>
       let line = base + UART_LCRH_OFFSET;
           buf1 = regs line;
           buf2 = (if channel = TRAIN then ((buf1 OR STP2_MASK) AND NOT PEN_MASK) OR WLEN_MASK else buf1);
           buf3 = (if state then buf2 OR FEN_MASK else buf2 AND NOT FEN_MASK)
       in (regs(line := buf3), 0))"

definition setspeed :: "int \<Rightarrow> int \<Rightarrow> registers \<Rightarrow> registers \<times> int" where
  "setspeed channel speed regs = (case uart_base channel of
     None \<Rightarrow> (regs, -1)
   | Some base \<Rightarrow>
       if speed = 115200 then (regs(base + UART_LCRM_OFFSET := 0, base + UART_LCRL_OFFSET := 0x3), 0)
       else if speed = 2400 then (regs(base + UART_LCRM_OFFSET := 0, base + UART_LCRL_OFFSET := 0xBF), 0)
       else (regs, -1))"

definition setup_io :: "registers \<Rightarrow> registers" where
  "setup_io regs =
     fst (raw_get_error TRAIN (fst (setfifo TERMINAL False (fst (setfifo TRAIN False
       (fst (setspeed TERMINAL 115200 (fst (setspeed TRAIN 2400 regs)))))))))"

section \<open>Busy waiting\<close>

text \<open>
  Waiting until a byte can be written: the index of the first read of the flags not needed. For the
  train the loop reads the flags twice, and keeps each of the two conditions once it has seen it.
\<close>

partial_function (option) wait_train :: "(nat \<Rightarrow> u32) \<Rightarrow> nat \<Rightarrow> bool \<Rightarrow> bool \<Rightarrow> nat option" where
  "wait_train flags n got_cts got_empty =
     (if got_cts \<and> got_empty then Some n
      else wait_train flags (n + 2) (got_cts \<or> flags n AND CTS_MASK \<noteq> 0) (got_empty \<or> flags (n + 1) AND TXFE_MASK \<noteq> 0))"

partial_function (option) wait_while :: "u32 \<Rightarrow> (nat \<Rightarrow> u32) \<Rightarrow> nat \<Rightarrow> nat option" where
  "wait_while m flags n = (if flags n AND m \<noteq> 0 then wait_while m flags (n + 1) else Some (n + 1))"

definition putc :: "(nat \<Rightarrow> u32) \<Rightarrow> int \<Rightarrow> u8 \<Rightarrow> (nat \<times> (u32 \<times> u32) list \<times> int) option" where
  "putc flags channel c = (case uart_base channel of
     None \<Rightarrow> Some (0, [], -1)
   | Some base \<Rightarrow> do {
       n \<leftarrow> (if channel = TRAIN then wait_train flags 0 False False else wait_while TXFF_MASK flags 0);
       Some (n, [(base + UART_DATA_OFFSET, ucast c)], 0)
     })"

definition bwgetc :: "(nat \<Rightarrow> u32) \<Rightarrow> u32 \<Rightarrow> int \<Rightarrow> (nat \<times> int) option" where
  "bwgetc flags data channel = (case uart_base channel of
     None \<Rightarrow> Some (0, -1)
   | Some base \<Rightarrow> do {
       n \<leftarrow> wait_while RXFE_MASK flags 0;
       Some (n, uint (ucast data :: u8))
     })"

text \<open>Reading without waiting; the variables that keep track of the errors of the line.\<close>

record line_errors =
  oe_in_sensor :: bool
  last_err :: "16 word"
  got_err :: bool

definition getc :: "u32 \<Rightarrow> u32 \<Rightarrow> u32 \<Rightarrow> int \<Rightarrow> registers \<Rightarrow> line_errors \<Rightarrow> registers \<times> line_errors \<times> int" where
  "getc data time1 time2 channel regs e = (case uart_base channel of
     None \<Rightarrow> (regs, e, -1)
   | Some base \<Rightarrow>
       let (regs1, e1) = (if channel = TRAIN then
             let (r, err) = raw_get_error channel regs;
                 ea = (if err AND ERROR_MASKS \<noteq> 0
                   then e\<lparr>oe_in_sensor := True, last_err := ucast time1, got_err := True\<rparr> else e);
                 eb = (if got_err ea \<and> uint (last_err ea) + 500 < uint (ucast time2 :: 16 word)
                   then ea\<lparr>got_err := False\<rparr> else ea)
             in (r, eb)
           else (regs, e))
       in (regs1, e1, uint (data AND DATA_MASK)))"

section \<open>Buffers\<close>

definition IOBUFFERSZ :: u32 where "IOBUFFERSZ = 20000"

record console =
  train_input :: "u8 buffer"
  train_output :: "u8 buffer"
  terminal_input :: "u8 buffer"
  terminal_output :: "u8 buffer"

definition setup_buffered_io :: "chars \<Rightarrow> chars \<Rightarrow> chars \<Rightarrow> chars \<Rightarrow> console" where
  "setup_buffered_io ti to mi mo = \<lparr>train_input = buffer_init ti IOBUFFERSZ, train_output = buffer_init to IOBUFFERSZ,
     terminal_input = buffer_init mi IOBUFFERSZ, terminal_output = buffer_init mo IOBUFFERSZ\<rparr>"

definition input_buf :: "int \<Rightarrow> console \<Rightarrow> u8 buffer option" where
  "input_buf channel k = (if channel = TRAIN then Some (train_input k)
     else if channel = TERMINAL then Some (terminal_input k) else None)"

definition output_buf :: "int \<Rightarrow> console \<Rightarrow> u8 buffer option" where
  "output_buf channel k = (if channel = TRAIN then Some (train_output k)
     else if channel = TERMINAL then Some (terminal_output k) else None)"

definition set_input_buf :: "int \<Rightarrow> u8 buffer \<Rightarrow> console \<Rightarrow> console" where
  "set_input_buf channel b k = (if channel = TRAIN then k\<lparr>train_input := b\<rparr> else k\<lparr>terminal_input := b\<rparr>)"

definition set_output_buf :: "int \<Rightarrow> u8 buffer \<Rightarrow> console \<Rightarrow> console" where
  "set_output_buf channel b k = (if channel = TRAIN then k\<lparr>train_output := b\<rparr> else k\<lparr>terminal_output := b\<rparr>)"

definition empty_buf :: "int \<Rightarrow> bool \<Rightarrow> console \<Rightarrow> console" where
  "empty_buf channel out k = (case (if out then output_buf channel k else input_buf channel k) of
     None \<Rightarrow> k
   | Some b \<Rightarrow> (if out then set_output_buf else set_input_buf) channel (buffer_empty b) k)"

text \<open>
  A full buffer is reported on the terminal at once: the marker and the channel, then the bytes of the
  array. The writes that bypass the buffers are the last component of the results.
\<close>

fun dump_loop :: "u8 buffer \<Rightarrow> nat list \<Rightarrow> chars option" where
  "dump_loop b [] = Some []"
| "dump_loop b (i # js) = do { c \<leftarrow> array_get (b_data b) i; cs \<leftarrow> dump_loop b js; Some (c # cs) }"

definition dumpbuf :: "u8 buffer \<Rightarrow> chars option" where
  "dumpbuf b = dump_loop b [0..<unat (b_elems b)]"

definition overflow_report :: "u8 \<Rightarrow> int \<Rightarrow> u8 buffer \<Rightarrow> chars option" where
  "overflow_report mark channel b = do {
     d \<leftarrow> dumpbuf b;
     let ch = of_int (48 + channel);
     Some ([mark, ch, mark, ch, mark, ch, mark] @ d)
   }"

definition sendbyte_buffered :: "int \<Rightarrow> u8 \<Rightarrow> console \<Rightarrow> (console \<times> int \<times> chars) option" where
  "sendbyte_buffered channel c k = (case output_buf channel k of
     None \<Rightarrow> Some (k, -1, [])
   | Some b \<Rightarrow>
       if buffer_is_full b then do { r \<leftarrow> overflow_report 88 channel b; Some (k, -2, r) }
       else do { b' \<leftarrow> buffer_put b c; Some (set_output_buf channel b' k, 0, []) })"

definition getnumreadable_bytes :: "int \<Rightarrow> console \<Rightarrow> 16 word option" where
  "getnumreadable_bytes channel k = map_option (\<lambda>b. ucast (buffer_length b)) (input_buf channel k)"

definition canreadbyte_buffered :: "int \<Rightarrow> console \<Rightarrow> bool option" where
  "canreadbyte_buffered channel k = map_option (\<lambda>b. \<not> buffer_is_empty b) (input_buf channel k)"

definition readbyte_buffered :: "int \<Rightarrow> console \<Rightarrow> (console \<times> u8) option" where
  "readbyte_buffered channel k = do {
     b \<leftarrow> input_buf channel k;
     (b', c) \<leftarrow> buffer_get b;
     Some (set_input_buf channel b' k, c)
   }"

text \<open>
  Sending what is waiting: \<open>cans\<close> are the answers of \<open>rawcanputc\<close>. Each byte goes out through \<open>putc\<close>.
  Receiving: \<open>arrived\<close> are the bytes the UART has, up to the first time \<open>rawcangetc\<close> says no.
\<close>

function send_loop :: "(nat \<Rightarrow> bool) \<Rightarrow> nat \<Rightarrow> u8 buffer \<Rightarrow> (u8 buffer \<times> chars) option" where
  "send_loop cans n b =
     (if cans n \<and> \<not> buffer_is_empty b then (case buffer_get b of
        None \<Rightarrow> None
      | Some (b1, c) \<Rightarrow> map_option (\<lambda>(b2, cs). (b2, c # cs)) (send_loop cans (n + 1) b1))
      else Some (b, []))"
  by pat_completeness auto
termination
  by (relation "measure (\<lambda>(_, _, b). unat (b_elems b))")
     (auto simp: buffer_is_empty_def unat_gt_0 unat_pred_pos dest!: buffer_get_elems)

declare send_loop.simps [simp del]

definition trysendbyte :: "int \<Rightarrow> (nat \<Rightarrow> bool) \<Rightarrow> console \<Rightarrow> (console \<times> int \<times> chars) option" where
  "trysendbyte channel cans k = (case output_buf channel k of
     None \<Rightarrow> Some (k, -2, [])
   | Some b \<Rightarrow> do { (b', cs) \<leftarrow> send_loop cans 0 b; Some (set_output_buf channel b' k, 0, cs) })"

fun receive_loop :: "int \<Rightarrow> chars \<Rightarrow> u8 buffer \<Rightarrow> (u8 buffer \<times> int \<times> chars) option" where
  "receive_loop channel [] b = Some (b, 0, [])"
| "receive_loop channel (c # cs) b =
     (if buffer_is_full b then do { r \<leftarrow> overflow_report 90 channel b; Some (b, -3, r) }
      else do { b' \<leftarrow> buffer_put b c; receive_loop channel cs b' })"

definition tryreceivebyte :: "int \<Rightarrow> chars \<Rightarrow> console \<Rightarrow> (console \<times> int \<times> chars) option" where
  "tryreceivebyte channel arrived k = (case input_buf channel k of
     None \<Rightarrow> Some (k, -2, [])
   | Some b \<Rightarrow> do { (b', r, out) \<leftarrow> receive_loop channel arrived b; Some (set_input_buf channel b' k, r, out) })"

text \<open>The two channels in turn; the result is that of the terminal.\<close>

definition trysendall :: "(nat \<Rightarrow> bool) \<Rightarrow> (nat \<Rightarrow> bool) \<Rightarrow> console \<Rightarrow> (console \<times> bool \<times> chars \<times> chars) option" where
  "trysendall cans cans' k = do {
     (k1, _, to_train) \<leftarrow> trysendbyte TRAIN cans k;
     (k2, r, to_terminal) \<leftarrow> trysendbyte TERMINAL cans' k1;
     Some (k2, r = 0, to_train, to_terminal)
   }"

definition tryreceiveall :: "chars \<Rightarrow> chars \<Rightarrow> console \<Rightarrow> (console \<times> bool \<times> chars) option" where
  "tryreceiveall arrived arrived' k = do {
     (k1, _, out) \<leftarrow> tryreceivebyte TRAIN arrived k;
     (k2, r, out') \<leftarrow> tryreceivebyte TERMINAL arrived' k1;
     Some (k2, r = 0, out @ out')
   }"

section \<open>Formatted printing\<close>

definition c2x :: "u8 \<Rightarrow> u8" where
  "c2x ch = (if ch \<le> 9 then 48 + ch else 97 + ch - 10)"

definition putx :: "u8 \<Rightarrow> chars" where
  "putx c = [c2x (c div 16), c2x (c mod 16)]"

text \<open>The bytes of a word lie in memory from the low one up.\<close>

definition putr :: "u32 \<Rightarrow> chars" where
  "putr reg = concat (map (\<lambda>byte. putx (ucast (drop_bit (8 * byte) reg))) [3, 2, 1, 0]) @ [32]"

fun putw_skip :: "int \<Rightarrow> chars \<Rightarrow> int option" where
  "putw_skip n [] = None"
| "putw_skip n (p # ps) = (if p \<noteq> 0 \<and> n > 0 then putw_skip (n - 1) ps else Some n)"

fun putw_text :: "chars \<Rightarrow> chars option" where
  "putw_text [] = None"
| "putw_text (ch # bf) = (if ch \<noteq> 0 then map_option (Cons ch) (putw_text bf) else Some [])"

definition putw :: "int \<Rightarrow> u8 \<Rightarrow> chars \<Rightarrow> chars option" where
  "putw n fc bf = do {
     n' \<leftarrow> putw_skip n bf;
     t \<leftarrow> putw_text bf;
     Some (replicate (nat n') fc @ t)
   }"

text \<open>
  After a percent sign: an optional 0 or width, and the conversion character. The result is the
  conversion character, the rest of the format, the padding character and the width.
\<close>

definition conversion :: "u8 \<Rightarrow> chars \<Rightarrow> (u8 \<times> chars \<times> u8 \<times> int) option" where
  "conversion ch fmt =
     (if ch = 48 then (case fmt of [] \<Rightarrow> None | c # rest \<Rightarrow> Some (c, rest, 1, 0))
      else if 49 \<le> ch \<and> ch \<le> 57 then do { (c, rest, w) \<leftarrow> a2i ch fmt 10; Some (c, rest, 0, w) }
      else Some (ch, fmt, 0, 0))"

lemma a2i_loop_shorter: "a2i_loop ch p base num = Some (c, rest, w) \<Longrightarrow> length rest \<le> length p"
proof (induction p arbitrary: ch num)
  case Nil
  then show ?case by (subst (asm) a2i_loop.simps) (auto simp: Let_def split: if_splits)
next
  case (Cons x p)
  then show ?case by (subst (asm) a2i_loop.simps) (fastforce simp: Let_def split: if_splits)
qed

lemma conversion_shorter: "conversion ch fmt = Some (c, rest, lz, w) \<Longrightarrow> length rest \<le> length fmt"
  by (auto simp: conversion_def a2i_def split: if_splits list.splits bind_splits dest: a2i_loop_shorter)

text \<open>\<open>format\<close>: what it puts, or nothing if it reads outside the format, the arguments or its array.\<close>

function format :: "chars \<Rightarrow> printf_arg list \<Rightarrow> chars option" where
  "format [] va = None"
| "format (ch # fmt) va =
     (if ch = 0 then Some []
      else if ch \<noteq> 37 then map_option (Cons ch) (format fmt va)
      else case fmt of
        [] \<Rightarrow> None
      | ch1 # fmt1 \<Rightarrow> (case conversion ch1 fmt1 of
          None \<Rightarrow> None
        | Some (c, rest, lz, w) \<Rightarrow>
            if c = 0 then Some []
            else if c = 37 then map_option (Cons c) (format rest va)
            else if c \<notin> {99, 115, 117, 100, 120} then format rest va
            else case va of
              [] \<Rightarrow> None
            | a # va' \<Rightarrow> do {
                t \<leftarrow> (case a of
                    ARG_CHAR x \<Rightarrow> if c = 99 then Some [x] else None
                  | ARG_STRING s \<Rightarrow> if c = 115 then putw w 0 s else None
                  | ARG_UNSIGNED n \<Rightarrow>
                      if c = 117 then Option.bind (number_text (ui2a (unat n) 10)) (putw w lz)
                      else if c = 120 then Option.bind (number_text (ui2a (unat n) 16)) (putw w lz) else None
                  | ARG_INT n \<Rightarrow> if c = 100 then Option.bind (number_text (i2a n)) (putw w lz) else None);
                map_option (\<lambda>s. t @ s) (format rest va')
              }))"
  by pat_completeness auto
termination
  by (relation "measure (\<lambda>(fmt, va). length fmt)") (auto dest!: conversion_shorter)

declare format.simps [simp del]

section \<open>The log\<close>

definition LOG_BUFFER_SIZE :: nat where "LOG_BUFFER_SIZE = 2 ^ 22"

definition logputc :: "u8 \<Rightarrow> chars \<Rightarrow> chars" where
  "logputc c log = (if length log < LOG_BUFFER_SIZE then log @ [c] else log)"

definition logprintf :: "chars \<Rightarrow> printf_arg list \<Rightarrow> chars \<Rightarrow> chars option" where
  "logprintf fmt va log = map_option (\<lambda>t. fold logputc t log) (format fmt va)"

text \<open>What goes to the terminal at once, what into the log, and the log at the end.\<close>

definition bwprintf :: "chars \<Rightarrow> printf_arg list \<Rightarrow> chars option" where
  "bwprintf fmt va = format fmt va"

definition logputr :: "u32 \<Rightarrow> chars \<Rightarrow> chars" where
  "logputr reg log = fold logputc (putr reg) log"

text \<open>
  The calls of \<open>enable_uart_interrupt\<close> at the start and at the end, in order: the interrupts for
  sending, 0x20, for receiving, 0x10, and, for the train, of the modem, 0x08.
\<close>

definition enable_io_interrupts :: "bool \<Rightarrow> (int \<times> u32 \<times> bool) list" where
  "enable_io_interrupts enable = [(TRAIN, 0x20, enable), (TERMINAL, 0x20, enable),
     (TRAIN, 0x10, enable), (TERMINAL, 0x10, enable), (TRAIN, 0x08, enable)]"

definition terminalputc :: "u8 \<Rightarrow> console \<Rightarrow> (console \<times> int \<times> chars) option" where
  "terminalputc c k = sendbyte_buffered TERMINAL c k"

definition trainputc :: "u8 \<Rightarrow> console \<Rightarrow> (console \<times> int \<times> chars) option" where
  "trainputc c k = sendbyte_buffered TRAIN c k"

section \<open>Printing in the kernel and by the server\<close>

text \<open>Formats without widths: no percent sign is followed by a digit.\<close>

fun plain :: "chars \<Rightarrow> bool" where
  "plain [] \<longleftrightarrow> True"
| "plain (ch # fmt) \<longleftrightarrow>
     (if ch = 37 then (case fmt of [] \<Rightarrow> True | d # fmt' \<Rightarrow> \<not> (48 \<le> d \<and> d \<le> 57) \<and> plain fmt') else plain fmt)"

lemma putw_plain: "putw 0 fc bf = c_string bf"
proof -
  have "putw_text bf = c_string bf" by (induction bf) auto
  then show ?thesis by (cases bf) (auto simp: putw_def split: bind_splits)
qed

lemma format_plain: "plain fmt \<Longrightarrow> format fmt va = format_text fmt va"
proof (induction fmt arbitrary: va rule: length_induct)
  case (1 fmt)
  note ih = 1(1) [rule_format] and pl = 1(2)
  consider "fmt = []" | ch fmt1 where "fmt = ch # fmt1" "ch \<noteq> 37" | "fmt = [37]"
    | d fmt2 where "fmt = 37 # d # fmt2" by (cases fmt; cases "tl fmt") auto
  then show ?case
  proof cases
    case 2
    then show ?thesis using pl ih [of fmt1] by (simp add: format.simps)
  next
    case 4
    then have p2: "plain fmt2" and "\<not> (48 \<le> d \<and> d \<le> 57)" using pl by auto
    then have c: "conversion d fmt2 = Some (d, fmt2, 0, 0)" by (auto simp: conversion_def word_le_nat_alt)
    have rest: "format fmt2 va' = format_text fmt2 va'" for va' using ih [of fmt2 va'] p2 4 by simp
    note steps = 4 format.simps c putw_plain rest
    show ?thesis
    proof (cases va)
      case Nil
      then show ?thesis by (simp add: steps)
    next
      case (Cons a va')
      then show ?thesis by (cases a) (simp_all add: steps)
    qed
  qed (simp_all add: format.simps)
qed

text \<open>
  The two formatters agree. For formats without widths what the kernel prints, busy-waiting or into
  its log, is the text that \<open>Printf\<close> sends to the server, and it prints whatever a task can.
\<close>

theorem kernel_prints_the_same:
  assumes "plain fmt" "length buf = PRINTF_MESSAGE_BUFFER_SIZE" "format fmt va = Some txt" "length txt < 256"
  shows "Printf buf fmt va snt = Some ([TX_PRINTF txt], if snt = 0 then 0 else -1)"
proof -
  have ok: "out_ok (buf, 0)" using assms(2) by (simp add: out_ok_def)
  have "printf_format (buf, 0) fmt va = Some (put_text (buf, 0) txt)"
    using printf_format_text [OF ok, of fmt va] assms(3) unfolding format_plain [OF assms(1)] by simp
  then show ?thesis using assms(2,4)
    by (simp add: Printf_def put_text_def PutBytes_def PRINTF_MESSAGE_BUFFER_SIZE_def Let_def)
qed

theorem kernel_prints_the_same_witness:
  "format [116, 37, 99, 37, 37, 0] [ARG_CHAR 55] = Some [116, 55, 37] \<and>
    Printf (replicate 256 0) [116, 37, 99, 37, 37, 0] [ARG_CHAR 55] 0 = Some ([TX_PRINTF [116, 55, 37]], 0)"
proof -
  have "plain [116, 37, 99, 37, 37, 0]" by simp
  moreover have "format [116, 37, 99, 37, 37, 0] [ARG_CHAR 55] = Some [116, 55, 37]"
    by (simp add: format.simps conversion_def)
  ultimately show ?thesis
    using kernel_prints_the_same [of "[116, 37, 99, 37, 37, 0]" "replicate 256 0" "[ARG_CHAR 55]" "[116, 55, 37]" 0]
    by (simp add: PRINTF_MESSAGE_BUFFER_SIZE_def)
qed

text \<open>
  With a leading zero the width is not read: \<open>%08x\<close> prints nothing for the number and then an \<open>x\<close>;
  and the padding is a NUL, or the character 1, never a blank or a zero.
\<close>

lemma zero_padding_lost: "format [37, 48, 56, 120, 0] [ARG_UNSIGNED n] = Some [120]"
  by (simp add: format.simps conversion_def)

lemma width_pads_with_nul: "format [37, 51, 99, 0] va = format [37, 99, 0] va" "putw 3 0 [55, 0] = Some [0, 0, 55]"
proof -
  have "a2i 51 [99, 0] 10 = Some (99, [0], 3)" by code_simp
  then show "format [37, 51, 99, 0] va = format [37, 99, 0] va"
    by (cases va) (auto simp: format.simps conversion_def split: printf_arg.splits)
  show "putw 3 0 [55, 0] = Some [0, 0, 55]" by (simp add: putw_def numeral_eq_Suc)
qed

section \<open>Registers in hexadecimal\<close>

lemma c2x_digit:
  assumes "uint ch < 16"
  shows "a2d (c2x ch) = uint ch"
proof -
  have u: "uint ch = int (unat ch)" by simp
  then have "unat ch < 16" using assms by linarith
  moreover have "a2d (c2x (of_nat d)) = int d" if "d < 16" for d
    using that by (rule digit_cases; simp add: c2x_def a2d_def Let_def)
  ultimately have "a2d (c2x (of_nat (unat ch))) = int (unat ch)" by blast
  then show ?thesis by simp
qed

lemma putx_digits: "map a2d (putx c) = [uint c div 16, uint c mod 16]"
proof -
  have "uint c < 256" using uint_lt2p [of c] by simp
  moreover have "uint (c div 16) = uint c div 16" "uint (c mod 16) = uint c mod 16"
    by (simp_all add: uint_div_distrib uint_mod_distrib)
  ultimately show ?thesis by (simp add: putx_def c2x_digit)
qed

text \<open>
  \<open>putr\<close> shows a register as eight hexadecimal digits, the most significant first, and a blank;
  read back they are the register.
\<close>

theorem putr_roundtrip:
  "length (putr reg) = 9 \<and> last (putr reg) = 32 \<and> (\<forall>d \<in> set (butlast (putr reg)). 0 \<le> a2d d \<and> a2d d < 16) \<and>
   foldl (\<lambda>n d. 16 * n + a2d d) 0 (butlast (putr reg)) = uint reg"
proof -
  define b where "b k = (uint reg div 2 ^ (8 * k)) mod 256" for k :: nat
  have byte: "uint (ucast (drop_bit (8 * k) reg) :: u8) = b k" for k
    using uint_lt2p [of reg] unfolding b_def unsigned_ucast_eq unsigned_drop_bit_eq
    by (simp add: take_bit_eq_mod drop_bit_eq_div)
  have r: "0 \<le> b k" "b k < 256" for k by (simp_all add: b_def)
  have digits: "map a2d (butlast (putr reg)) = [b 3 div 16, b 3 mod 16, b 2 div 16, b 2 mod 16, b 1 div 16, b 1 mod 16,
      b 0 div 16, b 0 mod 16]"
    using putx_digits byte [of 0] byte [of 1] byte [of 2] byte [of 3] by (simp add: putr_def butlast_append)
  have halves: "16 * (x div 16) + x mod 16 = x" for x :: int by simp
  define u where "u = uint reg"
  have u: "0 \<le> u" "u < 2 ^ 32" using uint_lt2p [of reg] by (simp_all add: u_def)
  have b: "b 0 = u mod 256" "b 1 = u div 256 mod 256" "b 2 = u div 65536 mod 256" "b 3 = u div 16777216 mod 256"
    by (simp_all add: b_def u_def)
  define v w x where "v = u div 256" and "w = v div 256" and "x = w div 256"
  have "u div 65536 = w" "u div 16777216 = x" using zdiv_zmult2_eq [of 256 u 256] zdiv_zmult2_eq [of 65536 u 256]
    by (simp_all add: v_def w_def x_def zdiv_zmult2_eq [symmetric])
  moreover have "x mod 256 = x" using u \<open>u div 16777216 = x\<close> [symmetric]
    by (intro mod_pos_pos_trivial) (simp_all add: pos_imp_zdiv_nonneg_iff div_less_iff_less_mult)
  ultimately have "16777216 * b 3 + 65536 * b 2 + 256 * b 1 + b 0 = 16777216 * x + 65536 * (w mod 256) + 256 * (v mod 256) + u mod 256"
    unfolding b v_def [symmetric] by simp
  also have "\<dots> = u"
    using mult_div_mod_eq [of 256 u] mult_div_mod_eq [of 256 v] mult_div_mod_eq [of 256 w]
    unfolding v_def [symmetric] w_def [symmetric] x_def [symmetric] by linarith
  finally have "16777216 * b 3 + 65536 * b 2 + 256 * b 1 + b 0 = u" .
  moreover have "foldl (\<lambda>n d. 16 * n + a2d d) 0 (butlast (putr reg)) =
      16777216 * (16 * (b 3 div 16) + b 3 mod 16) + 65536 * (16 * (b 2 div 16) + b 2 mod 16) +
      256 * (16 * (b 1 div 16) + b 1 mod 16) + (16 * (b 0 div 16) + b 0 mod 16)"
  proof -
    have "foldl (\<lambda>n d. 16 * n + a2d d) 0 (butlast (putr reg)) = foldl (\<lambda>n x. 16 * n + x) 0 (map a2d (butlast (putr reg)))"
      by (simp add: foldl_map)
    then show ?thesis unfolding digits by simp
  qed
  ultimately have val: "foldl (\<lambda>n d. 16 * n + a2d d) 0 (butlast (putr reg)) = u" by (simp only: halves)
  have "0 \<le> b k div 16 \<and> b k div 16 < 16 \<and> 0 \<le> b k mod 16 \<and> b k mod 16 < 16" for k
    using r [of k] by (simp add: pos_imp_zdiv_nonneg_iff div_less_iff_less_mult)
  then have "\<forall>x \<in> set (map a2d (butlast (putr reg))). 0 \<le> x \<and> x < 16" unfolding digits by simp
  then have "\<forall>d \<in> set (butlast (putr reg)). 0 \<le> a2d d \<and> a2d d < 16" by simp
  moreover have "length (putr reg) = 9" "last (putr reg) = 32" by (simp_all add: putr_def putx_def)
  ultimately show ?thesis using val by (simp add: u_def)
qed

section \<open>Waiting ends\<close>

lemma wait_while_ends:
  "(\<exists>k. wait_while m flags n = Some (n + k + 1) \<and> flags (n + k) AND m = 0 \<and> (\<forall>j < k. flags (n + j) AND m \<noteq> 0)) \<longleftrightarrow>
   (\<exists>k. flags (n + k) AND m = 0)"
proof -
  have "\<exists>k. wait_while m flags n = Some (n + k + 1) \<and> flags (n + k) AND m = 0 \<and> (\<forall>j < k. flags (n + j) AND m \<noteq> 0)"
    if "flags (n + d) AND m = 0" for d
    using that
  proof (induction d arbitrary: n)
    case 0
    then show ?case by (intro exI [of _ 0]) (simp add: wait_while.simps)
  next
    case (Suc d)
    show ?case
    proof (cases "flags n AND m = 0")
      case True
      then show ?thesis by (intro exI [of _ 0]) (simp add: wait_while.simps)
    next
      case False
      obtain k where k: "wait_while m flags (n + 1) = Some (n + 1 + k + 1)" "flags (n + 1 + k) AND m = 0"
        "\<forall>j < k. flags (n + 1 + j) AND m \<noteq> 0" using Suc.IH [of "n + 1"] Suc.prems by auto
      have "wait_while m flags n = Some (n + (k + 1) + 1)" using False k(1) by (subst wait_while.simps) simp
      moreover have "\<forall>j < k + 1. flags (n + j) AND m \<noteq> 0"
      proof (intro allI impI)
        fix j
        assume "j < k + 1"
        then show "flags (n + j) AND m \<noteq> 0" using k(3) False by (cases j) auto
      qed
      ultimately show ?thesis using k(2) by (intro exI [of _ "k + 1"]) (simp add: ac_simps)
    qed
  qed
  then show ?thesis by blast
qed

lemma wait_train_ends:
  assumes "\<forall>k \<ge> m. flags k AND CTS_MASK \<noteq> 0 \<and> flags k AND TXFE_MASK \<noteq> 0"
  shows "\<exists>r. wait_train flags n c e = Some r"
proof (induction "m + 2 - n" arbitrary: n c e rule: less_induct)
  case less
  show ?case
  proof (cases "c \<and> e")
    case True
    then show ?thesis by (subst wait_train.simps) simp
  next
    case False
    have step: "wait_train flags n c e =
        wait_train flags (n + 2) (c \<or> flags n AND CTS_MASK \<noteq> 0) (e \<or> flags (n + 1) AND TXFE_MASK \<noteq> 0)"
      using False by (subst wait_train.simps) auto
    show ?thesis
    proof (cases "m \<le> n")
      case True
      then have "flags n AND CTS_MASK \<noteq> 0" "flags (n + 1) AND TXFE_MASK \<noteq> 0" using assms by auto
      then show ?thesis unfolding step using wait_train.simps [of flags "n + 2" True True] by simp
    next
      case False
      then show ?thesis unfolding step using less [of "n + 2"] by simp
    qed
  qed
qed

text \<open>
  The two conditions for the train need not hold together: here the line is clear to send only while the
  transmitter is full, and the byte is written all the same.
\<close>

lemma putc_train_latches:
  "\<exists>n. putc (\<lambda>k. if k < 2 then CTS_MASK OR TXFF_MASK else TXFE_MASK) TRAIN c = Some (n, [(UART1_BASE, ucast c)], 0)"
proof -
  have "wait_train (\<lambda>k. if k < 2 then CTS_MASK OR TXFF_MASK else TXFE_MASK) 0 False False = Some 4"
    by (subst wait_train.simps, subst wait_train.simps, subst wait_train.simps)
      (simp add: CTS_MASK_def TXFF_MASK_def TXFE_MASK_def)
  then show ?thesis by (simp add: putc_def uart_base_def UART_DATA_OFFSET_def)
qed

text \<open>
  \<open>raw_get_error\<close> does not look at the error register: the offset counts words, so it reads the low
  byte of the baud rate, and clears it.
\<close>

lemma error_register_not_read:
  "raw_get_error TRAIN (regs(UART1_BASE + UART_RSR_OFFSET := x)) =
    ((fst (raw_get_error TRAIN regs))(UART1_BASE + UART_RSR_OFFSET := x), snd (raw_get_error TRAIN regs))"
  by (auto simp: raw_get_error_def uart_base_def UART1_BASE_def UART_RSR_OFFSET_def Let_def)

lemma setup_clears_baud_rate: "setup_io regs (UART1_BASE + UART_LCRL_OFFSET) = 0"
  by (simp add: setup_io_def raw_get_error_def setfifo_def setspeed_def uart_base_def Let_def TRAIN_def TERMINAL_def
      UART1_BASE_def UART2_BASE_def UART_RSR_OFFSET_def UART_LCRL_OFFSET_def UART_LCRM_OFFSET_def UART_LCRH_OFFSET_def)

section \<open>The buffers keep the order\<close>

lemma send_loop_effect:
  "buffer_inv b \<Longrightarrow> \<exists>b' cs. send_loop cans n b = Some (b', cs) \<and> buffer_inv b' \<and> b_size b' = b_size b \<and>
    buffer_contents b = cs @ buffer_contents b'"
proof (induction cans n b rule: send_loop.induct)
  case (1 cans n b)
  show ?case
  proof (cases "cans n \<and> \<not> buffer_is_empty b")
    case False
    then show ?thesis using 1(2) by (subst send_loop.simps) auto
  next
    case True
    obtain b1 where b1: "buffer_get b = Some (b1, hd (buffer_contents b))" "buffer_inv b1" "b_size b1 = b_size b"
      "buffer_contents b1 = tl (buffer_contents b)"
      using buffer_get_hd_tl [OF 1(2)] True by blast
    have ne: "buffer_contents b \<noteq> []" using True by (simp add: buffer_is_empty_iff)
    obtain b2 cs where "send_loop cans (n + 1) b1 = Some (b2, cs)" "buffer_inv b2" "b_size b2 = b_size b1"
      "buffer_contents b1 = cs @ buffer_contents b2"
      using 1(1) [OF True b1(1)] b1(2) by blast
    moreover have "buffer_contents b = hd (buffer_contents b) # tl (buffer_contents b)" using ne by simp
    ultimately show ?thesis using True b1
      by (subst send_loop.simps) (auto intro!: exI [of _ "hd (buffer_contents b) # cs"])
  qed
qed

lemma receive_loop_effect:
  "buffer_inv b \<Longrightarrow> receive_loop channel cs b = Some (b', r, out) \<Longrightarrow> buffer_inv b' \<and> b_size b' = b_size b \<and>
    buffer_contents b' = buffer_contents b @ take (unat (b_size b) - length (buffer_contents b)) cs"
proof (induction cs arbitrary: b)
  case (Cons c cs)
  show ?case
  proof (cases "buffer_is_full b")
    case True
    then show ?thesis using Cons.prems by (auto simp: buffer_is_full_iff split: bind_splits)
  next
    case False
    obtain b1 where b1: "buffer_put b c = Some b1" "buffer_inv b1" "b_size b1 = b_size b"
      "buffer_contents b1 = buffer_contents b @ [c]"
      using buffer_put_append [OF Cons.prems(1) False] by blast
    have "length (buffer_contents b) < unat (b_size b)"
      using False Cons.prems(1) buffer_is_full_iff [OF Cons.prems(1)]
      by (simp add: length_buffer_contents buffer_length_def buffer_inv_def)
    then have "take (unat (b_size b) - length (buffer_contents b)) (c # cs) =
        c # take (unat (b_size b) - length (buffer_contents b1)) cs"
      using b1(4) by (cases "unat (b_size b) - length (buffer_contents b)") (simp_all add: Suc_diff_Suc [symmetric])
    moreover have "receive_loop channel cs b1 = Some (b', r, out)" using Cons.prems(2) False b1(1) by simp
    ultimately show ?thesis using Cons.IH [OF b1(2)] b1(3,4) by simp
  qed
qed simp

text \<open>
  Any sequence of calls, with what was accepted for each channel, what went out through its buffer, what
  was taken from the UART and what was read.
\<close>

inductive console_run ::
  "console \<Rightarrow> (int \<Rightarrow> chars) \<Rightarrow> (int \<Rightarrow> chars) \<Rightarrow> (int \<Rightarrow> chars) \<Rightarrow> (int \<Rightarrow> chars) \<Rightarrow> bool" where
  init: "length ti = 20000 \<Longrightarrow> length to = 20000 \<Longrightarrow> length mi = 20000 \<Longrightarrow> length mo = 20000 \<Longrightarrow>
    console_run (setup_buffered_io ti to mi mo) (\<lambda>_. []) (\<lambda>_. []) (\<lambda>_. []) (\<lambda>_. [])"
| send: "console_run k acc wire got rd \<Longrightarrow> sendbyte_buffered ch c k = Some (k', r, out) \<Longrightarrow>
    console_run k' (if r = 0 then acc(ch := acc ch @ [c]) else acc) wire got rd"
| flush: "console_run k acc wire got rd \<Longrightarrow> trysendbyte ch cans k = Some (k', r, cs) \<Longrightarrow>
    console_run k' acc (wire(ch := wire ch @ cs)) got rd"
| receive: "console_run k acc wire got rd \<Longrightarrow> input_buf ch k = Some b \<Longrightarrow> tryreceivebyte ch arrived k = Some (k', r, out) \<Longrightarrow>
    console_run k' acc wire (got(ch := got ch @ take (20000 - unat (buffer_length b)) arrived)) rd"
| read: "console_run k acc wire got rd \<Longrightarrow> canreadbyte_buffered ch k = Some True \<Longrightarrow> readbyte_buffered ch k = Some (k', c) \<Longrightarrow>
    console_run k' acc wire got (rd(ch := rd ch @ [c]))"

definition channel_ok :: "u8 buffer \<Rightarrow> chars \<Rightarrow> chars \<Rightarrow> bool" where
  "channel_ok b put got \<longleftrightarrow> buffer_inv b \<and> b_size b = IOBUFFERSZ \<and> put = got @ buffer_contents b"

definition console_ok ::
  "console \<Rightarrow> (int \<Rightarrow> chars) \<Rightarrow> (int \<Rightarrow> chars) \<Rightarrow> (int \<Rightarrow> chars) \<Rightarrow> (int \<Rightarrow> chars) \<Rightarrow> bool" where
  "console_ok k acc wire got rd \<longleftrightarrow>
     channel_ok (train_output k) (acc TRAIN) (wire TRAIN) \<and> channel_ok (terminal_output k) (acc TERMINAL) (wire TERMINAL) \<and>
     channel_ok (train_input k) (got TRAIN) (rd TRAIN) \<and> channel_ok (terminal_input k) (got TERMINAL) (rd TERMINAL)"

lemma channels: "TRAIN \<noteq> TERMINAL" "TERMINAL \<noteq> TRAIN"
  by (simp_all add: TRAIN_def TERMINAL_def)

lemma console_run_ok: "console_run k acc wire got rd \<Longrightarrow> console_ok k acc wire got rd"
proof (induction rule: console_run.induct)
  case (init ti to mi mo)
  have "channel_ok (buffer_init d IOBUFFERSZ) [] []" if "length d = 20000" for d
    using buffer_init_inv [of d IOBUFFERSZ] that by (simp add: channel_ok_def IOBUFFERSZ_def) (simp add: buffer_init_def)
  then show ?case using init by (simp add: console_ok_def setup_buffered_io_def)
next
  case (send k acc wire got rd ch c k' r out)
  have putb: "buffer_put b c = Some b' \<Longrightarrow> \<not> buffer_is_full b \<Longrightarrow> channel_ok b p q \<Longrightarrow> channel_ok b' (p @ [c]) q" for b b' p q
    using buffer_put_append [of b c] by (auto simp: channel_ok_def)
  show ?case
    using send.IH send.hyps(2) putb channels
    by (auto simp: sendbyte_buffered_def output_buf_def set_output_buf_def console_ok_def split: if_splits bind_splits)
next
  case (flush k acc wire got rd ch cans k' r cs)
  have sent: "send_loop cans 0 b = Some (b', cs) \<Longrightarrow> channel_ok b p q \<Longrightarrow> channel_ok b' p (q @ cs)" for b b' p q
    using send_loop_effect [of b cans 0] by (auto simp: channel_ok_def)
  show ?case
    using flush.IH flush.hyps(2) sent channels
    by (auto simp: trysendbyte_def output_buf_def set_output_buf_def console_ok_def split: if_splits bind_splits)
next
  case (receive k acc wire got rd ch b arrived k' r out)
  have rcv: "receive_loop ch arrived b = Some (b', r, out) \<Longrightarrow> channel_ok b p q \<Longrightarrow>
      channel_ok b' (p @ take (20000 - unat (buffer_length b)) arrived) q" for b b' p q
    using receive_loop_effect [of b ch arrived b' r out] by (simp add: channel_ok_def length_buffer_contents IOBUFFERSZ_def)
  show ?case
    using receive.IH receive.hyps(2,3) rcv channels
    by (auto simp: tryreceivebyte_def input_buf_def set_input_buf_def console_ok_def split: if_splits bind_splits)
next
  case (read k acc wire got rd ch k' c)
  have getb: "buffer_get b = Some (b', c) \<Longrightarrow> \<not> buffer_is_empty b \<Longrightarrow> channel_ok b p q \<Longrightarrow> channel_ok b' p (q @ [c])" for b b' p q
    using buffer_get_hd_tl [of b] by (auto simp: channel_ok_def buffer_is_empty_iff)
  show ?case
    using read.IH read.hyps(2,3) getb channels
    by (auto simp: readbyte_buffered_def canreadbyte_buffered_def input_buf_def set_input_buf_def console_ok_def
        split: if_splits bind_splits)
qed



section \<open>What goes wrong\<close>

text \<open>Reading a channel that has nothing is not refused, and takes the count of elements below zero.\<close>

lemma read_empty_underflows:
  "readbyte_buffered TERMINAL (setup_buffered_io [0] [0] [0] [0]) = Some (k, c) \<Longrightarrow>
    buffer_length (terminal_input k) = 0xFFFFFFFF"
  by (auto simp: readbyte_buffered_def input_buf_def set_input_buf_def setup_buffered_io_def buffer_init_def buffer_get_def
      buffer_remove_def buffer_length_def TRAIN_def TERMINAL_def split: bind_splits)

text \<open>The report of a full buffer shows the array from its start and not the queue.\<close>

lemma dump_not_in_order:
  "let b = \<lparr>b_data = [1, 2, 3], b_size = 3, b_elems = 3, b_in = 1, b_out = 1\<rparr>
   in dumpbuf b = Some [1, 2, 3] \<and> buffer_contents b = [2, 3, 1]"
  by (simp add: dumpbuf_def buffer_contents_def upt_conv_Cons)

end
