(* ===== verification/User_Programs.thy ===== *)
theory User_Programs
  imports Client_Calls
begin

text \<open>
  The programs of the earlier assignments: the tasks of \<open>usr/k1.c\<close> and \<open>usr/k3.c\<close>, and the server of
  \<open>usr/k2.c\<close> on which tasks play rock, paper, scissors. A task is the list of its calls in order, as a
  function of what the kernel and the servers answer; \<open>None\<close> is a failed assertion or an access
  outside an array. The theorems are on the server: who plays whom, who is told what, and that two
  partners never both wait.
\<close>

section \<open>The server of the games\<close>

definition TASKS :: nat where "TASKS = 64"

text \<open>The generator of the clients: the next seed is the number drawn.\<close>

definition prng_next :: "u32 \<Rightarrow> u32" where
  "prng_next prng_seed = prng_seed * 1103515245 + 12345"

abbreviation (input) "throw_R \<equiv> (82 :: u8)"
abbreviation (input) "throw_P \<equiv> (80 :: u8)"
abbreviation (input) "throw_S \<equiv> (83 :: u8)"

definition outcome :: "u8 \<Rightarrow> u8 \<Rightarrow> int" where
  "outcome throw1 throw2 =
     (if throw1 = throw2 then 0
      else if throw1 = throw_R \<and> throw2 = throw_S \<or> throw1 = throw_P \<and> throw2 = throw_R \<or>
        throw1 = throw_S \<and> throw2 = throw_P then 1
      else if throw1 = throw_R \<and> throw2 = throw_P \<or> throw1 = throw_P \<and> throw2 = throw_S \<or>
        throw1 = throw_S \<and> throw2 = throw_R then -1
      else sint (0xFADED0DE :: u32))"

record rps =
  rps_partners :: "int list"
  rps_throws :: "u8 list"
  rps_pending_clients :: "int list"
  rps_pending_clients_index :: int

datatype rps_event =
    RPS_PRINT chars "printf_arg list"
  | RPS_KEY
  | RPS_REPLY int u8

definition rps_init :: "int list \<Rightarrow> rps" where
  "rps_init pending = \<lparr>rps_partners = replicate TASKS 0, rps_throws = replicate TASKS 0,
     rps_pending_clients = pending, rps_pending_clients_index = 0\<rparr>"

text \<open>\<open>'B'\<close>: the second of two that sign up is matched with the first.\<close>

definition rps_signup :: "int \<Rightarrow> int \<Rightarrow> rps \<Rightarrow> (rps \<times> rps_event list) option" where
  "rps_signup sender_tid partner s =
     (if partner \<noteq> 0 then
        Some (s, [RPS_PRINT (str_line ''Task %d tried to sign up when it already has a partner (task %d)'')
                    [ARG_INT sender_tid, ARG_INT partner], RPS_REPLY sender_tid 78])
      else do {
        guard_opt (0 \<le> rps_pending_clients_index s);
        pending \<leftarrow> array_set (rps_pending_clients s) (nat (rps_pending_clients_index s)) sender_tid;
        let index = rps_pending_clients_index s + 1;
        let s1 = s\<lparr>rps_pending_clients := pending, rps_pending_clients_index := index\<rparr>;
        let signed = RPS_PRINT (str_line ''Task %d signed up to play'') [ARG_INT sender_tid];
        if index = 2 then do {
          p0 \<leftarrow> array_get pending 0;
          p1 \<leftarrow> array_get pending 1;
          guard_opt (0 \<le> p0 \<and> 0 \<le> p1);
          partners \<leftarrow> array_set (rps_partners s1) (nat p0) p1;
          partners' \<leftarrow> array_set partners (nat p1) p0;
          Some (s1\<lparr>rps_pending_clients_index := 0, rps_partners := partners'\<rparr>,
            [signed, RPS_PRINT (str_line ''Matched tasks %d and %d'') [ARG_INT p0, ARG_INT p1],
             RPS_REPLY p0 89, RPS_REPLY p1 89])
        }
        else Some (s1, [signed])
      })"

text \<open>What the two are told: won, lost, draw, or no game.\<close>

definition rps_replies :: "u8 \<Rightarrow> u8 \<Rightarrow> u8 \<times> u8" where
  "rps_replies received thrown =
     (if outcome received thrown = 1 then (87, 76)
      else if outcome received thrown = 0 then (68, 68)
      else if outcome received thrown = -1 then (76, 87)
      else (78, 78))"

definition rps_report :: "int \<Rightarrow> u8 \<Rightarrow> int \<Rightarrow> u8 \<Rightarrow> rps_event" where
  "rps_report sender_tid received partner thrown =
     (if outcome received thrown = 1 then
        RPS_PRINT (str_line ''Task %d wins with %c, task %d loses with %c'')
          [ARG_INT sender_tid, ARG_CHAR received, ARG_INT partner, ARG_CHAR thrown]
      else if outcome received thrown = 0 then
        RPS_PRINT (str_line ''Tasks %d and %d draw with %c'')
          [ARG_INT sender_tid, ARG_INT partner, ARG_CHAR received]
      else if outcome received thrown = -1 then
        RPS_PRINT (str_line ''Task %d wins with %c, task %d loses with %c'')
          [ARG_INT partner, ARG_CHAR thrown, ARG_INT sender_tid, ARG_CHAR received]
      else RPS_PRINT (str_line ''Invalid game between tasks %d (threw %c) and %d (threw %c)'')
        [ARG_INT sender_tid, ARG_CHAR received, ARG_INT partner, ARG_CHAR thrown])"

text \<open>A throw: kept when the partner has not thrown yet; else the game is decided, after a key is pressed.\<close>

definition rps_play :: "int \<Rightarrow> int \<Rightarrow> u8 \<Rightarrow> rps \<Rightarrow> (rps \<times> rps_event list) option" where
  "rps_play sender_tid partner received s =
     (if partner = 0 then
        Some (s, [RPS_PRINT (str_line ''Task %d tried to play when it doesn't have a partner'')
                    [ARG_INT sender_tid], RPS_REPLY sender_tid 78])
      else do {
        guard_opt (0 \<le> partner);
        thrown \<leftarrow> array_get (rps_throws s) (nat partner);
        let played = RPS_PRINT (str_line ''Task %d played %c'') [ARG_INT sender_tid, ARG_CHAR received];
        if thrown \<noteq> 0 then do {
          throws \<leftarrow> array_set (rps_throws s) (nat partner) 0;
          Some (s\<lparr>rps_throws := throws\<rparr>,
            [played, rps_report sender_tid received partner thrown, RPS_KEY,
             RPS_REPLY sender_tid (fst (rps_replies received thrown)),
             RPS_REPLY partner (snd (rps_replies received thrown))])
        }
        else do {
          throws \<leftarrow> array_set (rps_throws s) (nat sender_tid) received;
          Some (s\<lparr>rps_throws := throws\<rparr>, [played])
        }
      })"

definition rps_quit :: "int \<Rightarrow> int \<Rightarrow> rps \<Rightarrow> (rps \<times> rps_event list) option" where
  "rps_quit sender_tid partner s =
     (if partner = 0 then
        Some (s, [RPS_PRINT (str_line ''Task %d tried to quit when it doesn't have a partner'')
                    [ARG_INT sender_tid], RPS_REPLY sender_tid 78])
      else do {
        guard_opt (0 \<le> partner);
        t1 \<leftarrow> array_set (rps_throws s) (nat sender_tid) 0;
        t2 \<leftarrow> array_set t1 (nat partner) 0;
        p1 \<leftarrow> array_set (rps_partners s) (nat sender_tid) 0;
        p2 \<leftarrow> array_set p1 (nat partner) 0;
        Some (s\<lparr>rps_throws := t2, rps_partners := p2\<rparr>,
          [RPS_PRINT (str_line ''Task %d quit'') [ARG_INT sender_tid],
           RPS_REPLY sender_tid 89, RPS_REPLY partner 78])
      })"

definition rps_step :: "int \<Rightarrow> u8 \<Rightarrow> rps \<Rightarrow> (rps \<times> rps_event list) option" where
  "rps_step sender_tid received s = do {
     guard_opt (0 \<le> sender_tid);
     partner \<leftarrow> array_get (rps_partners s) (nat sender_tid);
     if received = 66 then rps_signup sender_tid partner s
     else if received = throw_R \<or> received = throw_P \<or> received = throw_S then
       rps_play sender_tid partner received s
     else if received = 81 then rps_quit sender_tid partner s
     else Some (s, [])
   }"


section \<open>Runs of the server\<close>

text \<open>
  The tasks that wait for an answer are blocked in \<open>Send\<close>, and do not send again before they have it.
\<close>

fun replied :: "rps_event list \<Rightarrow> int set" where
  "replied [] = {}"
| "replied (RPS_REPLY t _ # ev) = insert t (replied ev)"
| "replied (_ # ev) = replied ev"

lemma replied_report [simp]: "replied (rps_report t c p d # ev) = replied ev"
  by (simp add: rps_report_def)

inductive rps_run :: "rps \<Rightarrow> int set \<Rightarrow> bool" where
  start: "length pending = 2 \<Longrightarrow> rps_run (rps_init pending) {}"
| message: "rps_run s W \<Longrightarrow> t \<notin> W \<Longrightarrow> 0 < t \<Longrightarrow> t < 64 \<Longrightarrow> c \<in> {66, throw_R, throw_P, throw_S, 81} \<Longrightarrow>
    rps_step t c s = Some (s', ev) \<Longrightarrow> rps_run s' (insert t W - replied ev)"

abbreviation (input) "partner_of s t \<equiv> rps_partners s ! nat t"
abbreviation (input) "throw_of s t \<equiv> rps_throws s ! nat t"

definition waiting_client :: "rps \<Rightarrow> int option" where
  "waiting_client s = (if rps_pending_clients_index s = 1 then Some (rps_pending_clients s ! 0) else None)"

definition rps_ok :: "rps \<Rightarrow> int set \<Rightarrow> bool" where
  "rps_ok s W \<longleftrightarrow> length (rps_partners s) = 64 \<and> length (rps_throws s) = 64 \<and>
     length (rps_pending_clients s) = 2 \<and> rps_pending_clients_index s \<in> {0, 1} \<and>
     (\<forall>t. 0 \<le> t \<and> t < 64 \<longrightarrow> partner_of s t = 0 \<or>
        (0 < t \<and> 0 < partner_of s t \<and> partner_of s t < 64 \<and> partner_of s t \<noteq> t \<and>
         partner_of s (partner_of s t) = t)) \<and>
     (\<forall>t. 0 \<le> t \<and> t < 64 \<and> throw_of s t \<noteq> 0 \<longrightarrow> partner_of s t \<noteq> 0 \<and>
        throw_of s (partner_of s t) = 0 \<and> throw_of s t \<in> {throw_R, throw_P, throw_S}) \<and>
     (\<forall>t. waiting_client s = Some t \<longrightarrow> 0 < t \<and> t < 64 \<and> partner_of s t = 0) \<and>
     W = {t. 0 < t \<and> t < 64 \<and> throw_of s t \<noteq> 0} \<union> set_option (waiting_client s)"

lemma rps_okD:
  assumes "rps_ok s W"
  shows "length (rps_partners s) = 64" "length (rps_throws s) = 64" "length (rps_pending_clients s) = 2"
    "rps_pending_clients_index s = 0 \<or> rps_pending_clients_index s = 1"
    "\<And>t. 0 \<le> t \<Longrightarrow> t < 64 \<Longrightarrow> partner_of s t \<noteq> 0 \<Longrightarrow> 0 < t \<and> 0 < partner_of s t \<and> partner_of s t < 64 \<and>
       partner_of s t \<noteq> t \<and> partner_of s (partner_of s t) = t"
    "\<And>t. 0 \<le> t \<Longrightarrow> t < 64 \<Longrightarrow> throw_of s t \<noteq> 0 \<Longrightarrow> partner_of s t \<noteq> 0 \<and>
       throw_of s (partner_of s t) = 0 \<and> throw_of s t \<in> {throw_R, throw_P, throw_S}"
    "\<And>t. waiting_client s = Some t \<Longrightarrow> 0 < t \<and> t < 64 \<and> partner_of s t = 0"
    "W = {t. 0 < t \<and> t < 64 \<and> throw_of s t \<noteq> 0} \<union> set_option (waiting_client s)"
  using assms unfolding rps_ok_def by blast+

lemma rps_okI:
  assumes "length (rps_partners s) = 64" "length (rps_throws s) = 64" "length (rps_pending_clients s) = 2"
    "rps_pending_clients_index s = 0 \<or> rps_pending_clients_index s = 1"
    "\<And>t. 0 \<le> t \<Longrightarrow> t < 64 \<Longrightarrow> partner_of s t \<noteq> 0 \<Longrightarrow> 0 < t \<and> 0 < partner_of s t \<and> partner_of s t < 64 \<and>
       partner_of s t \<noteq> t \<and> partner_of s (partner_of s t) = t"
    "\<And>t. 0 \<le> t \<Longrightarrow> t < 64 \<Longrightarrow> throw_of s t \<noteq> 0 \<Longrightarrow> partner_of s t \<noteq> 0 \<and>
       throw_of s (partner_of s t) = 0 \<and> throw_of s t \<in> {throw_R, throw_P, throw_S}"
    "\<And>t. waiting_client s = Some t \<Longrightarrow> 0 < t \<and> t < 64 \<and> partner_of s t = 0"
    "W = {t. 0 < t \<and> t < 64 \<and> throw_of s t \<noteq> 0} \<union> set_option (waiting_client s)"
  shows "rps_ok s W"
  using assms unfolding rps_ok_def by blast

lemma nth_update_nat:
  "0 \<le> t \<Longrightarrow> 0 \<le> u \<Longrightarrow> t < int (length xs) \<Longrightarrow> xs[nat t := x] ! nat u = (if u = t then x else xs ! nat u)"
  by (auto simp: nth_list_update nat_eq_iff)

lemma rps_signup_ok:
  assumes ok: "rps_ok s W" and t: "0 < t" "t < 64" "t \<notin> W"
    and step: "rps_signup t (partner_of s t) s = Some (s', ev)"
  shows "rps_ok s' (insert t W - replied ev)"
proof (cases "partner_of s t = 0")
  case False
  with step have "s' = s" "replied ev = {t}" by (auto simp: rps_signup_def)
  then show ?thesis using ok t(3) by simp
next
  case True
  note o = rps_okD [OF ok]
  show ?thesis
  proof (cases "rps_pending_clients_index s = 0")
    case idx: True
    then have s': "s' = s\<lparr>rps_pending_clients := (rps_pending_clients s)[0 := t],
        rps_pending_clients_index := 1\<rparr>" "replied ev = {}"
      using step True o(3) by (auto simp: rps_signup_def)
    have w: "waiting_client s' = Some t" "waiting_client s = None"
      using o(3) idx by (auto simp: s' waiting_client_def nth_list_update)
    show ?thesis
      unfolding rps_ok_def w using o t True by (auto simp: s' w)
  next
    case False
    then have idx: "rps_pending_clients_index s = 1" using o(4) by simp
    define q where "q = rps_pending_clients s ! 0"
    have wq: "waiting_client s = Some q" by (simp add: waiting_client_def idx q_def)
    note q = o(7) [OF wq]
    have "q \<noteq> t" using o(8) t(3) wq by auto
    have p: "(rps_pending_clients s)[Suc 0 := t] ! 0 = q" by (simp add: q_def)
    have s': "s' = s\<lparr>rps_pending_clients := (rps_pending_clients s)[1 := t],
        rps_pending_clients_index := 0, rps_partners := (rps_partners s)[nat q := t, nat t := q]\<rparr>"
      "replied ev = {q, t}"
      using step True o(1,3) idx q t by (auto simp: rps_signup_def p Let_def)
    have w: "waiting_client s' = None" by (simp add: s' waiting_client_def)
    have P: "partner_of s' u = (if u = t then q else if u = q then t else partner_of s u)" if "0 \<le> u" for u
      using that q t o(1) by (simp add: s' nth_update_nat)
    have T: "throw_of s' u = throw_of s u" for u by (simp add: s')
    have quiet: "throw_of s q = 0" "throw_of s t = 0"
      using o(6) [of q] o(6) [of t] q True t by auto
    show ?thesis
    proof (rule rps_okI)
      show "0 < u \<and> 0 < partner_of s' u \<and> partner_of s' u < 64 \<and> partner_of s' u \<noteq> u \<and>
          partner_of s' (partner_of s' u) = u" if u: "0 \<le> u" "u < 64" "partner_of s' u \<noteq> 0" for u
      proof (cases "u = t \<or> u = q")
        case True
        then show ?thesis using q t \<open>q \<noteq> t\<close> by (auto simp: P)
      next
        case False
        then have "partner_of s u \<noteq> 0" using u by (simp add: P)
        note v = o(5) [OF u(1,2) this]
        then have "partner_of s u \<noteq> t" "partner_of s u \<noteq> q" using True q u(1) by auto
        then show ?thesis using v False u by (simp add: P)
      qed
      show "partner_of s' u \<noteq> 0 \<and> throw_of s' (partner_of s' u) = 0 \<and>
          throw_of s' u \<in> {throw_R, throw_P, throw_S}"
        if u: "0 \<le> u" "u < 64" "throw_of s' u \<noteq> 0" for u
        using o(6) [of u] u q t quiet by (auto simp: P T)
      show "insert t W - replied ev = {t. 0 < t \<and> t < 64 \<and> throw_of s' t \<noteq> 0} \<union> set_option (waiting_client s')"
        using o(8) quiet by (auto simp: s'(2) w wq T)
    qed (use o(1-3) w in \<open>simp_all add: s'(1)\<close>)
  qed
qed

lemma rps_play_ok:
  assumes ok: "rps_ok s W" and t: "0 < t" "t < 64" "t \<notin> W" and c: "c \<in> {throw_R, throw_P, throw_S}"
    and step: "rps_play t (partner_of s t) c s = Some (s', ev)"
  shows "rps_ok s' (insert t W - replied ev)"
proof (cases "partner_of s t = 0")
  case True
  with step have "s' = s" "replied ev = {t}" by (auto simp: rps_play_def)
  then show ?thesis using ok t(3) by simp
next
  case False
  note o = rps_okD [OF ok]
  define p where "p = partner_of s t"
  have p: "0 < p" "p < 64" "p \<noteq> t" "partner_of s p = t"
    using o(5) [of t] t False by (auto simp: p_def)
  have mine: "throw_of s t = 0" using o(8) t by auto
  have w: "waiting_client s \<noteq> Some t" "waiting_client s \<noteq> Some p" using o(7) p t False by fastforce+
  show ?thesis
  proof (cases "throw_of s p = 0")
    case True
    then have s': "s' = s\<lparr>rps_throws := (rps_throws s)[nat t := c]\<rparr>" "replied ev = {}"
      using step False p o(2) t by (auto simp: rps_play_def p_def [symmetric])
    have T: "throw_of s' u = (if u = t then c else throw_of s u)" if "0 \<le> u" for u
      using that t o(2) by (simp add: s' nth_update_nat)
    have wc: "waiting_client s' = waiting_client s" by (simp add: waiting_client_def s'(1))
    have P: "rps_partners s' = rps_partners s" by (simp add: s'(1))
    have c0: "c \<noteq> 0" using c by auto
    show ?thesis
    proof (rule rps_okI)
      show "partner_of s' u \<noteq> 0 \<and> throw_of s' (partner_of s' u) = 0 \<and>
          throw_of s' u \<in> {throw_R, throw_P, throw_S}"
        if u: "0 \<le> u" "u < 64" "throw_of s' u \<noteq> 0" for u
      proof (cases "u = t")
        case ut: True
        then show ?thesis using c p True False t(1) by (simp add: T P p_def [symmetric])
      next
        case ut: False
        then have "throw_of s u \<noteq> 0" using u by (simp add: T)
        note v = o(6) [OF u(1,2) this] and v' = o(5) [OF u(1,2)]
        then have "partner_of s u \<noteq> t" using \<open>throw_of s u \<noteq> 0\<close> True p_def by auto
        then show ?thesis using v v' ut u by (simp add: T P)
      qed
      show "insert t W - replied ev = {t. 0 < t \<and> t < 64 \<and> throw_of s' t \<noteq> 0} \<union> set_option (waiting_client s')"
        using o(8) t c0 by (auto simp: s'(2) T wc split: if_splits)
    qed (use o(1-7) in \<open>simp_all add: s'(1) wc [unfolded s'(1)]\<close>)
  next
    case thrown: False
    then have s': "s' = s\<lparr>rps_throws := (rps_throws s)[nat p := 0]\<rparr>" "replied ev = {t, p}"
      using step False p o(2) t by (auto simp: rps_play_def p_def [symmetric])
    have T: "throw_of s' u = (if u = p then 0 else throw_of s u)" if "0 \<le> u" for u
      using that p o(2) by (simp add: s' nth_update_nat)
    have wc: "waiting_client s' = waiting_client s" by (simp add: waiting_client_def s'(1))
    have P: "rps_partners s' = rps_partners s" by (simp add: s'(1))
    show ?thesis
    proof (rule rps_okI)
      show "partner_of s' u \<noteq> 0 \<and> throw_of s' (partner_of s' u) = 0 \<and>
          throw_of s' u \<in> {throw_R, throw_P, throw_S}"
        if u: "0 \<le> u" "u < 64" "throw_of s' u \<noteq> 0" for u
        using o(6) [of u] o(5) [of u] u by (auto simp: T P split: if_splits)
      show "insert t W - replied ev = {t. 0 < t \<and> t < 64 \<and> throw_of s' t \<noteq> 0} \<union> set_option (waiting_client s')"
        using o(8) w mine by (auto simp: s'(2) T wc split: if_splits)
    qed (use o(1-7) in \<open>simp_all add: s'(1) wc [unfolded s'(1)]\<close>)
  qed
qed

lemma rps_quit_ok:
  assumes ok: "rps_ok s W" and t: "0 < t" "t < 64" "t \<notin> W"
    and step: "rps_quit t (partner_of s t) s = Some (s', ev)"
  shows "rps_ok s' (insert t W - replied ev)"
proof (cases "partner_of s t = 0")
  case True
  with step have "s' = s" "replied ev = {t}" by (auto simp: rps_quit_def)
  then show ?thesis using ok t(3) by simp
next
  case False
  note o = rps_okD [OF ok]
  define p where "p = partner_of s t"
  have p: "0 < p" "p < 64" "p \<noteq> t" "partner_of s p = t"
    using o(5) [of t] t False by (auto simp: p_def)
  have w: "waiting_client s \<noteq> Some t" "waiting_client s \<noteq> Some p" using o(7) p t False by fastforce+
  have s': "s' = s\<lparr>rps_throws := (rps_throws s)[nat t := 0, nat p := 0],
      rps_partners := (rps_partners s)[nat t := 0, nat p := 0]\<rparr>" "replied ev = {t, p}"
    using step False p o(1,2) t by (auto simp: rps_quit_def p_def [symmetric])
  have T: "throw_of s' u = (if u = p \<or> u = t then 0 else throw_of s u)"
    "partner_of s' u = (if u = p \<or> u = t then 0 else partner_of s u)" if "0 \<le> u" for u
    using that t p o(1,2) by (simp_all add: s' nth_update_nat)
  have wc: "waiting_client s' = waiting_client s" by (simp add: waiting_client_def s'(1))
  show ?thesis
  proof (rule rps_okI)
    show pu: "0 < u \<and> 0 < partner_of s' u \<and> partner_of s' u < 64 \<and> partner_of s' u \<noteq> u \<and>
        partner_of s' (partner_of s' u) = u" if u: "0 \<le> u" "u < 64" "partner_of s' u \<noteq> 0" for u
    proof -
      have u': "u \<noteq> p" "u \<noteq> t" "partner_of s u \<noteq> 0" using u by (auto simp: T split: if_splits)
      note v = o(5) [OF u(1,2) u'(3)]
      then have "partner_of s u \<noteq> t" "partner_of s u \<noteq> p" using u' p p_def by auto
      then show ?thesis using v u u' by (simp add: T)
    qed
    show "partner_of s' u \<noteq> 0 \<and> throw_of s' (partner_of s' u) = 0 \<and>
        throw_of s' u \<in> {throw_R, throw_P, throw_S}"
      if u: "0 \<le> u" "u < 64" "throw_of s' u \<noteq> 0" for u
      using o(6) [of u] o(5) [of u] u by (auto simp: T split: if_splits)
    show "insert t W - replied ev = {t. 0 < t \<and> t < 64 \<and> throw_of s' t \<noteq> 0} \<union> set_option (waiting_client s')"
      using o(8) w by (auto simp: s'(2) T wc split: if_splits)
    show "0 < u \<and> u < 64 \<and> partner_of s' u = 0" if "waiting_client s' = Some u" for u
      using o(7) [of u] that by (simp add: T wc)
  qed (use o(1-4) in \<open>simp_all add: s'(1)\<close>)
qed

lemma rps_run_ok: "rps_run s W \<Longrightarrow> rps_ok s W"
proof (induction rule: rps_run.induct)
  case (start pending)
  show ?case
    by (rule rps_okI) (use start in \<open>auto simp: rps_init_def TASKS_def waiting_client_def nth_Cons' numeral_2_eq_2\<close>)
next
  case (message s W t c s' ev)
  note ok = rps_okD [OF message.IH]
  have "nat t < length (rps_partners s)" using message.hyps ok(1) by simp
  then have "(if c = 66 then rps_signup t (partner_of s t) s
     else if c = throw_R \<or> c = throw_P \<or> c = throw_S then rps_play t (partner_of s t) c s
     else if c = 81 then rps_quit t (partner_of s t) s else Some (s, [])) = Some (s', ev)"
    using message.hyps by (simp add: rps_step_def)
  then show ?case
    using rps_signup_ok rps_play_ok rps_quit_ok message.IH message.hyps by (auto split: if_splits)
qed


section \<open>Properties of the games\<close>

text \<open>The tasks 3 and 4 have been matched, and 3 has thrown rock.\<close>

definition rps_sample :: rps where
  "rps_sample = \<lparr>rps_partners = (replicate 64 0)[3 := 4, 4 := 3], rps_throws = (replicate 64 0)[3 := throw_R],
     rps_pending_clients = [3, 4], rps_pending_clients_index = 0\<rparr>"

lemma rps_sample_run: "rps_run rps_sample {3}"
proof -
  let ?s0 = "rps_init [0, 0]"
  let ?s1 = "?s0\<lparr>rps_pending_clients := [3, 0], rps_pending_clients_index := 1\<rparr>"
  let ?s2 = "?s0\<lparr>rps_partners := (replicate 64 0)[3 := 4, 4 := 3], rps_pending_clients := [3, 4]\<rparr>"
  note sim = rps_step_def rps_signup_def rps_play_def rps_init_def TASKS_def
  have "rps_run ?s0 {}" by (rule rps_run.start) simp
  from rps_run.message [OF this, of 3 66 ?s1] have "rps_run ?s1 {3}" by (simp add: sim)
  from rps_run.message [OF this, of 4 66 ?s2] have "rps_run ?s2 {}" by (simp add: sim insert_commute)
  from rps_run.message [OF this, of 3 throw_R rps_sample] show ?thesis by (simp add: sim rps_sample_def)
qed



text \<open>The rules, and the answer they give to the first of two throws.\<close>

definition beats :: "(u8 \<times> u8) set" where
  "beats = {(throw_R, throw_S), (throw_P, throw_R), (throw_S, throw_P)}"

definition verdict :: "u8 \<Rightarrow> u8 \<Rightarrow> u8" where
  "verdict mine other = (if mine = other then 68 else if (mine, other) \<in> beats then 87 else 76)"

lemma replies_verdict:
  "c \<in> {throw_R, throw_P, throw_S} \<Longrightarrow> d \<in> {throw_R, throw_P, throw_S} \<Longrightarrow>
   rps_replies c d = (verdict c d, verdict d c)"
  by (elim insertE emptyE; simp add: rps_replies_def outcome_def verdict_def beats_def)

text \<open>
  A game is decided by the rules: a task that throws after its partner gets the answer the rules
  give for the two throws, its partner the opposite one, both are free again, and no other task is told
  anything. The case of an invalid game never arises.
\<close>

theorem rps_game_decided:
  assumes run: "rps_run s W" and t: "t \<notin> W" "0 < t" "t < 64" and c: "c \<in> {throw_R, throw_P, throw_S}"
    and p: "p = partner_of s t" "p \<in> W"
  shows "\<exists>s' ev d. rps_step t c s = Some (s', ev) \<and> d = throw_of s p \<and> d \<in> {throw_R, throw_P, throw_S} \<and>
    filter (\<lambda>e. \<exists>u r. e = RPS_REPLY u r) ev = [RPS_REPLY t (verdict c d), RPS_REPLY p (verdict d c)] \<and>
    rps_run s' (W - {p}) \<and> rps_partners s' = rps_partners s"
proof -
  note o = rps_okD [OF rps_run_ok [OF run]]
  have pt: "waiting_client s \<noteq> Some p" "0 < p" "p < 64" "throw_of s p \<noteq> 0"
    using o(5) [of t] o(7) [of p] o(8) t(2,3) p by auto
  define d where "d = throw_of s p"
  have d: "d \<noteq> 0" "d \<in> {throw_R, throw_P, throw_S}" using o(6) [of p] pt by (auto simp: d_def)
  let ?s = "s\<lparr>rps_throws := (rps_throws s)[nat p := 0]\<rparr>"
  let ?ev = "[RPS_PRINT (str_line ''Task %d played %c'') [ARG_INT t, ARG_CHAR c], rps_report t c p d,
    RPS_KEY, RPS_REPLY t (verdict c d), RPS_REPLY p (verdict d c)]"
  have "rps_play t p c s = Some (?s, ?ev)"
    using pt d o(2) by (simp add: rps_play_def replies_verdict [OF c d(2)] d_def [symmetric])
  then have step: "rps_step t c s = Some (?s, ?ev)"
    using o(1) t(2,3) c p(1) by (auto simp: rps_step_def)
  have "rps_run ?s (insert t W - replied ?ev)"
    by (rule rps_run.message [OF run t _ step]) (use c in auto)
  moreover have "insert t W - replied ?ev = W - {p}" using t(1) by auto
  moreover have "filter (\<lambda>e. \<exists>u r. e = RPS_REPLY u r) ?ev =
      [RPS_REPLY t (verdict c d), RPS_REPLY p (verdict d c)]"
    by (simp add: rps_report_def)
  ultimately show ?thesis using step d by (auto simp: d_def)
qed

theorem rps_game_decided_witness:
  "\<exists>s' ev. rps_step 4 throw_P rps_sample = Some (s', ev) \<and>
     filter (\<lambda>e. \<exists>u r. e = RPS_REPLY u r) ev = [RPS_REPLY 4 87, RPS_REPLY 3 76] \<and> rps_run s' {}"
proof -
  have "partner_of rps_sample 4 = 3" "throw_of rps_sample 3 = throw_R" by (simp_all add: rps_sample_def)
  moreover have "verdict throw_P throw_R = 87" "verdict throw_R throw_P = 76"
    by (simp_all add: verdict_def beats_def)
  moreover obtain s' ev d where "rps_step 4 throw_P rps_sample = Some (s', ev)" "d = throw_of rps_sample 3"
    "filter (\<lambda>e. \<exists>u r. e = RPS_REPLY u r) ev = [RPS_REPLY 4 (verdict throw_P d), RPS_REPLY 3 (verdict d throw_P)]"
    "rps_run s' ({3} - {3})"
    using rps_game_decided [OF rps_sample_run, of 4 throw_P 3] calculation(1) by fastforce
  ultimately show ?thesis by (intro exI [of _ s'] exI [of _ ev]) simp
qed

text \<open>
  The doc promises the answer \<open>N\<close> to an invalid throw; a letter that is none of the five is never
  answered, and leaves its sender blocked for good.
\<close>

lemma unknown_letter_unanswered:
  assumes "c \<notin> {66, throw_R, throw_P, throw_S, 81}" "0 \<le> t" "nat t < length (rps_partners s)"
  shows "rps_step t c s = Some (s, [])"
  using assms by (simp add: rps_step_def)

section \<open>The clients\<close>

text \<open>
  A series of games: \<open>draws\<close> are the numbers the client draws, in turn with the other clients, from the
  one generator, \<open>results\<close> the answers. The letters sent, the answer \<open>N\<close> ending the series.
\<close>

definition signup :: u8 where "signup = 66"
definition quit :: u8 where "quit = 81"

fun play_loop :: "nat \<Rightarrow> (nat \<Rightarrow> u32) \<Rightarrow> (nat \<Rightarrow> u8) \<Rightarrow> nat \<Rightarrow> u8 list" where
  "play_loop 0 draws results i = [quit]"
| "play_loop (Suc n) draws results i =
     ([throw_R, throw_P, throw_S] ! unat (draws i mod 3)) #
       (if results i = 78 then [] else play_loop n draws results (i + 1))"

definition play_games :: "int \<Rightarrow> (nat \<Rightarrow> u32) \<Rightarrow> (nat \<Rightarrow> u8) \<Rightarrow> u8 list" where
  "play_games my_tid draws results = signup # play_loop (nat (my_tid XOR 1)) draws results 0"

text \<open>A client with an even tid plays two series. All it sends are letters the server knows.\<close>

definition k2_rps_client ::
  "int \<Rightarrow> (nat \<Rightarrow> u32) \<Rightarrow> (nat \<Rightarrow> u8) \<Rightarrow> (nat \<Rightarrow> u32) \<Rightarrow> (nat \<Rightarrow> u8) \<Rightarrow> u8 list" where
  "k2_rps_client my_tid d1 r1 d2 r2 =
     play_games my_tid d1 r1 @ (if my_tid mod 2 = 0 then play_games my_tid d2 r2 else [])"

lemma throw_letter: "[throw_R, throw_P, throw_S] ! unat (x mod 3 :: u32) \<in> {throw_R, throw_P, throw_S}"
proof -
  have "unat (x mod 3) < 3" by (simp add: unat_mod_distrib)
  then have "[throw_R, throw_P, throw_S] ! unat (x mod 3) \<in> set [throw_R, throw_P, throw_S]"
    by (intro nth_mem) simp
  then show ?thesis by simp
qed

lemma play_loop_letters: "set (play_loop n d r i) \<subseteq> {66, throw_R, throw_P, throw_S, 81}"
proof (induction n arbitrary: i)
  case (Suc n)
  then show ?case using throw_letter [of "d i"] by auto
qed (simp add: quit_def)

lemma client_letters:
  "set (k2_rps_client my_tid d1 r1 d2 r2) \<subseteq> {66, throw_R, throw_P, throw_S, 81}"
proof -
  have "set (play_games t d r) \<subseteq> {66, throw_R, throw_P, throw_S, 81}" for t d r
    using play_loop_letters [of "nat (t XOR 1)" d r 0] by (simp add: play_games_def signup_def)
  from this [of my_tid d1 r1] this [of my_tid d2 r2] show ?thesis by (auto simp: k2_rps_client_def)
qed

section \<open>Straight-line tasks\<close>

text \<open>The calls of the tasks of k1 and k3, and of the first task of k2; tasks are named by their function.\<close>

datatype k3_message = K3_GET_PARAMS | K3_DONE

datatype prog_event =
    PROG_CACHES bool
  | PROG_CREATE int string
  | PROG_PRINT chars "printf_arg list"
  | PROG_PASS
  | PROG_EXIT
  | PROG_SEND int k3_message
  | PROG_DELAY int
  | PROG_PARAMS int int int
  | PROG_RELEASE int
  | PROG_KILL int

definition k2_first_user_task :: "int \<Rightarrow> prog_event list" where
  "k2_first_user_task my_priority =
     [PROG_CREATE (my_priority - 1) ''nameserver_main'', PROG_CREATE (my_priority - 1) ''k2_rps_server''] @
     replicate 4 (PROG_CREATE (my_priority - 3) ''k2_rps_client'')"

definition k1_print :: "int \<Rightarrow> int \<Rightarrow> prog_event" where
  "k1_print my_tid my_parent_tid =
     PROG_PRINT (str_line ''In other task: MyTid(): %d, MyParentTid(): %d'') [ARG_INT my_tid, ARG_INT my_parent_tid]"

definition k1_other_user_task :: "int \<Rightarrow> int \<Rightarrow> int \<Rightarrow> prog_event list" where
  "k1_other_user_task my_tid my_parent_tid my_parent_tid' =
     [k1_print my_tid my_parent_tid, PROG_PASS, k1_print my_tid my_parent_tid', PROG_EXIT]"

text \<open>\<open>created\<close> are the results of the four \<open>Create\<close>s.\<close>

definition k1_first_user_task :: "int \<Rightarrow> (nat \<Rightarrow> int) \<Rightarrow> prog_event list" where
  "k1_first_user_task my_priority created =
     (let new = (\<lambda>i p. [PROG_CREATE p ''k1_other_user_task'',
                        PROG_PRINT (str_line ''Created: %d.'') [ARG_INT (created i)]]) in
      new 0 (my_priority - 1) @ new 1 (my_priority - 1) @ new 2 (my_priority + 1) @ new 3 (my_priority + 1) @
      [PROG_PRINT (str_line ''FirstUserTask: exiting'') [], PROG_EXIT])"

text \<open>
  A client of k3 asks its parent for the length and the number of its delays, delays and reports, and
  says that it is done.
\<close>

definition blank_if :: "bool \<Rightarrow> printf_arg" where
  "blank_if b = ARG_STRING (str (if b then '' '' else []))"

definition k3_report :: "int \<Rightarrow> int \<Rightarrow> int \<Rightarrow> int \<Rightarrow> prog_event" where
  "k3_report my_tid delay delay_count i =
     PROG_PRINT (str_line (''Tid: %d'' @ [CHR 9] @ ''Delay interval: %d'' @ [CHR 9] @
        ''%s%d out of %s%d delays completed'' @ [CHR 9] @ ''Delayed %s%d ticks so far''))
       [ARG_INT my_tid, ARG_INT delay, blank_if (i < 10), ARG_INT i, blank_if (delay_count < 10),
        ARG_INT delay_count, blank_if (i * delay < 100), ARG_INT (i * delay)]"

definition k3_client :: "int \<Rightarrow> int \<Rightarrow> int \<Rightarrow> int \<Rightarrow> prog_event list" where
  "k3_client my_tid my_parent_tid delay delay_count =
     [PROG_SEND my_parent_tid K3_GET_PARAMS] @
     concat (map (\<lambda>i. [PROG_DELAY delay, k3_report my_tid delay delay_count i]) [1..delay_count]) @
     [PROG_SEND my_parent_tid K3_DONE]"

text \<open>
  The first task of k3: \<open>asks\<close> and \<open>dones\<close> are the messages it receives, with their senders, first the
  requests and then the notices; anything else fails an assertion. \<open>notifier\<close> and \<open>idle\<close> are the tids
  the nameserver answers with.
\<close>

definition k3_delays :: "(int \<times> int) list" where
  "k3_delays = zip [10, 23, 33, 71] [20, 9, 6, 3]"

definition k3_first_user_task ::
  "int \<Rightarrow> (int \<times> k3_message) list \<Rightarrow> (int \<times> k3_message) list \<Rightarrow> int \<Rightarrow> int \<Rightarrow> prog_event list option" where
  "k3_first_user_task my_priority asks dones notifier idle = do {
     guard_opt (length asks = 4 \<and> length dones = 4);
     guard_opt (list_all (\<lambda>m. snd m = K3_GET_PARAMS) asks \<and> list_all (\<lambda>m. snd m = K3_DONE) dones);
     Some ([PROG_CACHES True, PROG_CREATE (my_priority - 5) ''nameserver_main'',
         PROG_CREATE (my_priority - 10) ''idle_task'', PROG_CREATE (my_priority - 5) ''clock_server''] @
       map (\<lambda>i. PROG_CREATE (my_priority - 10 + i) ''k3_client'') [1..4] @
       map (\<lambda>((t, _), (delay, count)). PROG_PARAMS t delay count) (zip asks k3_delays) @
       map (\<lambda>(t, _). PROG_RELEASE t) dones @ [PROG_KILL notifier, PROG_KILL idle])
   }"

end
