(* ===== verification/Views.thy ===== *)
theory Views
  imports Client_Calls Prediction
begin

text \<open>
  The views, \<open>usr/views\<close>: tasks that ask the servers and print what has changed. A print is its format
  and its arguments, as given to \<open>Printf\<close>, which \<open>Client_Calls\<close> turns into bytes; one round of a view
  is a function of its state and the answers to the new state and the prints, in order. The active
  trains do not change within a round. \<open>None\<close> is a failed assertion or undefined behaviour. The
  theorems say what stands on the screen, as the last print at a place.
\<close>

type_synonym print = "chars \<times> printf_arg list"

definition ESC :: string where "ESC = [CHR 27, CHR 91]"
definition HIDE_CURSOR_TO_EOL :: string where "HIDE_CURSOR_TO_EOL = ESC @ ''K''"
definition TRADEMARK :: string where "TRADEMARK = [CHR 0xE2, CHR 0x84, CHR 0xA2]"
definition CLOCK_LINE :: int where "CLOCK_LINE = 2"
definition SENSOR_HEADING_LINE :: int where "SENSOR_HEADING_LINE = 4"
definition TURNOUTS_HEADING_LINE :: int where "TURNOUTS_HEADING_LINE = 4"
definition TURNOUTS_COLUMN :: int where "TURNOUTS_COLUMN = 12"
definition TRAIN_LOCATION_LINE :: int where "TRAIN_LOCATION_LINE = 23"
definition RESERVATION_LINE :: int where "RESERVATION_LINE = 30"

text \<open>
  The two ways to print at a place: a format that begins with \<open>ESC[%d;%dH\<close>, or with \<open>%s%d;%dH\<close> and \<open>ESC\<close>
  as an argument.
\<close>

abbreviation (input) text_arg :: "string \<Rightarrow> printf_arg" where "text_arg s \<equiv> ARG_STRING (str s)"

definition print_at :: "string \<Rightarrow> int \<Rightarrow> int \<Rightarrow> printf_arg list \<Rightarrow> print" where
  "print_at fmt line column va = (str (ESC @ ''%d;%dH'' @ fmt), ARG_INT line # ARG_INT column # va)"

definition print_esc :: "string \<Rightarrow> int \<Rightarrow> int \<Rightarrow> printf_arg list \<Rightarrow> print" where
  "print_esc fmt line column va =
     (str (''%s%d;%dH'' @ fmt), text_arg ESC # ARG_INT line # ARG_INT column # va)"

text \<open>The place of a print, and the rest of it.\<close>

fun place :: "print \<Rightarrow> (int \<times> int) option" where
  "place (fmt, ARG_INT l # ARG_INT c # va) = Some (l, c)"
| "place (fmt, ARG_STRING s # ARG_INT l # ARG_INT c # va) = Some (l, c)"
| "place p = None"

lemma place_simps [simp]: "place (print_at f l c va) = Some (l, c)" "place (print_esc f l c va) = Some (l, c)"
  by (simp_all add: print_at_def print_esc_def)

text \<open>The last of the prints at a place.\<close>

definition shown :: "print list \<Rightarrow> int \<times> int \<Rightarrow> print option" where
  "shown ps lc = find (\<lambda>p. place p = Some lc) (rev ps)"

section \<open>The clock\<close>

definition print_clock :: "u32 \<Rightarrow> print" where
  "print_clock deciseconds =
     (let minutes = deciseconds div 10 div 60; seconds = (deciseconds div 10) mod 60 in
      print_esc ''%d:%s%d.%d%s'' CLOCK_LINE 1
        [ARG_INT (sint minutes), text_arg (if seconds > 9 then [] else ''0''), ARG_INT (sint seconds),
         ARG_INT (sint (deciseconds mod 10)), text_arg HIDE_CURSOR_TO_EOL])"

text \<open>One turn: what is printed, the next count, and the tick to wait for.\<close>

definition clock_view :: "u32 \<Rightarrow> print \<times> u32 \<times> int" where
  "clock_view deciseconds =
     (print_clock deciseconds, deciseconds + 1, sint (10 * (deciseconds + 1)))"

section \<open>The sensors\<close>

definition SENSOR_HISTORY_LENGTH :: u32 where "SENSOR_HISTORY_LENGTH = 10"

text \<open>One sensor triggered: its name on the next line, the arrow from the line before to this one.\<close>

definition print_sensor :: "u32 \<Rightarrow> u8 buffer \<Rightarrow> (u8 buffer \<times> print list) option" where
  "print_sensor i buf = do {
     ltr \<leftarrow> sensor_bank i;
     num \<leftarrow> sensor_index i;
     let offset = b_in buf;
     let line = (\<lambda>o'. sint (of_int (SENSOR_HEADING_LINE + 1) + o' :: u32));
     buf' \<leftarrow> buffer_put_replace buf (ucast offset);
     Some (buf', [print_esc ''%c%d   '' (line offset) 1 [ARG_CHAR ltr, ARG_INT (sint num)],
       print_esc ''   '' (line ((offset + 9) mod 10)) 6 [],
       print_esc ''<--'' (line (if b_in buf' = 0 then b_elems buf' - 1 else b_in buf' - 1)) 6 []])
   }"

fun print_sensors_from :: "u32 list \<Rightarrow> u32 list \<Rightarrow> u8 buffer \<Rightarrow> (u8 buffer \<times> print list) option" where
  "print_sensors_from sensors [] buf = Some (buf, [])"
| "print_sensors_from sensors (i # is) buf = do {
     triggered \<leftarrow> is_sensor_triggered sensors i;
     (buf1, ps) \<leftarrow> (if triggered then print_sensor i buf else Some (buf, []));
     (buf2, ps') \<leftarrow> print_sensors_from sensors is buf1;
     Some (buf2, ps @ ps')
   }"

definition print_sensors :: "u32 list \<Rightarrow> u8 buffer \<Rightarrow> (u8 buffer \<times> print list) option" where
  "print_sensors sensors buf = print_sensors_from sensors (map of_nat [0..<80]) buf"

text \<open>\<open>report\<close> is the answer of the track state controller; the state is the last one and the buffer.\<close>

definition sensor_view_init :: "u8 list \<Rightarrow> (u32 list \<times> u8 buffer) \<times> print" where
  "sensor_view_init recent_sensors =
     ((replicate 10 0, buffer_init recent_sensors SENSOR_HISTORY_LENGTH),
      print_esc ''Sensors: '' SENSOR_HEADING_LINE 1 [])"

definition sensor_view_round ::
  "u32 list \<Rightarrow> u32 list \<times> u8 buffer \<Rightarrow> ((u32 list \<times> u8 buffer) \<times> print list) option" where
  "sensor_view_round report = (\<lambda>(current_sensors, buf). do {
     (leading_edge, current') \<leftarrow> get_leading_edge current_sensors report;
     (buf', ps) \<leftarrow> print_sensors leading_edge buf;
     Some ((current', buf'), ps)
   })"

section \<open>The turnouts\<close>

definition turnout_place :: "nat \<Rightarrow> int \<times> int" where
  "turnout_place index = (TURNOUTS_HEADING_LINE + 1 + int index mod 11,
     TURNOUTS_COLUMN + (if index > 10 then 9 else 0))"

definition turnout_char :: "turnout_state \<Rightarrow> u8" where
  "turnout_char st = (case st of TURNOUT_UNKNOWN \<Rightarrow> 32 | TURNOUT_STRAIGHT \<Rightarrow> 83 | TURNOUT_CURVED \<Rightarrow> 67)"

definition update_turnout_view :: "nat \<Rightarrow> turnout_state \<Rightarrow> print" where
  "update_turnout_view index st =
     (let num = map_offset_to_turnout (of_nat index) in
      print_at ''%s%d | %c'' (fst (turnout_place index)) (snd (turnout_place index))
        [text_arg (if num \<ge> 100 then [] else if num \<ge> 10 then '' '' else ''  ''), ARG_INT (sint num),
         ARG_CHAR (turnout_char st)])"

definition init_turnout_view :: "turnout_state list \<Rightarrow> (turnout_state list \<times> print list) option" where
  "init_turnout_view reply = do {
     guard_opt (length reply = NUM_TURNOUTS);
     Some (reply,
       print_at ''Turnouts:%s'' TURNOUTS_HEADING_LINE (TURNOUTS_COLUMN + 1) [text_arg HIDE_CURSOR_TO_EOL] #
       map (\<lambda>i. print_at ''    |       |%s'' (TURNOUTS_HEADING_LINE + int i) TURNOUTS_COLUMN
              [text_arg HIDE_CURSOR_TO_EOL]) [1..<NUM_TURNOUTS div 2] @
       map (\<lambda>i. update_turnout_view i (reply ! i)) [0..<NUM_TURNOUTS])
   }"

text \<open>One round: what has changed since the last one is printed.\<close>

definition turnout_view_round ::
  "turnout_state list \<Rightarrow> turnout_state list \<Rightarrow> (turnout_state list \<times> print list) option" where
  "turnout_view_round reply turnout_states = do {
     guard_opt (length reply = NUM_TURNOUTS \<and> length turnout_states = NUM_TURNOUTS);
     Some (reply, concat (map (\<lambda>i. if turnout_states ! i \<noteq> reply ! i
       then [update_turnout_view i (reply ! i)] else []) [0..<NUM_TURNOUTS]))
   }"

section \<open>The reservations\<close>

definition LINE_CLEARED :: int where "LINE_CLEARED = 1357"
definition MAX_TRAINS :: nat where "MAX_TRAINS = 4"
definition RES_COL :: int where "RES_COL = 9"
definition RESERVATION_START :: "int \<Rightarrow> int" where "RESERVATION_START code = code div int TRACK_MAX"
definition RESERVATION_END :: "int \<Rightarrow> int" where "RESERVATION_END code = code mod int TRACK_MAX"

text \<open>The reply: the count and the array of 30, of which only the first \<open>count\<close> have been set.\<close>

type_synonym all_reservations = "int \<times> int list"

definition reservations_differ :: "all_reservations \<Rightarrow> all_reservations \<Rightarrow> bool" where
  "reservations_differ left right \<longleftrightarrow> fst left \<noteq> fst right \<or> snd left \<noteq> snd right"

definition clear_reservation_line :: "nat \<Rightarrow> print" where
  "clear_reservation_line line =
     print_at ''      |%s'' (RESERVATION_LINE + 2 + int line) 1 [text_arg HIDE_CURSOR_TO_EOL]"

fun reservation_prints :: "track \<Rightarrow> nat \<Rightarrow> int \<Rightarrow> int list \<Rightarrow> print list option" where
  "reservation_prints T line col [] = Some []"
| "reservation_prints T line col (this_res # rest) = do {
     guard_opt (0 \<le> this_res);
     from \<leftarrow> array_get T (nat (RESERVATION_START this_res));
     to \<leftarrow> array_get T (nat (RESERVATION_END this_res));
     ps \<leftarrow> reservation_prints T line (col + int (length (n_name from)) + 4 + int (length (n_name to)) + 2) rest;
     Some (print_at ''%s -> %s%s'' (RESERVATION_LINE + 2 + int line) col
       [text_arg (n_name from), text_arg (n_name to), text_arg (if rest = [] then [] else '', '')] # ps)
   }"

definition print_reservations :: "track \<Rightarrow> nat \<Rightarrow> all_reservations \<Rightarrow> print list option" where
  "print_reservations T line res = do {
     guard_opt (nat (fst res) \<le> length (snd res));
     ps \<leftarrow> reservation_prints T line RES_COL (take (nat (fst res)) (snd res));
     Some (print_at ''%s'' (RESERVATION_LINE + 2 + int line) RES_COL [text_arg HIDE_CURSOR_TO_EOL] # ps)
   }"

record reservation_view =
  rv_line_states :: "int list"
  rv_reservations :: "all_reservations list"

definition reservation_view_init :: "all_reservations list \<Rightarrow> reservation_view \<times> print list" where
  "reservation_view_init reservations =
     (\<lparr>rv_line_states = replicate MAX_TRAINS LINE_CLEARED,
       rv_reservations = map (\<lambda>r. (0, snd r)) reservations\<rparr>,
      [print_at ''Reservation Revelation%s:%s'' RESERVATION_LINE 1 [text_arg TRADEMARK, text_arg HIDE_CURSOR_TO_EOL],
       print_at ''%s%s'' (RESERVATION_LINE + 1) 1 [text_arg ''Train | Reservations'', text_arg HIDE_CURSOR_TO_EOL]] @
      map clear_reservation_line [0..<MAX_TRAINS])"

text \<open>The line of the \<open>i\<close>-th active train, \<open>res\<close> being the answer of the reservation server.\<close>

definition train_number :: "int \<Rightarrow> int \<Rightarrow> int \<Rightarrow> print" where
  "train_number line column train =
     print_at ''   %s%d'' line column [text_arg (if train < 10 then '' '' else []), ARG_INT train]"

definition reservation_line ::
  "track \<Rightarrow> nat \<Rightarrow> int \<Rightarrow> all_reservations \<Rightarrow> reservation_view \<Rightarrow> (reservation_view \<times> print list) option" where
  "reservation_line T i train res v = do {
     guard_opt (0 \<le> train);
     line_state \<leftarrow> array_get (rv_line_states v) i;
     old \<leftarrow> array_get (rv_reservations v) (nat train);
     let new_train = line_state \<noteq> train;
     let differ = reservations_differ res old \<or> new_train;
     reservations \<leftarrow> (if differ then array_set (rv_reservations v) (nat train) res else Some (rv_reservations v));
     ps \<leftarrow> (if differ then print_reservations T i res else Some []);
     lines \<leftarrow> array_set (rv_line_states v) i train;
     Some (\<lparr>rv_line_states = lines, rv_reservations = reservations\<rparr>,
       (if new_train then [clear_reservation_line i, train_number (RESERVATION_LINE + 2 + int i) 1 train]
        else []) @ ps)
   }"

fun reservation_lines ::
  "track \<Rightarrow> nat \<Rightarrow> (int \<times> all_reservations) list \<Rightarrow> reservation_view \<Rightarrow> (reservation_view \<times> print list) option" where
  "reservation_lines T i [] v = Some (v, [])"
| "reservation_lines T i ((train, res) # rest) v =
     (if i < MAX_TRAINS then do {
        (v1, ps) \<leftarrow> reservation_line T i train res v;
        (v2, ps') \<leftarrow> reservation_lines T (i + 1) rest v1;
        Some (v2, ps @ ps')
      }
      else Some (v, []))"

text \<open>Lines without a train are cleared once; \<open>wipe\<close> is what clears a line.\<close>

definition clear_unused :: "(nat \<Rightarrow> print list) \<Rightarrow> nat \<Rightarrow> int list \<Rightarrow> int list \<times> print list" where
  "clear_unused wipe n lines =
     (map (\<lambda>i. if n \<le> i then LINE_CLEARED else lines ! i) [0..<length lines],
      concat (map (\<lambda>i. if n \<le> i \<and> lines ! i \<noteq> LINE_CLEARED then wipe i else []) [0..<length lines]))"

definition reservation_view_round ::
  "track \<Rightarrow> (int \<times> all_reservations) list \<Rightarrow> reservation_view \<Rightarrow> (reservation_view \<times> print list) option" where
  "reservation_view_round T answers v = do {
     guard_opt (length (rv_line_states v) = MAX_TRAINS);
     (v1, ps) \<leftarrow> reservation_lines T 0 answers v;
     let (lines, ps') = clear_unused (\<lambda>i. [clear_reservation_line i]) (length answers) (rv_line_states v1);
     Some (v1\<lparr>rv_line_states := lines\<rparr>, ps @ ps')
   }"

section \<open>The positions of the trains\<close>

definition columns :: "int list" where "columns = [1, 9, 16, 23, 33, 44]"
definition column_widths :: "nat list" where "column_widths = [5, 4, 4, 7, 8, 9]"
definition TRAIN_COL :: nat where "TRAIN_COL = 0"
definition DEST_COL :: nat where "DEST_COL = 1"
definition NEXT_COL :: nat where "NEXT_COL = 2"
definition TIME_COL :: nat where "TIME_COL = 3"
definition TIME_DIFF_COL :: nat where "TIME_DIFF_COL = 4"
definition DIST_DIFF_COL :: nat where "DIST_DIFF_COL = 5"
definition NO_NEXT_SENSOR :: u32 where "NO_NEXT_SENSOR = 1337"

definition location_place :: "nat \<Rightarrow> nat \<Rightarrow> int \<times> int" where
  "location_place line column = (TRAIN_LOCATION_LINE + 2 + int line, columns ! column)"

definition print_cell :: "string \<Rightarrow> nat \<Rightarrow> nat \<Rightarrow> printf_arg list \<Rightarrow> print" where
  "print_cell fmt line column va = print_at fmt (fst (location_place line column)) (snd (location_place line column)) va"

text \<open>The format is put together in a buffer: the blanks of the column, and the bar after it.\<close>

definition clear_cell :: "nat \<Rightarrow> nat \<Rightarrow> print" where
  "clear_cell line column =
     print_cell (replicate (column_widths ! column) (CHR '' '') @ (if column = DIST_DIFF_COL then [] else '' |''))
       line column []"

definition sensor_args :: "u32 \<Rightarrow> printf_arg list option" where
  "sensor_args sensor = do {
     index \<leftarrow> sensor_index sensor;
     bank \<leftarrow> sensor_bank sensor;
     Some [text_arg (if index < 10 then '' '' else []), ARG_CHAR bank, ARG_INT (sint index)]
   }"

definition print_destination :: "nat \<Rightarrow> u32 \<Rightarrow> print option" where
  "print_destination line destination =
     (if destination = of_int NO_DESTINATION then Some (print_cell ''    '' line DEST_COL [])
      else map_option (print_cell '' %s%c%d'' line DEST_COL) (sensor_args destination))"

definition time_print :: "nat \<Rightarrow> int \<Rightarrow> print" where
  "time_print line ticks =
     (let minutes = ticks sdiv 100 sdiv 60; seconds = (ticks sdiv 100) smod 60; deciseconds = (ticks sdiv 10) smod 10 in
      print_cell ''%s%d:%s%d.%d'' line TIME_COL
        [text_arg (if (of_int minutes :: u32) < 10 then '' '' else []), ARG_INT minutes,
         text_arg (if (of_int seconds :: u32) < 10 then ''0'' else []), ARG_INT seconds, ARG_INT deciseconds])"

definition print_next_sensor_prediction :: "nat \<Rightarrow> u32 \<Rightarrow> int \<Rightarrow> print list option" where
  "print_next_sensor_prediction line next_sensor ticks =
     (if next_sensor = NO_NEXT_SENSOR then Some [clear_cell line NEXT_COL, clear_cell line TIME_COL]
      else do {
        va \<leftarrow> sensor_args next_sensor;
        Some [print_cell '' %s%c%d'' line NEXT_COL va,
          if ticks = INFINITE_TICKS then clear_cell line TIME_COL else time_print line ticks]
      })"

definition print_diffs :: "nat \<Rightarrow> u32 \<Rightarrow> u32 \<Rightarrow> int \<Rightarrow> int \<Rightarrow> int \<Rightarrow> print list option" where
  "print_diffs line expected_last_sensor seen_sensor expected_ticks ticks dist_diff =
     (if expected_last_sensor = NO_NEXT_SENSOR \<or> expected_last_sensor \<noteq> seen_sensor \<or>
        expected_ticks = INFINITE_TICKS
      then Some [clear_cell line TIME_DIFF_COL, clear_cell line DIST_DIFF_COL]
      else do {
        ticks_diff \<leftarrow> int32 (ticks - expected_ticks);
        abs_ticks \<leftarrow> int32 \<bar>ticks_diff\<bar>;
        let seconds = abs_ticks div 100;
        let mm = \<bar>dist_diff sdiv 100\<bar>;
        Some [print_cell ''  %s%c%d.%d%d'' line TIME_DIFF_COL
            [text_arg (if seconds < 10 then '' '' else []), ARG_CHAR (if ticks_diff < 0 then 45 else 32),
             ARG_INT seconds, ARG_INT (\<bar>ticks_diff sdiv 10\<bar> mod 10), ARG_INT (abs_ticks mod 10)],
          print_cell ''    %s%c%d.%d'' line DIST_DIFF_COL
            [text_arg (if mm div 10 < 10 then '' '' else []), ARG_CHAR (if dist_diff < 0 then 45 else 32),
             ARG_INT (mm div 10), ARG_INT (mm mod 10)]]
      })"

definition clear_location_line :: "nat \<Rightarrow> print list" where
  "clear_location_line line =
     map (clear_cell line) [TRAIN_COL, DEST_COL, NEXT_COL, TIME_COL, TIME_DIFF_COL, DIST_DIFF_COL]"

record location_view =
  lv_line_states :: "int list"
  lv_last_sensor :: "(u32 \<times> int) list"
  lv_destinations :: "u32 list"
  lv_current_prediction :: "coordinates list"
  lv_current :: "coordinates list"

text \<open>
  What the servers answer for one train: its last sensor and when, its destination, the turnouts, where
  it is for the prediction and at the end of its turn. \<open>root\<close> is the square root of the prediction.
\<close>

record location_answers =
  la_seen :: "u32 \<times> int"
  la_destination :: u32
  la_turnouts :: "turnout_state list"
  la_predict_from :: coordinates
  la_coordinates :: coordinates

definition sensor_maybe :: "track \<Rightarrow> nptr option \<Rightarrow> u32 option" where
  "sensor_maybe T node = (case node of None \<Rightarrow> Some NO_NEXT_SENSOR
     | Some n \<Rightarrow> map_option (\<lambda>nd. of_int (n_num nd)) (array_get T n))"

definition print_prediction :: "track \<Rightarrow> nat \<Rightarrow> coordinates \<Rightarrow> print list option" where
  "print_prediction T i p = do {
     sensor \<leftarrow> sensor_maybe T (l_node (c_loc p));
     print_next_sensor_prediction i sensor (c_ticks p)
   }"

text \<open>
  What is printed of the sensors, and the prediction kept. After a sensor has been hit the difference to
  the prediction is shown, whose node is read without a test for \<open>NULL\<close>. \<open>uninit\<close> is the content of the
  local variable for the tentative prediction.
\<close>

definition location_sensor_part ::
  "(int \<Rightarrow> int) \<Rightarrow> track \<Rightarrow> nat \<Rightarrow> nat \<Rightarrow> location_answers \<Rightarrow> coordinates \<Rightarrow> (u32 \<times> int) \<Rightarrow> coordinates \<Rightarrow>
   coordinates \<Rightarrow> (coordinates \<times> print list) option" where
  "location_sensor_part root T nodes i a uninit last_seen prediction current =
     (if fst (la_seen a) \<noteq> fst last_seen then do {
        expected \<leftarrow> node_at T (l_node (c_loc prediction));
        diff \<leftarrow> distance_diff T nodes (la_turnouts a) (fst (la_seen a)) (c_loc current);
        ps \<leftarrow> print_diffs i (of_int (n_num expected)) (fst (la_seen a)) (c_ticks prediction) (snd (la_seen a)) diff;
        p \<leftarrow> predict_sensor_hit root T (la_turnouts a) (la_predict_from a) prediction;
        ps' \<leftarrow> print_prediction T i p;
        Some (p, ps @ ps')
      }
      else if fst (la_seen a) \<noteq> NO_DATA_RECEIVED then do {
        tentative \<leftarrow> predict_sensor_hit root T (la_turnouts a) (la_predict_from a) uninit;
        if l_node (c_loc tentative) = l_node (c_loc prediction) then do {
          ps \<leftarrow> (if c_ticks tentative sdiv 10 \<noteq> c_ticks prediction sdiv 10
            then print_prediction T i tentative else Some []);
          Some (tentative, ps)
        }
        else map_option (Pair prediction) (print_prediction T i tentative)
      }
      else Some (prediction, []))"

definition location_line ::
  "(int \<Rightarrow> int) \<Rightarrow> track \<Rightarrow> nat \<Rightarrow> nat \<Rightarrow> int \<Rightarrow> location_answers \<Rightarrow> coordinates \<Rightarrow> location_view \<Rightarrow>
   (location_view \<times> print list) option" where
  "location_line root T nodes i train a uninit v = do {
     guard_opt (0 \<le> train);
     let t = nat train;
     line_state \<leftarrow> array_get (lv_line_states v) i;
     lines \<leftarrow> array_set (lv_line_states v) i train;
     destination \<leftarrow> array_get (lv_destinations v) t;
     destinations \<leftarrow> array_set (lv_destinations v) t (la_destination a);
     ps1 \<leftarrow> (if la_destination a \<noteq> destination then map_option (\<lambda>p. [p]) (print_destination i (la_destination a))
       else Some []);
     last_seen \<leftarrow> array_get (lv_last_sensor v) t;
     prediction \<leftarrow> array_get (lv_current_prediction v) t;
     current \<leftarrow> array_get (lv_current v) t;
     (p, ps2) \<leftarrow> location_sensor_part root T nodes i a uninit last_seen prediction current;
     predictions \<leftarrow> array_set (lv_current_prediction v) t p;
     sensors \<leftarrow> array_set (lv_last_sensor v) t (la_seen a);
     currents \<leftarrow> array_set (lv_current v) t (la_coordinates a);
     Some (\<lparr>lv_line_states = lines, lv_last_sensor = sensors, lv_destinations = destinations,
         lv_current_prediction = predictions, lv_current = currents\<rparr>,
       (if line_state \<noteq> train
        then clear_location_line i @ [train_number (TRAIN_LOCATION_LINE + 2 + int i) (columns ! TRAIN_COL) train]
        else []) @ ps1 @ ps2)
   }"

fun location_lines ::
  "(int \<Rightarrow> int) \<Rightarrow> track \<Rightarrow> nat \<Rightarrow> nat \<Rightarrow> (int \<times> location_answers) list \<Rightarrow> coordinates \<Rightarrow> location_view \<Rightarrow>
   (location_view \<times> print list) option" where
  "location_lines root T nodes i [] uninit v = Some (v, [])"
| "location_lines root T nodes i ((train, a) # rest) uninit v =
     (if i < MAX_TRAINS then do {
        (v1, ps) \<leftarrow> location_line root T nodes i train a uninit v;
        (v2, ps') \<leftarrow> location_lines root T nodes (i + 1) rest uninit v1;
        Some (v2, ps @ ps')
      }
      else Some (v, []))"

definition location_view_round ::
  "(int \<Rightarrow> int) \<Rightarrow> track \<Rightarrow> nat \<Rightarrow> (int \<times> location_answers) list \<Rightarrow> coordinates \<Rightarrow> location_view \<Rightarrow>
   (location_view \<times> print list) option" where
  "location_view_round root T nodes answers uninit v = do {
     guard_opt (length (lv_line_states v) = MAX_TRAINS);
     (v1, ps) \<leftarrow> location_lines root T nodes 0 answers uninit v;
     let (lines, ps') = clear_unused clear_location_line (length answers) (lv_line_states v1);
     Some (v1\<lparr>lv_line_states := lines\<rparr>, ps @ ps')
   }"

definition location_view_init :: "print list" where
  "location_view_init =
     [print_at ''Sensor Prediction Spot%s:%s'' TRAIN_LOCATION_LINE 1 [text_arg TRADEMARK, text_arg HIDE_CURSOR_TO_EOL],
      print_at ''%s%s'' (TRAIN_LOCATION_LINE + 1) 1
        [text_arg ''Train | Dest | Next |    Time | Diff (s) | Diff (cm)'', text_arg HIDE_CURSOR_TO_EOL]] @
     concat (map clear_location_line [0..<MAX_TRAINS])"

section \<open>What stands on the screen\<close>

lemma shown_append: "shown (ps @ qs) lc = (case shown qs lc of None \<Rightarrow> shown ps lc | Some p \<Rightarrow> Some p)"
proof -
  have "find P (xs @ ys) = (case find P xs of None \<Rightarrow> find P ys | Some p \<Rightarrow> Some p)" for P and xs ys :: "print list"
    by (induction xs) auto
  from this [of _ "rev qs" "rev ps"] show ?thesis by (simp only: shown_def rev_append)
qed

lemma shown_Nil [simp]: "shown [] lc = None"
  by (simp add: shown_def)

lemma shown_single [simp]: "shown [p] lc = (if place p = Some lc then Some p else None)"
  by (simp add: shown_def)

text \<open>The cells of the turnouts: 22 places, two columns of 11 lines, nine characters apart.\<close>

lemma turnout_places_distinct: "distinct (map turnout_place [0..<22])"
  by code_simp

lemma turnout_place_inj: "i < 22 \<Longrightarrow> j < 22 \<Longrightarrow> turnout_place i = turnout_place j \<longleftrightarrow> i = j"
  using turnout_places_distinct nth_eq_iff_index_eq [of "map turnout_place [0..<22]" i j] by simp

lemma place_turnout [simp]: "place (update_turnout_view i st) = Some (turnout_place i)"
  by (simp add: update_turnout_view_def Let_def)

lemma shown_turnouts:
  assumes "j < 22" "set is \<subseteq> {..<22}"
  shows "shown (concat (map (\<lambda>i. if P i then [update_turnout_view i (st ! i)] else []) is)) (turnout_place j) =
    (if j \<in> set is \<and> P j then Some (update_turnout_view j (st ! j)) else None)"
  using assms(2)
proof (induction "is")
  case (Cons i "is")
  then have "turnout_place i = turnout_place j \<longleftrightarrow> i = j" using assms(1) by (intro turnout_place_inj) auto
  then have "shown (if P i then [update_turnout_view i (st ! i)] else []) (turnout_place j) =
      (if P j \<and> i = j then Some (update_turnout_view j (st ! j)) else None)" by auto
  with Cons show ?case by (auto simp: shown_append)
qed simp

text \<open>A run of the view: the first answer, then one for each round.\<close>

fun turnout_view_rounds ::
  "turnout_state list list \<Rightarrow> turnout_state list \<times> print list \<Rightarrow> (turnout_state list \<times> print list) option" where
  "turnout_view_rounds [] x = Some x"
| "turnout_view_rounds (r # rs) (st, ps) = do {
     (st', ps') \<leftarrow> turnout_view_round r st;
     turnout_view_rounds rs (st', ps @ ps')
   }"

definition turnout_view ::
  "turnout_state list \<Rightarrow> turnout_state list list \<Rightarrow> (turnout_state list \<times> print list) option" where
  "turnout_view r rs = Option.bind (init_turnout_view r) (turnout_view_rounds rs)"

definition turnouts_shown :: "print list \<Rightarrow> turnout_state list \<Rightarrow> bool" where
  "turnouts_shown ps st \<longleftrightarrow>
     (\<forall>i < 22. shown ps (turnout_place i) = Some (update_turnout_view i (st ! i)))"

lemma turnout_rounds_show:
  "length st = 22 \<Longrightarrow> \<forall>r \<in> set rs. length r = 22 \<Longrightarrow> turnouts_shown ps st \<Longrightarrow>
   \<exists>ps'. turnout_view_rounds rs (st, ps) = Some (last (st # rs), ps') \<and> turnouts_shown ps' (last (st # rs))"
proof (induction rs arbitrary: st ps)
  case (Cons r rs)
  define ps' where "ps' = concat (map (\<lambda>i. if st ! i \<noteq> r ! i then [update_turnout_view i (r ! i)] else []) [0..<22])"
  have round: "turnout_view_round r st = Some (r, ps')"
    using Cons.prems by (simp add: turnout_view_round_def NUM_TURNOUTS_def ps'_def)
  have "turnouts_shown (ps @ ps') r"
    unfolding turnouts_shown_def
  proof (intro allI impI)
    fix i :: nat assume i: "i < 22"
    have "shown ps' (turnout_place i) = (if st ! i \<noteq> r ! i then Some (update_turnout_view i (r ! i)) else None)"
      unfolding ps'_def by (subst shown_turnouts [OF i]) (use i in auto)
    then show "shown (ps @ ps') (turnout_place i) = Some (update_turnout_view i (r ! i))"
      using Cons.prems(3) i by (simp add: shown_append turnouts_shown_def)
  qed
  from Cons.IH [OF _ _ this] Cons.prems show ?case by (simp add: round)
qed simp

text \<open>
  C31: however the turnouts change and whichever answers the view gets, after every round the last print
  in the cell of each of the 22 turnouts is its number with its state in the last answer, although only
  changes are printed; and no two turnouts have the same cell.
\<close>

theorem turnout_view_shows_states:
  assumes "\<forall>r \<in> set (r0 # rs). length r = 22"
  shows "\<exists>ps. turnout_view r0 rs = Some (last (r0 # rs), ps) \<and>
    (\<forall>i < 22. shown ps (turnout_place i) = Some (update_turnout_view i (last (r0 # rs) ! i))) \<and>
    inj_on turnout_place {..<22}"
proof -
  define qs where "qs = map (\<lambda>i. update_turnout_view i (r0 ! i)) [0..<22]"
  obtain hs where init: "init_turnout_view r0 = Some (r0, hs @ qs)"
    using assms by (simp add: init_turnout_view_def NUM_TURNOUTS_def qs_def)
  have "qs = concat (map (\<lambda>i. if True then [update_turnout_view i (r0 ! i)] else []) [0..<22])"
    by (simp add: qs_def)
  then have "shown qs (turnout_place i) = Some (update_turnout_view i (r0 ! i))" if "i < 22" for i
    using shown_turnouts [OF that, of "[0..<22]" "\<lambda>_. True" r0] that by (simp add: lessThan_atLeast0)
  then have "turnouts_shown (hs @ qs) r0" by (simp add: turnouts_shown_def shown_append)
  from turnout_rounds_show [OF _ _ this, of rs] assms
  have "\<exists>ps. turnout_view r0 rs = Some (last (r0 # rs), ps) \<and> turnouts_shown ps (last (r0 # rs))"
    by (simp add: turnout_view_def init)
  moreover have "inj_on turnout_place {..<22}" by (auto intro: inj_onI simp: turnout_place_inj)
  ultimately show ?thesis unfolding turnouts_shown_def by blast
qed

theorem turnout_view_shows_states_witness:
  "\<exists>ps. turnout_view (replicate 22 TURNOUT_UNKNOWN) [(replicate 22 TURNOUT_STRAIGHT)[20 := TURNOUT_CURVED]] =
      Some ((replicate 22 TURNOUT_STRAIGHT)[20 := TURNOUT_CURVED], ps) \<and>
    shown ps (14, 21) = Some (print_at ''%s%d | %c'' 14 21 [text_arg [], ARG_INT 155, ARG_CHAR 67])"
proof -
  let ?r = "(replicate 22 TURNOUT_STRAIGHT)[20 := TURNOUT_CURVED]"
  have "turnout_place 20 = (14, 21)"
    by (simp add: turnout_place_def TURNOUTS_HEADING_LINE_def TURNOUTS_COLUMN_def)
  moreover have "update_turnout_view 20 TURNOUT_CURVED = print_at ''%s%d | %c'' 14 21 [text_arg [], ARG_INT 155, ARG_CHAR 67]"
    using calculation by (simp add: update_turnout_view_def map_offset_to_turnout_def turnout_char_def)
  moreover have "\<forall>r \<in> set [replicate 22 TURNOUT_UNKNOWN, ?r]. length r = 22" "last [replicate 22 TURNOUT_UNKNOWN, ?r] = ?r"
    "?r ! 20 = TURNOUT_CURVED" by simp_all
  moreover obtain ps where "turnout_view (replicate 22 TURNOUT_UNKNOWN) [?r] = Some (?r, ps)"
    "\<forall>i < 22. shown ps (turnout_place i) = Some (update_turnout_view i (?r ! i))"
    using turnout_view_shows_states [OF calculation(3)] unfolding calculation(4) by blast
  moreover have "shown ps (turnout_place 20) = Some (update_turnout_view 20 (?r ! 20))"
    using calculation(7) by simp
  ultimately show ?thesis by metis
qed

text \<open>The view of the sensors: the name of the \<open>m\<close>-th sensor, and the arrow.\<close>

definition sensor_line :: "nat \<Rightarrow> int" where "sensor_line m = 5 + int (m mod 10)"

definition sensor_name :: "u32 \<Rightarrow> nat \<Rightarrow> print" where
  "sensor_name i m = print_esc ''%c%d   '' (sensor_line m) 1
     [ARG_CHAR (65 + ucast (i div 16)), ARG_INT (sint (1 + i mod 16))]"

definition arrow :: "nat \<Rightarrow> print" where
  "arrow m = print_esc ''<--'' (sensor_line m) 6 []"

text \<open>The buffer after \<open>n\<close> sensors, and what then stands on the screen.\<close>

definition history_buf :: "nat \<Rightarrow> u8 buffer \<Rightarrow> bool" where
  "history_buf n b \<longleftrightarrow> length (b_data b) = 10 \<and> b_size b = 10 \<and> b_elems b = of_nat (min n 10) \<and>
     b_in b = of_nat (n mod 10)"

definition history_shown :: "print list \<Rightarrow> u32 list \<Rightarrow> bool" where
  "history_shown ps is \<longleftrightarrow>
     (\<forall>m < length is. length is \<le> m + 10 \<longrightarrow> shown ps (sensor_line m, 1) = Some (sensor_name (is ! m) m)) \<and>
     (\<forall>l < 10. shown ps (5 + int l, 6) = Some (arrow l) \<longleftrightarrow> is \<noteq> [] \<and> l = (length is - 1) mod 10)"

lemma mod10_Suc: "Suc n mod 10 = (if n mod 10 = 9 then 0 else n mod 10 + 1)"
  by presburger

lemma nat_less_10: "r < (10 :: nat) \<Longrightarrow> r \<in> {0, 1, 2, 3, 4, 5, 6, 7, 8, 9}"
  by auto

lemma history_put:
  assumes "history_buf n b"
  shows "\<exists>b'. buffer_put_replace b e = Some b' \<and> history_buf (Suc n) b'"
proof -
  note b = assms [unfolded history_buf_def]
  have r: "n mod 10 < 10" by simp
  have full: "buffer_is_full b \<longleftrightarrow> n \<ge> 10"
    using b by (simp add: buffer_is_full_def word_le_nat_alt unat_of_nat min_def)
  define b1 where "b1 = (if n \<ge> 10 then b\<lparr>b_out := (b_out b + 1) mod b_size b, b_elems := b_elems b - 1\<rparr> else b)"
  have b1: "length (b_data b1) = 10" "b_size b1 = 10" "b_in b1 = of_nat (n mod 10)"
    "b_elems b1 + 1 = of_nat (min (Suc n) 10)"
  proof -
    show "length (b_data b1) = 10" "b_size b1 = 10" "b_in b1 = of_nat (n mod 10)" using b by (simp_all add: b1_def)
    have "min n 10 = 10" "min (Suc n) 10 = 10" if "n \<ge> 10" using that by simp_all
    then show "b_elems b1 + 1 = of_nat (min (Suc n) 10)"
      using b by (cases "n \<ge> 10") (simp_all add: b1_def min_def)
  qed
  have "buffer_put_replace b e = buffer_put b1 e"
    using b by (simp add: buffer_put_replace_def full b1_def buffer_remove_def)
  moreover have "\<exists>b'. buffer_put b1 e = Some b' \<and> history_buf (Suc n) b'"
    using nat_less_10 [OF r] b1
    by (elim insertE emptyE) (simp_all add: buffer_put_def history_buf_def mod10_Suc Let_def word_le_nat_alt)
  ultimately show ?thesis by simp
qed

lemma sint_line:
  assumes "r < 10"
  shows "sint (of_int (SENSOR_HEADING_LINE + 1) + of_nat r :: u32) = 5 + int r"
  using nat_less_10 [OF assms] by (elim insertE emptyE) (simp_all add: SENSOR_HEADING_LINE_def)

lemma print_sensor_effect:
  assumes "history_buf n b" "i < 80"
  shows "\<exists>b'. print_sensor i b = Some (b', [sensor_name i n,
      print_esc ''   '' (sensor_line (n + 9)) 6 [], arrow n]) \<and> history_buf (Suc n) b'"
proof -
  obtain b' where b': "buffer_put_replace b (ucast (b_in b)) = Some b'" "history_buf (Suc n) b'"
    using history_put [OF assms(1)] by blast
  have i: "i \<le> 80" using assms(2) by (simp add: word_le_nat_alt word_less_nat_alt)
  have r: "n mod 10 < 10" by simp
  have in_b: "b_in b = of_nat (n mod 10)" using assms(1) by (simp add: history_buf_def)
  have before: "(of_nat (n mod 10) + 9 :: u32) mod 10 = of_nat ((n + 9) mod 10)"
  proof -
    have "(n + 9) mod 10 = (n mod 10 + 9) mod 10" by presburger
    then show ?thesis using nat_less_10 [OF r] by (elim insertE emptyE) simp_all
  qed
  have newest: "(if b_in b' = 0 then b_elems b' - 1 else b_in b' - 1) = of_nat (n mod 10)"
  proof (cases "n mod 10 = 9")
    case True
    then have "10 \<le> Suc n" by presburger
    then show ?thesis using b'(2) True by (simp add: history_buf_def mod10_Suc min_def)
  next
    case False
    then show ?thesis
      using nat_less_10 [OF r] b'(2) by (elim insertE emptyE) (simp_all add: history_buf_def mod10_Suc)
  qed
  have "print_sensor i b = Some (b', [sensor_name i n,
      print_esc ''   '' (sensor_line (n + 9)) 6 [], arrow n])"
    using i b'(1) by (simp add: print_sensor_def sensor_bank_def sensor_index_def newest in_b before sint_line [simplified]
        sensor_name_def sensor_line_def arrow_def Let_def)
  with b'(2) show ?thesis by blast
qed

lemma mod10_apart:
  assumes "m < n" "n < m + (10 :: nat)"
  shows "m mod 10 \<noteq> n mod 10"
proof
  assume "m mod 10 = n mod 10"
  then have "10 dvd n - m" using assms(1) mod_eq_dvd_iff_nat [of m n 10] by simp
  then show False using assms dvd_imp_le [of 10 "n - m"] by simp
qed

lemma history_step:
  assumes "history_shown ps is"
  shows "history_shown (ps @ [sensor_name i (length is),
    print_esc ''   '' (sensor_line (length is + 9)) 6 [], arrow (length is)]) (is @ [i])"
proof -
  let ?n = "length is" and ?blank = "print_esc ''   '' (sensor_line (length is + 9)) 6 []"
  have blank: "?blank \<noteq> arrow l" for l
    by (simp add: print_esc_def arrow_def str_def)
  have names: "shown (ps @ [sensor_name i ?n, ?blank, arrow ?n]) (l, 1) =
      (if l = sensor_line ?n then Some (sensor_name i ?n) else shown ps (l, 1))" for l
    by (simp add: shown_append) (simp add: shown_def sensor_name_def arrow_def)
  have arrows: "shown (ps @ [sensor_name i ?n, ?blank, arrow ?n]) (l, 6) =
      (if l = sensor_line ?n then Some (arrow ?n) else if l = sensor_line (?n + 9) then Some ?blank
       else shown ps (l, 6))" for l
    by (simp add: shown_append) (simp add: shown_def sensor_name_def arrow_def)
  show ?thesis
    unfolding history_shown_def names arrows
  proof (intro conjI allI impI)
    fix m assume m: "m < length (is @ [i])" "length (is @ [i]) \<le> m + 10"
    show "(if sensor_line m = sensor_line ?n then Some (sensor_name i ?n) else shown ps (sensor_line m, 1)) =
        Some (sensor_name ((is @ [i]) ! m) m)"
    proof (cases "m = ?n")
      case False
      then have "m < ?n" "?n < m + 10" using m by simp_all
      then have "m mod 10 \<noteq> ?n mod 10" by (rule mod10_apart)
      then show ?thesis using False m assms by (simp add: sensor_line_def history_shown_def nth_append)
    qed simp
  next
    fix l :: nat assume l: "l < 10"
    have line: "5 + int l = sensor_line k \<longleftrightarrow> l = k mod 10" for k by (auto simp: sensor_line_def)
    have a: "arrow (k mod 10) = arrow k" for k by (simp add: arrow_def sensor_line_def)
    have old: "shown ps (5 + int l, 6) = Some (arrow l) \<longleftrightarrow> is \<noteq> [] \<and> l = (?n - 1) mod 10"
      using assms l by (simp add: history_shown_def)
    have "is \<noteq> [] \<Longrightarrow> (?n - 1) mod 10 = (?n + 9) mod 10" by (cases "is") simp_all
    then show "((if 5 + int l = sensor_line ?n then Some (arrow ?n) else if 5 + int l = sensor_line (?n + 9) then Some ?blank
       else shown ps (5 + int l, 6)) = Some (arrow l)) \<longleftrightarrow> is @ [i] \<noteq> [] \<and> l = (length (is @ [i]) - 1) mod 10"
      using old blank a by (auto simp: line)
  qed
qed

text \<open>A run of the view over the reports of the controller, and the sensors that were newly triggered.\<close>

fun sensor_view_rounds ::
  "u32 list list \<Rightarrow> (u32 list \<times> u8 buffer) \<times> print list \<Rightarrow> ((u32 list \<times> u8 buffer) \<times> print list) option" where
  "sensor_view_rounds [] x = Some x"
| "sensor_view_rounds (r # rs) (st, ps) = do {
     (st', ps') \<leftarrow> sensor_view_round r st;
     sensor_view_rounds rs (st', ps @ ps')
   }"

fun hits :: "u32 list \<Rightarrow> u32 list list \<Rightarrow> u32 list" where
  "hits old [] = []"
| "hits old (r # rs) = filter (\<lambda>i. is_sensor_triggered (map2 (\<lambda>x y. NOT x AND y) old r) i = Some True)
     (map of_nat [0..<80]) @ hits r rs"

lemma sensor_numbers: "set (map of_nat [0..<80] :: u32 list) \<subseteq> {i. i < 80}"
  by (auto simp: word_less_nat_alt unat_of_nat)

lemma sensor_element_bound:
  "i < 80 \<Longrightarrow> length sensors = 10 \<Longrightarrow> \<exists>b. is_sensor_triggered sensors i = Some b"
proof -
  assume i: "i < 80" and l: "length sensors = 10"
  have i': "i \<le> 80" "unat i < 80" using i by (simp_all add: word_le_nat_alt word_less_nat_alt)
  have "list_all (\<lambda>j. case sensor_data_element (of_nat j) of Some e \<Rightarrow> unat e < 10 | None \<Rightarrow> False) [0..<80]"
    by code_simp
  then have "\<forall>j \<in> {0..<80}. case sensor_data_element (of_nat j) of Some e \<Rightarrow> unat e < 10 | None \<Rightarrow> False"
    unfolding list_all_iff set_upt .
  from bspec [OF this, of "unat i"] i'(2)
  have "case sensor_data_element i of Some e \<Rightarrow> unat e < 10 | None \<Rightarrow> False" by simp
  then obtain e where "sensor_data_element i = Some e" "unat e < 10"
    by (auto split: option.splits)
  moreover have "sensor_data_mask i \<noteq> None"
    using i'(1) by (simp add: sensor_data_mask_def sensor_index_def)
  ultimately show ?thesis using l by (auto simp: is_sensor_triggered_def)
qed

lemma print_sensors_from_effect:
  assumes "history_buf (length hs) b" "history_shown ps hs" "set is \<subseteq> {i. i < 80}" "length sensors = 10"
  shows "\<exists>b' ps'. print_sensors_from sensors is b = Some (b', ps') \<and>
    (let hs' = hs @ filter (\<lambda>i. is_sensor_triggered sensors i = Some True) is in
     history_buf (length hs') b' \<and> history_shown (ps @ ps') hs')"
  using assms
proof (induction "is" arbitrary: hs b ps)
  case (Cons i "is")
  obtain t where t: "is_sensor_triggered sensors i = Some t"
    using sensor_element_bound [of i sensors] Cons.prems(3,4) by auto
  show ?case
  proof (cases t)
    case True
    obtain b1 where b1: "print_sensor i b = Some (b1, [sensor_name i (length hs),
        print_esc ''   '' (sensor_line (length hs + 9)) 6 [], arrow (length hs)])" "history_buf (Suc (length hs)) b1"
      using print_sensor_effect [OF Cons.prems(1)] Cons.prems(3) by auto
    obtain b2 ps2 where r: "print_sensors_from sensors is b1 = Some (b2, ps2)"
      "let hs' = (hs @ [i]) @ filter (\<lambda>i. is_sensor_triggered sensors i = Some True) is in
       history_buf (length hs') b2 \<and> history_shown ((ps @ [sensor_name i (length hs),
        print_esc ''   '' (sensor_line (length hs + 9)) 6 [], arrow (length hs)]) @ ps2) hs'"
      using Cons.IH [of "hs @ [i]" b1, OF _ history_step [OF Cons.prems(2), of i]] Cons.prems b1(2) by auto
    show ?thesis using r(2) by (simp add: t True b1(1) r(1) Let_def)
  next
    case False
    then show ?thesis using Cons.IH [OF Cons.prems(1,2)] Cons.prems(3,4) by (auto simp: t Let_def)
  qed
qed simp

lemma sensor_rounds_effect:
  assumes "history_buf (length hs) b" "history_shown ps hs" "length old = 10" "\<forall>r \<in> set rs. length r = 10"
  shows "\<exists>st ps'. sensor_view_rounds rs ((old, b), ps) = Some (st, ps') \<and> history_shown ps' (hs @ hits old rs)"
  using assms
proof (induction rs arbitrary: hs b ps old)
  case (Cons r rs)
  let ?edge = "map2 (\<lambda>x y. NOT x AND y) old r"
  let ?hs = "hs @ filter (\<lambda>i. is_sensor_triggered ?edge i = Some True) (map of_nat [0..<80])"
  have "length ?edge = 10" using Cons.prems by simp
  from print_sensors_from_effect [OF Cons.prems(1,2) sensor_numbers this]
  obtain b1 ps1 where p: "print_sensors ?edge b = Some (b1, ps1)" "history_buf (length ?hs) b1"
    "history_shown (ps @ ps1) ?hs" by (auto simp: print_sensors_def Let_def)
  have round: "sensor_view_round r (old, b) = Some ((r, b1), ps1)"
    using Cons.prems by (simp add: sensor_view_round_def get_leading_edge_def p(1))
  show ?case using Cons.IH [OF p(2,3)] Cons.prems by (simp add: round)
qed simp

text \<open>
  Whatever the sensor reports, the view never fails, and once a sensor has been hit the screen shows
  the history of the sensors: the names of the last ten in the ten lines, each in its turn, and an arrow
  in one line only, that of the newest.
\<close>

theorem sensor_view_history:
  assumes len: "\<forall>r \<in> set rs. length r = 10" "length d = 10"
    and hs: "hs = hits (replicate 10 0) rs" "hs \<noteq> []"
  shows "\<exists>st ps. sensor_view_rounds rs (fst (sensor_view_init d), [snd (sensor_view_init d)]) = Some (st, ps) \<and>
    (\<forall>m < length hs. length hs \<le> m + 10 \<longrightarrow> shown ps (sensor_line m, 1) = Some (sensor_name (hs ! m) m)) \<and>
    (\<forall>l < 10. shown ps (5 + int l, 6) = Some (arrow l) \<longleftrightarrow> l = (length hs - 1) mod 10)"
proof -
  define b where "b = buffer_init d SENSOR_HISTORY_LENGTH"
  have init: "fst (sensor_view_init d) = (replicate 10 0, b)" by (simp add: sensor_view_init_def b_def)
  have "history_buf (length ([] :: u32 list)) b"
    using len(2) by (simp add: history_buf_def b_def buffer_init_def SENSOR_HISTORY_LENGTH_def)
  moreover have "history_shown [snd (sensor_view_init d)] []"
    by (simp add: history_shown_def sensor_view_init_def)
  ultimately have "\<exists>st ps. sensor_view_rounds rs ((replicate 10 0, b), [snd (sensor_view_init d)]) = Some (st, ps) \<and>
      history_shown ps hs"
    using sensor_rounds_effect [of "[]" b "[snd (sensor_view_init d)]" "replicate 10 0" rs] len(1)
    unfolding hs(1) by simp
  then show ?thesis unfolding init using hs(2) unfolding history_shown_def by blast
qed

theorem sensor_view_history_witness:
  "\<exists>st ps. sensor_view_rounds [(replicate 10 0)[1 := 0x81]]
      (fst (sensor_view_init (replicate 10 0)), [snd (sensor_view_init (replicate 10 0))]) = Some (st, ps) \<and>
    shown ps (5, 1) = Some (print_esc ''%c%d   '' 5 1 [ARG_CHAR 65, ARG_INT 9]) \<and>
    shown ps (6, 6) = Some (arrow 1)"
proof -
  have hs: "hits (replicate 10 0) [(replicate 10 0)[1 := 0x81]] = [8, 15]" by code_simp
  then have len: "length (hits (replicate 10 0) [(replicate 10 0)[1 := 0x81]]) = 2" by simp
  have name: "sensor_name 8 0 = print_esc ''%c%d   '' 5 1 [ARG_CHAR 65, ARG_INT 9]"
    by (simp add: sensor_name_def sensor_line_def)
  obtain st ps where r: "sensor_view_rounds [(replicate 10 0)[1 := 0x81]]
      (fst (sensor_view_init (replicate 10 0)), [snd (sensor_view_init (replicate 10 0))]) = Some (st, ps)"
    "\<forall>m < 2. 2 \<le> m + 10 \<longrightarrow> shown ps (sensor_line m, 1) = Some (sensor_name ([8, 15] ! m) m)"
    "\<forall>l < 10. shown ps (5 + int l, 6) = Some (arrow l) \<longleftrightarrow> l = (2 - 1) mod 10"
    using sensor_view_history [of "[(replicate 10 0)[1 := 0x81]]" "replicate 10 0", OF _ _ refl]
    unfolding hs len by auto
  from r(2) have "shown ps (sensor_line 0, 1) = Some (sensor_name 8 0)" by simp
  moreover have "shown ps (5 + int 1, 6) = Some (arrow 1)" using r(3) [rule_format, of 1] by simp
  ultimately show ?thesis using r(1) name by (auto simp: sensor_line_def)
qed

text \<open>
  When the first sensor of a train is hit, or the first after it was lost, the view reads the number of the
  node of a prediction that has none.
\<close>

lemma lost_train_reads_null:
  assumes "fst (la_seen a) \<noteq> fst seen" "l_node (c_loc prediction) = None"
  shows "location_sensor_part root T nodes i a uninit seen prediction current = None"
  using assms by (simp add: location_sensor_part_def node_at_def)

end
