(* ===== verification/Small_Tasks.thy ===== *)
theory Small_Tasks
  imports Views Train_Conductor
begin

text \<open>
  The start and the end of the user program (\<open>usr/project.c\<close>) and the tasks without a state of their
  own: notifiers, the start of the I/O servers, the sleeper, the sensor secretary, the anti-freezer, the
  calibration programs, the demo. Each is the list of its calls in order, as a function of what the
  kernel and the servers answer; tasks and names are strings. \<open>None\<close> is a failed assertion or
  undefined behaviour; where a call has only to succeed the successful run is followed.
\<close>

datatype task_message =
    MSG_NOTIFIER
  | MSG_SENSORS "int list"
  | MSG_SLEEP int
  | MSG_WAKEUP
  | MSG_USER user_command
  | MSG_TRAIN int

datatype task_event =
    EV_CACHES bool
  | EV_CREATE int string
  | EV_KILL string
  | EV_REGISTER string
  | EV_WHOIS string
  | EV_AWAIT string
  | EV_SEND string task_message
  | EV_REPLY int
  | EV_PUTC u8
  | EV_GETC
  | EV_RAW_GETC
  | EV_DELAY int
  | EV_DELAY_UNTIL int
  | EV_USAGE
  | EV_PRINT print
  | EV_LOG print
  | EV_CMD cmd_event
  | EV_POLL u32
  | EV_RECEIVE

section \<open>Notifiers\<close>

text \<open>
  A notifier registers under its name and checks that the nameserver knows it; then each round waits for
  the event and tells the server, its parent. The answers are the results of the two calls.
\<close>

definition notifier_start :: "string \<Rightarrow> int \<Rightarrow> int \<Rightarrow> int \<Rightarrow> task_event list option" where
  "notifier_start name registered whois my_tid = do {
     guard_opt (registered = 0);
     guard_opt (whois = my_tid);
     Some [EV_REGISTER name, EV_WHOIS name]
   }"

fun notifier_rounds :: "string \<Rightarrow> (int \<times> int) list \<Rightarrow> task_event list option" where
  "notifier_rounds to_wait_on [] = Some []"
| "notifier_rounds to_wait_on ((awaited, sent) # rest) = do {
     guard_opt (awaited = 0 \<and> sent \<ge> 0);
     ev \<leftarrow> notifier_rounds to_wait_on rest;
     Some (EV_AWAIT to_wait_on # EV_SEND ''parent'' MSG_NOTIFIER # ev)
   }"

definition generic_notifier :: "string \<Rightarrow> int \<Rightarrow> (int \<times> int) list \<Rightarrow> task_event list option" where
  "generic_notifier to_wait_on server_tid rounds = do {
     guard_opt (server_tid > 0);
     notifier_rounds to_wait_on rounds
   }"

definition plain_notifier ::
  "string \<Rightarrow> string \<Rightarrow> int \<times> int \<times> int \<Rightarrow> int \<Rightarrow> (int \<times> int) list \<Rightarrow> task_event list option" where
  "plain_notifier name event start parent rounds = do {
     s \<leftarrow> (case start of (registered, whois, my_tid) \<Rightarrow> notifier_start name registered whois my_tid);
     ev \<leftarrow> generic_notifier event parent rounds;
     Some (s @ ev)
   }"

definition train_rx_notifier :: "int \<times> int \<times> int \<Rightarrow> int \<Rightarrow> (int \<times> int) list \<Rightarrow> task_event list option" where
  "train_rx_notifier = plain_notifier ''TrainRxNotifier'' ''TRAIN_RX_INTERRUPT''"

definition terminal_tx_notifier :: "int \<times> int \<times> int \<Rightarrow> int \<Rightarrow> (int \<times> int) list \<Rightarrow> task_event list option" where
  "terminal_tx_notifier = plain_notifier ''TerminalTxNotifier'' ''TERMINAL_TX_INTERRUPT''"

definition terminal_rx_notifier :: "int \<times> int \<times> int \<Rightarrow> int \<Rightarrow> (int \<times> int) list \<Rightarrow> task_event list option" where
  "terminal_rx_notifier = plain_notifier ''TerminalRxNotifier'' ''TERMINAL_RX_INTERRUPT''"

definition clock_notifier :: "int \<times> int \<times> int \<Rightarrow> int \<Rightarrow> (int \<times> int) list \<Rightarrow> task_event list option" where
  "clock_notifier = plain_notifier ''ClockNotifier'' ''TIMER_INTERRUPT''"

text \<open>The train's transmitter is ready from the start: one notice before the first event.\<close>

definition train_tx_notifier ::
  "int \<times> int \<times> int \<Rightarrow> int \<Rightarrow> int \<Rightarrow> (int \<times> int) list \<Rightarrow> task_event list option" where
  "train_tx_notifier start first_sent parent rounds = do {
     s \<leftarrow> (case start of (registered, whois, my_tid) \<Rightarrow> notifier_start ''TrainTxNotifier'' registered whois my_tid);
     guard_opt (first_sent = 0);
     ev \<leftarrow> generic_notifier ''TRAIN_TX_INTERRUPT'' parent rounds;
     Some (s @ EV_SEND ''parent'' MSG_NOTIFIER # ev)
   }"

section \<open>The I/O servers start and end\<close>

definition io_server :: "string \<Rightarrow> string \<Rightarrow> int \<Rightarrow> int \<times> int \<times> int \<times> int \<Rightarrow> task_event list option" where
  "io_server name notifier my_priority answers = (case answers of (registered, whois, my_tid, created) \<Rightarrow> do {
     s \<leftarrow> notifier_start name registered whois my_tid;
     guard_opt (created \<ge> 0);
     Some (s @ [EV_CREATE (my_priority + 1) notifier])
   })"

definition train_tx_server :: "int \<Rightarrow> int \<times> int \<times> int \<times> int \<Rightarrow> task_event list option" where
  "train_tx_server = io_server ''TrainTxServer'' ''train_tx_notifier''"

text \<open>A character left over from before is read first.\<close>

definition train_rx_server :: "int \<Rightarrow> int \<times> int \<times> int \<times> int \<Rightarrow> task_event list option" where
  "train_rx_server my_priority answers =
     map_option (Cons EV_RAW_GETC) (io_server ''TrainRxServer'' ''train_rx_notifier'' my_priority answers)"

definition terminal_tx_server :: "int \<Rightarrow> int \<times> int \<times> int \<times> int \<Rightarrow> task_event list option" where
  "terminal_tx_server = io_server ''TerminalTxServer'' ''terminal_tx_notifier''"

definition terminal_rx_server :: "int \<Rightarrow> int \<times> int \<times> int \<times> int \<Rightarrow> task_event list option" where
  "terminal_rx_server = io_server ''TerminalRxServer'' ''terminal_rx_notifier''"

text \<open>Tasks made one after the other; \<open>tids\<close> are the results of \<open>Create\<close>, at least \<open>least\<close>.\<close>

fun create_all :: "int \<Rightarrow> (int \<times> string) list \<Rightarrow> int list \<Rightarrow> task_event list option" where
  "create_all least [] tids = Some []"
| "create_all least (t # ts) (tid # tids) = do {
     guard_opt (tid \<ge> least);
     ev \<leftarrow> create_all least ts tids;
     Some (EV_CREATE (fst t) (snd t) # ev)
   }"
| "create_all least (t # ts) [] = None"

definition spawn_ioservers :: "int \<Rightarrow> int list \<Rightarrow> task_event list option" where
  "spawn_ioservers my_priority tids = create_all 0
     [(my_priority + 3, ''train_tx_server''), (my_priority + 3, ''train_rx_server''),
      (my_priority + 3, ''terminal_tx_server''), (my_priority + 3, ''terminal_rx_server'')] tids"

text \<open>Each task is looked up by its name and killed; \<open>results\<close> are those of \<open>Kill\<close>.\<close>

fun kill_all :: "string list \<Rightarrow> int list \<Rightarrow> task_event list option" where
  "kill_all [] results = Some []"
| "kill_all (name # names) (r # results) = do {
     guard_opt (r = 0);
     ev \<leftarrow> kill_all names results;
     Some (EV_WHOIS name # EV_KILL name # ev)
   }"
| "kill_all (name # names) [] = None"

definition io_tasks :: "string list" where
  "io_tasks = [''TrainTxNotifier'', ''TrainTxServer'', ''TrainRxNotifier'', ''TrainRxServer'',
     ''TerminalTxNotifier'', ''TerminalTxServer'', ''TerminalRxNotifier'', ''TerminalRxServer'']"

definition kill_ioservers :: "int list \<Rightarrow> task_event list option" where
  "kill_ioservers results = kill_all io_tasks results"

section \<open>Sleeper, secretary, anti-freezer\<close>

text \<open>\<open>received\<close> is the result of \<open>Receive\<close> and the sender; \<open>msg_size\<close> that of a message.\<close>

definition sleeper ::
  "int \<Rightarrow> int \<times> int \<Rightarrow> int \<Rightarrow> int \<Rightarrow> int \<times> int \<times> int \<Rightarrow> task_event list option" where
  "sleeper msg_size received master sleeper_ticks results = (case results of (replied, delayed, sent) \<Rightarrow> do {
     guard_opt (fst received = msg_size);
     guard_opt (snd received = master);
     guard_opt (replied = 0 \<and> delayed = 0 \<and> sent = 0);
     Some [EV_WHOIS ''ClockServer'', EV_REPLY master, EV_DELAY sleeper_ticks, EV_SEND ''parent'' MSG_WAKEUP]
   })"

definition set_alarm :: "int \<Rightarrow> int \<Rightarrow> int \<Rightarrow> int \<Rightarrow> task_event list option" where
  "set_alarm my_priority ticks sleeper_tid sent = do {
     guard_opt (sleeper_tid > 0);
     guard_opt (sent = 0);
     Some [EV_CREATE my_priority ''sleeper'', EV_SEND ''sleeper'' (MSG_SLEEP ticks)]
   }"

definition CMD_ALL_SENSORS :: u8 where "CMD_ALL_SENSORS = 0x85"

text \<open>
  One query of the sensors: the command, ten bytes, and, unless it is the first query, the report to the
  controller and to the interpreter. \<open>bytes\<close> are the results of \<open>Getc\<close>.
\<close>

definition secretary_query :: "bool \<Rightarrow> int list \<Rightarrow> task_event list option" where
  "secretary_query first_query bytes = do {
     guard_opt (length bytes = 10 \<and> list_all (\<lambda>c. c \<ge> 0) bytes);
     Some (EV_PUTC CMD_ALL_SENSORS # replicate 10 EV_GETC @
       (if first_query then []
        else [EV_SEND ''TrackStateController'' (MSG_SENSORS bytes), EV_SEND ''SensorInterpreter'' (MSG_SENSORS bytes)]))
   }"

fun secretary_queries :: "bool \<Rightarrow> int list list \<Rightarrow> task_event list option" where
  "secretary_queries first_query [] = Some []"
| "secretary_queries first_query (bytes # rest) = do {
     ev \<leftarrow> secretary_query first_query bytes;
     ev' \<leftarrow> secretary_queries False rest;
     Some (ev @ ev')
   }"

definition sensor_secretary :: "(string \<Rightarrow> int) \<Rightarrow> int list list \<Rightarrow> task_event list option" where
  "sensor_secretary whois reports = do {
     let names = [''TrainTxServer'', ''TrainRxServer'', ''TrackStateController'', ''SensorInterpreter''];
     guard_opt (list_all (\<lambda>n. whois n > 0) names);
     ev \<leftarrow> secretary_queries True reports;
     Some (map EV_WHOIS names @ ev)
   }"

text \<open>
  The anti-freezer looks every 200 ticks whether the idle task has run; a round whose usage is 0 ends in
  a failed assertion. \<open>usage\<close> are the arrays \<open>LastSecondsProcUsage\<close> fills.
\<close>

fun anti_freezer_rounds :: "int \<Rightarrow> u32 list list \<Rightarrow> task_event list option" where
  "anti_freezer_rounds idle [] = Some []"
| "anti_freezer_rounds idle (ms_run # rest) = do {
     guard_opt (0 < idle);
     ms \<leftarrow> array_get ms_run (nat (idle mod 64));
     guard_opt (\<not> ms < 1);
     ev \<leftarrow> anti_freezer_rounds idle rest;
     Some (EV_DELAY 200 # EV_USAGE # ev)
   }"

definition anti_freezer :: "int \<Rightarrow> int \<Rightarrow> u32 list list \<Rightarrow> task_event list option" where
  "anti_freezer clock_server idle usage = do {
     guard_opt (clock_server > 0);
     guard_opt (idle > 0);
     ev \<leftarrow> anti_freezer_rounds idle usage;
     Some (EV_WHOIS ''ClockServer'' # EV_DELAY 200 # EV_WHOIS ''Idle'' # ev)
   }"

text \<open>
  The idle task counts how often it gets round its delay loop in 25 ticks, and makes the delay longer or
  shorter for it; \<open>slower\<close> and \<open>faster\<close> are the two products in floating point. \<open>ticks\<close> are the
  answers of the clock server, \<open>None\<close> when they run out before the 25 ticks are over.
\<close>

fun idle_loops :: "int \<Rightarrow> int list \<Rightarrow> int option" where
  "idle_loops last_print [] = None"
| "idle_loops last_print (now # ticks) =
     (if last_print + 25 > now then map_option (\<lambda>n. n + 1) (idle_loops last_print ticks) else Some 0)"

definition idle_adjust :: "(u32 \<Rightarrow> int \<Rightarrow> u32) \<Rightarrow> (u32 \<Rightarrow> u32) \<Rightarrow> int \<Rightarrow> u32 \<Rightarrow> u32" where
  "idle_adjust slower faster loops e =
     (let e1 = if loops > 10 then e * of_int (loops div 5) else e;
          e2 = if loops > 5 then slower e1 loops else e1 in
      if loops \<le> 3 then faster e2 else e2)"

definition do_idle_loop :: "(u32 \<Rightarrow> int \<Rightarrow> u32) \<Rightarrow> (u32 \<Rightarrow> u32) \<Rightarrow> int list \<Rightarrow> u32 \<Rightarrow> u32 option" where
  "do_idle_loop slower faster ticks e = do {
     last_print \<leftarrow> array_get ticks 0;
     loops \<leftarrow> idle_loops last_print (tl ticks);
     Some (idle_adjust slower faster loops e)
   }"

text \<open>It prints its share of the time in tenths of a percent.\<close>

definition report_usage :: "int \<Rightarrow> print" where
  "report_usage u = (str_line ''%d.%d%%'', [ARG_INT (u sdiv 10), ARG_INT (u smod 10)])"

definition report_usage_cursor :: "int \<Rightarrow> print" where
  "report_usage_cursor u =
     (str (ESC @ ''H%d.%d%%'' @ ESC @ ''?25l'' @ ESC @ ''K''), [ARG_INT (u sdiv 10), ARG_INT (u smod 10)])"

fun idle_rounds ::
  "(u32 \<Rightarrow> int \<Rightarrow> u32) \<Rightarrow> (u32 \<Rightarrow> u32) \<Rightarrow> (int \<Rightarrow> print) \<Rightarrow> (int list \<times> int) list \<Rightarrow> u32 \<Rightarrow> print list option" where
  "idle_rounds slower faster report [] e = Some []"
| "idle_rounds slower faster report ((ticks, usage) # rest) e = do {
     e' \<leftarrow> do_idle_loop slower faster ticks e;
     ps \<leftarrow> idle_rounds slower faster report rest e';
     Some (report usage # ps)
   }"

definition idle_task ::
  "(u32 \<Rightarrow> int \<Rightarrow> u32) \<Rightarrow> (u32 \<Rightarrow> u32) \<Rightarrow> int \<Rightarrow> int \<Rightarrow> (int list \<times> int) list \<Rightarrow> task_event list option" where
  "idle_task slower faster registered c_server_tid rounds = do {
     guard_opt (registered = 0 \<and> c_server_tid > 0);
     ps \<leftarrow> idle_rounds slower faster report_usage rounds (push_bit 20 1);
     Some (EV_REGISTER ''Idle'' # EV_WHOIS ''ClockServer'' # map EV_PRINT ps)
   }"

definition idle_task_cursor ::
  "(u32 \<Rightarrow> int \<Rightarrow> u32) \<Rightarrow> (u32 \<Rightarrow> u32) \<Rightarrow> int \<Rightarrow> int \<Rightarrow> int \<Rightarrow> (int list \<times> int) list \<Rightarrow> task_event list option" where
  "idle_task_cursor slower faster registered c_server_tid sender_tid rounds = do {
     guard_opt (registered = 0 \<and> c_server_tid > 0 \<and> sender_tid > 0);
     ps \<leftarrow> idle_rounds slower faster report_usage_cursor rounds (push_bit 20 1);
     Some (EV_REGISTER ''Idle'' # EV_WHOIS ''ClockServer'' # EV_WHOIS ''TerminalTxServer'' # map EV_PRINT ps)
   }"

section \<open>What the command line prints\<close>

definition CMD_LINE :: int where "CMD_LINE = 44"
definition PROMPT_LINE :: int where "PROMPT_LINE = 45"
definition CALIB_LINE :: int where "CALIB_LINE = 19"
definition GROUP_LINE :: int where "GROUP_LINE = 37"
definition RESET_TEXT :: string where "RESET_TEXT = ESC @ ''0m''"
definition RED_TEXT :: string where "RED_TEXT = ESC @ ''31m''"
definition GREEN_TEXT :: string where "GREEN_TEXT = ESC @ ''32m''"
definition CLEAR_SCREEN :: string where "CLEAR_SCREEN = ESC @ ''2J''"
definition HIDE_CURSOR :: string where "HIDE_CURSOR = ESC @ ''?25l''"
definition CMD_LINE_START :: string where "CMD_LINE_START = ESC @ ''44;1H''"
definition PROMPT_LINE_START :: string where "PROMPT_LINE_START = ESC @ ''45;1H''"

definition print_cmd :: "string \<Rightarrow> string \<Rightarrow> printf_arg list \<Rightarrow> print" where
  "print_cmd colour fmt va = (str (''%s%s%s'' @ fmt @ ''%s%s''),
     [text_arg CMD_LINE_START, text_arg colour, text_arg HIDE_CURSOR] @ va @
     [text_arg HIDE_CURSOR_TO_EOL, text_arg RESET_TEXT])"

text \<open>The trains of \<open>set trains\<close>, each printed behind the one before.\<close>

fun print_trains :: "int \<Rightarrow> int list \<Rightarrow> print list" where
  "print_trains offset [] = [print_at ''%s'' CMD_LINE offset [text_arg HIDE_CURSOR_TO_EOL]]"
| "print_trains offset (t # ts) =
     print_at ''%s%d %s'' CMD_LINE offset [text_arg GREEN_TEXT, ARG_INT t, text_arg RESET_TEXT] #
     print_trains (offset + (if t < 10 then 1 else 2) + 1) ts"

definition print_set :: "user_command \<Rightarrow> print list option" where
  "print_set cmd = do {
     p \<leftarrow> array_get (uc_data cmd) 0;
     v \<leftarrow> array_get (uc_data cmd) 1;
     w \<leftarrow> array_get (uc_data cmd) 2;
     guard_opt (0 \<le> p);
     name \<leftarrow> get_parameter_name (nat p);
     if p = int SET_TRAINS then do {
       guard_opt (v \<le> 8);
       len \<leftarrow> tstrlen name;
       Some ((str ''%s%s%sSET %s %s'', [text_arg CMD_LINE_START, text_arg GREEN_TEXT, text_arg HIDE_CURSOR,
           ARG_STRING name, text_arg RESET_TEXT]) #
         print_trains (1 + 4 + int len + 1) (take (nat v) (drop 2 (uc_data cmd))))
     }
     else if p = int SET_DIRECTION then
       Some [print_cmd GREEN_TEXT ''SET %s %d %s          ''
         [ARG_STRING name, ARG_INT v, text_arg (if w \<noteq> 0 then ''FWD'' else ''REV'')]]
     else Some [print_cmd GREEN_TEXT ''SET %s %d          '' [ARG_STRING name, ARG_INT v]]
   }"

text \<open>
  \<open>text_at\<close> is the text at an address, for the commands whose data is taken for one; a group is an index.
\<close>

definition user_command_print ::
  "(int \<Rightarrow> chars option) \<Rightarrow> train_group_info list \<Rightarrow> user_command \<Rightarrow> print list option" where
  "user_command_print text_at groups cmd = do {
     let d = (\<lambda>i. array_get (uc_data cmd) i);
     let one = (\<lambda>fmt va. Some [print_cmd GREEN_TEXT fmt va]);
     d0 \<leftarrow> d 0;
     d1 \<leftarrow> d 1;
     d2 \<leftarrow> d 2;
     case uc_type cmd of
       USER_CMD_GO \<Rightarrow> one ''GO        '' []
     | USER_CMD_STOP \<Rightarrow> one ''STOP       '' []
     | USER_CMD_TR \<Rightarrow> one ''TR %d %d     '' [ARG_INT d0, ARG_INT d1]
     | USER_CMD_SW \<Rightarrow> one ''SW %d %c         '' [ARG_INT d0, ARG_CHAR (of_int d1)]
     | USER_CMD_RV \<Rightarrow> one ''RV %d           '' [ARG_INT d0]
     | USER_CMD_SD \<Rightarrow> one ''SD %d %d          '' [ARG_INT d0, ARG_INT d1]
     | USER_CMD_V \<Rightarrow> one ''V %d          '' [ARG_INT d0]
     | USER_CMD_LOOP \<Rightarrow> one ''LOOP %d %d         '' [ARG_INT d0, ARG_INT d1]
     | USER_CMD_SET \<Rightarrow> print_set cmd
     | USER_CMD_R \<Rightarrow> do {
         bank \<leftarrow> sensor_bank (of_int d1);
         index \<leftarrow> sensor_index (of_int d1);
         one ''R %d %c%d %d          '' [ARG_INT d0, ARG_CHAR bank, ARG_INT (sint index), ARG_INT d2]
       }
     | USER_CMD_T2START \<Rightarrow> one ''T2START %d          '' [ARG_INT d0]
     | USER_CMD_T2STOP \<Rightarrow> one ''T2STOP %d          '' [ARG_INT d0]
     | USER_CMD_GROUP \<Rightarrow> do {
         t \<leftarrow> text_at d1;
         guard_opt (length (uc_data cmd) \<ge> 9);
         one ''GROUP %s %d %d %d %d %d %d         ''
           (ARG_STRING t # map ARG_INT (take 6 (drop 3 (uc_data cmd))))
       }
     | USER_CMD_UNGROUP \<Rightarrow> do { t \<leftarrow> text_at d0; one ''UNGROUP %s       '' [ARG_STRING t] }
     | USER_CMD_TRG \<Rightarrow> do {
         g \<leftarrow> array_get groups (nat d0);
         one ''TRG %s %d         '' [ARG_STRING (g_name g), ARG_INT d1]
       }
     | USER_CMD_RVG \<Rightarrow> do {
         g \<leftarrow> array_get groups (nat d0);
         one ''RVG %s         '' [ARG_STRING (g_name g)]
       }
     | NULL_USER_CMD \<Rightarrow> Some [print_cmd RED_TEXT ''INVALID COMMAND        '' []]
     | _ \<Rightarrow> Some [print_cmd RED_TEXT ''UNKNOWN COMMAND          '' []]
   }"

definition delete_from_char :: "int \<Rightarrow> print" where
  "delete_from_char index = print_esc ''%s'' PROMPT_LINE (3 + index) [text_arg HIDE_CURSOR_TO_EOL]"

definition print_cmd_char :: "u8 \<Rightarrow> int \<Rightarrow> print" where
  "print_cmd_char c index = print_esc ''%c%s%s'' PROMPT_LINE (3 + index)
     [ARG_CHAR c, text_arg HIDE_CURSOR_TO_EOL, text_arg HIDE_CURSOR]"

text \<open>The groups, one line for each of the six places.\<close>

definition print_group :: "train_group_info list \<Rightarrow> nat \<Rightarrow> nat \<Rightarrow> print list option" where
  "print_group tr_groups num_groups i =
     (if i < num_groups then do {
        g \<leftarrow> array_get tr_groups i;
        if 1 \<le> g_num_members g \<and> g_num_members g \<le> 6 then do {
          guard_opt (nat (g_num_members g) \<le> length (g_members g));
          Some [print_esc (''#%d: %s'' @ concat (replicate (nat (g_num_members g)) (CHR 9 # ''%d'')) @ ''%s%s'')
            (GROUP_LINE + int i) 1
            ([ARG_INT (int i + 1), ARG_STRING (g_name g)] @
             map ARG_INT (take (nat (g_num_members g)) (g_members g)) @
             [text_arg HIDE_CURSOR, text_arg HIDE_CURSOR_TO_EOL])]
        }
        else Some []
      }
      else Some [print_esc ''%s%s'' (GROUP_LINE + int i) 1 [text_arg HIDE_CURSOR, text_arg HIDE_CURSOR_TO_EOL]])"

fun print_group_lines :: "train_group_info list \<Rightarrow> nat \<Rightarrow> nat list \<Rightarrow> print list option" where
  "print_group_lines tr_groups num_groups [] = Some []"
| "print_group_lines tr_groups num_groups (i # is) = do {
     p \<leftarrow> print_group tr_groups num_groups i;
     ps \<leftarrow> print_group_lines tr_groups num_groups is;
     Some (p @ ps)
   }"

definition print_groups :: "train_group_info list \<Rightarrow> nat \<Rightarrow> print list option" where
  "print_groups tr_groups num_groups = print_group_lines tr_groups num_groups [0..<nat MAX_GROUPS]"

text \<open>The models of a train in the log, in three tables of 15 rows.\<close>

definition GET_PADDING :: "int \<Rightarrow> string" where
  "GET_PADDING i = replicate (if i \<ge> 10 then if i \<ge> 100 then if i \<ge> 1000 then if i \<ge> 10000 then
     if i \<ge> 100000 then if i \<ge> 1000 * 1000 then if i \<ge> 10 * 1000 * 1000 then 1 else 2 else 3 else 4 else 5
     else 6 else 7 else 8) (CHR '' '')"

definition log_table :: "int \<Rightarrow> string \<Rightarrow> string \<Rightarrow> int list \<Rightarrow> print list option" where
  "log_table train title column values = do {
     guard_opt (length values \<ge> 15);
     Some ((str_line (''Train %d '' @ title), [ARG_INT train]) # (str_line (''Speed | '' @ column), []) #
       map (\<lambda>i. (str_line ''%d%s | %d'',
         [ARG_INT (int i), text_arg (GET_PADDING (int i)), ARG_INT (values ! i)])) [0..<15])
   }"

definition log_calibration_data :: "int \<Rightarrow> int list \<Rightarrow> int list \<Rightarrow> int list \<Rightarrow> print list option" where
  "log_calibration_data train speeds distances stop_times = do {
     a \<leftarrow> log_table train ''velocity calibration data'' ''Velocity'' speeds;
     b \<leftarrow> log_table train ''stopping distance data'' ''Distance'' distances;
     c \<leftarrow> log_table train ''stopping time data'' ''Time'' stop_times;
     Some (a @ b @ c)
   }"

section \<open>Parameters\<close>

record parameters =
  par_active_trains :: "int list"
  par_num_active_trains :: int
  par_expected_next_sensors :: "u32 list"
  par_switch_padding :: int
  par_spacing :: int
  par_spacing_error :: int
  par_spacing_catchup_time :: int

definition NO_NEXT_SENSOR_EXPECTED :: u32 where "NO_NEXT_SENSOR_EXPECTED = 1234"

definition init_parameters :: "parameters \<Rightarrow> parameters option" where
  "init_parameters p = do {
     guard_opt (length (par_active_trains p) = 81 \<and> length (par_expected_next_sensors p) = 81);
     Some \<lparr>par_active_trains = [24, 58, 74, 77, 78, 79] @ drop 6 (par_active_trains p),
       par_num_active_trains = 6, par_expected_next_sensors = replicate 81 NO_NEXT_SENSOR_EXPECTED,
       par_switch_padding = 50, par_spacing = 100, par_spacing_error = 10, par_spacing_catchup_time = 100\<rparr>
   }"

section \<open>Start and end of the user program\<close>

text \<open>\<open>tids\<close> are the results of the 22 \<open>Create\<close>s up to the loop of the command line.\<close>

definition first_tasks :: "int \<Rightarrow> (int \<times> string) list" where
  "first_tasks my_priority =
     [(my_priority + 2, ''nameserver_main''), (my_priority + 5, ''clock_server''), (my_priority - 1, ''idle_task_cursor'')]"

definition server_tasks :: "int \<Rightarrow> (int \<times> string) list" where
  "server_tasks my_priority =
     [(my_priority, ''command_dispatcher_server''), (my_priority + 2, ''track_state_controller''),
      (my_priority + 2, ''sensor_interpreter''), (my_priority + 2, ''sensor_secretary''), (my_priority + 2, ''router''),
      (my_priority + 2, ''track_reservation_server''), (my_priority, ''train_model_courier''),
      (my_priority + 2, ''anti_freezer'')]"

definition view_tasks :: "int \<Rightarrow> (int \<times> string) list" where
  "view_tasks my_priority =
     [(my_priority - 1, ''turnout_resetter''), (my_priority - 1, ''speed_resetter''), (my_priority, ''clock_view''),
      (my_priority, ''reservation_view''), (my_priority, ''sensor_view''), (my_priority, ''train_location_view''),
      (my_priority, ''turnout_view'')]"

definition user_start :: "int \<Rightarrow> int list \<Rightarrow> task_event list option" where
  "user_start my_priority tids = do {
     guard_opt (length tids = 22);
     a \<leftarrow> create_all 1 (first_tasks my_priority) (take 3 tids);
     b \<leftarrow> spawn_ioservers my_priority (take 4 (drop 3 tids));
     c \<leftarrow> create_all 1 (server_tasks my_priority) (take 8 (drop 7 tids));
     e \<leftarrow> create_all 1 (view_tasks my_priority) (drop 15 tids);
     Some (EV_CACHES True # a @ b @ c @
       [EV_WHOIS ''TerminalTxServer'', EV_WHOIS ''TerminalRxServer'',
        EV_PRINT (str ''%s%s'', [text_arg RESET_TEXT, text_arg CLEAR_SCREEN]),
        EV_PRINT (print_esc ''%c%s'' PROMPT_LINE 1 [ARG_CHAR 62, text_arg HIDE_CURSOR_TO_EOL]),
        EV_PRINT (print_esc ''%s%s'' (CALIB_LINE - 1) 1
          [text_arg (''Kalibration Korner'' @ TRADEMARK @ '':''), text_arg HIDE_CURSOR_TO_EOL]),
        EV_SEND ''CommandDispatcher'' (MSG_USER (user_command_reset\<lparr>uc_type := USER_CMD_GO\<rparr>))] @ e)
   }"

text \<open>After \<open>q\<close>: \<open>logs\<close> are the tables of the active trains; \<open>results\<close> those of the twelve \<open>Kill\<close>s.\<close>

definition user_end :: "print list \<Rightarrow> int list \<Rightarrow> task_event list option" where
  "user_end logs results = do {
     guard_opt (length results = 12);
     io \<leftarrow> kill_ioservers (take 8 results);
     rest \<leftarrow> kill_all [''CommandDispatcher'', ''Router'', ''ClockNotifier''] (take 3 (drop 8 results));
     guard_opt (results ! 11 = 0);
     Some ([EV_PRINT (str_line ''%sQuitting...'', [text_arg PROMPT_LINE_START]), EV_DELAY 100] @
       map EV_LOG logs @
       [EV_PRINT (map of_char ''%sBye%s.'' @ [10, 13, 10, 13, 0], [text_arg PROMPT_LINE_START, text_arg HIDE_CURSOR_TO_EOL])] @
       io @ rest @ [EV_KILL ''Idle''])
   }"

end
