(* ===== verification/Calibration.thy ===== *)
theory Calibration
  imports Small_Tasks Route_Properties
begin

text \<open>
  The measurement programs (\<open>usr/train/calibration\<close>), the demo that sends a train to random sensors
  (\<open>usr/train/t2_demo_task.c\<close>), and the rest of the helpers of \<open>usr/train/train_util.c\<close> and
  \<open>coordinate_courier.c\<close>. As in \<open>Small_Tasks\<close> a program is the list of its calls; the speed and the
  direction that the track state controller answers before each reversal are arguments, a wait for a
  sensor is one event, and the look-ups of the servers' names are left out. The theorems: every
  measurement runs to its end and leaves the train standing; the demo only ever asks for sensors of the
  track.
\<close>

section \<open>Measurements\<close>

text \<open>The steps one after the other.\<close>

definition in_turn :: "task_event list option list \<Rightarrow> task_event list option" where
  "in_turn steps = map_option concat (those steps)"

definition do_cmd :: "cmd_event list option \<Rightarrow> task_event list option" where
  "do_cmd ev = map_option (map EV_CMD) ev"

definition do_switch :: "int \<Rightarrow> bool \<Rightarrow> task_event list option" where
  "do_switch n curved = do_cmd (switch_turnout n curved)"

text \<open>\<open>answer\<close> is the speed and the direction in the reply to \<open>GETTRAIN\<close>.\<close>

definition do_reverse :: "int \<Rightarrow> int \<Rightarrow> int \<times> bool \<Rightarrow> task_event list option" where
  "do_reverse train speed answer = do_cmd (stop_and_reverse_train_to_speed train speed (fst answer) (snd answer))"

definition wait_for :: "u8 \<Rightarrow> u32 \<Rightarrow> task_event list option" where
  "wait_for bank index = Some [EV_POLL (sensor_offset bank index)]"

text \<open>
  The parameters come in a first message, from the parent; \<open>received\<close> says whether \<open>Receive\<close> returned
  its size, \<open>right_type\<close> whether it is of the right type, \<open>replied\<close> is the result of \<open>Reply\<close>.
\<close>

record start_answers =
  sa_received :: bool
  sa_sender_tid :: int
  sa_parent_tid :: int
  sa_right_type :: bool
  sa_replied :: int

definition calibration_start :: "start_answers \<Rightarrow> task_event list option" where
  "calibration_start a = do {
     guard_opt (sa_received a);
     guard_opt (sa_sender_tid a = sa_parent_tid a);
     guard_opt (sa_right_type a);
     guard_opt (sa_replied a = 0);
     Some [EV_RECEIVE, EV_REPLY (sa_sender_tid a)]
   }"

definition calibration_print :: "string \<Rightarrow> int \<Rightarrow> int \<Rightarrow> print" where
  "calibration_print what train speed = print_esc ''%s%d%s%d%s'' CALIB_LINE 1
     [text_arg what, ARG_INT train, text_arg '' and speed '', ARG_INT speed, text_arg HIDE_CURSOR_TO_EOL]"

definition calibration_finished :: "string \<Rightarrow> print" where
  "calibration_finished what = print_esc ''%s%s'' CALIB_LINE 1 [text_arg what, text_arg HIDE_CURSOR_TO_EOL]"

text \<open>\<open>answers\<close> are those before the two reversals.\<close>

definition stopping_distance_calibrator ::
  "start_answers \<Rightarrow> int \<Rightarrow> int \<Rightarrow> int \<times> bool \<Rightarrow> int \<times> bool \<Rightarrow> task_event list option" where
  "stopping_distance_calibrator a train speed answer1 answer2 = in_turn (
     [calibration_start a,
      Some [EV_PRINT (calibration_print ''Calibrating stopping distance for train '' train speed)]] @
     (if speed = 14 then
        [do_switch 9 False, do_switch 11 False, do_switch 12 False, do_switch 16 False,
         do_reverse train 8 answer1, wait_for 67 13, do_reverse train speed answer2, do_switch 11 True,
         wait_for 69 8, do_switch 11 False, do_cmd (set_train_speed_and_headlights train 0 True)]
      else
        [do_switch 3 False, do_switch 18 False, do_switch 5 False] @
        (if speed \<noteq> 1 \<and> speed < 9 then [do_cmd (set_train_speed train 10), Some [EV_DELAY 200]] else []) @
        [do_reverse train 8 answer1, wait_for 67 (if speed < 6 then 7 else 3), do_reverse train speed answer2,
         wait_for 67 8, do_cmd (set_train_speed_and_headlights train 0 True)]) @
     [Some [EV_PRINT (calibration_finished ''Stopping distance calibration finished'')]])"

text \<open>The way round the track: the sensors in order; after B3 the way back is switched.\<close>

definition velocity_course :: "(u8 \<times> u32) list" where
  "velocity_course = zip (map of_char ''DEDBCABCBCEECABCBDEE'')
     [5, 6, 4, 6, 12, 4, 16, 10, 3, 2, 2, 15, 12, 4, 16, 10, 1, 14, 14, 9]"

definition velocity_steps :: "(u8 \<times> u32) list \<Rightarrow> task_event list option list" where
  "velocity_steps course = concat (map (\<lambda>(letter, number). wait_for letter number #
     (if letter = 66 \<and> number = 3 then [do_switch 16 False] else [])) course)"

definition velocity_calibrator ::
  "start_answers \<Rightarrow> int \<Rightarrow> int \<times> bool \<Rightarrow> int \<times> bool \<Rightarrow> task_event list option" where
  "velocity_calibrator a train answer1 answer2 = in_turn (
     [calibration_start a, Some [EV_PRINT (calibration_print ''Calibrating velocity for train '' train 14)],
      do_switch 6 True, do_switch 10 False, do_switch 15 True, do_switch 16 True, do_switch 17 False,
      do_switch 155 False, do_switch 156 True,
      do_reverse train 13 answer1, wait_for 69 10, do_reverse train 14 answer2] @
     velocity_steps velocity_course @
     [do_cmd (set_train_speed train 0), Some [EV_PRINT (calibration_finished ''Velocity calibration finished'')]])"

text \<open>Up and down a straight, for every speed; \<open>answers speed\<close> are the two answers for that speed.\<close>

definition straight_do_automated_velocity_calibration ::
  "int \<Rightarrow> int \<Rightarrow> (int \<times> bool) \<times> (int \<times> bool) \<Rightarrow> task_event list option" where
  "straight_do_automated_velocity_calibration train speed answers = in_turn (
     [do_cmd (set_train_speed train speed), wait_for 68 11, wait_for 67 16, do_reverse train 10 (fst answers),
      wait_for 68 12] @
     (if speed > 6 \<and> speed \<noteq> 14 then [Some [EV_DELAY (speed * 30)]] else []) @
     [do_reverse train 0 (snd answers)])"

definition automated_velocity_calibrator ::
  "start_answers \<Rightarrow> int \<Rightarrow> (int \<Rightarrow> (int \<times> bool) \<times> (int \<times> bool)) \<Rightarrow> task_event list option" where
  "automated_velocity_calibrator a train answers = in_turn (
     [calibration_start a, do_switch 6 False, do_switch 7 False, do_switch 8 False, do_switch 15 False] @
     concat (map (\<lambda>speed.
       [Some [EV_PRINT (calibration_print ''Calibrating velocity automatically for train '' train speed)],
        straight_do_automated_velocity_calibration train speed (answers speed)]) [1..14]) @
     [Some [EV_PRINT (calibration_finished ''Automatic velocity calibration finished'')]])"

text \<open>\<open>dynamic_acceleration_calibrator\<close> has an empty body.\<close>

section \<open>The demo\<close>

text \<open>The generator: \<open>long long\<close> arithmetic, whose overflow is undefined.\<close>

definition random :: "int \<Rightarrow> (int \<times> int) option" where
  "random seed = do {
     let p = 1103515245 * seed + 12345;
     guard_opt (- (2 ^ 63) \<le> 1103515245 * seed \<and> - (2 ^ 63) \<le> p \<and> 1103515245 * seed < 2 ^ 63 \<and> p < 2 ^ 63);
     let seed' = p smod 65536;
     Some (seed' smod 65536, seed')
   }"

definition siding_sensors :: "string list" where
  "siding_sensors = [''A15'', ''A13'', ''A1'', ''B5'', ''D3'', ''E5'', ''E15'', ''E3'', ''E1'', ''D1'', ''C1'', ''B13'', ''B3'',
     ''D15'', ''B1'', ''D13'', ''C7'', ''C3'', ''A5'', ''A7'', ''B9'', ''B11'', ''B7'', ''A11'', ''A9'']"

definition random_sensor_on_siding :: "track \<Rightarrow> nat \<Rightarrow> int \<Rightarrow> (int \<times> int) option" where
  "random_sensor_on_siding T nodes seed = do {
     (r, seed') \<leftarrow> random seed;
     let i = r smod 25;
     guard_opt (0 \<le> i);
     name \<leftarrow> array_get siding_sensors (nat i);
     n \<leftarrow> node_at T (find_node_by_name T nodes name);
     Some (n_num n, seed')
   }"

text \<open>
  The commands the demo sends to the dispatcher, a type and the three entries of the data that are set;
  \<open>sent\<close> are the results of \<open>Send\<close>.
\<close>

fun demo_rounds ::
  "track \<Rightarrow> nat \<Rightarrow> int \<Rightarrow> int list \<Rightarrow> int \<Rightarrow> (user_command_type \<times> int list) list option" where
  "demo_rounds T nodes train [] seed = Some []"
| "demo_rounds T nodes train (sent # rest) seed = do {
     (sensor, seed') \<leftarrow> random_sensor_on_siding T nodes seed;
     guard_opt (sent = 0);
     cmds \<leftarrow> demo_rounds T nodes train rest seed';
     Some ((USER_CMD_R, [train, sensor, 0]) # cmds)
   }"

text \<open>\<open>clockticks\<close> is what the clock of the kernel reads.\<close>

definition t2_demo_task ::
  "track \<Rightarrow> nat \<Rightarrow> bool \<Rightarrow> int \<Rightarrow> int \<Rightarrow> u32 \<Rightarrow> int list \<Rightarrow> (user_command_type \<times> int list) list option" where
  "t2_demo_task T nodes received replied train clockticks sent = do {
     guard_opt received;
     guard_opt (replied = 0);
     demo_rounds T nodes train sent (uint clockticks)
   }"

section \<open>Waiting for a distance, and other helpers\<close>

text \<open>
  The loop runs until the train has gone the distance; \<open>clock n\<close> is the time read in round \<open>n\<close>, the
  result the lines printed, none when there is no terminal.
\<close>

partial_function (option) at_dist_loop ::
  "(nat \<Rightarrow> int) \<Rightarrow> int \<Rightarrow> int \<Rightarrow> int \<Rightarrow> int \<Rightarrow> nat \<Rightarrow> int \<Rightarrow> print list option" where
  "at_dist_loop clock terminal last_stopping start_dist velocity n dist =
     (if dist > 0 then do {
        diff \<leftarrow> dist_from_last_sensor (clock n) last_stopping (of_int velocity);
        dist' \<leftarrow> int32 (start_dist - diff);
        ps \<leftarrow> at_dist_loop clock terminal last_stopping start_dist velocity (n + 1) dist';
        Some ((if terminal > 0
          then [print_esc ''(%d left - step %d)%s'' (CALIB_LINE + 2) 1
                  [ARG_INT dist', ARG_INT diff, text_arg HIDE_CURSOR_TO_EOL]]
          else []) @ ps)
      }
      else Some [])"

definition poll_until_at_dist :: "int \<Rightarrow> (nat \<Rightarrow> int) \<Rightarrow> int \<Rightarrow> int \<Rightarrow> int \<Rightarrow> print list option" where
  "poll_until_at_dist start_time clock terminal dist velocity =
     at_dist_loop clock terminal start_time dist velocity 0 dist"

text \<open>As \<open>switch_turnouts_within_distance\<close>, with a switcher task for each turnout.\<close>

definition switcher_turnouts_within_distance ::
  "int \<Rightarrow> track \<Rightarrow> int \<Rightarrow> turnout_state list \<Rightarrow> route \<Rightarrow> location \<Rightarrow> int \<Rightarrow> (int \<times> switch_message) list option" where
  "switcher_turnouts_within_distance my_priority T controller turnouts route loc distance = do {
     guard_opt (controller > 0);
     calls \<leftarrow> switch_turnouts_within_distance T turnouts route loc distance;
     Some (map (\<lambda>(n, curved). switcher_turnout my_priority n curved) calls)
   }"

text \<open>The courier is made and told its train. The other function only logs, for both kinds of courier.\<close>

definition create_courier :: "int \<Rightarrow> int \<Rightarrow> int \<Rightarrow> int \<Rightarrow> (int \<times> task_event list) option" where
  "create_courier my_priority courier_tid sent train = do {
     guard_opt (courier_tid \<ge> 0);
     guard_opt (sent = 0);
     Some (courier_tid, [EV_CREATE my_priority ''coordinate_courier'', EV_SEND ''coordinate_courier'' (MSG_TRAIN train)])
   }"

definition print_num_triggerable_notifications ::
  "track \<Rightarrow> (bool \<times> location) list \<Rightarrow> location \<Rightarrow> print list option" where
  "print_num_triggerable_notifications T slots loc = do {
     reached \<leftarrow> those (map (\<lambda>(is_set, l). if is_set then location_is_ge T loc l else Some False) slots);
     let n = length (filter id reached);
     Some (if n > 1 then [(str_line ''Notifications: %d'', [ARG_INT (int n)])] else [])
   }"

definition multi_print_num_triggerable_notifications ::
  "track \<Rightarrow> (bool \<times> location) list \<Rightarrow> location \<Rightarrow> print list option" where
  "multi_print_num_triggerable_notifications = print_num_triggerable_notifications"

section \<open>The measurements end with the train standing\<close>

text \<open>The train and the speed of the last speed command.\<close>

fun speed_of :: "task_event \<Rightarrow> (int \<times> int) option" where
  "speed_of (EV_CMD (TSC (TRAINSETSPEED train speed headlights))) = Some (train, speed)"
| "speed_of e = None"

definition final_speed :: "task_event list \<Rightarrow> (int \<times> int) option" where
  "final_speed ev = foldl (\<lambda>s e. case speed_of e of None \<Rightarrow> s | Some v \<Rightarrow> Some v) None ev"

lemma final_speed_foldl:
  "foldl (\<lambda>s e. case speed_of e of None \<Rightarrow> s | Some v \<Rightarrow> Some v) s ev =
   (case final_speed ev of None \<Rightarrow> s | Some v \<Rightarrow> Some v)"
proof (induction ev rule: rev_induct)
  case (snoc e ev)
  then show ?case by (simp add: final_speed_def split: option.splits)
qed (simp add: final_speed_def)

lemma final_speed_append:
  "final_speed (xs @ ys) = (case final_speed ys of None \<Rightarrow> final_speed xs | Some v \<Rightarrow> Some v)"
  by (simp add: final_speed_def) (simp add: final_speed_foldl split: option.splits flip: final_speed_def)

lemma those_Some: "(\<forall>x \<in> set xs. x \<noteq> None) \<Longrightarrow> those xs = Some (map the xs)"
  by (induction xs) auto

lemma in_turn_Some: "(\<forall>x \<in> set xs. x \<noteq> None) \<Longrightarrow> in_turn xs = Some (concat (map the xs))"
  by (simp add: in_turn_def those_Some)

lemma do_switch_Some: "is_valid_turnout_num (of_int n) \<Longrightarrow> do_switch n c \<noteq> None"
  by (auto simp: do_switch_def do_cmd_def switch_turnout_def guard_opt_def Let_def array_get_def paired_turnouts_def)

lemma do_speed:
  assumes "1 \<le> train" "train \<le> 80" "0 \<le> speed" "speed \<le> 14"
  shows "\<exists>ev. do_cmd (set_train_speed_and_headlights train speed hl) = Some ev \<and> final_speed ev = Some (train, speed)"
  using assms by (simp add: do_cmd_def set_train_speed_and_headlights_def guard_opt_def final_speed_def)

text \<open>What the controller answers is a speed a train may have.\<close>

definition speed_answer :: "int \<times> bool \<Rightarrow> bool" where
  "speed_answer a \<longleftrightarrow> 0 \<le> fst a \<and> fst a \<le> 14"

lemma do_reverse_Some:
  assumes "1 \<le> train" "train \<le> 80" "0 \<le> speed" "speed \<le> 14" "speed_answer a"
  shows "\<exists>ev. do_reverse train speed a = Some ev \<and> final_speed ev = Some (train, speed)"
proof -
  obtain w where w: "cmul (fst a) 33 = Some w"
    using assms(5) by (auto simp: speed_answer_def cmul_def int32_def)
  have "stop_and_reverse_train_to_speed train speed (fst a) (snd a) \<noteq> None"
    using assms(1-4) w
    by (simp add: stop_and_reverse_train_to_speed_def stop_and_reverse_helper_def set_train_speed_def
        set_train_speed_and_headlights_def reverse_train_def guard_opt_def)
  then show ?thesis using assms(1-4) w
    by (auto simp: do_reverse_def do_cmd_def final_speed_def stop_and_reverse_train_to_speed_def
        stop_and_reverse_helper_def set_train_speed_def set_train_speed_and_headlights_def reverse_train_def
        guard_opt_def)
qed


text \<open>A program ends with the train standing when its last step, but for a print, stops it.\<close>

lemma in_turn_last:
  assumes "\<forall>x \<in> set xs. x \<noteq> None" "y = Some ev" "final_speed ev = Some v"
  shows "\<exists>e. in_turn (xs @ [y]) = Some e \<and> final_speed e = Some v"
  using in_turn_Some [of "xs @ [y]"] assms by (simp add: final_speed_append)

lemma in_turn_ends:
  assumes "\<forall>x \<in> set xs. x \<noteq> None" "y = Some ev" "final_speed ev = Some v" "final_speed ev' = None"
  shows "\<exists>e. in_turn (xs @ [y, Some ev']) = Some e \<and> final_speed e = Some v"
  using in_turn_Some [of "xs @ [y, Some ev']"] assms by (simp add: final_speed_append)

lemma calibrator_steps:
  assumes "1 \<le> train" "train \<le> 80" "0 \<le> speed" "speed \<le> 14" "speed_answer a"
  shows "do_reverse train speed a \<noteq> None" "do_cmd (set_train_speed_and_headlights train speed hl) \<noteq> None"
  using do_reverse_Some [OF assms] do_speed [OF assms(1-4), of hl] by auto

lemma stopping_distance_ends_standing:
  assumes "1 \<le> train" "train \<le> 80" "0 \<le> speed" "speed \<le> 14" "calibration_start a \<noteq> None"
    "speed_answer a1" "speed_answer a2"
  shows "\<exists>ev. stopping_distance_calibrator a train speed a1 a2 = Some ev \<and> final_speed ev = Some (train, 0)"
proof -
  let ?stop = "do_cmd (set_train_speed_and_headlights train 0 True)"
  let ?print = "[EV_PRINT (calibration_finished ''Stopping distance calibration finished'')]"
  obtain e where e: "?stop = Some e" "final_speed e = Some (train, 0)" using do_speed [of train 0 True] assms by auto
  note s = do_switch_Some calibrator_steps [OF assms(1-4,7)] calibrator_steps [OF assms(1,2) _ _ assms(6), of 8]
    calibrator_steps(2) [OF assms(1,2) _ _ assms(6), of 10] assms(5)
  show ?thesis
  proof (cases "speed = 14")
    case True
    let ?xs = "[calibration_start a,
      Some [EV_PRINT (calibration_print ''Calibrating stopping distance for train '' train speed)],
      do_switch 9 False, do_switch 11 False, do_switch 12 False, do_switch 16 False,
      do_reverse train 8 a1, wait_for 67 13, do_reverse train speed a2, do_switch 11 True,
      wait_for 69 8, do_switch 11 False]"
    have "\<forall>x \<in> set ?xs. x \<noteq> None" using s by (simp add: wait_for_def is_valid_turnout_num_def)
    from in_turn_ends [OF this e, of ?print] show ?thesis
      using True by (simp add: stopping_distance_calibrator_def final_speed_def)
  next
    case False
    let ?xs = "[calibration_start a,
      Some [EV_PRINT (calibration_print ''Calibrating stopping distance for train '' train speed)],
      do_switch 3 False, do_switch 18 False, do_switch 5 False] @
        (if speed \<noteq> 1 \<and> speed < 9 then [do_cmd (set_train_speed train 10), Some [EV_DELAY 200]] else []) @
        [do_reverse train 8 a1, wait_for 67 (if speed < 6 then 7 else 3), do_reverse train speed a2, wait_for 67 8]"
    have "\<forall>x \<in> set ?xs. x \<noteq> None" using s by (auto simp: wait_for_def is_valid_turnout_num_def set_train_speed_def)
    from in_turn_ends [OF this e, of ?print] show ?thesis
      using False by (simp add: stopping_distance_calibrator_def final_speed_def)
  qed
qed

lemma velocity_steps_Some: "x \<in> set (velocity_steps course) \<Longrightarrow> x \<noteq> None"
  using do_switch_Some [of 16 False] by (auto simp: velocity_steps_def wait_for_def is_valid_turnout_num_def)

lemma velocity_ends_standing:
  assumes "1 \<le> train" "train \<le> 80" "calibration_start a \<noteq> None" "speed_answer a1" "speed_answer a2"
  shows "\<exists>ev. velocity_calibrator a train a1 a2 = Some ev \<and> final_speed ev = Some (train, 0)"
proof -
  let ?xs = "[calibration_start a, Some [EV_PRINT (calibration_print ''Calibrating velocity for train '' train 14)],
      do_switch 6 True, do_switch 10 False, do_switch 15 True, do_switch 16 True, do_switch 17 False,
      do_switch 155 False, do_switch 156 True,
      do_reverse train 13 a1, wait_for 69 10, do_reverse train 14 a2] @ velocity_steps velocity_course"
  obtain e where e: "do_cmd (set_train_speed train 0) = Some e" "final_speed e = Some (train, 0)"
    using do_speed [of train 0 True] assms by (auto simp: set_train_speed_def)
  have r: "do_reverse train 13 a1 \<noteq> None" "do_reverse train 14 a2 \<noteq> None"
    using calibrator_steps(1) [OF assms(1,2)] assms(4,5) by simp_all
  have "do_switch 6 True \<noteq> None" "do_switch 10 False \<noteq> None" "do_switch 15 True \<noteq> None" "do_switch 16 True \<noteq> None"
    "do_switch 17 False \<noteq> None" "do_switch 155 False \<noteq> None" "do_switch 156 True \<noteq> None"
    by (intro do_switch_Some; simp add: is_valid_turnout_num_def)+
  with r have "\<forall>x \<in> set ?xs. x \<noteq> None" using assms(3) velocity_steps_Some by (auto simp: wait_for_def)
  from in_turn_ends [OF this e, of "[EV_PRINT (calibration_finished ''Velocity calibration finished'')]"]
  show ?thesis by (simp add: velocity_calibrator_def final_speed_def)
qed

lemma straight_ends_standing:
  assumes "1 \<le> train" "train \<le> 80" "0 \<le> speed" "speed \<le> 14" "speed_answer (fst as)" "speed_answer (snd as)"
  shows "\<exists>ev. straight_do_automated_velocity_calibration train speed as = Some ev \<and> final_speed ev = Some (train, 0)"
proof -
  let ?xs = "[do_cmd (set_train_speed train speed), wait_for 68 11, wait_for 67 16, do_reverse train 10 (fst as),
      wait_for 68 12] @ (if speed > 6 \<and> speed \<noteq> 14 then [Some [EV_DELAY (speed * 30)]] else [])"
  obtain e where e: "do_reverse train 0 (snd as) = Some e" "final_speed e = Some (train, 0)"
    using do_reverse_Some [of train 0 "snd as"] assms by auto
  have "do_cmd (set_train_speed train speed) \<noteq> None" "do_reverse train 10 (fst as) \<noteq> None"
    using calibrator_steps(2) [OF assms(1-5), of True] calibrator_steps(1) [OF assms(1,2) _ _ assms(5), of 10]
    by (simp_all add: set_train_speed_def)
  then have "\<forall>x \<in> set ?xs. x \<noteq> None" by (auto simp: wait_for_def)
  from in_turn_last [OF this e] show ?thesis by (simp only: straight_do_automated_velocity_calibration_def append_assoc)
qed

lemma automated_ends_standing:
  assumes "1 \<le> train" "train \<le> 80" "calibration_start a \<noteq> None"
    "\<forall>s. speed_answer (fst (as s)) \<and> speed_answer (snd (as s))"
  shows "\<exists>ev. automated_velocity_calibrator a train as = Some ev \<and> final_speed ev = Some (train, 0)"
proof -
  let ?round = "\<lambda>speed. [Some [EV_PRINT (calibration_print ''Calibrating velocity automatically for train '' train speed)],
        straight_do_automated_velocity_calibration train speed (as speed)]"
  let ?start = "[calibration_start a, do_switch 6 False, do_switch 7 False, do_switch 8 False, do_switch 15 False]"
  let ?xs = "?start @ concat (map ?round [1..13]) @ [hd (?round 14)]"
  have st: "\<exists>ev. straight_do_automated_velocity_calibration train speed (as speed) = Some ev \<and>
      final_speed ev = Some (train, 0)" if "1 \<le> speed" "speed \<le> 14" for speed
    using straight_ends_standing [OF assms(1,2), of speed "as speed"] that assms(4) by simp
  obtain e where e: "straight_do_automated_velocity_calibration train 14 (as 14) = Some e"
    "final_speed e = Some (train, 0)"
    using st [of 14] by auto
  have "do_switch 6 False \<noteq> None" "do_switch 7 False \<noteq> None" "do_switch 8 False \<noteq> None" "do_switch 15 False \<noteq> None"
    by (intro do_switch_Some; simp add: is_valid_turnout_num_def)+
  moreover have "x \<noteq> None" if "x \<in> set (concat (map ?round [1..13]))" for x
  proof -
    have "\<exists>speed \<in> {1..13}. x \<in> set (?round speed)" using that by fastforce
    then obtain speed where "speed \<in> {1..13}" "x \<in> set (?round speed)" ..
    then show ?thesis using st [of speed] by auto
  qed
  ultimately have all: "\<forall>x \<in> set ?xs. x \<noteq> None" using assms(3) by (auto simp del: set_concat)
  have "[1..14] = [1..13] @ [14 :: int]" by code_simp
  then have eq: "automated_velocity_calibrator a train as = in_turn (?xs @ [straight_do_automated_velocity_calibration train 14 (as 14),
      Some [EV_PRINT (calibration_finished ''Automatic velocity calibration finished'')]])"
    by (simp add: automated_velocity_calibrator_def)
  show ?thesis unfolding eq by (rule in_turn_ends [OF all e]) (simp add: final_speed_def)
qed

text \<open>
  C32: a measurement that has been started with the number of a train and a speed runs to its end,
  whatever the train's state was in between, and the last speed it commands is 0, so that the train
  stands; this holds for the three calibration programs.
\<close>

theorem calibrations_end_standing:
  assumes "1 \<le> train" "train \<le> 80" "0 \<le> speed" "speed \<le> 14" "calibration_start a \<noteq> None"
    and "\<forall>s. speed_answer (fst (answers s)) \<and> speed_answer (snd (answers s))"
  shows "(\<exists>ev. automated_velocity_calibrator a train answers = Some ev \<and> final_speed ev = Some (train, 0)) \<and>
    (\<exists>ev. velocity_calibrator a train (fst (answers 0)) (snd (answers 0)) = Some ev \<and>
      final_speed ev = Some (train, 0)) \<and>
    (\<exists>ev. stopping_distance_calibrator a train speed (fst (answers 0)) (snd (answers 0)) = Some ev \<and>
      final_speed ev = Some (train, 0))"
  using automated_ends_standing [OF assms(1,2,5,6)] velocity_ends_standing [OF assms(1,2,5)]
    stopping_distance_ends_standing [OF assms(1-5)] assms(6) by simp

definition sample_start :: start_answers where
  "sample_start = \<lparr>sa_received = True, sa_sender_tid = 5, sa_parent_tid = 5, sa_right_type = True, sa_replied = 0\<rparr>"

lemma calibrations_end_standing_witness:
  "(\<exists>ev. automated_velocity_calibrator sample_start 24 (\<lambda>s. ((10, True), (4, False))) = Some ev \<and>
      final_speed ev = Some (24, 0)) \<and>
    (\<exists>ev. velocity_calibrator sample_start 24 (10, True) (4, False) = Some ev \<and> final_speed ev = Some (24, 0)) \<and>
    (\<exists>ev. stopping_distance_calibrator sample_start 24 9 (10, True) (4, False) = Some ev \<and>
      final_speed ev = Some (24, 0))"
  using calibrations_end_standing [of 24 9 sample_start "\<lambda>s. ((10, True), (4, False))"]
  by (simp add: sample_start_def calibration_start_def guard_opt_def speed_answer_def)

section \<open>The demo only asks for sensors\<close>

lemma random_ok:
  assumes "0 \<le> seed" "seed < 2 ^ 32"
  shows "\<exists>r. random seed = Some (r, r) \<and> 0 \<le> r \<and> r < 65536"
proof -
  have "1103515245 * seed \<le> 1103515245 * 2 ^ 32" using assms by simp
  then have b: "1103515245 * seed + 12345 < 2 ^ 63" by simp
  have "x smod y = x mod y" if "0 \<le> x" "0 < y" for x y :: int
    using that by (cases "x = 0") (simp_all add: smod_int_alt_def)
  then show ?thesis using assms b by (simp add: random_def guard_opt_def Let_def)
qed

text \<open>
  The sensors are the first 80 nodes, numbered as they stand; a name of the list is that of one of them,
  so that the first node of that name is a sensor.
\<close>

definition sensor_nodes :: "track \<Rightarrow> bool" where
  "sensor_nodes T \<longleftrightarrow> list_all (\<lambda>i. map_option n_num (array_get T i) = Some (int i)) [0..<80]"

definition siding_nodes :: "nat list" where
  "siding_nodes = [14, 12, 0, 20, 50, 68, 78, 66, 64, 48, 32, 28, 18, 62, 16, 60, 38, 34, 4, 6, 24, 26, 22, 10, 8]"

definition siding_named :: "track \<Rightarrow> bool" where
  "siding_named T \<longleftrightarrow> map (\<lambda>i. map_option n_name (array_get T i)) siding_nodes = map Some siding_sensors"

lemma siding_name_found:
  assumes T: "siding_named T" "sensor_nodes T" and n: "80 \<le> nodes" and k: "k < 25"
  shows "\<exists>i < 80. find_node_by_name T nodes (siding_sensors ! k) = Some i \<and> map_option n_num (array_get T i) = Some (int i)"
proof -
  let ?name = "siding_sensors ! k" and ?j = "siding_nodes ! k"
  have len: "length siding_nodes = 25" "length siding_sensors = 25" by (simp_all add: siding_nodes_def siding_sensors_def)
  have "map_option n_name (array_get T ?j) = Some ?name"
    using arg_cong [OF T(1) [unfolded siding_named_def], of "\<lambda>xs. xs ! k"] k len by simp
  then have j: "n_name (T ! ?j) = ?name" by (auto simp: array_get_def split: if_splits)
  have "list_all (\<lambda>i. i < 80) siding_nodes" by code_simp
  then have "?j < 80" using k len by (simp add: list_all_length)
  then have "\<exists>i. find (\<lambda>i. n_name (T ! i) = ?name) [0..<nodes] = Some i"
    using j n by (cases "find (\<lambda>i. n_name (T ! i) = ?name) [0..<nodes]") (auto simp: find_None_iff)
  then obtain i where i: "find (\<lambda>i. n_name (T ! i) = ?name) [0..<nodes] = Some i" by blast
  then have "\<not> ?j < i" using j by (auto simp: find_Some_iff)
  then have "i < 80" using \<open>?j < 80\<close> by simp
  then show ?thesis using i T(2) by (auto simp: find_node_by_name_def sensor_nodes_def list_all_iff)
qed

lemma tracka_sidings: "siding_named init_tracka" "sensor_nodes init_tracka"
  by (simp_all add: siding_named_def siding_nodes_def siding_sensors_def sensor_nodes_def all_less_Suc_numeral
      tracka_simps mk_node_def del: array_get_Some)

lemma trackb_sidings: "siding_named init_trackb" "sensor_nodes init_trackb"
  by (simp_all add: siding_named_def siding_nodes_def siding_sensors_def sensor_nodes_def all_less_Suc_numeral
      tracka_simps mk_node_def del: array_get_Some)

lemma set_turnout_sidings:
  assumes "set_turnout_permanently T k st = Some T'" "siding_named T" "sensor_nodes T"
  shows "siding_named T'" "sensor_nodes T'"
proof -
  have "map_option n_name (array_get T' i) = map_option n_name (array_get T i)" for i
    using assms(1)
    by (auto simp: set_turnout_permanently_def Let_def array_get_def array_set_def nth_list_update
        split: turnout_state.splits bind_splits if_splits)
  then show "siding_named T'" using assms(2) by (simp add: siding_named_def)
  show "sensor_nodes T'" using assms(3) set_turnout_frame(4) [OF assms(1)] by (simp add: sensor_nodes_def)
qed

lemma lab_track_sidings: "siding_named lab_track" "sensor_nodes lab_track"
proof -
  obtain T where T: "init_track_b = Some T" using init_track_b_ok by blast
  have l: "lab_track = T" by (simp add: lab_track_def T)
  obtain t1 t2 where t: "set_turnout_permanently init_trackb 17 TURNOUT_CURVED = Some t1"
    "set_turnout_permanently t1 155 TURNOUT_CURVED = Some t2"
    "set_turnout_permanently t2 156 TURNOUT_STRAIGHT = Some T"
    using T by (auto simp: init_track_b_def split: bind_splits)
  show "siding_named lab_track" "sensor_nodes lab_track"
    unfolding l using trackb_sidings set_turnout_sidings [OF t(1)] set_turnout_sidings [OF t(2)]
      set_turnout_sidings [OF t(3)] by simp_all
qed

lemma random_sensor_ok:
  assumes T: "siding_named T" "sensor_nodes T" and "80 \<le> nodes" and "0 \<le> seed" "seed < 2 ^ 32"
  shows "\<exists>s r. random_sensor_on_siding T nodes seed = Some (s, r) \<and> 0 \<le> s \<and> s < 80 \<and> 0 \<le> r \<and> r < 2 ^ 32"
proof -
  obtain r where r: "random seed = Some (r, r)" "0 \<le> r" "r < 65536" using random_ok [OF assms(4,5)] by blast
  have m: "r smod 25 = r mod 25" using r(2) by (cases "r = 0") (simp_all add: smod_int_alt_def)
  then have k: "nat (r smod 25) < 25" by simp
  obtain i where "i < 80" "find_node_by_name T nodes (siding_sensors ! nat (r smod 25)) = Some i"
    "map_option n_num (array_get T i) = Some (int i)" using siding_name_found [OF T assms(3) k] by blast
  then show ?thesis using r k m
    by (auto simp: random_sensor_on_siding_def guard_opt_def array_get_def node_at_def siding_sensors_def
        split: if_splits)
qed

lemma demo_rounds_ok:
  assumes T: "siding_named T" "sensor_nodes T" "80 \<le> nodes" and "list_all (\<lambda>r. r = 0) sent"
  shows "0 \<le> seed \<Longrightarrow> seed < 2 ^ 32 \<Longrightarrow> \<exists>cmds. demo_rounds T nodes train sent seed = Some cmds \<and> length cmds = length sent \<and>
    (\<forall>c \<in> set cmds. \<exists>s. c = (USER_CMD_R, [train, s, 0]) \<and> 0 \<le> s \<and> s < 80)"
  using assms(4)
proof (induction sent arbitrary: seed)
  case (Cons r rest)
  obtain s q where s: "random_sensor_on_siding T nodes seed = Some (s, q)" "0 \<le> s" "s < 80" "0 \<le> q" "q < 2 ^ 32"
    using random_sensor_ok [OF T Cons.prems(1,2)] by blast
  with Cons.IH [OF s(4,5)] Cons.prems(3) show ?case by (fastforce simp: guard_opt_def)
qed simp

text \<open>
  On either track the demo never fails, whatever the clock reads when it starts: every command it
  sends is to drive its train to a sensor of the track, at offset 0, one command for each answer of the
  dispatcher.
\<close>

theorem demo_asks_for_sensors:
  assumes "T = init_tracka \<and> nodes = 144 \<or> T = lab_track \<and> nodes = 140" "list_all (\<lambda>r. r = 0) sent"
  shows "\<exists>cmds. t2_demo_task T nodes True 0 train clockticks sent = Some cmds \<and> length cmds = length sent \<and>
    (\<forall>c \<in> set cmds. \<exists>s. c = (USER_CMD_R, [train, s, 0]) \<and> 0 \<le> s \<and> s < 80)"
proof -
  have "siding_named T" "sensor_nodes T" "80 \<le> nodes" using assms(1) tracka_sidings lab_track_sidings by auto
  from demo_rounds_ok [OF this assms(2), of "uint clockticks" train] uint_lt2p [of clockticks]
  show ?thesis by (simp add: t2_demo_task_def guard_opt_def)
qed

lemma demo_asks_for_sensors_witness:
  "\<exists>cmds. t2_demo_task lab_track 140 True 0 24 12345 [0, 0, 0] = Some cmds \<and> length cmds = 3 \<and>
    (\<forall>c \<in> set cmds. \<exists>s. c = (USER_CMD_R, [24, s, 0]) \<and> 0 \<le> s \<and> s < 80)"
  using demo_asks_for_sensors [of lab_track 140 "[0, 0, 0]" 24 12345] by (simp add: numeral_3_eq_3)

section \<open>The wait for a distance ends\<close>

text \<open>
  Once the clock has gone on far enough the loop ends, as long as the product of velocity and time does
  not overflow before.
\<close>

lemma poll_until_at_dist_ends:
  assumes "\<forall>k \<le> m. start \<le> clock k \<and> clock k - start < 2 ^ 31 \<and> velocity * (clock k - start) < 2 ^ 31"
    and "0 \<le> velocity" "velocity < 2 ^ 31" "0 \<le> dist" "dist < 2 ^ 31"
    and reached: "dist \<le> velocity * (clock m - start) div 100"
  shows "\<exists>ps. poll_until_at_dist start clock terminal dist velocity = Some ps"
proof -
  have "n \<le> m \<Longrightarrow> \<exists>ps. at_dist_loop clock terminal start dist velocity n d = Some ps" for n d
  proof (induction "m - n" arbitrary: n d rule: less_induct)
    case less
    let ?p = "velocity * (clock n - start)"
    have b: "0 \<le> clock n - start" "clock n - start < 2 ^ 31" "?p < 2 ^ 31" using assms(1) less.prems by auto
    then have "0 \<le> ?p" using assms(2) by simp
    then have sd: "?p sdiv 100 = ?p div 100" "0 \<le> ?p div 100" "?p div 100 < 2 ^ 31"
      using b(3) by (auto simp: signed_divide_int_def sgn_if)
    have sv: "sint (of_int velocity :: u32) = velocity" using sint_of_int_small assms(2,3) by simp
    have diff: "dist_from_last_sensor (clock n) start (of_int velocity) = Some (?p div 100)"
      using b \<open>0 \<le> ?p\<close> sd by (simp add: dist_from_last_sensor_def cmul_def cdiv_def int32_def sv)
    have d': "int32 (dist - ?p div 100) = Some (dist - ?p div 100)" using sd assms(4,5) by (simp add: int32_def)
    show ?case
    proof (cases "d > 0")
      case True
      have "\<exists>ps. at_dist_loop clock terminal start dist velocity (n + 1) (dist - ?p div 100) = Some ps"
      proof (cases "n = m")
        case True
        then have "\<not> dist - ?p div 100 > 0" using reached by simp
        then show ?thesis by (subst at_dist_loop.simps) simp
      next
        case False
        then show ?thesis using less.prems by (intro less.hyps) auto
      qed
      then show ?thesis using True diff d' by (subst at_dist_loop.simps) auto
    qed (subst at_dist_loop.simps, simp)
  qed
  then show ?thesis by (simp add: poll_until_at_dist_def)
qed


end
