(* ===== verification/Timer.thy ===== *)
theory Timer
  imports Trains_Prelude
begin

text \<open>
  The clock of the kernel, \<open>kernel/include/labenv/timer.c\<close>: timer 3 of the board counts down from
  \<open>0xFFFFFFFF\<close>, and each reading adds the ticks since the one before to a 64-bit count. The registers
  of the timers are a map from addresses; what a register holds when it is read is an argument. The
  theorems: the count follows the time, less one tick each time the counter has run through.
\<close>

type_synonym timer_registers = "u32 \<Rightarrow> u32"

definition TIMER3_CLK :: u32 where "TIMER3_CLK = 0x8"
definition TIMER3_ENABLE :: u32 where "TIMER3_ENABLE = 0x80"
definition TIMER3_MODE :: u32 where "TIMER3_MODE = 0x40"
definition TIMER3_LOAD :: u32 where "TIMER3_LOAD = 0x80810080"
definition TIMER3_CTRL :: u32 where "TIMER3_CTRL = 0x80810088"
definition TIMER3_CLEAR :: u32 where "TIMER3_CLEAR = 0x8081008C"
definition TIMER4_HI_ONOFF :: u32 where "TIMER4_HI_ONOFF = 0x80810064"
definition TIMER4_ONOFF_MSK :: u32 where "TIMER4_ONOFF_MSK = 0x100"
definition TIMER4_HI_VAL_MSK :: u8 where "TIMER4_HI_VAL_MSK = 0xFF"

record timer =
  timer3_countdown :: u32
  timer3_divisor :: u32
  timer3_lastval :: u32
  sys_time :: u64

definition set_tc3_timer :: "u32 \<Rightarrow> bool \<Rightarrow> timer_registers \<Rightarrow> timer \<times> timer_registers" where
  "set_tc3_timer countdown_val clock_to_use regs =
     (let ctrl = (if clock_to_use then TIMER3_CLK else 0) OR TIMER3_MODE in
      (\<lparr>timer3_countdown = countdown_val, timer3_divisor = (if clock_to_use then 5084689 else 2),
        timer3_lastval = countdown_val, sys_time = 0\<rparr>,
       regs(TIMER3_LOAD := countdown_val, TIMER3_CTRL := ctrl OR TIMER3_ENABLE)))"

definition clear_tc3_interrupt :: "timer_registers \<Rightarrow> timer_registers" where
  "clear_tc3_interrupt regs = regs(TIMER3_CLEAR := 1)"

text \<open>\<open>now\<close> is what the value register of timer 3 holds.\<close>

definition get_tc3_timer_time :: "u32 \<Rightarrow> timer \<Rightarrow> timer" where
  "get_tc3_timer_time now t =
     (let passed = (if now > timer3_lastval t
                    then timer3_lastval t + (timer3_countdown t - now)
                    else timer3_lastval t - now) in
      t\<lparr>sys_time := sys_time t + ucast passed, timer3_lastval := now\<rparr>)"

text \<open>
  Timer 4: its byte register is written with bit 8 of the mask, which does not fit. \<open>lo\<close> and \<open>hi\<close> are
  what its registers hold.
\<close>

definition set_debug_timer :: "bool \<Rightarrow> timer_registers \<Rightarrow> timer_registers" where
  "set_debug_timer enable regs = (let old = regs TIMER4_HI_ONOFF;
       byte = (ucast (if enable then TIMER4_ONOFF_MSK else 0) :: u8) in
     regs(TIMER4_HI_ONOFF := (old AND 0xFFFFFF00) OR ucast byte))"

definition get_debug_timer_time :: "u32 \<Rightarrow> u8 \<Rightarrow> u64" where
  "get_debug_timer_time lo hi =
     (let x = ucast lo + push_bit 32 (ucast (hi AND TIMER4_HI_VAL_MSK)) in (100 * x) div 98304)"

definition setup_timer :: "timer_registers \<Rightarrow> timer \<times> timer_registers" where
  "setup_timer regs = (let (t, r) = set_tc3_timer 0xFFFFFFFF True regs in (t, set_debug_timer False r))"

text \<open>The time in milliseconds, in ticks, and in parts for the terminal.\<close>

definition milliseconds :: "timer \<Rightarrow> u32 option" where
  "milliseconds t = do {
     guard_opt (timer3_divisor t \<noteq> 0);
     Some (ucast ((10000 * sys_time t) div ucast (timer3_divisor t)))
   }"

definition get_time :: "u32 \<Rightarrow> timer \<Rightarrow> (timer \<times> u32) option" where
  "get_time now t = (let t' = get_tc3_timer_time now t in map_option (\<lambda>ms. (t', ms)) (milliseconds t'))"

definition read_clockticks :: "u32 \<Rightarrow> timer \<Rightarrow> timer \<times> u32" where
  "read_clockticks now t = (let t' = get_tc3_timer_time now t in (t', ucast (sys_time t')))"

record my_time =
  time_min :: u32
  time_sec :: u32
  time_dsec :: u32

definition get_time_struct :: "u32 \<Rightarrow> timer \<Rightarrow> (timer \<times> my_time \<times> u32) option" where
  "get_time_struct now t = (let t' = get_tc3_timer_time now t in do {
     adjusted_time \<leftarrow> milliseconds t';
     Some (t', \<lparr>time_min = adjusted_time div (60 * 1000), time_sec = (adjusted_time div 1000) mod 60,
       time_dsec = (adjusted_time div 100) mod 10\<rparr>, adjusted_time)
   })"

text \<open>The timer whose interrupts make the ticks of the clock server, 5085 of 508 kHz apart.\<close>

definition TIMER1_BASE :: u32 where "TIMER1_BASE = 0x80810000"
definition LDR_OFFSET :: u32 where "LDR_OFFSET = 0"
definition CTRL_OFFSET :: u32 where "CTRL_OFFSET = 8"
definition CLR_OFFSET :: u32 where "CLR_OFFSET = 12"
definition ENABLE_MASK :: u32 where "ENABLE_MASK = 0x80"
definition MODE_MASK :: u32 where "MODE_MASK = 0x40"
definition CLKSEL_MASK :: u32 where "CLKSEL_MASK = 0x8"

definition interrupt_timer_setup :: "timer_registers \<Rightarrow> timer_registers" where
  "interrupt_timer_setup regs =
     (let c = TIMER1_BASE + CTRL_OFFSET in
      regs(TIMER1_BASE + LDR_OFFSET := 5085, c := regs c OR (ENABLE_MASK OR MODE_MASK OR CLKSEL_MASK)))"

definition interrupt_timer_clear :: "timer_registers \<Rightarrow> timer_registers" where
  "interrupt_timer_clear regs = regs(TIMER1_BASE + CLR_OFFSET := 1)"

definition interrupt_timer_teardown :: "timer_registers \<Rightarrow> timer_registers" where
  "interrupt_timer_teardown regs =
     (let r = interrupt_timer_clear regs; c = TIMER1_BASE + CTRL_OFFSET in r(c := r c AND NOT ENABLE_MASK))"

section \<open>The count of the ticks\<close>

text \<open>The value of the counter \<open>k\<close> ticks after it was loaded with \<open>0xFFFFFFFF\<close>; after 0 comes that again.\<close>

definition tc3_value :: "nat \<Rightarrow> u32" where
  "tc3_value k = - 1 - of_nat k"

lemma unat_tc3_value: "unat (tc3_value k) = 2 ^ 32 - 1 - k mod 2 ^ 32"
proof -
  have m: "k mod 2 ^ 32 < 2 ^ 32" by simp
  have "(of_nat k :: u32) = of_nat (k mod 2 ^ 32)" by (simp add: word_of_nat_eq_iff take_bit_eq_mod)
  then have "tc3_value k = of_nat (2 ^ 32 - 1 - k mod 2 ^ 32)"
    using m by (simp add: tc3_value_def of_nat_diff)
  then show ?thesis using m by (simp only: unat_of_nat) simp
qed

text \<open>Readings at the ticks of a list, each less than one run of the counter after the one before.\<close>

fun close_polls :: "nat \<Rightarrow> nat list \<Rightarrow> bool" where
  "close_polls k [] \<longleftrightarrow> True"
| "close_polls k (k' # ks) \<longleftrightarrow> k \<le> k' \<and> k' < k + 2 ^ 32 \<and> close_polls k' ks"

definition poll_timer :: "nat list \<Rightarrow> timer \<Rightarrow> timer" where
  "poll_timer ks t = fold (\<lambda>k. get_tc3_timer_time (tc3_value k)) ks t"

definition timer_at :: "nat \<Rightarrow> timer \<Rightarrow> bool" where
  "timer_at k t \<longleftrightarrow> timer3_countdown t = 0xFFFFFFFF \<and> timer3_lastval t = tc3_value k \<and>
     sys_time t = of_nat (k - k div 2 ^ 32)"

lemma div_next:
  fixes k k' n :: nat
  assumes "k \<le> k'" "k' < k + n" "0 < n"
  shows "if k' mod n < k mod n then k' div n = k div n + 1 \<and> k' - k = n - k mod n + k' mod n
    else k' div n = k div n \<and> k mod n \<le> k' mod n \<and> k' - k = k' mod n - k mod n"
proof -
  obtain q a where k: "k = q * n + a" "q = k div n" "a = k mod n" by simp
  obtain q' b where k': "k' = q' * n + b" "q' = k' div n" "b = k' mod n" by simp
  have "a < n" using assms(3) k(3) by simp
  then have "k' < (q + 2) * n" using assms(2) k(1) by (simp add: algebra_simps)
  then have "q' < q + 2" unfolding k'(2) by (rule less_mult_imp_div_less)
  moreover have "q \<le> q'" unfolding k(2) k'(2) by (rule div_le_mono [OF assms(1)])
  ultimately consider "q' = q" | "q' = q + 1" by linarith
  then have "if b < a then q' = q + 1 \<and> k' - k = n - a + b else q' = q \<and> a \<le> b \<and> k' - k = b - a"
  proof cases
    case 1
    then show ?thesis using k(1) k'(1) assms(1) by simp
  next
    case 2
    then show ?thesis using k(1) k'(1) assms(2) \<open>a < n\<close> by simp
  qed
  then show ?thesis unfolding k(2,3) k'(2,3) .
qed

lemma timer_at_step:
  assumes t: "timer_at k t" and k: "k \<le> k'" "k' < k + 2 ^ 32"
  shows "timer_at k' (get_tc3_timer_time (tc3_value k') t)"
proof -
  let ?n = "2 ^ 32 :: nat"
  have m: "k mod ?n < ?n" "k' mod ?n < ?n" by simp_all
  note d = div_next [OF k, simplified]
  have gt: "tc3_value k' > tc3_value k \<longleftrightarrow> k' mod ?n < k mod ?n"
    using m by (simp add: word_less_nat_alt unat_tc3_value) linarith
  define passed where "passed = (if tc3_value k' > tc3_value k
    then tc3_value k + (0xFFFFFFFF - tc3_value k') else tc3_value k - tc3_value k')"
  have top: "(0xFFFFFFFF :: u32) = - 1" by simp
  have p: "passed = of_nat (k' - k - (if k' mod ?n < k mod ?n then 1 else 0))"
  proof (cases "k' mod ?n < k mod ?n")
    case True
    then have "1 \<le> k' - k" using d m(1) by simp
    then show ?thesis using True k(1) unfolding passed_def gt by (simp add: tc3_value_def of_nat_diff)
  next
    case False
    then show ?thesis using k(1) unfolding passed_def gt by (simp add: tc3_value_def of_nat_diff)
  qed
  have "unat passed = k' - k - (if k' mod ?n < k mod ?n then 1 else 0)"
    using k unfolding p by (simp only: unat_of_nat) simp
  then have u: "(ucast passed :: u64) = of_nat (k' - k - (if k' mod ?n < k mod ?n then 1 else 0))"
    by (metis of_nat_unat)
  have "k - k div ?n + (k' - k - (if k' mod ?n < k mod ?n then 1 else 0)) = k' - k' div ?n"
  proof (cases "k' mod ?n < k mod ?n")
    case True
    then have "k' div ?n = k div ?n + 1" "1 \<le> k' - k" using d m(1) by simp_all
    then show ?thesis using True div_le_dividend [of k ?n] by simp
  next
    case False
    then have "k' div ?n = k div ?n" using d by simp
    then show ?thesis using False k(1) div_le_dividend [of k ?n] by simp
  qed
  note total = arg_cong [OF this, where f = "of_nat :: nat \<Rightarrow> u64", unfolded of_nat_add]
  have "get_tc3_timer_time (tc3_value k') t =
      t\<lparr>sys_time := sys_time t + ucast passed, timer3_lastval := tc3_value k'\<rparr>"
    using t by (simp add: get_tc3_timer_time_def timer_at_def passed_def)
  moreover have "sys_time t + ucast passed = of_nat (k' - k' div ?n)"
    using t total unfolding timer_at_def u by (simp only:)
  ultimately show ?thesis using t by (simp add: timer_at_def)
qed

section \<open>Properties\<close>

text \<open>
  C29: the clock of the kernel follows the time: after any number of readings, each within one run of the
  counter (2 hours and 20 minutes) of the one before, the 64-bit count is the number of ticks since the
  start, less one for each time the counter has run through, because the step from 0 to \<open>0xFFFFFFFF\<close> is
  not counted.
\<close>

theorem timer_counts:
  assumes "close_polls 0 ks"
  shows "sys_time (poll_timer ks (fst (setup_timer regs))) =
    of_nat (last (0 # ks) - last (0 # ks) div 2 ^ 32)"
proof -
  have "timer_at (last (k # ks)) (poll_timer ks t)" if "timer_at k t" "close_polls k ks" for k ks t
    using that
  proof (induction ks arbitrary: k t)
    case (Cons k' ks)
    then have "timer_at k' (get_tc3_timer_time (tc3_value k') t)" by (simp add: timer_at_step)
    from Cons.IH [OF this] Cons.prems(2) show ?case by (simp add: poll_timer_def)
  qed (simp add: poll_timer_def)
  moreover have "timer_at 0 (fst (setup_timer regs))"
    by (simp add: timer_at_def setup_timer_def set_tc3_timer_def Let_def tc3_value_def)
  ultimately show ?thesis using assms unfolding timer_at_def by blast
qed

theorem timer_counts_witness:
  "sys_time (poll_timer [5, 2 ^ 32 - 3, 2 ^ 32 + 7] (fst (setup_timer (\<lambda>_. 0)))) = 4294967302"
  using timer_counts [of "[5, 2 ^ 32 - 3, 2 ^ 32 + 7]" "\<lambda>_. 0"] by simp

text \<open>The debug timer cannot be switched on: the bit for it does not fit into the byte that is written.\<close>

lemma debug_timer_stays_off: "set_debug_timer True regs = set_debug_timer False regs"
  by (simp add: set_debug_timer_def TIMER4_ONOFF_MSK_def)

end
