(* ===== verification/Board.thy ===== *)
theory Board
  imports Timer Console_IO Kernel_Properties
begin

text \<open>
  The board around the kernel: the interrupt controllers (\<open>kernel/src/vic.c\<close>), the interrupt registers
  of the UARTs (\<open>kernel/src/iio.c\<close>, \<open>include/myio.c\<close>), and what \<open>main.c\<close> sets up before the scheduling
  loop and takes down after it. The registers are one map from addresses, shared with \<open>Console_IO\<close> and
  \<open>Timer\<close>, and behave as memory. The theorems: every interrupt the boot lets through belongs to an
  event, and after the end of the kernel every source is off again.
\<close>

section \<open>The interrupt controllers\<close>

definition VIC1_BASE :: u32 where "VIC1_BASE = 0x800B0000"
definition VIC2_BASE :: u32 where "VIC2_BASE = 0x800C0000"
definition VIC1_ENABLE_OFFSET :: u32 where "VIC1_ENABLE_OFFSET = 0x10"
definition VIC2_ENABLE_OFFSET :: u32 where "VIC2_ENABLE_OFFSET = 0x10"
definition VIC1_INTCLR_OFFSET :: u32 where "VIC1_INTCLR_OFFSET = 0x14"
definition VIC2_INTCLR_OFFSET :: u32 where "VIC2_INTCLR_OFFSET = 0x14"
definition VIC2_UART1MOD_MASK :: u32 where "VIC2_UART1MOD_MASK = 0x00100000"
definition VIC2_UART2MOD_MASK :: u32 where "VIC2_UART2MOD_MASK = 0x00400000"
definition UART1_BIT :: int where "UART1_BIT = 52"

text \<open>The register of a bit, at one offset or the other, and the bit within it.\<close>

definition vic_register :: "u32 \<Rightarrow> u32 \<Rightarrow> int \<Rightarrow> u32 \<times> int" where
  "vic_register offset1 offset2 n =
     (if n < 32 then (VIC1_BASE + offset1, n) else (VIC2_BASE + offset2, n - 32))"

text \<open>\<open>1 << bit\<close> is a shift of an \<open>int\<close>.\<close>

definition shifted_one :: "int \<Rightarrow> u32 option" where
  "shifted_one n = (if 0 \<le> n \<and> n < 31 then Some (push_bit (nat n) 1) else None)"

definition enable_vic_bit :: "int \<Rightarrow> registers \<Rightarrow> registers option" where
  "enable_vic_bit n regs =
     (if n = -1 then Some regs
      else case vic_register VIC1_ENABLE_OFFSET VIC2_ENABLE_OFFSET n of (reg, b) \<Rightarrow>
        map_option (\<lambda>one. regs(reg := regs reg OR one)) (shifted_one b))"

definition disable_vic_bit :: "int \<Rightarrow> registers \<Rightarrow> registers option" where
  "disable_vic_bit n regs =
     (if n = -1 then Some regs
      else case vic_register VIC1_ENABLE_OFFSET VIC2_ENABLE_OFFSET n of (reg, b) \<Rightarrow>
        map_option (\<lambda>one. regs(reg := regs reg AND NOT one)) (shifted_one b))"

definition enable_in_vic :: "int \<Rightarrow> registers \<Rightarrow> registers option" where
  "enable_in_vic e regs = enable_vic_bit (event_id_to_vic_bit e) regs"

definition disable_in_vic :: "int \<Rightarrow> registers \<Rightarrow> registers option" where
  "disable_in_vic e regs = disable_vic_bit (event_id_to_vic_bit e) regs"

definition clear_in_vic :: "int \<Rightarrow> registers \<Rightarrow> registers option" where
  "clear_in_vic e regs = (let n = event_id_to_vic_bit e in
     if n = -1 then Some regs
     else case vic_register VIC1_INTCLR_OFFSET VIC2_INTCLR_OFFSET n of (reg, b) \<Rightarrow>
       map_option (\<lambda>one. regs(reg := regs reg OR one)) (shifted_one b))"

definition vic_maskall :: "registers \<Rightarrow> registers" where
  "vic_maskall regs = regs(VIC1_BASE + VIC1_ENABLE_OFFSET := 0, VIC2_BASE + VIC2_ENABLE_OFFSET := 0,
     VIC1_BASE + VIC1_INTCLR_OFFSET := 0xFFFFFFFF, VIC2_BASE + VIC2_INTCLR_OFFSET := 0xFFFFFFFF)"

text \<open>The masks of the events that \<open>setup_vic\<close> stores are \<open>event_masks\<close>.\<close>

definition setup_vic :: "registers \<Rightarrow> registers option" where
  "setup_vic regs = do {
     r1 \<leftarrow> enable_in_vic TIMER_INTERRUPT (vic_maskall regs);
     r2 \<leftarrow> enable_in_vic TRAIN_TX_INTERRUPT r1;
     r3 \<leftarrow> enable_in_vic TRAIN_RX_INTERRUPT r2;
     r4 \<leftarrow> enable_in_vic TERMINAL_TX_INTERRUPT r3;
     r5 \<leftarrow> enable_in_vic TERMINAL_RX_INTERRUPT r4;
     enable_vic_bit UART1_BIT r5
   }"

section \<open>The interrupts of the UARTs\<close>

definition UART_CTLR_OFFSET :: u32 where "UART_CTLR_OFFSET = 0x14"
definition UART_INTR_OFFSET :: u32 where "UART_INTR_OFFSET = 0x1c"
definition UARTRTINTR_MASK :: u32 where "UARTRTINTR_MASK = 0x08"

fun set_uart_control :: "int \<times> u32 \<times> bool \<Rightarrow> registers \<Rightarrow> registers option" where
  "set_uart_control (channel, m, enable) regs = do {
     base \<leftarrow> uart_base channel;
     let reg = base + UART_CTLR_OFFSET;
     Some (regs(reg := if enable then regs reg OR m else regs reg AND NOT m))
   }"

fun set_uart_controls :: "(int \<times> u32 \<times> bool) list \<Rightarrow> registers \<Rightarrow> registers option" where
  "set_uart_controls [] regs = Some regs"
| "set_uart_controls (c # cs) regs = do { r \<leftarrow> set_uart_control c regs; set_uart_controls cs r }"

text \<open>With the registers the two notes of the state of the train's line, which start at 0.\<close>

definition setup_iio :: "registers \<Rightarrow> (registers \<times> int \<times> int) option" where
  "setup_iio regs = map_option (\<lambda>r. (r, 0, 0)) (set_uart_controls (enable_io_interrupts True) regs)"

definition desetup_iio :: "registers \<Rightarrow> registers option" where
  "desetup_iio regs = set_uart_controls (enable_io_interrupts False) regs"

definition interrupt_modem_clear :: "registers \<Rightarrow> registers" where
  "interrupt_modem_clear regs = regs(UART1_BASE + UART_INTR_OFFSET := 1)"

definition get_modem_interrupt_bits :: "registers \<Rightarrow> int" where
  "get_modem_interrupt_bits regs = sint (regs VIC2_BASE AND VIC2_UART1MOD_MASK)"

definition is_rt_interrupt :: "registers \<Rightarrow> bool" where
  "is_rt_interrupt regs \<longleftrightarrow> regs VIC2_BASE AND VIC2_UART2MOD_MASK \<noteq> 0 \<and>
     regs (UART2_BASE + UART_INTR_OFFSET) AND UARTRTINTR_MASK \<noteq> 0"

section \<open>Boot and end\<close>

text \<open>The addresses of the handlers: undefined instruction, trap and interrupt, prefetch, data abort.\<close>

record handlers =
  hd_undefined :: u32
  hd_enter_kernel :: u32
  hd_prefetch :: u32
  hd_data :: u32

definition install_handlers :: "handlers \<Rightarrow> registers \<Rightarrow> registers" where
  "install_handlers h regs = regs(0x24 := hd_undefined h, 0x28 := hd_enter_kernel h, 0x2C := hd_prefetch h,
     0x30 := hd_data h, 0x38 := hd_enter_kernel h)"

text \<open>What \<open>kmain\<close> does to the registers, in its order; the state of the kernel is in \<open>kmain_boot\<close>.\<close>

definition kmain_hardware :: "handlers \<Rightarrow> registers \<Rightarrow> (timer \<times> registers) option" where
  "kmain_hardware h regs = do {
     r1 \<leftarrow> setup_vic (setup_io regs);
     (r2, _, _) \<leftarrow> setup_iio (interrupt_timer_setup r1);
     Some (setup_timer (install_handlers h r2))
   }"

text \<open>What \<open>main\<close> does to them after the loop.\<close>

definition main_shutdown :: "registers \<Rightarrow> registers option" where
  "main_shutdown regs = do {
     let r1 = (vic_maskall regs)(VIC1_BASE + VIC1_ENABLE_OFFSET := 0, VIC2_BASE + VIC2_ENABLE_OFFSET := 0);
     desetup_iio (interrupt_timer_teardown r1)
   }"

text \<open>What it prints there of the counters of the kernel; the usage of the tasks follows.\<close>

definition main_report :: "'a kernel_scheme \<Rightarrow> chars option" where
  "main_report s = do {
     a \<leftarrow> bwprintf (str_line ''Total number of context switches: %d'') [ARG_INT (k_num_ctx_sw s)];
     b \<leftarrow> bwprintf (str_line ''Total number of syscalls: %d'') [ARG_INT (k_num_syscalls_total s)];
     c \<leftarrow> bwprintf (str_line ''Number of syscalls by code:'') [];
     d \<leftarrow> bwprintf (str_line (''Code'' @ [CHR 9] @ ''Count'')) [];
     e \<leftarrow> those (map (\<lambda>i. bwprintf (str_line (''%d'' @ [CHR 9] @ ''%d''))
       [ARG_INT (int i), ARG_INT (k_num_syscalls s i)]) [0..<NUM_SYSCALL_CODES]);
     Some (a @ b @ c @ d @ concat e)
   }"

section \<open>What the boot lets through\<close>

lemmas vic_defs = VIC1_BASE_def VIC2_BASE_def VIC1_ENABLE_OFFSET_def VIC2_ENABLE_OFFSET_def VIC1_INTCLR_OFFSET_def
  VIC2_INTCLR_OFFSET_def

lemmas uart_defs = UART1_BASE_def UART2_BASE_def UART_CTLR_OFFSET_def UART_LCRM_OFFSET_def UART_LCRL_OFFSET_def
  UART_LCRH_OFFSET_def UART_RSR_OFFSET_def

lemmas timer_defs = TIMER1_BASE_def LDR_OFFSET_def CTRL_OFFSET_def CLR_OFFSET_def TIMER3_LOAD_def TIMER3_CTRL_def
  TIMER4_HI_ONOFF_def ENABLE_MASK_def MODE_MASK_def CLKSEL_MASK_def

lemma setup_vic_enables:
  "\<exists>r. setup_vic regs = Some r \<and> r (VIC1_BASE + VIC1_ENABLE_OFFSET) = 0x07800010 \<and>
     r (VIC2_BASE + VIC2_ENABLE_OFFSET) = 0x00100000"
  by (simp add: setup_vic_def enable_in_vic_def enable_vic_bit_def vic_register_def shifted_one_def vic_maskall_def
      vic_defs event_id_to_vic_bit_def UART1_BIT_def push_bit_eq_mult)

text \<open>The steps after it leave the controllers alone.\<close>

lemma set_uart_controls_other:
  assumes "set_uart_controls cs regs = Some r" "a \<noteq> UART1_BASE + UART_CTLR_OFFSET" "a \<noteq> UART2_BASE + UART_CTLR_OFFSET"
  shows "r a = regs a"
  using assms(1)
proof (induction cs arbitrary: regs)
  case (Cons c cs)
  then show ?case using assms(2,3)
    by (cases c) (auto simp: uart_base_def Let_def split: bind_splits if_splits)
qed simp

lemma kmain_hardware_vic:
  assumes "kmain_hardware h regs = Some (t, r)"
  shows "r (VIC1_BASE + VIC1_ENABLE_OFFSET) = 0x07800010" "r (VIC2_BASE + VIC2_ENABLE_OFFSET) = 0x00100000"
proof -
  obtain v where v: "setup_vic (setup_io regs) = Some v" "v (VIC1_BASE + VIC1_ENABLE_OFFSET) = 0x07800010"
    "v (VIC2_BASE + VIC2_ENABLE_OFFSET) = 0x00100000" using setup_vic_enables by blast
  then obtain u where u: "set_uart_controls (enable_io_interrupts True) (interrupt_timer_setup v) = Some u"
    "r = snd (setup_timer (install_handlers h u))"
    using assms by (auto simp: kmain_hardware_def setup_iio_def split: bind_splits)
  have "u a = v a" if "a \<in> {VIC1_BASE + VIC1_ENABLE_OFFSET, VIC2_BASE + VIC2_ENABLE_OFFSET}" for a
    using set_uart_controls_other [OF u(1), of a] that
    by (auto simp: interrupt_timer_setup_def Let_def vic_defs uart_defs timer_defs)
  then show "r (VIC1_BASE + VIC1_ENABLE_OFFSET) = 0x07800010" "r (VIC2_BASE + VIC2_ENABLE_OFFSET) = 0x00100000"
    using u(2) v(2,3)
    by (simp_all add: setup_timer_def set_tc3_timer_def set_debug_timer_def install_handlers_def Let_def vic_defs
        timer_defs)
qed

lemma enabled_bits: "bit (0x07800010 :: u32) n \<longleftrightarrow> n \<in> {4, 23, 24, 25, 26}"
proof (cases "n < 32")
  case True
  have "list_all (\<lambda>n. bit (0x07800010 :: u32) n \<longleftrightarrow> n \<in> {4, 23, 24, 25, 26}) [0..<32]" by code_simp
  then show ?thesis using True by (simp only: list_all_iff set_upt) auto
qed (auto dest: bit_imp_le_length)

lemma event_mask_bits: "list_all (\<lambda>e. event_masks e = push_bit (nat (event_id_to_vic_bit (int e))) 1 \<and>
    event_id_to_vic_bit (int e) \<in> {4, 23, 24, 25, 26}) [0..<5]"
  by code_simp

lemma event_mask_bit:
  assumes "e < 5"
  shows "status AND event_masks e \<noteq> 0 \<longleftrightarrow> bit status (nat (event_id_to_vic_bit (int e)))"
    "event_id_to_vic_bit (int e) \<in> {4, 23, 24, 25, 26}"
proof -
  have m: "event_masks e = push_bit (nat (event_id_to_vic_bit (int e))) 1" and
    "event_id_to_vic_bit (int e) \<in> {4, 23, 24, 25, 26}"
    using event_mask_bits assms by (simp_all only: list_all_iff set_upt atLeastLessThan_iff) auto
  then show "event_id_to_vic_bit (int e) \<in> {4, 23, 24, 25, 26}" by simp
  show "status AND event_masks e \<noteq> 0 \<longleftrightarrow> bit status (nat (event_id_to_vic_bit (int e)))"
    unfolding m by (simp add: push_bit_eq_mult and_exp_eq_0_iff_not_bit)
qed

text \<open>The events by their bits.\<close>

lemma event_of_bit: "n \<in> {4, 23, 24, 25, 26} \<Longrightarrow> \<exists>e < 5. nat (event_id_to_vic_bit (int e)) = n"
proof -
  have "list_all (\<lambda>n. list_ex (\<lambda>e. nat (event_id_to_vic_bit (int e)) = n) [0..<5]) [4, 23, 24, 25, 26]" by code_simp
  then show "n \<in> {4, 23, 24, 25, 26} \<Longrightarrow> \<exists>e < 5. nat (event_id_to_vic_bit (int e)) = n"
    by (auto simp: list_all_iff list_ex_iff)
qed

text \<open>
  C28: after the boot an interrupt of the first controller that is enabled belongs to an event: whatever
  the status word, when an enabled bit is set in it, \<open>get_highest_vic_bit_event_id\<close> answers with an event
  whose own bit is enabled and set; and the bit of each of the five events is enabled.
\<close>

theorem interrupts_have_events:
  assumes "kmain_hardware h regs = Some (t, r)" "status AND r (VIC1_BASE + VIC1_ENABLE_OFFSET) \<noteq> 0"
  shows "(\<exists>e. get_highest_vic_bit_event_id status = int e \<and> e < 5 \<and>
      bit (status AND r (VIC1_BASE + VIC1_ENABLE_OFFSET)) (nat (event_id_to_vic_bit (int e)))) \<and>
    list_all (\<lambda>e. bit (r (VIC1_BASE + VIC1_ENABLE_OFFSET)) (nat (event_id_to_vic_bit (int e)))) [0..<5]"
proof -
  note en = kmain_hardware_vic(1) [OF assms(1)]
  have all: "\<forall>e < 5. bit (r (VIC1_BASE + VIC1_ENABLE_OFFSET)) (nat (event_id_to_vic_bit (int e)))"
    unfolding en enabled_bits using event_mask_bit(2) by fastforce
  obtain n where n: "bit status n" "n \<in> {4, 23, 24, 25, 26}"
  proof -
    have "\<exists>n. bit w n" if "w \<noteq> 0" for w :: u32 using that by (rule contrapos_np) (simp add: bit_eq_iff)
    from this [OF assms(2)] obtain n where "bit status n" "bit (0x07800010 :: u32) n"
      unfolding en bit_and_iff by blast
    then show ?thesis using that unfolding enabled_bits by blast
  qed
  then obtain e where e: "e < 5" "status AND event_masks e \<noteq> 0" using event_of_bit event_mask_bit(1) by metis
  then have "find (\<lambda>i. status AND event_masks i \<noteq> 0) [0..<5] \<noteq> None" by (auto simp: find_None_iff)
  then obtain f where f: "find (\<lambda>i. status AND event_masks i \<noteq> 0) [0..<5] = Some f" by blast
  then have "f < 5" "status AND event_masks f \<noteq> 0" by (auto simp: find_Some_iff)
  then show ?thesis
    using f all event_mask_bit(1) by (auto simp: get_highest_vic_bit_event_id_def bit_and_iff list_all_iff)
qed

lemma set_uart_controls_Some: "\<exists>r. set_uart_controls (enable_io_interrupts en) regs = Some r"
  by (simp add: enable_io_interrupts_def uart_base_def Let_def)

lemma kmain_hardware_Some: "\<exists>t r. kmain_hardware h regs = Some (t, r)"
proof -
  obtain v where v: "setup_vic (setup_io regs) = Some v" using setup_vic_enables by blast
  obtain u where "set_uart_controls (enable_io_interrupts True) (interrupt_timer_setup v) = Some u"
    using set_uart_controls_Some by blast
  with v show ?thesis by (simp add: kmain_hardware_def setup_iio_def)
qed

lemma interrupts_have_events_witness:
  "\<exists>t r e. kmain_hardware (handlers.make 1 2 3 4) (\<lambda>_. 0) = Some (t, r) \<and>
     get_highest_vic_bit_event_id 0x10 = int e \<and> e < 5"
proof -
  obtain t r where r: "kmain_hardware (handlers.make 1 2 3 4) (\<lambda>_. 0) = Some (t, r)" using kmain_hardware_Some by blast
  have "(0x10 :: u32) AND r (VIC1_BASE + VIC1_ENABLE_OFFSET) \<noteq> 0" unfolding kmain_hardware_vic(1) [OF r] by simp
  from interrupts_have_events [OF r this] r show ?thesis by blast
qed


text \<open>
  At the end of \<open>main\<close>, whatever the registers held, no source interrupts any more: both controllers
  are masked, the tick timer is off, and the UARTs raise nothing for sending, receiving or the modem.
\<close>

theorem interrupts_off_at_end:
  "\<exists>r. main_shutdown regs = Some r \<and>
     r (VIC1_BASE + VIC1_ENABLE_OFFSET) = 0 \<and> r (VIC2_BASE + VIC2_ENABLE_OFFSET) = 0 \<and>
     r (TIMER1_BASE + CTRL_OFFSET) AND ENABLE_MASK = 0 \<and>
     r (UART1_BASE + UART_CTLR_OFFSET) AND 0x38 = 0 \<and> r (UART2_BASE + UART_CTLR_OFFSET) AND 0x30 = 0"
proof -
  have off: "w AND NOT 0x20 AND NOT 0x10 AND NOT 0x08 AND 0x38 = (0 :: u32)"
    "w AND NOT 0x20 AND NOT 0x10 AND 0x30 = (0 :: u32)" "w AND NOT 0x80 AND 0x80 = (0 :: u32)" for w
    by (simp_all add: word_bw_assocs)
  show ?thesis
    by (simp add: main_shutdown_def desetup_iio_def enable_io_interrupts_def uart_base_def Let_def vic_maskall_def
        interrupt_timer_teardown_def interrupt_timer_clear_def vic_defs uart_defs timer_defs
        Client_Calls.TRAIN_def Client_Calls.TERMINAL_def off word_bw_assocs)
qed


end
