(* ===== verification/Crash.thy ===== *)
theory Crash
  imports Board Views
begin

text \<open>
  What is printed when something fails: the assertions of the kernel (\<open>kernel/src/kassert.c\<close>) and of the
  tasks (\<open>lib/codes.c\<close>), the abort handler (\<open>kernel/src/handle_abort.c\<close>), the frame of a task
  (\<open>kernel/src/interrupt.c\<close>), the usage of the tasks (\<open>lib/usage_stats.c\<close>); and the statistics of the
  message benchmark (\<open>lib/benchmark.c\<close>). Text is the list of its bytes, without the final NUL. The
  theorem: the first abort is reported with everything logged before it, masks the interrupts, and leaves
  nothing to be printed again.
\<close>

section \<open>Assertions\<close>

definition assertion_text :: "chars \<Rightarrow> chars \<Rightarrow> chars \<Rightarrow> int \<Rightarrow> chars option" where
  "assertion_text expression caller_name file_name line_num =
     bwprintf (str_line (ESC @ ''31mAssertion failed! '' @ [CHR 34] @ ''%s'' @ [CHR 34] @ '' in function '' @
         [CHR 34] @ ''%s'' @ [CHR 34] @ '' at %s:%d'' @ ESC @ ''39m''))
       [ARG_STRING expression, ARG_STRING caller_name, ARG_STRING file_name, ARG_INT line_num]"

text \<open>What is printed, the log after it, and whether the kernel ends; not in the \<open>DEMO\<close> build.\<close>

definition kassert :: "bool \<Rightarrow> chars \<Rightarrow> chars \<Rightarrow> chars \<Rightarrow> int \<Rightarrow> chars \<Rightarrow> (chars \<times> chars \<times> bool) option" where
  "kassert ok expression caller_name file_name line_num log =
     (if ok then Some ([], log, False)
      else map_option (\<lambda>t. (log @ t, [], True)) (assertion_text expression caller_name file_name line_num))"

text \<open>\<open>Assert\<close> is the same for a task, which ends the kernel with \<open>SYS_PANIC\<close>.\<close>

definition Assert :: "bool \<Rightarrow> chars \<Rightarrow> chars \<Rightarrow> chars \<Rightarrow> int \<Rightarrow> chars \<Rightarrow> (chars \<times> chars \<times> bool) option" where
  "Assert ok expression caller_name file_name line_num log =
     (if \<not> ok then map_option (\<lambda>t. (log @ t, [], True)) (assertion_text expression caller_name file_name line_num)
      else Some ([], log, False))"

definition nameserver_panic :: "chars \<Rightarrow> int \<Rightarrow> chars \<Rightarrow> (chars \<times> chars) option" where
  "nameserver_panic c msg_type log =
     map_option (\<lambda>t. (log @ t, []))
       (bwprintf (str_line (''Got '' @ [CHR 39] @ ''W'' @ [CHR 39] @ '' from the nameserver. c = %s, msg_type = %d''))
         [ARG_STRING c, ARG_INT msg_type])"

section \<open>Aborts\<close>

definition log_row :: "u32 list \<Rightarrow> chars \<Rightarrow> chars" where
  "log_row rs log = fold logputc [10, 13] (fold logputr rs log)"

definition print_tf :: "trapframe \<Rightarrow> chars \<Rightarrow> chars" where
  "print_tf tf log = fold log_row
     [[tf_r0 tf, tf_r1 tf, tf_r2 tf, tf_r3 tf], [tf_r4 tf, tf_r5 tf, tf_r6 tf, tf_r7 tf],
      [tf_r8 tf, tf_r9 tf, tf_r10 tf, tf_fp tf],
      [tf_ip tf, tf_sp tf, tf_lr tf, tf_pc tf, tf_k_lr tf, tf_psr tf]] log"

definition PROC_MODE_MASK :: u32 where "PROC_MODE_MASK = 0x1F"

definition proc_mode_name :: "u32 \<Rightarrow> string" where
  "proc_mode_name m =
     (if m = 0x10 then ''User'' else if m = 0x11 then ''FIQ'' else if m = 0x12 then ''IRQ''
      else if m = 0x13 then ''Supervisor'' else if m = 0x17 then ''Abort'' else if m = 0x1B then ''Undefined''
      else if m = 0x1F then ''System'' else ''Unknown'')"

definition print_proc_mode :: "u32 \<Rightarrow> chars option" where
  "print_proc_mode m = bwprintf (str_line ''Processor mode: %s'') [text_arg (proc_mode_name m)]"

datatype abort_mode = UNDEFINED | PREFETCH_ABORT | DATA_ABORT

fun abort_offset :: "abort_mode \<Rightarrow> u32" where
  "abort_offset UNDEFINED = -4"
| "abort_offset PREFETCH_ABORT = -4"
| "abort_offset DATA_ABORT = -8"

fun abort_type_str :: "abort_mode \<Rightarrow> string" where
  "abort_type_str UNDEFINED = ''Undefined''"
| "abort_type_str PREFETCH_ABORT = ''Prefetch abort''"
| "abort_type_str DATA_ABORT = ''Data abort''"

text \<open>
  The shares are computed in floating point: \<open>runtime\<close> is the time of all tasks, \<open>ms i\<close> and \<open>scaled i\<close>
  the milliseconds of the task with tid \<open>i\<close> and its share in tenths of a percent.
\<close>

definition print_usage :: "u32 \<Rightarrow> (nat \<Rightarrow> u32) \<Rightarrow> (nat \<Rightarrow> u32) \<Rightarrow> int \<Rightarrow> chars option" where
  "print_usage runtime ms scaled max_tid = do {
     t \<leftarrow> bwprintf (str_line ''TOTAL: %d'') [ARG_INT (sint runtime)];
     ts \<leftarrow> those (map (\<lambda>i. bwprintf (str_line (''%d: '' @ [CHR 9] @ ''%dms '' @ [CHR 9, CHR 9] @ ''(%d.%d%%)''))
       [ARG_INT (int i), ARG_INT (sint (ms i)), ARG_INT (sint (scaled i div 10)), ARG_INT (sint (scaled i mod 10))])
       [0..<nat (max_tid + 1)]);
     Some (t @ concat ts)
   }"

text \<open>
  \<open>handle_abort\<close>: a second abort ends in an empty loop. \<open>cpsr\<close> is the status register, \<open>usage\<close> what
  \<open>print_usage\<close> prints. The result: the number of aborts, the registers, the text, and the log.
\<close>

definition abort_log :: "int \<Rightarrow> int \<Rightarrow> trapframe \<Rightarrow> chars \<Rightarrow> chars option" where
  "abort_log num_ctx_sw tid tf log = do {
     l1 \<leftarrow> logprintf [10, 13, 10, 13, 10, 13, 0] [] log;
     l2 \<leftarrow> logprintf (str_line ''Num ctx sw: %d'') [ARG_INT num_ctx_sw] l1;
     l3 \<leftarrow> logprintf (str_line ''Abort task id: %d'') [ARG_INT tid] l2;
     Some (print_tf tf l3)
   }"

definition abort_report :: "abort_mode \<Rightarrow> u32 \<Rightarrow> u32 \<Rightarrow> chars option" where
  "abort_report abort_type culprit_instruction cpsr = do {
     a \<leftarrow> bwprintf (str_line (ESC @ ''94m'' @ ESC @ ''5mReceived abort'' @ ESC @ ''25m'' @ ESC @ ''39m type: %s''))
       [text_arg (abort_type_str abort_type)];
     b \<leftarrow> print_proc_mode (cpsr AND PROC_MODE_MASK);
     c \<leftarrow> bwprintf (str_line ''CPSR: 0x%x'') [ARG_UNSIGNED cpsr];
     d \<leftarrow> bwprintf (str_line ''Offending address: 0x%x'')
       [ARG_UNSIGNED (culprit_instruction + abort_offset abort_type)];
     Some (a @ b @ c @ d)
   }"

definition handle_abort ::
  "int \<Rightarrow> int \<Rightarrow> u32 \<Rightarrow> chars option \<Rightarrow> abort_mode \<Rightarrow> u32 \<Rightarrow> trapframe \<Rightarrow> int \<Rightarrow> registers \<Rightarrow> chars \<Rightarrow>
   (int \<times> registers \<times> chars \<times> chars) option" where
  "handle_abort num_ctx_sw tid cpsr usage abort_type culprit_instruction tf num_aborts regs log = do {
     guard_opt (num_aborts + 1 \<le> 1);
     let r = regs(VIC1_BASE + VIC1_ENABLE_OFFSET := 0, VIC2_BASE + VIC2_ENABLE_OFFSET := 0);
     dumped \<leftarrow> abort_log num_ctx_sw tid tf log;
     u \<leftarrow> usage;
     t \<leftarrow> abort_report abort_type culprit_instruction cpsr;
     Some (num_aborts + 1, r, dumped @ u @ t, [])
   }"

section \<open>The benchmark\<close>

type_synonym i16 = "16 word"

definition NUM_MSG :: nat where "NUM_MSG = 2"
definition NUM_TIMEPOINTS :: nat where "NUM_TIMEPOINTS = 11"

definition get_avg :: "i16 list \<Rightarrow> i16 option" where
  "get_avg a = do {
     guard_opt (length a = NUM_MSG);
     Some (of_int ((\<Sum>x\<leftarrow>a. sint x) sdiv int NUM_MSG))
   }"

definition get_worst :: "i16 list \<Rightarrow> i16 option" where
  "get_worst a = do {
     guard_opt (length a = NUM_MSG);
     Some (fold (\<lambda>x worst. if sint worst < sint x then x else worst) a 0)
   }"

definition get_worst_index :: "i16 list \<Rightarrow> i16 option" where
  "get_worst_index a = do {
     guard_opt (length a = NUM_MSG);
     Some (snd (fold (\<lambda>i (worst, index). if sint worst < sint (a ! i) then (a ! i, of_nat i) else (worst, index))
       [0..<NUM_MSG] (0, 0)))
   }"

text \<open>The division by 1.0 in \<open>double\<close> is exact; a result that is no \<open>int16_t\<close> is undefined.\<close>

definition squared_difference :: "int \<Rightarrow> i16 \<Rightarrow> int option" where
  "squared_difference avg x = int32 ((sint x - avg) * (sint x - avg))"

definition get_variance :: "i16 list \<Rightarrow> i16 option" where
  "get_variance a = do {
     avg \<leftarrow> get_avg a;
     squares \<leftarrow> those (map (squared_difference (sint avg)) a);
     acc \<leftarrow> int32 (sum_list squares);
     guard_opt (acc < 2 ^ 15);
     Some (of_int acc)
   }"

definition zip_subtract :: "i16 list \<Rightarrow> i16 list \<Rightarrow> i16 list" where
  "zip_subtract arg1 arg2 = map (\<lambda>(x, y). let d = y - x in if sint d < 0 then - d else d) (zip arg1 arg2)"

record measurement =
  m_data :: "i16 list"
  m_name :: chars
  m_avg :: i16
  m_worst :: i16
  m_worst_index :: i16
  m_var :: i16

definition process_measurement :: "i16 list \<Rightarrow> i16 list \<Rightarrow> chars \<Rightarrow> measurement option" where
  "process_measurement data1 data2 name = do {
     let d = zip_subtract data1 data2;
     avg \<leftarrow> get_avg d;
     worst \<leftarrow> get_worst d;
     worst_index \<leftarrow> get_worst_index d;
     var \<leftarrow> get_variance d;
     Some \<lparr>m_data = d, m_name = take 32 name, m_avg = avg, m_worst = worst, m_worst_index = worst_index, m_var = var\<rparr>
   }"

definition measurement_names :: "string \<Rightarrow> measurement \<Rightarrow> print" where
  "measurement_names fmt m = (str fmt, [ARG_STRING (m_name m), ARG_STRING (m_name m), ARG_STRING (m_name m)])"

definition measurement_values :: "string \<Rightarrow> measurement \<Rightarrow> print" where
  "measurement_values fmt m = (str fmt, [ARG_INT (sint (m_avg m)), ARG_INT (sint (m_worst m)), ARG_INT (sint (m_var m))])"

definition print_measurement_array :: "measurement list \<Rightarrow> print list option" where
  "print_measurement_array mms = do {
     guard_opt (length mms \<ge> NUM_TIMEPOINTS - 1);
     let (front, m) = (take (NUM_TIMEPOINTS - 2) mms, mms ! (NUM_TIMEPOINTS - 2));
     Some (map (measurement_names ''%savg, %sworst, %svar, '') front @
       [measurement_names (''%sAvg, %sWorst, %sVar'' @ [CHR 10, CHR 13]) m] @
       map (measurement_values ''%d, %d, %d, '') front @
       [measurement_values (''%d, %d, %d'' @ [CHR 10, CHR 13]) m])
   }"

section \<open>What the handler leaves\<close>

lemma fold_appends:
  assumes "\<And>x log. \<exists>rest. f x log = log @ rest"
  shows "\<exists>rest. fold f xs log = log @ rest"
proof (induction xs arbitrary: log)
  case (Cons x xs)
  obtain r1 where "f x log = log @ r1" using assms by blast
  moreover obtain r2 where "fold f xs (log @ r1) = (log @ r1) @ r2" using Cons.IH by blast
  ultimately show ?case by simp
qed simp

lemma logputc_appends: "\<exists>rest. fold logputc cs log = log @ rest"
  by (rule fold_appends) (simp add: logputc_def)

lemma print_tf_appends: "\<exists>rest. print_tf tf log = log @ rest"
proof -
  have "\<exists>rest. log_row rs log = log @ rest" for rs log
  proof -
    obtain r1 where "fold logputr rs log = log @ r1"
      using fold_appends [of logputr rs log] logputc_appends by (auto simp: logputr_def)
    moreover obtain r2 where "fold logputc [10, 13] (log @ r1) = (log @ r1) @ r2" using logputc_appends by blast
    ultimately show ?thesis by (simp add: log_row_def)
  qed
  then show ?thesis unfolding print_tf_def by (intro fold_appends)
qed

lemma logprintf_appends: "logprintf fmt va log = Some log' \<Longrightarrow> \<exists>rest. log' = log @ rest"
  using logputc_appends by (auto simp: logprintf_def)

lemma abort_log_appends: "abort_log n tid tf log = Some dumped \<Longrightarrow> \<exists>rest. dumped = log @ rest"
proof -
  assume "abort_log n tid tf log = Some dumped"
  then obtain l1 l2 l3 where l: "logprintf [10, 13, 10, 13, 10, 13, 0] [] log = Some l1"
    "logprintf (str_line ''Num ctx sw: %d'') [ARG_INT n] l1 = Some l2"
    "logprintf (str_line ''Abort task id: %d'') [ARG_INT tid] l2 = Some l3" "dumped = print_tf tf l3"
    by (auto simp: abort_log_def split: bind_splits)
  obtain r1 r2 r3 where "l1 = log @ r1" "l2 = l1 @ r2" "l3 = l2 @ r3"
    using logprintf_appends [OF l(1)] logprintf_appends [OF l(2)] logprintf_appends [OF l(3)] by blast
  moreover obtain r4 where "dumped = l3 @ r4" using print_tf_appends [of tf l3] l(4) by auto
  ultimately show ?thesis by simp
qed

text \<open>
  When the abort handler reports, it is the first abort, what had been logged before comes first, both
  interrupt controllers are masked and the log is empty; another abort then does not return.
\<close>

lemma abort_reported_once:
  assumes "handle_abort n tid cpsr usage ty addr tf num_aborts regs log = Some (num_aborts', r, printed, log')"
  shows "\<exists>rest. printed = log @ rest" "log' = []" "r (VIC1_BASE + VIC1_ENABLE_OFFSET) = 0"
    "r (VIC2_BASE + VIC2_ENABLE_OFFSET) = 0"
    "0 \<le> num_aborts \<Longrightarrow> handle_abort n2 tid2 cpsr2 usage2 ty2 addr2 tf2 num_aborts' r log' = None"
proof -
  obtain dumped u t where d: "num_aborts' = num_aborts + 1" "abort_log n tid tf log = Some dumped"
    "printed = dumped @ u @ t" "log' = []"
    "r = regs(VIC1_BASE + VIC1_ENABLE_OFFSET := 0, VIC2_BASE + VIC2_ENABLE_OFFSET := 0)"
    using assms by (auto simp: handle_abort_def Let_def split: bind_splits)
  show "\<exists>rest. printed = log @ rest" using abort_log_appends [OF d(2)] d(3) by auto
  show "log' = []" "r (VIC1_BASE + VIC1_ENABLE_OFFSET) = 0" "r (VIC2_BASE + VIC2_ENABLE_OFFSET) = 0"
    using d(4,5) by simp_all
  show "0 \<le> num_aborts \<Longrightarrow> handle_abort n2 tid2 cpsr2 usage2 ty2 addr2 tf2 num_aborts' r log' = None"
    using d(1) by (simp add: handle_abort_def)
qed

end
