(* ===== verification/Syscall_ABI.thy ===== *)
theory Syscall_ABI
  imports Kernel_Properties
begin

text \<open>
  The user side of the system calls, \<open>lib/codes.c\<close>: every wrapper puts its code and arguments into
  the registers \<open>r0\<close> to \<open>r6\<close> and executes \<open>swi\<close>. A wrapper is a function of the registers before the
  call to the frame the trap entry saves; what it returns is \<open>r0\<close> of that frame when the task runs
  again. Together with the kernel: every call reaches the handler meant with the arguments meant, a
  message arrives byte by byte at a task that waits in \<open>Receive\<close>, and the reply at the task that sent.
\<close>

section \<open>The wrappers\<close>

definition SYS_EXIT :: u32 where "SYS_EXIT = 0"
definition SYS_PASS :: u32 where "SYS_PASS = 1"
definition SYS_CREATE :: u32 where "SYS_CREATE = 2"
definition SYS_MYTID :: u32 where "SYS_MYTID = 3"
definition SYS_PARENTTID :: u32 where "SYS_PARENTTID = 4"
definition SYS_PANIC :: u32 where "SYS_PANIC = 5"
definition SYS_SEND :: u32 where "SYS_SEND = 6"
definition SYS_RECEIVE :: u32 where "SYS_RECEIVE = 7"
definition SYS_REPLY :: u32 where "SYS_REPLY = 8"
definition SYS_CACHE_ENABLE :: u32 where "SYS_CACHE_ENABLE = 9"
definition SYS_AWAIT_EVENT :: u32 where "SYS_AWAIT_EVENT = 10"
definition SYS_KILL :: u32 where "SYS_KILL = 11"
definition SYS_MYPRIORITY :: u32 where "SYS_MYPRIORITY = 12"
definition SYS_TOTAL_PROC_USAGE :: u32 where "SYS_TOTAL_PROC_USAGE = 13"
definition SYS_LAST_SECS_PROC_USAGE :: u32 where "SYS_LAST_SECS_PROC_USAGE = 14"
definition SYS_MY_PROC_USAGE :: u32 where "SYS_MY_PROC_USAGE = 15"

text \<open>
  \<open>software_interrupt\<close>: an argument register that the call has no argument for keeps what it held.
\<close>

definition software_interrupt :: "u32 \<Rightarrow> u32 list \<Rightarrow> trapframe \<Rightarrow> trapframe" where
  "software_interrupt code argv regs =
     (let arg = (\<lambda>i old. if length argv > i then argv ! i else old) in
      regs\<lparr>tf_r0 := code, tf_r1 := arg 0 (tf_r1 regs), tf_r2 := arg 1 (tf_r2 regs),
           tf_r3 := arg 2 (tf_r3 regs), tf_r4 := arg 3 (tf_r4 regs), tf_r5 := arg 4 (tf_r5 regs),
           tf_r6 := arg 5 (tf_r6 regs)\<rparr>)"

text \<open>What \<open>software_interrupt\<close> returns.\<close>

definition swi_result :: "trapframe \<Rightarrow> int" where
  "swi_result f = sint (tf_r0 f)"

definition Exit :: "trapframe \<Rightarrow> trapframe" where
  "Exit = software_interrupt SYS_EXIT []"

definition Pass :: "trapframe \<Rightarrow> trapframe" where
  "Pass = software_interrupt SYS_PASS []"

definition Create :: "int \<Rightarrow> u32 \<Rightarrow> trapframe \<Rightarrow> trapframe" where
  "Create priority code = software_interrupt SYS_CREATE [of_int priority, code]"

definition MyTid :: "trapframe \<Rightarrow> trapframe" where
  "MyTid = software_interrupt SYS_MYTID []"

definition MyParentTid :: "trapframe \<Rightarrow> trapframe" where
  "MyParentTid = software_interrupt SYS_PARENTTID []"

definition Panic :: "trapframe \<Rightarrow> trapframe" where
  "Panic = software_interrupt SYS_PANIC []"

definition Send :: "int \<Rightarrow> u32 \<Rightarrow> int \<Rightarrow> u32 \<Rightarrow> int \<Rightarrow> trapframe \<Rightarrow> trapframe" where
  "Send tid msg msglen rep rplen =
     software_interrupt SYS_SEND [of_int tid, msg, of_int msglen, rep, of_int rplen]"

definition Receive :: "u32 \<Rightarrow> u32 \<Rightarrow> int \<Rightarrow> trapframe \<Rightarrow> trapframe" where
  "Receive tid msg msglen = software_interrupt SYS_RECEIVE [tid, msg, of_int msglen]"

definition Reply :: "int \<Rightarrow> u32 \<Rightarrow> int \<Rightarrow> trapframe \<Rightarrow> trapframe" where
  "Reply tid rep rplen = software_interrupt SYS_REPLY [of_int tid, rep, of_int rplen]"

definition MyPriority :: "trapframe \<Rightarrow> trapframe" where
  "MyPriority = software_interrupt SYS_MYPRIORITY []"

definition EnableCaches :: "bool \<Rightarrow> trapframe \<Rightarrow> trapframe" where
  "EnableCaches enable = software_interrupt SYS_CACHE_ENABLE [of_bool enable]"

definition AwaitEvent :: "int \<Rightarrow> trapframe \<Rightarrow> trapframe" where
  "AwaitEvent event_id = software_interrupt SYS_AWAIT_EVENT [of_int event_id]"

text \<open>\<open>AwaitEvent\<close> asserts that the value the kernel puts into \<open>r0\<close> while the task waits is gone.\<close>

definition AwaitEvent_result :: "trapframe \<Rightarrow> int option" where
  "AwaitEvent_result f = (if tf_r0 f = 0xBADDA7A then None else Some (swi_result f))"

definition Kill :: "int \<Rightarrow> trapframe \<Rightarrow> trapframe" where
  "Kill tid = software_interrupt SYS_KILL [of_int tid]"

definition TotalProcUsage :: "u32 \<Rightarrow> trapframe \<Rightarrow> trapframe" where
  "TotalProcUsage stats = software_interrupt SYS_TOTAL_PROC_USAGE [stats]"

definition LastSecondsProcUsage :: "u32 \<Rightarrow> trapframe \<Rightarrow> trapframe" where
  "LastSecondsProcUsage stats = software_interrupt SYS_LAST_SECS_PROC_USAGE [stats]"

definition MyProcUsage :: "trapframe \<Rightarrow> trapframe" where
  "MyProcUsage = software_interrupt SYS_MY_PROC_USAGE []"

lemmas sys_codes = SYS_EXIT_def SYS_PASS_def SYS_CREATE_def SYS_MYTID_def SYS_PARENTTID_def
  SYS_PANIC_def SYS_SEND_def SYS_RECEIVE_def SYS_REPLY_def SYS_CACHE_ENABLE_def
  SYS_AWAIT_EVENT_def SYS_KILL_def SYS_MYPRIORITY_def SYS_TOTAL_PROC_USAGE_def
  SYS_LAST_SECS_PROC_USAGE_def SYS_MY_PROC_USAGE_def

lemmas wrappers = Exit_def Pass_def Create_def MyTid_def MyParentTid_def Panic_def Send_def
  Receive_def Reply_def MyPriority_def EnableCaches_def AwaitEvent_def Kill_def TotalProcUsage_def
  LastSecondsProcUsage_def MyProcUsage_def

section \<open>The calls in the kernel\<close>

text \<open>The call with code \<open>n\<close> is counted, then handled.\<close>

definition counted :: "nat \<Rightarrow> 'a kernel_scheme \<Rightarrow> 'a kernel_scheme" where
  "counted n s = s\<lparr>k_num_syscalls := (k_num_syscalls s)(n := k_num_syscalls s n + 1),
                  k_num_syscalls_total := k_num_syscalls_total s + 1\<rparr>"

text \<open>An argument of type \<open>int\<close> survives the way through a register.\<close>

lemma int_register: "int_range i \<Longrightarrow> sint (of_int i :: u32) = i"
  by (simp add: int_range_def sint_of_int_small)

lemma unat_register: "0 \<le> i \<Longrightarrow> int_range i \<Longrightarrow> unat (of_int i :: u32) = nat i"
  by (simp add: int_range_def unat_eq_nat_uint uint_word_of_int)

lemmas dispatch_simps = dispatch_syscall_def wrappers software_interrupt_def sys_codes Let_def
  NUM_SYSCALL_CODES_def guard_opt_def counted_def

lemma calls_reach_kernel:
  "dispatch_syscall dev s c (Exit regs) = syscall_exit (counted 0 s)"
  "dispatch_syscall dev s c (Pass regs) = syscall_pass (counted 1 s)"
  "int_range p \<Longrightarrow> dispatch_syscall dev s c (Create p code regs) =
     Option.bind (syscall_create (counted 2 s) p code) (ret_r0 c)"
  "dispatch_syscall dev s c (MyTid regs) = ret_r0 c (counted 3 s, syscall_mytid (counted 3 s))"
  "dispatch_syscall dev s c (MyParentTid regs) =
     ret_r0 c (counted 4 s, syscall_myparent_tid (counted 4 s))"
  "dispatch_syscall dev s c (Panic regs) = None"
  "dispatch_syscall dev s c (Send t m ml r rl regs) = syscall_send (counted 6 s)"
  "dispatch_syscall dev s c (Receive tp m ml regs) = syscall_receive (counted 7 s)"
  "dispatch_syscall dev s c (Reply t r rl regs) = syscall_reply (counted 8 s)"
  "dispatch_syscall dev s c (EnableCaches b regs) = Some (counted 9 s)"
  "int_range e \<Longrightarrow> dispatch_syscall dev s c (AwaitEvent e regs) =
     Option.bind (syscall_awaitevent (counted 10 s) e) (ret_r0 c)"
  "int_range t \<Longrightarrow> dispatch_syscall dev s c (Kill t regs) =
     Option.bind (syscall_kill dev (counted 11 s) t) (ret_r0 c)"
  "dispatch_syscall dev s c (MyPriority regs) =
     ret_r0 c (counted 12 s, syscall_mypriority (counted 12 s))"
  "dispatch_syscall dev s c (TotalProcUsage u regs) = Some (syscall_total_proc_usage (counted 13 s) u)"
  "dispatch_syscall dev s c (LastSecondsProcUsage u regs) =
     Some (syscall_last_secs_proc_usage (counted 14 s) u)"
  "dispatch_syscall dev s c (MyProcUsage regs) =
     Option.bind (syscall_my_proc_usage (counted 15 s) (t_tid s c)) (ret_r0 c)"
  by (simp_all add: dispatch_simps int_register)


lemma running_counted: "running s Q M c \<Longrightarrow> running (counted n s) Q M c"
  using core_cong [of "counted n s" s]
  by (simp add: running_def counted_def tasks.truncate_def)

lemma counted_sels [simp]:
  "k_mem (counted n s) = k_mem s" "t_tf (counted n s) = t_tf s" "t_state (counted n s) = t_state s"
  "s_prio (counted n s) = s_prio s" "t_tid (counted n s) = t_tid s"
  "is_valid_userland_tid (counted n s) = is_valid_userland_tid s"
  "task_get_userland_tid (counted n s) = task_get_userland_tid s"
  by (simp_all add: counted_def is_valid_userland_tid_def task_get_userland_tid_def fun_eq_iff Let_def)

lemma wrapper_registers [simp]:
  "tf_r1 (Send t m ml r rl g) = of_int t" "tf_r2 (Send t m ml r rl g) = m"
  "tf_r3 (Send t m ml r rl g) = of_int ml" "tf_r4 (Send t m ml r rl g) = r"
  "tf_r5 (Send t m ml r rl g) = of_int rl"
  "tf_r1 (Receive tp m ml g) = tp" "tf_r2 (Receive tp m ml g) = m" "tf_r3 (Receive tp m ml g) = of_int ml"
  "tf_r1 (Reply t r rl g) = of_int t" "tf_r2 (Reply t r rl g) = r" "tf_r3 (Reply t r rl g) = of_int rl"
  by (simp_all add: wrappers software_interrupt_def)

text \<open>The bytes of a block; two blocks that do not overlap and lie within the memory.\<close>

definition block :: "mem \<Rightarrow> u32 \<Rightarrow> nat \<Rightarrow> u8 list" where
  "block m a n = map (\<lambda>i. m (a + of_nat i)) [0..<n]"

definition apart :: "u32 \<Rightarrow> nat \<Rightarrow> u32 \<Rightarrow> nat \<Rightarrow> bool" where
  "apart a n b k \<longleftrightarrow> unat a + n \<le> 2 ^ 32 \<and> unat b + k \<le> 2 ^ 32 \<and>
     (unat a + n \<le> unat b \<or> unat b + k \<le> unat a)"

lemma unat_offset: "unat (a :: u32) + n \<le> 2 ^ 32 \<Longrightarrow> unat i < n \<Longrightarrow> unat (a + i) = unat a + unat i"
  by (subst unat_add_lem [THEN iffD1]) auto

lemma apart_disjoint:
  assumes "apart d n s n" "unat w = n"
  shows "disjoint_blocks d s w"
  unfolding disjoint_blocks_def
proof (intro allI impI)
  fix i j :: u32 assume "i < w" "j < w"
  then have "unat i < n" "unat j < n" using assms(2) by (simp_all add: word_less_nat_alt)
  then have "unat (d + i) = unat d + unat i" "unat (s + j) = unat s + unat j"
    "unat d + unat i \<noteq> unat s + unat j"
    using assms(1) unat_offset [of d n i] unat_offset [of s n j] by (auto simp: apart_def)
  then show "d + i \<noteq> s + j" by metis
qed

lemma block_copied:
  assumes "apart d n s n" "unat w = n"
  shows "block (tmemcpy m d s w) d n = block m s n"
proof -
  have "n < 2 ^ 32" using unsigned_less [of w, where 'a = nat] assms(2) by simp
  then have "of_nat i < w" if "i < n" for i
    using that assms(2) by (simp add: word_less_nat_alt unat_of_nat)
  then show ?thesis
    unfolding block_def tmemcpy_blit [OF apart_disjoint [OF assms]] by (auto simp: blit_def)
qed

lemma block_store32:
  assumes "apart d n p 4"
  shows "block (store32 m p v) d n = block m d n"
  unfolding block_def
proof (rule map_cong [OF refl])
  fix i assume "i \<in> set [0..<n]"
  then have i: "unat (of_nat i :: u32) = i" "i < n"
    using assms by (auto simp: apart_def unat_of_nat)
  have "d + of_nat i \<noteq> p + k" if "unat k < 4" for k
  proof -
    have "unat (d + of_nat i) = unat d + i" "unat (p + k) = unat p + unat k"
      using assms that i unat_offset [of d n "of_nat i"] unat_offset [of p 4 k] by (auto simp: apart_def)
    moreover have "unat d + i < unat p \<or> unat p + 4 \<le> unat d + i"
      using assms i(2) by (auto simp: apart_def)
    ultimately have "unat (d + of_nat i) \<noteq> unat (p + k)" using that by linarith
    then show ?thesis by metis
  qed
  from this [of 0] this [of 1] this [of 2] this [of 3]
  show "store32 m p v (d + of_nat i) = m (d + of_nat i)" by (simp add: store32_def)
qed


section \<open>Properties\<close>

text \<open>The sample kernel with task 1 about to trap with the frame \<open>f\<close>, every byte of memory the low byte of its address.\<close>

definition sending :: "trapframe \<Rightarrow> kernel" where
  "sending f = (sample_kernel f)\<lparr>k_mem := ucast\<rparr>"

lemma sending_running: "sp_in_stack 1 (tf_sp f) \<Longrightarrow> running (sending f) sample_Q sample_M 1"
  using sample_running [of f] core_cong [of "sending f" "sample_kernel f"]
  by (simp add: running_def sending_def tasks.truncate_def)

lemma sending_sels:
  "t_tf (sending f) = (\<lambda>t. if t = 1 then Some f else if t < 7 then Some (sample_tf t) else None)"
  "t_state (sending f) = t_state (sample_kernel f)" "k_mem (sending f) = ucast"
  by (simp_all add: sending_def)

lemma sending_tid: "0 < t \<Longrightarrow> t < 7 \<Longrightarrow> task_get_userland_tid (sending f) t = int t"
  using int_register [of "int t"] by (simp add: sending_def task_get_userland_tid_def int_range_def)

lemma sending_sp: "sp_in_stack 1 (tf_sp (software_interrupt n a (sample_tf 1)))"
  using sample_tf_sp [of 1] by (simp add: software_interrupt_def)

lemma waiting_frames:
  "sample_tf 2 = (Receive 0x500 0x600 8 (sample_tf 2))\<lparr>tf_r0 := 0\<rparr>"
  "sample_tf 4 = (Send 0x500 0x600 8 0x700 4 (sample_tf 4))\<lparr>tf_r0 := 0\<rparr>"
  by (simp_all add: wrappers software_interrupt_def sample_tf_def)

text \<open>
  C4: a task calls \<open>Send\<close> for one that waits in \<open>Receive\<close>. From the registers the two wrappers fill,
  the kernel brings the message into the receiver's buffer, byte by byte and cut to its length; the
  receiver finds the tid of the sender where it asked for it, and \<open>Receive\<close> returns the length of the
  message, or -1 if it was cut; it is ready to run, at the end of the queue of its priority, and the
  sender waits for the reply.
\<close>

theorem Send_reaches_receiver:
  assumes run: "running s Q M c"
    and sender: "t_tf s c = Some (Send tid msg msglen rep rplen regs)" "int_range tid"
      "is_valid_userland_tid s tid" "get_task_with_userland_tid tid = Some r"
    and receiver: "t_state s r = TASK_SEND_BLOCKED"
      "t_tf s r = Some ((Receive tidp buf buflen regs')\<lparr>tf_r0 := x\<rparr>)"
    and len: "0 \<le> msglen" "int_range msglen" "0 \<le> buflen" "int_range buflen" "n = nat (min msglen buflen)"
    and apart: "apart buf n msg n" "apart buf n tidp 4"
  shows "\<exists>s' h. dispatch_syscall dev s c (Send tid msg msglen rep rplen regs) = Some s' \<and>
    t_tf s' r = Some h \<and> swi_result h = (if msglen > buflen then -1 else msglen) \<and>
    block (k_mem s') buf n = block (k_mem s) msg n \<and>
    load32 (k_mem s') tidp = of_int (task_get_userland_tid s c) \<and>
    t_state s' = (t_state s)(c := TASK_REPLY_BLOCKED, r := TASK_RUNNABLE) \<and>
    kernel_core s' (Q(nat (s_prio s r) := Q (nat (s_prio s r)) @ [r])) M {}"
proof -
  define w where "w = sent_length (Send tid msg msglen rep rplen regs) ((Receive tidp buf buflen regs')\<lparr>tf_r0 := x\<rparr>)"
  have sints: "sint (of_int tid :: u32) = tid" "sint (of_int msglen :: u32) = msglen"
    "sint (of_int buflen :: u32) = buflen"
    using sender(2) len by (simp_all add: int_register)
  have w: "w = of_int (min msglen buflen)"
    by (auto simp: w_def sent_length_def sints min_def)
  have "unat w = n" using len by (auto simp: w unat_register min_def)
  note copied = block_copied [OF apart(1) this]
  obtain s' where s': "syscall_send (counted 6 s) = Some s'"
    "k_mem s' = store32 (tmemcpy (k_mem s) buf msg w) tidp (of_int (task_get_userland_tid s c))"
    "t_tf s' = (t_tf s)(r := Some ((Receive tidp buf buflen regs')\<lparr>tf_r0 := receive_result
       (Send tid msg msglen rep rplen regs) ((Receive tidp buf buflen regs')\<lparr>tf_r0 := x\<rparr>)\<rparr>))"
    "t_state s' = (t_state s)(c := TASK_REPLY_BLOCKED, r := TASK_RUNNABLE)"
    "kernel_core s' (Q(nat (s_prio s r) := Q (nat (s_prio s r)) @ [r])) M {}"
    using send_delivers [OF running_counted [OF run, of 6], of "Send tid msg msglen rep rplen regs" r
        "(Receive tidp buf buflen regs')\<lparr>tf_r0 := x\<rparr>"] sender receiver
    by (auto simp: sints w_def)
  have "dispatch_syscall dev s c (Send tid msg msglen rep rplen regs) = Some s'"
    using s'(1) by (simp add: calls_reach_kernel)
  moreover have "block (k_mem s') buf n = block (k_mem s) msg n"
    unfolding s'(2) block_store32 [OF apart(2)] by (rule copied)
  moreover have "swi_result ((Receive tidp buf buflen regs')\<lparr>tf_r0 := receive_result
      (Send tid msg msglen rep rplen regs) ((Receive tidp buf buflen regs')\<lparr>tf_r0 := x\<rparr>)\<rparr>) =
      (if msglen > buflen then -1 else msglen)"
    by (simp add: swi_result_def receive_result_def sints)
  ultimately show ?thesis using s'(4,5) by (auto simp: s'(2,3) load32_store32)
qed

theorem Send_reaches_receiver_witness:
  "\<exists>s' h. dispatch_syscall no_device (sending (Send 2 0x300 10 0x400 4 (sample_tf 1))) 1
       (Send 2 0x300 10 0x400 4 (sample_tf 1)) = Some s' \<and>
     t_tf s' 2 = Some h \<and> swi_result h = -1 \<and> block (k_mem s') 0x600 8 = [0, 1, 2, 3, 4, 5, 6, 7] \<and>
     load32 (k_mem s') 0x500 = 1"
proof -
  let ?f = "Send 2 0x300 10 0x400 4 (sample_tf 1)"
  have r: "running (sending ?f) sample_Q sample_M 1"
    by (rule sending_running) (simp add: Send_def sending_sp [simplified])
  have t: "is_valid_userland_tid (sending ?f) 2" "get_task_with_userland_tid 2 = Some 2"
    using sample_tid_free [of 2] by (simp_all add: valid_tid_iff sending_def tid_free_def)
  have f: "t_tf (sending ?f) 1 = Some ?f"
    "t_tf (sending ?f) 2 = Some ((Receive 0x500 0x600 8 (sample_tf 2))\<lparr>tf_r0 := 0\<rparr>)"
    "t_state (sending ?f) 2 = TASK_SEND_BLOCKED"
    using waiting_frames(1) by (simp_all add: sending_sels)
  have b: "block (k_mem (sending ?f)) 0x300 8 = [0, 1, 2, 3, 4, 5, 6, 7]"
    by (simp add: block_def upt_rec sending_sels)
  from Send_reaches_receiver [OF r f(1) _ t f(3,2) _ _ _ _ refl, of no_device] b show ?thesis
    by (auto simp: int_range_def apart_def sending_tid)
qed

text \<open>
  C5: a task that has received calls \<open>Reply\<close> with the tid it was given. The reply arrives, byte by
  byte and cut to the length of the buffer, in the buffer that the sender named in \<open>Send\<close>, and in no
  other: \<open>Send\<close> returns the length of the reply and \<open>Reply\<close> 0, or both -1 if it was cut; the sender is
  ready to run, at the end of the queue of its priority.
\<close>

theorem Reply_reaches_sender:
  assumes run: "running s Q M c"
    and replier: "t_tf s c = Some (Reply (task_get_userland_tid s t) rep rplen regs)"
    and sender: "t < 64" "t_state s t = TASK_REPLY_BLOCKED"
      "t_tf s t = Some ((Send tid msg msglen buf buflen regs')\<lparr>tf_r0 := x\<rparr>)"
    and len: "0 \<le> rplen" "int_range rplen" "0 \<le> buflen" "int_range buflen" "n = nat (min rplen buflen)"
    and apart: "apart buf n rep n"
  shows "\<exists>s' g h. dispatch_syscall dev s c (Reply (task_get_userland_tid s t) rep rplen regs) = Some s' \<and>
    t_tf s' t = Some h \<and> swi_result h = (if rplen > buflen then -1 else rplen) \<and>
    t_tf s' c = Some g \<and> swi_result g = (if rplen > buflen then -1 else 0) \<and>
    block (k_mem s') buf n = block (k_mem s) rep n \<and>
    (\<forall>a. \<not> a - buf < of_nat n \<longrightarrow> k_mem s' a = k_mem s a) \<and>
    t_state s' = (t_state s)(t := TASK_RUNNABLE) \<and>
    kernel_core s' (Q(nat (s_prio s t) := Q (nat (s_prio s t)) @ [t])) M {c}"
proof -
  let ?tid = "task_get_userland_tid s t"
  let ?f = "(Send tid msg msglen buf buflen regs')\<lparr>tf_r0 := x\<rparr>" and ?g = "Reply ?tid rep rplen regs"
  have "tids_inv s" using runningD(1) [OF run] by (simp add: kernel_core_def)
  from tid_leads_back [OF this sender(1)] sender(2)
  have lead: "get_task_with_userland_tid ?tid = Some t" "is_valid_userland_tid s ?tid" "int_range ?tid"
    by (simp_all add: int_range_def)
  have sints: "sint (of_int ?tid :: u32) = ?tid" "sint (of_int rplen :: u32) = rplen"
    "sint (of_int buflen :: u32) = buflen"
    using lead(3) len by (simp_all add: int_register)
  have tr: "reply_truncated ?f ?g \<longleftrightarrow> rplen > buflen" by (simp add: reply_truncated_def sints)
  define w :: u32 where "w = (if rplen > buflen then of_int buflen else of_int rplen)"
  have w: "unat w = n" using len by (auto simp: w_def unat_register min_def)
  then have wn: "w = of_nat n" by auto
  obtain s' where s': "syscall_reply (counted 8 s) = Some s'" "k_mem s' = tmemcpy (k_mem s) buf rep w"
    "t_tf s' = (t_tf s)(t := Some (?f\<lparr>tf_r0 := if rplen > buflen then -1 else of_int rplen\<rparr>),
       c := Some (?g\<lparr>tf_r0 := if rplen > buflen then -1 else 0\<rparr>))"
    "t_state s' = (t_state s)(t := TASK_RUNNABLE)"
    "kernel_core s' (Q(nat (s_prio s t) := Q (nat (s_prio s t)) @ [t])) M {c}"
    using reply_delivers [OF running_counted [OF run, of 8], of ?g t ?f] replier sender lead
    by (auto simp: sints tr w_def)
  have "t \<noteq> c" using runningD(4) [OF run] sender(2) by auto
  moreover have "dispatch_syscall dev s c ?g = Some s'" using s'(1) by (simp add: calls_reach_kernel)
  moreover have "block (k_mem s') buf n = block (k_mem s) rep n"
    unfolding s'(2) by (rule block_copied [OF apart w])
  moreover have "k_mem s' a = k_mem s a" if "\<not> a - buf < of_nat n" for a
    using that unfolding s'(2) tmemcpy_blit [OF apart_disjoint [OF apart w]] by (simp add: blit_def wn)
  ultimately show ?thesis using s'(3-5) by (auto simp: swi_result_def sints)
qed

theorem Reply_reaches_sender_witness:
  "\<exists>s' h. dispatch_syscall no_device (sending (Reply 4 0x301 3 (sample_tf 1))) 1
       (Reply 4 0x301 3 (sample_tf 1)) = Some s' \<and>
     t_tf s' 4 = Some h \<and> swi_result h = 3 \<and> block (k_mem s') 0x700 3 = [1, 2, 3] \<and>
     t_state s' 4 = TASK_RUNNABLE"
proof -
  let ?f = "Reply 4 0x301 3 (sample_tf 1)"
  have r: "running (sending ?f) sample_Q sample_M 1"
    by (rule sending_running) (simp add: Reply_def sending_sp [simplified])
  have tid: "task_get_userland_tid (sending ?f) 4 = 4" by (simp add: sending_tid)
  have f: "t_tf (sending ?f) 1 = Some (Reply (task_get_userland_tid (sending ?f) 4) 0x301 3 (sample_tf 1))"
    "t_tf (sending ?f) 4 = Some ((Send 0x500 0x600 8 0x700 4 (sample_tf 4))\<lparr>tf_r0 := 0\<rparr>)"
    "t_state (sending ?f) 4 = TASK_REPLY_BLOCKED"
    using waiting_frames(2) tid by (simp_all add: sending_sels)
  have b: "block (k_mem (sending ?f)) 0x301 3 = [1, 2, 3]"
    by (simp add: block_def upt_rec sending_sels)
  from Reply_reaches_sender [OF r f(1) _ f(3,2) _ _ _ _ refl, of no_device] b show ?thesis
    by (auto simp: int_range_def apart_def sending_tid)
qed

end
