(* ===== verification/Interrupts.thy ===== *)
theory Interrupts
  imports Board Syscall_ABI
begin

text \<open>
  An interrupt on its way from the status words of the controllers to the task that waits in
  \<open>AwaitEvent\<close>: \<open>handle_hwi\<close> and \<open>handle_vic_event\<close> of \<open>kernel/src/interrupt.c\<close> with the events of
  \<open>kernel/src/events.c\<close> and the handshake of the train's line in \<open>kernel/src/iio.c\<close>. The theorems: the
  task that waits is made ready and \<open>AwaitEvent\<close> returns 0; for a byte to the trains the transmitter has
  to be empty and the line clear to send, in whichever order the two are noticed.
\<close>

lemma handle_vic_wakes:
  assumes run: "running s Q M c" and same: "same_tasks s s1" and e: "e < 5" and t: "k_registered s e = Some t"
  shows "\<exists>s' f. event_handle s1 (int e) 0 = Some s' \<and> t_state s' t = TASK_RUNNABLE \<and> t_tf s' t = Some f \<and>
    AwaitEvent_result f = Some 0 \<and> k_registered s' e = None \<and> (\<exists>Q'. running s' Q' M c)"
proof -
  have r1: "running s1 Q M c" and t1: "k_registered s1 e = Some t"
    using running_same_tasks [OF same run] same t by (simp_all add: same_tasks_def)
  from runningD [OF r1] have k: "kernel_core s1 Q M {c}" "zombies_quiet s1 M" "t_state s1 c = TASK_ACTIVE" by auto
  have b: "0 \<le> int e" "int e \<le> 4" using e by simp_all
  have nd: "\<not> event_dropped s1 (int e)" using t1 by (simp add: event_dropped_def)
  obtain s' Q' where s': "event_handle s1 (int e) 0 = Some s'" "kframe s1 s'" "zombies_quiet s' M" "kernel_core s' Q' M {c}"
    "t_state s' c = TASK_ACTIVE" "t_state s' t = TASK_RUNNABLE" "k_registered s' e = None"
    "map_option tf_r0 (t_tf s' t) = Some 0"
    using event_handle_core [OF k b, of 0] nd t1 by auto
  then have "running s' Q' M c" using runningD(3) [OF r1] by (simp add: running_def kframe_def)
  moreover obtain f where "t_tf s' t = Some f" "tf_r0 f = 0" using s'(8) by auto
  ultimately show ?thesis using s'(1,6,7) by (auto simp: AwaitEvent_result_def swi_result_def intro!: exI [of _ f])
qed

text \<open>The events but that of the train's transmitter come from one interrupt alone.\<close>

theorem interrupt_reaches_waiter:
  assumes run: "running s Q M c" and status: "get_highest_vic_bit_event_id (d_vic1 dev) = int e" "e < 5" "e \<noteq> 2"
    and t: "k_registered s e = Some t"
  shows "\<exists>s' f. handle_hwi dev s = Some s' \<and> t_state s' t = TASK_RUNNABLE \<and> t_tf s' t = Some f \<and>
    AwaitEvent_result f = Some 0 \<and> k_registered s' e = None \<and> (\<exists>Q'. running s' Q' M c)"
proof -
  from status consider "e = 0" | "e = 1" | "e = 3" | "e = 4" by linarith
  then show ?thesis
  proof cases
    case 1
    then show ?thesis using handle_vic_wakes [OF run same_tasks_device(1) status(2) t] status(1)
      by (simp add: handle_hwi_def handle_vic_event_def)
  next
    case 2
    then show ?thesis using handle_vic_wakes [OF run same_tasks_device(2) status(2) t] status(1)
      by (simp add: handle_hwi_def handle_vic_event_def)
  next
    case 3
    then show ?thesis using handle_vic_wakes [OF run same_tasks_device(2) status(2) t] status(1)
      by (simp add: handle_hwi_def handle_vic_event_def)
  next
    case 4
    then show ?thesis using handle_vic_wakes [OF run same_tasks_device(5) status(2) t] status(1)
      by (simp add: handle_hwi_def handle_vic_event_def)
  qed
qed

section \<open>The handshake of the train's line\<close>

text \<open>Interrupts one after the other while one task is interrupted.\<close>

fun hwi_run :: "device_input list \<Rightarrow> 'a kernel_scheme \<Rightarrow> 'a kernel_scheme option" where
  "hwi_run [] s = Some s"
| "hwi_run (d # ds) s = Option.bind (handle_hwi d s) (hwi_run ds)"

text \<open>The two interrupts of the line: its transmitter is empty; a modem signal, with the flag register.\<close>

definition tx_interrupt :: "device_input \<Rightarrow> bool" where
  "tx_interrupt d \<longleftrightarrow> get_highest_vic_bit_event_id (d_vic1 d) = 2"

definition modem_interrupt :: "device_input \<Rightarrow> bool" where
  "modem_interrupt d \<longleftrightarrow> get_highest_vic_bit_event_id (d_vic1 d) = -1 \<and> d_modem d"

definition line_interrupt :: "device_input \<Rightarrow> bool" where
  "line_interrupt d \<longleftrightarrow> tx_interrupt d \<or> modem_interrupt d"

text \<open>Seen so far: an empty transmitter, a clear line.\<close>

definition seen_empty :: "device_input list \<Rightarrow> bool" where
  "seen_empty ds \<longleftrightarrow> list_ex tx_interrupt ds"

definition seen_clear :: "device_input list \<Rightarrow> bool" where
  "seen_clear ds \<longleftrightarrow> list_ex (\<lambda>d. modem_interrupt d \<and> d_uart_flag d AND 1 \<noteq> 0) ds"

lemma seen_snoc:
  "seen_empty (ds @ [d]) \<longleftrightarrow> seen_empty ds \<or> tx_interrupt d"
  "seen_clear (ds @ [d]) \<longleftrightarrow> seen_clear ds \<or> modem_interrupt d \<and> d_uart_flag d AND 1 \<noteq> 0"
  by (auto simp: seen_empty_def seen_clear_def)

text \<open>The state of the line in the kernel after the interrupts \<open>ds\<close>, the task \<open>t\<close> waiting.\<close>

definition line_waiting :: "'a kernel_scheme \<Rightarrow> (nat \<Rightarrow> tptr list) \<Rightarrow> (nat \<Rightarrow> tptr list) \<Rightarrow> tptr \<Rightarrow> tptr \<Rightarrow> device_input list \<Rightarrow> bool" where
  "line_waiting s Q M c t ds \<longleftrightarrow> running s Q M c \<and> k_registered s 2 = Some t \<and>
     (k_uart0_txfe_asserted s \<noteq> 0 \<longleftrightarrow> seen_empty ds) \<and> (k_uart0_cts_asserted s \<noteq> 0 \<longleftrightarrow> seen_clear ds)"

lemma line_waiting_blocked:
  assumes "line_waiting s Q M c t ds"
  shows "t_state s t = TASK_EVENT_BLOCKED"
proof -
  from assms have "kernel_core s Q M {c}" "k_registered s 2 = Some t" by (simp_all add: line_waiting_def running_def)
  from events_okD(5) [OF kernel_coreD(5) [OF this(1)] _ this(2)] show ?thesis by (simp add: MAX_EVENT_ID_def)
qed

lemma or_bit_nonzero: "(a :: u32) OR b \<noteq> 0 \<longleftrightarrow> a \<noteq> 0 \<or> b \<noteq> 0"
  by (metis word_bw_comms(2) word_log_esimps(3) or_eq_0_iff)

lemma register_task_line:
  assumes "register_task s t = Some (s', r)"
  shows "k_uart0_txfe_asserted s' = k_uart0_txfe_asserted s \<and> k_uart0_cts_asserted s' = k_uart0_cts_asserted s"
  using assms
  by (auto simp: register_task_def scheduler_register_def scheduler_set_nonempty_def Let_def split: bind_splits if_splits)

lemma event_handle_line:
  assumes "event_handle s e d = Some s'"
  shows "k_uart0_txfe_asserted s' = k_uart0_txfe_asserted s \<and> k_uart0_cts_asserted s' = k_uart0_cts_asserted s"
  using assms
  by (auto simp: event_handle_def upd_tf_def task_set_state_def Let_def dest!: register_task_line split: bind_splits if_splits)

lemma line_step:
  assumes w: "line_waiting s Q M c t ds" and open': "\<not> (seen_empty ds \<and> seen_clear ds)" and d: "line_interrupt d"
  shows "if seen_empty (ds @ [d]) \<and> seen_clear (ds @ [d])
    then \<exists>s' f. handle_hwi d s = Some s' \<and> t_state s' t = TASK_RUNNABLE \<and> t_tf s' t = Some f \<and>
      AwaitEvent_result f = Some 0 \<and> k_uart0_txfe_asserted s' = 0 \<and> k_uart0_cts_asserted s' = 0
    else \<exists>s'. handle_hwi d s = Some s' \<and> line_waiting s' Q M c t (ds @ [d])"
proof -
  from w have run: "running s Q M c" and t: "k_registered s 2 = Some t"
    and flags: "k_uart0_txfe_asserted s \<noteq> 0 \<longleftrightarrow> seen_empty ds" "k_uart0_cts_asserted s \<noteq> 0 \<longleftrightarrow> seen_clear ds"
    by (simp_all add: line_waiting_def)
  define s0 where "s0 = (if tx_interrupt d then interrupt_tx_clear s TRAIN else maybe_received_cts s (d_uart_flag d))"
  have same: "same_tasks s s0" by (simp add: s0_def)
  have f0: "k_uart0_txfe_asserted s0 \<noteq> 0 \<longleftrightarrow> seen_empty (ds @ [d])"
    "k_uart0_cts_asserted s0 \<noteq> 0 \<longleftrightarrow> seen_clear (ds @ [d])"
    using d flags
    by (auto simp: s0_def seen_snoc line_interrupt_def modem_interrupt_def tx_interrupt_def interrupt_tx_clear_def
        maybe_received_cts_def enable_uart_interrupt_def Let_def or_bit_nonzero)
  have h: "handle_hwi d s = (case try_clear_train_send s0 of (s1, cts) \<Rightarrow> if cts then event_handle s1 2 0 else Some s1)"
    using d by (auto simp: handle_hwi_def handle_vic_event_def s0_def line_interrupt_def modem_interrupt_def tx_interrupt_def
        split: prod.split)
  show ?thesis
  proof (cases "seen_empty (ds @ [d]) \<and> seen_clear (ds @ [d])")
    case True
    then have tc: "try_clear_train_send s0 = (s0\<lparr>k_uart0_txfe_asserted := 0, k_uart0_cts_asserted := 0\<rparr>, True)"
      using f0 by (simp add: try_clear_train_send_def)
    have "same_tasks s (fst (try_clear_train_send s0))" by (rule same_tasks_trans [OF same same_tasks_device(4)])
    from handle_vic_wakes [OF run this _ t] obtain s' f where
      "event_handle (fst (try_clear_train_send s0)) 2 0 = Some s'" "t_state s' t = TASK_RUNNABLE" "t_tf s' t = Some f"
      "AwaitEvent_result f = Some 0" by auto
    then show ?thesis using True event_handle_line [of _ 2 0 s'] by (auto simp: h tc)
  next
    case False
    then have "try_clear_train_send s0 = (s0, False)" using f0 by (auto simp: try_clear_train_send_def)
    moreover have "line_waiting s0 Q M c t (ds @ [d])"
      using running_same_tasks [OF same run] same t f0 by (simp add: line_waiting_def same_tasks_def)
    ultimately show ?thesis using False by (auto simp: h)
  qed
qed

lemma seen_prefix: "seen_empty ds \<Longrightarrow> seen_empty (ds @ es)" "seen_clear ds \<Longrightarrow> seen_clear (ds @ es)"
  by (simp_all add: seen_empty_def seen_clear_def)

lemma hwi_run_snoc: "hwi_run (ds @ [d]) s = Option.bind (hwi_run ds s) (handle_hwi d)"
  by (induction ds arbitrary: s) (auto split: bind_splits)

lemma line_run:
  assumes "line_waiting s Q M c t []" "list_all line_interrupt ds" "\<not> (seen_empty ds \<and> seen_clear ds)"
  shows "\<exists>s'. hwi_run ds s = Some s' \<and> line_waiting s' Q M c t ds"
  using assms(2,3)
proof (induction ds rule: rev_induct)
  case (snoc d ds)
  then have n: "\<not> (seen_empty ds \<and> seen_clear ds)" using seen_prefix [of ds "[d]"] by auto
  with snoc obtain s' where "hwi_run ds s = Some s'" "line_waiting s' Q M c t ds" by auto
  with line_step [OF this(2) n, of d] snoc.prems show ?case by (auto simp: hwi_run_snoc)
qed (use assms(1) in simp)

text \<open>
  C7: a task waits for the transmitter of the trains, nothing having been noticed of the line. Whatever
  interrupts of the line come, transmitter empty or modem, in any order and number: as long as not both an
  empty transmitter and a clear line have been seen the task stays blocked; with the first interrupt after
  which both have been, it is ready, its \<open>AwaitEvent\<close> returns 0, and both notes are cleared for the next
  byte.
\<close>

theorem train_byte_waits_for_both:
  assumes "running s Q M c" "k_registered s 2 = Some t" "k_uart0_txfe_asserted s = 0" "k_uart0_cts_asserted s = 0"
    and "list_all line_interrupt (ds @ [d])" "\<not> (seen_empty ds \<and> seen_clear ds)"
  shows "\<exists>s'. hwi_run ds s = Some s' \<and> t_state s' t = TASK_EVENT_BLOCKED \<and>
    (if seen_empty (ds @ [d]) \<and> seen_clear (ds @ [d])
     then \<exists>s'' f. handle_hwi d s' = Some s'' \<and> t_state s'' t = TASK_RUNNABLE \<and> t_tf s'' t = Some f \<and>
       AwaitEvent_result f = Some 0 \<and> k_uart0_txfe_asserted s'' = 0 \<and> k_uart0_cts_asserted s'' = 0
     else \<exists>s''. handle_hwi d s' = Some s'' \<and> t_state s'' t = TASK_EVENT_BLOCKED)"
proof -
  have "line_waiting s Q M c t []" using assms(1-4) by (simp add: line_waiting_def seen_empty_def seen_clear_def)
  from line_run [OF this _ assms(6)] assms(5) obtain s' where
    s': "hwi_run ds s = Some s'" "line_waiting s' Q M c t ds" by auto
  with line_step [OF s'(2) assms(6), of d] assms(5) show ?thesis
    using line_waiting_blocked by (fastforce split: if_splits)
qed

text \<open>The sample kernel, task 5 waiting for the transmitter of the trains.\<close>

definition line_kernel :: kernel where
  "line_kernel = (calling 0)\<lparr>k_registered := (\<lambda>_. None)(2 := Some 5), t_blocked_on := (\<lambda>_. NOT_BLOCKED)(5 := 2)\<rparr>"

lemma line_kernel_running: "running line_kernel sample_Q sample_M 1"
proof -
  note core = runningD [OF calling_running [of 0]]
  note parts = kernel_coreD [OF core(1)]
  have ev: "t_state line_kernel t = TASK_EVENT_BLOCKED \<longleftrightarrow> t = 5" for t
    by (auto simp: line_kernel_def calling_def split: if_splits)
  then have "{t. t < 64 \<and> t_state line_kernel t = TASK_EVENT_BLOCKED} = {5}" by auto
  then have "events_ok line_kernel {1}"
    unfolding events_ok_def ev by (auto simp: MAX_EVENT_ID_def sample_tf_def line_kernel_def calling_def)
  moreover have "tids_inv line_kernel" using parts(2) by (simp add: tids_inv_def tid_free_def line_kernel_def)
  moreover have sq: "sched_inv line_kernel Q = sched_inv (calling 0) Q" for Q
    by (rule sched_inv_cong) (simp_all add: line_kernel_def)
  have "ready_ok line_kernel Q C = ready_ok (calling 0) Q C" for Q C
    unfolding ready_ok_def sq by (simp add: line_kernel_def)
  moreover note this [of sample_Q "{1}"] parts(3)
  moreover have "msg_ok line_kernel sample_M {1}" using parts(4) unfolding msg_ok_def by (simp add: line_kernel_def)
  moreover have "stacks_ok line_kernel" using parts(6) unfolding stacks_ok_def by (simp add: line_kernel_def)
  moreover have "zombies_quiet line_kernel sample_M"
    using core(2) unfolding zombies_quiet_def by (simp add: line_kernel_def)
  ultimately show ?thesis
    using core(3,4) by (simp add: running_def kernel_core_def) (simp add: line_kernel_def)
qed

definition line_clears :: device_input where
  "line_clears = \<lparr>d_vic1 = 0, d_modem = True, d_uart_flag = 1\<rparr>"

definition line_empties :: device_input where
  "line_empties = \<lparr>d_vic1 = event_masks 2, d_modem = False, d_uart_flag = 0\<rparr>"

lemma line_events:
  "modem_interrupt line_clears" "\<not> tx_interrupt line_clears" "tx_interrupt line_empties" "\<not> modem_interrupt line_empties"
  by (simp_all add: modem_interrupt_def tx_interrupt_def line_clears_def line_empties_def
      get_highest_vic_bit_event_id_def event_masks_def upt_rec)

theorem train_byte_waits_for_both_witness:
  "\<exists>s'. hwi_run [line_clears, line_clears] line_kernel = Some s' \<and> t_state s' 5 = TASK_EVENT_BLOCKED \<and>
     (\<exists>s'' f. handle_hwi line_empties s' = Some s'' \<and> t_state s'' 5 = TASK_RUNNABLE \<and> t_tf s'' 5 = Some f \<and>
       AwaitEvent_result f = Some 0 \<and> k_uart0_txfe_asserted s'' = 0 \<and> k_uart0_cts_asserted s'' = 0)"
proof -
  have "k_registered line_kernel 2 = Some 5" "k_uart0_txfe_asserted line_kernel = 0" "k_uart0_cts_asserted line_kernel = 0"
    by (simp_all add: line_kernel_def calling_def sample_kernel_def)
  moreover have "d_uart_flag line_clears AND 1 \<noteq> 0" by (simp add: line_clears_def)
  ultimately show ?thesis
    using train_byte_waits_for_both [OF line_kernel_running, of 5 "[line_clears, line_clears]" line_empties] line_events
    by (simp add: seen_empty_def seen_clear_def line_interrupt_def)
qed

end
