(* ===== verification/Spec2Isabelle.thy ===== *)
theory Spec2Isabelle
  imports Kernel_Properties Route_Properties Client_Calls Sensor_Interpreter Nameserver Group_Conductor Console_IO User_Programs Views Calibration Crash Interrupts
begin

text \<open>
  A verification of the train project: a message-passing microkernel for the TS7200 (under kernel/ and
  lib/), and on it the servers and tasks that drive the trains (under usr/). The build modelled is the
  lab build: TS7200, UART FIFOs off, no TESTING.

  The program. \<open>kmain\<close> boots the kernel and enters the scheduling loop of \<open>schedule.c\<close>: take the ready
  task of the highest priority, run it to its next trap, handle the system call or the interrupt. Tasks
  talk by \<open>Send\<close>, \<open>Receive\<close> and \<open>Reply\<close>, so that every server is a loop over messages, and wait for
  interrupts with \<open>AwaitEvent\<close>. The user program starts the nameserver, the clock server, the I/O
  servers, and the servers of the trains: the command line sends commands to the command dispatcher, that
  one to the conductors; the track state controller keeps what is known of the track and of the trains;
  the sensor interpreter decides which train has triggered a sensor; the coordinates server says where
  each train is; the router plans routes, and the reservation server gives out the edges of the track.

  How it is modelled. A struct is a record, an enum a datatype, \<open>uint32_t\<close> a 32-bit word, \<open>int\<close> an
  \<open>int\<close> with the range checked where a sum or a product may leave it (\<open>int32\<close>), an array a list read
  and written by \<open>array_get\<close> and \<open>array_set\<close>. \<open>None\<close> is behaviour that C leaves undefined, or a failed
  \<open>Assert\<close>, which ends in a panic. A server is a function of its state and one message to the new state
  and the events, what it sends, in order; what the kernel, the clock, a device or another server answers
  is an argument. Loops that may not end are \<open>partial_function\<close>s, and a theorem says where they do end;
  recursion bounded by the C code (\<open>FIND_LIMIT\<close> and the like) keeps that bound as its fuel, the number
  the code passes.

  Theories and sources.
  \<^item> \<open>Trains_Prelude\<close>: arrays, \<open>int\<close> arithmetic, word lemmas.
  \<^item> \<open>Ring_Buffer\<close> (lib/buffer.h), \<open>Priority_Queue\<close> (lib/priority_queue.h), \<open>Task_Queue\<close>
    (kernel/src/queue.h): the container templates, each behind a locale that the clients use.
  \<^item> \<open>Scheduler\<close>, \<open>Task\<close>, \<open>Memory\<close>, \<open>Kernel_State\<close>, \<open>Messaging\<close>, \<open>Events\<close>, \<open>Syscall\<close>
    (kernel/src): the kernel; \<open>Kernel_Inv\<close> its invariant, \<open>Kernel_Step\<close> the round of the loop,
    \<open>Kernel_Properties\<close> the theorems: the invariant in every reachable state, progress, what each call does.
  \<^item> \<open>Syscall_ABI\<close> (lib/codes.c): the calls as a task makes them, the registers of the trap: a message sent
    arrives at the receiver, a reply at the sender, byte for byte.
  \<^item> \<open>Timer\<close> (kernel/include/labenv/timer.c), \<open>Board\<close> (kernel/src/vic.c, main.c): the registers of the timers
    and of the interrupt controllers, what the boot sets up and the end takes down; \<open>Crash\<close> (kassert.c,
    handle_abort.c, usage_stats.c, lib/benchmark.c): what is printed when something fails.
  \<^item> \<open>Interrupts\<close> (kernel/src/interrupt.c, iio.c): from the status of the controllers to the task that waits
    for the event; a byte to the trains waits for an empty transmitter and a clear line.
  \<^item> \<open>Tstd_Strings\<close> (lib/tstdlib.c, lib/tstring.c), \<open>Client_Calls\<close> (lib/codes.c): numbers and strings as
    text and back, \<open>Printf\<close>, the calls of the clients.
  \<^item> \<open>Console_IO\<close> (include/bwio.c, rawio.c, myio.c): the console of the kernel: the buffers lose and reorder
    nothing, its \<open>printf\<close> prints what the one of the clients sends, the waits for the line end.
  \<^item> \<open>Nameserver\<close>, \<open>Clock_Server\<close>, \<open>IO_Server\<close> (usr/nameserver.c, usr/clock.c, usr/ioserver.c): each server
    refines an abstract map or queue in all runs.
  \<^item> \<open>Command_Line\<close> (usr/project.c), \<open>Command_Dispatcher\<close> (usr/command_dispatcher.c): the parser, and
    the queue of commands of each conductor.
  \<^item> \<open>Track_Node\<close>, \<open>Track_A\<close>, \<open>Track_B\<close>, \<open>Track_Data\<close>, \<open>Track_Graph\<close>, \<open>Track_State\<close> (lib/track): the tables of the
    two tracks as data, the queries on them, the default models; \<open>Reservation\<close> and \<open>Track_Properties\<close>
    (usr/train/track_reservation_server.c).
  \<^item> \<open>Route\<close>, \<open>Router\<close>, \<open>Shortest_Route\<close>, \<open>Route_Properties\<close> (usr/train/router.c, train_util.c): the search
    and its correctness against paths of the graph.
  \<^item> \<open>Track_Controller\<close>, \<open>Train_Coordinates\<close>, \<open>Sensor_Interpreter\<close> (usr/train): the servers between the sensors
    and the positions of the trains.
  \<^item> \<open>Train_Commands\<close> (usr/train/commands.c, switcher.c, reverser.c, the resetters): the calls that move
    trains and turnouts, as lists of events; any interleaving of the tasks that switch turnouts keeps the
    crossovers safe.
  \<^item> \<open>Prediction\<close> (usr/train/prediction.c, train_util.c): where a train will be, where it has to be told to
    stop or a turnout to be switched, against the movement of the coordinates server and planned routes.
  \<^item> \<open>Couriers\<close> (usr/train/coordinate_courier.c, multi_coordinate_courier.c, train_model_courier.c): the slots of
    requests, with the invariant of all runs, and that a place reached is reported.
  \<^item> \<open>Train_Conductor\<close> (usr/train/train_conductor.c), \<open>Group_Conductor\<close> (usr/train/multi_train_conductor.c): what
    every command does, event by event; requests fit the courier, a routed train stands at the end, a
    group keeps its order and its distances.
  \<^item> \<open>Views\<close> (usr/views): what stands on the screen after the rounds of each view.
  \<^item> \<open>Small_Tasks\<close> (usr/project.c, notifier.c, sleeper.c, idle.c, anti_freezer.c, sensor_secretary.c,
    parameters.c): the start and the end of the user program, its prints, the tasks without a state.
  \<^item> \<open>Calibration\<close> (usr/train/calibration, t2_demo_task.c): the measurement programs end with the train
    standing; the demo only asks for sensors of the track.
  \<^item> \<open>User_Programs\<close> (usr/k1.c, k2.c, k3.c): the assignment programs, the server of the game over all runs.

  Not modelled. Assembly entry and exit of the kernel, the switch of the caches, the exception vectors of
  the emulator, which have no C semantics here; results in floating point (stopping distances
  interpolated between speeds, the square root in the time to the next sensor, the shares of the time,
  the delay of the idle task), which are arguments of the model; the parts that only the emulator or the
  tests build.
\<close>

end
